(* ===== verification/Prelude.thy ===== *)
theory Prelude
  imports Main "HOL-Library.Word" "HOL-Library.Multiset"
begin

text \<open>
  Shared vocabulary of the development: the machine integers of the Rust sources with
  their checked and saturating operations, the \<^verbatim>\<open>Vec\<close> and \<^verbatim>\<open>VecDeque\<close> operations the
  behaviors use (\<^verbatim>\<open>position\<close>, \<^verbatim>\<open>remove\<close>, insertion of a value that is not yet a member),
  and the collections of facts the component theories feed.
\<close>

section \<open>Collections of facts\<close>

named_theorems core_defs \<open>definitions of the action algebra\<close>
named_theorems word_facts \<open>order and successor facts on machine words\<close>

section \<open>Machine integers\<close>

text \<open>\<^verbatim>\<open>u64\<close> and \<^verbatim>\<open>u32\<close> are words; \<^verbatim>\<open>usize\<close> counts elements of a collection and is a \<open>nat\<close>.\<close>

type_synonym u64 = "64 word"
type_synonym u32 = "32 word"
type_synonym usize = nat

text \<open>A \<^verbatim>\<open>Duration\<close> is its number of nanoseconds, an \<^verbatim>\<open>Instant\<close> a point of a linear clock.\<close>

type_synonym duration = nat
type_synonym instant = int

definition checked_add :: "'w::len word \<Rightarrow> 'w word \<Rightarrow> 'w word option" where
  "checked_add a b = (if unat a + unat b < 2 ^ LENGTH('w) then Some (a + b) else None)"

definition saturating_add :: "'w::len word \<Rightarrow> 'w word \<Rightarrow> 'w word" where
  "saturating_add a b = (if unat a + unat b < 2 ^ LENGTH('w) then a + b else - 1)"

section \<open>Vector operations\<close>

text \<open>\<^verbatim>\<open>iter().position(p)\<close>: the index of the first element that satisfies the predicate.\<close>

primrec position :: "('a \<Rightarrow> bool) \<Rightarrow> 'a list \<Rightarrow> nat option" where
  "position P [] = None"
| "position P (x # xs) = (if P x then Some 0 else map_option Suc (position P xs))"

text \<open>\<^verbatim>\<open>Vec::remove(index)\<close> for an index in range: later elements move down by one.\<close>

definition remove_at :: "nat \<Rightarrow> 'a list \<Rightarrow> 'a list" where
  "remove_at i xs = take i xs @ drop (Suc i) xs"

text \<open>The idiom \<^verbatim>\<open>if !xs.contains(&x) { xs.push(x) }\<close> and the loop that normalises a whole list.\<close>

definition push_unique :: "'a list \<Rightarrow> 'a \<Rightarrow> 'a list" where
  "push_unique xs x = (if x \<in> set xs then xs else xs @ [x])"

definition unique_in_order :: "'a list \<Rightarrow> 'a list" where
  "unique_in_order xs = foldl push_unique [] xs"

section \<open>Facts on words\<close>

lemma checked_add_Some_iff:
  fixes a b c :: "'w::len word"
  shows "checked_add a b = Some c \<longleftrightarrow> unat a + unat b < 2 ^ LENGTH('w) \<and> c = a + b"
  by (auto simp: checked_add_def)

lemma unat_checked_add: "checked_add a b = Some c \<Longrightarrow> unat c = unat a + unat b"
  by (auto simp: checked_add_Some_iff unat_word_ariths)

lemma unat_le_max: "unat (w :: 'w::len word) \<le> 2 ^ LENGTH('w) - 1"
proof -
  have "unat w < 2 ^ LENGTH('w)" by (rule unsigned_less)
  then show ?thesis by linarith
qed

lemma unat_max_word: "unat (- 1 :: 'w::len word) = 2 ^ LENGTH('w) - 1"
proof -
  have "unat (- 1 :: 'w word) = unat (0 - 1 :: 'w word)" by simp
  also have "\<dots> = 2 ^ LENGTH('w) - 1"
    by (simp only: unat_sub_if_size word_size) simp
  finally show ?thesis .
qed

lemma unat_saturating_add:
  fixes a b :: "'w::len word"
  shows "unat (saturating_add a b) = min (unat a + unat b) (2 ^ LENGTH('w) - 1)"
  by (auto simp: saturating_add_def unat_word_ariths unat_max_word)

lemma checked_succ_None_iff [word_facts]:
  fixes w :: "'w::len word"
  shows "checked_add w 1 = None \<longleftrightarrow> w = - 1"
proof -
  have "unat w + unat (1 :: 'w word) < 2 ^ LENGTH('w) \<longleftrightarrow> unat w \<noteq> unat (- 1 :: 'w word)"
    using unat_le_max [of w] by (auto simp: unat_max_word)
  then show ?thesis by (simp add: checked_add_def word_unat_eq_iff)
qed

lemma unat_checked_succ [word_facts]: "checked_add w 1 = Some v \<Longrightarrow> unat v = Suc (unat w)"
  by (simp add: unat_checked_add)

lemma checked_succ_less [word_facts]: "checked_add w 1 = Some v \<Longrightarrow> w < v"
  by (simp add: word_less_nat_alt unat_checked_succ)

lemma unat_u64 [simp]: "unat (w :: u64) < 18446744073709551616"
proof -
  have "unat w < 2 ^ 64" using unsigned_less [of w] by simp
  then show ?thesis by simp
qed

section \<open>Facts on vectors\<close>

lemma position_None_iff [simp]: "position P xs = None \<longleftrightarrow> (\<forall>x \<in> set xs. \<not> P x)"
  by (induction xs) auto

lemma position_SomeD:
  "position P xs = Some i \<Longrightarrow> i < length xs \<and> P (xs ! i) \<and> (\<forall>j < i. \<not> P (xs ! j))"
proof (induction xs arbitrary: i)
  case (Cons x xs)
  then show ?case by (auto split: if_splits simp: nth_Cons split: nat.splits)
qed simp

lemma position_SomeI: "x \<in> set xs \<Longrightarrow> P x \<Longrightarrow> \<exists>i. position P xs = Some i"
  using position_None_iff [of P xs] by (cases "position P xs") auto

lemma position_cong_length [simp]: "position P xs = Some i \<Longrightarrow> i < length xs"
  by (simp add: position_SomeD)

lemma length_remove_at [simp]: "i < length xs \<Longrightarrow> length (remove_at i xs) = length xs - 1"
  by (simp add: remove_at_def)

lemma remove_at_Nil [simp]: "remove_at i [] = []"
  by (simp add: remove_at_def)

lemma set_remove_at_subset: "set (remove_at i xs) \<subseteq> set xs"
  by (auto simp: remove_at_def dest: in_set_takeD in_set_dropD)

lemma map_remove_at [simp]: "map f (remove_at i xs) = remove_at i (map f xs)"
  by (simp add: remove_at_def take_map drop_map)

lemma mset_remove_at:
  assumes "i < length xs"
  shows "mset xs = add_mset (xs ! i) (mset (remove_at i xs))"
proof -
  have "mset xs = mset (take i xs @ xs ! i # drop (Suc i) xs)"
    using assms by (simp add: id_take_nth_drop [symmetric])
  then show ?thesis by (simp add: remove_at_def)
qed

lemma distinct_remove_at [simp]: "distinct xs \<Longrightarrow> distinct (remove_at i xs)"
  by (auto simp: remove_at_def dest: set_take_disj_set_drop_if_distinct [of xs i "Suc i"])

lemma set_remove_at_distinct:
  assumes "distinct xs" and "i < length xs"
  shows "set (remove_at i xs) = set xs - {xs ! i}"
proof -
  have "set_mset (mset xs) = set_mset (add_mset (xs ! i) (mset (remove_at i xs)))"
    using mset_remove_at [OF assms(2)] by simp
  moreover have "distinct (xs ! i # remove_at i xs)"
  proof -
    have "mset (xs ! i # remove_at i xs) = mset xs"
      using mset_remove_at [OF assms(2)] by simp
    with assms(1) show ?thesis by (metis mset_eq_imp_distinct_iff)
  qed
  ultimately show ?thesis by auto
qed

lemma remove_at_position: "position (\<lambda>q. q = p) xs = Some j \<Longrightarrow> remove_at j xs = remove1 p xs"
proof (induction xs arbitrary: j)
  case (Cons x xs)
  then show ?case by (auto simp: remove_at_def split: if_splits)
qed simp

lemma remove_at_filter:
  assumes "distinct xs" and "i < length xs"
  shows "remove_at i xs = filter (\<lambda>y. y \<noteq> xs ! i) xs"
proof -
  let ?x = "xs ! i"
  have xs: "xs = take i xs @ ?x # drop (Suc i) xs" using assms(2) by (rule id_take_nth_drop)
  with assms(1) have "distinct (take i xs @ ?x # drop (Suc i) xs)" by simp
  then have "filter (\<lambda>y. y \<noteq> ?x) (take i xs) = take i xs" "filter (\<lambda>y. y \<noteq> ?x) (drop (Suc i) xs) = drop (Suc i) xs"
    by (auto intro!: filter_True)
  then have "filter (\<lambda>y. y \<noteq> ?x) (take i xs @ ?x # drop (Suc i) xs) = take i xs @ drop (Suc i) xs" by simp
  with xs show ?thesis by (simp add: remove_at_def)
qed

lemma set_push_unique [simp]: "set (push_unique xs x) = insert x (set xs)"
  by (auto simp: push_unique_def)

lemma distinct_push_unique [simp]: "distinct (push_unique xs x) \<longleftrightarrow> distinct xs"
  by (auto simp: push_unique_def)

lemma foldl_push_unique: "set (foldl push_unique ys xs) = set ys \<union> set xs"
  by (induction xs arbitrary: ys) auto

lemma distinct_foldl_push_unique: "distinct ys \<Longrightarrow> distinct (foldl push_unique ys xs)"
  by (induction xs arbitrary: ys) auto

lemma foldl_push_unique_distinct:
  "distinct xs \<Longrightarrow> set xs \<inter> set ys = {} \<Longrightarrow> foldl push_unique ys xs = ys @ xs"
  by (induction xs arbitrary: ys) (auto simp: push_unique_def)

lemma set_unique_in_order [simp]: "set (unique_in_order xs) = set xs"
  by (simp add: unique_in_order_def foldl_push_unique)

lemma distinct_unique_in_order [simp]: "distinct (unique_in_order xs)"
  by (simp add: unique_in_order_def distinct_foldl_push_unique)

lemma unique_in_order_id: "distinct xs \<Longrightarrow> unique_in_order xs = xs"
  by (simp add: unique_in_order_def foldl_push_unique_distinct)

text \<open>Replacing one element of a list whose keys are distinct.\<close>

lemma map_list_update_same:
  "i < length xs \<Longrightarrow> f y = f (xs ! i) \<Longrightarrow> map f (xs[i := y]) = map f xs"
  by (simp add: map_update list_update_same_conv)

lemma upt_join: "i \<le> j \<Longrightarrow> j \<le> k \<Longrightarrow> [i ..< j] @ [j ..< k] = [i ..< k]"
  using upt_add_eq_append [of i j "k - j"] by simp

end
