(* ===== verification/Behavior_Core.thy ===== *)
theory Behavior_Core
  imports Prelude
begin

text \<open>
  The action algebra of the \<^verbatim>\<open>behavior\<close> crate: the next-state verdict (\<^verbatim>\<open>next.rs\<close>), the
  action product and its constructors (\<^verbatim>\<open>effects/actions.rs\<close>), send effects as an ordered
  monoid (\<^verbatim>\<open>effects/sending.rs\<close>), the event sum of a layered behavior (\<^verbatim>\<open>user_event.rs\<close>),
  delivery routes (\<^verbatim>\<open>composition/delivery_route.rs\<close>) and the \<^verbatim>\<open>Behavior\<close> trait as a record of
  its operations (\<^verbatim>\<open>transition.rs\<close>).

  Rust's \<^verbatim>\<open>Never\<close> has no value; HOL has no empty type. A behavior whose phase or child type
  is \<^verbatim>\<open>Never\<close> is modelled with the type \<open>never\<close>, whose only value no definition mentions, or with
  a type variable where it is composed with others. A trait with operations is a record that holds them; the laws an
  implementation keeps are the assumptions of a locale over that record.
\<close>

section \<open>Verdicts and actions\<close>

datatype never = Never

datatype stopped = Stopped

datatype ('ph, 'r) step = Continue | Goto 'ph | Stop 'r

type_synonym 'ph become = "('ph, stopped) step"

fun stops :: "('ph, 'r) step \<Rightarrow> bool" where
  "stops (Stop r) = True"
| "stops Continue = False"
| "stops (Goto ph) = False"

record ('x, 'c, 'ph) actions =
  sends :: 'x
  creates :: "'c list"
  become :: "'ph become"

section \<open>Send effects\<close>

text \<open>The trait \<^verbatim>\<open>SendEffects\<close>: an empty value and an append.\<close>

record 'x send_effects =
  empty_sends :: 'x
  append_sends :: "'x \<Rightarrow> 'x \<Rightarrow> 'x"

definition combine_sends :: "'x send_effects \<Rightarrow> 'x \<Rightarrow> 'x \<Rightarrow> 'x" where
  "combine_sends S x y = append_sends S x y"

definition vec_sends :: "'a list send_effects" where
  "vec_sends = \<lparr>empty_sends = [], append_sends = (\<lambda>xs ys. xs @ ys)\<rparr>"

definition no_sends :: "unit send_effects" where
  "no_sends = \<lparr>empty_sends = (), append_sends = (\<lambda>_ _. ())\<rparr>"

record ('o, 'i) send_layer =
  owned_sends :: 'o
  inner_sends :: 'i

definition layer_sends :: "'o send_effects \<Rightarrow> 'i send_effects \<Rightarrow> ('o, 'i) send_layer send_effects" where
  "layer_sends Ow I =
     \<lparr>empty_sends = \<lparr>owned_sends = empty_sends Ow, inner_sends = empty_sends I\<rparr>,
      append_sends = (\<lambda>x y. \<lparr>owned_sends = append_sends Ow (owned_sends x) (owned_sends y),
                             inner_sends = append_sends I (inner_sends x) (inner_sends y)\<rparr>)\<rparr>"

section \<open>Constructors and maps of actions\<close>

definition new_actions :: "'x \<Rightarrow> 'c list \<Rightarrow> 'ph become \<Rightarrow> ('x, 'c, 'ph) actions" where
  [core_defs]: "new_actions s c b = \<lparr>sends = s, creates = c, become = b\<rparr>"

definition just :: "'x send_effects \<Rightarrow> 'ph become \<Rightarrow> ('x, 'c, 'ph) actions" where
  [core_defs]: "just S b = \<lparr>sends = empty_sends S, creates = [], become = b\<rparr>"

definition cont :: "'x send_effects \<Rightarrow> ('x, 'c, 'ph) actions" where
  [core_defs]: "cont S = just S Continue"

definition stop_actions :: "'x send_effects \<Rightarrow> ('x, 'c, 'ph) actions" where
  [core_defs]: "stop_actions S = just S (Stop Stopped)"

definition goto_actions :: "'x send_effects \<Rightarrow> 'ph \<Rightarrow> ('x, 'c, 'ph) actions" where
  [core_defs]: "goto_actions S ph = just S (Goto ph)"

definition send_actions :: "'x \<Rightarrow> ('x, 'c, 'ph) actions" where
  [core_defs]: "send_actions s = new_actions s [] Continue"

definition create_actions :: "'x send_effects \<Rightarrow> 'c list \<Rightarrow> ('x, 'c, 'ph) actions" where
  [core_defs]: "create_actions S c = new_actions (empty_sends S) c Continue"

definition map_sends :: "('x \<Rightarrow> 'y) \<Rightarrow> ('x, 'c, 'ph) actions \<Rightarrow> ('y, 'c, 'ph) actions" where
  [core_defs]: "map_sends f a = \<lparr>sends = f (sends a), creates = creates a, become = become a\<rparr>"

definition map_become :: "('ph become \<Rightarrow> 'qh become) \<Rightarrow> ('x, 'c, 'ph) actions \<Rightarrow> ('x, 'c, 'qh) actions" where
  [core_defs]: "map_become f a = \<lparr>sends = sends a, creates = creates a, become = f (become a)\<rparr>"

text \<open>\<^verbatim>\<open>with_send\<close> appends one input to the lane that its path selects; \<open>emit\<close> is that lane's insertion.\<close>

definition with_send :: "('x \<Rightarrow> 'i \<Rightarrow> 'x) \<Rightarrow> 'i \<Rightarrow> ('x, 'c, 'ph) actions \<Rightarrow> ('x, 'c, 'ph) actions" where
  [core_defs]: "with_send emit i a = a\<lparr>sends := emit (sends a) i\<rparr>"

section \<open>Users, event layers and routes\<close>

record ('a, 'm) user =
  user_from :: 'a
  user_message :: 'm

datatype ('o, 'i) event_layer = Owned 'o | Inner 'i

text \<open>
  The trait \<^verbatim>\<open>UserEvent\<close>: \<open>mk_user\<close> injects a mailbox input, \<open>into_user\<close> recovers it or
  returns the event unchanged (\<open>Inl\<close>).
\<close>

record ('e, 'a, 'm) user_event =
  mk_user :: "'a \<Rightarrow> 'm \<Rightarrow> 'e"
  into_user :: "'e \<Rightarrow> 'e + ('a, 'm) user"

definition plain_user :: "(('a, 'm) user, 'a, 'm) user_event" where
  "plain_user = \<lparr>mk_user = (\<lambda>f m. \<lparr>user_from = f, user_message = m\<rparr>), into_user = Inr\<rparr>"

definition layer_user :: "('i, 'a, 'm) user_event \<Rightarrow> (('o, 'i) event_layer, 'a, 'm) user_event" where
  "layer_user U =
     \<lparr>mk_user = (\<lambda>f m. Inner (mk_user U f m)),
      into_user = (\<lambda>e. case e of
          Inner i \<Rightarrow> (case into_user U i of Inl j \<Rightarrow> Inl (Inner j) | Inr u \<Rightarrow> Inr u)
        | Owned o' \<Rightarrow> Inl (Owned o'))\<rparr>"

text \<open>\<^verbatim>\<open>RecoverEvent\<close> for the layer's own lane and for a lane inside it.\<close>

definition recover_here :: "('o, 'i) event_layer \<Rightarrow> ('o, 'i) event_layer + 'o" where
  "recover_here e = (case e of Owned o' \<Rightarrow> Inr o' | Inner i \<Rightarrow> Inl (Inner i))"

definition recover_inside :: "('i \<Rightarrow> 'i + 'k) \<Rightarrow> ('o, 'i) event_layer \<Rightarrow> ('o, 'i) event_layer + 'k" where
  "recover_inside r e = (case e of
      Inner i \<Rightarrow> (case r i of Inl j \<Rightarrow> Inl (Inner j) | Inr k \<Rightarrow> Inr k)
    | Owned o' \<Rightarrow> Inl (Owned o'))"

record ('r, 'm) delivery =
  deliver_to :: 'r
  delivered :: 'm

definition deliver :: "'r \<Rightarrow> 'm \<Rightarrow> ('r, 'm) delivery list" where
  "deliver r m = [\<lparr>deliver_to = r, delivered = m\<rparr>]"

datatype ('l, 'e) reply_route = Logical 'l | Established 'e

text \<open>\<^verbatim>\<open>ReplyRoute::deliver\<close>: the lane of the single delivery follows the route's constructor.\<close>

definition reply_deliver :: "('l, 'e) reply_route \<Rightarrow> 'm
    \<Rightarrow> (('l, 'm) delivery, ('e, 'm) delivery) reply_route list" where
  "reply_deliver r m = [case r of
      Logical l \<Rightarrow> Logical \<lparr>deliver_to = l, delivered = m\<rparr>
    | Established e \<Rightarrow> Established \<lparr>deliver_to = e, delivered = m\<rparr>]"

text \<open>The target lane followed by the outcome lane (\<^verbatim>\<open>DeliveryOutcomes\<close> of \<^verbatim>\<open>routing/mod.rs\<close>).\<close>

record ('d, 'o) delivery_outcomes =
  deliveries :: 'd
  outcomes :: 'o

definition delivery_outcomes_sends ::
    "'d send_effects \<Rightarrow> 'o send_effects \<Rightarrow> ('d, 'o) delivery_outcomes send_effects" where
  "delivery_outcomes_sends D Ow =
     \<lparr>empty_sends = \<lparr>deliveries = empty_sends D, outcomes = empty_sends Ow\<rparr>,
      append_sends = (\<lambda>x y. \<lparr>deliveries = append_sends D (deliveries x) (deliveries y),
                             outcomes = append_sends Ow (outcomes x) (outcomes y)\<rparr>)\<rparr>"

section \<open>Behaviors\<close>

text \<open>
  The trait \<^verbatim>\<open>Behavior\<close>. A fold borrows the state mutably and returns a \<^verbatim>\<open>Result\<close>: the model
  returns the state after the call, also when the result is an error (\<open>Inl\<close>).
\<close>

record ('b, 'e, 'a, 'm, 'x, 'c, 'ph, 'err) behavior =
  b_init :: "'b \<Rightarrow> 'b \<times> ('err + ('x, 'c, 'ph) actions)"
  b_transition :: "'b \<Rightarrow> 'e \<Rightarrow> 'b \<times> ('err + ('x, 'c, 'ph) actions)"
  b_sends :: "'x send_effects"
  b_user :: "('e, 'a, 'm) user_event"

text \<open>The default \<^verbatim>\<open>init\<close> of the trait: no effect, continue.\<close>

definition default_init :: "'x send_effects \<Rightarrow> 'b \<Rightarrow> 'b \<times> ('err + ('x, 'c, 'ph) actions)" where
  "default_init S b = (b, Inr (cont S))"

definition initialize :: "('b, 'e, 'a, 'm, 'x, 'c, 'ph, 'err) behavior
    \<Rightarrow> 'b \<Rightarrow> 'b \<times> ('err + ('x, 'c, 'ph) actions)" where
  "initialize B b = b_init B b"

definition delegate_transition :: "('b, 'e, 'a, 'm, 'x, 'c, 'ph, 'err) behavior
    \<Rightarrow> 'b \<Rightarrow> 'e \<Rightarrow> 'b \<times> ('err + ('x, 'c, 'ph) actions)" where
  "delegate_transition B b e = b_transition B b e"

text \<open>\<^verbatim>\<open>Active::receive\<close>: one mailbox input for an initialized behavior.\<close>

definition active_receive :: "('b, 'e, 'a, 'm, 'x, 'c, 'ph, 'err) behavior
    \<Rightarrow> 'b \<Rightarrow> 'a \<Rightarrow> 'm \<Rightarrow> 'b \<times> ('err + ('x, 'c, 'ph) actions)" where
  "active_receive B b f m = delegate_transition B b (mk_user (b_user B) f m)"

text \<open>
  The catalogue behaviors read only the message of a mailbox input and use the default
  initialization. \<open>message_behavior\<close> is the trait implementation such a fold gives,
  \<open>total_behavior\<close> the one of a fold whose error type is \<^verbatim>\<open>Never\<close>.
\<close>

definition message_behavior :: "'x send_effects
    \<Rightarrow> ('s \<Rightarrow> 'm \<Rightarrow> 's \<times> ('err + ('x, 'c, 'ph) actions))
    \<Rightarrow> ('s, ('a, 'm) user, 'a, 'm, 'x, 'c, 'ph, 'err) behavior" where
  "message_behavior S f =
     \<lparr>b_init = default_init S, b_transition = (\<lambda>s ev. f s (user_message ev)),
      b_sends = S, b_user = plain_user\<rparr>"

definition total_behavior :: "'x send_effects
    \<Rightarrow> ('s \<Rightarrow> 'm \<Rightarrow> 's \<times> ('x, 'c, 'ph) actions)
    \<Rightarrow> ('s, ('a, 'm) user, 'a, 'm, 'x, 'c, 'ph, 'err) behavior" where
  "total_behavior S f = message_behavior S (\<lambda>s m. apsnd Inr (f s m))"

lemma stops_iff: "stops (v :: 'ph become) \<longleftrightarrow> v = Stop Stopped"
proof (cases v)
  case (Stop r)
  then show ?thesis by (cases r) simp
qed simp_all

section \<open>Runs of a fold\<close>

text \<open>One event after the other, the outputs collected in order.\<close>

type_synonym ('s, 'e, 'o) fold_step = "'s \<Rightarrow> 'e \<Rightarrow> 's \<times> 'o"

fun run :: "('s, 'e, 'o) fold_step \<Rightarrow> 's \<Rightarrow> 'e list \<Rightarrow> 's \<times> 'o list" where
  "run f s [] = (s, [])"
| "run f s (e # es) = (let (s', out) = f s e; (t, outs) = run f s' es in (t, out # outs))"

abbreviation run_state :: "('s, 'e, 'o) fold_step \<Rightarrow> 's \<Rightarrow> 'e list \<Rightarrow> 's" where
  "run_state f s es \<equiv> fst (run f s es)"

abbreviation run_outputs :: "('s, 'e, 'o) fold_step \<Rightarrow> 's \<Rightarrow> 'e list \<Rightarrow> 'o list" where
  "run_outputs f s es \<equiv> snd (run f s es)"

lemma run_Cons [simp]:
  "run f s (e # es)
     = (run_state f (fst (f s e)) es, snd (f s e) # run_outputs f (fst (f s e)) es)"
  by (simp add: split_beta)

declare run.simps(2) [simp del]

section \<open>Interfaces\<close>

subsection \<open>Send effects form a monoid\<close>

locale send_monoid =
  fixes S :: "'x send_effects"
  assumes append_empty_left: "append_sends S (empty_sends S) x = x"
    and append_empty_right: "append_sends S x (empty_sends S) = x"
    and append_assoc_sends:
      "append_sends S (append_sends S x y) z = append_sends S x (append_sends S y z)"
begin

lemmas sends_monoid = append_empty_left append_empty_right append_assoc_sends

lemma sends_just [simp]: "sends (just S b) = empty_sends S"
  by (simp add: just_def)

text \<open>A list of effects appended one by one onto an accumulator.\<close>

lemma foldl_append:
  "foldl (append_sends S) x xs = append_sends S x (foldr (append_sends S) xs (empty_sends S))"
  by (induction xs arbitrary: x) (auto simp: sends_monoid)

end

interpretation vec: send_monoid "vec_sends :: 'a list send_effects"
  by unfold_locales (auto simp: vec_sends_def)

interpretation nothing: send_monoid no_sends
  by unfold_locales (auto simp: no_sends_def)

text \<open>The products of two lawful lanes are lawful; both are interpreted on the lanes the behaviors use.\<close>

lemma send_monoid_layer:
  assumes "send_monoid Ow" and "send_monoid I"
  shows "send_monoid (layer_sends Ow I)"
  using assms by (auto simp: send_monoid_def layer_sends_def)

lemma send_monoid_delivery_outcomes:
  assumes "send_monoid D" and "send_monoid Ow"
  shows "send_monoid (delivery_outcomes_sends D Ow)"
  using assms by (auto simp: send_monoid_def delivery_outcomes_sends_def)

interpretation vec_layer: send_monoid
  "layer_sends (vec_sends :: 'a list send_effects) (vec_sends :: 'b list send_effects)"
  by (intro send_monoid_layer vec.send_monoid_axioms)

interpretation vec_outcomes: send_monoid
  "delivery_outcomes_sends (vec_sends :: 'a list send_effects) (vec_sends :: 'b list send_effects)"
  by (intro send_monoid_delivery_outcomes vec.send_monoid_axioms)

subsection \<open>User events are a retract of the event sum\<close>

locale lawful_user_event =
  fixes U :: "('e, 'a, 'm) user_event"
  assumes into_mk: "into_user U (mk_user U f m) = Inr \<lparr>user_from = f, user_message = m\<rparr>"
    and mk_into: "into_user U e = Inr u \<Longrightarrow> mk_user U (user_from u) (user_message u) = e"
    and into_other: "into_user U e = Inl e' \<Longrightarrow> e' = e"
begin

lemma mk_user_inject: "mk_user U f m = mk_user U f' m' \<longleftrightarrow> f = f' \<and> m = m'"
proof
  assume "mk_user U f m = mk_user U f' m'"
  then have "into_user U (mk_user U f m) = into_user U (mk_user U f' m')" by (rule arg_cong)
  then show "f = f' \<and> m = m'" by (simp add: into_mk)
qed simp

lemma user_cases:
  obtains (user) f m where "e = mk_user U f m" | (other) "into_user U e = Inl e"
proof (cases "into_user U e")
  case (Inl e')
  with into_other have "e' = e" by blast
  with Inl show thesis by (simp add: other)
next
  case (Inr u)
  then have "e = mk_user U (user_from u) (user_message u)" by (rule mk_into [symmetric])
  then show thesis by (rule user)
qed

end

interpretation plain: lawful_user_event "plain_user :: (('a, 'm) user, 'a, 'm) user_event"
  by unfold_locales (auto simp: plain_user_def)

lemma lawful_user_event_layer:
  assumes "lawful_user_event U"
  shows "lawful_user_event (layer_user U :: (('o, 'i) event_layer, 'a, 'm) user_event)"
proof -
  note laws = assms [unfolded lawful_user_event_def]
  show ?thesis
    unfolding lawful_user_event_def layer_user_def
    using laws by (auto split: event_layer.splits sum.splits)
qed

interpretation layered: lawful_user_event
  "layer_user plain_user :: (('o, ('a, 'm) user) event_layer, 'a, 'm) user_event"
  by (intro lawful_user_event_layer plain.lawful_user_event_axioms)

subsection \<open>Behaviors whose laws compositions rely on\<close>

locale lawful_behavior =
  fixes B :: "('b, 'e, 'a, 'm, 'x, 'c, 'ph, 'err) behavior"
  assumes sends_lawful: "send_monoid (b_sends B)"
    and user_lawful: "lawful_user_event (b_user B)"
begin

lemmas sends_monoid = send_monoid.sends_monoid [OF sends_lawful]
lemmas into_mk_user = lawful_user_event.into_mk [OF user_lawful]
lemmas into_other_user = lawful_user_event.into_other [OF user_lawful]
lemmas mk_into_user = lawful_user_event.mk_into [OF user_lawful]

end

text \<open>The composition may rely on an inner fold that never returns an error (\<^verbatim>\<open>StaticallyInfallible\<close>).\<close>

locale infallible_behavior = lawful_behavior B
  for B :: "('b, 'e, 'a, 'm, 'x, 'c, 'ph, 'err) behavior" +
  assumes no_error: "snd (b_transition B b e) \<noteq> Inl err"
begin

lemma delegate_ok: "\<exists>b' act. delegate_transition B b e = (b', Inr act)"
  using no_error [of b e] by (cases "b_transition B b e"; cases "snd (b_transition B b e)")
    (auto simp: delegate_transition_def)

end

lemma lawful_message_behavior:
  assumes "send_monoid S"
  shows "lawful_behavior (message_behavior S f)"
  using assms by (intro lawful_behavior.intro)
    (auto simp: message_behavior_def plain.lawful_user_event_axioms)

lemma infallible_total_behavior:
  assumes "send_monoid S"
  shows "infallible_behavior (total_behavior S f)"
proof (intro infallible_behavior.intro infallible_behavior_axioms.intro)
  show "lawful_behavior (total_behavior S f)"
    unfolding total_behavior_def using assms by (rule lawful_message_behavior)
  show "snd (b_transition (total_behavior S f) b e) \<noteq> Inl err" for b e err
    by (simp add: total_behavior_def message_behavior_def)
qed

subsection \<open>Delivery routes\<close>

text \<open>A route emits exactly one delivery, addressed to itself, that carries the message.\<close>

locale delivery_route =
  fixes deliver_on :: "'r \<Rightarrow> 'm \<Rightarrow> 'd list"
    and route_of :: "'d \<Rightarrow> 'r"
    and message_of :: "'d \<Rightarrow> 'm"
  assumes route_of_delivery: "map route_of (deliver_on r m) = [r]"
    and message_of_delivery: "map message_of (deliver_on r m) = [m]"
begin

lemma deliver_single: "length (deliver_on r m) = 1"
  using route_of_delivery [of r m] by (cases "deliver_on r m") auto

lemma deliver_inject: "deliver_on r m = deliver_on r' m' \<longleftrightarrow> r = r' \<and> m = m'"
  using route_of_delivery message_of_delivery by (metis list.inject)

end

interpretation recipient: delivery_route deliver deliver_to delivered
  by unfold_locales (auto simp: deliver_def)

fun reply_route_of :: "(('l, 'm) delivery, ('e, 'm) delivery) reply_route \<Rightarrow> ('l, 'e) reply_route" where
  "reply_route_of (Logical d) = Logical (deliver_to d)"
| "reply_route_of (Established d) = Established (deliver_to d)"

fun reply_message_of :: "(('l, 'm) delivery, ('e, 'm) delivery) reply_route \<Rightarrow> 'm" where
  "reply_message_of (Logical d) = delivered d"
| "reply_message_of (Established d) = delivered d"

interpretation reply: delivery_route reply_deliver reply_route_of reply_message_of
  by unfold_locales (auto simp: reply_deliver_def split: reply_route.splits)

subsection \<open>Invariants and conservation along runs\<close>

locale fold_invariant =
  fixes fstep :: "('s, 'e, 'o) fold_step"
    and inv :: "'s \<Rightarrow> bool"
  assumes inv_step: "inv s \<Longrightarrow> inv (fst (fstep s e))"
begin

lemma run_inv: "inv s \<Longrightarrow> inv (run_state fstep s es)"
proof (induction es arbitrary: s)
  case (Cons e es)
  then show ?case using inv_step by (fastforce simp: split_beta)
qed simp

text \<open>A property that every step's output has in an invariant state holds of every output of a run.\<close>

lemma run_outputs_all:
  assumes "\<And>s e. inv s \<Longrightarrow> Q (snd (fstep s e))"
  shows "inv s \<Longrightarrow> out \<in> set (run_outputs fstep s es) \<Longrightarrow> Q out"
proof (induction es arbitrary: s)
  case (Cons e es)
  from Cons.prems(1) have "inv (fst (fstep s e))" by (rule inv_step)
  with Cons assms show ?case by (auto simp: split_beta)
qed simp

text \<open>The same for every event with its output.\<close>

lemma run_pairs_all:
  assumes "\<And>s e. inv s \<Longrightarrow> R e (snd (fstep s e))"
  shows "inv s \<Longrightarrow> list_all2 R es (run_outputs fstep s es)"
proof (induction es arbitrary: s)
  case (Cons e es)
  from Cons.prems have "inv (fst (fstep s e))" by (rule inv_step)
  with Cons assms show ?case by (auto simp: split_beta)
qed simp

end

text \<open>
  Ownership: what a state holds and what an event brings is what the next state holds and
  what the output hands over. Over a run nothing is lost and nothing is duplicated.
\<close>

locale conserving_fold = fold_invariant fstep inv
  for fstep :: "('s, 'e, 'o) fold_step" and inv +
  fixes holds :: "'s \<Rightarrow> 'v multiset"
    and brings :: "'e \<Rightarrow> 'v multiset"
    and hands :: "'o \<Rightarrow> 'v multiset"
  assumes conserve_step:
    "inv s \<Longrightarrow> holds s + brings e = holds (fst (fstep s e)) + hands (snd (fstep s e))"
begin

lemma run_conserves:
  "inv s \<Longrightarrow> holds s + (\<Sum>e\<leftarrow>es. brings e)
     = holds (run_state fstep s es) + (\<Sum>out\<leftarrow>run_outputs fstep s es. hands out)"
proof (induction es arbitrary: s)
  case (Cons e es)
  let ?s = "fst (fstep s e)"
  have "holds s + (\<Sum>e\<leftarrow>e # es. brings e) = (holds s + brings e) + (\<Sum>e\<leftarrow>es. brings e)"
    by simp
  also have "\<dots> = hands (snd (fstep s e)) + (holds ?s + (\<Sum>e\<leftarrow>es. brings e))"
    using conserve_step [OF Cons.prems] by simp
  also have "holds ?s + (\<Sum>e\<leftarrow>es. brings e)
      = holds (run_state fstep ?s es) + (\<Sum>out\<leftarrow>run_outputs fstep ?s es. hands out)"
    by (rule Cons.IH) (rule inv_step [OF Cons.prems])
  finally show ?case by (simp add: split_beta)
qed simp

lemma run_bound: "inv s \<Longrightarrow> size (holds (run_state fstep s es)) \<le> size (holds s) + (\<Sum>e\<leftarrow>es. size (brings e))"
proof -
  assume "inv s"
  then have "size (holds s + (\<Sum>e\<leftarrow>es. brings e))
      = size (holds (run_state fstep s es)) + size (\<Sum>out\<leftarrow>run_outputs fstep s es. hands out)"
    by (simp add: run_conserves)
  moreover have "size (\<Sum>e\<leftarrow>es. brings e) = (\<Sum>e\<leftarrow>es. size (brings e))"
    by (induction es) auto
  ultimately show ?thesis by simp
qed

end

text \<open>
  Refinement: seen through an abstraction, every step of the fold is the step of a
  specification with the same output. Then so is every run.
\<close>

locale refined_fold = fold_invariant fstep inv
  for fstep :: "('s, 'e, 'o) fold_step" and inv +
  fixes spec :: "('t, 'e, 'o) fold_step"
    and abs :: "'s \<Rightarrow> 't"
  assumes refine_step: "inv s \<Longrightarrow> spec (abs s) e = apfst abs (fstep s e)"
begin

lemma run_refines: "inv s \<Longrightarrow> run spec (abs s) es = apfst abs (run fstep s es)"
proof (induction es arbitrary: s)
  case (Cons e es)
  have "inv (fst (fstep s e))" by (rule inv_step [OF Cons.prems])
  then have "run spec (abs (fst (fstep s e))) es = apfst abs (run fstep (fst (fstep s e)) es)"
    by (rule Cons.IH)
  moreover have "spec (abs s) e = (abs (fst (fstep s e)), snd (fstep s e))"
    using refine_step [OF Cons.prems] by (simp add: apfst_def map_prod_def split_beta)
  ultimately show ?case by simp
qed simp

end

text \<open>Accounts: no step spends more than the balance it finds and what it is given.\<close>

locale accounted_fold = fold_invariant fstep inv
  for fstep :: "('s, 'e, 'o) fold_step" and inv +
  fixes balance :: "'s \<Rightarrow> nat"
    and given :: "'e \<Rightarrow> nat"
    and spent :: "'o \<Rightarrow> nat"
  assumes account_step:
    "inv s \<Longrightarrow> balance (fst (fstep s e)) + spent (snd (fstep s e)) \<le> balance s + given e"
begin

lemma run_accounts:
  "inv s \<Longrightarrow> balance (run_state fstep s es) + (\<Sum>out\<leftarrow>run_outputs fstep s es. spent out)
     \<le> balance s + (\<Sum>e\<leftarrow>es. given e)"
proof (induction es arbitrary: s)
  case (Cons e es)
  from Cons.IH [OF inv_step [OF Cons.prems], of e] account_step [OF Cons.prems, of e]
  show ?case by simp
qed simp

end

text \<open>
  Order: what a state holds, followed by what it takes in, is what it hands over first,
  followed by what it holds then. Over a run, values leave in the order they entered.
\<close>

locale fifo_fold = fold_invariant fstep inv
  for fstep :: "('s, 'e, 'o) fold_step" and inv +
  fixes held :: "'s \<Rightarrow> 'v list"
    and enters :: "'e \<Rightarrow> 'o \<Rightarrow> 'v list"
    and leaves :: "'o \<Rightarrow> 'v list"
  assumes fifo_step:
    "inv s \<Longrightarrow> held s @ enters e (snd (fstep s e)) = leaves (snd (fstep s e)) @ held (fst (fstep s e))"
begin

lemma run_fifo:
  "inv s \<Longrightarrow> held s @ concat (map2 enters es (run_outputs fstep s es))
     = concat (map leaves (run_outputs fstep s es)) @ held (run_state fstep s es)"
proof (induction es arbitrary: s)
  case (Cons e es)
  let ?s = "fst (fstep s e)" and ?out = "snd (fstep s e)"
  have "held s @ concat (map2 enters (e # es) (run_outputs fstep s (e # es)))
      = (held s @ enters e ?out) @ concat (map2 enters es (run_outputs fstep ?s es))"
    by (simp add: split_beta)
  also have "\<dots> = leaves ?out @ held ?s @ concat (map2 enters es (run_outputs fstep ?s es))"
    by (simp only: fifo_step [OF Cons.prems] append_assoc)
  also have "held ?s @ concat (map2 enters es (run_outputs fstep ?s es))
      = concat (map leaves (run_outputs fstep ?s es)) @ held (run_state fstep ?s es)"
    by (rule Cons.IH) (rule inv_step [OF Cons.prems])
  finally show ?case by (simp add: split_beta)
qed simp

end

text \<open>
  Histories: a relation between what a fold has emitted so far and its state, kept by every
  step, holds of every run with all it has emitted.
\<close>

locale traced_fold =
  fixes fstep :: "('s, 'e, 'o) fold_step"
    and trace :: "'h list \<Rightarrow> 's \<Rightarrow> bool"
    and emits :: "'e \<Rightarrow> 'o \<Rightarrow> 'h list"
  assumes trace_step: "trace h s \<Longrightarrow> trace (h @ emits e (snd (fstep s e))) (fst (fstep s e))"
begin

lemma run_trace:
  "trace h s \<Longrightarrow> trace (h @ concat (map2 emits es (run_outputs fstep s es))) (run_state fstep s es)"
proof (induction es arbitrary: h s)
  case (Cons e es)
  from Cons.IH [OF trace_step [OF Cons.prems], of e] show ?case by (simp add: split_beta)
qed simp

text \<open>What the relation says of every step's output holds along a run.\<close>

lemma run_trace_outputs:
  assumes "\<And>h s e. trace h s \<Longrightarrow> Q (snd (fstep s e))"
  shows "trace h s \<Longrightarrow> out \<in> set (run_outputs fstep s es) \<Longrightarrow> Q out"
proof (induction es arbitrary: h s)
  case (Cons e es)
  from Cons.prems assms have "out = snd (fstep s e) \<longrightarrow> Q out" by blast
  with Cons.prems Cons.IH [OF trace_step [OF Cons.prems(1)], of e] show ?case by (auto simp: split_beta)
qed simp

end

text \<open>Facts about runs shared by the components.\<close>

lemma run_append:
  "run f s (xs @ ys) = (let (s', o1) = run f s xs; (t, o2) = run f s' ys in (t, o1 @ o2))"
  by (induction xs arbitrary: s) (auto simp: split_beta Let_def)

lemma length_run_outputs [simp]: "length (run_outputs f s es) = length es"
  by (induction es arbitrary: s) (auto simp: split_beta)

text \<open>Histories of events, of outputs and of both.\<close>

lemma concat_pairs: "concat (map2 (\<lambda>e out. [(e, out)]) es outs) = zip es outs"
  by (induction es outs rule: list_induct2') auto

lemma concat_outputs: "length es = length outs \<Longrightarrow> concat (map2 (\<lambda>e out. g out) es outs) = concat (map g outs)"
  by (induction es outs rule: list_induct2) auto

lemma concat_events: "length es = length outs \<Longrightarrow> concat (map2 (\<lambda>e out. [e]) es outs) = es"
  by (induction es outs rule: list_induct2) auto

section \<open>Vector sends\<close>

lemma empty_vec_sends [simp]: "empty_sends vec_sends = []"
  by (simp add: vec_sends_def)

lemma append_vec_sends [simp]: "append_sends vec_sends xs ys = xs @ ys"
  by (simp add: vec_sends_def)

lemma foldl_append_concat: "foldl (append_sends vec_sends) xs yss = xs @ concat yss"
  by (induction yss arbitrary: xs) auto

section \<open>Frame laws of the action maps\<close>

lemma map_sends_frame [simp]:
  "creates (map_sends f a) = creates a" "become (map_sends f a) = become a"
  "sends (map_sends f a) = f (sends a)"
  by (simp_all add: map_sends_def)

lemma map_become_frame [simp]:
  "creates (map_become g a) = creates a" "sends (map_become g a) = sends a"
  "become (map_become g a) = g (become a)"
  by (simp_all add: map_become_def)

end
