(* ===== verification/Latch.thy ===== *)
theory Latch
  imports Behavior_Core
begin

text \<open>
  \<^verbatim>\<open>workflow/latch.rs\<close>: a counting latch. Arrivals below the count wait; the arrival that
  exhausts the count releases every waiting participant in arrival order; every later
  arrival is answered at once.
\<close>

section \<open>State and fold\<close>

datatype latch_released = LatchReleased

record 'r latch_message =
  latch_reply_to :: 'r

datatype 'r latch_state =
    Counting (latch_remaining: usize) (latch_waiting: "'r list")
  | Released

definition latch_new :: "usize \<Rightarrow> 'r latch_state" where
  "latch_new n = (if n = 0 then Released else Counting n [])"

fun latch_transition :: "'r latch_state \<Rightarrow> 'r latch_message
    \<Rightarrow> 'r latch_state \<times> (('r, latch_released) delivery list, 'c, 'ph) actions" where
  "latch_transition Released msg =
     (Released, send_actions (deliver (latch_reply_to msg) LatchReleased))"
| "latch_transition (Counting remaining waiting) msg =
     (if remaining > 1
      then (Counting (remaining - 1) (waiting @ [latch_reply_to msg]),
            send_actions (empty_sends vec_sends))
      else (Released,
            send_actions (foldl (append_sends vec_sends) (empty_sends vec_sends)
              (map (\<lambda>p. deliver p LatchReleased) (waiting @ [latch_reply_to msg])))))"

definition latch_behavior ::
    "('r latch_state, ('a, 'r latch_message) user, 'a, 'r latch_message,
      ('r, latch_released) delivery list, 'c, 'ph, 'err) behavior" where
  "latch_behavior = total_behavior vec_sends latch_transition"

section \<open>The latch as an infallible behavior\<close>

interpretation latch: infallible_behavior
  "latch_behavior :: ('r latch_state, ('a, 'r latch_message) user, 'a, 'r latch_message,
      ('r, latch_released) delivery list, 'c, 'ph, 'err) behavior"
  unfolding latch_behavior_def
  by (rule infallible_total_behavior) (rule vec.send_monoid_axioms)

section \<open>Release of the whole generation\<close>

abbreviation release_to :: "'r list \<Rightarrow> ('r, latch_released) delivery list" where
  "release_to rs \<equiv> concat (map (\<lambda>r. deliver r LatchReleased) rs)"

text \<open>The fold over a list of arrivals, from any counting state.\<close>

abbreviation latch_sent :: "'r latch_state \<Rightarrow> 'r list \<Rightarrow> ('r, latch_released) delivery list" where
  "latch_sent l rs \<equiv> concat (map sends
     (run_outputs (latch_transition ::
        ('r latch_state, 'r latch_message,
         (('r, latch_released) delivery list, unit, unit) actions) fold_step) l
       (map (\<lambda>r. \<lparr>latch_reply_to = r\<rparr>) rs)))"

lemma latch_sent_released: "latch_sent Released rs = release_to rs"
  by (induction rs) (auto simp: core_defs)

lemma latch_sent_counting:
  "0 < n \<Longrightarrow> latch_sent (Counting n ws) rs = (if length rs < n then [] else release_to (ws @ rs))"
proof (induction rs arbitrary: n ws)
  case (Cons r rs)
  show ?case
  proof (cases "n > 1")
    case True
    with Cons.IH [of "n - 1" "ws @ [r]"] show ?thesis by (auto simp: core_defs)
  next
    case False
    with Cons.prems have "n = 1" by simp
    then show ?thesis
      by (simp add: core_defs foldl_append_concat latch_sent_released)
  qed
qed simp

text \<open>
  A latch of a positive count sends nothing while fewer arrivals than the count have
  been folded; once the count is reached, the sends of the whole history are exactly one
  release per arrival, in arrival order, whatever the number of later arrivals.
\<close>

theorem latch_releases_every_arrival_once:
  assumes "0 < n"
  shows "latch_sent (latch_new n) arrivals
    = (if length arrivals < n then [] else release_to arrivals)"
  using assms by (simp add: latch_new_def latch_sent_counting)

theorem latch_releases_every_arrival_once_witness:
  "latch_sent (latch_new 2) [7 :: nat] = [] \<and> latch_sent (latch_new 2) [7 :: nat, 8, 9] = release_to [7, 8, 9]"
  using latch_releases_every_arrival_once [of 2 "[7 :: nat]"]
    latch_releases_every_arrival_once [of 2 "[7 :: nat, 8, 9]"] by simp

end
