(* ===== verification/Stash.thy ===== *)
theory Stash
  imports Latch
begin

text \<open>
  \<^verbatim>\<open>stash/queue.rs\<close> and \<^verbatim>\<open>stash/limit.rs\<close>: a FIFO of original mailbox inputs around an inner
  behavior. A pure selector decides for every mailbox input whether it is held, delivered,
  or delivered and followed by a replay of the held inputs. The bounded stash refuses, to a
  configured recipient, an input it has no slot for.
\<close>

section \<open>The unbounded stash\<close>

datatype stash_route = StashInput | Deliver | Release

record ('b, 'a, 'm) unlimited_stash =
  us_inner :: 'b
  us_selector :: "'b \<Rightarrow> 'm \<Rightarrow> stash_route"
  us_held :: "('a, 'm) user list"

definition us_new :: "'b \<Rightarrow> ('b \<Rightarrow> 'm \<Rightarrow> stash_route) \<Rightarrow> ('b, 'a, 'm) unlimited_stash" where
  "us_new b selector = \<lparr>us_inner = b, us_selector = selector, us_held = []\<rparr>"

definition us_take :: "('b, 'a, 'm) unlimited_stash
    \<Rightarrow> ('b, 'a, 'm) unlimited_stash \<times> ('a, 'm) user list" where
  "us_take s = (s\<lparr>us_held := []\<rparr>, us_held s)"

definition us_route :: "('b, 'a, 'm) unlimited_stash \<Rightarrow> 'm \<Rightarrow> stash_route" where
  "us_route s m = us_selector s (us_inner s) m"

definition delegate_user :: "('b, 'e, 'a, 'm, 'x, 'c, 'ph, 'err) behavior \<Rightarrow> 'b \<Rightarrow> ('a, 'm) user
    \<Rightarrow> 'b \<times> ('err + ('x, 'c, 'ph) actions)" where
  "delegate_user B b u = delegate_transition B b (mk_user (b_user B) (user_from u) (user_message u))"

text \<open>
  The loop of \<^verbatim>\<open>drain_into\<close>: \<open>held\<close> are the inputs held again, the last list the unread ones.
  When \<^verbatim>\<open>HeldInputs\<close> is dropped, on every exit, the unread suffix follows the held prefix.
\<close>

fun drain_loop :: "('b, 'e, 'a, 'm, 'x, 'c, 'ph, 'err) behavior \<Rightarrow> ('b \<Rightarrow> 'm \<Rightarrow> stash_route)
    \<Rightarrow> ('x, 'c, 'ph) actions \<Rightarrow> 'b \<Rightarrow> ('a, 'm) user list \<Rightarrow> ('a, 'm) user list
    \<Rightarrow> 'b \<times> ('a, 'm) user list \<times> ('err + ('x, 'c, 'ph) actions)" where
  "drain_loop B selector acc b held [] = (b, held, Inr acc)"
| "drain_loop B selector acc b held (u # unread) =
     (case selector b (user_message u) of
        StashInput \<Rightarrow> drain_loop B selector acc b (held @ [u]) unread
      | _ \<Rightarrow>
         (case delegate_user B b u of
            (b', Inl err) \<Rightarrow> (b', held @ unread, Inl err)
          | (b', Inr act) \<Rightarrow>
             (let acc' = acc\<lparr>sends := append_sends (b_sends B) (sends acc) (sends act),
                             creates := creates acc @ creates act\<rparr>
              in case become act of
                   Stop r \<Rightarrow> (b', held @ unread, Inr (acc'\<lparr>become := Stop r\<rparr>))
                 | _ \<Rightarrow> drain_loop B selector acc' b' held unread)))"

definition drain_into :: "('b, 'e, 'a, 'm, 'x, 'c, 'ph, 'err) behavior
    \<Rightarrow> ('b, 'a, 'm) unlimited_stash \<Rightarrow> ('x, 'c, 'ph) actions
    \<Rightarrow> ('b, 'a, 'm) unlimited_stash \<times> ('err + ('x, 'c, 'ph) actions)" where
  "drain_into B s acc =
     (case drain_loop B (us_selector s) acc (us_inner s) [] (us_held s) of
        (b, held, res) \<Rightarrow> (s\<lparr>us_inner := b, us_held := held\<rparr>, res))"

definition us_receive :: "('b, 'e, 'a, 'm, 'x, 'c, 'ph, 'err) behavior
    \<Rightarrow> ('b, 'a, 'm) unlimited_stash \<Rightarrow> ('a, 'm) user \<Rightarrow> stash_route
    \<Rightarrow> ('b, 'a, 'm) unlimited_stash \<times> ('err + ('x, 'c, 'ph) actions)" where
  "us_receive B s u route =
     (case route of
        StashInput \<Rightarrow> (s\<lparr>us_held := us_held s @ [u]\<rparr>, Inr (cont (b_sends B)))
      | Deliver \<Rightarrow>
         (case delegate_user B (us_inner s) u of (b', res) \<Rightarrow> (s\<lparr>us_inner := b'\<rparr>, res))
      | Release \<Rightarrow>
         (case delegate_user B (us_inner s) u of
            (b', Inl err) \<Rightarrow> (s\<lparr>us_inner := b'\<rparr>, Inl err)
          | (b', Inr act) \<Rightarrow>
              (if stops (become act) then (s\<lparr>us_inner := b'\<rparr>, Inr act)
               else drain_into B (s\<lparr>us_inner := b'\<rparr>) act)))"

definition us_init :: "('b, 'e, 'a, 'm, 'x, 'c, 'ph, 'err) behavior
    \<Rightarrow> ('b, 'a, 'm) unlimited_stash
    \<Rightarrow> ('b, 'a, 'm) unlimited_stash \<times> ('err + ('x, 'c, 'ph) actions)" where
  "us_init B s = (case initialize B (us_inner s) of (b', res) \<Rightarrow> (s\<lparr>us_inner := b'\<rparr>, res))"

definition us_transition :: "('b, 'e, 'a, 'm, 'x, 'c, 'ph, 'err) behavior
    \<Rightarrow> ('b, 'a, 'm) unlimited_stash \<Rightarrow> 'e
    \<Rightarrow> ('b, 'a, 'm) unlimited_stash \<times> ('err + ('x, 'c, 'ph) actions)" where
  "us_transition B s e =
     (case into_user (b_user B) e of
        Inl other \<Rightarrow>
          (case delegate_transition B (us_inner s) other of (b', res) \<Rightarrow> (s\<lparr>us_inner := b'\<rparr>, res))
      | Inr u \<Rightarrow> us_receive B s u (us_route s (user_message u)))"

definition us_behavior :: "('b, 'e, 'a, 'm, 'x, 'c, 'ph, 'err) behavior
    \<Rightarrow> (('b, 'a, 'm) unlimited_stash, 'e, 'a, 'm, 'x, 'c, 'ph, 'err) behavior" where
  "us_behavior B =
     \<lparr>b_init = us_init B, b_transition = us_transition B, b_sends = b_sends B, b_user = b_user B\<rparr>"

section \<open>The bounded stash\<close>

record ('x, 'y) stash_sends =
  actor_sends :: 'x
  refusal_sends :: 'y

definition stash_sends_effects :: "'x send_effects \<Rightarrow> 'y send_effects
    \<Rightarrow> ('x, 'y) stash_sends send_effects" where
  "stash_sends_effects X Y =
     \<lparr>empty_sends = \<lparr>actor_sends = empty_sends X, refusal_sends = empty_sends Y\<rparr>,
      append_sends = (\<lambda>x y. \<lparr>actor_sends = append_sends X (actor_sends x) (actor_sends y),
                             refusal_sends = append_sends Y (refusal_sends x) (refusal_sends y)\<rparr>)\<rparr>"

record ('b, 'a, 'm, 'r) stash =
  st_queue :: "('b, 'a, 'm) unlimited_stash"
  st_limit :: usize
  st_refusals :: 'r

type_synonym ('x, 'r, 'a, 'm) bounded_sends = "('x, ('r, ('a, 'm) user) delivery list) stash_sends"

definition st_new :: "'b \<Rightarrow> usize \<Rightarrow> 'r \<Rightarrow> ('b \<Rightarrow> 'm \<Rightarrow> stash_route) \<Rightarrow> ('b, 'a, 'm, 'r) stash" where
  "st_new b limit refusals selector =
     \<lparr>st_queue = us_new b selector, st_limit = limit, st_refusals = refusals\<rparr>"

definition st_held :: "('b, 'a, 'm, 'r) stash \<Rightarrow> usize" where
  "st_held s = length (us_held (st_queue s))"

definition st_take :: "('b, 'a, 'm, 'r) stash \<Rightarrow> ('b, 'a, 'm, 'r) stash \<times> ('a, 'm) user list" where
  "st_take s = (case us_take (st_queue s) of (q, held) \<Rightarrow> (s\<lparr>st_queue := q\<rparr>, held))"

definition without_refusals :: "'x \<Rightarrow> ('x, 'r, 'a, 'm) bounded_sends" where
  "without_refusals x = \<lparr>actor_sends = x, refusal_sends = empty_sends vec_sends\<rparr>"

definition with_queue :: "('b, 'a, 'm, 'r) stash
    \<Rightarrow> ('b, 'a, 'm) unlimited_stash \<times> ('err + ('x, 'c, 'ph) actions)
    \<Rightarrow> ('b, 'a, 'm, 'r) stash \<times> ('err + (('x, 'r, 'a, 'm) bounded_sends, 'c, 'ph) actions)" where
  "with_queue s qr =
     (s\<lparr>st_queue := fst qr\<rparr>,
      (case snd qr of Inl err \<Rightarrow> Inl err | Inr act \<Rightarrow> Inr (map_sends without_refusals act)))"

definition st_init :: "('b, 'e, 'a, 'm, 'x, 'c, 'ph, 'err) behavior
    \<Rightarrow> ('b, 'a, 'm, 'r) stash
    \<Rightarrow> ('b, 'a, 'm, 'r) stash \<times> ('err + (('x, 'r, 'a, 'm) bounded_sends, 'c, 'ph) actions)" where
  "st_init B s = with_queue s (us_init B (st_queue s))"

definition st_transition :: "('b, 'e, 'a, 'm, 'x, 'c, 'ph, 'err) behavior
    \<Rightarrow> ('b, 'a, 'm, 'r) stash \<Rightarrow> 'e
    \<Rightarrow> ('b, 'a, 'm, 'r) stash \<times> ('err + (('x, 'r, 'a, 'm) bounded_sends, 'c, 'ph) actions)" where
  "st_transition B s e =
     (case into_user (b_user B) e of
        Inr u \<Rightarrow>
          (let route = us_route (st_queue s) (user_message u) in
           if route = StashInput \<and> st_held s \<ge> st_limit s
           then (s, Inr (new_actions
                   \<lparr>actor_sends = empty_sends (b_sends B), refusal_sends = deliver (st_refusals s) u\<rparr>
                   [] Continue))
           else with_queue s (us_receive B (st_queue s) u route))
      | Inl other \<Rightarrow> with_queue s (us_transition B (st_queue s) other))"

definition st_behavior :: "('b, 'e, 'a, 'm, 'x, 'c, 'ph, 'err) behavior
    \<Rightarrow> (('b, 'a, 'm, 'r) stash, 'e, 'a, 'm, ('x, 'r, 'a, 'm) bounded_sends, 'c, 'ph, 'err) behavior" where
  "st_behavior B =
     \<lparr>b_init = st_init B, b_transition = st_transition B,
      b_sends = stash_sends_effects (b_sends B) vec_sends, b_user = b_user B\<rparr>"

section \<open>Replay\<close>

text \<open>The inputs a history delivers to the inner behavior, and what they emit together.\<close>

abbreviation deliver_run :: "('b, 'e, 'a, 'm, 'x, 'c, 'ph, 'err) behavior \<Rightarrow> 'b \<Rightarrow> ('a, 'm) user list
    \<Rightarrow> 'b \<times> ('err + ('x, 'c, 'ph) actions) list" where
  "deliver_run B \<equiv> run (delegate_user B)"

definition emitted :: "'x send_effects \<Rightarrow> ('x, 'c, 'ph) actions list \<Rightarrow> 'x" where
  "emitted S acts = foldr (append_sends S) (map sends acts) (empty_sends S)"

lemma emitted_Cons: "emitted S (a # acts) = append_sends S (sends a) (emitted S acts)"
  by (simp add: emitted_def)

lemma emitted_Nil: "emitted S [] = empty_sends S"
  by (simp add: emitted_def)

text \<open>
  What a replay does with the unread inputs \<open>us\<close>: a prefix is decided, each of its inputs is
  either given to the inner behavior or kept, both in their order; the rest is untouched, and
  is only there after a stop. The effects of the outputs follow those of the accumulator.
\<close>

definition replayed :: "'x send_effects \<Rightarrow> ('x, 'c, 'ph) actions \<Rightarrow> 'u list
    \<Rightarrow> 'u list \<Rightarrow> 'u list \<Rightarrow> 'u list \<Rightarrow> ('x, 'c, 'ph) actions list \<Rightarrow> ('x, 'c, 'ph) actions \<Rightarrow> bool" where
  "replayed S acc us given kept rest outs acc' \<longleftrightarrow>
     (\<exists>decided \<in> shuffles given kept. us = decided @ rest)
     \<and> sends acc' = append_sends S (sends acc) (emitted S outs)
     \<and> creates acc' = creates acc @ concat (map creates outs)
     \<and> become acc' = (if outs \<noteq> [] \<and> stops (become (last outs)) then Stop Stopped else become acc)
     \<and> (\<forall>act \<in> set (butlast outs). \<not> stops (become act))
     \<and> (rest \<noteq> [] \<longrightarrow> outs \<noteq> [] \<and> stops (become (last outs)))"

lemma shuffles_Cons_right: "xs \<in> shuffles ys zs \<Longrightarrow> z # xs \<in> shuffles ys (z # zs)"
  by (cases ys) auto

lemma shuffles_Cons_left: "xs \<in> shuffles ys zs \<Longrightarrow> y # xs \<in> shuffles (y # ys) zs"
  by (cases zs) auto

lemma replayed_keep:
  "replayed S acc us given kept rest outs acc'
     \<Longrightarrow> replayed S acc (u # us) given (u # kept) rest outs acc'"
  unfolding replayed_def by (auto intro: shuffles_Cons_right)

context send_monoid
begin

lemma replayed_Nil: "replayed S acc [] [] [] [] [] acc"
  by (simp add: replayed_def emitted_Nil sends_monoid)

lemma replayed_stop:
  assumes "stops (become act)"
  shows "replayed S acc (u # us) [u] [] us [act]
    (acc\<lparr>sends := append_sends S (sends acc) (sends act), creates := creates acc @ creates act,
         become := become act\<rparr>)"
  using assms by (simp add: replayed_def emitted_Cons emitted_Nil sends_monoid stops_iff)

lemma replayed_give:
  assumes "replayed S (acc\<lparr>sends := append_sends S (sends acc) (sends act),
                          creates := creates acc @ creates act\<rparr>) us given kept rest outs acc'"
    and "\<not> stops (become act)"
  shows "replayed S acc (u # us) (u # given) kept rest (act # outs) acc'"
proof -
  note laws = assms(1) [unfolded replayed_def]
  from laws have "\<exists>decided \<in> shuffles (u # given) kept. u # us = decided @ rest"
    by (metis append_Cons shuffles_Cons_left)
  moreover from laws have "sends acc' = append_sends S (sends acc) (emitted S (act # outs))"
    by (simp add: emitted_Cons sends_monoid)
  moreover from laws assms(2) have
    "(\<forall>a \<in> set (butlast (act # outs)). \<not> stops (become a))
     \<and> become acc' = (if stops (become (last (act # outs))) then Stop Stopped else become acc)"
    by simp
  ultimately show ?thesis using laws by (simp add: replayed_def)
qed

end

context infallible_behavior
begin

lemma delegate_user_ok: "\<exists>b' act. delegate_user B b u = (b', Inr act)"
  unfolding delegate_user_def by (rule delegate_ok)

lemma drain_loop_replays:
  "\<exists>given kept rest outs b' acc'.
     drain_loop B selector acc b held us = (b', held @ kept @ rest, Inr acc')
     \<and> deliver_run B b given = (b', map Inr outs)
     \<and> replayed (b_sends B) acc us given kept rest outs acc'"
proof (induction us arbitrary: acc b held)
  case Nil
  have "drain_loop B selector acc b held [] = (b, held @ [] @ [], Inr acc)
      \<and> deliver_run B b [] = (b, map Inr [])" by simp
  with send_monoid.replayed_Nil [OF sends_lawful] show ?case by blast
next
  case (Cons u us)
  show ?case
  proof (cases "selector b (user_message u) = StashInput")
    case True
    then have "drain_loop B selector acc b held (u # us) = drain_loop B selector acc b (held @ [u]) us"
      by simp
    moreover from Cons.IH [of acc b "held @ [u]"] obtain given kept rest outs b' acc' where
      "drain_loop B selector acc b (held @ [u]) us = (b', held @ (u # kept) @ rest, Inr acc')"
      "deliver_run B b given = (b', map Inr outs)"
      "replayed (b_sends B) acc us given kept rest outs acc'"
      by auto
    ultimately show ?thesis using replayed_keep by metis
  next
    case route: False
    obtain b1 act where act: "delegate_user B b u = (b1, Inr act)" using delegate_user_ok by blast
    let ?acc = "acc\<lparr>sends := append_sends (b_sends B) (sends acc) (sends act),
                    creates := creates acc @ creates act\<rparr>"
    show ?thesis
    proof (cases "stops (become act)")
      case True
      have "drain_loop B selector acc b held (u # us)
          = (b1, held @ [] @ us, Inr (?acc\<lparr>become := become act\<rparr>))"
        using route act True by (cases "become act") (auto split: stash_route.splits)
      moreover have "deliver_run B b [u] = (b1, map Inr [act])" using act by simp
      ultimately show ?thesis
        using send_monoid.replayed_stop [OF sends_lawful True, of acc u us] by blast
    next
      case False
      then have "drain_loop B selector acc b held (u # us) = drain_loop B selector ?acc b1 held us"
        using route act by (cases "become act") (auto split: stash_route.splits)
      moreover from Cons.IH [of ?acc b1 held] obtain given kept rest outs b' acc' where
        "drain_loop B selector ?acc b1 held us = (b', held @ kept @ rest, Inr acc')"
        "deliver_run B b1 given = (b', map Inr outs)"
        "replayed (b_sends B) ?acc us given kept rest outs acc'"
        by blast
      moreover from this act have "deliver_run B b (u # given) = (b', map Inr (act # outs))" by simp
      ultimately show ?thesis
        using send_monoid.replayed_give [OF sends_lawful _ False] by metis
    qed
  qed
qed

end

section \<open>A stash around an infallible behavior is infallible\<close>

lemma send_monoid_stash: "send_monoid X \<Longrightarrow> send_monoid Y \<Longrightarrow> send_monoid (stash_sends_effects X Y)"
  by (auto simp: send_monoid_def stash_sends_effects_def)

context infallible_behavior
begin

lemma drain_into_ok: "\<exists>s' acc'. drain_into B s acc = (s', Inr acc')"
  using drain_loop_replays [of "us_selector s" acc "us_inner s" "[]" "us_held s"]
  by (auto simp: drain_into_def)

lemma us_receive_ok: "\<exists>s' act. us_receive B s u r = (s', Inr act)"
  using delegate_user_ok [of "us_inner s" u] drain_into_ok
  by (auto simp: us_receive_def split: stash_route.splits)

lemma us_release:
  assumes "us_selector s (us_inner s) (user_message u) = Release"
  shows "\<exists>given kept rest outs act b'.
     us_receive B s u Release = (s\<lparr>us_inner := b', us_held := kept @ rest\<rparr>, Inr act)
     \<and> (\<exists>decided \<in> shuffles given kept. us_held s = decided @ rest)
     \<and> deliver_run B (us_inner s) (u # given) = (b', map Inr outs)
     \<and> sends act = emitted (b_sends B) outs
     \<and> creates act = concat (map creates outs)
     \<and> (stops (become act) \<longleftrightarrow> stops (become (last outs)))
     \<and> (\<forall>a \<in> set (butlast outs). \<not> stops (become a))
     \<and> (rest \<noteq> [] \<longrightarrow> stops (become act))"
proof -
  obtain b1 act where act: "delegate_user B (us_inner s) u = (b1, Inr act)"
    using delegate_user_ok by blast
  show ?thesis
  proof (cases "stops (become act)")
    case True
    with act show ?thesis
      by (intro exI [of _ "[]"] exI [of _ "us_held s"] exI [of _ "[act]"] exI [of _ act] exI [of _ b1])
        (simp add: us_receive_def emitted_Cons emitted_Nil sends_monoid)
  next
    case False
    obtain given kept rest outs b' acc' where
      loop: "drain_loop B (us_selector s) act b1 [] (us_held s) = (b', kept @ rest, Inr acc')"
      and given: "deliver_run B b1 given = (b', map Inr outs)"
      and re: "replayed (b_sends B) act (us_held s) given kept rest outs acc'"
      using drain_loop_replays [of "us_selector s" act b1 "[]" "us_held s"] by auto
    have "us_receive B s u Release = (s\<lparr>us_inner := b', us_held := kept @ rest\<rparr>, Inr acc')"
      using act False loop by (simp add: us_receive_def drain_into_def)
    moreover have "deliver_run B (us_inner s) (u # given) = (b', map Inr (act # outs))"
      using act given by simp
    moreover have "stops (become acc') \<longleftrightarrow> stops (become (last (act # outs)))"
      "rest \<noteq> [] \<longrightarrow> stops (become acc')"
      "\<forall>a \<in> set (butlast (act # outs)). \<not> stops (become a)"
      using re False by (auto simp: replayed_def)
    moreover have "sends acc' = emitted (b_sends B) (act # outs)"
      "creates acc' = concat (map creates (act # outs))"
      "\<exists>decided \<in> shuffles given kept. us_held s = decided @ rest"
      using re by (auto simp: replayed_def emitted_Cons)
    ultimately show ?thesis by blast
  qed
qed

lemma us_transition_ok: "\<exists>s' act. us_transition B s e = (s', Inr act)"
proof (cases "into_user (b_user B) e")
  case (Inl other)
  then show ?thesis using delegate_ok [of "us_inner s" other] by (auto simp: us_transition_def)
next
  case (Inr u)
  then show ?thesis using us_receive_ok by (simp add: us_transition_def)
qed

lemma st_transition_ok: "\<exists>s' act. st_transition B s e = (s', Inr act)"
proof (cases "into_user (b_user B) e")
  case (Inl other)
  then show ?thesis
    using us_transition_ok [of "st_queue s" other] by (auto simp: st_transition_def with_queue_def)
next
  case (Inr u)
  then show ?thesis
    using us_receive_ok [of "st_queue s" u "us_route (st_queue s) (user_message u)"]
    by (auto simp: st_transition_def with_queue_def Let_def)
qed

lemma us_behavior_infallible: "infallible_behavior (us_behavior B)"
proof (intro infallible_behavior.intro infallible_behavior_axioms.intro lawful_behavior.intro)
  show "snd (b_transition (us_behavior B) s e) \<noteq> Inl err" for s e err
    using us_transition_ok [of s e] by (auto simp: us_behavior_def)
qed (simp_all add: us_behavior_def sends_lawful user_lawful)

lemma st_behavior_infallible:
  "infallible_behavior (st_behavior B ::
     (('b, 'a, 'm, 'r) stash, 'e, 'a, 'm, ('x, 'r, 'a, 'm) bounded_sends, 'c, 'ph, 'err) behavior)"
proof (intro infallible_behavior.intro infallible_behavior_axioms.intro lawful_behavior.intro)
  show "snd (b_transition (st_behavior B) s e) \<noteq> Inl err" for s :: "('b, 'a, 'm, 'r) stash" and e err
    using st_transition_ok [of s e] by (auto simp: st_behavior_def)
qed (simp_all add: st_behavior_def user_lawful send_monoid_stash sends_lawful vec.send_monoid_axioms)

end

interpretation stashed_latch: infallible_behavior
  "st_behavior latch_behavior ::
    (('r latch_state, 'a, 'r latch_message, 'r) stash, ('a, 'r latch_message) user, 'a, 'r latch_message,
     (('r, latch_released) delivery list, 'r, 'a, 'r latch_message) bounded_sends, 'c, 'ph, 'err) behavior"
  by (rule latch.st_behavior_infallible)

section \<open>The limit\<close>

lemma length_drain_loop:
  "length (fst (snd (drain_loop B selector acc b held us))) \<le> length held + length us"
proof (induction us arbitrary: acc b held)
  case (Cons u us)
  obtain b1 r where d: "delegate_user B b u = (b1, r)" by fastforce
  note IH = Cons.IH [of _ b "held @ [u]"] Cons.IH [of _ b1 held]
  show ?case using IH
    by (auto simp: d Let_def le_SucI split: stash_route.splits sum.splits step.splits)
qed simp

lemma held_drain_into: "length (us_held (fst (drain_into B s acc))) \<le> length (us_held s)"
  using length_drain_loop [of B "us_selector s" acc "us_inner s" "[]" "us_held s"]
  by (auto simp: drain_into_def split: prod.splits)

lemma held_us_receive:
  "length (us_held (fst (us_receive B s u route)))
     \<le> length (us_held s) + (if route = StashInput then 1 else 0)"
proof (cases route)
  case Release
  obtain b' r where d: "delegate_user B (us_inner s) u = (b', r)" by fastforce
  have "length (us_held (fst (drain_into B (s\<lparr>us_inner := b'\<rparr>) act))) \<le> length (us_held s)" for act
    using held_drain_into [of B "s\<lparr>us_inner := b'\<rparr>" act] by simp
  then show ?thesis by (auto simp: us_receive_def d Release split: sum.splits)
qed (auto simp: us_receive_def split: prod.splits)

definition within_limit :: "usize \<Rightarrow> ('b, 'a, 'm, 'r) stash \<Rightarrow> bool" where
  "within_limit n s \<longleftrightarrow> st_limit s = n \<and> st_held s \<le> n"

context lawful_behavior
begin

lemma st_transition_within_limit:
  assumes "within_limit n s"
  shows "within_limit n (fst (st_transition B s e))"
proof (cases "into_user (b_user B) e")
  case (Inl other)
  then have "into_user (b_user B) other = Inl other" using into_other_user by blast
  then have "us_held (fst (us_transition B (st_queue s) other)) = us_held (st_queue s)"
    by (auto simp: us_transition_def split: prod.splits)
  with Inl assms show ?thesis by (simp add: st_transition_def with_queue_def within_limit_def st_held_def)
next
  case (Inr u)
  let ?r = "us_route (st_queue s) (user_message u)"
  have "length (us_held (fst (us_receive B (st_queue s) u ?r)))
      \<le> st_held s + (if ?r = StashInput then 1 else 0)"
    unfolding st_held_def by (rule held_us_receive)
  with Inr assms show ?thesis
    by (auto simp: st_transition_def with_queue_def within_limit_def st_held_def Let_def split: if_splits)
qed

text \<open>A history of inputs that are all routed to the stash.\<close>

lemma st_run_stashing:
  assumes "\<And>u. u \<in> set us \<Longrightarrow> us_route (st_queue s) (user_message u) = StashInput"
  shows "run (st_transition B) s (map (\<lambda>u. mk_user (b_user B) (user_from u) (user_message u)) us)
    = (s\<lparr>st_queue := (st_queue s)\<lparr>us_held := us_held (st_queue s) @ take (st_limit s - st_held s) us\<rparr>\<rparr>,
       map (\<lambda>u. Inr (send_actions \<lparr>actor_sends = empty_sends (b_sends B), refusal_sends = []\<rparr>))
           (take (st_limit s - st_held s) us)
       @ map (\<lambda>u. Inr (send_actions \<lparr>actor_sends = empty_sends (b_sends B),
                         refusal_sends = deliver (st_refusals s) u\<rparr>))
           (drop (st_limit s - st_held s) us))"
  using assms
proof (induction us arbitrary: s)
  case (Cons u us)
  let ?e = "mk_user (b_user B) (user_from u) (user_message u)"
  have u: "into_user (b_user B) ?e = Inr u" by (simp add: into_mk_user)
  show ?case
  proof (cases "st_held s < st_limit s")
    case True
    let ?s = "s\<lparr>st_queue := (st_queue s)\<lparr>us_held := us_held (st_queue s) @ [u]\<rparr>\<rparr>"
    have step: "st_transition B s ?e
        = (?s, Inr (send_actions \<lparr>actor_sends = empty_sends (b_sends B), refusal_sends = []\<rparr>))"
      using True u Cons.prems [of u]
      by (simp add: st_transition_def with_queue_def us_receive_def core_defs without_refusals_def)
    have "us_route (st_queue ?s) (user_message v) = StashInput" if "v \<in> set us" for v
      using that Cons.prems [of v] by (simp add: us_route_def)
    from Cons.IH [of ?s, OF this] True show ?thesis
      by (simp add: step st_held_def Suc_diff_Suc [symmetric])
  next
    case False
    have step: "st_transition B s ?e = (s, Inr (send_actions
        \<lparr>actor_sends = empty_sends (b_sends B), refusal_sends = deliver (st_refusals s) u\<rparr>))"
      using False u Cons.prems [of u] by (simp add: st_transition_def core_defs)
    from Cons.IH [of s] Cons.prems False show ?thesis by (simp add: step)
  qed
qed simp

end

interpretation bounded_latch: fold_invariant
  "st_transition (latch_behavior :: ('r latch_state, ('a, 'r latch_message) user, 'a, 'r latch_message,
      ('r, latch_released) delivery list, 'c, 'ph, 'err) behavior)" "within_limit n" for n
  by unfold_locales (rule latch.st_transition_within_limit)

lemma st_fold_invariant:
  "lawful_behavior B \<Longrightarrow> fold_invariant (st_transition B) (within_limit n)"
  by (intro fold_invariant.intro lawful_behavior.st_transition_within_limit)

section \<open>Properties\<close>

text \<open>A latch with natural-number routes, and a stash around it that holds two inputs until an arrival.\<close>

abbreviation latch_example :: "(nat latch_state, (nat, nat latch_message) user, nat, nat latch_message,
    (nat, latch_released) delivery list, unit, unit, unit) behavior" where
  "latch_example \<equiv> latch_behavior"

definition mail :: "nat \<Rightarrow> (nat, nat latch_message) user" where
  "mail n = \<lparr>user_from = n, user_message = \<lparr>latch_reply_to = n\<rparr>\<rparr>"

definition replay_example :: "(nat latch_state, nat, nat latch_message) unlimited_stash" where
  "replay_example = \<lparr>us_inner = Counting 2 [],
     us_selector = (\<lambda>b m. if latch_reply_to m = 9 then StashInput else Release),
     us_held = [mail 8, mail 9]\<rparr>"

lemmas example_defs = mail_def replay_example_def us_route_def latch_behavior_def
  total_behavior_def message_behavior_def plain_user_def



text \<open>
  C23: Whatever the events, a bounded stash around a behavior whose user events are lawful
  never holds more inputs than its limit.
\<close>

theorem stash_never_exceeds_limit:
  assumes "lawful_behavior B"
  shows "st_held (run_state (st_transition B) (st_new b limit refusals selector) es) \<le> limit"
  using fold_invariant.run_inv [OF st_fold_invariant [OF assms], of limit "st_new b limit refusals selector" es]
  by (simp add: within_limit_def st_new_def us_new_def st_held_def)

theorem stash_never_exceeds_limit_witness:
  "st_held (run_state (st_transition latch_example)
     (st_new (Counting 3 []) 1 0 (\<lambda>_ _. StashInput) :: (_, _, _, nat) stash) [mail 4, mail 5, mail 6]) \<le> 1"
  by (rule stash_never_exceeds_limit [OF latch.lawful_behavior_axioms])

text \<open>
  Inputs the selector sends to the stash are held, in order, as long as there is a slot;
  every further one is delivered whole to the refusal recipient, in order, and changes
  neither the inner behavior nor the held inputs.
\<close>

theorem stash_holds_first_and_refuses_rest:
  assumes "lawful_behavior B"
    and "\<And>u. u \<in> set us \<Longrightarrow> us_route (st_queue s) (user_message u) = StashInput"
  shows "let free = st_limit s - st_held s;
             (s', outs) = run (st_transition B) s
               (map (\<lambda>u. mk_user (b_user B) (user_from u) (user_message u)) us)
         in s' = s\<lparr>st_queue := (st_queue s)\<lparr>us_held := us_held (st_queue s) @ take free us\<rparr>\<rparr>
            \<and> outs = map (\<lambda>u. Inr (send_actions \<lparr>actor_sends = empty_sends (b_sends B), refusal_sends = []\<rparr>))
                       (take free us)
                   @ map (\<lambda>u. Inr (send_actions \<lparr>actor_sends = empty_sends (b_sends B),
                                     refusal_sends = deliver (st_refusals s) u\<rparr>))
                       (drop free us)"
  using lawful_behavior.st_run_stashing [OF assms] by (simp add: Let_def)

theorem stash_holds_first_and_refuses_rest_witness:
  "us_held (st_queue (run_state (st_transition latch_example)
     (st_new (Counting 3 []) 1 (0 :: nat) (\<lambda>_ _. StashInput)) [mail 4, mail 5, mail 6])) = [mail 4]"
  using stash_holds_first_and_refuses_rest [of latch_example "[mail 4, mail 5, mail 6]"
      "st_new (Counting 3 []) 1 (0 :: nat) (\<lambda>_ _. StashInput)", OF latch.lawful_behavior_axioms]
  by (simp add: split_beta example_defs st_new_def us_new_def st_held_def us_route_def)

end
