(* ===== verification/Machine.thy ===== *)
theory Machine
  imports Behavior_Core
begin

text \<open>
  \<^verbatim>\<open>machine.rs\<close>: a finite-state behavior that defers messages. A handler reads the phase and
  the message and updates the state; a change of phase replays every deferred message. A
  transition works on a clone of the machine, which replaces it only when no handler failed.
\<close>

section \<open>The machine\<close>

datatype 'p move = Stay | GotoPhase 'p | Defer | StopMachine

record ('a, 'm, 'e) machine_error =
  error_event :: "('a, 'm) user"
  error_cause :: 'e

datatype advance = AdvanceContinue | PhaseChanged | AdvanceStop

text \<open>The handler borrows the state mutably: the model returns the state after the call.\<close>

record ('s, 'm, 'p, 'e) machine =
  m_state :: 's
  m_phase :: 'p
  m_on :: "'p \<Rightarrow> 's \<Rightarrow> 'm \<Rightarrow> 's \<times> ('e + 'p move)"
  m_held :: "'m list"


definition machine_advance :: "('s, 'm, 'p, 'e) machine \<Rightarrow> 'm \<Rightarrow> ('s, 'm, 'p, 'e) machine \<times> ('e + advance)" where
  "machine_advance M m =
     (case m_on M (m_phase M) (m_state M) m of
        (s, Inl e) \<Rightarrow> (M\<lparr>m_state := s\<rparr>, Inl e)
      | (s, Inr Stay) \<Rightarrow> (M\<lparr>m_state := s\<rparr>, Inr AdvanceContinue)
      | (s, Inr Defer) \<Rightarrow> (M\<lparr>m_state := s, m_held := m_held M @ [m]\<rparr>, Inr AdvanceContinue)
      | (s, Inr StopMachine) \<Rightarrow> (M\<lparr>m_state := s\<rparr>, Inr AdvanceStop)
      | (s, Inr (GotoPhase p)) \<Rightarrow>
          (M\<lparr>m_state := s, m_phase := p\<rparr>,
           Inr (if p \<noteq> m_phase M then PhaseChanged else AdvanceContinue)))"

lemma advance_go_size:
  "machine_advance M m = (M', Inr AdvanceContinue) \<Longrightarrow> length (m_held M') \<le> Suc (length (m_held M))"
  by (auto simp: machine_advance_def split: prod.splits sum.splits move.splits if_splits)

lemma advance_change_held:
  "machine_advance M m = (M', Inr PhaseChanged) \<Longrightarrow> m_held M' = m_held M"
  by (auto simp: machine_advance_def split: prod.splits sum.splits move.splits if_splits)

text \<open>
  The loop of \<^verbatim>\<open>drain\<close>, with the batch as an argument. A deferral moves a message from the
  batch to the held ones; every other handler call consumes one; a change of phase moves the
  held ones behind the batch. The pair of what is left and what is in the batch decreases.
\<close>

function drain_batch :: "('s, 'm, 'p, 'e) machine \<Rightarrow> 'm list
    \<Rightarrow> ('s, 'm, 'p, 'e) machine \<times> ('e + 'ph become)" where
  "drain_batch M [] = (M, Inr Continue)"
| "drain_batch M (m # batch) =
     (case machine_advance M m of
        (M', Inl e) \<Rightarrow> (M'\<lparr>m_held := m_held M' @ batch\<rparr>, Inl e)
      | (M', Inr AdvanceContinue) \<Rightarrow> drain_batch M' batch
      | (M', Inr PhaseChanged) \<Rightarrow> drain_batch (M'\<lparr>m_held := []\<rparr>) (batch @ m_held M')
      | (M', Inr AdvanceStop) \<Rightarrow> (M'\<lparr>m_held := m_held M' @ batch\<rparr>, Inr (Stop Stopped)))"
  by pat_completeness auto

termination
  by (relation "measures [\<lambda>(M, batch). length (m_held M) + length batch, \<lambda>(M, batch). length batch]")
    (auto dest!: advance_go_size [OF sym] advance_change_held [OF sym])




definition machine_drain :: "('s, 'm, 'p, 'e) machine \<Rightarrow> ('s, 'm, 'p, 'e) machine \<times> ('e + 'ph become)" where
  "machine_drain M = drain_batch (M\<lparr>m_held := []\<rparr>) (m_held M)"

definition machine_transition :: "('s, 'm, 'p, 'e) machine \<Rightarrow> ('a, 'm) user
    \<Rightarrow> ('s, 'm, 'p, 'e) machine \<times> (('a, 'm, 'e) machine_error + ('x list, 'c, 'ph) actions)" where
  "machine_transition M event =
     (case machine_advance M (user_message event) of
        (staged, Inl e) \<Rightarrow> (M, Inl \<lparr>error_event = event, error_cause = e\<rparr>)
      | (staged, Inr AdvanceStop) \<Rightarrow> (staged, Inr (stop_actions vec_sends))
      | (staged, Inr PhaseChanged) \<Rightarrow>
          (case machine_drain staged of
             (drained, Inr step) \<Rightarrow> (drained, Inr (just vec_sends step))
           | (drained, Inl e) \<Rightarrow> (M, Inl \<lparr>error_event = event, error_cause = e\<rparr>))
      | (staged, Inr AdvanceContinue) \<Rightarrow> (staged, Inr (cont vec_sends)))"

definition machine_behavior :: "(('s, 'm, 'p, 'e) machine, ('a, 'm) user, 'a, 'm, 'x list, 'c, 'ph,
    ('a, 'm, 'e) machine_error) behavior" where
  "machine_behavior =
     \<lparr>b_init = default_init vec_sends, b_transition = machine_transition,
      b_sends = vec_sends, b_user = plain_user\<rparr>"

section \<open>Deferral\<close>



lemma advance_on [simp]: "m_on (fst (machine_advance M m)) = m_on M"
  by (auto simp: machine_advance_def split: prod.splits sum.splits move.splits)











section \<open>The machine as a behavior\<close>

interpretation machine: lawful_behavior
  "machine_behavior :: (('s, 'm, 'p, 'e) machine, ('a, 'm) user, 'a, 'm, 'x list, 'c, 'ph,
    ('a, 'm, 'e) machine_error) behavior"
  by (intro lawful_behavior.intro)
    (simp_all add: machine_behavior_def vec.send_monoid_axioms plain.lawful_user_event_axioms)

end
