(* ===== verification/Buffer.thy ===== *)
theory Buffer
  imports Behavior_Core
begin

text \<open>
  \<^verbatim>\<open>routing/buffer.rs\<close>: a bounded FIFO of values that are offered and released on demand, with
  one of three overflow policies. The \<^verbatim>\<open>expect\<close> of the drop-oldest policy is the output
  \<open>None\<close> of the model.
\<close>

section \<open>State and fold\<close>

datatype overflow_policy = Reject | DropOldest | DropNewest

datatype buffer_rejection = BufferFull | DroppedNewest

datatype 'v buffer_outcome =
    BufferAccepted usize
  | BufferRejected 'v buffer_rejection
  | Evicted 'v
  | BufferReleased usize
  | BufferEmpty

record ('v, 'r) buffered =
  buffered_value :: 'v
  buffered_reply_to :: 'r

record ('v, 'r) buffer_state =
  bu_capacity :: usize
  bu_overflow :: overflow_policy
  bu_queued :: "('v, 'r) buffered list"

datatype ('v, 't, 'r) buffer_message = BufferOffer 'v 'r | BufferRelease 't 'r

datatype buffer_config_error = BufferZeroCapacity

record buffer_configuration =
  bc_capacity :: usize
  bc_overflow :: overflow_policy

definition buffer_configuration_new :: "usize \<Rightarrow> overflow_policy \<Rightarrow> buffer_config_error + buffer_configuration" where
  "buffer_configuration_new c p =
     (if c = 0 then Inl BufferZeroCapacity else Inr \<lparr>bc_capacity = c, bc_overflow = p\<rparr>)"

definition buffer_new :: "buffer_configuration \<Rightarrow> ('v, 'r) buffer_state" where
  "buffer_new cfg = \<lparr>bu_capacity = bc_capacity cfg, bu_overflow = bc_overflow cfg, bu_queued = []\<rparr>"

type_synonym ('v, 't, 'r) buffer_sends =
  "(('t, 'v) delivery list, ('r, 'v buffer_outcome) delivery list) delivery_outcomes"

definition buffer_actions :: "('t, 'v) delivery list \<Rightarrow> ('r, 'v buffer_outcome) delivery list
    \<Rightarrow> (('v, 't, 'r) buffer_sends, never, never) actions" where
  "buffer_actions ds os = send_actions \<lparr>deliveries = ds, outcomes = os\<rparr>"

fun buffer_transition :: "('v, 'r) buffer_state \<Rightarrow> ('v, 't, 'r) buffer_message
    \<Rightarrow> ('v, 'r) buffer_state \<times> (('v, 't, 'r) buffer_sends, never, never) actions option" where
  "buffer_transition s (BufferOffer v r) =
     (if length (bu_queued s) < bu_capacity s
      then let s' = s\<lparr>bu_queued := bu_queued s @ [\<lparr>buffered_value = v, buffered_reply_to = r\<rparr>]\<rparr>
           in (s', Some (buffer_actions [] (deliver r (BufferAccepted (length (bu_queued s'))))))
      else case bu_overflow s of
          Reject \<Rightarrow> (s, Some (buffer_actions [] (deliver r (BufferRejected v BufferFull))))
        | DropNewest \<Rightarrow> (s, Some (buffer_actions [] (deliver r (BufferRejected v DroppedNewest))))
        | DropOldest \<Rightarrow>
            (case bu_queued s of
               [] \<Rightarrow> (s, None)
             | evicted # rest \<Rightarrow>
                 let s' = s\<lparr>bu_queued := rest @ [\<lparr>buffered_value = v, buffered_reply_to = r\<rparr>]\<rparr>
                 in (s', Some (buffer_actions []
                      (append_sends vec_sends
                        (deliver (buffered_reply_to evicted) (Evicted (buffered_value evicted)))
                        (deliver r (BufferAccepted (length (bu_queued s')))))))))"
| "buffer_transition s (BufferRelease t r) =
     (case bu_queued s of
        [] \<Rightarrow> (s, Some (buffer_actions [] (deliver r BufferEmpty)))
      | b # rest \<Rightarrow>
          (s\<lparr>bu_queued := rest\<rparr>,
           Some (buffer_actions (deliver t (buffered_value b)) (deliver r (BufferReleased (length rest))))))"

section \<open>The buffer is a bounded FIFO\<close>

definition buffer_ok :: "usize \<Rightarrow> ('v, 'r) buffer_state \<Rightarrow> bool" where
  "buffer_ok n s \<longleftrightarrow> bu_capacity s = n \<and> 0 < n \<and> length (bu_queued s) \<le> n"

text \<open>The values an output hands over: released to the target or evicted, and refused offers.\<close>

fun evicted_value :: "'v buffer_outcome \<Rightarrow> 'v list" where
  "evicted_value (Evicted v) = [v]"
| "evicted_value _ = []"

fun rejected_value :: "'v buffer_outcome \<Rightarrow> 'v list" where
  "rejected_value (BufferRejected v reason) = [v]"
| "rejected_value _ = []"

definition buffer_left :: "(('v, 't, 'r) buffer_sends, never, never) actions option \<Rightarrow> 'v list" where
  "buffer_left out = (case out of None \<Rightarrow> [] | Some a \<Rightarrow>
     map delivered (deliveries (sends a)) @ concat (map (evicted_value \<circ> delivered) (outcomes (sends a))))"

definition buffer_refused :: "(('v, 't, 'r) buffer_sends, never, never) actions option \<Rightarrow> 'v list" where
  "buffer_refused out = (case out of None \<Rightarrow> [] | Some a \<Rightarrow>
     concat (map (rejected_value \<circ> delivered) (outcomes (sends a))))"

fun buffer_offered :: "('v, 't, 'r) buffer_message \<Rightarrow> 'v list" where
  "buffer_offered (BufferOffer v r) = [v]"
| "buffer_offered (BufferRelease t r) = []"

definition buffer_entered :: "('v, 't, 'r) buffer_message
    \<Rightarrow> (('v, 't, 'r) buffer_sends, never, never) actions option \<Rightarrow> 'v list" where
  "buffer_entered msg out = (if buffer_refused out = [] then buffer_offered msg else [])"

abbreviation buffer_values :: "('v, 'r) buffer_state \<Rightarrow> 'v list" where
  "buffer_values s \<equiv> map buffered_value (bu_queued s)"

lemmas buffer_simps = buffer_ok_def buffer_left_def buffer_refused_def buffer_entered_def
  buffer_actions_def core_defs deliver_def Let_def

interpretation buffer: fifo_fold buffer_transition "buffer_ok n" buffer_values buffer_entered buffer_left
  for n
proof
  fix s :: "('v, 'r) buffer_state" and e :: "('v, 't, 'r) buffer_message"
  assume "buffer_ok n s"
  then show "buffer_ok n (fst (buffer_transition s e))"
    "buffer_values s @ buffer_entered e (snd (buffer_transition s e))
     = buffer_left (snd (buffer_transition s e)) @ buffer_values (fst (buffer_transition s e))"
    by (cases e; auto simp: buffer_simps split: overflow_policy.splits list.splits)+
qed

lemma buffer_no_panic:
  "buffer_ok n s \<Longrightarrow> snd (buffer_transition s e) \<noteq> None"
  by (cases e) (auto simp: buffer_simps split: overflow_policy.splits list.splits)

lemma buffer_refuses_or_takes:
  "buffer_ok n s \<Longrightarrow>
   buffer_offered e = buffer_entered e (snd (buffer_transition s e)) @ buffer_refused (snd (buffer_transition s e))"
  by (cases e) (auto simp: buffer_simps split: overflow_policy.splits list.splits)

lemma buffer_new_queued [simp]: "bu_queued (buffer_new cfg) = []"
  by (simp add: buffer_new_def)

lemma buffer_new_ok: "buffer_configuration_new n p = Inr cfg \<Longrightarrow> buffer_ok n (buffer_new cfg)"
  by (auto simp: buffer_configuration_new_def buffer_new_def buffer_ok_def split: if_splits)

text \<open>
  C38: A buffer built from a valid configuration never reaches its \<^verbatim>\<open>expect\<close>, never holds more
  than its capacity, and is a FIFO: over any history, the values it took in are, in order,
  those it released or evicted followed by those it still holds. An offered value it does not
  take in is returned to the one who offered it.
\<close>

theorem buffer_is_bounded_fifo:
  assumes "buffer_configuration_new n p = Inr cfg"
  shows "let (s, outs) = run (buffer_transition ::
         (_, _, (('v, 't, 'r) buffer_sends, never, never) actions option) fold_step) (buffer_new cfg) es in
     None \<notin> set outs
     \<and> length (bu_queued s) \<le> n
     \<and> concat (map2 buffer_entered es outs) = concat (map buffer_left outs) @ buffer_values s
     \<and> list_all2 (\<lambda>e out. buffer_offered e = buffer_entered e out @ buffer_refused out) es outs"
proof -
  let ?f = "buffer_transition :: (_, _, (('v, 't, 'r) buffer_sends, never, never) actions option) fold_step"
  note ok = buffer_new_ok [OF assms]
  have "None \<notin> set (run_outputs ?f (buffer_new cfg) es)"
    using buffer.run_outputs_all [where Q = "\<lambda>out. out \<noteq> None", OF buffer_no_panic [of n] ok] by blast
  moreover have "list_all2 (\<lambda>e out. buffer_offered e = buffer_entered e out @ buffer_refused out)
      es (run_outputs ?f (buffer_new cfg) es)"
    using ok by (rule buffer.run_pairs_all [rotated]) (rule buffer_refuses_or_takes)
  moreover have "buffer_ok n (run_state ?f (buffer_new cfg) es)"
    by (rule buffer.run_inv [OF ok])
  ultimately show ?thesis using buffer.run_fifo [OF ok, of es] by (simp add: split_beta buffer_ok_def)
qed

theorem buffer_is_bounded_fifo_witness:
  "let es = [BufferOffer (5 :: nat) (0 :: nat), BufferOffer 6 1, BufferRelease (2 :: nat) 3];
       (s, outs) = run buffer_transition (buffer_new \<lparr>bc_capacity = 1, bc_overflow = DropOldest\<rparr>) es in
     None \<notin> set outs \<and> length (bu_queued s) \<le> 1
     \<and> concat (map2 buffer_entered es outs) = concat (map buffer_left outs) @ buffer_values s
     \<and> list_all2 (\<lambda>e out. buffer_offered e = buffer_entered e out @ buffer_refused out) es outs"
  unfolding Let_def
  by (rule buffer_is_bounded_fifo [of 1 DropOldest, unfolded Let_def])
    (simp add: buffer_configuration_new_def)

end
