(* ===== verification/Work_Queue.thy ===== *)
theory Work_Queue
  imports Behavior_Core
begin

text \<open>
  \<^verbatim>\<open>routing/work_queue.rs\<close>: submitted values wait, up to a capacity, until a worker announces
  itself; workers wait until a value is submitted. Either side is served in arrival order.
\<close>

section \<open>State and fold\<close>

datatype work_queue_rejection = WorkQueueFull

datatype 'v work_queue_outcome =
    WorkQueued usize
  | Dispatched usize
  | WorkRejected 'v work_queue_rejection

datatype ('v, 'w, 'r) work_queue_message = Submit 'v 'r | Available 'w | Withdraw 'w

record ('x, 'y) work_queue_sends =
  assignments :: 'x
  work_outcomes :: 'y

definition work_queue_sends_effects :: "'x send_effects \<Rightarrow> 'y send_effects \<Rightarrow> ('x, 'y) work_queue_sends send_effects" where
  "work_queue_sends_effects X Y =
     \<lparr>empty_sends = \<lparr>assignments = empty_sends X, work_outcomes = empty_sends Y\<rparr>,
      append_sends = (\<lambda>x y. \<lparr>assignments = append_sends X (assignments x) (assignments y),
                             work_outcomes = append_sends Y (work_outcomes x) (work_outcomes y)\<rparr>)\<rparr>"

record ('v, 'r) waiting =
  waiting_value :: 'v
  waiting_reply_to :: 'r

record ('v, 'w, 'r) work_queue =
  wq_capacity :: usize
  wq_available :: "'w list"
  wq_waiting :: "('v, 'r) waiting list"

type_synonym ('v, 'w, 'r) wq_sends =
  "(('w, 'v) delivery list, ('r, 'v work_queue_outcome) delivery list) work_queue_sends"

definition work_queue_new :: "usize \<Rightarrow> ('v, 'w, 'r) work_queue" where
  "work_queue_new c = \<lparr>wq_capacity = c, wq_available = [], wq_waiting = []\<rparr>"

definition wq_send :: "('w, 'v) delivery list \<Rightarrow> ('r, 'v work_queue_outcome) delivery list
    \<Rightarrow> (('v, 'w, 'r) wq_sends, never, never) actions" where
  "wq_send ds os = send_actions \<lparr>assignments = ds, work_outcomes = os\<rparr>"

definition wq_submit :: "('v, 'w, 'r) work_queue \<Rightarrow> 'v \<Rightarrow> 'r
    \<Rightarrow> ('v, 'w, 'r) work_queue \<times> (('v, 'w, 'r) wq_sends, never, never) actions" where
  "wq_submit q v r =
     (case wq_available q of
        w # ws \<Rightarrow> (q\<lparr>wq_available := ws\<rparr>,
                   wq_send (deliver w v) (deliver r (Dispatched (length (wq_waiting q)))))
      | [] \<Rightarrow>
         (if length (wq_waiting q) = wq_capacity q
          then (q, wq_send [] (deliver r (WorkRejected v WorkQueueFull)))
          else let q' = q\<lparr>wq_waiting := wq_waiting q @ [\<lparr>waiting_value = v, waiting_reply_to = r\<rparr>]\<rparr>
               in (q', wq_send [] (deliver r (WorkQueued (length (wq_waiting q')))))))"

definition wq_announce :: "('v, 'w, 'r) work_queue \<Rightarrow> 'w
    \<Rightarrow> ('v, 'w, 'r) work_queue \<times> (('v, 'w, 'r) wq_sends, never, never) actions" where
  "wq_announce q w =
     (case wq_waiting q of
        x # xs \<Rightarrow> (q\<lparr>wq_waiting := xs\<rparr>,
                   wq_send (deliver w (waiting_value x))
                     (deliver (waiting_reply_to x) (Dispatched (length xs))))
      | [] \<Rightarrow> (if w \<in> set (wq_available q) then q else q\<lparr>wq_available := wq_available q @ [w]\<rparr>,
               cont (work_queue_sends_effects vec_sends vec_sends)))"

fun work_queue_transition :: "('v, 'w, 'r) work_queue \<Rightarrow> ('v, 'w, 'r) work_queue_message
    \<Rightarrow> ('v, 'w, 'r) work_queue \<times> (('v, 'w, 'r) wq_sends, never, never) actions" where
  "work_queue_transition q (Submit v r) = wq_submit q v r"
| "work_queue_transition q (Available w) = wq_announce q w"
| "work_queue_transition q (Withdraw w) =
     (case position (\<lambda>x. x = w) (wq_available q) of
        Some i \<Rightarrow> q\<lparr>wq_available := remove_at i (wq_available q)\<rparr>
      | None \<Rightarrow> q,
      cont (work_queue_sends_effects vec_sends vec_sends))"

section \<open>Service in submission order\<close>

text \<open>Values and workers never wait at the same time, and a worker waits at most once.\<close>

definition work_queue_ok :: "usize \<Rightarrow> ('v, 'w, 'r) work_queue \<Rightarrow> bool" where
  "work_queue_ok n q \<longleftrightarrow> wq_capacity q = n \<and> length (wq_waiting q) \<le> n
     \<and> (wq_available q = [] \<or> wq_waiting q = []) \<and> distinct (wq_available q)"

fun work_rejected_value :: "'v work_queue_outcome \<Rightarrow> 'v list" where
  "work_rejected_value (WorkRejected v reason) = [v]"
| "work_rejected_value _ = []"

definition work_refused :: "(('v, 'w, 'r) wq_sends, never, never) actions \<Rightarrow> 'v list" where
  "work_refused a = concat (map (work_rejected_value \<circ> delivered) (work_outcomes (sends a)))"

definition work_assigned :: "(('v, 'w, 'r) wq_sends, never, never) actions \<Rightarrow> 'v list" where
  "work_assigned a = map delivered (assignments (sends a))"

fun work_submitted :: "('v, 'w, 'r) work_queue_message \<Rightarrow> 'v list" where
  "work_submitted (Submit v r) = [v]"
| "work_submitted _ = []"

definition work_entered :: "('v, 'w, 'r) work_queue_message
    \<Rightarrow> (('v, 'w, 'r) wq_sends, never, never) actions \<Rightarrow> 'v list" where
  "work_entered msg a = (if work_refused a = [] then work_submitted msg else [])"

abbreviation work_values :: "('v, 'w, 'r) work_queue \<Rightarrow> 'v list" where
  "work_values q \<equiv> map waiting_value (wq_waiting q)"

lemmas work_queue_simps = work_queue_ok_def wq_submit_def wq_announce_def wq_send_def
  work_queue_sends_effects_def work_refused_def work_assigned_def work_entered_def
  core_defs deliver_def Let_def

interpretation work_queue: fifo_fold work_queue_transition "work_queue_ok n" work_values work_entered work_assigned
  for n
proof
  fix q :: "('v, 'w, 'r) work_queue" and e :: "('v, 'w, 'r) work_queue_message"
  assume "work_queue_ok n q"
  then show "work_queue_ok n (fst (work_queue_transition q e))"
    "work_values q @ work_entered e (snd (work_queue_transition q e))
     = work_assigned (snd (work_queue_transition q e)) @ work_values (fst (work_queue_transition q e))"
    by (cases e; auto simp: work_queue_simps remove_at_Nil split: list.splits option.splits)+
qed

lemma work_refuses_or_takes:
  "work_submitted e
     = work_entered e (snd (work_queue_transition q e)) @ work_refused (snd (work_queue_transition q e))"
  by (cases e) (auto simp: work_queue_simps split: list.splits)

text \<open>
  Over any history of a work queue, values are assigned in the order they were accepted
  and the accepted ones that were not assigned are those waiting; a value is refused only
  back to its submitter. At most the capacity waits, no worker is idle while a value waits,
  and no worker is listed twice.
\<close>

theorem work_queue_serves_in_order:
  "let (q, outs) = run (work_queue_transition ::
         (_, _, (('v, 'w, 'r) wq_sends, never, never) actions) fold_step) (work_queue_new n) es in
     concat (map2 work_entered es outs) = concat (map work_assigned outs) @ work_values q
     \<and> list_all2 (\<lambda>e out. work_submitted e = work_entered e out @ work_refused out) es outs
     \<and> length (wq_waiting q) \<le> n
     \<and> (wq_available q = [] \<or> wq_waiting q = [])
     \<and> distinct (wq_available q)"
proof -
  let ?f = "work_queue_transition :: (_, _, (('v, 'w, 'r) wq_sends, never, never) actions) fold_step"
  have ok: "work_queue_ok n (work_queue_new n)" by (simp add: work_queue_ok_def work_queue_new_def)
  have "list_all2 (\<lambda>e out. work_submitted e = work_entered e out @ work_refused out)
      es (run_outputs ?f (work_queue_new n) es)"
    using ok by (rule work_queue.run_pairs_all [rotated]) (rule work_refuses_or_takes)
  moreover have "work_queue_ok n (run_state ?f (work_queue_new n) es)"
    by (rule work_queue.run_inv [OF ok])
  ultimately show ?thesis
    using work_queue.run_fifo [OF ok, of es] by (simp add: split_beta work_queue_ok_def work_queue_new_def)
qed

end
