(* ===== verification/Priority_Queue.thy ===== *)
theory Priority_Queue
  imports Behavior_Core
begin

text \<open>
  \<^verbatim>\<open>routing/priority_queue.rs\<close>: a bounded queue that releases the highest priority first, and
  the oldest of equal priority. The \<^verbatim>\<open>BinaryHeap\<close> is the list of its entries in the order they
  were pushed; \<^verbatim>\<open>pop\<close> removes the greatest entry of the order the source gives \<^verbatim>\<open>Entry\<close>.
\<close>

section \<open>State and fold\<close>

datatype priority_queue_rejection = PriorityFull | SequenceExhausted

datatype ('v, 'p) priority_queue_outcome =
    PriorityAccepted usize
  | PriorityRejected 'v 'p priority_queue_rejection
  | PriorityReleased usize
  | PriorityEmpty

datatype ('v, 'p, 't, 'r) priority_queue_message = PriorityOffer 'v 'p 'r | PriorityRelease 't 'r

datatype priority_queue_config_error = PriorityZeroCapacity

record ('v, 'p) entry =
  entry_value :: 'v
  entry_priority :: 'p
  entry_order :: u64

text \<open>\<^verbatim>\<open>Ord for Entry\<close>: by priority, then by reversed arrival order.\<close>

definition entry_less :: "('v, 'p::linorder) entry \<Rightarrow> ('v, 'p) entry \<Rightarrow> bool" where
  "entry_less a b \<longleftrightarrow> entry_priority a < entry_priority b
     \<or> entry_priority a = entry_priority b \<and> entry_order b < entry_order a"

text \<open>\<^verbatim>\<open>BinaryHeap::pop\<close>.\<close>

definition heap_max :: "('v, 'p::linorder) entry \<Rightarrow> ('v, 'p) entry list \<Rightarrow> ('v, 'p) entry" where
  "heap_max = foldl (\<lambda>m e. if entry_less m e then e else m)"

fun heap_pop :: "('v, 'p::linorder) entry list \<Rightarrow> (('v, 'p) entry \<times> ('v, 'p) entry list) option" where
  "heap_pop [] = None"
| "heap_pop (e # es) = (let m = heap_max e es in Some (m, remove1 m (e # es)))"

record ('v, 'p) priority_queue =
  pq_capacity :: usize
  pq_next :: "u64 option"
  pq_queued :: "('v, 'p) entry list"

type_synonym ('v, 'p, 't, 'r) pq_sends =
  "(('t, 'v) delivery list, ('r, ('v, 'p) priority_queue_outcome) delivery list) delivery_outcomes"

definition priority_queue_new :: "usize \<Rightarrow> priority_queue_config_error + ('v, 'p) priority_queue" where
  "priority_queue_new c =
     (if c = 0 then Inl PriorityZeroCapacity
      else Inr \<lparr>pq_capacity = c, pq_next = Some 0, pq_queued = []\<rparr>)"

datatype priority_queue_state = PriorityActive u64 usize | PriorityExhausted usize

definition pq_state :: "('v, 'p) priority_queue \<Rightarrow> priority_queue_state" where
  "pq_state q = (case pq_next q of
      None \<Rightarrow> PriorityExhausted (length (pq_queued q))
    | Some n \<Rightarrow> PriorityActive n (length (pq_queued q)))"

definition pq_send :: "('t, 'v) delivery list \<Rightarrow> ('r, ('v, 'p) priority_queue_outcome) delivery list
    \<Rightarrow> (('v, 'p, 't, 'r) pq_sends, never, never) actions" where
  "pq_send ds os = send_actions \<lparr>deliveries = ds, outcomes = os\<rparr>"

definition pq_offer :: "('v, 'p) priority_queue \<Rightarrow> 'v \<Rightarrow> 'p \<Rightarrow> 'r
    \<Rightarrow> ('v, 'p) priority_queue \<times> (('v, 'p, 't, 'r) pq_sends, never, never) actions" where
  "pq_offer q v p r =
     (if length (pq_queued q) = pq_capacity q
      then (q, pq_send [] (deliver r (PriorityRejected v p PriorityFull)))
      else case pq_next q of
          None \<Rightarrow> (q, pq_send [] (deliver r (PriorityRejected v p SequenceExhausted)))
        | Some ord \<Rightarrow>
            (let q' = q\<lparr>pq_next := checked_add ord 1,
                        pq_queued := pq_queued q @
                          [\<lparr>entry_value = v, entry_priority = p, entry_order = ord\<rparr>]\<rparr>
             in (q', pq_send [] (deliver r (PriorityAccepted (length (pq_queued q')))))))"

fun priority_queue_transition :: "('v, 'p::linorder) priority_queue \<Rightarrow> ('v, 'p, 't, 'r) priority_queue_message
    \<Rightarrow> ('v, 'p) priority_queue \<times> (('v, 'p, 't, 'r) pq_sends, never, never) actions" where
  "priority_queue_transition q (PriorityOffer v p r) = pq_offer q v p r"
| "priority_queue_transition q (PriorityRelease t r) =
     (case heap_pop (pq_queued q) of
        None \<Rightarrow> (q, pq_send [] (deliver r PriorityEmpty))
      | Some (e, rest) \<Rightarrow>
          (q\<lparr>pq_queued := rest\<rparr>,
           pq_send (deliver t (entry_value e)) (deliver r (PriorityReleased (length rest)))))"

section \<open>The order of release\<close>

definition priority_queue_ok :: "usize \<Rightarrow> ('v, 'p) priority_queue \<Rightarrow> bool" where
  "priority_queue_ok n q \<longleftrightarrow> pq_capacity q = n \<and> length (pq_queued q) \<le> n
     \<and> sorted_wrt (<) (map entry_order (pq_queued q))
     \<and> (\<forall>m. pq_next q = Some m \<longrightarrow> (\<forall>e \<in> set (pq_queued q). entry_order e < m))"

lemma heap_max_in: "heap_max e es \<in> set (e # es)"
  unfolding heap_max_def by (induction es arbitrary: e) (auto split: if_splits)

lemma entry_less_trans: "\<not> entry_less a b \<Longrightarrow> \<not> entry_less b c \<Longrightarrow> \<not> entry_less a c"
  by (auto simp: entry_less_def)

lemma heap_max_greatest: "x \<in> set (e # es) \<Longrightarrow> \<not> entry_less (heap_max e es) x"
proof (induction es arbitrary: e x)
  case Nil
  then show ?case by (simp add: heap_max_def entry_less_def)
next
  case (Cons y es)
  let ?m = "if entry_less e y then y else e"
  have step: "heap_max e (y # es) = heap_max ?m es" by (simp add: heap_max_def)
  have bound: "\<not> entry_less (heap_max ?m es) ?m" by (rule Cons.IH) simp
  consider "x = e" | "x = y" | "x \<in> set es" using Cons.prems by auto
  then show ?case
  proof cases
    case 3
    then show ?thesis unfolding step by (intro Cons.IH) simp
  next
    case 1
    moreover have "\<not> entry_less ?m e" by (auto simp: entry_less_def)
    ultimately show ?thesis unfolding step using bound entry_less_trans by blast
  next
    case 2
    moreover have "\<not> entry_less ?m y" by (simp add: entry_less_def)
    ultimately show ?thesis unfolding step using bound entry_less_trans by blast
  qed
qed

text \<open>With increasing orders, the greatest entry is the first one of the greatest priority.\<close>

lemma heap_pop_first_of_greatest:
  assumes "sorted_wrt (<) (map entry_order es)" and "heap_pop es = Some (e, rest)"
  obtains before after where "es = before @ e # after" and "rest = before @ after"
    and "\<forall>x \<in> set before. entry_priority x < entry_priority e"
    and "\<forall>x \<in> set after. entry_priority x \<le> entry_priority e"
proof -
  from assms(2) obtain y ys where es: "es = y # ys" and e: "e = heap_max y ys" and rest: "rest = remove1 e es"
    by (cases es) (auto simp: Let_def)
  then obtain before after where split: "es = before @ e # after" "e \<notin> set before"
    using heap_max_in [of y ys] by (metis split_list_first)
  have max: "\<not> entry_less e x" if "x \<in> set es" for x
    using heap_max_greatest [of x y ys] that es e by simp
  have "entry_order x < entry_order e" if "x \<in> set before" for x
    using assms(1) split that by (auto simp: sorted_wrt_append)
  then have "entry_priority x < entry_priority e" if "x \<in> set before" for x
    using max [of x] that split by (fastforce simp: entry_less_def)
  moreover have "entry_priority x \<le> entry_priority e" if "x \<in> set after" for x
    using max [of x] that split by (auto simp: entry_less_def)
  moreover have "rest = before @ after" using split rest by (simp add: remove1_append)
  ultimately show thesis using that split(1) by blast
qed

lemma heap_pop_None [simp]: "heap_pop es = None \<longleftrightarrow> es = []"
  by (cases es) (auto simp: Let_def)

lemmas priority_queue_simps = priority_queue_ok_def pq_offer_def pq_send_def core_defs deliver_def Let_def

lemma pq_offer_ok: "priority_queue_ok n q \<Longrightarrow> priority_queue_ok n (fst (pq_offer q v p r))"
  by (auto simp: priority_queue_simps sorted_wrt_append dest!: checked_succ_less
      split: option.splits intro: less_trans)

text \<open>What a pop does to a well-formed queue.\<close>

lemma pq_pop_split:
  assumes "priority_queue_ok n q" and "heap_pop (pq_queued q) = Some (e, rest)"
  obtains before after where "pq_queued q = before @ e # after" and "rest = before @ after"
    and "\<forall>x \<in> set before. entry_priority x < entry_priority e"
    and "\<forall>x \<in> set after. entry_priority x \<le> entry_priority e"
proof -
  from assms(1) have "sorted_wrt (<) (map entry_order (pq_queued q))" by (simp add: priority_queue_ok_def)
  from heap_pop_first_of_greatest [OF this assms(2)] that show thesis by metis
qed

lemma pq_release_ok:
  assumes "priority_queue_ok n q" and "heap_pop (pq_queued q) = Some (e, rest)"
  shows "priority_queue_ok n (q\<lparr>pq_queued := rest\<rparr>)"
proof -
  from assms obtain before after where "pq_queued q = before @ e # after" "rest = before @ after"
    by (rule pq_pop_split)
  with assms(1) show ?thesis by (auto simp: priority_queue_ok_def sorted_wrt_append)
qed

lemma pq_release_oldest_of_highest:
  assumes "priority_queue_ok n q"
  shows "pq_queued q = [] \<or> (\<exists>before e after. pq_queued q = before @ e # after
      \<and> (\<forall>x \<in> set before. entry_priority x < entry_priority e)
      \<and> (\<forall>x \<in> set after. entry_priority x \<le> entry_priority e)
      \<and> priority_queue_transition q (PriorityRelease t r)
         = (q\<lparr>pq_queued := before @ after\<rparr>,
            pq_send (deliver t (entry_value e)) (deliver r (PriorityReleased (length before + length after)))))"
proof (cases "heap_pop (pq_queued q)")
  case (Some x)
  then obtain e rest where pop: "heap_pop (pq_queued q) = Some (e, rest)" by (cases x) auto
  with assms obtain before after where "pq_queued q = before @ e # after" "rest = before @ after"
      "\<forall>x \<in> set before. entry_priority x < entry_priority e"
      "\<forall>x \<in> set after. entry_priority x \<le> entry_priority e"
    by (rule pq_pop_split)
  with pop show ?thesis
    by (intro disjI2 exI [of _ before] exI [of _ e] exI [of _ after]) simp
qed simp

fun pq_offered :: "('v, 'p, 't, 'r) priority_queue_message \<Rightarrow> 'v multiset" where
  "pq_offered (PriorityOffer v p r) = {#v#}"
| "pq_offered (PriorityRelease t r) = {#}"

fun pq_rejected_value :: "('v, 'p) priority_queue_outcome \<Rightarrow> 'v list" where
  "pq_rejected_value (PriorityRejected v p reason) = [v]"
| "pq_rejected_value _ = []"

definition pq_handed :: "(('v, 'p, 't, 'r) pq_sends, never, never) actions \<Rightarrow> 'v multiset" where
  "pq_handed a = mset (map delivered (deliveries (sends a))
     @ concat (map (pq_rejected_value \<circ> delivered) (outcomes (sends a))))"

interpretation priority_queue: conserving_fold priority_queue_transition "priority_queue_ok n"
  "\<lambda>q. mset (map entry_value (pq_queued q))" pq_offered pq_handed for n
proof
  fix q :: "('v, 'p::linorder) priority_queue" and e :: "('v, 'p, 't, 'r) priority_queue_message"
  assume ok: "priority_queue_ok n q"
  show "priority_queue_ok n (fst (priority_queue_transition q e))"
  proof (cases e)
    case (PriorityRelease t r)
    with ok pq_release_ok [OF ok] show ?thesis by (auto split: option.splits)
  qed (simp add: ok pq_offer_ok)
  show "mset (map entry_value (pq_queued q)) + pq_offered e
      = mset (map entry_value (pq_queued (fst (priority_queue_transition q e))))
        + pq_handed (snd (priority_queue_transition q e))"
  proof (cases e)
    case (PriorityRelease t r)
    show ?thesis
    proof (cases "heap_pop (pq_queued q)")
      case (Some x)
      then obtain m rest where pop: "heap_pop (pq_queued q) = Some (m, rest)" by (cases x) auto
      with ok obtain before after where "pq_queued q = before @ m # after" "rest = before @ after"
        by (rule pq_pop_split)
      with pop PriorityRelease show ?thesis
        by (simp add: pq_handed_def pq_send_def core_defs deliver_def)
    qed (simp add: PriorityRelease pq_handed_def pq_send_def core_defs deliver_def)
  qed (auto simp: priority_queue_simps pq_handed_def split: option.splits)
qed

text \<open>
  In every state a priority queue reaches, a release takes the oldest entry of the highest
  priority: everything accepted before it has a strictly lower priority, everything after it
  at most the same; the other entries keep their order and only its value is delivered. The
  queue stays within its capacity, and every offered value is held, released or returned.
\<close>

theorem priority_queue_releases_oldest_of_highest:
  assumes "priority_queue_new n = Inr q0"
    and "run (priority_queue_transition ::
        (_, _, (('v, 'p::linorder, 't, 'r) pq_sends, never, never) actions) fold_step) q0 es = (q, outs)"
  shows "length (pq_queued q) \<le> n
    \<and> (\<Sum>e\<leftarrow>es. pq_offered e) = mset (map entry_value (pq_queued q)) + (\<Sum>out\<leftarrow>outs. pq_handed out)
    \<and> (pq_queued q = [] \<or> (\<exists>before e after. pq_queued q = before @ e # after
        \<and> (\<forall>x \<in> set before. entry_priority x < entry_priority e)
        \<and> (\<forall>x \<in> set after. entry_priority x \<le> entry_priority e)
        \<and> priority_queue_transition q (PriorityRelease t r)
           = (q\<lparr>pq_queued := before @ after\<rparr>,
              pq_send (deliver t (entry_value e)) (deliver r (PriorityReleased (length before + length after))))))"
proof -
  have q0: "priority_queue_ok n q0" "pq_queued q0 = []"
    using assms(1) by (auto simp: priority_queue_new_def priority_queue_ok_def split: if_splits)
  let ?f = "priority_queue_transition :: (_, _, (('v, 'p, 't, 'r) pq_sends, never, never) actions) fold_step"
  have "priority_queue_ok n (run_state ?f q0 es)" by (rule priority_queue.run_inv [OF q0(1)])
  then have ok: "priority_queue_ok n q" by (simp add: assms(2))
  have "mset (map entry_value (pq_queued q0)) + (\<Sum>e\<leftarrow>es. pq_offered e)
      = mset (map entry_value (pq_queued (run_state ?f q0 es))) + (\<Sum>out\<leftarrow>run_outputs ?f q0 es. pq_handed out)"
    by (rule priority_queue.run_conserves [OF q0(1)])
  then have "(\<Sum>e\<leftarrow>es. pq_offered e) = mset (map entry_value (pq_queued q)) + (\<Sum>out\<leftarrow>outs. pq_handed out)"
    by (simp add: q0(2) assms(2))
  moreover have "pq_queued q = [] \<or> (\<exists>before e after. pq_queued q = before @ e # after
        \<and> (\<forall>x \<in> set before. entry_priority x < entry_priority e)
        \<and> (\<forall>x \<in> set after. entry_priority x \<le> entry_priority e)
        \<and> priority_queue_transition q (PriorityRelease t r)
           = (q\<lparr>pq_queued := before @ after\<rparr>,
              pq_send (deliver t (entry_value e)) (deliver r (PriorityReleased (length before + length after)))))"
    using ok by (rule pq_release_oldest_of_highest)
  ultimately show ?thesis using ok unfolding priority_queue_ok_def by blast
qed

theorem priority_queue_releases_oldest_of_highest_witness:
  "\<exists>q outs before e after. run (priority_queue_transition ::
        (_, _, ((nat, nat, nat, nat) pq_sends, never, never) actions) fold_step)
      \<lparr>pq_capacity = 2, pq_next = Some 0, pq_queued = []\<rparr>
      [PriorityOffer 10 1 0, PriorityOffer 11 3 0, PriorityOffer 12 3 0] = (q, outs)
    \<and> pq_queued q = before @ e # after \<and> entry_value e = 11"
proof -
  let ?q0 = "\<lparr>pq_capacity = 2, pq_next = Some 0, pq_queued = []\<rparr> :: (nat, nat) priority_queue"
  let ?es = "[PriorityOffer 10 1 0, PriorityOffer 11 3 0, PriorityOffer 12 3 0]
    :: (nat, nat, nat, nat) priority_queue_message list"
  let ?run = "run (priority_queue_transition :: (_, _, ((nat, nat, nat, nat) pq_sends, never, never) actions) fold_step) ?q0 ?es"
  have new: "priority_queue_new 2 = Inr ?q0" by (simp add: priority_queue_new_def)
  have queued: "pq_queued (fst ?run) = [\<lparr>entry_value = 10, entry_priority = 1, entry_order = 0\<rparr>,
      \<lparr>entry_value = 11, entry_priority = 3, entry_order = 1\<rparr>]"
    by (simp add: pq_offer_def pq_send_def checked_add_def)
  from priority_queue_releases_oldest_of_highest [OF new, of ?es "fst ?run" "snd ?run" 0 0]
  obtain before e after where split: "pq_queued (fst ?run) = before @ e # after"
    and first: "\<forall>x \<in> set before. entry_priority x < entry_priority e"
    and later: "\<forall>x \<in> set after. entry_priority x \<le> entry_priority e"
    unfolding queued by auto
  have "entry_value e = 11"
    using split later unfolding queued by (auto simp: Cons_eq_append_conv)
  with split show ?thesis by (metis surjective_pairing)
qed

end
