(* ===== verification/Rate_Limiter.thy ===== *)
theory Rate_Limiter
  imports Behavior_Core
begin

text \<open>
  \<^verbatim>\<open>routing/rate_limiter.rs\<close>: a token bucket. An acquisition spends its cost or is refused with
  its value; a refill adds tokens up to the capacity. The counters are \<^verbatim>\<open>u64\<close>.
\<close>

section \<open>State and fold\<close>

text \<open>\<^verbatim>\<open>TokenCount\<close> wraps a \<^verbatim>\<open>NonZeroU64\<close>: the model keeps the word, the hypotheses its sign.\<close>

type_synonym token_count = u64

datatype rate_limit_rejection = ExceedsCapacity | InsufficientTokens

datatype 'v rate_limiter_outcome =
    RateAdmitted u64
  | RateRejected token_count 'v rate_limit_rejection

datatype ('v, 't, 'r) rate_limiter_message = Acquire token_count 'v 't 'r | Refill token_count

datatype rate_limiter_config_error = InitialExceedsCapacity token_count u64

record rate_limiter =
  rl_capacity :: token_count
  rl_available :: u64

type_synonym ('v, 't, 'r) rate_sends =
  "(('t, 'v) delivery list, ('r, 'v rate_limiter_outcome) delivery list) delivery_outcomes"

definition rate_limiter_new :: "token_count \<Rightarrow> u64 \<Rightarrow> rate_limiter_config_error + rate_limiter" where
  "rate_limiter_new c initial =
     (if initial > c then Inl (InitialExceedsCapacity c initial)
      else Inr \<lparr>rl_capacity = c, rl_available = initial\<rparr>)"

definition rate_result :: "('t, 'v) delivery list \<Rightarrow> 'r \<Rightarrow> 'v rate_limiter_outcome
    \<Rightarrow> (('v, 't, 'r) rate_sends, never, never) actions" where
  "rate_result ds r out = send_actions \<lparr>deliveries = ds, outcomes = deliver r out\<rparr>"

definition rate_acquire :: "rate_limiter \<Rightarrow> token_count \<Rightarrow> 'v \<Rightarrow> 't \<Rightarrow> 'r
    \<Rightarrow> rate_limiter \<times> (('v, 't, 'r) rate_sends, never, never) actions" where
  "rate_acquire s cost v t r =
     (if cost > rl_capacity s then (s, rate_result [] r (RateRejected cost v ExceedsCapacity))
      else if cost > rl_available s then (s, rate_result [] r (RateRejected cost v InsufficientTokens))
      else let s' = s\<lparr>rl_available := rl_available s - cost\<rparr>
           in (s', rate_result (deliver t v) r (RateAdmitted (rl_available s'))))"

fun rate_limiter_transition :: "rate_limiter \<Rightarrow> ('v, 't, 'r) rate_limiter_message
    \<Rightarrow> rate_limiter \<times> (('v, 't, 'r) rate_sends, never, never) actions" where
  "rate_limiter_transition s (Acquire cost v t r) = rate_acquire s cost v t r"
| "rate_limiter_transition s (Refill tokens) =
     (s\<lparr>rl_available := min (saturating_add (rl_available s) tokens) (rl_capacity s)\<rparr>,
      cont (delivery_outcomes_sends vec_sends vec_sends))"

section \<open>Tokens are never created\<close>

definition rate_ok :: "token_count \<Rightarrow> rate_limiter \<Rightarrow> bool" where
  "rate_ok c s \<longleftrightarrow> rl_capacity s = c \<and> rl_available s \<le> c"

lemma unat_min: "unat (min a b) = min (unat a) (unat b)"
  by (simp add: min_def word_le_nat_alt)

lemma rate_limiter_transition_ok: "rate_ok c s \<Longrightarrow> rate_ok c (fst (rate_limiter_transition s e))"
  by (cases e) (auto simp: rate_ok_def rate_acquire_def Let_def word_le_nat_alt word_less_nat_alt
      unat_sub unat_min)

interpretation rate_limiter: fold_invariant rate_limiter_transition "rate_ok c" for c
  by unfold_locales (rule rate_limiter_transition_ok)

text \<open>An acquisition with the state before it: the tokens it spent, as the outcome reports.\<close>

fun rate_refilled :: "('v, 't, 'r) rate_limiter_message \<Rightarrow> nat" where
  "rate_refilled (Refill tokens) = unat tokens"
| "rate_refilled (Acquire cost v t r) = 0"

text \<open>The fold with the event beside its actions, so that the cost of an admission can be read.\<close>

definition rate_step :: "rate_limiter \<Rightarrow> ('v, 't, 'r) rate_limiter_message
    \<Rightarrow> rate_limiter \<times> ('v, 't, 'r) rate_limiter_message \<times> (('v, 't, 'r) rate_sends, never, never) actions" where
  "rate_step s e = (case rate_limiter_transition s e of (s', a) \<Rightarrow> (s', e, a))"

fun rate_spent :: "('v, 't, 'r) rate_limiter_message \<times> (('v, 't, 'r) rate_sends, never, never) actions \<Rightarrow> nat" where
  "rate_spent (Refill tokens, a) = 0"
| "rate_spent (Acquire cost v t r, a) = (if deliveries (sends a) = [] then 0 else unat cost)"

interpretation rate_budget: accounted_fold rate_step "rate_ok c" "\<lambda>s. unat (rl_available s)"
  rate_refilled rate_spent for c
proof
  fix s and e :: "('v, 't, 'r) rate_limiter_message"
  assume "rate_ok c s"
  then show "rate_ok c (fst (rate_step s e))"
    using rate_limiter_transition_ok [of c s e] by (simp add: rate_step_def split_beta)
  show "unat (rl_available (fst (rate_step s e))) + rate_spent (snd (rate_step s e))
      \<le> unat (rl_available s) + rate_refilled e"
    by (cases e) (auto simp: rate_step_def rate_acquire_def rate_result_def core_defs deliver_def Let_def
        word_less_nat_alt word_le_nat_alt unat_sub unat_min unat_saturating_add)
qed

lemma run_rate_step:
  "run (rate_step :: (_, _, _ \<times> (('v, 't, 'r) rate_sends, never, never) actions) fold_step) s es
     = (let (s', outs) = run rate_limiter_transition s es in (s', zip es outs))"
  by (induction es arbitrary: s) (auto simp: rate_step_def split_beta)

text \<open>
  Over any history of a rate limiter the tokens available never exceed the capacity, and
  the costs of all admitted acquisitions together with what is left are at most the initial
  tokens and the refills: no history admits more than it was given.
\<close>

theorem rate_limiter_never_overspends:
  assumes "rate_limiter_new c initial = Inr s0"
    and "run (rate_limiter_transition ::
        (_, _, (('v, 't, 'r) rate_sends, never, never) actions) fold_step) s0 es = (s, outs)"
  shows "rl_available s \<le> c
    \<and> unat (rl_available s) + (\<Sum>p\<leftarrow>zip es outs. rate_spent p) \<le> unat initial + (\<Sum>e\<leftarrow>es. rate_refilled e)"
proof -
  have s0: "rate_ok c s0" "rl_available s0 = initial"
    using assms(1) by (auto simp: rate_limiter_new_def rate_ok_def split: if_splits)
  let ?f = "rate_limiter_transition :: (_, _, (('v, 't, 'r) rate_sends, never, never) actions) fold_step"
  have "rate_ok c (run_state ?f s0 es)" by (rule rate_limiter.run_inv [OF s0(1)])
  moreover have "run (rate_step :: (_, _, _ \<times> (('v, 't, 'r) rate_sends, never, never) actions) fold_step) s0 es
      = (s, zip es outs)" using assms(2) by (simp add: run_rate_step)
  ultimately show ?thesis
    using rate_budget.run_accounts [OF s0(1), of es]
    by (simp add: s0(2) assms(2) rate_ok_def)
qed

theorem rate_limiter_never_overspends_witness:
  "rate_limiter_new 5 3 = Inr \<lparr>rl_capacity = 5, rl_available = 3\<rparr>
   \<and> (let (s, outs) = run (rate_limiter_transition ::
          (_, _, ((nat, nat, nat) rate_sends, never, never) actions) fold_step)
        \<lparr>rl_capacity = 5, rl_available = 3\<rparr> [Acquire 2 7 0 0, Acquire 2 8 0 0, Refill 9]
      in rl_available s \<le> 5)"
proof -
  have new: "rate_limiter_new 5 3 = Inr \<lparr>rl_capacity = 5, rl_available = 3\<rparr>"
    by (simp add: rate_limiter_new_def)
  show ?thesis
    using new rate_limiter_never_overspends [OF new, of "[Acquire 2 7 0 0, Acquire 2 8 0 0, Refill 9]"]
    by (auto simp: Let_def split: prod.splits)
qed

end
