(* ===== verification/Ordered_Map.thy ===== *)
theory Ordered_Map
  imports Prelude
begin

text \<open>
  \<^verbatim>\<open>std::collections::BTreeMap\<close> as the list of its entries in ascending key order: the lookup,
  the insertion, the removal, the range up to a key, the first entry and the length. The
  interface is the locale \<open>ordered_map\<close>; components use only its laws.
\<close>

section \<open>Operations\<close>

type_synonym ('k, 'v) btree = "('k \<times> 'v) list"

definition om_get :: "('k, 'v) btree \<Rightarrow> 'k \<Rightarrow> 'v option" where
  "om_get m k = map_of m k"

fun om_insert :: "'k::linorder \<Rightarrow> 'v \<Rightarrow> ('k, 'v) btree \<Rightarrow> ('k, 'v) btree" where
  "om_insert k v [] = [(k, v)]"
| "om_insert k v ((j, w) # m) =
     (if k < j then (k, v) # (j, w) # m else if k = j then (k, v) # m else (j, w) # om_insert k v m)"

definition om_remove :: "'k \<Rightarrow> ('k, 'v) btree \<Rightarrow> ('k, 'v) btree" where
  "om_remove k m = filter (\<lambda>(j, w). j \<noteq> k) m"

definition om_upto :: "'k::linorder \<Rightarrow> ('k, 'v) btree \<Rightarrow> ('k, 'v) btree" where
  "om_upto k m = takeWhile (\<lambda>(j, w). j \<le> k) m"

definition om_keys :: "('k, 'v) btree \<Rightarrow> 'k list" where
  "om_keys m = map fst m"

definition om_ok :: "('k::linorder, 'v) btree \<Rightarrow> bool" where
  "om_ok m \<longleftrightarrow> sorted_wrt (<) (map fst m)"

section \<open>The interface\<close>

locale ordered_map =
  fixes get :: "'m \<Rightarrow> 'k::linorder \<Rightarrow> 'v option"
    and put :: "'k \<Rightarrow> 'v \<Rightarrow> 'm \<Rightarrow> 'm"
    and delete :: "'k \<Rightarrow> 'm \<Rightarrow> 'm"
    and keys :: "'m \<Rightarrow> 'k list"
    and valid :: "'m \<Rightarrow> bool"
  assumes get_put: "get (put k v m) j = (if j = k then Some v else get m j)"
    and get_delete: "get (delete k m) j = (if j = k then None else get m j)"
    and keys_sorted: "valid m \<Longrightarrow> sorted_wrt (<) (keys m)"
    and keys_get: "set (keys m) = {k. get m k \<noteq> None}"
    and valid_put: "valid m \<Longrightarrow> valid (put k v m)"
    and valid_delete: "valid m \<Longrightarrow> valid (delete k m)"
begin

lemma distinct_keys: "valid m \<Longrightarrow> distinct (keys m)"
  by (auto dest!: keys_sorted simp: strict_sorted_iff)

lemma keys_put: "set (keys (put k v m)) = insert k (set (keys m))"
  by (auto simp: keys_get get_put)

lemma keys_delete: "set (keys (delete k m)) = set (keys m) - {k}"
  by (auto simp: keys_get get_delete)

text \<open>A removal of a present key makes the map smaller: the measure of the loops that drain one.\<close>

lemma length_delete:
  assumes "valid m" and "get m k \<noteq> None"
  shows "length (keys m) = Suc (length (keys (delete k m)))"
proof -
  have "k \<in> set (keys m)" using assms(2) by (simp add: keys_get)
  moreover have "set (keys (delete k m)) = set (keys m) - {k}" by (rule keys_delete)
  moreover have "distinct (keys m)" "distinct (keys (delete k m))"
    using assms(1) distinct_keys valid_delete by auto
  ultimately show ?thesis
    by (metis card_Suc_Diff1 distinct_card List.finite_set)
qed

end

section \<open>The list implements it\<close>

lemma keys_om_insert: "set (map fst (om_insert k v m)) = insert k (set (map fst m))"
  by (induction k v m rule: om_insert.induct) (simp_all, blast)

lemma map_of_om_insert: "map_of (om_insert k v m) = (map_of m)(k \<mapsto> v)"
  by (induction m) auto

lemma om_ok_insert: "om_ok m \<Longrightarrow> om_ok (om_insert k v m)"
proof (induction m)
  case (Cons p m)
  obtain j w where p: "p = (j, w)" by fastforce
  have "set (map fst (om_insert k v m)) = insert k (set (map fst m))" by (rule keys_om_insert)
  with Cons show ?case by (auto simp: om_ok_def p)
qed (simp add: om_ok_def)

lemma om_ok_filter: "om_ok m \<Longrightarrow> om_ok (filter P m)"
  by (induction m) (auto simp: om_ok_def)

interpretation btree: ordered_map om_get om_insert om_remove om_keys om_ok
proof
  show "om_get (om_remove k m) j = (if j = k then None else om_get m j)"
    for k j :: 'k and m :: "('k, 'v) btree"
    unfolding om_get_def om_remove_def by (induction m) auto
  show "set (om_keys m) = {k. om_get m k \<noteq> None}" for m :: "('k, 'v) btree"
    unfolding om_get_def om_keys_def by (simp add: dom_map_of_conv_image_fst [symmetric] dom_def)
qed (auto simp: om_get_def map_of_om_insert om_ok_insert om_keys_def om_remove_def om_ok_filter
    , simp add: om_ok_def)

lemma om_upto_filter: "om_ok m \<Longrightarrow> om_upto k m = filter (\<lambda>(j, w). j \<le> k) m"
proof (induction m)
  case (Cons p m)
  then have IH: "om_upto k m = filter (\<lambda>(j, w). j \<le> k) m" by (simp add: om_ok_def)
  obtain j w where p: "p = (j, w)" by fastforce
  show ?case
  proof (cases "j \<le> k")
    case False
    with Cons.prems have "\<forall>q \<in> set m. \<not> fst q \<le> k" by (force simp: om_ok_def p)
    with False p show ?thesis by (simp add: om_upto_def filter_False split_beta)
  qed (use IH p in \<open>simp add: om_upto_def\<close>)
qed (simp add: om_upto_def)

lemma om_split: "om_ok m \<Longrightarrow> m = om_upto k m @ filter (\<lambda>(j, w). k < j) m"
proof (induction m)
  case (Cons p m)
  then have IH: "m = om_upto k m @ filter (\<lambda>(j, w). k < j) m" by (simp add: om_ok_def)
  obtain j w where p: "p = (j, w)" by fastforce
  show ?case
  proof (cases "j \<le> k")
    case True
    then have "om_upto k (p # m) = p # om_upto k m" by (simp add: om_upto_def p)
    with True IH p show ?thesis by simp
  next
    case False
    with Cons.prems have "\<forall>q \<in> set m. k < fst q" by (force simp: om_ok_def p)
    then have "filter (\<lambda>(j, w). k < j) m = m" by (auto intro!: filter_True)
    with False p show ?thesis by (simp add: om_upto_def)
  qed
qed (simp add: om_upto_def)

lemma om_mset_split:
  assumes "om_ok m"
  shows "mset m = mset (filter (\<lambda>(j, w). j \<le> k) m) + mset (filter (\<lambda>(j, w). k < j) m)"
proof -
  have "mset m = mset (om_upto k m @ filter (\<lambda>(j, w). k < j) m)"
    using om_split [OF assms] by (rule arg_cong)
  then show ?thesis by (simp only: mset_append om_upto_filter [OF assms])
qed

lemma om_remove_head: "om_ok ((k, v) # m) \<Longrightarrow> om_remove k ((k, v) # m) = m"
  by (force simp: om_ok_def om_remove_def intro: filter_True)

lemma length_om_remove_less: "om_get m k = Some v \<Longrightarrow> length (om_remove k m) < length m"
  unfolding om_get_def om_remove_def by (induction m) (auto simp: less_Suc_eq_le split: if_splits)

lemma mset_om_insert: "om_get m k = None \<Longrightarrow> mset (om_insert k v m) = add_mset (k, v) (mset m)"
  unfolding om_get_def by (induction m) (auto split: if_splits)

lemma om_get_entry: "om_ok m \<Longrightarrow> (k, v) \<in> set m \<longleftrightarrow> om_get m k = Some v"
  unfolding om_get_def
  by (rule map_of_eq_Some_iff [symmetric]) (auto simp: om_ok_def strict_sorted_iff)

end
