(* ===== verification/Order_Gate.thy ===== *)
theory Order_Gate
  imports Behavior_Core Ordered_Map
begin

text \<open>
  \<^verbatim>\<open>routing/order_gate.rs\<close>: values with keys are held until the gate opens through their key;
  an opening releases every held key up to it in ascending order, and later arrivals at or
  below the watermark pass at once.
\<close>

section \<open>State and fold\<close>

datatype ('k, 'v) order_gate_outcome =
    GateHeld 'k usize
  | GateDelivered 'k
  | GateDuplicate 'k 'v
  | GateOpened 'k usize usize
  | StaleOpening 'k 'k

datatype ('k, 'v, 't, 'r) order_gate_message = Hold 'k 'v 't 'r | OpenThrough 'k 'r

record ('v, 't) gate_held =
  gate_value :: 'v
  gate_to :: 't

record ('k, 'v, 't) order_gate =
  og_watermark :: "'k option"
  og_held :: "('k, ('v, 't) gate_held) btree"

type_synonym ('k, 'v, 't, 'r) gate_sends =
  "(('t, 'v) delivery list, ('r, ('k, 'v) order_gate_outcome) delivery list) delivery_outcomes"

definition order_gate_new :: "('k, 'v, 't) order_gate" where
  "order_gate_new = \<lparr>og_watermark = None, og_held = []\<rparr>"

definition gate_send :: "('t, 'v) delivery list \<Rightarrow> 'r \<Rightarrow> ('k, 'v) order_gate_outcome
    \<Rightarrow> (('k, 'v, 't, 'r) gate_sends, never, never) actions" where
  "gate_send ds r out = send_actions \<lparr>deliveries = ds, outcomes = deliver r out\<rparr>"

definition gate_hold :: "('k::linorder, 'v, 't) order_gate \<Rightarrow> 'k \<Rightarrow> 'v \<Rightarrow> 't \<Rightarrow> 'r
    \<Rightarrow> ('k, 'v, 't) order_gate \<times> (('k, 'v, 't, 'r) gate_sends, never, never) actions" where
  "gate_hold g k v t r =
     (if case og_watermark g of Some w \<Rightarrow> k \<le> w | None \<Rightarrow> False
      then (g, gate_send (deliver t v) r (GateDelivered k))
      else if om_get (og_held g) k \<noteq> None then (g, gate_send [] r (GateDuplicate k v))
      else let g' = g\<lparr>og_held := om_insert k \<lparr>gate_value = v, gate_to = t\<rparr> (og_held g)\<rparr>
           in (g', gate_send [] r (GateHeld k (length (og_held g')))))"

text \<open>The loop over the collected keys: each is removed and its value delivered.\<close>

fun gate_release :: "'k list \<Rightarrow> ('k, ('v, 't) gate_held) btree \<Rightarrow> ('t, 'v) delivery list
    \<Rightarrow> ('k, ('v, 't) gate_held) btree \<times> ('t, 'v) delivery list" where
  "gate_release [] held ds = (held, ds)"
| "gate_release (k # ks) held ds =
     (case om_get held k of
        Some h \<Rightarrow> gate_release ks (om_remove k held)
                   (append_sends vec_sends ds (deliver (gate_to h) (gate_value h)))
      | None \<Rightarrow> gate_release ks held ds)"

definition gate_open :: "('k::linorder, 'v, 't) order_gate \<Rightarrow> 'k \<Rightarrow> 'r
    \<Rightarrow> ('k, 'v, 't) order_gate \<times> (('k, 'v, 't, 'r) gate_sends, never, never) actions" where
  "gate_open g through r =
     (case (case og_watermark g of
              Some current \<Rightarrow> if through \<le> current then Some current else None
            | None \<Rightarrow> None) of
        Some current \<Rightarrow> (g, gate_send [] r (StaleOpening through current))
      | None \<Rightarrow>
         (let keys = om_keys (om_upto through (og_held g));
              (held, ds) = gate_release keys (og_held g) []
          in (g\<lparr>og_watermark := Some through, og_held := held\<rparr>,
              gate_send ds r (GateOpened through (length keys) (length held)))))"

fun order_gate_transition :: "('k::linorder, 'v, 't) order_gate \<Rightarrow> ('k, 'v, 't, 'r) order_gate_message
    \<Rightarrow> ('k, 'v, 't) order_gate \<times> (('k, 'v, 't, 'r) gate_sends, never, never) actions" where
  "order_gate_transition g (Hold k v t r) = gate_hold g k v t r"
| "order_gate_transition g (OpenThrough through r) = gate_open g through r"

section \<open>Release in key order\<close>

definition gate_above :: "'k::linorder option \<Rightarrow> 'k \<Rightarrow> bool" where
  "gate_above w k \<longleftrightarrow> (case w of None \<Rightarrow> True | Some w \<Rightarrow> w < k)"

definition gate_ok :: "('k::linorder, 'v, 't) order_gate \<Rightarrow> bool" where
  "gate_ok g \<longleftrightarrow> om_ok (og_held g) \<and> (\<forall>k \<in> set (om_keys (og_held g)). gate_above (og_watermark g) k)"

abbreviation gate_deliveries :: "('k, ('v, 't) gate_held) btree \<Rightarrow> ('t, 'v) delivery list" where
  "gate_deliveries es \<equiv> concat (map (\<lambda>(k, h). deliver (gate_to h) (gate_value h)) es)"

lemma gate_release_prefix:
  "om_ok (xs @ ys) \<Longrightarrow> gate_release (map fst xs) (xs @ ys) ds = (ys, ds @ gate_deliveries xs)"
proof (induction xs arbitrary: ds)
  case (Cons x xs)
  obtain k h where x: "x = (k, h)" by fastforce
  from Cons.prems have "om_remove k ((k, h) # xs @ ys) = xs @ ys" "om_ok (xs @ ys)"
    using om_remove_head [of k h "xs @ ys"] by (auto simp: om_ok_def x)
  with Cons.IH show ?case by (simp add: x om_get_def)
qed simp

lemma gate_open_releases:
  assumes "gate_ok g" and "gate_above (og_watermark g) through"
  shows "gate_open g through r =
    (g\<lparr>og_watermark := Some through, og_held := filter (\<lambda>(k, h). through < k) (og_held g)\<rparr>,
     gate_send (gate_deliveries (filter (\<lambda>(k, h). k \<le> through) (og_held g))) r
       (GateOpened through (length (filter (\<lambda>(k, h). k \<le> through) (og_held g)))
          (length (filter (\<lambda>(k, h). through < k) (og_held g)))))"
proof -
  let ?low = "om_upto through (og_held g)" and ?high = "filter (\<lambda>(k, h). through < k) (og_held g)"
  from assms(1) have ok: "om_ok (og_held g)" by (simp add: gate_ok_def)
  from om_split [OF ok] have split: "og_held g = ?low @ ?high" .
  with ok have "gate_release (map fst ?low) (?low @ ?high) [] = (?high, gate_deliveries ?low)"
    using gate_release_prefix [of ?low ?high "[]"] by simp
  with split have "gate_release (map fst ?low) (og_held g) [] = (?high, gate_deliveries ?low)" by simp
  then show ?thesis
    using assms(2) by (auto simp: gate_open_def om_keys_def om_upto_filter [OF ok] gate_above_def
        split: option.splits)
qed

lemma gate_open_stale:
  "\<not> gate_above (og_watermark g) through \<Longrightarrow>
   \<exists>w. gate_open g through r = (g, gate_send [] r (StaleOpening through w))"
  by (auto simp: gate_open_def gate_above_def split: option.splits)

fun gate_offered :: "('k, 'v, 't, 'r) order_gate_message \<Rightarrow> 'v multiset" where
  "gate_offered (Hold k v t r) = {#v#}"
| "gate_offered (OpenThrough k r) = {#}"

fun gate_returned :: "('k, 'v) order_gate_outcome \<Rightarrow> 'v list" where
  "gate_returned (GateDuplicate k v) = [v]"
| "gate_returned _ = []"

definition gate_handed :: "(('k, 'v, 't, 'r) gate_sends, never, never) actions \<Rightarrow> 'v multiset" where
  "gate_handed a = mset (map delivered (deliveries (sends a))
     @ concat (map (gate_returned \<circ> delivered) (outcomes (sends a))))"

abbreviation gate_values :: "('k, 'v, 't) order_gate \<Rightarrow> 'v multiset" where
  "gate_values g \<equiv> mset (map (gate_value \<circ> snd) (og_held g))"

lemma values_gate_deliveries: "map delivered (gate_deliveries es) = map (gate_value \<circ> snd) es"
  by (induction es) (auto simp: deliver_def)

lemma gate_hold_conserves:
  "gate_values g + {#v#} = gate_values (fst (gate_hold g k v t r)) + gate_handed (snd (gate_hold g k v t r))"
  using mset_om_insert [of "og_held g" k "\<lparr>gate_value = v, gate_to = t\<rparr>"]
  by (auto simp: gate_hold_def gate_send_def gate_handed_def core_defs deliver_def Let_def
      image_mset.comp [symmetric] split: option.splits)

lemma gate_open_conserves:
  assumes "gate_ok g"
  shows "gate_values g = gate_values (fst (gate_open g k r)) + gate_handed (snd (gate_open g k r))"
proof (cases "gate_above (og_watermark g) k")
  case True
  let ?low = "filter (\<lambda>(j, h). j \<le> k) (og_held g)" and ?high = "filter (\<lambda>(j, h). k < j) (og_held g)"
  have "gate_handed (snd (gate_open g k r)) = mset (map (gate_value \<circ> snd) ?low)"
    unfolding gate_open_releases [OF assms True] gate_handed_def
    by (simp add: gate_send_def core_defs values_gate_deliveries deliver_def [of r])
  moreover have "fst (gate_open g k r) = g\<lparr>og_watermark := Some k, og_held := ?high\<rparr>"
    by (simp add: gate_open_releases [OF assms True])
  moreover have "om_ok (og_held g)" using assms by (simp add: gate_ok_def)
  from om_mset_split [OF this, of k] have "image_mset (gate_value \<circ> snd) (mset (og_held g))
      = image_mset (gate_value \<circ> snd) (mset ?low) + image_mset (gate_value \<circ> snd) (mset ?high)"
    by (simp only: image_mset_union [symmetric])
  ultimately show ?thesis by (simp only: mset_map order_gate.simps order_gate.select_convs order_gate.update_convs)
    (simp add: add.commute)
next
  case False
  from gate_open_stale [OF False, of r] show ?thesis
    by (auto simp: gate_handed_def gate_send_def core_defs deliver_def)
qed

lemma gate_hold_ok: "gate_ok g \<Longrightarrow> gate_ok (fst (gate_hold g k v t r))"
  by (auto simp: gate_hold_def gate_ok_def gate_above_def om_ok_insert btree.keys_put Let_def
      split: option.splits)

lemma gate_open_ok:
  assumes "gate_ok g"
  shows "gate_ok (fst (gate_open g k r))"
proof (cases "gate_above (og_watermark g) k")
  case True
  then show ?thesis unfolding gate_open_releases [OF assms True]
    using assms by (auto simp: gate_ok_def om_ok_filter om_keys_def gate_above_def)
next
  case False
  from gate_open_stale [OF False, of r] obtain w
    where "gate_open g k r = (g, gate_send [] r (StaleOpening k w))" by blast
  with assms show ?thesis by simp
qed

interpretation order_gate: conserving_fold order_gate_transition gate_ok gate_values gate_offered gate_handed
proof
  fix g :: "('k::linorder, 'v, 't) order_gate" and e :: "('k, 'v, 't, 'r) order_gate_message"
  assume ok: "gate_ok g"
  show "gate_ok (fst (order_gate_transition g e))"
    by (cases e) (simp_all add: ok gate_hold_ok gate_open_ok)
  show "gate_values g + gate_offered e
      = gate_values (fst (order_gate_transition g e)) + gate_handed (snd (order_gate_transition g e))"
    using gate_hold_conserves gate_open_conserves [OF ok] by (cases e) simp_all
qed

lemma gate_new_ok: "gate_ok order_gate_new"
  by (simp add: gate_ok_def order_gate_new_def om_ok_def om_keys_def)

text \<open>
  In every state the order gate reaches, an opening above the watermark delivers exactly
  the held values whose key is at most the new watermark, in strictly ascending key order,
  keeps the others, and reports both counts. Held keys are always above the watermark, and
  over the whole history every value is held, delivered, or returned as a duplicate.
\<close>

theorem order_gate_releases_in_key_order:
  assumes "run (order_gate_transition ::
        (_, _, (('k::linorder, 'v, 't, 'r) gate_sends, never, never) actions) fold_step) order_gate_new es = (g, outs)"
    and "\<And>w. og_watermark g = Some w \<Longrightarrow> w < through"
  shows "let low = filter (\<lambda>(k, h). k \<le> through) (og_held g);
             high = filter (\<lambda>(k, h). through < k) (og_held g)
    in order_gate_transition g (OpenThrough through r) =
         (g\<lparr>og_watermark := Some through, og_held := high\<rparr>,
          gate_send (gate_deliveries low) r (GateOpened through (length low) (length high)))
       \<and> sorted_wrt (<) (map fst (og_held g))
       \<and> (\<forall>k \<in> fst ` set (og_held g). gate_above (og_watermark g) k)
       \<and> (\<Sum>e\<leftarrow>es. gate_offered e) = gate_values g + (\<Sum>out\<leftarrow>outs. gate_handed out)"
proof -
  let ?f = "order_gate_transition :: (_, _, (('k, 'v, 't, 'r) gate_sends, never, never) actions) fold_step"
  have "gate_ok (run_state ?f order_gate_new es)" by (rule order_gate.run_inv [OF gate_new_ok])
  then have ok: "gate_ok g" by (simp add: assms(1))
  have "(\<Sum>e\<leftarrow>es. gate_offered e) = gate_values (run_state ?f order_gate_new es)
      + (\<Sum>out\<leftarrow>run_outputs ?f order_gate_new es. gate_handed out)"
    using order_gate.run_conserves [OF gate_new_ok, of es]
    by (simp add: order_gate_new_def)
  moreover have "gate_above (og_watermark g) through"
    using assms(2) by (auto simp: gate_above_def split: option.splits)
  ultimately show ?thesis
    using gate_open_releases [OF ok, of through r] ok assms(1)
    by (simp add: gate_ok_def om_ok_def om_keys_def Let_def)
qed

theorem order_gate_releases_in_key_order_witness:
  "\<exists>g outs. run (order_gate_transition ::
        (_, _, ((nat, nat, nat, nat) gate_sends, never, never) actions) fold_step) order_gate_new
        [Hold 5 50 0 1, Hold 2 20 0 1, Hold 9 90 0 1] = (g, outs)
    \<and> deliveries (sends (snd (order_gate_transition g (OpenThrough 6 3)
         :: _ \<times> ((nat, nat, nat, nat) gate_sends, never, never) actions)))
      = deliver 0 20 @ deliver 0 50"
proof -
  let ?es = "[Hold 5 50 0 1, Hold 2 20 0 1, Hold 9 90 0 1] :: (nat, nat, nat, nat) order_gate_message list"
  let ?run = "run (order_gate_transition ::
        (_, _, ((nat, nat, nat, nat) gate_sends, never, never) actions) fold_step) order_gate_new ?es"
  have g: "fst ?run = \<lparr>og_watermark = None, og_held =
      [(2, \<lparr>gate_value = 20, gate_to = 0\<rparr>), (5, \<lparr>gate_value = 50, gate_to = 0\<rparr>), (9, \<lparr>gate_value = 90, gate_to = 0\<rparr>)]\<rparr>"
    by (simp add: gate_hold_def order_gate_new_def om_get_def)
  have "?run = (fst ?run, snd ?run)" by simp
  from order_gate_releases_in_key_order [OF this, of 6 "3 :: nat"]
  have "deliveries (sends (snd (order_gate_transition (fst ?run) (OpenThrough 6 3)
         :: _ \<times> ((nat, nat, nat, nat) gate_sends, never, never) actions))) = deliver 0 20 @ deliver 0 50"
    unfolding g by (simp add: Let_def gate_send_def core_defs)
  then show ?thesis by (metis surjective_pairing)
qed

end
