(* ===== verification/Sequencer.thy ===== *)
theory Sequencer
  imports Behavior_Core Ordered_Map
begin

text \<open>
  \<^verbatim>\<open>routing/sequencer.rs\<close>: restores the order of numbered values. A value is buffered until
  every smaller sequence number from the first on has been delivered. Sequence numbers are
  \<^verbatim>\<open>u64\<close>; after the last one the sequencer is exhausted and does not wrap.
\<close>

section \<open>State and fold\<close>

type_synonym sequence = u64

datatype 'v sequencer_outcome =
    SequenceAccepted usize usize
  | SequenceStale sequence 'v sequence
  | SequenceDuplicate 'v sequence
  | SequenceIsExhausted sequence 'v

datatype ('v, 't, 'r) sequencer_message = SequenceOffer sequence 'v 't 'r

record ('v, 't) pending =
  pending_value :: 'v
  pending_to :: 't

record ('v, 't) sequencer =
  sq_expected :: "sequence option"
  sq_pending :: "(sequence, ('v, 't) pending) btree"

type_synonym ('v, 't, 'r) sequencer_sends =
  "(('t, 'v) delivery list, ('r, 'v sequencer_outcome) delivery list) delivery_outcomes"

definition sequencer_new :: "sequence \<Rightarrow> ('v, 't) sequencer" where
  "sequencer_new first = \<lparr>sq_expected = Some first, sq_pending = []\<rparr>"

datatype sequencer_state = SequencerActive sequence usize | SequencerExhausted

definition sq_state :: "('v, 't) sequencer \<Rightarrow> sequencer_state" where
  "sq_state s = (case sq_expected s of
      Some e \<Rightarrow> SequencerActive e (length (sq_pending s)) | None \<Rightarrow> SequencerExhausted)"

definition sq_actions :: "('t, 'v) delivery list \<Rightarrow> ('r, 'v sequencer_outcome) delivery list
    \<Rightarrow> (('v, 't, 'r) sequencer_sends, never, never) actions" where
  "sq_actions ds os = send_actions \<lparr>deliveries = ds, outcomes = os\<rparr>"

text \<open>
  The release loop from a cursor: the expected number after it, the values still pending and
  the released values. Every round removes an entry, so the loop ends.
\<close>

function sq_release :: "sequence \<Rightarrow> (sequence, ('v, 't) pending) btree
    \<Rightarrow> sequence option \<times> (sequence, ('v, 't) pending) btree \<times> ('v, 't) pending list" where
  "sq_release cursor pending =
     (case om_get pending cursor of
        None \<Rightarrow> (Some cursor, pending, [])
      | Some p \<Rightarrow>
          (if cursor = - 1 then (None, om_remove cursor pending, [p])
           else case sq_release (cursor + 1) (om_remove cursor pending) of
                  (expected, rest, ps) \<Rightarrow> (expected, rest, p # ps)))"
  by pat_completeness auto

termination
  by (relation "measure (\<lambda>(cursor, pending). length pending)") (auto intro: length_om_remove_less)

declare sq_release.simps [simp del]

definition pending_delivery :: "('v, 't) pending \<Rightarrow> ('t, 'v) delivery" where
  "pending_delivery p = \<lparr>deliver_to = pending_to p, delivered = pending_value p\<rparr>"

fun sequencer_transition :: "('v, 't) sequencer \<Rightarrow> ('v, 't, 'r) sequencer_message
    \<Rightarrow> ('v, 't) sequencer \<times> (('v, 't, 'r) sequencer_sends, never, never) actions" where
  "sequencer_transition s (SequenceOffer sequence v t r) =
     (case sq_expected s of
        None \<Rightarrow> (s, sq_actions [] (deliver r (SequenceIsExhausted sequence v)))
      | Some expected \<Rightarrow>
          (if sequence < expected
           then (s, sq_actions [] (deliver r (SequenceStale sequence v expected)))
           else if om_get (sq_pending s) sequence \<noteq> None
           then (s, sq_actions [] (deliver r (SequenceDuplicate v sequence)))
           else case sq_release expected
                  (om_insert sequence \<lparr>pending_value = v, pending_to = t\<rparr> (sq_pending s)) of
                (expected', rest, ps) \<Rightarrow>
                  (\<lparr>sq_expected = expected', sq_pending = rest\<rparr>,
                   sq_actions
                     (foldl (append_sends vec_sends) (empty_sends vec_sends)
                        (map (\<lambda>p. deliver (pending_to p) (pending_value p)) ps))
                     (deliver r (SequenceAccepted (length ps) (length rest))))))"

section \<open>Deliveries are the offered prefix\<close>

text \<open>The specification: for every number from the first on, the delivery its first offer asks for.\<close>

fun offer_entry :: "('v, 't, 'r) sequencer_message \<Rightarrow> sequence \<times> ('t, 'v) delivery" where
  "offer_entry (SequenceOffer sequence v t r) = (sequence, \<lparr>deliver_to = t, delivered = v\<rparr>)"

definition first_offer :: "sequence \<Rightarrow> ('v, 't, 'r) sequencer_message list \<Rightarrow> sequence \<Rightarrow> ('t, 'v) delivery option" where
  "first_offer first es k = (if k < first then None else map_of (map offer_entry es) k)"

lemma first_offer_snoc:
  "first_offer first (es @ [e]) k
     = (case first_offer first es k of
          Some d \<Rightarrow> Some d
        | None \<Rightarrow> if first \<le> k \<and> k = fst (offer_entry e) then Some (snd (offer_entry e)) else None)"
  by (cases "offer_entry e") (auto simp: first_offer_def map_add_def not_less split: option.splits)

lemma first_offer_mono: "first_offer first es k = Some d \<Longrightarrow> first_offer first (es @ [e]) k = Some d"
  by (simp add: first_offer_snoc)

text \<open>The delivered values \<open>ds\<close> and the pending ones are the first offers, split at the expected number.\<close>

definition sequenced :: "sequence \<Rightarrow> (sequence \<Rightarrow> ('t, 'v) delivery option) \<Rightarrow> ('t, 'v) delivery list \<Rightarrow> bool" where
  "sequenced first F ds \<longleftrightarrow> (\<forall>i < length ds. F (first + of_nat i) = Some (ds ! i))"

definition awaiting :: "sequence \<Rightarrow> (sequence \<Rightarrow> ('t, 'v) delivery option) \<Rightarrow> sequence
    \<Rightarrow> (sequence, ('v, 't) pending) btree \<Rightarrow> nat \<Rightarrow> bool" where
  "awaiting first F c pending n \<longleftrightarrow> unat c = unat first + n
     \<and> (\<forall>k. map_option pending_delivery (om_get pending k) = (if k < c then None else F k))"

definition sequencer_inv :: "sequence \<Rightarrow> (sequence \<Rightarrow> ('t, 'v) delivery option)
    \<Rightarrow> ('v, 't) sequencer \<Rightarrow> ('t, 'v) delivery list \<Rightarrow> bool" where
  "sequencer_inv first F s ds \<longleftrightarrow> sequenced first F ds
     \<and> (case sq_expected s of
          Some e \<Rightarrow> awaiting first F e (sq_pending s) (length ds) \<and> F e = None
        | None \<Rightarrow> unat first + length ds = 2 ^ 64)"

lemma awaiting_cursor: "awaiting first F c pending n \<Longrightarrow> first + of_nat n = c"
proof -
  assume "awaiting first F c pending n"
  then have "word_of_nat (unat c) = word_of_nat (unat first) + (word_of_nat n :: sequence)"
    by (simp add: awaiting_def)
  then show ?thesis by simp
qed

lemma sequenced_snoc:
  "sequenced first F ds \<Longrightarrow> F (first + of_nat (length ds)) = Some d \<Longrightarrow> sequenced first F (ds @ [d])"
  by (auto simp: sequenced_def nth_append less_Suc_eq)

lemma awaiting_next:
  assumes "awaiting first F c pending n" and "c \<noteq> - 1"
  shows "awaiting first F (c + 1) (om_remove c pending) (Suc n)"
proof -
  have succ: "unat (c + 1) = Suc (unat c)"
    using assms(2) by (metis checked_succ_None_iff checked_add_Some_iff not_None_eq unat_checked_succ)
  then have "k < c + 1 \<longleftrightarrow> k < c \<or> k = c" for k
    by (auto simp: word_less_nat_alt word_unat_eq_iff)
  moreover have "om_get pending k = None" if "k < c" for k
    using assms(1) that by (metis awaiting_def map_option_is_None)
  ultimately show ?thesis
    using assms(1) succ by (auto simp: awaiting_def btree.get_delete)
qed

lemma sq_release_inv:
  assumes "sequenced first F ds" and "awaiting first F c pending (length ds)"
    and "sq_release c pending = (e, rest, ps)"
  shows "sequencer_inv first F \<lparr>sq_expected = e, sq_pending = rest\<rparr> (ds @ map pending_delivery ps)"
  using assms
proof (induction c pending arbitrary: ds e rest ps rule: sq_release.induct)
  case (1 c pending)
  show ?case
  proof (cases "om_get pending c")
    case None
    with 1(4) have "e = Some c" "rest = pending" "ps = []" by (simp_all add: sq_release.simps)
    moreover have "F c = None" using 1(3) None by (auto simp: awaiting_def dest: spec [of _ c])
    ultimately show ?thesis using 1(2,3) by (simp add: sequencer_inv_def)
  next
    case (Some p)
    have "F c = Some (pending_delivery p)"
      using 1(3) Some by (auto simp: awaiting_def dest: spec [of _ c])
    then have ds: "sequenced first F (ds @ [pending_delivery p])"
      using 1(2) awaiting_cursor [OF 1(3)] by (simp add: sequenced_snoc)
    show ?thesis
    proof (cases "c = - 1")
      case True
      with 1(4) Some have "e = None" "ps = [p]" by (simp_all add: sq_release.simps)
      moreover have "unat first + length ds = 2 ^ 64 - 1"
        using 1(3) True by (simp add: awaiting_def unat_max_word [where 'w = 64, simplified])
      ultimately show ?thesis using ds by (simp add: sequencer_inv_def)
    next
      case False
      obtain e' rest' ps' where rec: "sq_release (c + 1) (om_remove c pending) = (e', rest', ps')"
        by (metis prod_cases3)
      with 1(4) Some False have "e = e'" "rest = rest'" "ps = p # ps'" by (simp_all add: sq_release.simps)
      with 1(1) [OF Some False ds _ rec] awaiting_next [OF 1(3) False] show ?thesis by simp
    qed
  qed
qed

lemma sequencer_inv_mono:
  assumes "sequencer_inv first F s ds" and "\<And>k d. F k = Some d \<Longrightarrow> F' k = Some d"
    and "\<And>e k. sq_expected s = Some e \<Longrightarrow> e \<le> k \<Longrightarrow> F' k = F k"
  shows "sequencer_inv first F' s ds"
proof -
  have "sequenced first F' ds" using assms(1,2) by (auto simp: sequencer_inv_def sequenced_def)
  moreover have "awaiting first F' e (sq_pending s) (length ds) \<and> F' e = None" if "sq_expected s = Some e" for e
    using that assms(1) assms(3) [OF that] by (auto simp: sequencer_inv_def awaiting_def not_less)
  ultimately show ?thesis using assms(1) by (auto simp: sequencer_inv_def split: option.splits)
qed

text \<open>One offer: the specification grows by at most the offered number, and the loop catches up.\<close>

lemma sequencer_step:
  assumes inv: "sequencer_inv first (first_offer first es) s ds"
  shows "sequencer_inv first (first_offer first (es @ [e])) (fst (sequencer_transition s e))
      (ds @ deliveries (sends (snd (sequencer_transition s e))))"
proof -
  let ?F = "first_offer first es" and ?F' = "first_offer first (es @ [e])"
  obtain q v t r where e: "e = SequenceOffer q v t r" by (cases e)
  have mono: "?F' k = Some d" if "?F k = Some d" for k d using that by (rule first_offer_mono)
  have kept: "sequencer_inv first ?F' s ds" if "\<And>x. sq_expected s = Some x \<Longrightarrow> x \<le> q \<Longrightarrow> ?F q \<noteq> None"
    by (rule sequencer_inv_mono [OF inv mono]) (use that in \<open>auto simp: first_offer_snoc e split: option.splits\<close>)
  show ?thesis
  proof (cases "sq_expected s")
    case None
    with kept show ?thesis by (simp add: e sq_actions_def core_defs)
  next
    case (Some x)
    then have seq: "sequenced first ?F ds" and aw: "awaiting first ?F x (sq_pending s) (length ds)"
      using inv by (simp_all add: sequencer_inv_def)
    have pend: "map_option pending_delivery (om_get (sq_pending s) k) = (if k < x then None else ?F k)" for k
      using aw by (simp add: awaiting_def)
    consider "q < x" | "x \<le> q" "om_get (sq_pending s) q \<noteq> None" | (new) "x \<le> q" "om_get (sq_pending s) q = None"
      by fastforce
    then show ?thesis
    proof cases
      case new
      let ?p = "\<lparr>pending_value = v, pending_to = t\<rparr>"
      have first_x: "first \<le> x" using aw by (simp add: awaiting_def word_le_nat_alt)
      have F': "?F' k = (if k = q then Some (pending_delivery ?p) else ?F k)" if "x \<le> k" for k
        using that pend [of q] new first_x
        by (auto simp: first_offer_snoc e pending_delivery_def not_less [symmetric] split: option.splits if_splits)
      have "sequenced first ?F' ds" using seq mono by (auto simp: sequenced_def)
      moreover have low: "om_get (sq_pending s) k = None" if "k < x" for k
        using pend [of k] that by (metis map_option_is_None)
      have "awaiting first ?F' x (om_insert q ?p (sq_pending s)) (length ds)"
        using aw F' pend new low by (auto simp: awaiting_def btree.get_put not_less)
      moreover obtain x' rest ps where rel: "sq_release x (om_insert q ?p (sq_pending s)) = (x', rest, ps)"
        by (metis prod_cases3)
      ultimately have "sequencer_inv first ?F' \<lparr>sq_expected = x', sq_pending = rest\<rparr> (ds @ map pending_delivery ps)"
        by (rule sq_release_inv)
      moreover have "foldl (append_sends vec_sends) [] (map (\<lambda>p. deliver (pending_to p) (pending_value p)) ps)
          = map pending_delivery ps"
        by (simp add: foldl_append_concat deliver_def pending_delivery_def concat_map_singleton)
      ultimately show ?thesis
        using new Some rel by (simp add: e sq_actions_def core_defs not_less [symmetric])
    qed (use kept Some pend [of q, symmetric] in \<open>auto simp: e sq_actions_def core_defs\<close>)
  qed
qed

lemma sequencer_run_inv:
  "sequencer_inv first (first_offer first es) (run_state sequencer_transition (sequencer_new first) es)
     (concat (map (deliveries \<circ> sends) (run_outputs sequencer_transition (sequencer_new first) es)))"
proof (induction es rule: rev_induct)
  case Nil
  show ?case
    by (auto simp: sequencer_inv_def sequenced_def awaiting_def sequencer_new_def first_offer_def om_get_def)
next
  case (snoc e es)
  from sequencer_step [OF snoc.IH, of e] show ?case by (simp add: run_append split_beta)
qed

text \<open>
  C19: Over any history of offers, in any order and with duplicates, the sequencer's deliveries
  are exactly the longest gap-free run of first offers from the first sequence number on, in
  sequence order: the i-th delivery is the first offer of number first + i, and the number
  after the last delivery was not offered, or it is past the largest \<^verbatim>\<open>u64\<close>.
\<close>

theorem sequencer_delivers_offered_prefix:
  "let ds = concat (map (deliveries \<circ> sends) (run_outputs sequencer_transition (sequencer_new first) es)) in
     (\<forall>i. i < length ds \<longrightarrow> first_offer first es (first + of_nat i) = Some (ds ! i))
     \<and> (if unat first + length ds < 2 ^ 64 then first_offer first es (first + of_nat (length ds)) = None
        else unat first + length ds = 2 ^ 64)"
proof -
  let ?s = "run_state sequencer_transition (sequencer_new first) es"
  let ?ds = "concat (map (deliveries \<circ> sends) (run_outputs sequencer_transition (sequencer_new first) es))"
  have inv: "sequencer_inv first (first_offer first es) ?s ?ds" by (rule sequencer_run_inv)
  have "if unat first + length ?ds < 2 ^ 64 then first_offer first es (first + of_nat (length ?ds)) = None
      else unat first + length ?ds = 2 ^ 64"
  proof (cases "sq_expected ?s")
    case (Some x)
    with inv have aw: "awaiting first (first_offer first es) x (sq_pending ?s) (length ?ds)"
      and "first_offer first es x = None" by (auto simp: sequencer_inv_def)
    moreover have "unat x < 2 ^ 64" using unsigned_less [of x] by simp
    ultimately show ?thesis using awaiting_cursor [OF aw] by (auto simp: awaiting_def)
  qed (use inv in \<open>simp add: sequencer_inv_def\<close>)
  with inv show ?thesis by (simp add: sequencer_inv_def sequenced_def Let_def)
qed

theorem sequencer_delivers_offered_prefix_witness:
  "let ds = concat (map (deliveries \<circ> sends) (run_outputs sequencer_transition (sequencer_new 3)
         [SequenceOffer 4 (40 :: nat) (0 :: nat) (9 :: nat), SequenceOffer 3 30 0 9, SequenceOffer 4 41 0 9])) in
     \<forall>i. i < length ds \<longrightarrow>
       first_offer 3 [SequenceOffer 4 (40 :: nat) (0 :: nat) (9 :: nat), SequenceOffer 3 30 0 9, SequenceOffer 4 41 0 9]
         (3 + of_nat i) = Some (ds ! i)"
  using sequencer_delivers_offered_prefix [of 3
    "[SequenceOffer 4 (40 :: nat) (0 :: nat) (9 :: nat), SequenceOffer 3 30 0 9, SequenceOffer 4 41 0 9]"]
  unfolding Let_def by (elim conjunct1)

end
