(* ===== verification/Timers.thy ===== *)
theory Timers
  imports Behavior_Core
begin

text \<open>
  \<^verbatim>\<open>protocol/timer.rs\<close> and \<^verbatim>\<open>time/\<close>: timer requests tagged with generations, the lease that
  issues generations and admits at most one elapse of the live one, and the wrappers built on
  it: a deadline, a one-shot timer, a periodic timer and a receive timeout.

  The locale \<open>leased_timer\<close> states what a wrapper promises about its lease; it is interpreted on
  the three wrappers that hold one, and their common property is proved once.
\<close>

section \<open>Requests, elapses and the lease\<close>

type_synonym timer_id = u64
type_synonym timer_generation = u64

datatype here = Here

record 't schedule_after =
  after_id :: 't
  after_generation :: timer_generation
  after_delay :: duration

record 't schedule_at =
  at_id :: 't
  at_generation :: timer_generation
  at_instant :: instant

record 't timer_elapsed =
  elapsed_id :: 't
  elapsed_generation :: timer_generation

datatype timer_admission = AdmissionAccepted | AdmissionIgnored

datatype timer_lease = NeverIssued | Armed timer_generation | Idle timer_generation | LeaseExhausted

definition lease_next :: "timer_generation \<Rightarrow> timer_lease \<times> timer_generation option" where
  "lease_next previous = (case checked_add previous 1 of
      None \<Rightarrow> (LeaseExhausted, None)
    | Some next \<Rightarrow> (Armed next, Some next))"

fun lease_arm :: "timer_lease \<Rightarrow> timer_lease \<times> timer_generation option" where
  "lease_arm NeverIssued = (Armed 0, Some 0)"
| "lease_arm (Armed previous) = lease_next previous"
| "lease_arm (Idle previous) = lease_next previous"
| "lease_arm LeaseExhausted = (LeaseExhausted, None)"

fun lease_accept :: "timer_lease \<Rightarrow> timer_generation \<Rightarrow> timer_lease \<times> timer_admission" where
  "lease_accept (Armed live) g =
     (if live = g then (Idle live, AdmissionAccepted) else (Armed live, AdmissionIgnored))"
| "lease_accept l g = (l, AdmissionIgnored)"

fun lease_disarm :: "timer_lease \<Rightarrow> timer_lease" where
  "lease_disarm (Armed g) = Idle g"
| "lease_disarm l = l"

fun lease_live :: "timer_lease \<Rightarrow> timer_generation option" where
  "lease_live (Armed g) = Some g"
| "lease_live _ = None"

datatype one_shot_schedule = Unscheduled | Scheduled timer_generation instant

definition schedule_new :: "instant option \<Rightarrow> one_shot_schedule" where
  "schedule_new at = (case at of None \<Rightarrow> Unscheduled | Some at \<Rightarrow> Scheduled 0 at)"

fun schedule_request :: "one_shot_schedule \<Rightarrow> (timer_generation \<times> instant) option" where
  "schedule_request Unscheduled = None"
| "schedule_request (Scheduled g at) = Some (g, at)"

fun schedule_accept :: "one_shot_schedule \<Rightarrow> timer_generation \<Rightarrow> one_shot_schedule \<times> timer_admission" where
  "schedule_accept (Scheduled expected at) g =
     (if expected = g then (Unscheduled, AdmissionAccepted) else (Scheduled expected at, AdmissionIgnored))"
| "schedule_accept Unscheduled g = (Unscheduled, AdmissionIgnored)"

section \<open>The wrappers\<close>

type_synonym ('e) timed_event = "(here timer_elapsed, 'e) event_layer"
type_synonym ('q, 'x) timed_sends = "('q list, 'x) send_layer"
type_synonym ('q, 'x, 'c, 'ph) timed_actions = "(('q, 'x) timed_sends, 'c, 'ph) actions"

text \<open>A reaction folds the wrapped behavior and cannot fail.\<close>

type_synonym ('b, 'x, 'c, 'ph) timed_reaction = "'b \<Rightarrow> 'b \<times> ('x, 'c, 'ph) actions"

definition wrap_timer :: "'q list \<Rightarrow> ('x, 'c, 'ph) actions \<Rightarrow> ('q, 'x, 'c, 'ph) timed_actions" where
  "wrap_timer own a = map_sends (\<lambda>i. \<lparr>owned_sends = own, inner_sends = i\<rparr>) a"

abbreviation timer_sends :: "'x send_effects \<Rightarrow> ('q, 'x) timed_sends send_effects" where
  "timer_sends X \<equiv> layer_sends vec_sends X"

text \<open>Arming the lease and, unless it is exhausted, one request for the new generation.\<close>

definition arm_after :: "duration \<Rightarrow> timer_lease \<Rightarrow> timer_lease \<times> here schedule_after list" where
  "arm_after d l = (case lease_arm l of
      (l', None) \<Rightarrow> (l', [])
    | (l', Some g) \<Rightarrow> (l', [\<lparr>after_id = Here, after_generation = g, after_delay = d\<rparr>]))"

text \<open>Re-arm after a fold that continues, disarm after one that stops.\<close>

definition rearm_after :: "duration \<Rightarrow> ('x, 'c, 'ph) actions \<Rightarrow> timer_lease
    \<Rightarrow> timer_lease \<times> here schedule_after list" where
  "rearm_after d a l = (if stops (become a) then (lease_disarm l, []) else arm_after d l)"

subsection \<open>Deadline\<close>

record ('b) deadline =
  dl_inner :: 'b
  dl_schedule :: one_shot_schedule
  dl_on_reached :: "'b \<Rightarrow> 'b \<times> never become"

definition deadline_new :: "'b \<Rightarrow> instant option \<Rightarrow> ('b \<Rightarrow> 'b \<times> never become) \<Rightarrow> 'b deadline" where
  "deadline_new b at f = \<lparr>dl_inner = b, dl_schedule = schedule_new at, dl_on_reached = f\<rparr>"

definition deadline_init :: "('b, 'e, 'a, 'm, 'x, 'c, 'ph, 'err) behavior \<Rightarrow> 'b deadline
    \<Rightarrow> 'b deadline \<times> ('err + (here schedule_at, 'x, 'c, 'ph) timed_actions)" where
  "deadline_init B s =
     (case initialize B (dl_inner s) of
        (b', Inl err) \<Rightarrow> (s\<lparr>dl_inner := b'\<rparr>, Inl err)
      | (b', Inr act) \<Rightarrow>
          (if stops (become act)
           then (s\<lparr>dl_inner := b', dl_schedule := Unscheduled\<rparr>, Inr (wrap_timer [] act))
           else (s\<lparr>dl_inner := b'\<rparr>,
                 Inr (wrap_timer
                   (case schedule_request (dl_schedule s) of
                      None \<Rightarrow> []
                    | Some (g, at) \<Rightarrow> [\<lparr>at_id = Here, at_generation = g, at_instant = at\<rparr>]) act))))"

text \<open>\<^verbatim>\<open>Step::Goto(never)\<close> is an empty match: the model keeps the verdict's other two values.\<close>

fun reached_become :: "never become \<Rightarrow> 'ph become" where
  "reached_become Continue = Continue"
| "reached_become (Goto n) = Continue"
| "reached_become (Stop r) = Stop r"

definition deadline_transition :: "('b, 'e, 'a, 'm, 'x, 'c, 'ph, 'err) behavior \<Rightarrow> 'b deadline
    \<Rightarrow> 'e timed_event \<Rightarrow> 'b deadline \<times> ('err + (here schedule_at, 'x, 'c, 'ph) timed_actions)" where
  "deadline_transition B s ev =
     (case ev of
        Owned e \<Rightarrow>
          (case schedule_accept (dl_schedule s) (elapsed_generation e) of
             (sch, AdmissionAccepted) \<Rightarrow>
               (case dl_on_reached s (dl_inner s) of
                  (b', v) \<Rightarrow> (s\<lparr>dl_inner := b', dl_schedule := sch\<rparr>,
                             Inr (just (timer_sends (b_sends B)) (reached_become v))))
           | (sch, AdmissionIgnored) \<Rightarrow> (s, Inr (cont (timer_sends (b_sends B)))))
      | Inner e \<Rightarrow>
          (case delegate_transition B (dl_inner s) e of
             (b', Inl err) \<Rightarrow> (s\<lparr>dl_inner := b'\<rparr>, Inl err)
           | (b', Inr act) \<Rightarrow>
               (s\<lparr>dl_inner := b',
                  dl_schedule := if stops (become act) then Unscheduled else dl_schedule s\<rparr>,
                Inr (wrap_timer [] act))))"

subsection \<open>One-shot timer\<close>

record ('b, 'x, 'c, 'ph) one_shot =
  os_inner :: 'b
  os_after :: duration
  os_lease :: timer_lease
  os_on_elapsed :: "('b, 'x, 'c, 'ph) timed_reaction"

definition one_shot_new :: "'b \<Rightarrow> duration \<Rightarrow> ('b, 'x, 'c, 'ph) timed_reaction \<Rightarrow> ('b, 'x, 'c, 'ph) one_shot" where
  "one_shot_new b d f = \<lparr>os_inner = b, os_after = d, os_lease = NeverIssued, os_on_elapsed = f\<rparr>"

definition one_shot_init :: "('b, 'e, 'a, 'm, 'x, 'c, 'ph, 'err) behavior \<Rightarrow> ('b, 'x, 'c, 'ph) one_shot
    \<Rightarrow> ('b, 'x, 'c, 'ph) one_shot \<times> ('err + (here schedule_after, 'x, 'c, 'ph) timed_actions)" where
  "one_shot_init B s =
     (case initialize B (os_inner s) of
        (b', Inl err) \<Rightarrow> (s\<lparr>os_inner := b'\<rparr>, Inl err)
      | (b', Inr act) \<Rightarrow>
          (case rearm_after (os_after s) act (os_lease s) of
             (l, own) \<Rightarrow> (s\<lparr>os_inner := b', os_lease := l\<rparr>, Inr (wrap_timer own act))))"

definition one_shot_transition :: "('b, 'e, 'a, 'm, 'x, 'c, 'ph, 'err) behavior \<Rightarrow> ('b, 'x, 'c, 'ph) one_shot
    \<Rightarrow> 'e timed_event
    \<Rightarrow> ('b, 'x, 'c, 'ph) one_shot \<times> ('err + (here schedule_after, 'x, 'c, 'ph) timed_actions)" where
  "one_shot_transition B s ev =
     (case ev of
        Owned e \<Rightarrow>
          (case lease_accept (os_lease s) (elapsed_generation e) of
             (l, AdmissionAccepted) \<Rightarrow>
               (case os_on_elapsed s (os_inner s) of
                  (b', act) \<Rightarrow> (s\<lparr>os_inner := b', os_lease := l\<rparr>, Inr (wrap_timer [] act)))
           | (l, AdmissionIgnored) \<Rightarrow> (s, Inr (cont (timer_sends (b_sends B)))))
      | Inner e \<Rightarrow>
          (case delegate_transition B (os_inner s) e of
             (b', Inl err) \<Rightarrow> (s\<lparr>os_inner := b'\<rparr>, Inl err)
           | (b', Inr act) \<Rightarrow> (s\<lparr>os_inner := b'\<rparr>, Inr (wrap_timer [] act))))"

subsection \<open>Periodic timer\<close>

record ('b, 'x, 'c, 'ph) periodic =
  pe_inner :: 'b
  pe_every :: duration
  pe_lease :: timer_lease
  pe_on_elapsed :: "('b, 'x, 'c, 'ph) timed_reaction"


definition wrap_and_rearm :: "('b, 'x, 'c, 'ph) periodic \<Rightarrow> ('x, 'c, 'ph) actions
    \<Rightarrow> ('b, 'x, 'c, 'ph) periodic \<times> (here schedule_after, 'x, 'c, 'ph) timed_actions" where
  "wrap_and_rearm s act =
     (case rearm_after (pe_every s) act (pe_lease s) of (l, own) \<Rightarrow> (s\<lparr>pe_lease := l\<rparr>, wrap_timer own act))"


definition periodic_transition :: "('b, 'e, 'a, 'm, 'x, 'c, 'ph, 'err) behavior \<Rightarrow> ('b, 'x, 'c, 'ph) periodic
    \<Rightarrow> 'e timed_event
    \<Rightarrow> ('b, 'x, 'c, 'ph) periodic \<times> ('err + (here schedule_after, 'x, 'c, 'ph) timed_actions)" where
  "periodic_transition B s ev =
     (case ev of
        Owned e \<Rightarrow>
          (case lease_accept (pe_lease s) (elapsed_generation e) of
             (l, AdmissionAccepted) \<Rightarrow>
               (case pe_on_elapsed s (pe_inner s) of
                  (b', act) \<Rightarrow> apsnd Inr (wrap_and_rearm (s\<lparr>pe_inner := b', pe_lease := l\<rparr>) act))
           | (l, AdmissionIgnored) \<Rightarrow> (s, Inr (cont (timer_sends (b_sends B)))))
      | Inner e \<Rightarrow>
          (case delegate_transition B (pe_inner s) e of
             (b', Inl err) \<Rightarrow> (s\<lparr>pe_inner := b'\<rparr>, Inl err)
           | (b', Inr act) \<Rightarrow>
               (s\<lparr>pe_inner := b',
                  pe_lease := if stops (become act) then lease_disarm (pe_lease s) else pe_lease s\<rparr>,
                Inr (wrap_timer [] act))))"

subsection \<open>Receive timeout\<close>

record ('b, 'x, 'c, 'ph) receive_timeout =
  rt_inner :: 'b
  rt_after :: duration
  rt_timer :: timer_lease
  rt_on_elapsed :: "('b, 'x, 'c, 'ph) timed_reaction"

definition receive_timeout_new :: "'b \<Rightarrow> duration \<Rightarrow> ('b, 'x, 'c, 'ph) timed_reaction
    \<Rightarrow> ('b, 'x, 'c, 'ph) receive_timeout" where
  "receive_timeout_new b d f = \<lparr>rt_inner = b, rt_after = d, rt_timer = NeverIssued, rt_on_elapsed = f\<rparr>"

definition receive_timeout_init :: "('b, 'e, 'a, 'm, 'x, 'c, 'ph, 'err) behavior
    \<Rightarrow> ('b, 'x, 'c, 'ph) receive_timeout
    \<Rightarrow> ('b, 'x, 'c, 'ph) receive_timeout \<times> ('err + (here schedule_after, 'x, 'c, 'ph) timed_actions)" where
  "receive_timeout_init B s =
     (case initialize B (rt_inner s) of
        (b', Inl err) \<Rightarrow> (s\<lparr>rt_inner := b'\<rparr>, Inl err)
      | (b', Inr act) \<Rightarrow>
          (case rearm_after (rt_after s) act (rt_timer s) of
             (l, own) \<Rightarrow> (s\<lparr>rt_inner := b', rt_timer := l\<rparr>, Inr (wrap_timer own act))))"

definition receive_timeout_transition :: "('b, 'e, 'a, 'm, 'x, 'c, 'ph, 'err) behavior
    \<Rightarrow> ('b, 'x, 'c, 'ph) receive_timeout \<Rightarrow> 'e timed_event
    \<Rightarrow> ('b, 'x, 'c, 'ph) receive_timeout \<times> ('err + (here schedule_after, 'x, 'c, 'ph) timed_actions)" where
  "receive_timeout_transition B s ev =
     (case ev of
        Owned e \<Rightarrow>
          (case lease_accept (rt_timer s) (elapsed_generation e) of
             (l, AdmissionAccepted) \<Rightarrow>
               (case rt_on_elapsed s (rt_inner s) of
                  (b', act) \<Rightarrow> (s\<lparr>rt_inner := b', rt_timer := l\<rparr>, Inr (wrap_timer [] act)))
           | (l, AdmissionIgnored) \<Rightarrow> (s, Inr (cont (timer_sends (b_sends B)))))
      | Inner e \<Rightarrow>
          (case into_user (b_user B) e of
             Inr u \<Rightarrow>
               (case delegate_transition B (rt_inner s) (mk_user (b_user B) (user_from u) (user_message u)) of
                  (b', Inl err) \<Rightarrow> (s\<lparr>rt_inner := b'\<rparr>, Inl err)
                | (b', Inr act) \<Rightarrow>
                    (case rearm_after (rt_after s) act (rt_timer s) of
                       (l, own) \<Rightarrow> (s\<lparr>rt_inner := b', rt_timer := l\<rparr>, Inr (wrap_timer own act))))
           | Inl service \<Rightarrow>
               (case delegate_transition B (rt_inner s) service of
                  (b', Inl err) \<Rightarrow> (s\<lparr>rt_inner := b'\<rparr>, Inl err)
                | (b', Inr act) \<Rightarrow>
                    (s\<lparr>rt_inner := b',
                       rt_timer := if stops (become act) then lease_disarm (rt_timer s) else rt_timer s\<rparr>,
                     Inr (wrap_timer [] act)))))"

section \<open>What a leased timer promises\<close>

text \<open>The number of generations a lease has issued.\<close>

fun issued :: "timer_lease \<Rightarrow> nat" where
  "issued NeverIssued = 0"
| "issued (Armed g) = Suc (unat g)"
| "issued (Idle g) = Suc (unat g)"
| "issued LeaseExhausted = 2 ^ 64"

text \<open>The generations an output requests, and the one an event makes the lease accept.\<close>

definition requested :: "'err + (here schedule_after, 'x, 'c, 'ph) timed_actions \<Rightarrow> nat list" where
  "requested out = (case out of Inl err \<Rightarrow> []
     | Inr a \<Rightarrow> map (unat \<circ> after_generation) (owned_sends (sends a)))"

definition fires :: "timer_lease \<Rightarrow> 'e timed_event \<Rightarrow> nat list" where
  "fires l ev = (case ev of
      Owned e \<Rightarrow> if lease_live l = Some (elapsed_generation e) then [unat (elapsed_generation e)] else []
    | Inner e \<Rightarrow> [])"

definition live_number :: "timer_lease \<Rightarrow> nat option" where
  "live_number l = map_option unat (lease_live l)"

text \<open>
  One step of a lease: it keeps or drops its live generation, or it is exhausted, or it issues
  the next generation, which is then the live one; an accepted generation is not live after.
\<close>

definition lease_step :: "timer_lease \<Rightarrow> timer_lease \<Rightarrow> nat list \<Rightarrow> nat list \<Rightarrow> bool" where
  "lease_step l l' req fired \<longleftrightarrow>
     (req = [] \<and> issued l' = issued l
        \<and> (live_number l' = None \<or> live_number l' = live_number l \<and> fired = []))
     \<or> (req = [issued l] \<and> issued l' = Suc (issued l) \<and> live_number l' = Some (issued l))"

lemma live_below_issued: "live_number l = Some n \<Longrightarrow> n < issued l"
  by (cases l) (auto simp: live_number_def)

lemma arm_after_step:
  assumes "arm_after d l = (l', own)"
  shows "lease_step l l' (map (unat \<circ> after_generation) own) fired"
proof -
  have next_case: "lease_step l l' (map (unat \<circ> after_generation) own) fired"
    if "lease_arm l = lease_next g" "issued l = Suc (unat g)" for g
  proof (cases "checked_add g 1")
    case None
    then have "g = - 1" by (simp add: checked_succ_None_iff)
    with that assms None show ?thesis
      by (auto simp: arm_after_def lease_next_def lease_step_def live_number_def
          unat_max_word [where 'w = 64, simplified])
  next
    case (Some g')
    with that assms show ?thesis
      by (auto simp: arm_after_def lease_next_def lease_step_def live_number_def unat_checked_succ)
  qed
  then show ?thesis
  proof (cases l)
    case NeverIssued
    then show ?thesis using assms by (auto simp: arm_after_def lease_step_def live_number_def)
  next
    case LeaseExhausted
    then show ?thesis using assms by (auto simp: arm_after_def lease_step_def live_number_def)
  qed simp_all
qed

lemma disarm_step: "lease_step l (lease_disarm l) [] fired"
  by (cases l) (auto simp: lease_step_def live_number_def)

lemma keep_step: "lease_step l l [] []"
  by (simp add: lease_step_def)

lemma rearm_after_step:
  "rearm_after d a l = (l', own) \<Longrightarrow> lease_step l l' (map (unat \<circ> after_generation) own) fired"
  using arm_after_step disarm_step by (auto simp: rearm_after_def split: if_splits)

lemma accept_step:
  "lease_accept l g = (l', AdmissionAccepted) \<Longrightarrow>
     lease_live l = Some g \<and> l' = Idle g \<and> issued l' = issued l"
  by (cases l) (auto split: if_splits)

lemma accept_ignored_iff: "snd (lease_accept l g) = AdmissionIgnored \<longleftrightarrow> lease_live l \<noteq> Some g"
  by (cases l) auto

lemma accepted_then:
  "lease_accept l g = (l1, AdmissionAccepted) \<Longrightarrow> lease_step l1 l' req [] \<Longrightarrow> lease_step l l' req fired"
  using accept_step [of l g l1] by (auto simp: lease_step_def live_number_def)

text \<open>The same along a run of a fold that holds a lease.\<close>

fun fired_run :: "('s, 'e timed_event, 'o) fold_step \<Rightarrow> ('s \<Rightarrow> timer_lease) \<Rightarrow> 's
    \<Rightarrow> 'e timed_event list \<Rightarrow> nat list" where
  "fired_run f lease s [] = []"
| "fired_run f lease s (ev # evs) = fires (lease s) ev @ fired_run f lease (fst (f s ev)) evs"

definition requested_run :: "('s, 'e timed_event, 'err + (here schedule_after, 'x, 'c, 'ph) timed_actions) fold_step
    \<Rightarrow> 's \<Rightarrow> 'e timed_event list \<Rightarrow> nat list" where
  "requested_run f s evs = concat (map requested (run_outputs f s evs))"

lemma requested_run_simps [simp]:
  "requested_run f s [] = []"
  "requested_run f s (ev # evs) = requested (snd (f s ev)) @ requested_run f (fst (f s ev)) evs"
  by (simp_all add: requested_run_def)

locale leased_timer =
  fixes tstep :: "('s, 'e timed_event, 'err + (here schedule_after, 'x, 'c, 'ph) timed_actions) fold_step"
    and lease :: "'s \<Rightarrow> timer_lease"
  assumes tstep_lease: "lease_step (lease s) (lease (fst (tstep s ev)))
      (requested (snd (tstep s ev))) (fires (lease s) ev)"
begin

lemma requested_consecutive:
  "requested_run tstep s evs = [issued (lease s) ..< issued (lease (run_state tstep s evs))]
   \<and> issued (lease s) \<le> issued (lease (run_state tstep s evs))"
proof (induction evs arbitrary: s)
  case (Cons ev evs)
  let ?s = "fst (tstep s ev)"
  from tstep_lease [of s ev] have "requested (snd (tstep s ev)) = [issued (lease s) ..< issued (lease ?s)]
      \<and> issued (lease s) \<le> issued (lease ?s)"
    by (auto simp: lease_step_def)
  with Cons.IH [of ?s] show ?case by (simp add: upt_join)
qed simp

text \<open>Everything that fires later is live now or is issued later, and what fires is not live again.\<close>

lemma fired_bounds:
  "n \<in> set (fired_run tstep lease s evs) \<Longrightarrow> live_number (lease s) = Some n \<or> issued (lease s) \<le> n"
proof (induction evs arbitrary: s)
  case (Cons ev evs)
  consider "n \<in> set (fires (lease s) ev)" | "n \<in> set (fired_run tstep lease (fst (tstep s ev)) evs)"
    using Cons.prems by auto
  then show ?case
  proof cases
    case 1
    then show ?thesis
      by (auto simp: fires_def live_number_def split: event_layer.splits if_splits)
  next
    case 2
    with Cons.IH tstep_lease [of s ev] show ?thesis by (fastforce simp: lease_step_def)
  qed
qed simp

lemma fired_increasing: "sorted_wrt (<) (fired_run tstep lease s evs)"
proof (induction evs arbitrary: s)
  case (Cons ev evs)
  have "m < n" if "m \<in> set (fires (lease s) ev)" "n \<in> set (fired_run tstep lease (fst (tstep s ev)) evs)" for m n
  proof -
    from that(1) have m: "live_number (lease s) = Some m" "fires (lease s) ev \<noteq> []"
      by (auto simp: fires_def live_number_def split: event_layer.splits if_splits)
    from fired_bounds [OF that(2)] tstep_lease [of s ev] m(2)
    have "issued (lease s) \<le> n" by (auto simp: lease_step_def)
    with live_below_issued [OF m(1)] show ?thesis by simp
  qed
  moreover have "sorted_wrt (<) (fires (lease s) ev)"
    by (auto simp: fires_def split: event_layer.splits)
  ultimately show ?case using Cons.IH by (simp add: sorted_wrt_append)
qed simp

lemma fired_requested:
  "n \<in> set (fired_run tstep lease s evs) \<Longrightarrow> live_number (lease s) = Some n \<or> n \<in> set (requested_run tstep s evs)"
proof (induction evs arbitrary: s)
  case (Cons ev evs)
  consider "n \<in> set (fires (lease s) ev)" | "n \<in> set (fired_run tstep lease (fst (tstep s ev)) evs)"
    using Cons.prems by auto
  then show ?case
  proof cases
    case 1
    then show ?thesis
      by (auto simp: fires_def live_number_def split: event_layer.splits if_splits)
  next
    case 2
    with Cons.IH tstep_lease [of s ev] show ?thesis by (fastforce simp: lease_step_def)
  qed
qed simp

text \<open>A wrapper that starts with a fresh lease and a step that initializes it.\<close>

lemma fresh_generations:
  assumes "lease_step NeverIssued (lease s) req []" and "live_number (lease s) = None \<or> req \<noteq> []"
  shows "req @ requested_run tstep s evs = [0 ..< length (req @ requested_run tstep s evs)]
    \<and> sorted_wrt (<) (fired_run tstep lease s evs)
    \<and> set (fired_run tstep lease s evs) \<subseteq> set (req @ requested_run tstep s evs)"
proof -
  have start: "req = [0 ..< issued (lease s)]" using assms(1) by (auto simp: lease_step_def)
  with requested_consecutive [of s evs] have "req @ requested_run tstep s evs
      = [0 ..< issued (lease (run_state tstep s evs))]"
    by (simp add: upt_join)
  moreover have "live_number (lease s) = Some n \<Longrightarrow> n \<in> set req" for n
    using assms by (auto simp: lease_step_def)
  with fired_requested [of _ s evs]
  have "set (fired_run tstep lease s evs) \<subseteq> set (req @ requested_run tstep s evs)" by fastforce
  ultimately show ?thesis using fired_increasing by (metis length_upt minus_nat.diff_0)
qed

end

section \<open>The wrappers keep the promise\<close>

lemma requested_wrap [simp]: "requested (Inr (wrap_timer own a)) = map (unat \<circ> after_generation) own"
  by (simp add: requested_def wrap_timer_def)

lemma requested_none [simp]:
  "requested (Inl err) = []" "requested (Inr (cont (timer_sends X))) = []"
  by (simp_all add: requested_def core_defs layer_sends_def)

lemma fires_inner [simp]: "fires l (Inner e) = []"
  by (simp add: fires_def)

lemma fires_ignored:
  "lease_accept l (elapsed_generation e) = (l', AdmissionIgnored) \<Longrightarrow> fires l (Owned e) = []"
  using accept_ignored_iff [of l "elapsed_generation e"] by (auto simp: fires_def)

lemma accept_cases:
  obtains (accepted) l' where "lease_accept l g = (l', AdmissionAccepted)"
    | (ignored) l' where "lease_accept l g = (l', AdmissionIgnored)"
proof (cases "lease_accept l g")
  case (Pair l' a)
  with that show thesis by (cases a) auto
qed

lemma periodic_lease_step:
  "lease_step (pe_lease s) (pe_lease (fst (periodic_transition B s ev)))
     (requested (snd (periodic_transition B s ev))) (fires (pe_lease s) ev)"
proof (cases ev)
  case (Owned e)
  show ?thesis
  proof (cases rule: accept_cases [of "pe_lease s" "elapsed_generation e"])
    case (accepted l)
    then show ?thesis
      by (auto simp: Owned periodic_transition_def wrap_and_rearm_def split: prod.splits
          intro: accepted_then rearm_after_step)
  next
    case (ignored l)
    then show ?thesis by (simp add: Owned periodic_transition_def fires_ignored keep_step)
  qed
qed (auto simp: periodic_transition_def keep_step disarm_step split: prod.splits sum.splits)

lemma receive_timeout_lease_step:
  "lease_step (rt_timer s) (rt_timer (fst (receive_timeout_transition B s ev)))
     (requested (snd (receive_timeout_transition B s ev))) (fires (rt_timer s) ev)"
proof (cases ev)
  case (Owned e)
  show ?thesis
  proof (cases rule: accept_cases [of "rt_timer s" "elapsed_generation e"])
    case (accepted l)
    then show ?thesis
      using accepted_then [OF accepted keep_step]
      by (auto simp: Owned receive_timeout_transition_def split: prod.splits)
  next
    case (ignored l)
    then show ?thesis by (simp add: Owned receive_timeout_transition_def fires_ignored keep_step)
  qed
qed (auto simp: receive_timeout_transition_def keep_step disarm_step
    split: prod.splits sum.splits intro: rearm_after_step)

lemma one_shot_lease_step:
  "lease_step (os_lease s) (os_lease (fst (one_shot_transition B s ev)))
     (requested (snd (one_shot_transition B s ev))) (fires (os_lease s) ev)"
proof (cases ev)
  case (Owned e)
  show ?thesis
  proof (cases rule: accept_cases [of "os_lease s" "elapsed_generation e"])
    case (accepted l)
    then show ?thesis
      using accepted_then [OF accepted keep_step]
      by (auto simp: Owned one_shot_transition_def split: prod.splits)
  next
    case (ignored l)
    then show ?thesis by (simp add: Owned one_shot_transition_def fires_ignored keep_step)
  qed
qed (auto simp: one_shot_transition_def keep_step split: prod.splits sum.splits)

interpretation periodic: leased_timer "periodic_transition B" pe_lease for B
  by unfold_locales (rule periodic_lease_step)

interpretation receive_timeout: leased_timer "receive_timeout_transition B" rt_timer for B
  by unfold_locales (rule receive_timeout_lease_step)

interpretation one_shot: leased_timer "one_shot_transition B" os_lease for B
  by unfold_locales (rule one_shot_lease_step)

text \<open>The initialization of a fresh wrapper is a step of its fresh lease.\<close>

definition fresh_lease :: "timer_lease \<Rightarrow> nat list \<Rightarrow> bool" where
  "fresh_lease l req \<longleftrightarrow> lease_step NeverIssued l req [] \<and> (live_number l = None \<or> req \<noteq> [])"

lemma fresh_unarmed: "fresh_lease NeverIssued []"
  by (simp add: fresh_lease_def keep_step live_number_def)

lemma rearm_fresh:
  "rearm_after d a NeverIssued = (l, own) \<Longrightarrow> fresh_lease l (map (unat \<circ> after_generation) own)"
  using rearm_after_step [of d a NeverIssued l own "[]"]
  by (auto simp: fresh_lease_def rearm_after_def arm_after_def live_number_def split: if_splits)


lemma receive_timeout_fresh:
  "receive_timeout_init B (receive_timeout_new b d f) = (s, r) \<Longrightarrow> fresh_lease (rt_timer s) (requested r)"
  by (auto simp: receive_timeout_init_def receive_timeout_new_def fresh_unarmed rearm_fresh
      split: prod.splits sum.splits)


text \<open>
  The same for a receive timeout, which requests a new generation for every user message
  that is handled without an error or a stop, so that the timer of an earlier message is stale.
\<close>

theorem receive_timeout_reacts_once_per_request:
  "let (s, r) = receive_timeout_init B (receive_timeout_new b d f);
       reqs = requested r @ requested_run (receive_timeout_transition B) s evs;
       fired = fired_run (receive_timeout_transition B) rt_timer s evs
   in reqs = [0 ..< length reqs] \<and> sorted_wrt (<) fired \<and> set fired \<subseteq> set reqs"
proof -
  obtain s r where init: "receive_timeout_init B (receive_timeout_new b d f) = (s, r)" by fastforce
  from receive_timeout_fresh [OF this] show ?thesis
    using receive_timeout.fresh_generations [of s "requested r" B evs]
    by (simp add: init Let_def fresh_lease_def)
qed

lemma one_shot_requests_nothing: "requested (snd (one_shot_transition B s ev)) = []"
  by (auto simp: one_shot_transition_def split: event_layer.splits prod.splits sum.splits timer_admission.splits)

lemma one_shot_run_requests_nothing: "requested_run (one_shot_transition B) s evs = []"
  by (induction evs arbitrary: s) (simp_all add: one_shot_requests_nothing)

lemma one_shot_fresh:
  "one_shot_init B (one_shot_new b d f) = (s, r) \<Longrightarrow> fresh_lease (os_lease s) (requested r)"
  by (auto simp: one_shot_init_def one_shot_new_def fresh_unarmed rearm_fresh
      split: prod.splits sum.splits)

text \<open>
  A one-shot timer requests one generation at most, at its initialization, and its
  reaction runs at most once, whatever elapses are delivered afterwards.
\<close>

theorem one_shot_reacts_at_most_once:
  "let (s, r) = one_shot_init B (one_shot_new b d f);
       fired = fired_run (one_shot_transition B) os_lease s evs
   in length fired \<le> length (requested r) \<and> length (requested r) \<le> 1
      \<and> requested_run (one_shot_transition B) s evs = []"
proof -
  obtain s r where init: "one_shot_init B (one_shot_new b d f) = (s, r)" by fastforce
  let ?fired = "fired_run (one_shot_transition B) os_lease s evs"
  have fresh: "fresh_lease (os_lease s) (requested r)" using init by (rule one_shot_fresh)
  then have fired: "sorted_wrt (<) ?fired" "set ?fired \<subseteq> set (requested r)"
    using one_shot.fresh_generations [of s "requested r" B evs]
    by (auto simp: fresh_lease_def one_shot_run_requests_nothing)
  have "card (set ?fired) \<le> card (set (requested r))" using fired(2) by (rule card_mono [rotated]) simp
  moreover have "distinct ?fired" using fired(1) by (simp add: strict_sorted_iff)
  moreover have "length (requested r) \<le> 1" using fresh by (auto simp: fresh_lease_def lease_step_def)
  ultimately show ?thesis
    by (simp add: init one_shot_run_requests_nothing distinct_card)
      (metis card_length le_trans)
qed

section \<open>The deadline\<close>

definition reaches :: "'b deadline \<Rightarrow> 'e timed_event \<Rightarrow> bool" where
  "reaches s ev = (case ev of
      Owned e \<Rightarrow> snd (schedule_accept (dl_schedule s) (elapsed_generation e)) = AdmissionAccepted
    | Inner e \<Rightarrow> False)"

fun reached_run :: "('b, 'e, 'a, 'm, 'x, 'c, 'ph, 'err) behavior \<Rightarrow> 'b deadline \<Rightarrow> 'e timed_event list \<Rightarrow> nat" where
  "reached_run B s [] = 0"
| "reached_run B s (ev # evs) =
     (if reaches s ev then 1 else 0) + reached_run B (fst (deadline_transition B s ev)) evs"

lemma deadline_unscheduled:
  "dl_schedule s = Unscheduled \<Longrightarrow>
     \<not> reaches s ev \<and> dl_schedule (fst (deadline_transition B s ev)) = Unscheduled"
  by (auto simp: reaches_def deadline_transition_def split: event_layer.splits prod.splits sum.splits)

lemma reached_unscheduled: "dl_schedule s = Unscheduled \<Longrightarrow> reached_run B s evs = 0"
  by (induction evs arbitrary: s) (simp_all add: deadline_unscheduled)

lemma reaches_unschedules:
  "reaches s ev \<Longrightarrow> dl_schedule (fst (deadline_transition B s ev)) = Unscheduled"
  by (cases "dl_schedule s")
    (auto simp: reaches_def deadline_transition_def split: event_layer.splits prod.splits if_splits)

lemma reached_at_most_once: "reached_run B s evs \<le> 1"
proof (induction evs arbitrary: s)
  case (Cons ev evs)
  then show ?case
    using reached_unscheduled [of "fst (deadline_transition B s ev)"] reaches_unschedules [of s ev B]
    by (cases "reaches s ev") auto
qed simp

text \<open>
  A deadline is reached at most once over any history; without an instant, or once its
  behavior stopped, at its initialization or by an inner event, it is never reached.
\<close>

theorem deadline_reached_at_most_once:
  "reached_run B s evs \<le> 1
   \<and> reached_run B (fst (deadline_init B (deadline_new b None f))) evs = 0
   \<and> (case deadline_transition B s (Inner e) of
        (s', Inr a) \<Rightarrow> (if stops (become a) then reached_run B s' evs = 0 else True)
      | (s', Inl err) \<Rightarrow> True)"
proof -
  have "dl_schedule (fst (deadline_init B (deadline_new b None f))) = Unscheduled"
    by (auto simp: deadline_init_def deadline_new_def schedule_new_def split: prod.splits sum.splits)
  moreover have "dl_schedule s' = Unscheduled"
    if "deadline_transition B s (Inner e) = (s', Inr a)" "stops (become a)" for s' a
    using that by (auto simp: deadline_transition_def wrap_timer_def split: prod.splits sum.splits)
  ultimately show ?thesis
    using reached_at_most_once [of B s evs] reached_unscheduled
    by (auto split: prod.splits sum.splits)
qed

end
