(* ===== verification/Lease.thy ===== *)
theory Lease
  imports Timers
begin

text \<open>
  \<^verbatim>\<open>time/lease.rs\<close>: an exclusive lease with fencing generations. A holder acquires it for a
  duration, renews or releases it with the generation it was granted, and loses it when the
  timer of that generation elapses.
\<close>

section \<open>State and fold\<close>

datatype ('k, 'r) lease_state =
    Vacant timer_generation
  | Held 'k timer_generation 'r "timer_generation option"
  | GenerationsExhausted

datatype 'k lease_rejection =
    Occupied 'k
  | WrongHolder 'k
  | StaleGeneration timer_generation timer_generation
  | LeaseVacant
  | GenerationExhausted

datatype 'k lease_request =
    AcquireRequest 'k duration
  | RenewRequest 'k timer_generation duration
  | ReleaseRequest 'k timer_generation

datatype 'k lease_outcome =
    LeaseAcquired 'k timer_generation
  | LeaseRenewed 'k timer_generation
  | LeaseReleased 'k timer_generation
  | LeaseExpired 'k timer_generation
  | LeaseRejected "'k lease_request" "'k lease_rejection"

datatype ('k, 'r) lease_message =
    AcquireLease 'k duration 'r
  | RenewLease 'k timer_generation duration 'r
  | ReleaseLease 'k timer_generation 'r

record ('x, 'y) lease_sends =
  lease_outcomes :: 'x
  lease_schedules :: 'y

record ('k, 'r) lease =
  le_id :: timer_id
  le_state :: "('k, 'r) lease_state"

type_synonym ('k, 'r) lease_actions =
  "((('r, 'k lease_outcome) delivery list, timer_id schedule_after list) lease_sends, never, never) actions"

definition lease_new :: "timer_id \<Rightarrow> ('k, 'r) lease" where
  "lease_new i = \<lparr>le_id = i, le_state = Vacant 0\<rparr>"

definition lease_result :: "'r \<Rightarrow> 'k lease_outcome \<Rightarrow> ('k, 'r) lease_actions" where
  "lease_result r out = send_actions \<lparr>lease_outcomes = deliver r out, lease_schedules = []\<rparr>"

definition lease_granted :: "timer_id \<Rightarrow> 'r \<Rightarrow> 'k lease_outcome \<Rightarrow> timer_generation \<Rightarrow> duration
    \<Rightarrow> ('k, 'r) lease_actions" where
  "lease_granted i r out g d = send_actions
     \<lparr>lease_outcomes = deliver r out,
      lease_schedules = [\<lparr>after_id = i, after_generation = g, after_delay = d\<rparr>]\<rparr>"

definition lease_nothing :: "('k, 'r) lease_actions" where
  "lease_nothing = send_actions \<lparr>lease_outcomes = [], lease_schedules = []\<rparr>"

definition lease_acquire :: "('k, 'r) lease \<Rightarrow> 'k \<Rightarrow> duration \<Rightarrow> 'r \<Rightarrow> ('k, 'r) lease \<times> ('k, 'r) lease_actions" where
  "lease_acquire l k d r =
     (case le_state l of
        Held current g notify next \<Rightarrow>
          (l, lease_result r (LeaseRejected (AcquireRequest k d) (Occupied current)))
      | GenerationsExhausted \<Rightarrow>
          (l, lease_result r (LeaseRejected (AcquireRequest k d) GenerationExhausted))
      | Vacant next \<Rightarrow>
          (l\<lparr>le_state := Held k next r (checked_add next 1)\<rparr>,
           lease_granted (le_id l) r (LeaseAcquired k next) next d))"

definition lease_successor :: "('k, 'r) lease \<Rightarrow> 'k \<Rightarrow> timer_generation
    \<Rightarrow> 'k lease_rejection + timer_generation option" where
  "lease_successor l k g =
     (case le_state l of
        Vacant next \<Rightarrow> Inl LeaseVacant
      | GenerationsExhausted \<Rightarrow> Inl GenerationExhausted
      | Held current active notify next \<Rightarrow>
          (if current \<noteq> k then Inl (WrongHolder current)
           else if active \<noteq> g then Inl (StaleGeneration g active)
           else Inr next))"

definition lease_vacated :: "timer_generation option \<Rightarrow> ('k, 'r) lease_state" where
  "lease_vacated next = (case next of None \<Rightarrow> GenerationsExhausted | Some n \<Rightarrow> Vacant n)"

fun lease_message_step :: "('k, 'r) lease \<Rightarrow> ('k, 'r) lease_message \<Rightarrow> ('k, 'r) lease \<times> ('k, 'r) lease_actions" where
  "lease_message_step l (AcquireLease k d r) = lease_acquire l k d r"
| "lease_message_step l (RenewLease k g d r) =
     (case lease_successor l k g of
        Inl reason \<Rightarrow> (l, lease_result r (LeaseRejected (RenewRequest k g d) reason))
      | Inr None \<Rightarrow> (l, lease_result r (LeaseRejected (RenewRequest k g d) GenerationExhausted))
      | Inr (Some fresh) \<Rightarrow>
          (l\<lparr>le_state := Held k fresh r (checked_add fresh 1)\<rparr>,
           lease_granted (le_id l) r (LeaseRenewed k fresh) fresh d))"
| "lease_message_step l (ReleaseLease k g r) =
     (case lease_successor l k g of
        Inl reason \<Rightarrow> (l, lease_result r (LeaseRejected (ReleaseRequest k g) reason))
      | Inr next \<Rightarrow> (l\<lparr>le_state := lease_vacated next\<rparr>, lease_result r (LeaseReleased k g)))"

definition lease_elapse :: "('k, 'r) lease \<Rightarrow> timer_id timer_elapsed \<Rightarrow> ('k, 'r) lease \<times> ('k, 'r) lease_actions" where
  "lease_elapse l e =
     (if elapsed_id e \<noteq> le_id l then (l, lease_nothing)
      else case le_state l of
          Held holder g notify next \<Rightarrow>
            (if elapsed_generation e \<noteq> g then (l, lease_nothing)
             else (l\<lparr>le_state := lease_vacated next\<rparr>, lease_result notify (LeaseExpired holder g)))
        | _ \<Rightarrow> (l, lease_nothing))"

type_synonym ('a, 'k, 'r) lease_event = "(timer_id timer_elapsed, ('a, ('k, 'r) lease_message) user) event_layer"

definition lease_transition :: "('k, 'r) lease \<Rightarrow> ('a, 'k, 'r) lease_event
    \<Rightarrow> ('k, 'r) lease \<times> ('k, 'r) lease_actions" where
  "lease_transition l ev = (case ev of
      Inner u \<Rightarrow> lease_message_step l (user_message u)
    | Owned e \<Rightarrow> lease_elapse l e)"

section \<open>Fencing generations\<close>

fun lease_ok :: "('k, 'r) lease_state \<Rightarrow> bool" where
  "lease_ok (Held k g r next) \<longleftrightarrow> next = checked_add g 1"
| "lease_ok _ \<longleftrightarrow> True"

text \<open>The number of generations granted.\<close>

fun granted_count :: "('k, 'r) lease_state \<Rightarrow> nat" where
  "granted_count (Vacant next) = unat next"
| "granted_count (Held k g r next) = Suc (unat g)"
| "granted_count GenerationsExhausted = 2 ^ 64"

fun outcome_grant :: "'k lease_outcome \<Rightarrow> nat list" where
  "outcome_grant (LeaseAcquired k g) = [unat g]"
| "outcome_grant (LeaseRenewed k g) = [unat g]"
| "outcome_grant _ = []"

definition grants :: "('k, 'r) lease_actions \<Rightarrow> nat list" where
  "grants a = concat (map (outcome_grant \<circ> delivered) (lease_outcomes (sends a)))"

lemma grants_simps [simp]:
  "grants (lease_result r out) = outcome_grant out"
  "grants (lease_granted i r out g d) = outcome_grant out"
  "grants lease_nothing = []"
  by (simp_all add: grants_def lease_result_def lease_granted_def lease_nothing_def core_defs deliver_def)

lemma vacated_ok [simp]: "lease_ok (lease_vacated next)"
  by (simp add: lease_vacated_def split: option.splits)

lemma vacated_count [simp]: "granted_count (lease_vacated (checked_add g 1)) = Suc (unat g)"
proof (cases "checked_add g 1")
  case None
  then have "g = - 1" by (simp add: checked_succ_None_iff)
  with None show ?thesis by (simp add: lease_vacated_def unat_max_word [where 'w = 64, simplified])
qed (simp add: lease_vacated_def unat_checked_succ)

lemma lease_step_count:
  assumes "lease_ok (le_state l)"
  shows "lease_ok (le_state (fst (lease_transition l ev)))
    \<and> grants (snd (lease_transition l ev))
       = [granted_count (le_state l) ..< granted_count (le_state (fst (lease_transition l ev)))]
    \<and> granted_count (le_state l) \<le> granted_count (le_state (fst (lease_transition l ev)))"
proof (cases ev)
  case (Owned e)
  then show ?thesis using assms
    by (cases "le_state l") (auto simp: lease_transition_def lease_elapse_def)
next
  case (Inner u)
  show ?thesis
  proof (cases "user_message u")
    case (AcquireLease k d r)
    with Inner assms show ?thesis
      by (cases "le_state l") (auto simp: lease_transition_def lease_acquire_def)
  next
    case (RenewLease k g d r)
    with Inner assms show ?thesis
      by (cases "le_state l")
        (auto simp: lease_transition_def lease_successor_def unat_checked_succ split: option.splits)
  next
    case (ReleaseLease k g r)
    with Inner assms show ?thesis
      by (cases "le_state l") (auto simp: lease_transition_def lease_successor_def)
  qed
qed

interpretation lease: fold_invariant lease_transition "\<lambda>l. lease_ok (le_state l)"
  by unfold_locales (simp add: lease_step_count)

text \<open>
  C25: Over any history of requests and timer elapses, the generations a lease grants, by
  acquisition or renewal, are 0, 1, 2 and so on: no generation is granted twice, a later grant
  is always greater, and the numbers do not wrap.
\<close>

theorem lease_grants_consecutive_generations:
  "let (l, outs) = run lease_transition (lease_new i) evs
   in concat (map grants outs) = [0 ..< granted_count (le_state l)]
      \<and> granted_count (le_state l) \<le> 2 ^ 64"
proof -
  have bound: "granted_count st \<le> 2 ^ 64" for st :: "('k, 'r) lease_state"
    using unat_u64 by (cases st) (auto intro: less_imp_le simp: Suc_le_eq)
  have "lease_ok (le_state l) \<Longrightarrow> concat (map grants (run_outputs lease_transition l evs))
      = [granted_count (le_state l) ..< granted_count (le_state (run_state lease_transition l evs))]
    \<and> granted_count (le_state l) \<le> granted_count (le_state (run_state lease_transition l evs))" for l
  proof (induction evs arbitrary: l)
    case (Cons ev evs)
    from lease_step_count [OF Cons.prems, of ev] Cons.IH [of "fst (lease_transition l ev)"]
    show ?case by (simp add: upt_join)
  qed simp
  from this [of "lease_new i"] bound show ?thesis by (simp add: split_beta lease_new_def)
qed

text \<open>
  C26: While a lease is held, nothing takes it from its holder but the holder itself, by a
  release or a renewal with the current generation, or the elapse of the timer of the current
  generation: any other event, a stale generation, another holder, a stale timer, leaves it.
\<close>

theorem lease_kept_until_fenced:
  assumes "le_state l = Held k g r next"
  shows "le_state (fst (lease_transition l ev)) = Held k g r next
    \<or> (\<exists>u r'. ev = Inner u \<and> user_message u = ReleaseLease k g r'
          \<and> le_state (fst (lease_transition l ev)) = lease_vacated next)
    \<or> (\<exists>u d r' fresh. ev = Inner u \<and> user_message u = RenewLease k g d r' \<and> next = Some fresh
          \<and> le_state (fst (lease_transition l ev)) = Held k fresh r' (checked_add fresh 1))
    \<or> ev = Owned \<lparr>elapsed_id = le_id l, elapsed_generation = g\<rparr>"
proof (cases ev)
  case (Owned e)
  then show ?thesis using assms by (cases e) (auto simp: lease_transition_def lease_elapse_def)
next
  case (Inner u)
  then show ?thesis using assms
    by (cases "user_message u")
      (auto simp: lease_transition_def lease_acquire_def lease_successor_def split: option.splits)
qed

theorem lease_kept_until_fenced_witness:
  "let l = \<lparr>le_id = 1, le_state = Held (7 :: nat) 3 (0 :: nat) (Some 4)\<rparr>;
       ev = Owned \<lparr>elapsed_id = 1, elapsed_generation = 2\<rparr> :: (unit, nat, nat) lease_event
   in le_state (fst (lease_transition l ev)) = Held 7 3 0 (Some 4)"
  using lease_kept_until_fenced [of "\<lparr>le_id = 1, le_state = Held (7 :: nat) 3 (0 :: nat) (Some 4)\<rparr>" 7 3 0 "Some 4"
      "Owned \<lparr>elapsed_id = 1, elapsed_generation = 2\<rparr> :: (unit, nat, nat) lease_event"]
  by (simp add: Let_def)

end
