(* ===== verification/Circuit_Breaker.thy ===== *)
theory Circuit_Breaker
  imports Timers
begin

text \<open>
  \<^verbatim>\<open>routing/circuit_breaker.rs\<close>: admits one operation at a time, counts consecutive failures,
  opens at a threshold, and after a reset delay admits one probe that closes or reopens it.
\<close>

section \<open>State and fold\<close>

type_synonym breaker_attempt = u64

datatype 'r closed_phase = ClosedIdle u32 | ClosedAwaiting u32 breaker_attempt 'r

datatype 'r probe_phase = ProbeAvailable | ProbeAwaiting breaker_attempt 'r

datatype 'r breaker_phase =
    Closed "'r closed_phase"
  | Open timer_generation
  | Probing timer_generation "'r probe_phase"
  | BreakerExhausted

datatype breaker_config_error = ZeroResetDelay

datatype breaker_rejection = Busy | IsOpen timer_generation | AttemptsExhausted

datatype breaker_outcome =
    Admitted breaker_attempt
  | ProbeAdmitted breaker_attempt
  | BreakerRejected breaker_rejection
  | BreakerSucceeded breaker_attempt
  | FailureRecorded breaker_attempt u32
  | Opened breaker_attempt timer_generation

datatype breaker_completion = CompletionSucceeded breaker_attempt | CompletionFailed breaker_attempt

fun completion_attempt :: "breaker_completion \<Rightarrow> breaker_attempt" where
  "completion_attempt (CompletionSucceeded a) = a"
| "completion_attempt (CompletionFailed a) = a"

datatype breaker_error = UnexpectedCompletion breaker_completion

datatype 'r breaker_message = Admit 'r | Succeeded breaker_attempt | Failed breaker_attempt

record ('x, 'y) breaker_sends =
  breaker_replies :: 'x
  breaker_schedules :: 'y

record 'r circuit_breaker =
  cb_threshold :: u32
  cb_reset_after :: duration
  cb_timer_id :: timer_id
  cb_next_attempt :: u64
  cb_phase :: "'r breaker_phase"

type_synonym 'r breaker_actions =
  "((('r, breaker_outcome) delivery list, timer_id schedule_after list) breaker_sends, never, never) actions"

definition breaker_new :: "u32 \<Rightarrow> duration \<Rightarrow> timer_id \<Rightarrow> breaker_config_error + 'r circuit_breaker" where
  "breaker_new threshold reset i =
     (if reset = 0 then Inl ZeroResetDelay
      else Inr \<lparr>cb_threshold = threshold, cb_reset_after = reset, cb_timer_id = i,
                cb_next_attempt = 0, cb_phase = Closed (ClosedIdle 0)\<rparr>)"

definition breaker_reply :: "'r \<Rightarrow> breaker_outcome \<Rightarrow> 'r breaker_actions" where
  "breaker_reply r out = send_actions \<lparr>breaker_replies = deliver r out, breaker_schedules = []\<rparr>"

definition breaker_admit :: "'r circuit_breaker \<Rightarrow> 'r \<Rightarrow> 'r circuit_breaker \<times> 'r breaker_actions" where
  "breaker_admit b r =
     (let attempt = cb_next_attempt b in
      case cb_phase b of
        Closed (ClosedIdle failures) \<Rightarrow>
          (case checked_add (cb_next_attempt b) 1 of
             None \<Rightarrow> (b\<lparr>cb_phase := BreakerExhausted\<rparr>,
                      breaker_reply r (BreakerRejected AttemptsExhausted))
           | Some next \<Rightarrow>
               (b\<lparr>cb_next_attempt := next, cb_phase := Closed (ClosedAwaiting failures attempt r)\<rparr>,
                breaker_reply r (Admitted attempt)))
      | Probing g ProbeAvailable \<Rightarrow>
          (case checked_add (cb_next_attempt b) 1 of
             None \<Rightarrow> (b\<lparr>cb_phase := BreakerExhausted\<rparr>,
                      breaker_reply r (BreakerRejected AttemptsExhausted))
           | Some next \<Rightarrow>
               (b\<lparr>cb_next_attempt := next, cb_phase := Probing g (ProbeAwaiting attempt r)\<rparr>,
                breaker_reply r (ProbeAdmitted attempt)))
      | Open g \<Rightarrow> (b, breaker_reply r (BreakerRejected (IsOpen g)))
      | BreakerExhausted \<Rightarrow> (b, breaker_reply r (BreakerRejected AttemptsExhausted))
      | _ \<Rightarrow> (b, breaker_reply r (BreakerRejected Busy)))"

text \<open>Who owns a completion: the reply route, the failures so far and the generation of a probe.\<close>

definition breaker_ownership :: "'r circuit_breaker \<Rightarrow> breaker_attempt
    \<Rightarrow> ('r \<times> u32 \<times> timer_generation option) option" where
  "breaker_ownership b attempt =
     (case cb_phase b of
        Closed (ClosedAwaiting failures current r) \<Rightarrow>
          if current = attempt then Some (r, failures, None) else None
      | Probing g (ProbeAwaiting current r) \<Rightarrow>
          if current = attempt then Some (r, 0, Some g) else None
      | _ \<Rightarrow> None)"

definition breaker_complete :: "'r circuit_breaker \<Rightarrow> breaker_completion
    \<Rightarrow> 'r circuit_breaker \<times> (breaker_error + 'r breaker_actions)" where
  "breaker_complete b completion =
     (let attempt = completion_attempt completion in
      case breaker_ownership b attempt of
        None \<Rightarrow> (b, Inl (UnexpectedCompletion completion))
      | Some (r, failures, probe) \<Rightarrow>
          (case completion of
             CompletionSucceeded _ \<Rightarrow>
               (b\<lparr>cb_phase := Closed (ClosedIdle 0)\<rparr>, Inr (breaker_reply r (BreakerSucceeded attempt)))
           | CompletionFailed _ \<Rightarrow>
               (let failures = saturating_add failures 1 in
                if probe = None \<and> failures < cb_threshold b
                then (b\<lparr>cb_phase := Closed (ClosedIdle failures)\<rparr>,
                      Inr (breaker_reply r (FailureRecorded attempt failures)))
                else case (case probe of Some g \<Rightarrow> checked_add g 1 | None \<Rightarrow> Some 0) of
                    None \<Rightarrow> (b\<lparr>cb_phase := BreakerExhausted\<rparr>,
                             Inr (breaker_reply r (BreakerRejected AttemptsExhausted)))
                  | Some g \<Rightarrow>
                      (b\<lparr>cb_phase := Open g\<rparr>,
                       Inr (send_actions
                         \<lparr>breaker_replies = deliver r (Opened attempt g),
                          breaker_schedules = [\<lparr>after_id = cb_timer_id b, after_generation = g,
                                                after_delay = cb_reset_after b\<rparr>]\<rparr>)))))"

type_synonym ('a, 'r) breaker_event = "(timer_id timer_elapsed, ('a, 'r breaker_message) user) event_layer"

definition breaker_elapse :: "'r circuit_breaker \<Rightarrow> timer_id timer_elapsed \<Rightarrow> 'r circuit_breaker" where
  "breaker_elapse b e =
     (case cb_phase b of
        Open g \<Rightarrow> if elapsed_id e = cb_timer_id b \<and> elapsed_generation e = g
                  then b\<lparr>cb_phase := Probing g ProbeAvailable\<rparr> else b
      | _ \<Rightarrow> b)"

definition breaker_transition :: "'r circuit_breaker \<Rightarrow> ('a, 'r) breaker_event
    \<Rightarrow> 'r circuit_breaker \<times> (breaker_error + 'r breaker_actions)" where
  "breaker_transition b ev =
     (case ev of
        Inner u \<Rightarrow>
          (case user_message u of
             Admit r \<Rightarrow> apsnd Inr (breaker_admit b r)
           | Succeeded attempt \<Rightarrow> breaker_complete b (CompletionSucceeded attempt)
           | Failed attempt \<Rightarrow> breaker_complete b (CompletionFailed attempt))
      | Owned e \<Rightarrow> (breaker_elapse b e, Inr (send_actions \<lparr>breaker_replies = [], breaker_schedules = []\<rparr>)))"

section \<open>Attempts and the threshold\<close>

fun failures_below :: "u32 \<Rightarrow> 'r breaker_phase \<Rightarrow> bool" where
  "failures_below n (Closed (ClosedIdle f)) \<longleftrightarrow> f < n"
| "failures_below n (Closed (ClosedAwaiting f a r)) \<longleftrightarrow> f < n"
| "failures_below n _ \<longleftrightarrow> True"

definition breaker_ok :: "u32 \<Rightarrow> 'r circuit_breaker \<Rightarrow> bool" where
  "breaker_ok n b \<longleftrightarrow> 0 < n \<and> cb_threshold b = n \<and> failures_below n (cb_phase b)"

fun outcome_attempt :: "breaker_outcome \<Rightarrow> nat list" where
  "outcome_attempt (Admitted a) = [unat a]"
| "outcome_attempt (ProbeAdmitted a) = [unat a]"
| "outcome_attempt _ = []"

definition admitted :: "breaker_error + 'r breaker_actions \<Rightarrow> nat list" where
  "admitted out = (case out of Inl err \<Rightarrow> []
     | Inr a \<Rightarrow> concat (map (outcome_attempt \<circ> delivered) (breaker_replies (sends a))))"

lemma admitted_simps [simp]:
  "admitted (Inl err) = []"
  "admitted (Inr (breaker_reply r out)) = outcome_attempt out"
  "admitted (Inr (send_actions \<lparr>breaker_replies = deliver r out, breaker_schedules = ss\<rparr>)) = outcome_attempt out"
  "admitted (Inr (send_actions \<lparr>breaker_replies = [], breaker_schedules = ss\<rparr>)) = []"
  by (simp_all add: admitted_def breaker_reply_def core_defs deliver_def)

lemma admit_ok: "breaker_ok n b \<Longrightarrow> breaker_ok n (fst (breaker_admit b r))"
  by (auto simp: breaker_admit_def breaker_ok_def Let_def
      split: breaker_phase.splits closed_phase.splits probe_phase.splits option.splits)

lemma admit_attempts:
  "admitted (Inr (snd (breaker_admit b r)))
     = [unat (cb_next_attempt b) ..< unat (cb_next_attempt (fst (breaker_admit b r)))]
   \<and> unat (cb_next_attempt b) \<le> unat (cb_next_attempt (fst (breaker_admit b r)))"
  by (auto simp: breaker_admit_def Let_def unat_checked_succ
      split: breaker_phase.splits closed_phase.splits probe_phase.splits option.splits)

lemma elapse_frame [simp]:
  "cb_next_attempt (breaker_elapse b e) = cb_next_attempt b"
  "cb_threshold (breaker_elapse b e) = cb_threshold b"
  by (auto simp: breaker_elapse_def split: breaker_phase.splits)

lemma elapse_ok: "breaker_ok n b \<Longrightarrow> breaker_ok n (breaker_elapse b e)"
  by (auto simp: breaker_elapse_def breaker_ok_def split: breaker_phase.splits)

lemma complete_next [simp]: "cb_next_attempt (fst (breaker_complete b c)) = cb_next_attempt b"
  by (auto simp: breaker_complete_def Let_def split: option.splits breaker_completion.splits)

lemma complete_admits_nothing [simp]: "admitted (snd (breaker_complete b c)) = []"
  by (auto simp: breaker_complete_def Let_def split: option.splits breaker_completion.splits)

lemma complete_ok: "breaker_ok n b \<Longrightarrow> breaker_ok n (fst (breaker_complete b c))"
  by (auto simp: breaker_complete_def breaker_ok_def Let_def split: option.splits breaker_completion.splits)

lemma breaker_transition_ok:
  "breaker_ok n b \<Longrightarrow> breaker_ok n (fst (breaker_transition b ev))"
  by (simp add: breaker_transition_def admit_ok complete_ok elapse_ok
      split: event_layer.splits breaker_message.splits)

lemma breaker_transition_attempts:
  "admitted (snd (breaker_transition b ev))
     = [unat (cb_next_attempt b) ..< unat (cb_next_attempt (fst (breaker_transition b ev)))]
   \<and> unat (cb_next_attempt b) \<le> unat (cb_next_attempt (fst (breaker_transition b ev)))"
  using admit_attempts [of b]
  by (simp add: breaker_transition_def split: event_layer.splits breaker_message.splits)

interpretation breaker: fold_invariant breaker_transition "breaker_ok n" for n
  by unfold_locales (rule breaker_transition_ok)

lemma breaker_run_attempts:
  "concat (map admitted (run_outputs breaker_transition b evs))
     = [unat (cb_next_attempt b) ..< unat (cb_next_attempt (run_state breaker_transition b evs))]
   \<and> unat (cb_next_attempt b) \<le> unat (cb_next_attempt (run_state breaker_transition b evs))"
proof (induction evs arbitrary: b)
  case (Cons ev evs)
  from breaker_transition_attempts [of b ev] Cons.IH [of "fst (breaker_transition b ev)"]
  show ?case by (simp add: upt_join)
qed simp

text \<open>
  Over any history of a circuit breaker, admitted operations and probes get the attempts
  0, 1, 2 and so on, none twice, and a closed breaker has recorded fewer consecutive failures
  than its threshold.
\<close>

theorem breaker_attempts_are_fresh:
  assumes "breaker_new n reset i = Inr b0" and "0 < n"
    and "run breaker_transition b0 evs = (b, outs)"
  shows "concat (map admitted outs) = [0 ..< unat (cb_next_attempt b)] \<and> failures_below n (cb_phase b)"
proof -
  have b0: "breaker_ok n b0" "cb_next_attempt b0 = 0"
    using assms(1,2) by (auto simp: breaker_new_def breaker_ok_def split: if_splits)
  from breaker.run_inv [OF b0(1), of evs] breaker_run_attempts [of b0 evs] show ?thesis
    by (simp add: assms(3) b0(2) breaker_ok_def)
qed

theorem breaker_attempts_are_fresh_witness:
  "\<exists>b0 b outs. breaker_new 2 5 1 = Inr b0 \<and> (0 :: u32) < 2
     \<and> run breaker_transition b0
         [Inner \<lparr>user_from = (), user_message = Admit (4 :: nat)\<rparr>,
          Inner \<lparr>user_from = (), user_message = Failed 0\<rparr>] = (b, outs)
     \<and> concat (map admitted outs) = [0 ..< unat (cb_next_attempt b)] \<and> failures_below 2 (cb_phase b)"
proof -
  let ?evs = "[Inner \<lparr>user_from = (), user_message = Admit (4 :: nat)\<rparr>,
      Inner \<lparr>user_from = (), user_message = Failed 0\<rparr>] :: (unit, nat) breaker_event list"
  obtain b0 :: "nat circuit_breaker" where b0: "breaker_new 2 5 1 = Inr b0"
    by (simp add: breaker_new_def)
  obtain b outs where run: "run breaker_transition b0 ?evs = (b, outs)" by fastforce
  with b0 breaker_attempts_are_fresh [OF b0 _ run] show ?thesis by (auto simp del: run_Cons)
qed

text \<open>One admitted operation that fails.\<close>

definition failing_round :: "'r \<Rightarrow> 'r circuit_breaker \<Rightarrow> 'r circuit_breaker" where
  "failing_round r b = run_state breaker_transition b
     [Inner \<lparr>user_from = (), user_message = Admit r\<rparr>,
      Inner \<lparr>user_from = (), user_message = Failed (cb_next_attempt b)\<rparr>]"

lemma failing_round_idle:
  assumes "cb_phase b = Closed (ClosedIdle f)" and "cb_next_attempt b \<noteq> - 1" and "f \<noteq> - 1"
  shows "failing_round r b = b\<lparr>cb_next_attempt := cb_next_attempt b + 1,
     cb_phase := if f + 1 < cb_threshold b then Closed (ClosedIdle (f + 1)) else Open 0\<rparr>"
proof -
  from assms(2) have succ: "checked_add (cb_next_attempt b) 1 = Some (cb_next_attempt b + 1)"
    using checked_succ_None_iff [of "cb_next_attempt b"] by (auto simp: checked_add_def split: if_splits)
  from assms(3) have "saturating_add f 1 = f + 1"
    using checked_succ_None_iff [of f] by (auto simp: checked_add_def saturating_add_def split: if_splits)
  then show ?thesis using assms(1) succ
    by (simp add: failing_round_def breaker_transition_def breaker_admit_def breaker_complete_def
        breaker_ownership_def Let_def)
qed

text \<open>
  C20: A fresh breaker opens at exactly its threshold: after fewer failed operations it is
  closed with that many failures recorded, and the failure that reaches the threshold opens it.
\<close>

theorem breaker_opens_at_threshold:
  assumes "breaker_new n reset i = Inr b0" and "0 < n" and "k \<le> unat n"
  shows "cb_phase ((failing_round r ^^ k) b0)
    = (if k < unat n then Closed (ClosedIdle (of_nat k)) else Open 0)"
proof -
  have b0: "cb_phase b0 = Closed (ClosedIdle 0)" "cb_next_attempt b0 = 0" "cb_threshold b0 = n"
    using assms(1) by (auto simp: breaker_new_def split: if_splits)
  have bound: "unat n < 2 ^ 32" using unsigned_less [of n] by simp
  have "cb_phase ((failing_round r ^^ k) b0)
      = (if k < unat n then Closed (ClosedIdle (of_nat k)) else Open 0)
    \<and> cb_next_attempt ((failing_round r ^^ k) b0) = of_nat k
    \<and> cb_threshold ((failing_round r ^^ k) b0) = n"
    using assms(3)
  proof (induction k)
    case 0
    then show ?case using b0 assms(2) by (simp add: word_less_nat_alt)
  next
    case (Suc k)
    let ?b = "(failing_round r ^^ k) b0"
    from Suc have b: "cb_phase ?b = Closed (ClosedIdle (of_nat k))" "cb_next_attempt ?b = of_nat k"
      "cb_threshold ?b = n" by simp_all
    have "(of_nat k :: u64) \<noteq> - 1" "(of_nat k :: u32) \<noteq> - 1"
      using Suc.prems bound
      by (auto simp: word_unat_eq_iff unsigned_of_nat take_bit_eq_mod unat_max_word)
    moreover have "(of_nat k + 1 :: u32) < n \<longleftrightarrow> Suc k < unat n"
    proof -
      have "unat (of_nat (Suc k) :: u32) = Suc k" using Suc.prems bound by (simp add: unsigned_of_nat take_bit_eq_mod del: of_nat_Suc)
      then show ?thesis by (simp add: word_less_nat_alt add.commute)
    qed
    ultimately show ?case using b by (simp add: failing_round_idle add.commute)
  qed
  then show ?thesis ..
qed

theorem breaker_opens_at_threshold_witness:
  "\<exists>b0 :: nat circuit_breaker. breaker_new 2 5 1 = Inr b0
     \<and> cb_phase ((failing_round 4 ^^ 1) b0) = Closed (ClosedIdle 1)
     \<and> cb_phase ((failing_round 4 ^^ 2) b0) = Open 0"
proof -
  obtain b0 :: "nat circuit_breaker" where b0: "breaker_new 2 5 1 = Inr b0"
    by (simp add: breaker_new_def)
  from breaker_opens_at_threshold [OF b0, of 1 4] breaker_opens_at_threshold [OF b0, of 2 4] b0
  show ?thesis by (auto simp del: funpow.simps)
qed

section \<open>The breaker with its timers\<close>

text \<open>
  The breaker together with the requests its runtime has accepted: a message folds the breaker
  and adds the requests it emits; an elapse consumes one outstanding request.
\<close>

abbreviation out_schedules :: "breaker_error + 'r breaker_actions \<Rightarrow> timer_id schedule_after list" where
  "out_schedules out \<equiv> (case out of Inl err \<Rightarrow> [] | Inr a \<Rightarrow> breaker_schedules (sends a))"

inductive breaker_reaches :: "'r circuit_breaker \<Rightarrow> 'r circuit_breaker \<Rightarrow> timer_id schedule_after multiset \<Rightarrow> bool"
  for b0 :: "'r circuit_breaker" where
  start: "breaker_reaches b0 b0 {#}"
| message: "breaker_reaches b0 b ts
    \<Longrightarrow> breaker_transition b (Inner (u :: (unit, 'r breaker_message) user)) = (b', out)
    \<Longrightarrow> breaker_reaches b0 b' (ts + mset (out_schedules out))"
| elapse: "breaker_reaches b0 b (add_mset t ts)
    \<Longrightarrow> breaker_transition b
          (Owned \<lparr>elapsed_id = after_id t, elapsed_generation = after_generation t\<rparr> :: (unit, 'r) breaker_event)
        = (b', out)
    \<Longrightarrow> breaker_reaches b0 b' (ts + mset (out_schedules out))"

inductive_cases breaker_reaches_cases: "breaker_reaches b0 b ts"

definition outstanding :: "'r circuit_breaker \<Rightarrow> timer_id schedule_after multiset" where
  "outstanding b = (case cb_phase b of
      Open g \<Rightarrow> {#\<lparr>after_id = cb_timer_id b, after_generation = g, after_delay = cb_reset_after b\<rparr>#}
    | _ \<Rightarrow> {#})"

lemma message_outstanding:
  "breaker_transition b (Inner u) = (b', out)
     \<Longrightarrow> outstanding b' = outstanding b + mset (out_schedules out)"
  by (auto simp: breaker_transition_def breaker_admit_def breaker_complete_def breaker_ownership_def
      breaker_reply_def outstanding_def core_defs Let_def
      split: breaker_message.splits breaker_phase.splits closed_phase.splits probe_phase.splits
        option.splits breaker_completion.splits if_splits)

lemma breaker_reaches_outstanding:
  assumes "breaker_reaches b0 b ts" and "outstanding b0 = {#}"
  shows "ts = outstanding b"
  using assms
proof (induction rule: breaker_reaches.induct)
  case (message b ts u b' out)
  with message_outstanding [OF message.hyps(2)] show ?case by simp
next
  case (elapse b t ts b' out)
  then have "add_mset t ts = outstanding b" by simp
  then obtain g where "cb_phase b = Open g" "ts = {#}"
      "t = \<lparr>after_id = cb_timer_id b, after_generation = g, after_delay = cb_reset_after b\<rparr>"
    by (auto simp: outstanding_def split: breaker_phase.splits)
  with elapse.hyps(2) show ?case
    by (auto simp: breaker_transition_def breaker_elapse_def outstanding_def core_defs)
qed (simp add: outstanding_def)

text \<open>
  C22: With a runtime that delivers each requested elapse once, an open breaker has exactly one
  outstanding timer, the one of its current generation, and no other phase has any: no timer
  that elapses is stale, and the elapse always lets the breaker admit a probe.
\<close>

theorem open_breaker_has_its_timer:
  assumes "breaker_new n reset i = Inr b0" and "breaker_reaches b0 b ts"
  shows "case cb_phase b of
      Open g \<Rightarrow>
        ts = {#\<lparr>after_id = cb_timer_id b, after_generation = g, after_delay = cb_reset_after b\<rparr>#}
        \<and> cb_phase (fst (breaker_transition b
             (Owned \<lparr>elapsed_id = cb_timer_id b, elapsed_generation = g\<rparr> :: (unit, 'r) breaker_event)))
          = Probing g (ProbeAvailable :: 'r probe_phase)
    | _ \<Rightarrow> ts = {#}"
proof -
  have "outstanding b0 = {#}" using assms(1) by (auto simp: breaker_new_def outstanding_def split: if_splits)
  with assms(2) have "ts = outstanding b" by (rule breaker_reaches_outstanding)
  then show ?thesis
    by (auto simp: outstanding_def breaker_transition_def breaker_elapse_def split: breaker_phase.splits)
qed

theorem open_breaker_has_its_timer_witness:
  "\<exists>(b0 :: nat circuit_breaker) b ts. breaker_new 1 5 7 = Inr b0 \<and> breaker_reaches b0 b ts \<and> cb_phase b = Open 0
     \<and> ts = {#\<lparr>after_id = 7, after_generation = 0, after_delay = 5\<rparr>#}"
proof -
  define b0 :: "nat circuit_breaker" where
    "b0 = \<lparr>cb_threshold = 1, cb_reset_after = 5, cb_timer_id = 7, cb_next_attempt = 0, cb_phase = Closed (ClosedIdle 0)\<rparr>"
  define b1 where "b1 = b0\<lparr>cb_next_attempt := 1, cb_phase := Closed (ClosedAwaiting 0 0 4)\<rparr>"
  define b2 where "b2 = b1\<lparr>cb_phase := Open 0\<rparr>"
  have new: "breaker_new 1 5 7 = Inr b0" by (simp add: breaker_new_def b0_def)
  have "breaker_transition b0 (Inner \<lparr>user_from = (), user_message = Admit 4\<rparr>) = (b1, Inr (breaker_reply 4 (Admitted 0)))"
    by (simp add: breaker_transition_def breaker_admit_def b0_def b1_def checked_add_def)
  from breaker_reaches.message [OF breaker_reaches.start this]
  have one: "breaker_reaches b0 b1 {#}" by (simp add: breaker_reply_def core_defs)
  obtain out where "breaker_transition b1 (Inner \<lparr>user_from = (), user_message = Failed 0\<rparr>) = (b2, out)"
    by (simp add: breaker_transition_def breaker_complete_def breaker_ownership_def b0_def b1_def b2_def
        saturating_add_def Let_def)
  from breaker_reaches.message [OF one this] obtain ts where two: "breaker_reaches b0 b2 ts" by blast
  from open_breaker_has_its_timer [OF new two] have "ts = {#\<lparr>after_id = 7, after_generation = 0, after_delay = 5\<rparr>#}"
    by (simp add: b2_def b1_def b0_def)
  with new two show ?thesis by (auto simp: b2_def)
qed

end
