(* ===== verification/Deduplicator.thy ===== *)
theory Deduplicator
  imports Behavior_Core
begin

text \<open>
  \<^verbatim>\<open>routing/deduplicator.rs\<close>: delivers a value unless its key is among the retained ones, the
  last delivered keys up to a capacity.
\<close>

section \<open>State and fold\<close>

datatype ('k, 'v) deduplicator_outcome = DedupDelivered 'k "'k option" | DedupDuplicate 'k 'v

datatype ('k, 'v, 't, 'r) deduplicator_message = DedupDeliver 'k 'v 't 'r

datatype deduplicator_config_error = DedupZeroCapacity

record 'k deduplicator =
  dd_capacity :: usize
  dd_retained :: "'k list"

type_synonym ('k, 'v, 't, 'r) dedup_sends =
  "(('t, 'v) delivery list, ('r, ('k, 'v) deduplicator_outcome) delivery list) delivery_outcomes"

definition deduplicator_new :: "usize \<Rightarrow> deduplicator_config_error + 'k deduplicator" where
  "deduplicator_new c =
     (if c = 0 then Inl DedupZeroCapacity else Inr \<lparr>dd_capacity = c, dd_retained = []\<rparr>)"

text \<open>\<^verbatim>\<open>pop_front\<close>: the removed element and the rest.\<close>

definition pop_front :: "'x list \<Rightarrow> 'x option \<times> 'x list" where
  "pop_front xs = (case xs of [] \<Rightarrow> (None, []) | x # xs \<Rightarrow> (Some x, xs))"

fun deduplicator_transition :: "'k deduplicator \<Rightarrow> ('k, 'v, 't, 'r) deduplicator_message
    \<Rightarrow> 'k deduplicator \<times> (('k, 'v, 't, 'r) dedup_sends, never, never) actions" where
  "deduplicator_transition d (DedupDeliver k v t r) =
     (if k \<in> set (dd_retained d)
      then (d, send_actions \<lparr>deliveries = [], outcomes = deliver r (DedupDuplicate k v)\<rparr>)
      else let (evicted, kept) =
                 (if length (dd_retained d) = dd_capacity d then pop_front (dd_retained d)
                  else (None, dd_retained d))
           in (d\<lparr>dd_retained := kept @ [k]\<rparr>,
               send_actions \<lparr>deliveries = deliver t v, outcomes = deliver r (DedupDelivered k evicted)\<rparr>))"

section \<open>The window\<close>

fun dedup_key :: "('k, 'v) deduplicator_outcome \<Rightarrow> 'k list" where
  "dedup_key (DedupDelivered k e) = [k]"
| "dedup_key (DedupDuplicate k v) = []"

definition delivered_keys :: "(('k, 'v, 't, 'r) dedup_sends, never, never) actions list \<Rightarrow> 'k list" where
  "delivered_keys outs = concat (map (\<lambda>a. concat (map (dedup_key \<circ> delivered) (outcomes (sends a)))) outs)"

text \<open>Keys at most \<open>n\<close> deliveries apart are different.\<close>

definition apart :: "nat \<Rightarrow> 'k list \<Rightarrow> bool" where
  "apart n ks \<longleftrightarrow> (\<forall>i j. i < j \<longrightarrow> j < length ks \<longrightarrow> j \<le> i + n \<longrightarrow> ks ! i \<noteq> ks ! j)"

definition window :: "nat \<Rightarrow> 'k list \<Rightarrow> 'k list" where
  "window n ks = drop (length ks - n) ks"

lemma apart_snoc:
  assumes "apart n ks" and "k \<notin> set (window n ks)"
  shows "apart n (ks @ [k])"
proof -
  have "ks ! i \<noteq> k" if "i < length ks" "length ks \<le> i + n" for i
  proof -
    have "ks ! i = window n ks ! (i - (length ks - n))" using that by (simp add: window_def)
    moreover have "i - (length ks - n) < length (window n ks)" using that by (simp add: window_def)
    ultimately show ?thesis using assms(2) by (metis nth_mem)
  qed
  with assms(1) show ?thesis by (auto simp: apart_def nth_append less_Suc_eq)
qed

lemma window_snoc:
  assumes "0 < n"
  shows "window n (ks @ [k]) = (if length (window n ks) = n then tl (window n ks) else window n ks) @ [k]"
proof (cases "n \<le> length ks")
  case True
  then have "length (window n ks) = n" "length ks + 1 - n = Suc (length ks - n)"
    by (auto simp: window_def)
  with True assms show ?thesis by (simp add: window_def drop_Suc tl_drop)
next
  case False
  then show ?thesis by (simp add: window_def)
qed

definition dedup_ok :: "nat \<Rightarrow> 'k deduplicator \<Rightarrow> 'k list \<Rightarrow> bool" where
  "dedup_ok n d ks \<longleftrightarrow> 0 < n \<and> dd_capacity d = n \<and> dd_retained d = window n ks \<and> apart n ks"

lemma dedup_step:
  assumes "dedup_ok n d ks"
  shows "dedup_ok n (fst (deduplicator_transition d e)) (ks @ delivered_keys [snd (deduplicator_transition d e)])"
proof (cases e)
  case (DedupDeliver k v t r)
  show ?thesis
  proof (cases "k \<in> set (dd_retained d)")
    case True
    with assms DedupDeliver show ?thesis by (simp add: delivered_keys_def core_defs deliver_def)
  next
    case False
    have "fst (deduplicator_transition d e) = d\<lparr>dd_retained := window n (ks @ [k])\<rparr>"
      using False assms
      by (auto simp: DedupDeliver dedup_ok_def window_snoc pop_front_def split: list.splits)
    moreover have "delivered_keys [snd (deduplicator_transition d e)] = [k]"
      using False by (auto simp: DedupDeliver delivered_keys_def core_defs deliver_def split_beta)
    ultimately show ?thesis using assms False by (simp add: dedup_ok_def apart_snoc)
  qed
qed

lemma dedup_run:
  "dedup_ok n d ks \<Longrightarrow> dedup_ok n (run_state deduplicator_transition d es)
     (ks @ delivered_keys (run_outputs deduplicator_transition d es))"
proof (induction es arbitrary: d ks)
  case (Cons e es)
  from Cons.IH [OF dedup_step [OF Cons.prems, of e]] show ?case by (simp add: delivered_keys_def)
qed (simp add: delivered_keys_def)

text \<open>
  Over any history, a deduplicator of capacity n retains exactly the last n delivered keys,
  and two deliveries of the same key are more than n deliveries apart.
\<close>

theorem deduplicator_window:
  assumes "deduplicator_new n = Inr d0" and "run deduplicator_transition d0 es = (d, outs)"
  shows "dd_retained d = window n (delivered_keys outs) \<and> apart n (delivered_keys outs)"
proof -
  have "dedup_ok n d0 []" using assms(1)
    by (auto simp: deduplicator_new_def dedup_ok_def window_def apart_def split: if_splits)
  from dedup_run [OF this, of es] show ?thesis by (simp add: assms(2) dedup_ok_def)
qed

theorem deduplicator_window_witness:
  "\<exists>d outs. run deduplicator_transition \<lparr>dd_capacity = 2, dd_retained = []\<rparr>
        [DedupDeliver (1 :: nat) (10 :: nat) (0 :: nat) (0 :: nat), DedupDeliver 1 11 0 0, DedupDeliver 2 12 0 0,
         DedupDeliver 3 13 0 0] = (d, outs)
      \<and> dd_retained d = [2, 3] \<and> apart 2 (delivered_keys outs)"
proof -
  let ?d0 = "\<lparr>dd_capacity = 2, dd_retained = []\<rparr> :: nat deduplicator"
  let ?es = "[DedupDeliver (1 :: nat) (10 :: nat) (0 :: nat) (0 :: nat), DedupDeliver 1 11 0 0, DedupDeliver 2 12 0 0,
         DedupDeliver 3 13 0 0]"
  have new: "deduplicator_new 2 = Inr ?d0" by (simp add: deduplicator_new_def)
  obtain d outs where run: "run deduplicator_transition ?d0 ?es = (d, outs)" by fastforce
  then have "dd_retained d = [2, 3]" by (auto simp: pop_front_def)
  with run deduplicator_window [OF new run] show ?thesis by blast
qed

end
