(* ===== verification/Keyed_Vec.thy ===== *)
theory Keyed_Vec
  imports Prelude
begin

text \<open>
  A \<^verbatim>\<open>Vec\<close> of entries that are found by a key with \<^verbatim>\<open>position\<close> or \<^verbatim>\<open>find\<close>, updated in place, pushed
  or removed: the data structure of most behaviors of the catalogue. Seen through
  \<open>view\<close> it is a finite map; the lemmas say what each operation does to the map.
\<close>

definition view :: "('x \<Rightarrow> 'k) \<Rightarrow> ('x \<Rightarrow> 'v) \<Rightarrow> 'x list \<Rightarrow> 'k \<Rightarrow> 'v option" where
  "view key val xs = map_of (map (\<lambda>x. (key x, val x)) xs)"

abbreviation find_key :: "('x \<Rightarrow> 'k) \<Rightarrow> 'k \<Rightarrow> 'x list \<Rightarrow> nat option" where
  "find_key key k \<equiv> position (\<lambda>x. key x = k)"

lemma view_Nil [simp]: "view key val [] = Map.empty"
  by (simp add: view_def)

lemma view_Cons [simp]: "view key val (x # xs) = (view key val xs)(key x \<mapsto> val x)"
  by (simp add: view_def)

lemma view_None_iff: "view key val xs k = None \<longleftrightarrow> k \<notin> key ` set xs"
  by (induction xs) auto

lemma find_key_None_iff: "find_key key k xs = None \<longleftrightarrow> view key val xs k = None"
  by (auto simp: view_None_iff)

lemma find_key_Some: "find_key key k xs = Some i \<Longrightarrow> i < length xs \<and> key (xs ! i) = k"
  by (auto dest: position_SomeD)

lemma find_key_view: "find_key key k xs = Some i \<Longrightarrow> view key val xs k = Some (val (xs ! i))"
proof (induction xs arbitrary: i)
  case (Cons x xs)
  then show ?case by (auto split: if_splits)
qed simp

lemma view_update:
  "find_key key k xs = Some i \<Longrightarrow> key y = k \<Longrightarrow> view key val (xs[i := y]) = (view key val xs)(k \<mapsto> val y)"
proof (induction xs arbitrary: i)
  case (Cons x xs)
  then show ?case by (auto split: if_splits simp: fun_upd_twist)
qed simp

lemma keys_update: "find_key key k xs = Some i \<Longrightarrow> key y = k \<Longrightarrow> map key (xs[i := y]) = map key xs"
  using find_key_Some [of key k xs i] by (simp add: map_list_update_same)

lemma view_push: "find_key key (key y) xs = None \<Longrightarrow> view key val (xs @ [y]) = (view key val xs)(key y \<mapsto> val y)"
  by (induction xs) (auto split: if_splits simp: fun_upd_twist)

lemma distinct_push: "find_key key (key y) xs = None \<Longrightarrow> distinct (map key xs) \<Longrightarrow> distinct (map key (xs @ [y]))"
  by auto

lemma distinct_keys_push:
  "find_key key k xs = None \<Longrightarrow> key y = k \<Longrightarrow> distinct (map key xs) \<Longrightarrow> distinct (map key (xs @ [y]))"
  by auto

lemma view_remove:
  "find_key key k xs = Some i \<Longrightarrow> distinct (map key xs) \<Longrightarrow> view key val (remove_at i xs) = (view key val xs)(k := None)"
proof (induction xs arbitrary: i)
  case (Cons x xs)
  show ?case
  proof (cases "key x = k")
    case True
    with Cons.prems have "i = 0" "view key val xs k = None"
      by (auto simp: view_None_iff)
    with True show ?thesis by (auto simp: remove_at_def)
  next
    case False
    with Cons.prems obtain j where "i = Suc j" "find_key key k xs = Some j" by auto
    moreover from this Cons.prems have "view key val (remove_at j xs) = (view key val xs)(k := None)"
      by (intro Cons.IH) auto
    moreover have "remove_at i (x # xs) = x # remove_at j xs" using \<open>i = Suc j\<close> by (simp add: remove_at_def)
    ultimately show ?thesis using False by (auto simp: fun_eq_iff)
  qed
qed simp

lemma view_frame:
  "find_key key k xs = Some i \<Longrightarrow> key y = k \<Longrightarrow> j \<noteq> k \<Longrightarrow> view key val (xs[i := y]) j = view key val xs j"
  by (simp add: view_update)

text \<open>An entry of a vector with distinct keys is what its key finds.\<close>

lemma find_key_nth:
  assumes "distinct (map key xs)" and "i < length xs"
  shows "find_key key (key (xs ! i)) xs = Some i"
proof -
  obtain j where j: "find_key key (key (xs ! i)) xs = Some j"
    using position_SomeI [of "xs ! i" xs] assms(2) by force
  then have "j < length xs" "key (xs ! j) = key (xs ! i)" using find_key_Some by fastforce+
  with assms have "j = i" by (simp add: distinct_conv_nth) (metis length_map nth_map)
  with j show ?thesis by simp
qed

text \<open>In such a vector an update in place replaces the one entry of its key.\<close>

lemma set_update_key:
  assumes "find_key key k xs = Some i" and "distinct (map key xs)" and "key y = k"
  shows "set (xs[i := y]) = insert y {x \<in> set xs. key x \<noteq> k}"
proof -
  have i: "i < length xs" and ki: "key (xs ! i) = k" using find_key_Some [OF assms(1)] by auto
  have "xs ! j = xs ! i" if "j < length xs" "key (xs ! j) = k" for j
    using find_key_nth [OF assms(2) that(1)] that(2) assms(1) by simp
  then have "{x \<in> set xs. key x \<noteq> k} = {x. \<exists>j < length xs. j \<noteq> i \<and> x = xs ! j}"
    using find_key_nth [OF assms(2)] ki assms(1) by (auto simp: in_set_conv_nth) (metis option.inject)+
  moreover have "set (xs[i := y]) = insert y {x. \<exists>j < length xs. j \<noteq> i \<and> x = xs ! j}"
    using i by (auto simp: set_conv_nth nth_list_update)
  ultimately show ?thesis by simp
qed

end
