(* ===== verification/Correlator.thy ===== *)
theory Correlator
  imports Behavior_Core Keyed_Vec
begin

text \<open>
  \<^verbatim>\<open>routing/correlator.rs\<close>: pairs each reply with the request that began its key. A key is
  pending, then completed or cancelled for ever; every other use of it is a typed error that
  returns what it was given.
\<close>

section \<open>State and fold\<close>

datatype ('k, 'v) correlation_result = Resolved 'k 'v | ResultCancelled 'k

datatype ('k, 'r) correlation_state =
    CorrelationPending (correlation_key: 'k) 'r
  | CorrelationCompleted (correlation_key: 'k)
  | CorrelationCancelled (correlation_key: 'k)

datatype ('k, 'v, 'r) correlator_message = Begin 'k 'r | Resolve 'k 'v | Cancel 'k

datatype ('k, 'v, 'r) correlator_error =
    AlreadyPending 'k 'r
  | ReopenCompleted 'k 'r
  | ReopenCancelled 'k 'r
  | AlreadyCompleted 'k
  | AlreadyCancelled 'k
  | UnknownKey 'k
  | UnknownReply 'k 'v
  | StaleCompleted 'k 'v
  | StaleCancelled 'k 'v

type_synonym ('k, 'r) correlator = "('k, 'r) correlation_state list"

type_synonym ('k, 'v, 'r) correlator_result =
  "('k, 'v, 'r) correlator_error + (('r, ('k, 'v) correlation_result) delivery list, never, never) actions"

definition correlator_new :: "('k, 'r) correlator" where
  "correlator_new = []"

fun correlator_transition :: "('k, 'r) correlator \<Rightarrow> ('k, 'v, 'r) correlator_message
    \<Rightarrow> ('k, 'r) correlator \<times> ('k, 'v, 'r) correlator_result" where
  "correlator_transition c (Begin k r) =
     (case find_key correlation_key k c of
        Some i \<Rightarrow>
          (c, Inl (case c ! i of
                CorrelationPending _ _ \<Rightarrow> AlreadyPending k r
              | CorrelationCompleted _ \<Rightarrow> ReopenCompleted k r
              | CorrelationCancelled _ \<Rightarrow> ReopenCancelled k r))
      | None \<Rightarrow> (c @ [CorrelationPending k r], Inr (cont vec_sends)))"
| "correlator_transition c (Resolve k v) =
     (case find_key correlation_key k c of
        None \<Rightarrow> (c, Inl (UnknownReply k v))
      | Some i \<Rightarrow>
          (case c ! i of
             CorrelationPending _ r \<Rightarrow>
               (c[i := CorrelationCompleted k], Inr (send_actions (deliver r (Resolved k v))))
           | CorrelationCompleted _ \<Rightarrow> (c, Inl (StaleCompleted k v))
           | CorrelationCancelled _ \<Rightarrow> (c, Inl (StaleCancelled k v))))"
| "correlator_transition c (Cancel k) =
     (case find_key correlation_key k c of
        None \<Rightarrow> (c, Inl (UnknownKey k))
      | Some i \<Rightarrow>
          (case c ! i of
             CorrelationPending _ r \<Rightarrow>
               (c[i := CorrelationCancelled k], Inr (send_actions (deliver r (ResultCancelled k))))
           | CorrelationCompleted _ \<Rightarrow> (c, Inl (AlreadyCompleted k))
           | CorrelationCancelled _ \<Rightarrow> (c, Inl (AlreadyCancelled k))))"

section \<open>Specification\<close>

text \<open>A finite map from keys to where they stand, and the fold over it.\<close>

datatype 'r standing = Waiting 'r | Done | Revoked

fun standing_of :: "('k, 'r) correlation_state \<Rightarrow> 'r standing" where
  "standing_of (CorrelationPending k r) = Waiting r"
| "standing_of (CorrelationCompleted k) = Done"
| "standing_of (CorrelationCancelled k) = Revoked"

fun spec_correlate :: "('k \<rightharpoonup> 'r standing) \<Rightarrow> ('k, 'v, 'r) correlator_message
    \<Rightarrow> ('k \<rightharpoonup> 'r standing) \<times> ('k, 'v, 'r) correlator_result" where
  "spec_correlate m (Begin k r) =
     (case m k of
        None \<Rightarrow> (m(k \<mapsto> Waiting r), Inr (send_actions []))
      | Some (Waiting _) \<Rightarrow> (m, Inl (AlreadyPending k r))
      | Some Done \<Rightarrow> (m, Inl (ReopenCompleted k r))
      | Some Revoked \<Rightarrow> (m, Inl (ReopenCancelled k r)))"
| "spec_correlate m (Resolve k v) =
     (case m k of
        None \<Rightarrow> (m, Inl (UnknownReply k v))
      | Some (Waiting r) \<Rightarrow> (m(k \<mapsto> Done), Inr (send_actions (deliver r (Resolved k v))))
      | Some Done \<Rightarrow> (m, Inl (StaleCompleted k v))
      | Some Revoked \<Rightarrow> (m, Inl (StaleCancelled k v)))"
| "spec_correlate m (Cancel k) =
     (case m k of
        None \<Rightarrow> (m, Inl (UnknownKey k))
      | Some (Waiting r) \<Rightarrow> (m(k \<mapsto> Revoked), Inr (send_actions (deliver r (ResultCancelled k))))
      | Some Done \<Rightarrow> (m, Inl (AlreadyCompleted k))
      | Some Revoked \<Rightarrow> (m, Inl (AlreadyCancelled k)))"

abbreviation standings :: "('k, 'r) correlator \<Rightarrow> ('k \<rightharpoonup> 'r standing)" where
  "standings \<equiv> view correlation_key standing_of"

lemma correlator_step_refines:
  "spec_correlate (standings c) e = apfst standings (correlator_transition c e)"
proof -
  have found: "standings c k = Some (standing_of (c ! i)) \<and> correlation_key (c ! i) = k"
    if "find_key correlation_key k c = Some i" for k i
    using find_key_view [OF that] find_key_Some [OF that] by blast
  have missing: "standings c k = None" if "find_key correlation_key k c = None" for k
    using that by (simp only: find_key_None_iff [where val = standing_of])
  note update = view_update [where key = correlation_key and val = standing_of and xs = c]
    view_push [where key = correlation_key and val = standing_of and xs = c]
  show ?thesis
  proof (cases e)
    case (Begin k r)
    then show ?thesis using found missing update(2)
      by (cases "find_key correlation_key k c"; cases "c ! the (find_key correlation_key k c)")
        (auto simp: core_defs simp del: position_None_iff)
  next
    case (Resolve k v)
    then show ?thesis using found missing update(1)
      by (cases "find_key correlation_key k c"; cases "c ! the (find_key correlation_key k c)")
        (auto simp: core_defs simp del: position_None_iff)
  next
    case (Cancel k)
    then show ?thesis using found missing update(1)
      by (cases "find_key correlation_key k c"; cases "c ! the (find_key correlation_key k c)")
        (auto simp: core_defs simp del: position_None_iff)
  qed
qed

interpretation correlator: refined_fold correlator_transition "\<lambda>c. True" spec_correlate standings
  by unfold_locales (simp_all add: correlator_step_refines)

text \<open>The keys a run answers, and the keys that are finished.\<close>

fun result_key :: "('k, 'v) correlation_result \<Rightarrow> 'k" where
  "result_key (Resolved k v) = k"
| "result_key (ResultCancelled k) = k"

definition answered :: "('k, 'v, 'r) correlator_result \<Rightarrow> 'k list" where
  "answered out = (case out of Inl err \<Rightarrow> [] | Inr a \<Rightarrow> map (result_key \<circ> delivered) (sends a))"

definition finished :: "('k \<rightharpoonup> 'r standing) \<Rightarrow> 'k set" where
  "finished m = {k. m k = Some Done \<or> m k = Some Revoked}"

lemma spec_step_answers:
  "(answered (snd (spec_correlate m e)) = [] \<and> finished (fst (spec_correlate m e)) = finished m)
   \<or> (\<exists>k. answered (snd (spec_correlate m e)) = [k] \<and> k \<notin> finished m
        \<and> finished (fst (spec_correlate m e)) = insert k (finished m))"
  by (cases e) (auto simp: answered_def finished_def core_defs deliver_def
      split: option.splits standing.splits)

lemma spec_run_answers:
  "let (m', outs) = run spec_correlate m es; ks = concat (map answered outs)
   in distinct ks \<and> set ks \<inter> finished m = {} \<and> finished m' = finished m \<union> set ks"
proof (induction es arbitrary: m)
  case (Cons e es)
  from spec_step_answers [of m e] Cons.IH [of "fst (spec_correlate m e)"] show ?case
    by (auto simp: split_beta Let_def)
qed simp

text \<open>
  C38: The correlator implements a finite map from keys to pending, completed or cancelled,
  with the same actions and errors for every history. Each key is answered at most once, at
  its own reply route, and the answered keys are exactly the completed and cancelled ones.
\<close>

theorem correlator_answers_each_key_once:
  "let (c, outs) = run correlator_transition correlator_new es; ks = concat (map answered outs)
   in run spec_correlate Map.empty es = (standings c, outs)
      \<and> distinct ks \<and> set ks = finished (standings c)"
proof -
  obtain c outs where run: "run correlator_transition correlator_new es = (c, outs)" by fastforce
  then have "run spec_correlate Map.empty es = (standings c, outs)"
    using correlator.run_refines [of correlator_new es] by (simp add: correlator_new_def)
  with spec_run_answers [of Map.empty es] show ?thesis
    by (simp add: run Let_def finished_def)
qed

end
