(* ===== verification/Acknowledgements.thy ===== *)
theory Acknowledgements
  imports Behavior_Core Keyed_Vec
begin

text \<open>
  \<^verbatim>\<open>routing/acknowledgements.rs\<close>: for every key the participants that still have to acknowledge
  and those that have. A key completes with its last acknowledgement or is cancelled; both
  are terminal.
\<close>

section \<open>State and fold\<close>

datatype 'p acknowledgement_state =
    AckPending "'p list" "'p list"
  | AckCompleted
  | AckCancelled

record ('k, 'p) acknowledgement_record =
  ack_key :: 'k
  ack_state :: "'p acknowledgement_state"

datatype ('k, 'p) acknowledgement_input = InputAcknowledge 'k 'p | InputCancel 'k

datatype ('k, 'p) acknowledgement_error =
    ExistingKey 'k "'p list"
  | UnknownInput "('k, 'p) acknowledgement_input"
  | UnexpectedParticipant 'k 'p
  | DuplicateParticipant 'k 'p
  | CompletedInput "('k, 'p) acknowledgement_input"
  | CancelledInput "('k, 'p) acknowledgement_input"

datatype ('k, 'p) acknowledgement_outcome =
    AckStarted 'k usize
  | Acknowledged 'k 'p usize
  | OutcomeCompleted 'k
  | OutcomeCancelled 'k
  | AckRejected "('k, 'p) acknowledgement_error"

datatype ('k, 'p, 'r) acknowledgement_message =
    AckBegin 'k "'p list" 'r
  | Acknowledge 'k 'p 'r
  | AckCancel 'k 'r

type_synonym ('k, 'p) acknowledgements = "('k, 'p) acknowledgement_record list"

type_synonym ('k, 'p, 'r) ack_actions =
  "(('r, ('k, 'p) acknowledgement_outcome) delivery list, never, never) actions"

definition acknowledgements_new :: "('k, 'p) acknowledgements" where
  "acknowledgements_new = []"

definition ack_result :: "'r \<Rightarrow> ('k, 'p) acknowledgement_outcome \<Rightarrow> ('k, 'p, 'r) ack_actions" where
  "ack_result r out = send_actions (deliver r out)"

definition ack_begin :: "('k, 'p) acknowledgements \<Rightarrow> 'k \<Rightarrow> 'p list \<Rightarrow> 'r
    \<Rightarrow> ('k, 'p) acknowledgements \<times> ('k, 'p, 'r) ack_actions" where
  "ack_begin rs k ps r =
     (if k \<in> ack_key ` set rs then (rs, ack_result r (AckRejected (ExistingKey k ps)))
      else let required = unique_in_order ps;
               remaining = length required;
               state = (if required = [] then AckCompleted else AckPending required [])
           in (rs @ [\<lparr>ack_key = k, ack_state = state\<rparr>],
               ack_result r (if remaining = 0 then OutcomeCompleted k else AckStarted k remaining)))"

definition ack_acknowledge :: "('k, 'p) acknowledgements \<Rightarrow> 'k \<Rightarrow> 'p \<Rightarrow> 'r
    \<Rightarrow> ('k, 'p) acknowledgements \<times> ('k, 'p, 'r) ack_actions" where
  "ack_acknowledge rs k p r =
     (case find_key ack_key k rs of
        None \<Rightarrow> (rs, ack_result r (AckRejected (UnknownInput (InputAcknowledge k p))))
      | Some i \<Rightarrow>
          (case ack_state (rs ! i) of
             AckCompleted \<Rightarrow> (rs, ack_result r (AckRejected (CompletedInput (InputAcknowledge k p))))
           | AckCancelled \<Rightarrow> (rs, ack_result r (AckRejected (CancelledInput (InputAcknowledge k p))))
           | AckPending remaining acknowledged \<Rightarrow>
               (if p \<in> set acknowledged
                then (rs, ack_result r (AckRejected (DuplicateParticipant k p)))
                else case position (\<lambda>q. q = p) remaining of
                    None \<Rightarrow> (rs, ack_result r (AckRejected (UnexpectedParticipant k p)))
                  | Some j \<Rightarrow>
                      (let remaining' = remove_at j remaining;
                           acknowledged' = acknowledged @ [p]
                       in if remaining' = []
                          then (rs[i := (rs ! i)\<lparr>ack_state := AckCompleted\<rparr>], ack_result r (OutcomeCompleted k))
                          else (rs[i := (rs ! i)\<lparr>ack_state := AckPending remaining' acknowledged'\<rparr>],
                                ack_result r (Acknowledged k p (length remaining')))))))"

definition ack_cancel :: "('k, 'p) acknowledgements \<Rightarrow> 'k \<Rightarrow> 'r
    \<Rightarrow> ('k, 'p) acknowledgements \<times> ('k, 'p, 'r) ack_actions" where
  "ack_cancel rs k r =
     (case find_key ack_key k rs of
        None \<Rightarrow> (rs, ack_result r (AckRejected (UnknownInput (InputCancel k))))
      | Some i \<Rightarrow>
          (case ack_state (rs ! i) of
             AckPending _ _ \<Rightarrow>
               (rs[i := (rs ! i)\<lparr>ack_state := AckCancelled\<rparr>], ack_result r (OutcomeCancelled k))
           | AckCompleted \<Rightarrow> (rs, ack_result r (AckRejected (CompletedInput (InputCancel k))))
           | AckCancelled \<Rightarrow> (rs, ack_result r (AckRejected (CancelledInput (InputCancel k))))))"

fun acknowledgements_transition :: "('k, 'p) acknowledgements \<Rightarrow> ('k, 'p, 'r) acknowledgement_message
    \<Rightarrow> ('k, 'p) acknowledgements \<times> ('k, 'p, 'r) ack_actions" where
  "acknowledgements_transition rs (AckBegin k ps r) = ack_begin rs k ps r"
| "acknowledgements_transition rs (Acknowledge k p r) = ack_acknowledge rs k p r"
| "acknowledgements_transition rs (AckCancel k r) = ack_cancel rs k r"

section \<open>One key at a time\<close>

abbreviation ack_view :: "('k, 'p) acknowledgements \<Rightarrow> ('k \<rightharpoonup> 'p acknowledgement_state)" where
  "ack_view \<equiv> view ack_key ack_state"

fun message_key :: "('k, 'p, 'r) acknowledgement_message \<Rightarrow> 'k" where
  "message_key (AckBegin k ps r) = k"
| "message_key (Acknowledge k p r) = k"
| "message_key (AckCancel k r) = k"

text \<open>What a message does to the state of its key.\<close>

definition acknowledge_state :: "'p \<Rightarrow> 'p acknowledgement_state \<Rightarrow> 'p acknowledgement_state" where
  "acknowledge_state p st = (case st of
      AckPending remaining acknowledged \<Rightarrow>
        (if p \<in> set remaining - set acknowledged
         then if set remaining = {p} \<and> length remaining = 1 then AckCompleted
              else AckPending (remove1 p remaining) (acknowledged @ [p])
         else st)
    | _ \<Rightarrow> st)"

fun key_step :: "'p acknowledgement_state option \<Rightarrow> ('k, 'p, 'r) acknowledgement_message
    \<Rightarrow> 'p acknowledgement_state option" where
  "key_step None (AckBegin k ps r) =
     Some (if ps = [] then AckCompleted else AckPending (unique_in_order ps) [])"
| "key_step (Some st) (Acknowledge k p r) = Some (acknowledge_state p st)"
| "key_step (Some (AckPending _ _)) (AckCancel k r) = Some AckCancelled"
| "key_step st _ = st"

lemma remove1_Nil_iff: "p \<in> set xs \<Longrightarrow> remove1 p xs = [] \<longleftrightarrow> set xs = {p} \<and> length xs = 1"
  by (cases xs) (auto simp: length_remove1)

lemma unique_in_order_Nil: "unique_in_order xs = [] \<longleftrightarrow> xs = []"
  by (metis set_empty set_unique_in_order)

lemma ack_step_view:
  "ack_view (fst (acknowledgements_transition rs e))
     = (ack_view rs)(message_key e := key_step (ack_view rs (message_key e)) e)"
proof -
  have found: "ack_view rs k = Some (ack_state (rs ! i)) \<and> ack_key (rs ! i) = k"
    if "find_key ack_key k rs = Some i" for k i
    using find_key_view [OF that] find_key_Some [OF that] by blast
  have missing: "ack_view rs k = None" if "find_key ack_key k rs = None" for k
    using that by (simp only: find_key_None_iff [where val = ack_state])
  note update = view_update [where key = ack_key and val = ack_state and xs = rs]
  show ?thesis
  proof (cases e)
    case (AckBegin k ps r)
    show ?thesis
    proof (cases "ack_view rs k")
      case None
      then have "k \<notin> ack_key ` set rs" by (metis view_None_iff)
      moreover from this have "ack_view (rs @ [\<lparr>ack_key = k, ack_state = st\<rparr>]) = (ack_view rs)(k \<mapsto> st)" for st
        by (subst view_push) auto
      ultimately show ?thesis using None
        by (auto simp: AckBegin ack_begin_def unique_in_order_Nil Let_def)
    next
      case (Some st)
      then have "k \<in> ack_key ` set rs" by (metis option.distinct(1) view_None_iff)
      with Some show ?thesis by (auto simp: AckBegin ack_begin_def fun_upd_idem)
    qed
  next
    case (Acknowledge k p r)
    show ?thesis
    proof (cases "find_key ack_key k rs")
      case None
      with missing [OF this] show ?thesis
        by (simp add: Acknowledge ack_acknowledge_def fun_upd_idem del: position_None_iff)
    next
      case (Some i)
      show ?thesis
      proof (cases "ack_state (rs ! i)")
        case (AckPending remaining acknowledged)
        show ?thesis
        proof (cases "position (\<lambda>q. q = p) remaining")
          case None
          then have "p \<notin> set remaining" by auto
          with None Some found [OF Some] AckPending show ?thesis
            by (auto simp: Acknowledge ack_acknowledge_def acknowledge_state_def fun_upd_idem
                simp del: position_None_iff)
        next
          case (Some j)
          then have p: "p \<in> set remaining" using position_SomeD [OF Some] nth_mem [of j remaining] by simp
          note at = \<open>find_key ack_key k rs = Some i\<close>
          have upd: "ack_view (rs[i := (rs ! i)\<lparr>ack_state := st\<rparr>]) = (ack_view rs)(k \<mapsto> st)" for st
            using update [OF at, of "(rs ! i)\<lparr>ack_state := st\<rparr>"] found [OF at] by simp
          have here: "ack_view rs k = Some (AckPending remaining acknowledged)"
            using found [OF at] AckPending by simp
          show ?thesis
          proof (cases "p \<in> set acknowledged")
            case True
            then show ?thesis using at AckPending here
              by (simp add: Acknowledge ack_acknowledge_def acknowledge_state_def fun_upd_idem)
          next
            case False
            then show ?thesis using at AckPending here Some p upd
              by (simp add: Acknowledge ack_acknowledge_def acknowledge_state_def Let_def
                  remove_at_position remove1_Nil_iff)
          qed
        qed
      qed (use Some found [OF Some] in
          \<open>auto simp: Acknowledge ack_acknowledge_def acknowledge_state_def fun_upd_idem\<close>)
    qed
  next
    case (AckCancel k r)
    show ?thesis
    proof (cases "find_key ack_key k rs")
      case None
      with missing [OF this] show ?thesis
        by (simp add: AckCancel ack_cancel_def fun_upd_idem del: position_None_iff)
    next
      case (Some i)
      with found [OF Some] update [OF Some] show ?thesis
        by (cases "ack_state (rs ! i)") (auto simp: AckCancel ack_cancel_def fun_upd_idem)
    qed
  qed
qed

text \<open>The state of a key depends on the messages of that key only.\<close>

lemma ack_run_view:
  "ack_view (run_state acknowledgements_transition rs es) k
     = foldl key_step (ack_view rs k) (filter (\<lambda>e. message_key e = k) es)"
  by (induction es arbitrary: rs) (auto simp: ack_step_view)

text \<open>The state of a key with the participants \<open>ps\<close> after the acknowledgements \<open>qs\<close>.\<close>

definition acked :: "'p list \<Rightarrow> 'p list \<Rightarrow> 'p acknowledgement_state" where
  "acked ps qs =
     (if set ps \<subseteq> set qs then AckCompleted
      else AckPending (filter (\<lambda>p. p \<notin> set qs) (unique_in_order ps))
             (unique_in_order (filter (\<lambda>q. q \<in> set ps) qs)))"

lemma unique_in_order_snoc: "unique_in_order (xs @ [x]) = push_unique (unique_in_order xs) x"
  by (simp add: unique_in_order_def)

lemma remove1_filter:
  "distinct xs \<Longrightarrow> remove1 q (filter P xs) = filter (\<lambda>x. P x \<and> x \<noteq> q) xs"
  by (auto simp: distinct_remove1_removeAll removeAll_filter_not_eq intro: filter_cong)

lemma acked_step: "acknowledge_state q (acked ps qs) = acked ps (qs @ [q])"
proof (cases "set ps \<subseteq> set qs")
  case True
  then show ?thesis by (auto simp: acked_def acknowledge_state_def)
next
  case more: False
  let ?rem = "filter (\<lambda>p. p \<notin> set qs) (unique_in_order ps)"
  have distinct: "distinct ?rem" by simp
  show ?thesis
  proof (cases "q \<in> set ps \<and> q \<notin> set qs")
    case True
    have "set ?rem = {q} \<and> length ?rem = 1 \<longleftrightarrow> set ps \<subseteq> set (qs @ [q])"
    proof
      assume "set ps \<subseteq> set (qs @ [q])"
      with True have "set ?rem = {q}" by auto
      with distinct show "set ?rem = {q} \<and> length ?rem = 1" by (metis card_1_singleton_iff distinct_card One_nat_def)
    qed auto
    moreover have "remove1 q ?rem = filter (\<lambda>p. p \<notin> set (qs @ [q])) (unique_in_order ps)"
      by (simp add: remove1_filter conj_commute)
    ultimately show ?thesis using True more
      by (auto simp: acked_def acknowledge_state_def unique_in_order_snoc push_unique_def)
  next
    case False
    then have "filter (\<lambda>p. p \<notin> set (qs @ [q])) (unique_in_order ps) = ?rem"
      by (intro filter_cong) auto
    moreover have "unique_in_order (filter (\<lambda>q. q \<in> set ps) (qs @ [q])) = unique_in_order (filter (\<lambda>q. q \<in> set ps) qs)"
      using False by (auto simp: unique_in_order_snoc push_unique_def)
    moreover have "set ps \<subseteq> set (qs @ [q]) \<longleftrightarrow> set ps \<subseteq> set qs" using False by auto
    ultimately show ?thesis using False more by (auto simp: acked_def acknowledge_state_def)
  qed
qed

lemma acked_start: "(if ps = [] then AckCompleted else AckPending (unique_in_order ps) []) = acked ps []"
  by (simp add: acked_def unique_in_order_def)

lemma acked_run:
  "foldl key_step (Some (acked ps qs)) (map (\<lambda>(q, r). Acknowledge k q r) qrs)
     = Some (acked ps (qs @ map fst qrs))"
  by (induction qrs arbitrary: qs) (auto simp: acked_step)

text \<open>
  Once a key has begun with its participants and only acknowledgements of that key follow,
  in any order, with duplicates and strangers, and interleaved with any messages of other
  keys, it is completed exactly when every participant has acknowledged; until then the
  remaining ones are those that have not, in their order, and the others are listed once.
\<close>

theorem acknowledgements_complete_with_all:
  assumes "filter (\<lambda>e. message_key e = k) es = AckBegin k ps r # map (\<lambda>(q, r). Acknowledge k q r) qrs"
  shows "ack_view (run_state acknowledgements_transition acknowledgements_new es) k
    = Some (acked ps (map fst qrs))"
proof -
  have "ack_view (run_state acknowledgements_transition acknowledgements_new es) k
      = foldl key_step (Some (acked ps [])) (map (\<lambda>(q, r). Acknowledge k q r) qrs)"
    by (simp only: ack_run_view assms foldl_Cons acknowledgements_new_def view_Nil key_step.simps acked_start)
  then show ?thesis by (simp only: acked_run append_Nil)
qed

theorem acknowledgements_complete_with_all_witness:
  "ack_view (run_state acknowledgements_transition acknowledgements_new
      [AckBegin (1 :: nat) [5 :: nat, 6, 5] (0 :: nat), AckCancel 2 0, Acknowledge 1 6 0, Acknowledge 1 6 0, Acknowledge 1 7 0]) 1
     = Some (AckPending [5] [6])"
  using acknowledgements_complete_with_all [of "1 :: nat"
      "[AckBegin 1 [5 :: nat, 6, 5] (0 :: nat), AckCancel 2 0, Acknowledge 1 6 0, Acknowledge 1 6 0, Acknowledge 1 7 0]"
      "[5, 6, 5]" 0 "[(6, 0), (6, 0), (7, 0)]"]
  by (simp add: acked_def unique_in_order_def push_unique_def del: run_Cons)

end
