(* ===== verification/Router.thy ===== *)
theory Router
  imports Behavior_Core Keyed_Vec "HOL-Library.Product_Lexorder"
begin

text \<open>
  \<^verbatim>\<open>routing/router.rs\<close>: a set of recipients and a strategy that selects one for each message:
  round robin, least loaded, consistent hashing and rendezvous hashing. The trait
  \<^verbatim>\<open>RoutingStrategy\<close> is a record of its operations; \<open>lawful_strategy\<close> states what the router
  relies on and is interpreted on the four strategies.
\<close>

unbundle bit_operations_syntax

section \<open>Selection from an iterator\<close>

text \<open>\<^verbatim>\<open>Iterator::min_by_key\<close> returns the first least element, \<^verbatim>\<open>Iterator::max_by\<close> the last greatest.\<close>

fun min_by_key :: "('a \<Rightarrow> 'k::linorder) \<Rightarrow> 'a list \<Rightarrow> 'a option" where
  "min_by_key f [] = None"
| "min_by_key f (x # xs) = (case min_by_key f xs of
      None \<Rightarrow> Some x | Some y \<Rightarrow> if f y < f x then Some y else Some x)"

fun max_by :: "('a \<Rightarrow> 'a \<Rightarrow> bool) \<Rightarrow> 'a list \<Rightarrow> 'a option" where
  "max_by lt [] = None"
| "max_by lt (x # xs) = (case max_by lt xs of
      None \<Rightarrow> Some x | Some y \<Rightarrow> if lt y x then Some x else Some y)"

text \<open>\<^verbatim>\<open>iter().enumerate().take(n).filter_map(..)\<close>: the observed values with their indices.\<close>

definition observed_upto :: "nat \<Rightarrow> 'v option list \<Rightarrow> (nat \<times> 'v) list" where
  "observed_upto n xs = List.map_filter (\<lambda>(i, v). map_option (Pair i) v) (take n (List.enumerate 0 xs))"

section \<open>Strategies\<close>

text \<open>
  An operation borrows the strategy mutably and returns its state after the call. A rejected
  observation is returned with the reason.
\<close>

record ('o, 'e) observation_rejection =
  rejected_observation :: 'o
  rejected_reason :: 'e

record ('s, 'r, 'm, 'o, 'e) routing_strategy =
  rs_select :: "'s \<Rightarrow> 'r list \<Rightarrow> 'm \<Rightarrow> 's \<times> nat option"
  rs_observe :: "'s \<Rightarrow> 'r list \<Rightarrow> 'o \<Rightarrow> 's \<times> (('o, 'e) observation_rejection + unit)"
  rs_added :: "'s \<Rightarrow> 'r \<Rightarrow> 's"
  rs_removed :: "'s \<Rightarrow> nat \<Rightarrow> 'r \<Rightarrow> nat \<Rightarrow> 's"

subsection \<open>Round robin\<close>

record round_robin =
  rr_next :: nat

definition rr_select :: "round_robin \<Rightarrow> 'r list \<Rightarrow> 'm \<Rightarrow> round_robin \<times> nat option" where
  "rr_select s members m =
     (if members = [] then (s, None)
      else let selected = rr_next s mod length members
           in (s\<lparr>rr_next := (selected + 1) mod length members\<rparr>, Some selected))"

definition rr_removed :: "round_robin \<Rightarrow> nat \<Rightarrow> 'r \<Rightarrow> nat \<Rightarrow> round_robin" where
  "rr_removed s index r remaining =
     (if remaining = 0 then s\<lparr>rr_next := 0\<rparr>
      else let next = (if index < rr_next s then rr_next s - 1 else rr_next s)
           in s\<lparr>rr_next := next mod remaining\<rparr>)"

text \<open>Its observations have type \<^verbatim>\<open>Never\<close>: no value reaches \<^verbatim>\<open>observe\<close>.\<close>

definition round_robin_strategy :: "(round_robin, 'r, 'm, never, never) routing_strategy" where
  "round_robin_strategy =
     \<lparr>rs_select = rr_select, rs_observe = (\<lambda>s members ob. (s, Inr ())),
      rs_added = (\<lambda>s r. s), rs_removed = rr_removed\<rparr>"

subsection \<open>Versioned evidence about members\<close>

text \<open>
  \<^verbatim>\<open>LoadEvidence\<close> and \<^verbatim>\<open>MemberTokenEvidence\<close>: unknown (\<open>None\<close>) or a version with a value. The two
  \<^verbatim>\<open>observe\<close> functions are the same text over the two value types.
\<close>

record 'v evidence =
  ev_version :: u64
  ev_value :: 'v

record ('r, 'v) member_observation =
  ob_recipient :: 'r
  ob_version :: u64
  ob_value :: 'v

datatype member_evidence_error = UnknownRecipient | Stale | ConflictingVersion

type_synonym 'v evidences = "'v evidence option list"

definition evidence_observe :: "'v evidences \<Rightarrow> 'r list \<Rightarrow> ('r, 'v) member_observation
    \<Rightarrow> 'v evidences \<times> ((('r, 'v) member_observation, member_evidence_error) observation_rejection + unit)" where
  "evidence_observe es members ob =
     (let reject = (\<lambda>reason. (es, Inl \<lparr>rejected_observation = ob, rejected_reason = reason\<rparr>));
          fresh = Some \<lparr>ev_version = ob_version ob, ev_value = ob_value ob\<rparr>
      in case position (\<lambda>r. r = ob_recipient ob) members of
           None \<Rightarrow> reject UnknownRecipient
         | Some i \<Rightarrow>
             (if i \<ge> length es then reject UnknownRecipient
              else case es ! i of
                  None \<Rightarrow> (es[i := fresh], Inr ())
                | Some e \<Rightarrow>
                    (if ob_version ob < ev_version e then reject Stale
                     else if ob_version ob = ev_version e
                     then if ob_value ob = ev_value e then (es, Inr ()) else reject ConflictingVersion
                     else (es[i := fresh], Inr ()))))"

definition evidence_added :: "'v evidences \<Rightarrow> 'v evidences" where
  "evidence_added es = es @ [None]"

definition evidence_removed :: "'v evidences \<Rightarrow> nat \<Rightarrow> 'v evidences" where
  "evidence_removed es i = (if i < length es then remove_at i es else es)"

definition observed_values :: "nat \<Rightarrow> 'v evidences \<Rightarrow> (nat \<times> 'v) list" where
  "observed_values n es = observed_upto n (map (map_option ev_value) es)"

subsection \<open>Least loaded\<close>

type_synonym load = u64

definition ll_select :: "load evidences \<Rightarrow> 'r list \<Rightarrow> 'm \<Rightarrow> load evidences \<times> nat option" where
  "ll_select es members m =
     (es, map_option fst
            (min_by_key (\<lambda>(index, load). (load, index)) (observed_values (length members) es)))"

definition least_loaded_strategy ::
    "(load evidences, 'r, 'm, ('r, load) member_observation, member_evidence_error) routing_strategy" where
  "least_loaded_strategy =
     \<lparr>rs_select = ll_select, rs_observe = evidence_observe,
      rs_added = (\<lambda>es r. evidence_added es), rs_removed = (\<lambda>es i r n. evidence_removed es i)\<rparr>"

subsection \<open>Hashing\<close>

type_synonym member_token = u64

definition mixed_hash :: "u64 \<Rightarrow> u64 \<Rightarrow> u64" where
  "mixed_hash left right =
     (let v = left XOR word_rotl 32 right XOR 0x9E3779B97F4A7C15;
          v = (v XOR drop_bit 30 v) * 0xBF58476D1CE4E5B9;
          v = (v XOR drop_bit 27 v) * 0x94D049BB133111EB
      in v XOR drop_bit 31 v)"

record 'm consistent_hash =
  ch_membership :: "member_token evidences"
  ch_replicas :: "16 word"
  ch_hash_key :: "'m \<Rightarrow> u64"

text \<open>The ring points of every member with an observed token.\<close>

definition ch_points :: "16 word \<Rightarrow> (nat \<times> member_token) list \<Rightarrow> (u64 \<times> nat) list" where
  "ch_points replicas tokens =
     concat (map (\<lambda>(index, token).
       map (\<lambda>replica. (mixed_hash token (of_nat replica), index)) [0 ..< unat replicas]) tokens)"

definition ch_select :: "'m consistent_hash \<Rightarrow> 'r list \<Rightarrow> 'm \<Rightarrow> 'm consistent_hash \<times> nat option" where
  "ch_select s members m =
     (let key = ch_hash_key s m
      in (s, map_option snd
               (min_by_key (\<lambda>(point, index). (point < key, point, index))
                 (ch_points (ch_replicas s) (observed_values (length members) (ch_membership s))))))"

definition consistent_hash_strategy ::
    "('m consistent_hash, 'r, 'm, ('r, member_token) member_observation, member_evidence_error) routing_strategy" where
  "consistent_hash_strategy =
     \<lparr>rs_select = ch_select,
      rs_observe = (\<lambda>s members ob. apfst (\<lambda>es. s\<lparr>ch_membership := es\<rparr>) (evidence_observe (ch_membership s) members ob)),
      rs_added = (\<lambda>s r. s\<lparr>ch_membership := evidence_added (ch_membership s)\<rparr>),
      rs_removed = (\<lambda>s i r n. s\<lparr>ch_membership := evidence_removed (ch_membership s) i\<rparr>)\<rparr>"

record 'm rendezvous_hash =
  rv_membership :: "member_token evidences"
  rv_hash_key :: "'m \<Rightarrow> u64"

definition rv_less :: "u64 \<times> nat \<Rightarrow> u64 \<times> nat \<Rightarrow> bool" where
  "rv_less l r \<longleftrightarrow> fst l < fst r \<or> fst l = fst r \<and> snd r < snd l"

definition rv_select :: "'m rendezvous_hash \<Rightarrow> 'r list \<Rightarrow> 'm \<Rightarrow> 'm rendezvous_hash \<times> nat option" where
  "rv_select s members m =
     (let key = rv_hash_key s m
      in (s, map_option snd
               (max_by rv_less
                 (map (\<lambda>(index, token). (mixed_hash key token, index))
                   (observed_values (length members) (rv_membership s))))))"

definition rendezvous_hash_strategy ::
    "('m rendezvous_hash, 'r, 'm, ('r, member_token) member_observation, member_evidence_error) routing_strategy" where
  "rendezvous_hash_strategy =
     \<lparr>rs_select = rv_select,
      rs_observe = (\<lambda>s members ob. apfst (\<lambda>es. s\<lparr>rv_membership := es\<rparr>) (evidence_observe (rv_membership s) members ob)),
      rs_added = (\<lambda>s r. s\<lparr>rv_membership := evidence_added (rv_membership s)\<rparr>),
      rs_removed = (\<lambda>s i r n. s\<lparr>rv_membership := evidence_removed (rv_membership s) i\<rparr>)\<rparr>"

section \<open>The router\<close>

datatype ('r, 'm, 'o) router_message = AddRecipient 'r | RemoveRecipient 'r | Route 'm | Observe 'o

datatype ('m, 'o, 'e) router_error =
    NoEligibleRecipients 'm
  | InvalidSelection 'm nat nat
  | Policy 'o 'e

record ('r, 's) router =
  ro_recipients :: "'r list"
  ro_strategy :: 's

definition router_new :: "('s, 'r, 'm, 'o, 'e) routing_strategy \<Rightarrow> 'r list \<Rightarrow> 's \<Rightarrow> ('r, 's) router" where
  "router_new S recipients s =
     (let unique = unique_in_order recipients
      in \<lparr>ro_recipients = unique, ro_strategy = foldl (rs_added S) s unique\<rparr>)"

fun router_transition :: "('s, 'r, 'm, 'o, 'e) routing_strategy \<Rightarrow> ('r, 's) router \<Rightarrow> ('r, 'm, 'o) router_message
    \<Rightarrow> ('r, 's) router \<times> (('m, 'o, 'e) router_error + (('r, 'm) delivery list, never, never) actions)" where
  "router_transition S q (AddRecipient r) =
     (if r \<in> set (ro_recipients q) then q
      else \<lparr>ro_recipients = ro_recipients q @ [r], ro_strategy = rs_added S (ro_strategy q) r\<rparr>,
      Inr (cont vec_sends))"
| "router_transition S q (RemoveRecipient r) =
     (case position (\<lambda>x. x = r) (ro_recipients q) of
        Some i \<Rightarrow> \<lparr>ro_recipients = remove_at i (ro_recipients q),
                   ro_strategy = rs_removed S (ro_strategy q) i (ro_recipients q ! i)
                     (length (remove_at i (ro_recipients q)))\<rparr>
      | None \<Rightarrow> q,
      Inr (cont vec_sends))"
| "router_transition S q (Route m) =
     (case rs_select S (ro_strategy q) (ro_recipients q) m of
        (s, None) \<Rightarrow> (q, Inl (NoEligibleRecipients m))
      | (s, Some i) \<Rightarrow>
          (if i \<ge> length (ro_recipients q)
           then (q, Inl (InvalidSelection m i (length (ro_recipients q))))
           else (q\<lparr>ro_strategy := s\<rparr>, Inr (send_actions (deliver (ro_recipients q ! i) m)))))"
| "router_transition S q (Observe ob) =
     (case rs_observe S (ro_strategy q) (ro_recipients q) ob of
        (s, Inl rejection) \<Rightarrow> (q, Inl (Policy (rejected_observation rejection) (rejected_reason rejection)))
      | (s, Inr _) \<Rightarrow> (q\<lparr>ro_strategy := s\<rparr>, Inr (cont vec_sends)))"

section \<open>What the router relies on\<close>

definition router_ok :: "('s \<Rightarrow> 'r list \<Rightarrow> bool) \<Rightarrow> ('r, 's) router \<Rightarrow> bool" where
  "router_ok fits q \<longleftrightarrow> distinct (ro_recipients q) \<and> fits (ro_strategy q) (ro_recipients q)"

text \<open>A routed message goes to a member, whole, and the strategy is never out of range.\<close>

definition routes_to_member :: "('m, 'o, 'e) router_error + (('r, 'm) delivery list, never, never) actions \<Rightarrow> 'm
    \<Rightarrow> 'r list \<Rightarrow> bool" where
  "routes_to_member out m ms \<longleftrightarrow> (case out of
      Inl err \<Rightarrow> err = NoEligibleRecipients m
    | Inr a \<Rightarrow> (\<exists>r \<in> set ms. a = send_actions (deliver r m)))"

locale lawful_strategy =
  fixes S :: "('s, 'r, 'm, 'o, 'e) routing_strategy"
    and fits :: "'s \<Rightarrow> 'r list \<Rightarrow> bool"
  assumes select_in_range: "fits s ms \<Longrightarrow> snd (rs_select S s ms m) = Some i \<Longrightarrow> i < length ms"
    and select_fits: "fits s ms \<Longrightarrow> fits (fst (rs_select S s ms m)) ms"
    and observe_fits: "fits s ms \<Longrightarrow> fits (fst (rs_observe S s ms ob)) ms"
    and added_fits: "fits s ms \<Longrightarrow> fits (rs_added S s r) (ms @ [r])"
    and removed_fits: "fits s ms \<Longrightarrow> i < length ms \<Longrightarrow>
      fits (rs_removed S s i (ms ! i) (length ms - 1)) (remove_at i ms)"
begin

lemma added_list_fits: "fits s ms \<Longrightarrow> fits (foldl (rs_added S) s rs) (ms @ rs)"
proof (induction rs arbitrary: s ms)
  case (Cons r rs)
  from Cons.IH [OF added_fits [OF Cons.prems, of r]] show ?case by simp
qed simp

lemma router_new_ok: "fits s [] \<Longrightarrow> router_ok fits (router_new S recipients s)"
  using added_list_fits [of s "[]"] by (simp add: router_ok_def router_new_def Let_def)

lemma router_transition_ok: "router_ok fits q \<Longrightarrow> router_ok fits (fst (router_transition S q e))"
proof (cases e)
  case (RemoveRecipient r)
  assume ok: "router_ok fits q"
  show ?thesis
  proof (cases "position (\<lambda>x. x = r) (ro_recipients q)")
    case None
    with ok RemoveRecipient show ?thesis by (simp del: position_None_iff)
  next
    case (Some i)
    then have "i < length (ro_recipients q)" by (simp add: position_SomeD)
    with Some ok RemoveRecipient removed_fits show ?thesis by (simp add: router_ok_def)
  qed
next
  case (Route m)
  assume ok: "router_ok fits q"
  obtain s i where "rs_select S (ro_strategy q) (ro_recipients q) m = (s, i)" by fastforce
  moreover with ok select_fits [of "ro_strategy q" "ro_recipients q" m] have "fits s (ro_recipients q)"
    by (simp add: router_ok_def)
  ultimately show ?thesis using ok Route by (auto simp: router_ok_def split: option.splits)
next
  case (Observe ob)
  assume ok: "router_ok fits q"
  obtain s res where "rs_observe S (ro_strategy q) (ro_recipients q) ob = (s, res)" by fastforce
  moreover with ok observe_fits [of "ro_strategy q" "ro_recipients q" ob] have "fits s (ro_recipients q)"
    by (simp add: router_ok_def)
  ultimately show ?thesis using ok Observe by (auto simp: router_ok_def split: sum.splits)
qed (auto simp: router_ok_def added_fits)

lemma route_to_member:
  assumes "router_ok fits q"
  shows "routes_to_member (snd (router_transition S q (Route m))) m (ro_recipients q)"
proof (cases "rs_select S (ro_strategy q) (ro_recipients q) m")
  case (Pair s i)
  then show ?thesis
    using assms select_in_range [of "ro_strategy q" "ro_recipients q" m]
    by (cases i) (auto simp: routes_to_member_def router_ok_def)
qed

lemma router_run_ok: "router_ok fits q \<Longrightarrow> router_ok fits (run_state (router_transition S) q es)"
proof (induction es arbitrary: q)
  case (Cons e es)
  then show ?case by (simp add: router_transition_ok)
qed simp

end

locale stable_strategy = lawful_strategy S fits
  for S :: "('s, 'r, 'm, 'o, 'e) routing_strategy" and fits +
  assumes removed_selects: "fits s ms \<Longrightarrow> snd (rs_select S s ms m) = Some i \<Longrightarrow> d < length ms \<Longrightarrow> d \<noteq> i \<Longrightarrow>
    snd (rs_select S (rs_removed S s d (ms ! d) (length ms - 1)) (remove_at d ms) m)
      = Some (if d < i then i - 1 else i)"
    and select_keeps: "fst (rs_select S s ms m) = s"
begin

lemma nth_remove_at:
  "d < length ms \<Longrightarrow> d \<noteq> i \<Longrightarrow> i < length ms \<Longrightarrow> remove_at d ms ! (if d < i then i - 1 else i) = ms ! i"
  by (auto simp: remove_at_def nth_append min_def)

text \<open>Removing a recipient other than the selected one changes no selection.\<close>

lemma removal_keeps_selection:
  assumes "router_ok fits q" and "snd (router_transition S q (Route m)) = Inr (send_actions (deliver r m))"
    and "r' \<noteq> r"
  shows "snd (router_transition S (fst (router_transition S q (RemoveRecipient r'))) (Route m))
    = Inr (send_actions (deliver r m))"
proof -
  let ?ms = "ro_recipients q" and ?s = "ro_strategy q"
  have fits: "fits ?s ?ms" using assms(1) by (simp add: router_ok_def)
  obtain i where sel: "rs_select S ?s ?ms m = (?s, Some i)" and i: "i < length ?ms" "?ms ! i = r"
    using assms(2) select_keeps [of ?s ?ms m]
    by (cases "rs_select S ?s ?ms m"; cases "snd (rs_select S ?s ?ms m)")
      (auto simp: core_defs deliver_def split: if_splits)
  show ?thesis
  proof (cases "position (\<lambda>x. x = r') ?ms")
    case None
    then show ?thesis using assms(2) by (simp del: position_None_iff)
  next
    case (Some d)
    then have d: "d < length ?ms" "?ms ! d = r'" using position_SomeD by fastforce+
    with i assms(3) have "d \<noteq> i" by auto
    let ?i = "if d < i then i - 1 else i"
    let ?s' = "rs_removed S ?s d (?ms ! d) (length ?ms - 1)"
    from removed_selects [OF fits _ d(1) \<open>d \<noteq> i\<close>] sel
    have "rs_select S ?s' (remove_at d ?ms) m = (?s', Some ?i)"
      using select_keeps [of ?s' "remove_at d ?ms" m] by (simp add: prod_eq_iff)
    moreover have "?i < length (remove_at d ?ms)" using d i \<open>d \<noteq> i\<close> by auto
    moreover have "remove_at d ?ms ! ?i = r" using nth_remove_at [OF d(1) \<open>d \<noteq> i\<close> i(1)] i(2) by simp
    ultimately show ?thesis using Some d(1) by simp
  qed
qed

end

section \<open>Laws of the selections\<close>

lemma min_by_key_in: "min_by_key f xs = Some x \<Longrightarrow> x \<in> set xs"
  by (induction xs arbitrary: x) (auto split: option.splits if_splits)

lemma min_by_key_least: "min_by_key f xs = Some x \<Longrightarrow> y \<in> set xs \<Longrightarrow> f x \<le> f y"
proof (induction xs arbitrary: x y)
  case (Cons z zs)
  show ?case
  proof (cases "min_by_key f zs")
    case None
    then have "zs = []" by (cases zs) (auto split: option.splits if_splits)
    with Cons.prems show ?thesis by simp
  next
    case (Some w)
    from Cons.IH [OF Some] have "v \<in> set zs \<Longrightarrow> f w \<le> f v" for v by blast
    with Some Cons.prems show ?thesis by (fastforce split: if_splits)
  qed
qed simp

lemma min_by_key_None [simp]: "min_by_key f xs = None \<longleftrightarrow> xs = []"
  by (cases xs) (auto split: option.splits)

lemma min_by_key_filter:
  "min_by_key f xs = Some x \<Longrightarrow> P x \<Longrightarrow> min_by_key f (filter P xs) = Some x"
proof (induction xs arbitrary: x)
  case (Cons z zs)
  show ?case
  proof (cases "min_by_key f zs")
    case None
    with Cons.prems show ?thesis by simp
  next
    case (Some w)
    show ?thesis
    proof (cases "f w < f z")
      case True
      with Some Cons.prems have "x = w" by simp
      with Cons.IH [OF Some] Cons.prems True show ?thesis by simp
    next
      case False
      with Some Cons.prems have x: "x = z" by simp
      have "\<not> f v < f z" if "min_by_key f (filter P zs) = Some v" for v
      proof -
        from min_by_key_in [OF that] have "v \<in> set zs" by simp
        from min_by_key_least [OF Some this] False show ?thesis by simp
      qed
      with x Cons.prems(2) show ?thesis by (auto split: option.splits)
    qed
  qed
qed simp

lemma min_by_key_map:
  "(\<And>x y. x \<in> set xs \<Longrightarrow> y \<in> set xs \<Longrightarrow> f' (g x) < f' (g y) \<longleftrightarrow> f x < f y) \<Longrightarrow>
   min_by_key f' (map g xs) = map_option g (min_by_key f xs)"
proof (induction xs)
  case (Cons z zs)
  then have "min_by_key f' (map g zs) = map_option g (min_by_key f zs)" by simp
  with Cons.prems show ?case
    by (cases "min_by_key f zs") (auto dest: min_by_key_in)
qed simp

lemma max_by_in: "max_by lt xs = Some x \<Longrightarrow> x \<in> set xs"
  by (induction xs arbitrary: x) (auto split: option.splits if_splits)

lemma max_by_None [simp]: "max_by lt xs = None \<longleftrightarrow> xs = []"
  by (cases xs) (auto split: option.splits)

lemma rv_less_negtrans: "\<not> rv_less a b \<Longrightarrow> \<not> rv_less b c \<Longrightarrow> \<not> rv_less a c"
  by (auto simp: rv_less_def)

lemma rv_less_asym: "rv_less a b \<Longrightarrow> \<not> rv_less b a"
  by (auto simp: rv_less_def)

lemma max_by_greatest: "max_by rv_less xs = Some x \<Longrightarrow> y \<in> set xs \<Longrightarrow> \<not> rv_less x y"
proof (induction xs arbitrary: x y)
  case (Cons z zs)
  show ?case
  proof (cases "max_by rv_less zs")
    case None
    with Cons.prems show ?thesis by (auto simp: rv_less_def)
  next
    case (Some w)
    with Cons.IH have w: "v \<in> set zs \<Longrightarrow> \<not> rv_less w v" for v by blast
    show ?thesis
    proof (cases "rv_less w z")
      case True
      with Some Cons.prems have "x = z" by simp
      moreover have "\<not> rv_less z v" if "v \<in> set zs" for v
        using rv_less_negtrans [OF rv_less_asym [OF True] w [OF that]] .
      moreover have "\<not> rv_less z z" by (simp add: rv_less_def)
      ultimately show ?thesis using Cons.prems(2) by (cases "y = z") simp_all
    next
      case False
      with Some Cons.prems w show ?thesis by (cases "y = z") simp_all
    qed
  qed
qed simp

lemma max_by_filter:
  "max_by rv_less xs = Some x \<Longrightarrow> P x \<Longrightarrow> max_by rv_less (filter P xs) = Some x"
proof (induction xs arbitrary: x)
  case (Cons z zs)
  show ?case
  proof (cases "max_by rv_less zs")
    case None
    with Cons.prems show ?thesis by simp
  next
    case (Some w)
    show ?thesis
    proof (cases "rv_less w z")
      case False
      with Some Cons.prems have "x = w" by simp
      with Cons.IH [OF Some] Cons.prems False show ?thesis by simp
    next
      case True
      with Some Cons.prems have x: "x = z" by simp
      have "rv_less v z" if "max_by rv_less (filter P zs) = Some v" for v
      proof -
        from max_by_in [OF that] have "v \<in> set zs" by simp
        then have "\<not> rv_less w v" by (rule max_by_greatest [OF Some])
        with True show ?thesis using rv_less_negtrans by blast
      qed
      with x Cons.prems(2) show ?thesis by (auto split: option.splits)
    qed
  qed
qed simp

lemma max_by_map:
  "(\<And>x y. x \<in> set xs \<Longrightarrow> y \<in> set xs \<Longrightarrow> lt' (g x) (g y) \<longleftrightarrow> lt x y) \<Longrightarrow>
   max_by lt' (map g xs) = map_option g (max_by lt xs)"
proof (induction xs)
  case (Cons z zs)
  then have "max_by lt' (map g zs) = map_option g (max_by lt zs)" by simp
  with Cons.prems show ?case by (cases "max_by lt zs") (auto dest: max_by_in)
qed simp

subsection \<open>Observed members\<close>

lemma observed_upto_length:
  "length xs \<le> n \<Longrightarrow> observed_upto n xs = List.map_filter (\<lambda>(i, v). map_option (Pair i) v) (List.enumerate 0 xs)"
  by (simp add: observed_upto_def)

lemma observed_upto_in: "(i, v) \<in> set (observed_upto n xs) \<Longrightarrow> i < n \<and> i < length xs"
  by (auto simp: observed_upto_def List.map_filter_def in_set_enumerate_eq in_set_conv_nth nth_enumerate_eq)

definition shift :: "nat \<Rightarrow> nat \<Rightarrow> nat" where
  "shift d i = (if d < i then i - 1 else i)"

lemma shift_less: "i \<noteq> d \<Longrightarrow> j \<noteq> d \<Longrightarrow> shift d i < shift d j \<longleftrightarrow> i < j"
  by (auto simp: shift_def)

lemma shift_eq: "i \<noteq> d \<Longrightarrow> j \<noteq> d \<Longrightarrow> shift d i = shift d j \<longleftrightarrow> i = j"
  by (auto simp: shift_def)

abbreviation observed_from :: "nat \<Rightarrow> 'v option list \<Rightarrow> (nat \<times> 'v) list" where
  "observed_from k xs \<equiv> List.map_filter (\<lambda>(i, v). map_option (Pair i) v) (List.enumerate k xs)"

lemma observed_from_Cons:
  "observed_from k (v # xs) = (case v of None \<Rightarrow> [] | Some w \<Rightarrow> [(k, w)]) @ observed_from (Suc k) xs"
  by (auto simp: List.map_filter_simps split: option.splits)

lemma observed_from_append:
  "observed_from k (xs @ ys) = observed_from k xs @ observed_from (k + length xs) ys"
  by (simp add: enumerate_append_eq List.map_filter_def)

lemma observed_from_lower: "(i, v) \<in> set (observed_from k xs) \<Longrightarrow> k \<le> i \<and> i < k + length xs"
  by (auto simp: List.map_filter_def in_set_enumerate_eq)

lemma observed_from_Suc: "map (apfst (\<lambda>i. i - 1)) (observed_from (Suc k) xs) = observed_from k xs"
  by (induction xs arbitrary: k) (auto simp: observed_from_Cons List.map_filter_simps split: option.splits)

lemma observed_remove:
  assumes "d < length xs"
  shows "observed_from 0 (remove_at d xs)
    = map (apfst (shift d)) (filter (\<lambda>(i, v). i \<noteq> d) (observed_from 0 xs))"
proof -
  let ?low = "take d xs" and ?high = "drop (Suc d) xs"
  have len: "length ?low = d" using assms by simp
  have xs: "observed_from 0 xs = observed_from 0 ?low
      @ (case xs ! d of None \<Rightarrow> [] | Some w \<Rightarrow> [(d, w)]) @ observed_from (Suc d) ?high"
    using assms len observed_from_append [of 0 ?low "xs ! d # ?high"] observed_from_Cons [of d "xs ! d" ?high]
    by (simp add: id_take_nth_drop [symmetric])
  have low: "filter (\<lambda>(i, v). i \<noteq> d) (observed_from 0 ?low) = observed_from 0 ?low"
    "map (apfst (shift d)) (observed_from 0 ?low) = observed_from 0 ?low"
    using observed_from_lower [of _ _ 0 ?low] len
    by (auto intro!: filter_True map_idI simp: shift_def) fastforce+
  have high: "filter (\<lambda>(i, v). i \<noteq> d) (observed_from (Suc d) ?high) = observed_from (Suc d) ?high"
    by (rule filter_True) (auto dest: observed_from_lower)
  have "map (apfst (shift d)) (observed_from (Suc d) ?high) = map (apfst (\<lambda>i. i - 1)) (observed_from (Suc d) ?high)"
    by (rule map_cong [OF refl]) (auto simp: shift_def dest: observed_from_lower)
  then have "map (apfst (shift d)) (observed_from (Suc d) ?high) = observed_from d ?high"
    by (simp only: observed_from_Suc)
  moreover have "observed_from 0 (remove_at d xs) = observed_from 0 ?low @ observed_from d ?high"
    by (simp only: remove_at_def observed_from_append len add_0)
  moreover have "filter (\<lambda>(i, v). i \<noteq> d) (case xs ! d of None \<Rightarrow> [] | Some w \<Rightarrow> [(d, w)]) = []"
    by (simp split: option.splits)
  ultimately show ?thesis by (simp add: xs low high)
qed

lemma observed_values_all:
  "length es = n \<Longrightarrow> observed_values n es = observed_from 0 (map (map_option ev_value) es)"
  by (simp add: observed_values_def observed_upto_length)

lemma observed_values_removed:
  assumes "length es = n" and "d < n"
  shows "observed_values (n - 1) (evidence_removed es d)
    = map (apfst (shift d)) (filter (\<lambda>(i, v). i \<noteq> d) (observed_values n es))"
  using assms observed_remove [of d "map (map_option ev_value) es"]
  by (simp add: observed_values_all evidence_removed_def)

lemma observed_values_in: "(i, v) \<in> set (observed_values n es) \<Longrightarrow> i < n"
  using observed_upto_in by (fastforce simp: observed_values_def)

lemma length_evidence_observe: "length (fst (evidence_observe es ms ob)) = length es"
  by (auto simp: evidence_observe_def Let_def split: option.splits)

lemma length_evidence_removed: "i < length es \<Longrightarrow> length (evidence_removed es i) = length es - 1"
  by (simp add: evidence_removed_def)

section \<open>The strategies are lawful\<close>

definition rr_fits :: "round_robin \<Rightarrow> 'r list \<Rightarrow> bool" where
  "rr_fits s ms \<longleftrightarrow> rr_next s = 0 \<or> rr_next s < length ms"

definition evidence_fits :: "('s \<Rightarrow> 'v evidences) \<Rightarrow> 's \<Rightarrow> 'r list \<Rightarrow> bool" where
  "evidence_fits es s ms \<longleftrightarrow> length (es s) = length ms"

interpretation round_robin: lawful_strategy "round_robin_strategy :: (_, 'r, 'm, _, _) routing_strategy" rr_fits
  by unfold_locales (auto simp: round_robin_strategy_def rr_fits_def rr_select_def rr_removed_def Let_def
      split: if_splits)

lemma ll_removed_selects:
  assumes "length es = length ms" and "snd (ll_select es ms m) = Some i" and "d < length ms" and "d \<noteq> i"
  shows "snd (ll_select (evidence_removed es d) (remove_at d ms) m') = Some (shift d i)"
proof -
  let ?key = "\<lambda>(index, load). (load :: load, index :: nat)" and ?L = "observed_values (length ms) es"
  from assms(2) obtain l where "min_by_key ?key ?L = Some (i, l)" by (auto simp: ll_select_def)
  then have "min_by_key ?key (filter (\<lambda>(i, v). i \<noteq> d) ?L) = Some (i, l)"
    by (rule min_by_key_filter) (use assms(4) in simp)
  then have "min_by_key ?key (map (apfst (shift d)) (filter (\<lambda>(i, v). i \<noteq> d) ?L)) = Some (shift d i, l)"
    by (subst min_by_key_map [where f = ?key]) (auto simp: shift_less less_prod_def)
  then show ?thesis
    using observed_values_removed [OF assms(1,3)] assms(3) by (simp add: ll_select_def)
qed

interpretation least_loaded: stable_strategy
  "least_loaded_strategy :: (_, 'r, 'm, _, _) routing_strategy" "evidence_fits (\<lambda>es. es)"
proof
  show "evidence_fits (\<lambda>es. es) s ms \<Longrightarrow> snd (rs_select least_loaded_strategy s ms m) = Some i \<Longrightarrow> i < length ms"
    for s and ms :: "'r list" and m :: 'm and i
    by (auto simp: least_loaded_strategy_def ll_select_def dest!: min_by_key_in observed_values_in)
  show "evidence_fits (\<lambda>es. es) s ms \<Longrightarrow> snd (rs_select least_loaded_strategy s ms m) = Some i \<Longrightarrow>
      d < length ms \<Longrightarrow> d \<noteq> i \<Longrightarrow>
      snd (rs_select least_loaded_strategy (rs_removed least_loaded_strategy s d (ms ! d) (length ms - 1))
        (remove_at d ms) m) = Some (if d < i then i - 1 else i)"
    for s and ms :: "'r list" and m :: 'm and i d
    using ll_removed_selects [of s ms m i d m]
    by (simp add: least_loaded_strategy_def evidence_fits_def shift_def)
qed (auto simp: least_loaded_strategy_def evidence_fits_def ll_select_def length_evidence_observe
    evidence_added_def length_evidence_removed)

lemma ch_points_removed:
  "ch_points n (map (apfst (shift d)) (filter (\<lambda>(i, v). i \<noteq> d) L))
     = map (apsnd (shift d)) (filter (\<lambda>(p, i). i \<noteq> d) (ch_points n L))"
  by (induction L) (auto simp: ch_points_def filter_concat comp_def)

lemma ch_points_in: "(p, i) \<in> set (ch_points n L) \<Longrightarrow> \<exists>v. (i, v) \<in> set L"
  by (auto simp: ch_points_def)

lemma ch_removed_selects:
  assumes "length (ch_membership s) = length ms" and "snd (ch_select s ms m) = Some i"
    and "d < length ms" and "d \<noteq> i"
  shows "snd (ch_select (s\<lparr>ch_membership := evidence_removed (ch_membership s) d\<rparr>) (remove_at d ms) m)
    = Some (shift d i)"
proof -
  let ?key = "\<lambda>(point, index). (point < ch_hash_key s m, point :: u64, index :: nat)"
  let ?P = "ch_points (ch_replicas s) (observed_values (length ms) (ch_membership s))"
  from assms(2) obtain p where "min_by_key ?key ?P = Some (p, i)" by (auto simp: ch_select_def Let_def)
  then have "min_by_key ?key (filter (\<lambda>(p, i). i \<noteq> d) ?P) = Some (p, i)"
    by (rule min_by_key_filter) (use assms(4) in simp)
  then have "min_by_key ?key (map (apsnd (shift d)) (filter (\<lambda>(p, i). i \<noteq> d) ?P)) = Some (p, shift d i)"
    by (subst min_by_key_map [where f = ?key]) (auto simp: shift_less less_prod_def)
  then show ?thesis
    using observed_values_removed [OF assms(1,3)] assms(3)
    by (simp add: ch_select_def Let_def ch_points_removed)
qed

interpretation consistent_hash: stable_strategy
  "consistent_hash_strategy :: (_, 'r, 'm, _, _) routing_strategy" "evidence_fits ch_membership"
proof
  show "evidence_fits ch_membership s ms \<Longrightarrow> snd (rs_select consistent_hash_strategy s ms m) = Some i \<Longrightarrow> i < length ms"
    for s and ms :: "'r list" and m :: 'm and i
    by (auto simp: consistent_hash_strategy_def ch_select_def Let_def
        dest!: min_by_key_in ch_points_in observed_values_in)
  show "evidence_fits ch_membership s ms \<Longrightarrow> snd (rs_select consistent_hash_strategy s ms m) = Some i \<Longrightarrow>
      d < length ms \<Longrightarrow> d \<noteq> i \<Longrightarrow>
      snd (rs_select consistent_hash_strategy (rs_removed consistent_hash_strategy s d (ms ! d) (length ms - 1))
        (remove_at d ms) m) = Some (if d < i then i - 1 else i)"
    for s and ms :: "'r list" and m :: 'm and i d
    using ch_removed_selects [of s ms m i d]
    by (simp add: consistent_hash_strategy_def evidence_fits_def shift_def)
qed (auto simp: consistent_hash_strategy_def evidence_fits_def ch_select_def Let_def length_evidence_observe
    evidence_added_def length_evidence_removed)

lemma rv_removed_selects:
  assumes "length (rv_membership s) = length ms" and "snd (rv_select s ms m) = Some i"
    and "d < length ms" and "d \<noteq> i"
  shows "snd (rv_select (s\<lparr>rv_membership := evidence_removed (rv_membership s) d\<rparr>) (remove_at d ms) m)
    = Some (shift d i)"
proof -
  let ?score = "\<lambda>(index, token). (mixed_hash (rv_hash_key s m) token, index :: nat)"
  let ?L = "observed_values (length ms) (rv_membership s)"
  from assms(2) obtain p where "max_by rv_less (map ?score ?L) = Some (p, i)"
    by (auto simp: rv_select_def Let_def)
  then have "max_by rv_less (filter (\<lambda>(p, i). i \<noteq> d) (map ?score ?L)) = Some (p, i)"
    by (rule max_by_filter) (use assms(4) in simp)
  then have "max_by rv_less (map (apsnd (shift d)) (filter (\<lambda>(p, i). i \<noteq> d) (map ?score ?L))) = Some (p, shift d i)"
    by (subst max_by_map [where lt = rv_less]) (auto simp: shift_less rv_less_def)
  moreover have "map ?score (map (apfst (shift d)) (filter (\<lambda>(i, v). i \<noteq> d) ?L))
      = map (apsnd (shift d)) (filter (\<lambda>(p, i). i \<noteq> d) (map ?score ?L))"
    by (simp add: filter_map comp_def case_prod_unfold)
  ultimately show ?thesis
    using observed_values_removed [OF assms(1,3)] assms(3) by (simp add: rv_select_def Let_def)
qed

interpretation rendezvous_hash: stable_strategy
  "rendezvous_hash_strategy :: (_, 'r, 'm, _, _) routing_strategy" "evidence_fits rv_membership"
proof
  show "evidence_fits rv_membership s ms \<Longrightarrow> snd (rs_select rendezvous_hash_strategy s ms m) = Some i \<Longrightarrow> i < length ms"
    for s and ms :: "'r list" and m :: 'm and i
    by (auto simp: rendezvous_hash_strategy_def rv_select_def Let_def
        dest!: max_by_in observed_values_in)
  show "evidence_fits rv_membership s ms \<Longrightarrow> snd (rs_select rendezvous_hash_strategy s ms m) = Some i \<Longrightarrow>
      d < length ms \<Longrightarrow> d \<noteq> i \<Longrightarrow>
      snd (rs_select rendezvous_hash_strategy (rs_removed rendezvous_hash_strategy s d (ms ! d) (length ms - 1))
        (remove_at d ms) m) = Some (if d < i then i - 1 else i)"
    for s and ms :: "'r list" and m :: 'm and i d
    using rv_removed_selects [of s ms m i d]
    by (simp add: rendezvous_hash_strategy_def evidence_fits_def shift_def)
qed (auto simp: rendezvous_hash_strategy_def evidence_fits_def rv_select_def Let_def length_evidence_observe
    evidence_added_def length_evidence_removed)

section \<open>Properties\<close>

text \<open>
  A router with a lawful strategy, in any state it reaches from its construction, never
  makes an invalid selection: a routed message is delivered, unchanged, to exactly one current
  recipient, or returned when none is eligible. The recipients are never listed twice.
\<close>

theorem router_delivers_to_members:
  assumes "lawful_strategy S fits" and "fits s []"
    and "q = run_state (router_transition S) (router_new S recipients s) es"
  shows "routes_to_member (snd (router_transition S q (Route m))) m (ro_recipients q)
    \<and> distinct (ro_recipients q)"
proof -
  have "router_ok fits q" unfolding assms(3)
    by (intro lawful_strategy.router_run_ok [OF assms(1)] lawful_strategy.router_new_ok [OF assms(1,2)])
  then show ?thesis using lawful_strategy.route_to_member [OF assms(1)] by (simp add: router_ok_def)
qed

theorem router_delivers_to_members_witness:
  "let S = (round_robin_strategy :: (_, nat, nat, _, _) routing_strategy);
       q = run_state (router_transition S) (router_new S [3, 4, 3] \<lparr>rr_next = 0\<rparr>) [RemoveRecipient 3]
   in routes_to_member (snd (router_transition S q (Route 9))) 9 (ro_recipients q)
      \<and> distinct (ro_recipients q)"
  unfolding Let_def
  by (rule router_delivers_to_members [OF round_robin.lawful_strategy_axioms _ refl])
    (simp add: rr_fits_def)

lemma round_robin_run:
  assumes "ro_recipients q = rs" and "rs \<noteq> []" and "rr_next (ro_strategy q) < length rs"
  shows "run (router_transition round_robin_strategy) q (map Route ms)
    = (q\<lparr>ro_strategy := \<lparr>rr_next = (rr_next (ro_strategy q) + length ms) mod length rs\<rparr>\<rparr>,
       map2 (\<lambda>j m. Inr (send_actions (deliver (rs ! ((rr_next (ro_strategy q) + j) mod length rs)) m)))
         [0 ..< length ms] ms)"
  using assms
proof (induction ms arbitrary: q)
  case Nil
  then show ?case by (cases q; cases "ro_strategy q") simp
next
  case (Cons m ms)
  let ?n = "rr_next (ro_strategy q)"
  let ?q = "q\<lparr>ro_strategy := (ro_strategy q)\<lparr>rr_next := Suc ?n mod length rs\<rparr>\<rparr>"
  have step: "router_transition round_robin_strategy q (Route m) = (?q, Inr (send_actions (deliver (rs ! ?n) m)))"
    using Cons.prems by (simp add: round_robin_strategy_def rr_select_def Let_def)
  have zip: "map2 f [0 ..< Suc (length ms)] (m # ms) = f 0 m # map2 (\<lambda>j. f (Suc j)) [0 ..< length ms] ms"
    for f :: "nat \<Rightarrow> _ \<Rightarrow> _"
    by (simp add: upt_conv_Cons map_Suc_upt [symmetric] zip_map1 comp_def case_prod_unfold del: upt_Suc)
  have "Suc ?n mod length rs < length rs" using Cons.prems(2) by simp
  with Cons.IH [of ?q] Cons.prems show ?case
    by (simp add: step zip mod_simps del: upt_Suc router_transition.simps)
qed

text \<open>
  Round robin is fair: as many messages as there are recipients go to the recipients in
  turn, starting at the cursor, each recipient exactly once, and leave the router as it was.
\<close>

theorem round_robin_serves_each_once:
  assumes "ro_recipients q \<noteq> []" and "rr_next (ro_strategy q) < length (ro_recipients q)"
    and "length ms = length (ro_recipients q)"
  shows "run (router_transition round_robin_strategy) q (map Route ms)
    = (q, map2 (\<lambda>r m. Inr (send_actions (deliver r m))) (rotate (rr_next (ro_strategy q)) (ro_recipients q)) ms)"
proof -
  let ?rs = "ro_recipients q" and ?n = "rr_next (ro_strategy q)"
  have "rotate ?n ?rs = map (\<lambda>j. ?rs ! ((?n + j) mod length ?rs)) [0 ..< length ms]"
    using assms(3) by (auto intro: nth_equalityI simp: nth_rotate)
  moreover have "(?n + length ms) mod length ?rs = ?n" using assms(2,3) by simp
  moreover have "q\<lparr>ro_strategy := \<lparr>rr_next = ?n\<rparr>\<rparr> = q" by (cases q; cases "ro_strategy q") simp
  ultimately show ?thesis
    using round_robin_run [OF refl assms(1,2), of ms]
    by (simp add: zip_map1 comp_def case_prod_unfold)
qed

theorem round_robin_serves_each_once_witness:
  "run (router_transition round_robin_strategy) \<lparr>ro_recipients = [3 :: nat, 4], ro_strategy = \<lparr>rr_next = 1\<rparr>\<rparr>
      (map Route [8 :: nat, 9])
    = (\<lparr>ro_recipients = [3, 4], ro_strategy = \<lparr>rr_next = 1\<rparr>\<rparr>,
       map2 (\<lambda>r m. Inr (send_actions (deliver r m))) [4, 3] [8, 9])"
  using round_robin_serves_each_once [of "\<lparr>ro_recipients = [3 :: nat, 4], ro_strategy = \<lparr>rr_next = 1\<rparr>\<rparr>" "[8 :: nat, 9]"]
  by simp

text \<open>A router whose only member with an observed token is the first of two.\<close>

definition observed_first :: "member_token evidences" where
  "observed_first = [Some \<lparr>ev_version = 0, ev_value = 5\<rparr>, None]"

lemma observed_first_simps:
  "observed_values 2 observed_first = [(0, 5)]" "observed_values (Suc (Suc 0)) observed_first = [(0, 5)]"
  by (simp_all add: observed_values_def observed_upto_def observed_first_def List.map_filter_simps)

text \<open>
  C37: Consistent hashing is stable: when a recipient leaves the router, every message that did
  not go to it goes to the same recipient as before.
\<close>

theorem consistent_hash_removal_is_stable:
  assumes "router_ok (evidence_fits ch_membership) q"
    and "snd (router_transition consistent_hash_strategy q (Route m)) = Inr (send_actions (deliver r m))"
    and "r' \<noteq> r"
  shows "snd (router_transition consistent_hash_strategy
      (fst (router_transition consistent_hash_strategy q (RemoveRecipient r'))) (Route m))
    = Inr (send_actions (deliver r m))"
  using assms by (rule consistent_hash.removal_keeps_selection)

theorem consistent_hash_removal_is_stable_witness:
  "let q = \<lparr>ro_recipients = [3 :: nat, 4], ro_strategy =
        \<lparr>ch_membership = observed_first, ch_replicas = 1, ch_hash_key = (\<lambda>m :: nat. 0)\<rparr>\<rparr>
   in snd (router_transition consistent_hash_strategy
        (fst (router_transition consistent_hash_strategy q (RemoveRecipient 4))) (Route 9))
      = Inr (send_actions (deliver 3 9))"
  unfolding Let_def
  by (rule consistent_hash_removal_is_stable)
    (simp_all add: router_ok_def evidence_fits_def observed_first_simps consistent_hash_strategy_def
      ch_select_def ch_points_def, simp add: observed_first_def)

text \<open>
  Rendezvous hashing is stable in the same sense, and so is the choice of the least loaded
  recipient.
\<close>

theorem rendezvous_hash_removal_is_stable:
  assumes "router_ok (evidence_fits rv_membership) q"
    and "snd (router_transition rendezvous_hash_strategy q (Route m)) = Inr (send_actions (deliver r m))"
    and "r' \<noteq> r"
  shows "snd (router_transition rendezvous_hash_strategy
      (fst (router_transition rendezvous_hash_strategy q (RemoveRecipient r'))) (Route m))
    = Inr (send_actions (deliver r m))"
  using assms by (rule rendezvous_hash.removal_keeps_selection)

theorem rendezvous_hash_removal_is_stable_witness:
  "let q = \<lparr>ro_recipients = [3 :: nat, 4], ro_strategy =
        \<lparr>rv_membership = observed_first, rv_hash_key = (\<lambda>m :: nat. 0)\<rparr>\<rparr>
   in snd (router_transition rendezvous_hash_strategy
        (fst (router_transition rendezvous_hash_strategy q (RemoveRecipient 4))) (Route 9))
      = Inr (send_actions (deliver 3 9))"
  unfolding Let_def
  by (rule rendezvous_hash_removal_is_stable)
    (simp_all add: router_ok_def evidence_fits_def observed_first_simps rendezvous_hash_strategy_def
      rv_select_def, simp add: observed_first_def)

end
