(* ===== verification/Barrier.thy ===== *)
theory Barrier
  imports Behavior_Core Keyed_Vec
begin

text \<open>
  \<^verbatim>\<open>workflow/barrier.rs\<close>: a cyclic barrier over a fixed membership. Members arrive for the current
  generation; the last arrival releases all of them and opens the next generation.
\<close>

section \<open>State and fold\<close>

type_synonym barrier_generation = u64

datatype barrier_released = BarrierReleased barrier_generation

record ('k, 'r) barrier_message =
  bm_generation :: barrier_generation
  bm_participant :: 'k
  bm_reply_to :: 'r

record ('k, 'r) barrier_arrival =
  arrival_participant :: 'k
  arrival_reply_to :: 'r

datatype ('k, 'r) barrier_state =
    Gathering barrier_generation "('k, 'r) barrier_arrival list"
  | BarrierExhausted barrier_generation

datatype 'k barrier_config_error = EmptyMembership | DuplicateMember 'k

text \<open>The loop over \<^verbatim>\<open>members[..index].contains(participant)\<close>: the first member seen before.\<close>

fun first_duplicate :: "'k list \<Rightarrow> 'k list \<Rightarrow> 'k option" where
  "first_duplicate seen [] = None"
| "first_duplicate seen (k # ks) = (if k \<in> set seen then Some k else first_duplicate (seen @ [k]) ks)"

definition barrier_membership_new :: "'k list \<Rightarrow> 'k barrier_config_error + 'k list" where
  "barrier_membership_new members =
     (if members = [] then Inl EmptyMembership
      else case first_duplicate [] members of
          Some k \<Rightarrow> Inl (DuplicateMember k)
        | None \<Rightarrow> Inr members)"

datatype ('k, 'r) barrier_error =
    UnknownParticipant 'k 'r
  | DuplicateArrival 'k barrier_generation 'r
  | StaleArrival 'k barrier_generation barrier_generation 'r
  | FutureArrival 'k barrier_generation barrier_generation 'r
  | ArrivalExhausted 'k barrier_generation 'r

record ('k, 'r) barrier =
  ba_members :: "'k list"
  ba_state :: "('k, 'r) barrier_state"

definition barrier_new :: "'k list \<Rightarrow> ('k, 'r) barrier" where
  "barrier_new members = \<lparr>ba_members = members, ba_state = Gathering 0 []\<rparr>"

type_synonym ('k, 'r) barrier_result =
  "('k, 'r) barrier_error + (('r, barrier_released) delivery list, never, never) actions"

definition barrier_arrive :: "'k list \<Rightarrow> barrier_generation \<Rightarrow> ('k, 'r) barrier_arrival list
    \<Rightarrow> ('k, 'r) barrier_state \<times> (('r, barrier_released) delivery list, never, never) actions" where
  "barrier_arrive members g arrivals =
     (if length arrivals < length members then (Gathering g arrivals, cont vec_sends)
      else (case checked_add g 1 of
              None \<Rightarrow> BarrierExhausted g
            | Some next \<Rightarrow> Gathering next [],
            send_actions (foldl (append_sends vec_sends) (empty_sends vec_sends)
              (map (\<lambda>a. deliver (arrival_reply_to a) (BarrierReleased g)) arrivals))))"

definition barrier_transition :: "('k, 'r) barrier \<Rightarrow> ('k, 'r) barrier_message
    \<Rightarrow> ('k, 'r) barrier \<times> ('k, 'r) barrier_result" where
  "barrier_transition b msg =
     (let observed = bm_generation msg; k = bm_participant msg; r = bm_reply_to msg in
      if k \<notin> set (ba_members b) then (b, Inl (UnknownParticipant k r))
      else case ba_state b of
          BarrierExhausted g \<Rightarrow> (b, Inl (ArrivalExhausted k g r))
        | Gathering current arrivals \<Rightarrow>
            (if observed < current then (b, Inl (StaleArrival k observed current r))
             else if observed > current then (b, Inl (FutureArrival k observed current r))
             else if k \<in> arrival_participant ` set arrivals then (b, Inl (DuplicateArrival k current r))
             else case barrier_arrive (ba_members b) current
                         (arrivals @ [\<lparr>arrival_participant = k, arrival_reply_to = r\<rparr>]) of
                    (st, a) \<Rightarrow> (b\<lparr>ba_state := st\<rparr>, Inr a)))"

section \<open>Whole generations\<close>

definition barrier_ok :: "'k list \<Rightarrow> ('k, 'r) barrier \<Rightarrow> bool" where
  "barrier_ok ms b \<longleftrightarrow> ba_members b = ms \<and> ms \<noteq> [] \<and> distinct ms
     \<and> (case ba_state b of
          Gathering g as \<Rightarrow> distinct (map arrival_participant as)
            \<and> set (map arrival_participant as) \<subseteq> set ms \<and> length as < length ms
        | BarrierExhausted g \<Rightarrow> True)"

lemma first_duplicate_None_iff:
  "first_duplicate seen ks = None \<longleftrightarrow> distinct ks \<and> set ks \<inter> set seen = {}"
  by (induction ks arbitrary: seen) auto

lemma membership_distinct: "barrier_membership_new ms = Inr ms' \<longleftrightarrow> ms' = ms \<and> ms \<noteq> [] \<and> distinct ms"
  by (auto simp: barrier_membership_new_def first_duplicate_None_iff split: option.splits)
    (metis first_duplicate_None_iff inf_bot_right list.set(1) option.distinct(1))

lemma barrier_transition_ok:
  assumes "barrier_ok ms b"
  shows "barrier_ok ms (fst (barrier_transition b msg))"
proof (cases "ba_state b")
  case (Gathering g as)
  then show ?thesis using assms
    by (auto simp: barrier_ok_def barrier_transition_def barrier_arrive_def Let_def split: option.splits)
next
  case (BarrierExhausted g)
  then show ?thesis using assms by (auto simp: barrier_transition_def Let_def)
qed

interpretation barrier: fold_invariant barrier_transition "barrier_ok ms" for ms
  by unfold_locales (rule barrier_transition_ok)

text \<open>The release of a generation: one message to each arrival, in arrival order.\<close>

definition released_to :: "('k, 'r) barrier_arrival list \<Rightarrow> barrier_generation \<Rightarrow> ('r, barrier_released) delivery list" where
  "released_to as g = concat (map (\<lambda>a. deliver (arrival_reply_to a) (BarrierReleased g)) as)"

definition releases_whole :: "('k, 'r) barrier \<Rightarrow> ('k, 'r) barrier_message \<Rightarrow> bool" where
  "releases_whole b msg \<longleftrightarrow>
     (case barrier_transition b msg of
        (b', Inl err) \<Rightarrow> b' = b
      | (b', Inr a) \<Rightarrow>
          (\<exists>g as. ba_state b = Gathering g as \<and> bm_generation msg = g
            \<and> (let all = as @ [\<lparr>arrival_participant = bm_participant msg, arrival_reply_to = bm_reply_to msg\<rparr>]
               in if set (map arrival_participant all) = set (ba_members b)
                  then sends a = released_to all g \<and> distinct (map arrival_participant all)
                       \<and> ba_state b' = (case checked_add g 1 of None \<Rightarrow> BarrierExhausted g | Some n \<Rightarrow> Gathering n [])
                  else sends a = [] \<and> ba_state b' = Gathering g all)))"

lemma full_iff:
  assumes "distinct ks" and "set ks \<subseteq> set ms" and "distinct ms"
  shows "set ks = set ms \<longleftrightarrow> \<not> length ks < length ms"
proof -
  have "length ks = card (set ks)" "length ms = card (set ms)"
    using assms by (simp_all add: distinct_card)
  moreover have "card (set ks) < card (set ms)" if "set ks \<noteq> set ms"
    using that assms(2) by (intro psubset_card_mono) auto
  ultimately show ?thesis using card_mono [OF _ assms(2)] by (cases "set ks = set ms") auto
qed

lemma barrier_releases:
  assumes "barrier_ok ms b"
  shows "releases_whole b msg"
proof (cases "ba_state b")
  case (BarrierExhausted g)
  then show ?thesis by (auto simp: releases_whole_def barrier_transition_def Let_def)
next
  case (Gathering g as)
  let ?all = "as @ [\<lparr>arrival_participant = bm_participant msg, arrival_reply_to = bm_reply_to msg\<rparr>]"
  show ?thesis
  proof (cases "bm_participant msg \<in> set (ba_members b) \<and> bm_generation msg = g
      \<and> bm_participant msg \<notin> arrival_participant ` set as")
    case False
    with Gathering show ?thesis by (auto simp: releases_whole_def barrier_transition_def Let_def)
  next
    case True
    with Gathering assms have all: "distinct (map arrival_participant ?all)"
      "set (map arrival_participant ?all) \<subseteq> set (ba_members b)" "distinct (ba_members b)"
      by (auto simp: barrier_ok_def)
    have step: "barrier_transition b msg
        = (case barrier_arrive (ba_members b) g ?all of (st, a) \<Rightarrow> (b\<lparr>ba_state := st\<rparr>, Inr a))"
      using True Gathering by (simp add: barrier_transition_def Let_def)
    from full_iff [OF all] have "set (map arrival_participant ?all) = set (ba_members b)
        \<longleftrightarrow> \<not> length ?all < length (ba_members b)" by simp
    then show ?thesis
      using True Gathering all(1)
      by (simp add: releases_whole_def step barrier_arrive_def core_defs released_to_def
          foldl_append_concat Let_def del: set_map map_append)
  qed
qed

text \<open>
  In every state a barrier of a valid membership reaches, a message either is an error that
  changes nothing, or is the arrival of a member for the current generation that had not
  arrived: it is recorded, and exactly when all members have then arrived every one of them is
  released once, in arrival order, with that generation, and the next generation begins.
\<close>

theorem barrier_releases_whole_generations:
  assumes "barrier_membership_new members = Inr ms"
    and "b = run_state barrier_transition (barrier_new ms) es"
  shows "releases_whole b msg"
proof -
  have "barrier_ok ms (barrier_new ms)"
    using assms(1) by (auto simp: membership_distinct barrier_ok_def barrier_new_def)
  then show ?thesis unfolding assms(2) by (intro barrier_releases barrier.run_inv)
qed

theorem barrier_releases_whole_generations_witness:
  "releases_whole
     (run_state barrier_transition (barrier_new [1 :: nat, 2])
        [\<lparr>bm_generation = 0, bm_participant = 2, bm_reply_to = 20 :: nat\<rparr>])
     \<lparr>bm_generation = 0, bm_participant = 1, bm_reply_to = 10\<rparr>"
  by (rule barrier_releases_whole_generations [of "[1, 2]", OF _ refl]) (simp add: membership_distinct)

end
