(* ===== verification/Workflow.thy ===== *)
theory Workflow
  imports Behavior_Core Keyed_Vec
begin

text \<open>
  \<^verbatim>\<open>workflow/coordinator.rs\<close>: a workflow of steps with dependencies. The definition is validated
  once; a running workflow activates a step when all its prerequisites are completed.
\<close>

section \<open>Definition and validation\<close>

record 'k workflow_definition =
  wd_steps :: "'k list"
  wd_dependencies :: "('k \<times> 'k) list"

datatype 'k workflow_config_error =
    WorkflowEmpty
  | DuplicateStep 'k
  | UnknownPrerequisite 'k
  | UnknownDependent 'k
  | SelfDependency 'k
  | WorkflowCycle

fun duplicate_step :: "'k list \<Rightarrow> 'k list \<Rightarrow> 'k option" where
  "duplicate_step seen [] = None"
| "duplicate_step seen (k # ks) = (if k \<in> set seen then Some k else duplicate_step (seen @ [k]) ks)"

fun check_dependencies :: "'k list \<Rightarrow> ('k \<times> 'k) list \<Rightarrow> 'k workflow_config_error option" where
  "check_dependencies steps [] = None"
| "check_dependencies steps ((required, dependent) # ds) =
     (if required \<notin> set steps then Some (UnknownPrerequisite required)
      else if dependent \<notin> set steps then Some (UnknownDependent dependent)
      else if required = dependent then Some (SelfDependency required)
      else check_dependencies steps ds)"

text \<open>Whether all prerequisites of a step are in a list.\<close>

definition prerequisites_in :: "('k \<times> 'k) list \<Rightarrow> 'k list \<Rightarrow> 'k \<Rightarrow> bool" where
  "prerequisites_in deps done step \<longleftrightarrow>
     list_all (\<lambda>(required, dependent). required \<in> set done) (filter (\<lambda>(required, dependent). dependent = step) deps)"

text \<open>One pass over the steps, and the loop that repeats it until all are reached or none is new.\<close>

fun reach_pass :: "('k \<times> 'k) list \<Rightarrow> 'k list \<Rightarrow> 'k list \<Rightarrow> 'k list" where
  "reach_pass deps reached [] = reached"
| "reach_pass deps reached (step # steps) =
     reach_pass deps
       (if step \<notin> set reached \<and> prerequisites_in deps reached step then reached @ [step] else reached) steps"

lemma length_reach_pass: "length reached \<le> length (reach_pass deps reached steps)"
proof (induction steps arbitrary: reached)
  case (Cons step steps)
  have "length reached \<le> length (if step \<notin> set reached \<and> prerequisites_in deps reached step then reached @ [step] else reached)"
    by simp
  also have "\<dots> \<le> length (reach_pass deps
      (if step \<notin> set reached \<and> prerequisites_in deps reached step then reached @ [step] else reached) steps)"
    by (rule Cons.IH)
  finally show ?case by simp
qed simp

function reach_all :: "'k list \<Rightarrow> ('k \<times> 'k) list \<Rightarrow> 'k list \<Rightarrow> 'k workflow_config_error + unit" where
  "reach_all steps deps reached =
     (if length reached < length steps
      then let reached' = reach_pass deps reached steps
           in if length reached' = length reached then Inl WorkflowCycle
              else reach_all steps deps reached'
      else Inr ())"
  by pat_completeness auto

termination
proof (relation "measure (\<lambda>(steps, deps, reached). length steps - length reached)", goal_cases)
  case (2 steps deps reached x)
  with length_reach_pass [of reached deps steps] show ?case by simp
qed simp

declare reach_all.simps [simp del]

definition workflow_validate :: "'k workflow_definition \<Rightarrow> 'k workflow_config_error + unit" where
  "workflow_validate d =
     (if wd_steps d = [] then Inl WorkflowEmpty
      else case duplicate_step [] (wd_steps d) of
          Some k \<Rightarrow> Inl (DuplicateStep k)
        | None \<Rightarrow>
            (case check_dependencies (wd_steps d) (wd_dependencies d) of
               Some err \<Rightarrow> Inl err
             | None \<Rightarrow> reach_all (wd_steps d) (wd_dependencies d) []))"

section \<open>State and fold\<close>

datatype workflow_step_state = StepBlocked | StepActive | StepCompleted

datatype ('k, 'r) workflow_state =
    WorkflowReady
  | WorkflowRunning "('k \<times> workflow_step_state) list" 'r
  | WorkflowSucceeded 'r
  | WorkflowFailed 'k 'r
  | WorkflowCancelled 'r

datatype 'k workflow_rejection =
    AlreadyStarted
  | UnknownStep 'k
  | BlockedStep 'k
  | StepAlreadyCompleted 'k
  | TerminalWorkflow "'k option"

datatype 'k workflow_input = InputComplete 'k | InputFail 'k

datatype 'k workflow_error = NotStarted "'k workflow_input"

datatype 'k workflow_outcome =
    Started "'k list"
  | Advanced 'k "'k list"
  | OutcomeSucceeded 'k
  | OutcomeFailed 'k
  | OutcomeCancelled
  | OutcomeRejected "'k workflow_rejection"

datatype ('k, 'r) workflow_message = Start 'r | Complete 'k | Fail 'k | CancelWorkflow 'r

record ('k, 'r) workflow =
  wf_definition :: "'k workflow_definition"
  wf_state :: "('k, 'r) workflow_state"

type_synonym ('k, 'r) workflow_actions = "(('r, 'k workflow_outcome) delivery list, never, never) actions"

definition workflow_new :: "'k workflow_definition \<Rightarrow> 'k workflow_config_error + ('k, 'r) workflow" where
  "workflow_new d = (case workflow_validate d of
      Inl err \<Rightarrow> Inl err
    | Inr _ \<Rightarrow> Inr \<lparr>wf_definition = d, wf_state = WorkflowReady\<rparr>)"

definition workflow_reply :: "'r \<Rightarrow> 'k workflow_outcome \<Rightarrow> ('k, 'r) workflow_actions" where
  "workflow_reply r out = send_actions (deliver r out)"

definition unconstrained :: "('k \<times> 'k) list \<Rightarrow> 'k \<Rightarrow> bool" where
  "unconstrained deps step \<longleftrightarrow> \<not> list_ex (\<lambda>(required, dependent). dependent = step) deps"

definition workflow_start :: "('k, 'r) workflow \<Rightarrow> 'r \<Rightarrow> ('k, 'r) workflow \<times> ('k, 'r) workflow_actions" where
  "workflow_start w r =
     (case wf_state w of
        WorkflowReady \<Rightarrow>
          (let deps = wd_dependencies (wf_definition w);
               steps = map (\<lambda>step. (step, if unconstrained deps step then StepActive else StepBlocked))
                         (wd_steps (wf_definition w));
               activated = filter (unconstrained deps) (wd_steps (wf_definition w))
           in (w\<lparr>wf_state := WorkflowRunning steps r\<rparr>, workflow_reply r (Started activated)))
      | _ \<Rightarrow> (w, workflow_reply r (OutcomeRejected AlreadyStarted)))"

text \<open>The reply route of a terminal state.\<close>

definition terminal_reply :: "('k, 'r) workflow_state \<Rightarrow> 'r option" where
  "terminal_reply st = (case st of
      WorkflowSucceeded r \<Rightarrow> Some r
    | WorkflowFailed k r \<Rightarrow> Some r
    | WorkflowCancelled r \<Rightarrow> Some r
    | _ \<Rightarrow> None)"

definition not_running :: "('k, 'r) workflow_state \<Rightarrow> 'k \<Rightarrow> ('k, 'r) workflow_actions" where
  "not_running st step = (case terminal_reply st of
      None \<Rightarrow> cont vec_sends
    | Some r \<Rightarrow> workflow_reply r (OutcomeRejected (TerminalWorkflow (Some step))))"

definition completed_steps :: "('k \<times> workflow_step_state) list \<Rightarrow> 'k list" where
  "completed_steps steps = map fst (filter (\<lambda>(k, st). st = StepCompleted) steps)"

text \<open>The loop that activates every blocked step whose prerequisites are completed.\<close>

definition newly_ready :: "('k \<times> 'k) list \<Rightarrow> 'k list \<Rightarrow> 'k \<times> workflow_step_state \<Rightarrow> bool" where
  "newly_ready deps done entry \<longleftrightarrow> snd entry = StepBlocked \<and> prerequisites_in deps done (fst entry)"

definition activate :: "('k \<times> 'k) list \<Rightarrow> ('k \<times> workflow_step_state) list \<Rightarrow> ('k \<times> workflow_step_state) list" where
  "activate deps steps =
     map (\<lambda>entry. if newly_ready deps (completed_steps steps) entry then (fst entry, StepActive) else entry) steps"

definition workflow_complete :: "('k, 'r) workflow \<Rightarrow> 'k \<Rightarrow> ('k, 'r) workflow \<times> ('k, 'r) workflow_actions" where
  "workflow_complete w step =
     (case wf_state w of
        WorkflowRunning steps r \<Rightarrow>
          (case find_key fst step steps of
             None \<Rightarrow> (w, workflow_reply r (OutcomeRejected (UnknownStep step)))
           | Some i \<Rightarrow>
               (case snd (steps ! i) of
                  StepBlocked \<Rightarrow> (w, workflow_reply r (OutcomeRejected (BlockedStep step)))
                | StepCompleted \<Rightarrow> (w, workflow_reply r (OutcomeRejected (StepAlreadyCompleted step)))
                | StepActive \<Rightarrow>
                    (let steps' = steps[i := (fst (steps ! i), StepCompleted)]
                     in if list_all (\<lambda>(k, st). st = StepCompleted) steps'
                        then (w\<lparr>wf_state := WorkflowSucceeded r\<rparr>, workflow_reply r (OutcomeSucceeded step))
                        else let deps = wd_dependencies (wf_definition w);
                                 activated = map fst (filter (newly_ready deps (completed_steps steps')) steps')
                             in (w\<lparr>wf_state := WorkflowRunning (activate deps steps') r\<rparr>,
                                 workflow_reply r (Advanced step activated)))))
      | st \<Rightarrow> (w, not_running st step))"

definition workflow_fail :: "('k, 'r) workflow \<Rightarrow> 'k \<Rightarrow> ('k, 'r) workflow \<times> ('k, 'r) workflow_actions" where
  "workflow_fail w step =
     (case wf_state w of
        WorkflowRunning steps r \<Rightarrow>
          (case find_key fst step steps of
             None \<Rightarrow> (w, workflow_reply r (OutcomeRejected (UnknownStep step)))
           | Some i \<Rightarrow>
               (case snd (steps ! i) of
                  StepActive \<Rightarrow> (w\<lparr>wf_state := WorkflowFailed step r\<rparr>, workflow_reply r (OutcomeFailed step))
                | StepBlocked \<Rightarrow> (w, workflow_reply r (OutcomeRejected (BlockedStep step)))
                | StepCompleted \<Rightarrow> (w, workflow_reply r (OutcomeRejected (StepAlreadyCompleted step)))))
      | st \<Rightarrow> (w, not_running st step))"

definition is_ready :: "('k, 'r) workflow \<Rightarrow> bool" where
  "is_ready w = (case wf_state w of WorkflowReady \<Rightarrow> True | _ \<Rightarrow> False)"

fun workflow_transition :: "('k, 'r) workflow \<Rightarrow> ('k, 'r) workflow_message
    \<Rightarrow> ('k, 'r) workflow \<times> ('k workflow_error + ('k, 'r) workflow_actions)" where
  "workflow_transition w (Start r) = apsnd Inr (workflow_start w r)"
| "workflow_transition w (Complete step) =
     (if is_ready w then (w, Inl (NotStarted (InputComplete step)))
      else apsnd Inr (workflow_complete w step))"
| "workflow_transition w (Fail step) =
     (if is_ready w then (w, Inl (NotStarted (InputFail step)))
      else apsnd Inr (workflow_fail w step))"
| "workflow_transition w (CancelWorkflow r) =
     (case wf_state w of
        WorkflowReady \<Rightarrow> (w\<lparr>wf_state := WorkflowCancelled r\<rparr>, Inr (workflow_reply r OutcomeCancelled))
      | WorkflowRunning _ _ \<Rightarrow> (w\<lparr>wf_state := WorkflowCancelled r\<rparr>, Inr (workflow_reply r OutcomeCancelled))
      | _ \<Rightarrow> (w, Inr (workflow_reply r (OutcomeRejected (TerminalWorkflow None)))))"

section \<open>Validation accepts exactly the acyclic definitions\<close>

definition well_formed :: "'k workflow_definition \<Rightarrow> bool" where
  "well_formed d \<longleftrightarrow> wd_steps d \<noteq> [] \<and> distinct (wd_steps d)
     \<and> set (wd_dependencies d) \<subseteq> set (wd_steps d) \<times> set (wd_steps d)
     \<and> acyclic (set (wd_dependencies d))"

lemma prerequisites_in_iff:
  "prerequisites_in deps done step \<longleftrightarrow> (\<forall>required. (required, step) \<in> set deps \<longrightarrow> required \<in> set done)"
  by (auto simp: prerequisites_in_def list_all_iff)

lemma duplicate_step_None_iff: "duplicate_step seen ks = None \<longleftrightarrow> distinct ks \<and> set ks \<inter> set seen = {}"
  by (induction ks arbitrary: seen) auto

lemma check_dependencies_None_iff:
  "check_dependencies steps deps = None \<longleftrightarrow>
     set deps \<subseteq> set steps \<times> set steps \<and> (\<forall>k. (k, k) \<notin> set deps)"
  by (induction steps deps rule: check_dependencies.induct) auto

text \<open>A list in which every prerequisite of an element comes before it.\<close>

definition topological :: "('k \<times> 'k) list \<Rightarrow> 'k list \<Rightarrow> bool" where
  "topological deps ks \<longleftrightarrow> distinct ks
     \<and> (\<forall>i < length ks. prerequisites_in deps (take i ks) (ks ! i))"

lemma topological_snoc:
  "topological deps ks \<Longrightarrow> k \<notin> set ks \<Longrightarrow> prerequisites_in deps ks k \<Longrightarrow> topological deps (ks @ [k])"
  by (auto simp: topological_def nth_append less_Suc_eq)

lemma reach_pass_topological:
  "topological deps reached \<Longrightarrow> topological deps (reach_pass deps reached steps)"
  by (induction steps arbitrary: reached) (auto simp: topological_snoc)

lemma set_reach_pass: "set reached \<subseteq> set (reach_pass deps reached steps)"
proof (induction steps arbitrary: reached)
  case (Cons step steps)
  show ?case using Cons.IH [of reached] Cons.IH [of "reached @ [step]"] by auto
qed simp

lemma set_reach_pass_bound: "set (reach_pass deps reached steps) \<subseteq> set reached \<union> set steps"
proof (induction steps arbitrary: reached)
  case (Cons step steps)
  show ?case using Cons.IH [of reached] Cons.IH [of "reached @ [step]"] by auto
qed simp

lemma reach_pass_complete:
  "k \<in> set steps \<Longrightarrow> prerequisites_in deps reached k \<Longrightarrow> k \<in> set (reach_pass deps reached steps)"
proof (induction steps arbitrary: reached)
  case (Cons step steps)
  let ?r = "if step \<notin> set reached \<and> prerequisites_in deps reached step then reached @ [step] else reached"
  show ?case
  proof (cases "k = step")
    case True
    with Cons.prems have "k \<in> set ?r" by auto
    with set_reach_pass [of ?r deps steps] show ?thesis by auto
  next
    case False
    moreover have "prerequisites_in deps ?r k" using Cons.prems(2) by (auto simp: prerequisites_in_iff)
    ultimately show ?thesis using Cons by simp
  qed
qed simp

lemma topological_acyclic:
  assumes "topological deps ks" and "set deps \<subseteq> set ks \<times> set ks"
  shows "acyclic (set deps)"
proof -
  define at where "at k = (LEAST i. i < length ks \<and> ks ! i = k)" for k
  have pos: "at (ks ! i) = i" if "i < length ks" for i
    unfolding at_def using that assms(1)
    by (intro Least_equality) (auto simp: topological_def nth_eq_iff_index_eq)
  have "(a, b) \<in> measure at" if "(a, b) \<in> set deps" for a b
  proof -
    from that assms(2) have "b \<in> set ks" by auto
    then obtain j where j: "j < length ks" "ks ! j = b" by (auto simp: in_set_conv_nth)
    with assms(1) that have "a \<in> set (take j ks)" by (auto simp: topological_def prerequisites_in_iff)
    then obtain i where "i < j" "ks ! i = a" using j(1) by (auto simp: in_set_conv_nth)
    with j pos [of i] pos [of j] show ?thesis by (auto simp: in_measure)
  qed
  then have "set deps \<subseteq> measure at" by auto
  then show ?thesis using wf_acyclic [OF wf_measure] acyclic_subset by blast
qed

lemma reach_stuck:
  assumes "acyclic (set deps)" and "set deps \<subseteq> set steps \<times> set steps"
    and "length (reach_pass deps reached steps) = length reached" and "topological deps reached"
  shows "set steps \<subseteq> set reached"
proof (rule ccontr)
  assume "\<not> set steps \<subseteq> set reached"
  then obtain k0 where "k0 \<in> set steps - set reached" by auto
  moreover have "wf (set deps)" using assms(1) by (intro finite_acyclic_wf) auto
  ultimately obtain k where k: "k \<in> set steps - set reached"
    and least: "\<And>y. (y, k) \<in> set deps \<Longrightarrow> y \<notin> set steps - set reached"
    using wfE_min by metis
  from least assms(2) have "prerequisites_in deps reached k" by (auto simp: prerequisites_in_iff)
  with k have "k \<in> set (reach_pass deps reached steps)" by (intro reach_pass_complete) auto
  moreover have "card (set (reach_pass deps reached steps)) = card (set reached)"
    using assms(3,4) reach_pass_topological [OF assms(4), of steps]
    by (simp add: topological_def distinct_card)
  then have "set (reach_pass deps reached steps) = set reached"
    using set_reach_pass [of reached deps steps] by (metis card_subset_eq List.finite_set)
  ultimately show False using k by auto
qed

lemma reach_all_iff:
  assumes "set deps \<subseteq> set steps \<times> set steps" and "distinct steps"
    and "topological deps reached" and "set reached \<subseteq> set steps"
  shows "reach_all steps deps reached = Inr () \<longleftrightarrow> acyclic (set deps)"
  using assms
proof (induction steps deps reached rule: reach_all.induct)
  case (1 steps deps reached)
  let ?next = "reach_pass deps reached steps"
  have "topological deps ?next" "set ?next \<subseteq> set steps"
    using 1(4,5) reach_pass_topological set_reach_pass_bound [of deps reached steps] by auto
  note next_ok = this
  consider (all) "\<not> length reached < length steps"
    | (stuck) "length reached < length steps" "length ?next = length reached"
    | (more) "length reached < length steps" "length ?next \<noteq> length reached" by blast
  then show ?case
  proof cases
    case all
    have "card (set reached) = length reached" "card (set steps) = length steps"
      using 1(3,4) by (auto simp: topological_def distinct_card)
    with all 1(5) have "set reached = set steps"
      by (metis card_mono card_subset_eq List.finite_set le_antisym not_less)
    with 1(2) have "set deps \<subseteq> set reached \<times> set reached" by simp
    from topological_acyclic [OF 1(4) this] have "acyclic (set deps)" .
    with all show ?thesis by (simp add: reach_all.simps)
  next
    case stuck
    have "card (set reached) = length reached" "card (set steps) = length steps"
      using 1(3,4) by (auto simp: topological_def distinct_card)
    with stuck(1) have "\<not> set steps \<subseteq> set reached" using card_mono [of "set reached" "set steps"] by auto
    with reach_stuck [OF _ 1(2) stuck(2) 1(4)] have "\<not> acyclic (set deps)" by blast
    with stuck show ?thesis by (simp add: reach_all.simps [of steps deps reached])
  next
    case more
    with 1(1) [OF more(1) refl more(2) 1(2,3) next_ok] show ?thesis
      by (simp add: reach_all.simps [of steps deps reached])
  qed
qed

lemma reach_all_cases: "reach_all steps deps reached = Inr () \<or> reach_all steps deps reached = Inl WorkflowCycle"
  by (induction steps deps reached rule: reach_all.induct) (subst (1 2) reach_all.simps, simp add: Let_def)

lemma workflow_validated:
  "(workflow_validate d = Inr ()) = well_formed d"
proof (cases "distinct (wd_steps d) \<and> set (wd_dependencies d) \<subseteq> set (wd_steps d) \<times> set (wd_steps d)
    \<and> (\<forall>k. (k, k) \<notin> set (wd_dependencies d))")
  case True
  then have "duplicate_step [] (wd_steps d) = None"
    "check_dependencies (wd_steps d) (wd_dependencies d) = None"
    by (simp_all add: duplicate_step_None_iff check_dependencies_None_iff)
  moreover have "topological (wd_dependencies d) []" by (simp add: topological_def)
  with True have "(reach_all (wd_steps d) (wd_dependencies d) [] = Inr ()) = acyclic (set (wd_dependencies d))"
    by (intro reach_all_iff) auto
  ultimately show ?thesis using True by (simp add: workflow_validate_def well_formed_def)
next
  case False
  then have "\<not> well_formed d" by (auto simp: well_formed_def acyclic_def)
  moreover have "duplicate_step [] (wd_steps d) \<noteq> None
      \<or> check_dependencies (wd_steps d) (wd_dependencies d) \<noteq> None"
    using False by (auto simp: duplicate_step_None_iff check_dependencies_None_iff simp del: not_None_eq)
  then have "workflow_validate d \<noteq> Inr ()" by (auto simp: workflow_validate_def split: option.splits)
  ultimately show ?thesis by simp
qed

text \<open>
  The validation of a workflow accepts exactly the definitions that have a step, name no
  step twice, whose dependencies relate steps of the definition, and whose dependency relation
  is acyclic. In particular its loop ends for every definition.
\<close>

theorem workflow_validate_iff:
  "(workflow_validate d = Inr ()) =
     (wd_steps d \<noteq> [] \<and> distinct (wd_steps d)
      \<and> set (wd_dependencies d) \<subseteq> set (wd_steps d) \<times> set (wd_steps d)
      \<and> acyclic (set (wd_dependencies d)))"
  by (simp add: workflow_validated well_formed_def)

section \<open>Running workflows\<close>

text \<open>
  In a running workflow the steps are those of the definition, a step is blocked exactly as
  long as one of its prerequisites is not completed, and some step is not completed.
\<close>

definition running_ok :: "'k workflow_definition \<Rightarrow> ('k \<times> workflow_step_state) list \<Rightarrow> bool" where
  "running_ok d steps \<longleftrightarrow> map fst steps = wd_steps d
     \<and> (\<forall>(k, st) \<in> set steps. st = StepBlocked \<longleftrightarrow> \<not> prerequisites_in (wd_dependencies d) (completed_steps steps) k)
     \<and> (\<exists>(k, st) \<in> set steps. st \<noteq> StepCompleted)"

definition workflow_ok :: "'k workflow_definition \<Rightarrow> ('k, 'r) workflow \<Rightarrow> bool" where
  "workflow_ok d w \<longleftrightarrow> wf_definition w = d
     \<and> (case wf_state w of WorkflowRunning steps r \<Rightarrow> running_ok d steps | _ \<Rightarrow> True)"

lemma set_completed_steps: "set (completed_steps steps) = {k. (k, StepCompleted) \<in> set steps}"
  by (force simp: completed_steps_def)

lemma completed_activate: "completed_steps (activate deps steps) = completed_steps steps"
proof -
  have "map fst (filter (\<lambda>(k, st). st = StepCompleted)
      (map (\<lambda>entry. if newly_ready deps ks entry then (fst entry, StepActive) else entry) xs))
    = map fst (filter (\<lambda>(k, st). st = StepCompleted) xs)" for ks and xs :: "('a \<times> workflow_step_state) list"
    by (induction xs) (auto simp: newly_ready_def)
  then show ?thesis by (simp add: activate_def completed_steps_def)
qed

lemma keys_activate: "map fst (activate deps steps) = map fst steps"
  by (simp add: activate_def comp_def if_distrib cong: if_cong)

lemma activate_pending:
  assumes "x \<in> set steps" and "snd x \<noteq> StepCompleted"
  shows "\<exists>y \<in> set (activate deps steps). snd y \<noteq> StepCompleted"
proof -
  let ?f = "\<lambda>entry. if newly_ready deps (completed_steps steps) entry then (fst entry, StepActive) else entry"
  have "?f x \<in> set (activate deps steps)" unfolding activate_def set_map using assms(1) by (rule imageI)
  moreover have "snd (?f x) \<noteq> StepCompleted" using assms(2) by simp
  ultimately show ?thesis by (rule bexI [rotated])
qed

lemma running_ok_start:
  assumes "well_formed d"
  shows "running_ok d (map (\<lambda>step. (step, if unconstrained (wd_dependencies d) step then StepActive else StepBlocked))
    (wd_steps d))" (is "running_ok d ?steps")
proof -
  have none: "completed_steps ?steps = []" by (simp add: completed_steps_def filter_map comp_def)
  have "unconstrained deps k = prerequisites_in deps [] k" for deps :: "('a \<times> 'a) list" and k
    by (auto simp: unconstrained_def prerequisites_in_iff list_ex_iff)
  moreover have "wd_steps d \<noteq> []" using assms by (simp add: well_formed_def)
  then obtain k where "k \<in> set (wd_steps d)" by (cases "wd_steps d") auto
  ultimately show ?thesis unfolding running_ok_def none by (auto simp: comp_def)
qed

lemma prerequisites_in_mono:
  "prerequisites_in deps ks k \<Longrightarrow> set ks \<subseteq> set ls \<Longrightarrow> prerequisites_in deps ls k"
  by (auto simp: prerequisites_in_iff)

lemma running_ok_complete:
  assumes ok: "running_ok d steps" and at: "find_key fst step steps = Some i"
    and active: "snd (steps ! i) = StepActive"
    and more: "\<not> list_all (\<lambda>(k, st). st = StepCompleted) (steps[i := (fst (steps ! i), StepCompleted)])"
  shows "running_ok d (activate (wd_dependencies d) (steps[i := (fst (steps ! i), StepCompleted)]))"
    (is "running_ok d (activate ?deps ?new)")
proof -
  have i: "i < length steps" using at by simp
  let ?old = "completed_steps steps" and ?all = "completed_steps ?new"
  have grows: "set ?old \<subseteq> set ?all"
  proof
    fix k assume "k \<in> set ?old"
    then obtain j where "j < length steps" "steps ! j = (k, StepCompleted)"
      by (auto simp: set_completed_steps in_set_conv_nth)
    with active i have "j < length ?new" "?new ! j = (k, StepCompleted)" by (auto simp: nth_list_update)
    then show "k \<in> set ?all" by (metis (mono_tags) set_completed_steps mem_Collect_eq nth_mem)
  qed
  have "st = StepBlocked \<longleftrightarrow> \<not> prerequisites_in ?deps ?all k" if entry: "(k, st) \<in> set (activate ?deps ?new)" for k st
  proof -
    from entry obtain j where j: "j < length steps"
      and eq: "(k, st) = (if newly_ready ?deps ?all (?new ! j) then (fst (?new ! j), StepActive) else ?new ! j)"
      by (auto simp: activate_def in_set_conv_nth)
    have key: "k = fst (steps ! j)" using eq i j by (auto simp: nth_list_update split: if_splits dest: arg_cong [where f = fst])
    have "(fst (steps ! j), snd (steps ! j)) \<in> set steps" using j by simp
    with ok key have old: "snd (steps ! j) = StepBlocked \<longleftrightarrow> \<not> prerequisites_in ?deps ?old k"
      unfolding running_ok_def by fast
    show ?thesis
    proof (cases "snd (steps ! j) = StepBlocked")
      case True
      then have "?new ! j = steps ! j" using active by (cases "j = i") auto
      with True eq key show ?thesis by (auto simp: newly_ready_def split: if_splits dest: arg_cong [where f = snd])
    next
      case False
      with old grows have "prerequisites_in ?deps ?all k" by (auto intro: prerequisites_in_mono)
      moreover have "snd (?new ! j) \<noteq> StepBlocked" using False i j by (auto simp: nth_list_update)
      ultimately show ?thesis using eq
        by (auto simp: newly_ready_def split: if_splits dest: arg_cong [where f = snd])
    qed
  qed
  moreover have "map fst (activate ?deps ?new) = wd_steps d"
    using ok i by (simp add: keys_activate running_ok_def map_list_update_same)
  moreover have "\<exists>(k, st) \<in> set (activate ?deps ?new). st \<noteq> StepCompleted"
  proof -
    from more obtain x where "x \<in> set ?new" "snd x \<noteq> StepCompleted" by (force simp: list_all_iff)
    then show ?thesis using activate_pending by (simp add: split_beta)
  qed
  ultimately show ?thesis unfolding running_ok_def completed_activate by fast
qed

lemma workflow_ok_step:
  assumes "well_formed d" and "workflow_ok d w"
  shows "workflow_ok d (fst (workflow_transition w e))"
proof (cases e)
  case (Start r)
  with assms running_ok_start [of d] show ?thesis
    by (auto simp: workflow_ok_def workflow_start_def Let_def split: workflow_state.splits)
next
  case (Complete step)
  show ?thesis
  proof (cases "wf_state w")
    case (WorkflowRunning steps r)
    with assms(2) have ok: "running_ok d steps" and d: "wf_definition w = d" by (auto simp: workflow_ok_def)
    show ?thesis
    proof (cases "find_key fst step steps")
      case (Some i)
      then show ?thesis using running_ok_complete [OF ok Some] assms(2) WorkflowRunning d Complete
        by (cases "snd (steps ! i)")
          (auto simp: workflow_ok_def workflow_complete_def is_ready_def Let_def)
    qed (use WorkflowRunning assms(2) Complete in \<open>auto simp: workflow_complete_def is_ready_def simp del: position_None_iff\<close>)
  qed (use assms(2) Complete in \<open>auto simp: workflow_ok_def workflow_complete_def is_ready_def\<close>)
next
  case (Fail step)
  with assms(2) show ?thesis
    by (auto simp: workflow_ok_def workflow_fail_def is_ready_def
        split: workflow_state.splits option.splits workflow_step_state.splits)
next
  case (CancelWorkflow r)
  with assms(2) show ?thesis by (auto simp: workflow_ok_def split: workflow_state.splits)
qed

text \<open>An acyclic definition always has a step to work on.\<close>

lemma running_has_active:
  assumes "well_formed d" and "running_ok d steps"
  shows "\<exists>k. (k, StepActive) \<in> set steps"
proof -
  let ?pending = "{k. \<exists>st. (k, st) \<in> set steps \<and> st \<noteq> StepCompleted}"
  from assms(2) obtain k0 where "k0 \<in> ?pending" by (auto simp: running_ok_def)
  moreover have "wf (set (wd_dependencies d))"
    using assms(1) by (intro finite_acyclic_wf) (auto simp: well_formed_def)
  ultimately obtain k where k: "k \<in> ?pending"
    and least: "\<And>y. (y, k) \<in> set (wd_dependencies d) \<Longrightarrow> y \<notin> ?pending"
    by (metis (no_types, lifting) wfE_min)
  have "y \<in> set (completed_steps steps)" if "(y, k) \<in> set (wd_dependencies d)" for y
  proof -
    have "y \<in> set (map fst steps)" using that assms by (auto simp: well_formed_def running_ok_def)
    with least [OF that] show ?thesis by (auto simp: set_completed_steps)
  qed
  then have "prerequisites_in (wd_dependencies d) (completed_steps steps) k" by (simp add: prerequisites_in_iff)
  moreover from k obtain st where st: "(k, st) \<in> set steps" "st \<noteq> StepCompleted" by auto
  ultimately have "st \<noteq> StepBlocked" using assms(2) unfolding running_ok_def by fast
  with st show ?thesis by (cases st) auto
qed

text \<open>The invariant as a fold invariant: a definition that validation rejects starts no fold.\<close>

interpretation workflow: fold_invariant workflow_transition "\<lambda>w. well_formed (wf_definition w) \<and> workflow_ok (wf_definition w) w"
proof unfold_locales
  fix w :: "('k, 'r) workflow" and e
  assume "well_formed (wf_definition w) \<and> workflow_ok (wf_definition w) w"
  with workflow_ok_step [of "wf_definition w" w e]
  have "well_formed (wf_definition w)" "workflow_ok (wf_definition w) (fst (workflow_transition w e))" by auto
  then show "well_formed (wf_definition (fst (workflow_transition w e)))
      \<and> workflow_ok (wf_definition (fst (workflow_transition w e))) (fst (workflow_transition w e))"
    by (simp add: workflow_ok_def)
qed

lemma workflow_definition_kept: "wf_definition (fst (workflow_transition w e)) = wf_definition w"
  by (cases e) (auto simp: workflow_start_def workflow_complete_def workflow_fail_def Let_def
      split: workflow_state.splits option.splits workflow_step_state.splits)

lemma run_definition_kept: "wf_definition (run_state workflow_transition w es) = wf_definition w"
  by (induction es arbitrary: w) (auto simp: split_beta workflow_definition_kept)

text \<open>
  C18: A workflow that was accepted and is running keeps the steps of its definition; a step is
  blocked exactly as long as one of its prerequisites is not completed, so that no step is
  completed before all it depends on; and some step is active, so that it is never stuck.
\<close>

theorem workflow_never_stuck:
  assumes "workflow_new d = Inr w"
    and "wf_state (run_state workflow_transition w es) = WorkflowRunning steps r"
  shows "map fst steps = wd_steps d
     \<and> (\<forall>(k, st) \<in> set steps. st = StepBlocked \<longleftrightarrow>
          (\<exists>required. (required, k) \<in> set (wd_dependencies d) \<and> (required, StepCompleted) \<notin> set steps))
     \<and> (\<exists>k. (k, StepActive) \<in> set steps)"
proof -
  have "workflow_validate d = Inr ()" and new: "w = \<lparr>wf_definition = d, wf_state = WorkflowReady\<rparr>"
    using assms(1) by (auto simp: workflow_new_def split: sum.splits)
  then have wf: "well_formed d" using workflow_validated [of d] by simp
  then have "workflow_ok d (run_state workflow_transition w es)"
    using workflow.run_inv [of w es] by (simp add: new run_definition_kept workflow_ok_def)
  with assms(2) have ok: "running_ok d steps" by (simp add: workflow_ok_def)
  have "prerequisites_in (wd_dependencies d) (completed_steps steps) k \<longleftrightarrow>
      \<not> (\<exists>required. (required, k) \<in> set (wd_dependencies d) \<and> (required, StepCompleted) \<notin> set steps)" for k
    by (auto simp: prerequisites_in_iff set_completed_steps)
  with ok running_has_active [OF wf ok] show ?thesis unfolding running_ok_def by simp
qed

theorem workflow_never_stuck_witness:
  "let d = \<lparr>wd_steps = [1, 2 :: nat], wd_dependencies = [(1, 2)]\<rparr>
   in \<exists>w. workflow_new d = Inr w
     \<and> wf_state (run_state workflow_transition w [Start (0 :: nat), Complete 1])
         = WorkflowRunning [(1, StepCompleted), (2, StepActive)] 0
     \<and> (\<exists>k. (k, StepActive) \<in> set [(1 :: nat, StepCompleted), (2, StepActive)])"
proof -
  let ?d = "\<lparr>wd_steps = [1, 2 :: nat], wd_dependencies = [(1, 2)]\<rparr>"
  let ?w = "\<lparr>wf_definition = ?d, wf_state = WorkflowReady\<rparr> :: (nat, nat) workflow"
  have new: "workflow_new ?d = Inr ?w"
    by (simp add: workflow_new_def workflow_validate_def reach_all.simps prerequisites_in_def)
  moreover have state: "wf_state (run_state workflow_transition ?w [Start 0, Complete 1])
      = WorkflowRunning [(1, StepCompleted), (2, StepActive)] 0"
    by code_simp
  moreover note workflow_never_stuck [OF new state]
  ultimately show ?thesis by (simp add: Let_def)
qed

end
