(* ===== verification/Restart.thy ===== *)
theory Restart
  imports Behavior_Core
begin

text \<open>
  \<^verbatim>\<open>templates/restart.rs\<close>: the policy by which supervisors and pools admit automatic
  recoveries. A budget remembers the charges of the recoveries inside the window of the limit, a
  schedule gives the delay of each recovery, and count, budget and release are proposed and
  committed together.
\<close>

section \<open>Limits, schedules and budgets\<close>

record restart_limit =
  limit_maximum :: u32
  limit_window :: duration

datatype restart_release =
    ReleaseImmediate
  | ReleaseConstant duration
  | ReleaseLinear duration duration
  | ReleaseExponential duration duration

datatype restart_release_error = ZeroDelay | MaximumBelowInitial

datatype restart_release_failure = DurationOverflow

datatype recovery_release = Immediate | Delayed duration

text \<open>\<^verbatim>\<open>NonZeroU32\<close> counts are words; that they are positive is part of the invariant.\<close>

record restart_charge =
  observed_at :: instant
  replacements :: u32

type_synonym restart_budget = "restart_charge list"

datatype restart_denial =
    RestartLimitReached u32 usize u32
  | ClockRegressed instant instant
  | RecoveryCountExhausted u32
  | ReleaseCalculationFailed restart_release_failure

record restart_proposal =
  proposed_ordinal :: u32
  current_budget :: restart_budget
  proposed_budget :: restart_budget
  proposed_release :: recovery_release

datatype restart_admission = Proposed restart_proposal | Denied restart_budget restart_denial

section \<open>Construction of schedules\<close>

definition release_positive :: "duration \<Rightarrow> restart_release_error + duration" where
  "release_positive delay = (if delay = 0 then Inl ZeroDelay else Inr delay)"

definition release_growth :: "duration \<Rightarrow> duration \<Rightarrow> restart_release_error + duration \<times> duration" where
  "release_growth initial maximum = (case release_positive initial of
      Inl err \<Rightarrow> Inl err
    | Inr initial \<Rightarrow> (if maximum < initial then Inl MaximumBelowInitial else Inr (initial, maximum)))"

definition release_constant :: "duration \<Rightarrow> restart_release_error + restart_release" where
  "release_constant delay = (case release_positive delay of
      Inl err \<Rightarrow> Inl err | Inr d \<Rightarrow> Inr (ReleaseConstant d))"

definition release_linear :: "duration \<Rightarrow> duration \<Rightarrow> restart_release_error + restart_release" where
  "release_linear initial maximum = (case release_growth initial maximum of
      Inl err \<Rightarrow> Inl err | Inr (i, m) \<Rightarrow> Inr (ReleaseLinear i m))"

definition release_exponential :: "duration \<Rightarrow> duration \<Rightarrow> restart_release_error + restart_release" where
  "release_exponential initial maximum = (case release_growth initial maximum of
      Inl err \<Rightarrow> Inl err | Inr (i, m) \<Rightarrow> Inr (ReleaseExponential i m))"

section \<open>Calculation of a release\<close>

text \<open>
  \<^verbatim>\<open>multiply\<close> works on \<^verbatim>\<open>u128\<close> nanoseconds and goes back to \<^verbatim>\<open>u64\<close> seconds and \<^verbatim>\<open>u32\<close> nanoseconds
  of a second: a product of nanoseconds that does not fit is an overflow.
\<close>

definition multiply :: "duration \<Rightarrow> nat \<Rightarrow> restart_release_failure + duration" where
  "multiply d factor =
     (if \<not> d * factor < 2 ^ 128 then Inl DurationOverflow
      else let nanoseconds = d * factor
           in if \<not> nanoseconds div 1000000000 < 2 ^ 64 then Inl DurationOverflow
              else if \<not> nanoseconds mod 1000000000 < 2 ^ 32 then Inl DurationOverflow
              else Inr (nanoseconds div 1000000000 * 1000000000 + nanoseconds mod 1000000000))"

definition checked_shl_one :: "nat \<Rightarrow> nat option" where
  "checked_shl_one shift = (if shift < 128 then Some (2 ^ shift) else None)"

fun release_calculate :: "restart_release \<Rightarrow> u32 \<Rightarrow> restart_release_failure + recovery_release" where
  "release_calculate ReleaseImmediate ordinal = Inr Immediate"
| "release_calculate (ReleaseConstant delay) ordinal = Inr (Delayed delay)"
| "release_calculate (ReleaseLinear initial maximum) ordinal =
     (case multiply initial (unat ordinal) of
        Inl err \<Rightarrow> Inl err
      | Inr d \<Rightarrow> Inr (Delayed (min d maximum)))"
| "release_calculate (ReleaseExponential initial maximum) ordinal =
     (case checked_shl_one (unat (ordinal - 1)) of
        None \<Rightarrow> Inl DurationOverflow
      | Some factor \<Rightarrow>
          (case multiply initial factor of
             Inl err \<Rightarrow> Inl err
           | Inr d \<Rightarrow> Inr (Delayed (min d maximum))))"

section \<open>The budget\<close>

text \<open>
  \<^verbatim>\<open>Instant::checked_sub\<close> fails below the least instant of the platform, here the parameter
  \<open>lowest\<close>. \<^verbatim>\<open>partition_point\<close> is the length of the prefix that satisfies the predicate: charges
  are in the order of their instants.
\<close>

definition instant_sub :: "instant \<Rightarrow> instant \<Rightarrow> duration \<Rightarrow> instant option" where
  "instant_sub lowest t w = (if t - int w < lowest then None else Some (t - int w))"

definition partition_point :: "('a \<Rightarrow> bool) \<Rightarrow> 'a list \<Rightarrow> nat" where
  "partition_point P xs = length (takeWhile P xs)"

fun sum_charges :: "u32 \<Rightarrow> restart_charge list \<Rightarrow> u32 option" where
  "sum_charges active [] = Some active"
| "sum_charges active (c # cs) = (case checked_add active (replacements c) of
      None \<Rightarrow> None
    | Some active \<Rightarrow> sum_charges active cs)"

definition active_charges :: "instant \<Rightarrow> restart_limit \<Rightarrow> instant \<Rightarrow> restart_budget \<Rightarrow> restart_budget" where
  "active_charges lowest limit t budget =
     drop (case instant_sub lowest t (limit_window limit) of
         None \<Rightarrow> 0
       | Some cutoff \<Rightarrow> partition_point (\<lambda>c. observed_at c < cutoff) budget) budget"

definition charge_of :: "usize \<Rightarrow> u32 option" where
  "charge_of n = (if n < 2 ^ 32 \<and> n \<noteq> 0 then Some (of_nat n) else None)"

text \<open>\<open>None\<close> is the panic of the \<^verbatim>\<open>expect\<close> on the sum of the active charges.\<close>

definition preview :: "instant \<Rightarrow> restart_limit \<Rightarrow> restart_budget \<Rightarrow> instant \<Rightarrow> usize
    \<Rightarrow> (restart_denial + restart_budget) option" where
  "preview lowest limit budget t n =
     (if budget \<noteq> [] \<and> t < observed_at (last budget)
      then Some (Inl (ClockRegressed (observed_at (last budget)) t))
      else let active_part = active_charges lowest limit t budget
           in case sum_charges 0 active_part of
                None \<Rightarrow> None
              | Some active \<Rightarrow>
                  let denied = Some (Inl (RestartLimitReached active n (limit_maximum limit)))
                  in case charge_of n of
                       None \<Rightarrow> denied
                     | Some charge \<Rightarrow>
                         (case checked_add active charge of
                            None \<Rightarrow> denied
                          | Some together \<Rightarrow>
                              if limit_maximum limit < together then denied
                              else Some (Inr (active_part @ [\<lparr>observed_at = t, replacements = charge\<rparr>]))))"

section \<open>Admission\<close>

text \<open>\<^verbatim>\<open>RecoveryCount::propose\<close> gives the successor of the count, or nothing at the last \<^verbatim>\<open>u32\<close>.\<close>

definition propose :: "u32 \<Rightarrow> u32 option" where
  "propose cnt = checked_add cnt 1"

definition admit_restart :: "instant \<Rightarrow> u32 \<Rightarrow> restart_budget \<Rightarrow> restart_limit \<Rightarrow> restart_release
    \<Rightarrow> instant \<Rightarrow> usize \<Rightarrow> restart_admission option" where
  "admit_restart lowest cnt budget limit release t n =
     (case propose cnt of
        None \<Rightarrow> Some (Denied budget (RecoveryCountExhausted cnt))
      | Some ordinal \<Rightarrow>
          (case preview lowest limit budget t n of
             None \<Rightarrow> None
           | Some (Inl reason) \<Rightarrow> Some (Denied budget reason)
           | Some (Inr proposed) \<Rightarrow>
               (case release_calculate release ordinal of
                  Inl reason \<Rightarrow> Some (Denied budget (ReleaseCalculationFailed reason))
                | Inr rel \<Rightarrow> Some (Proposed \<lparr>proposed_ordinal = ordinal, current_budget = budget,
                    proposed_budget = proposed, proposed_release = rel\<rparr>))))"

text \<open>\<^verbatim>\<open>RestartProposal::accept\<close> commits count and budget together, \<^verbatim>\<open>decline\<close> neither.\<close>

definition proposal_accept :: "restart_proposal \<Rightarrow> u32 \<times> restart_budget" where
  "proposal_accept p = (proposed_ordinal p, proposed_budget p)"

definition proposal_decline :: "u32 \<Rightarrow> restart_proposal \<Rightarrow> u32 \<times> restart_budget" where
  "proposal_decline cnt p = (cnt, current_budget p)"

text \<open>
  An owner of the policy: each request is a time, a number of replacements and the owner's
  decision about a proposal.
\<close>

record restart_request =
  request_at :: instant
  request_size :: usize
  request_take :: bool

fun restart_step :: "instant \<Rightarrow> restart_limit \<Rightarrow> restart_release \<Rightarrow> u32 \<times> restart_budget \<Rightarrow> restart_request
    \<Rightarrow> (u32 \<times> restart_budget) \<times> restart_admission option" where
  "restart_step lowest limit release (cnt, budget) q =
     (case admit_restart lowest cnt budget limit release (request_at q) (request_size q) of
        None \<Rightarrow> ((cnt, budget), None)
      | Some (Denied budget reason) \<Rightarrow> ((cnt, budget), Some (Denied budget reason))
      | Some (Proposed p) \<Rightarrow>
          ((if request_take q then proposal_accept p else proposal_decline cnt p), Some (Proposed p)))"

text \<open>The charge a step commits.\<close>

fun committed :: "restart_request \<Rightarrow> restart_admission option \<Rightarrow> (instant \<times> nat) list" where
  "committed q (Some (Proposed p)) = (if request_take q then [(request_at q, request_size q)] else [])"
| "committed q _ = []"

text \<open>What a history of charges spends in the window that ends at an instant.\<close>

definition window_total :: "duration \<Rightarrow> (instant \<times> nat) list \<Rightarrow> instant \<Rightarrow> nat" where
  "window_total w h t = (\<Sum>(u, n) \<leftarrow> filter (\<lambda>(u, n). t - int w \<le> u \<and> u \<le> t) h. n)"

section \<open>The budget bounds every window\<close>

text \<open>
  The charges kept are the latest of the history, in the order of their instants and together
  no more than the maximum; the forgotten ones lie before the window of the last charge.
\<close>

definition charge_pair :: "restart_charge \<Rightarrow> instant \<times> nat" where
  "charge_pair c = (observed_at c, unat (replacements c))"

definition charged :: "restart_budget \<Rightarrow> nat" where
  "charged cs = (\<Sum>c \<leftarrow> cs. unat (replacements c))"

definition accounts_for :: "restart_limit \<Rightarrow> (instant \<times> nat) list \<Rightarrow> u32 \<times> restart_budget \<Rightarrow> bool" where
  "accounts_for limit h s \<longleftrightarrow>
     (\<exists>old. h = old @ map charge_pair (snd s)
        \<and> (old = [] \<or> snd s \<noteq> [])
        \<and> (\<forall>(u, n) \<in> set old. u < observed_at (last (snd s)) - int (limit_window limit)))
     \<and> sorted (map observed_at (snd s))
     \<and> charged (snd s) \<le> unat (limit_maximum limit)
     \<and> (\<forall>t. window_total (limit_window limit) h t \<le> unat (limit_maximum limit))"

lemma charged_append [simp]: "charged (cs @ ds) = charged cs + charged ds"
  by (simp add: charged_def)

lemma charged_drop: "charged (drop i cs) \<le> charged cs"
proof -
  have "charged cs = charged (take i cs) + charged (drop i cs)" by (metis append_take_drop_id charged_append)
  then show ?thesis by simp
qed

lemma sum_charges_Some:
  "unat active + charged cs < 2 ^ 32 \<Longrightarrow>
     \<exists>total. sum_charges active cs = Some total \<and> unat total = unat active + charged cs"
proof (induction cs arbitrary: active)
  case (Cons c cs)
  then have "unat active + unat (replacements c) < 2 ^ 32" by (simp add: charged_def)
  then obtain next_active where add: "checked_add active (replacements c) = Some next_active"
    by (simp add: checked_add_def)
  then have "unat next_active = unat active + unat (replacements c)" by (rule unat_checked_add)
  with Cons.IH [of next_active] Cons.prems add show ?case by (simp add: charged_def add.assoc)
qed (simp add: charged_def)

lemma unat_u32_less: "unat (w :: u32) < 2 ^ 32"
  using unsigned_less [of w] by simp

lemma accounts_sum_charges:
  assumes "accounts_for limit h (cnt, budget)"
  shows "\<exists>active. sum_charges 0 (drop i budget) = Some active \<and> unat active = charged (drop i budget)"
proof -
  have "charged (drop i budget) \<le> unat (limit_maximum limit)"
    using assms charged_drop [of i budget] by (simp add: accounts_for_def)
  with sum_charges_Some [of 0 "drop i budget"] unat_u32_less [of "limit_maximum limit"]
  show ?thesis by simp
qed

text \<open>An admitted preview keeps the active charges and adds the new one, within the maximum.\<close>

lemma preview_admitted:
  assumes "accounts_for limit h (cnt, budget)" and "preview lowest limit budget t n = Some (Inr proposed)"
  shows "\<exists>i c. proposed = drop i budget @ [c] \<and> charge_pair c = (t, n) \<and> charged proposed \<le> unat (limit_maximum limit)
    \<and> (\<forall>d \<in> set (take i budget). observed_at d < t - int (limit_window limit))
    \<and> (\<forall>d \<in> set budget. budget \<noteq> [] \<longrightarrow> observed_at (last budget) \<le> t)"
proof -
  define i where "i = (case instant_sub lowest t (limit_window limit) of
      None \<Rightarrow> 0 | Some cutoff \<Rightarrow> partition_point (\<lambda>c. observed_at c < cutoff) budget)"
  have active: "active_charges lowest limit t budget = drop i budget" by (simp add: active_charges_def i_def)
  obtain active where sum: "sum_charges 0 (drop i budget) = Some active" "unat active = charged (drop i budget)"
    using accounts_sum_charges [OF assms(1)] by blast
  from assms(2) have time: "budget \<noteq> [] \<longrightarrow> observed_at (last budget) \<le> t"
    by (auto simp: preview_def split: if_splits)
  with assms(2) obtain charge total where add: "charge_of n = Some charge" "checked_add active charge = Some total"
    "total \<le> limit_maximum limit"
    and proposed: "proposed = drop i budget @ [\<lparr>observed_at = t, replacements = charge\<rparr>]"
    by (auto simp: preview_def active sum Let_def not_less split: if_splits option.splits)
  have "unat charge = n" using add(1) by (auto simp: charge_of_def unat_of_nat split: if_splits)
  moreover have "charged (drop i budget) + unat charge \<le> unat (limit_maximum limit)"
    using unat_checked_add [OF add(2)] add(3) sum(2) by (simp add: word_le_nat_alt)
  moreover have "observed_at d < t - int (limit_window limit)" if "d \<in> set (take i budget)" for d
  proof -
    have "i \<noteq> 0" using that by (cases i) auto
    then obtain cutoff where "instant_sub lowest t (limit_window limit) = Some cutoff"
      by (cases "instant_sub lowest t (limit_window limit)") (auto simp: i_def)
    moreover from this have "take i budget = takeWhile (\<lambda>c. observed_at c < cutoff) budget"
      by (simp add: i_def partition_point_def takeWhile_eq_take [symmetric])
    ultimately show ?thesis using that set_takeWhileD [of d _ budget]
      by (auto simp: instant_sub_def split: if_splits)
  qed
  ultimately show ?thesis using time by (auto simp: proposed charge_pair_def charged_def)
qed

lemma window_total_append:
  "window_total w (h @ g) t = window_total w h t + window_total w g t"
  by (simp add: window_total_def)

lemma window_total_outside: "\<forall>(u, n) \<in> set h. u < t - int w \<or> t < u \<Longrightarrow> window_total w h t = 0"
  by (induction h) (auto simp: window_total_def)

lemma window_total_bound: "window_total w (map charge_pair cs) t \<le> charged cs"
  by (induction cs) (auto simp: window_total_def charged_def charge_pair_def)

lemma accounts_commit:
  assumes acc: "accounts_for limit h (cnt, budget)"
    and new: "preview lowest limit budget t n = Some (Inr proposed)"
  shows "accounts_for limit (h @ [(t, n)]) (cnt', proposed)"
proof -
  let ?w = "limit_window limit" and ?max = "unat (limit_maximum limit)"
  obtain old where h: "h = old @ map charge_pair budget" "old = [] \<or> budget \<noteq> []"
    and before: "\<forall>(u, m) \<in> set old. u < observed_at (last budget) - int ?w"
    and ordered: "sorted (map observed_at budget)"
    and within: "\<And>u. window_total ?w h u \<le> ?max"
    using acc by (auto simp: accounts_for_def)
  obtain i c where proposed: "proposed = drop i budget @ [c]" and c: "charge_pair c = (t, n)"
    and most: "charged proposed \<le> ?max"
    and expired: "\<And>d. d \<in> set (take i budget) \<Longrightarrow> observed_at d < t - int ?w"
    and time: "budget \<noteq> [] \<Longrightarrow> observed_at (last budget) \<le> t"
    using preview_admitted [OF acc new] by (metis last_in_set)
  have c_at: "observed_at c = t" using c by (simp add: charge_pair_def)
  let ?gone = "old @ map charge_pair (take i budget)"
  have split: "h @ [(t, n)] = ?gone @ map charge_pair proposed"
  proof -
    have "map charge_pair budget = map charge_pair (take i budget) @ map charge_pair (drop i budget)"
      by (simp only: map_append [symmetric] append_take_drop_id)
    then show ?thesis by (simp add: h proposed c)
  qed
  have gone: "u < t - int ?w" if "(u, m) \<in> set ?gone" for u m
    using that before h(2) time expired by (fastforce simp: charge_pair_def)
  have "window_total ?w (h @ [(t, n)]) u \<le> ?max" for u
  proof (cases "u < t")
    case True
    then have "window_total ?w [(t, n)] u = 0" by (intro window_total_outside) auto
    with within [of u] show ?thesis by (simp add: window_total_append)
  next
    case False
    with gone have "window_total ?w ?gone u = 0" by (intro window_total_outside) force
    with most window_total_bound [of ?w proposed u] show ?thesis unfolding split window_total_append by linarith
  qed
  moreover have "\<forall>(u, m) \<in> set ?gone. u < observed_at (last proposed) - int ?w"
    using gone by (auto simp: proposed c_at)
  moreover have "sorted (map observed_at proposed)"
  proof -
    have "observed_at d \<le> t" if "d \<in> set budget" for d
    proof -
      from that obtain j where "j < length budget" "d = budget ! j" by (auto simp: in_set_conv_nth)
      with ordered have "observed_at d \<le> observed_at (last budget)"
        using last_conv_nth [of budget] by (cases "budget = []") (auto simp: sorted_iff_nth_mono)
      with time that show ?thesis by force
    qed
    then show ?thesis using ordered
      by (auto simp: proposed c_at sorted_append drop_map [symmetric] sorted_wrt_drop dest!: in_set_dropD)
  qed
  ultimately show ?thesis using most unfolding accounts_for_def split by (intro conjI exI [of _ ?gone]) (auto simp: proposed)
qed

lemma restart_step_accounts:
  assumes "accounts_for limit h s"
  shows "snd (restart_step lowest limit release s q) \<noteq> None"
    and "accounts_for limit (h @ committed q (snd (restart_step lowest limit release s q)))
           (fst (restart_step lowest limit release s q))"
proof -
  obtain cnt budget where s: "s = (cnt, budget)" by fastforce
  have acc: "accounts_for limit h (cnt, budget)" using assms s by simp
  have "\<exists>active. sum_charges 0 (active_charges lowest limit t budget) = Some active" for t
    unfolding active_charges_def using accounts_sum_charges [OF acc] by blast
  note summed = this
  have "preview lowest limit budget t n \<noteq> None" for t n
  proof -
    obtain active where "sum_charges 0 (active_charges lowest limit t budget) = Some active" using summed by blast
    then show ?thesis by (simp add: preview_def Let_def split: option.splits)
  qed
  from this [of "request_at q" "request_size q"] show "snd (restart_step lowest limit release s q) \<noteq> None"
    by (auto simp: s admit_restart_def split: option.splits sum.splits restart_admission.splits)
  have "accounts_for limit h (cnt', budget)" for cnt' using acc by (simp add: accounts_for_def)
  with accounts_commit [OF acc] show "accounts_for limit (h @ committed q (snd (restart_step lowest limit release s q)))
      (fst (restart_step lowest limit release s q))"
    by (auto simp: s admit_restart_def proposal_accept_def proposal_decline_def
        split: option.splits sum.splits restart_admission.splits)
qed

interpretation restart: traced_fold "restart_step lowest limit release" "accounts_for limit" committed
  for lowest limit release
  by unfold_locales (rule restart_step_accounts(2))

text \<open>
  C21: Over any sequence of recovery requests, accepted or declined by their owner, the policy
  never reaches its \<^verbatim>\<open>expect\<close>, and in every window of the configured length, wherever it ends,
  the replacements of the accepted recoveries never exceed the configured maximum.
\<close>

theorem restart_budget_bounds_every_window:
  "let limit = \<lparr>limit_maximum = m, limit_window = w\<rparr>;
       outs = run_outputs (restart_step lowest limit release) (0, []) qs
   in None \<notin> set outs \<and> window_total w (concat (map2 committed qs outs)) t \<le> unat m"
proof -
  let ?limit = "\<lparr>limit_maximum = m, limit_window = w\<rparr>"
  have start: "accounts_for ?limit [] (0, [])"
    by (auto simp: accounts_for_def charged_def window_total_def)
  have "out \<noteq> None" if "out \<in> set (run_outputs (restart_step lowest ?limit release) (0, []) qs)" for out
    using restart.run_trace_outputs [where Q = "\<lambda>out. out \<noteq> None", OF restart_step_accounts(1) start that] .
  with restart.run_trace [OF start, where es = qs and lowest = lowest and release = release] show ?thesis
    by (auto simp: Let_def accounts_for_def)
qed

section \<open>Delays\<close>

text \<open>A duration has at most \<^verbatim>\<open>u64\<close> seconds.\<close>

abbreviation duration_bound :: nat where
  "duration_bound \<equiv> 2 ^ 64 * 1000000000"

lemma multiply_exact:
  "multiply d factor = (if d * factor < duration_bound then Inr (d * factor) else Inl DurationOverflow)"
proof -
  have "d * factor div 1000000000 < 2 ^ 64 \<longleftrightarrow> d * factor < duration_bound"
    by (simp add: div_less_iff_less_mult)
  moreover have "d * factor mod 1000000000 < 2 ^ 32"
    using mod_less_divisor [of 1000000000 "d * factor"] by (simp del: mod_less_divisor)
  moreover have "d * factor < 2 ^ 128" if "d * factor < duration_bound"
    using that by simp
  moreover have "d * factor div 1000000000 * 1000000000 + d * factor mod 1000000000 = d * factor"
    by (rule div_mult_mod_eq)
  ultimately show ?thesis by (simp add: multiply_def Let_def)
qed

text \<open>
  C40: A schedule that its constructor accepts never gives a delay above its maximum. An
  exponential one delays recovery n + 1 by 2 ^ n times the initial delay, cut at the maximum,
  but only as long as the uncut product is a duration: from there on the calculation fails and
  with it every further admission, whatever the maximum is.
\<close>

theorem exponential_release_is_exact:
  assumes "release_exponential initial maximum = Inr release" and "n < 2 ^ 32 - 1"
  shows "release_calculate release (of_nat (Suc n)) =
     (if initial * 2 ^ n < duration_bound then Inr (Delayed (min (initial * 2 ^ n) maximum))
      else Inl DurationOverflow)"
proof -
  from assms(1) have release: "release = ReleaseExponential initial maximum" and pos: "0 < initial"
    by (auto simp: release_exponential_def release_growth_def release_positive_def split: if_splits)
  have "of_nat (Suc n) - (1 :: u32) = of_nat n" by simp
  moreover have "unat (of_nat n :: u32) = n" using assms(2) by (simp add: unat_of_nat)
  ultimately have shift: "unat (of_nat (Suc n) - 1 :: u32) = n" by (simp only:)
  show ?thesis
  proof (cases "n < 128")
    case True
    then show ?thesis by (simp add: release shift checked_shl_one_def multiply_exact del: of_nat_Suc)
  next
    case False
    then have "(2 :: nat) ^ 128 \<le> 2 ^ n" by (intro power_increasing) auto
    also have "\<dots> \<le> initial * 2 ^ n" using pos by simp
    finally have "\<not> initial * 2 ^ n < duration_bound" by simp
    with False show ?thesis by (simp add: release shift checked_shl_one_def del: of_nat_Suc)
  qed
qed

text \<open>The 65th recovery of a schedule from one second to at most thirty seconds is refused.\<close>

theorem exponential_release_is_exact_witness:
  "release_exponential 1000000000 30000000000 = Inr (ReleaseExponential 1000000000 30000000000)
   \<and> release_calculate (ReleaseExponential 1000000000 30000000000) 6 = Inr (Delayed 30000000000)
   \<and> release_calculate (ReleaseExponential 1000000000 30000000000) 65 = Inl DurationOverflow"
proof -
  have new: "release_exponential 1000000000 30000000000 = Inr (ReleaseExponential 1000000000 30000000000)"
    by (simp add: release_exponential_def release_growth_def release_positive_def)
  from exponential_release_is_exact [OF new, of 5] exponential_release_is_exact [OF new, of 64] new
  show ?thesis by simp
qed

end
