(* ===== verification/Cache.thy ===== *)
theory Cache
  imports Behavior_Core Keyed_Vec
begin

text \<open>
  \<^verbatim>\<open>persistence/cache.rs\<close>: a bounded cache that evicts the least recently used entry. The
  entries are in the order of their last use, the least recent first.
\<close>

section \<open>State and fold\<close>

record ('k, 'v) cache_entry =
  entry_key :: 'k
  entry_value :: 'v

record ('k, 'v) cache_state =
  cache_capacity :: usize
  cache_entries :: "('k, 'v) cache_entry list"

datatype ('k, 'v) cache_result =
    Stored 'k "'v option" "('k, 'v) cache_entry option"
  | Hit 'k 'v
  | Miss 'k
  | Removed 'k 'v
  | Absent 'k

datatype ('k, 'v, 'r) cache_message = Put 'k 'v 'r | Get 'k 'r | Remove 'k 'r

datatype cache_config_error = CacheZeroCapacity

type_synonym ('k, 'v, 'r) cache_actions = "(('r, ('k, 'v) cache_result) delivery list, never, never) actions"

definition cache_configuration_new :: "usize \<Rightarrow> cache_config_error + usize" where
  "cache_configuration_new capacity = (if capacity = 0 then Inl CacheZeroCapacity else Inr capacity)"

definition cache_new :: "usize \<Rightarrow> ('k, 'v) cache_state" where
  "cache_new capacity = \<lparr>cache_capacity = capacity, cache_entries = []\<rparr>"

definition cache_reply :: "'r \<Rightarrow> ('k, 'v) cache_result \<Rightarrow> ('k, 'v, 'r) cache_actions" where
  "cache_reply r result = send_actions (deliver r result)"

text \<open>
  \<open>None\<close> as output is the panic of \<^verbatim>\<open>Vec::remove(0)\<close> on an empty vector, which a cache of
  capacity zero would reach.
\<close>

definition cache_put :: "('k, 'v) cache_state \<Rightarrow> 'k \<Rightarrow> 'v \<Rightarrow> (('k, 'v) cache_state \<times> ('k, 'v) cache_result) option" where
  "cache_put c k v =
     (let entry = \<lparr>entry_key = k, entry_value = v\<rparr>; es = cache_entries c
      in case find_key entry_key k es of
           Some i \<Rightarrow> Some (c\<lparr>cache_entries := remove_at i es @ [entry]\<rparr>, Stored k (Some (entry_value (es ! i))) None)
         | None \<Rightarrow>
             if length es = cache_capacity c
             then (case es of
                     [] \<Rightarrow> None
                   | oldest # rest \<Rightarrow> Some (c\<lparr>cache_entries := rest @ [entry]\<rparr>, Stored k None (Some oldest)))
             else Some (c\<lparr>cache_entries := es @ [entry]\<rparr>, Stored k None None))"

definition cache_get :: "('k, 'v) cache_state \<Rightarrow> 'k \<Rightarrow> ('k, 'v) cache_state \<times> ('k, 'v) cache_result" where
  "cache_get c k =
     (let es = cache_entries c
      in case find_key entry_key k es of
           None \<Rightarrow> (c, Miss k)
         | Some i \<Rightarrow> (c\<lparr>cache_entries := remove_at i es @ [es ! i]\<rparr>, Hit k (entry_value (es ! i))))"

definition cache_remove :: "('k, 'v) cache_state \<Rightarrow> 'k \<Rightarrow> ('k, 'v) cache_state \<times> ('k, 'v) cache_result" where
  "cache_remove c k =
     (let es = cache_entries c
      in case find_key entry_key k es of
           None \<Rightarrow> (c, Absent k)
         | Some i \<Rightarrow> (c\<lparr>cache_entries := remove_at i es\<rparr>, Removed k (entry_value (es ! i))))"

fun cache_transition :: "('k, 'v) cache_state \<Rightarrow> ('k, 'v, 'r) cache_message
    \<Rightarrow> ('k, 'v) cache_state \<times> ('k, 'v, 'r) cache_actions option" where
  "cache_transition c (Put k v r) = (case cache_put c k v of
      None \<Rightarrow> (c, None)
    | Some (c', result) \<Rightarrow> (c', Some (cache_reply r result)))"
| "cache_transition c (Get k r) = apsnd (Some \<circ> cache_reply r) (cache_get c k)"
| "cache_transition c (Remove k r) = apsnd (Some \<circ> cache_reply r) (cache_remove c k)"

section \<open>Recency\<close>

text \<open>The last n elements of a list.\<close>

definition last_n :: "nat \<Rightarrow> 'a list \<Rightarrow> 'a list" where
  "last_n n xs = drop (length xs - n) xs"

lemma last_n_append: "last_n n (xs @ ys) = (if n \<le> length ys then last_n n ys else last_n (n - length ys) xs @ ys)"
  by (simp add: last_n_def)

lemma length_last_n [simp]: "length (last_n n xs) = min (length xs) n"
  by (simp add: last_n_def)

lemma last_n_split: "\<exists>pre. xs = pre @ last_n n xs \<and> (n < length xs \<or> pre = [])"
  unfolding last_n_def by (intro exI [of _ "take (length xs - n) xs"]) auto

lemma last_n_idem: "length xs \<le> n \<Longrightarrow> last_n n xs = xs"
  by (simp add: last_n_def)

lemma remdups_snoc: "remdups (xs @ [x]) = filter (\<lambda>y. y \<noteq> x) (remdups xs) @ [x]"
  by (induction xs) auto

lemma length_filter_distinct:
  "distinct xs \<Longrightarrow> k \<in> set xs \<Longrightarrow> length (filter (\<lambda>y. y \<noteq> k) xs) = length xs - 1"
proof (induction xs)
  case (Cons x xs)
  show ?case
  proof (cases "x = k")
    case True
    with Cons.prems have "filter (\<lambda>y. y \<noteq> k) xs = xs" by (auto intro: filter_True)
    with True show ?thesis by simp
  next
    case False
    with Cons.prems have "k \<in> set xs" by simp
    with Cons False show ?thesis by (cases xs) auto
  qed
qed simp

text \<open>Using a key moves it to the end and, in a full window, drops the first one.\<close>

lemma last_n_use:
  assumes "distinct R" and "0 < n"
  shows "last_n n (filter (\<lambda>y. y \<noteq> k) R @ [k]) =
    (if k \<in> set (last_n n R) then filter (\<lambda>y. y \<noteq> k) (last_n n R) @ [k]
     else if length (last_n n R) = n then tl (last_n n R) @ [k] else last_n n R @ [k])"
proof -
  let ?f = "filter (\<lambda>y. y \<noteq> k)"
  obtain pre K where K: "last_n n R = K" and R: "R = pre @ K" and pre: "n < length R \<or> pre = []"
    using last_n_split [of R n] by blast
  have len: "length K = min (length R) n" using length_last_n [of n R] by (simp only: K)
  have last: "last_n n (?f R @ [k]) = last_n (n - 1) (?f pre @ ?f K) @ [k]"
    using assms(2) by (cases n) (simp_all add: last_n_def R)
  show ?thesis
  proof (cases "k \<in> set K")
    case True
    with assms(1) R have "length (?f K) = length K - 1" by (intro length_filter_distinct) auto
    moreover have "?f pre = pre" using True assms(1) R by (auto intro!: filter_True)
    ultimately have "last_n (n - 1) (?f pre @ ?f K) = ?f K"
      using pre len by (auto simp: last_n_def min_def split: if_splits)
    with True last K show ?thesis by simp
  next
    case False
    then have fK: "?f K = K" by (auto intro: filter_True)
    show ?thesis
    proof (cases "length K = n")
      case True
      then have "last_n (n - 1) (?f pre @ K) = tl K"
        using assms(2) by (cases K) (auto simp: last_n_def)
      with True False last fK K show ?thesis by simp
    next
      case short: False
      then have "pre = []" "length K \<le> n - 1" using pre len by auto
      then have "last_n (n - 1) (?f pre @ K) = K" by (simp add: last_n_def)
      with short False last fK K show ?thesis by simp
    qed
  qed
qed

section \<open>What the cache holds\<close>

abbreviation cache_keys :: "('k, 'v) cache_state \<Rightarrow> 'k list" where
  "cache_keys c \<equiv> map entry_key (cache_entries c)"

abbreviation cache_view :: "('k, 'v) cache_state \<Rightarrow> ('k \<rightharpoonup> 'v)" where
  "cache_view c \<equiv> view entry_key entry_value (cache_entries c)"

text \<open>The store without a bound, and the keys a history uses: every put and every hit.\<close>

fun store_step :: "('k \<rightharpoonup> 'v) \<Rightarrow> ('k, 'v, 'r) cache_message \<Rightarrow> ('k \<rightharpoonup> 'v)" where
  "store_step m (Put k v r) = m(k \<mapsto> v)"
| "store_step m (Get k r) = m"
| "store_step m (Remove k r) = m(k := None)"

definition stored :: "('k, 'v, 'r) cache_message list \<Rightarrow> ('k \<rightharpoonup> 'v)" where
  "stored = foldl store_step Map.empty"

type_synonym ('k, 'v, 'r) cache_history = "(('k, 'v, 'r) cache_message \<times> ('k, 'v, 'r) cache_actions option) list"

fun hit_key :: "('k, 'v) cache_result \<Rightarrow> 'k list" where
  "hit_key (Hit k v) = [k]"
| "hit_key _ = []"

fun used_key :: "('k, 'v, 'r) cache_message \<times> ('k, 'v, 'r) cache_actions option \<Rightarrow> 'k list" where
  "used_key (Put k v r, out) = [k]"
| "used_key (m, Some a) = concat (map (hit_key \<circ> delivered) (sends a))"
| "used_key (m, None) = []"

definition used_keys :: "('k, 'v, 'r) cache_history \<Rightarrow> 'k list" where
  "used_keys h = concat (map used_key h)"

fun is_removal :: "('k, 'v, 'r) cache_message \<Rightarrow> bool" where
  "is_removal (Remove k r) = True"
| "is_removal _ = False"

definition cache_traced :: "usize \<Rightarrow> ('k, 'v, 'r) cache_history \<Rightarrow> ('k, 'v) cache_state \<Rightarrow> bool" where
  "cache_traced n h c \<longleftrightarrow> 0 < n \<and> cache_capacity c = n \<and> distinct (cache_keys c) \<and> length (cache_entries c) \<le> n
     \<and> cache_view c \<subseteq>\<^sub>m stored (map fst h)
     \<and> (list_ex (is_removal \<circ> fst) h \<or> cache_keys c = last_n n (remdups (used_keys h)))"

lemma used_keys_snoc [simp]: "used_keys (h @ [x]) = used_keys h @ used_key x"
  by (simp add: used_keys_def)

lemma stored_snoc [simp]: "stored (ms @ [m]) = store_step (stored ms) m"
  by (simp add: stored_def)

lemma keys_remove_at:
  "find_key entry_key k es = Some i \<Longrightarrow> distinct (map entry_key es) \<Longrightarrow>
     map entry_key (remove_at i es) = filter (\<lambda>y. y \<noteq> k) (map entry_key es)"
  using find_key_Some [of entry_key k es i] remove_at_filter [of "map entry_key es" i] by simp

text \<open>Using a key that is held, and storing one that is not.\<close>

lemma cache_traced_use:
  assumes tr: "cache_traced n h c" and at: "find_key entry_key k (cache_entries c) = Some i"
    and e: "entry_key e = k" and used: "used_key x = [k]" and m: "\<not> is_removal (fst x)"
    and st: "store_step (stored (map fst h)) (fst x) = (stored (map fst h))(k \<mapsto> entry_value e)"
  shows "cache_traced n (h @ [x]) (c\<lparr>cache_entries := remove_at i (cache_entries c) @ [e]\<rparr>)"
proof -
  let ?es = "cache_entries c"
  have dist: "distinct (map entry_key ?es)" and len: "length ?es \<le> n" and n: "0 < n" using tr by (auto simp: cache_traced_def)
  have i: "i < length ?es" and ki: "k \<in> set (cache_keys c)" using find_key_Some [OF at] by force+
  have keys: "map entry_key (remove_at i ?es) = filter (\<lambda>y. y \<noteq> k) (cache_keys c)" by (rule keys_remove_at [OF at dist])
  then have "k \<notin> set (map entry_key (remove_at i ?es))" by (simp del: map_remove_at)
  then have none: "find_key entry_key k (remove_at i ?es) = None" by (auto simp del: map_remove_at)
  have "view entry_key entry_value (remove_at i ?es @ [e]) = (cache_view c)(k \<mapsto> entry_value e)"
    using none e view_push [of entry_key e "remove_at i ?es" entry_value] view_remove [OF at dist, of entry_value]
    by (simp del: position_None_iff)
  then have "view entry_key entry_value (remove_at i ?es @ [e]) \<subseteq>\<^sub>m stored (map fst h @ [fst x])"
    using tr st by (auto simp: cache_traced_def map_le_def)
  moreover have "map entry_key (remove_at i ?es @ [e]) = last_n n (remdups (used_keys h @ [k]))"
    if eq: "cache_keys c = last_n n (remdups (used_keys h))"
    using ki keys e last_n_use [OF distinct_remdups [of "used_keys h"] n, of k]
    unfolding remdups_snoc eq [symmetric] by (simp del: map_remove_at)
  ultimately show ?thesis using tr i len dist keys e used m
    by (auto simp: cache_traced_def simp del: map_remove_at)
qed

lemma cache_traced_store:
  assumes tr: "cache_traced n h c" and new: "find_key entry_key k (cache_entries c) = None"
    and e: "e = \<lparr>entry_key = k, entry_value = v\<rparr>"
    and kept: "kept = (if length (cache_entries c) = n then tl (cache_entries c) else cache_entries c)"
  shows "cache_traced n (h @ [(Put k v r, out)]) (c\<lparr>cache_entries := kept @ [e]\<rparr>)"
proof -
  let ?es = "cache_entries c"
  have dist: "distinct (map entry_key ?es)" and len: "length ?es \<le> n" and n: "0 < n" using tr by (auto simp: cache_traced_def)
  have sub: "set kept \<subseteq> set ?es" by (cases ?es) (auto simp: kept)
  with new have none: "find_key entry_key k kept = None" by auto
  have "view entry_key entry_value kept \<subseteq>\<^sub>m cache_view c"
  proof (cases ?es)
    case (Cons x xs)
    with dist have "view entry_key entry_value xs (entry_key x) = None" by (auto simp: view_None_iff)
    then show ?thesis by (auto simp: kept Cons map_le_def)
  qed (simp add: kept)
  moreover have "view entry_key entry_value (kept @ [e]) = (view entry_key entry_value kept)(k \<mapsto> v)"
    using none e view_push [of entry_key e kept entry_value] by (simp del: position_None_iff)
  ultimately have "view entry_key entry_value (kept @ [e]) \<subseteq>\<^sub>m (cache_view c)(k \<mapsto> v)"
    by (simp add: map_le_upd)
  also have "\<dots> \<subseteq>\<^sub>m (stored (map fst h))(k \<mapsto> v)" using tr by (auto simp: cache_traced_def intro: map_le_upd)
  finally (map_le_trans) have "view entry_key entry_value (kept @ [e]) \<subseteq>\<^sub>m (stored (map fst h))(k \<mapsto> v)" .
  moreover have "k \<notin> set (cache_keys c)" using new by auto
  then have "map entry_key (kept @ [e]) = last_n n (remdups (used_keys h @ [k]))"
    if eq: "cache_keys c = last_n n (remdups (used_keys h))"
    using e last_n_use [OF distinct_remdups [of "used_keys h"] n, of k]
    unfolding remdups_snoc eq [symmetric] by (simp add: kept map_tl)
  moreover have "distinct (map entry_key (kept @ [e]))" "length (kept @ [e]) \<le> n"
    using dist len n e none by (auto simp: kept map_tl distinct_tl)
  ultimately show ?thesis using tr by (auto simp: cache_traced_def)
qed

lemma cache_traced_remove:
  assumes tr: "cache_traced n h c" and at: "find_key entry_key k (cache_entries c) = Some i"
  shows "cache_traced n (h @ [(Remove k r, out)]) (c\<lparr>cache_entries := remove_at i (cache_entries c)\<rparr>)"
proof -
  have dist: "distinct (cache_keys c)" using tr by (simp add: cache_traced_def)
  have "view entry_key entry_value (remove_at i (cache_entries c)) = (cache_view c)(k := None)"
    by (rule view_remove [OF at dist])
  then show ?thesis using tr find_key_Some [OF at]
    by (auto simp: cache_traced_def map_le_def)
qed

lemma cache_step_traced:
  assumes "cache_traced n h c"
  shows "snd (cache_transition c e) \<noteq> None"
    and "cache_traced n (h @ [(e, snd (cache_transition c e))]) (fst (cache_transition c e))"
proof -
  have found: "entry_key (cache_entries c ! i) = k" if "find_key entry_key k (cache_entries c) = Some i" for k i
    using find_key_Some [OF that] by simp
  have stored: "(stored (map fst h))(k \<mapsto> entry_value (cache_entries c ! i)) = stored (map fst h)"
    if at: "find_key entry_key k (cache_entries c) = Some i" for k i
  proof (rule fun_upd_idem)
    have "cache_view c \<subseteq>\<^sub>m stored (map fst h)" using assms by (simp add: cache_traced_def)
    with find_key_view [OF at, of entry_value]
    show "stored (map fst h) k = Some (entry_value (cache_entries c ! i))" by (metis domI map_le_def)
  qed
  have cap: "cache_capacity c = n" "0 < n" using assms by (auto simp: cache_traced_def)
  have "snd (cache_transition c e) \<noteq> None
    \<and> cache_traced n (h @ [(e, snd (cache_transition c e))]) (fst (cache_transition c e))"
  proof (cases e)
    case (Put k v r)
    show ?thesis
    proof (cases "find_key entry_key k (cache_entries c)")
      case (Some i)
      with Put cache_traced_use [OF assms Some, of "\<lparr>entry_key = k, entry_value = v\<rparr>" "(e, snd (cache_transition c e))"]
      show ?thesis by (simp add: cache_put_def Let_def)
    next
      case None
      with Put cap cache_traced_store [OF assms None refl refl, where v = v and r = r] show ?thesis
        by (cases "cache_entries c") (auto simp: cache_put_def Let_def simp del: position_None_iff)
    qed
  next
    case (Get k r)
    show ?thesis
    proof (cases "find_key entry_key k (cache_entries c)")
      case (Some i)
      with Get found [OF Some] stored [OF Some]
        cache_traced_use [OF assms Some, of "cache_entries c ! i" "(e, snd (cache_transition c e))"]
      show ?thesis by (simp add: cache_get_def cache_reply_def Let_def core_defs deliver_def)
    next
      case None
      with Get assms show ?thesis
        by (auto simp: cache_get_def cache_reply_def Let_def core_defs deliver_def cache_traced_def
            simp del: position_None_iff)
    qed
  next
    case (Remove k r)
    show ?thesis
    proof (cases "find_key entry_key k (cache_entries c)")
      case (Some i)
      with Remove cache_traced_remove [OF assms Some] show ?thesis by (simp add: cache_remove_def Let_def)
    next
      case None
      then have "cache_view c k = None" by (simp only: find_key_None_iff [where val = entry_value])
      with None Remove assms show ?thesis
        by (auto simp: cache_remove_def Let_def cache_traced_def map_le_def simp del: position_None_iff)
    qed
  qed
  then show "snd (cache_transition c e) \<noteq> None"
    and "cache_traced n (h @ [(e, snd (cache_transition c e))]) (fst (cache_transition c e))" by simp_all
qed

interpretation cache: traced_fold cache_transition "cache_traced n" "\<lambda>e out. [(e, out)]" for n
  by unfold_locales (rule cache_step_traced(2))

text \<open>
  C39: A cache of positive capacity n never panics, never holds more than n entries or a key
  twice, and every value it holds is the one last put under its key and not removed since.
  As long as nothing is removed it holds exactly the last n distinct keys that were put or
  hit, in the order of their last use, so that it evicts the least recently used one.
\<close>

theorem cache_is_lru:
  assumes "cache_configuration_new n = Inr m"
  shows "let (c, outs) = run cache_transition (cache_new m) es
   in None \<notin> set outs \<and> length (cache_entries c) \<le> n \<and> distinct (cache_keys c)
      \<and> cache_view c \<subseteq>\<^sub>m stored es
      \<and> (list_ex is_removal es \<or> cache_keys c = last_n n (remdups (used_keys (zip es outs))))"
proof -
  have n: "m = n" "0 < n" using assms by (auto simp: cache_configuration_new_def split: if_splits)
  have start: "cache_traced n [] (cache_new n)"
    using n by (auto simp: cache_traced_def cache_new_def last_n_def used_keys_def)
  obtain c outs where run: "run cache_transition (cache_new m) es = (c, outs)" by fastforce
  have "None \<notin> set outs"
    using cache.run_trace_outputs [where Q = "\<lambda>out. out \<noteq> None", OF cache_step_traced(1) start, where out = None and es = es]
    by (auto simp: run n(1) [symmetric])
  moreover have "cache_traced n (zip es outs) c"
    using cache.run_trace [OF start, of es] run n by (simp add: concat_pairs)
  moreover have "map fst (zip es outs) = es"
    using length_run_outputs [of cache_transition "cache_new m" es] by (simp add: run)
  then have "list_ex (is_removal \<circ> fst) (zip es outs) = list_ex is_removal es"
    using list.pred_map [of "Not \<circ> is_removal" fst "zip es outs"] by (auto simp: list_ex_iff list_all_iff)
  ultimately show ?thesis using \<open>map fst (zip es outs) = es\<close> by (simp add: run cache_traced_def)
qed

theorem cache_is_lru_witness:
  "let (c, outs) = run cache_transition (cache_new 2)
     [Put (1 :: nat) (10 :: nat) (0 :: nat), Put 2 20 0, Get 1 0, Put 3 30 0]
   in cache_configuration_new 2 = Inr 2 \<and> length (cache_entries c) \<le> 2 \<and> cache_keys c = [1, 3]"
proof -
  let ?es = "[Put (1 :: nat) (10 :: nat) (0 :: nat), Put 2 20 0, Get 1 0, Put 3 30 0]"
  have new: "cache_configuration_new 2 = Inr 2" by (simp add: cache_configuration_new_def)
  have "cache_keys (run_state cache_transition (cache_new 2) ?es) = [1, 3]" by code_simp
  with cache_is_lru [OF new, of ?es] new show ?thesis by (auto simp: split_beta Let_def)
qed

end
