(* ===== verification/Presence.thy ===== *)
theory Presence
  imports Timers Keyed_Vec
begin

text \<open>
  \<^verbatim>\<open>discovery/presence.rs\<close>: versioned announcements that expire. Each accepted announcement
  requests one timer generation; only the elapse of that generation expires it.
\<close>

section \<open>State and fold\<close>

type_synonym presence_version = u64

datatype presence_phase =
    Present presence_version timer_generation duration
  | PhaseExpired presence_version timer_generation

record 'k presence_entry =
  participant :: 'k
  presence_timer :: timer_id
  presence_phase :: presence_phase

datatype 'k presence_error =
    StaleVersion 'k presence_version presence_version duration
  | ConflictingVersion 'k presence_version duration
  | TimerCollision 'k 'k timer_id presence_version duration
  | GenerationExhausted 'k presence_version duration

datatype 'k presence_outcome =
    Announced 'k presence_version timer_generation
  | Refreshed 'k presence_version timer_generation
  | Unchanged 'k presence_version timer_generation
  | Expired 'k presence_version timer_generation
  | PresenceRejected "'k presence_error"

datatype 'k presence_reply = Outcome "'k presence_outcome" | Report "'k presence_entry list"

datatype ('k, 'r) presence_message = Announce 'k presence_version duration 'r | Query 'r

record ('r, 'k) presence_sends =
  replies :: "('r, 'k presence_reply) delivery list"
  schedules :: "timer_id schedule_after list"

record ('k, 'r) presence_record = "'k presence_entry" +
  notify :: 'r

record ('k, 'r) presence =
  timer_id_of :: "'k \<Rightarrow> timer_id"
  presence_records :: "('k, 'r) presence_record list"

type_synonym ('k, 'r) presence_actions = "(('r, 'k) presence_sends, never, never) actions"
type_synonym ('a, 'k, 'r) presence_event = "(timer_id timer_elapsed, ('a, ('k, 'r) presence_message) user) event_layer"

definition presence_new :: "('k \<Rightarrow> timer_id) \<Rightarrow> ('k, 'r) presence" where
  "presence_new f = \<lparr>timer_id_of = f, presence_records = []\<rparr>"

definition presence_report :: "('k, 'r) presence \<Rightarrow> 'k presence_entry list" where
  "presence_report p = map presence_entry.truncate (presence_records p)"

definition presence_respond :: "'r \<Rightarrow> 'k presence_reply \<Rightarrow> ('k, 'r) presence_actions" where
  "presence_respond r reply = send_actions \<lparr>replies = deliver r reply, schedules = []\<rparr>"

definition presence_idle :: "('k, 'r) presence_actions" where
  "presence_idle = send_actions \<lparr>replies = [], schedules = []\<rparr>"

fun phase_generation :: "presence_phase \<Rightarrow> timer_generation" where
  "phase_generation (Present v g d) = g"
| "phase_generation (PhaseExpired v g) = g"

fun phase_version :: "presence_phase \<Rightarrow> presence_version" where
  "phase_version (Present v g d) = v"
| "phase_version (PhaseExpired v g) = v"

fun is_present :: "presence_phase \<Rightarrow> bool" where
  "is_present (Present v g d) = True"
| "is_present (PhaseExpired v g) = False"

text \<open>The successor of the greatest generation any record of the timer has had.\<close>

definition next_generation :: "('k, 'r) presence \<Rightarrow> timer_id \<Rightarrow> timer_generation option" where
  "next_generation p t =
     (case map (\<lambda>x. phase_generation (presence_phase x))
         (filter (\<lambda>x. presence_timer x = t) (presence_records p)) of
        [] \<Rightarrow> Some 0
      | g # gs \<Rightarrow> checked_add (foldl max g gs) 1)"

definition granted_announcement :: "'r \<Rightarrow> 'k presence_outcome \<Rightarrow> timer_id \<Rightarrow> timer_generation \<Rightarrow> duration
    \<Rightarrow> ('k, 'r) presence_actions" where
  "granted_announcement r out t g d = send_actions
     \<lparr>replies = deliver r (Outcome out),
      schedules = [\<lparr>after_id = t, after_generation = g, after_delay = d\<rparr>]\<rparr>"

definition introduce :: "('k, 'r) presence \<Rightarrow> 'k \<Rightarrow> presence_version \<Rightarrow> duration \<Rightarrow> 'r \<Rightarrow> timer_id
    \<Rightarrow> ('k, 'r) presence \<times> ('k, 'r) presence_actions" where
  "introduce p k v d r t =
     (case next_generation p t of
        None \<Rightarrow> (p, presence_respond r (Outcome (PresenceRejected (GenerationExhausted k v d))))
      | Some g \<Rightarrow>
          (p\<lparr>presence_records := presence_records p @
               [\<lparr>participant = k, presence_timer = t, presence_phase = Present v g d, notify = r\<rparr>]\<rparr>,
           granted_announcement r (Announced k v g) t g d))"

definition refresh :: "('k, 'r) presence \<Rightarrow> nat \<Rightarrow> 'k \<Rightarrow> presence_version \<Rightarrow> duration \<Rightarrow> 'r \<Rightarrow> timer_id
    \<Rightarrow> ('k, 'r) presence \<times> ('k, 'r) presence_actions" where
  "refresh p i k v d r t =
     (let phase = presence_phase (presence_records p ! i); current = phase_version phase
      in if v < current
         then (p, presence_respond r (Outcome (PresenceRejected (StaleVersion k v current d))))
         else if v = current
         then (case phase of
                 Present _ g current_lifetime \<Rightarrow>
                   if current_lifetime = d then (p, presence_respond r (Outcome (Unchanged k v g)))
                   else (p, presence_respond r (Outcome (PresenceRejected (ConflictingVersion k v d))))
               | PhaseExpired _ _ \<Rightarrow>
                   (p, presence_respond r (Outcome (PresenceRejected (ConflictingVersion k v d)))))
         else case next_generation p t of
             None \<Rightarrow> (p, presence_respond r (Outcome (PresenceRejected (GenerationExhausted k v d))))
           | Some g \<Rightarrow>
               (p\<lparr>presence_records := (presence_records p)[i := (presence_records p ! i)
                    \<lparr>presence_phase := Present v g d, notify := r\<rparr>]\<rparr>,
                granted_announcement r (Refreshed k v g) t g d))"

definition announce :: "('k, 'r) presence \<Rightarrow> 'k \<Rightarrow> presence_version \<Rightarrow> duration \<Rightarrow> 'r
    \<Rightarrow> ('k, 'r) presence \<times> ('k, 'r) presence_actions" where
  "announce p k v d r =
     (let t = timer_id_of p k
      in case find (\<lambda>x. participant x \<noteq> k \<and> presence_timer x = t \<and> is_present (presence_phase x)) (presence_records p) of
           Some x \<Rightarrow> (p, presence_respond r (Outcome (PresenceRejected (TimerCollision k (participant x) t v d))))
         | None \<Rightarrow>
             (case find_key participant k (presence_records p) of
                Some i \<Rightarrow> refresh p i k v d r t
              | None \<Rightarrow> introduce p k v d r t))"

fun presence_message_step :: "('k, 'r) presence \<Rightarrow> ('k, 'r) presence_message
    \<Rightarrow> ('k, 'r) presence \<times> ('k, 'r) presence_actions" where
  "presence_message_step p (Announce k v d r) = announce p k v d r"
| "presence_message_step p (Query r) = (p, presence_respond r (Report (presence_report p)))"

fun awaits :: "timer_id timer_elapsed \<Rightarrow> ('k, 'r) presence_record \<Rightarrow> bool" where
  "awaits e x = (presence_timer x = elapsed_id e \<and> (case presence_phase x of
      Present v g d \<Rightarrow> g = elapsed_generation e
    | PhaseExpired v g \<Rightarrow> False))"

definition presence_elapse :: "('k, 'r) presence \<Rightarrow> timer_id timer_elapsed
    \<Rightarrow> ('k, 'r) presence \<times> ('k, 'r) presence_actions" where
  "presence_elapse p e =
     (case position (awaits e) (presence_records p) of
        None \<Rightarrow> (p, presence_idle)
      | Some i \<Rightarrow>
          (let x = presence_records p ! i
           in case presence_phase x of
                PhaseExpired v g \<Rightarrow> (p, presence_idle)
              | Present v g d \<Rightarrow>
                  (p\<lparr>presence_records := (presence_records p)[i := x\<lparr>presence_phase := PhaseExpired v g\<rparr>]\<rparr>,
                   presence_respond (notify x) (Outcome (Expired (participant x) v g)))))"

definition presence_transition :: "('k, 'r) presence \<Rightarrow> ('a, 'k, 'r) presence_event
    \<Rightarrow> ('k, 'r) presence \<times> ('k, 'r) presence_actions" where
  "presence_transition p ev = (case ev of
      Inner u \<Rightarrow> presence_message_step p (user_message u)
    | Owned e \<Rightarrow> presence_elapse p e)"

section \<open>Timers are issued fresh and expire at most once\<close>

text \<open>What an output does to timers: the generations it requests and those it reports as expired.\<close>

datatype timer_mark = MarkIssued timer_id timer_generation | MarkExpired timer_id timer_generation

fun expired_mark :: "('k \<Rightarrow> timer_id) \<Rightarrow> 'k presence_reply \<Rightarrow> timer_mark list" where
  "expired_mark f (Outcome (Expired k v g)) = [MarkExpired (f k) g]"
| "expired_mark f _ = []"

definition presence_marks :: "('k \<Rightarrow> timer_id) \<Rightarrow> ('k, 'r) presence_actions \<Rightarrow> timer_mark list" where
  "presence_marks f a =
     map (\<lambda>s. MarkIssued (after_id s) (after_generation s)) (schedules (sends a))
     @ concat (map (expired_mark f \<circ> delivered) (replies (sends a)))"

abbreviation generation_of :: "('k, 'r) presence_record \<Rightarrow> timer_generation" where
  "generation_of x \<equiv> phase_generation (presence_phase x)"

definition issued_timers :: "timer_mark list \<Rightarrow> (timer_id \<times> timer_generation) set" where
  "issued_timers h = {(t, g). MarkIssued t g \<in> set h}"

definition expired_timers :: "timer_mark list \<Rightarrow> (timer_id \<times> timer_generation) set" where
  "expired_timers h = {(t, g). MarkExpired t g \<in> set h}"

definition present_records :: "('k, 'r) presence_record list \<Rightarrow> ('k, 'r) presence_record set" where
  "present_records xs = {x \<in> set xs. is_present (presence_phase x)}"

abbreviation record_timer :: "('k, 'r) presence_record \<Rightarrow> timer_id \<times> timer_generation" where
  "record_timer x \<equiv> (presence_timer x, generation_of x)"

definition presence_traced :: "('k \<Rightarrow> timer_id) \<Rightarrow> timer_mark list \<Rightarrow> ('k, 'r) presence \<Rightarrow> bool" where
  "presence_traced f h p \<longleftrightarrow> timer_id_of p = f \<and> distinct h \<and> expired_timers h \<subseteq> issued_timers h
     \<and> distinct (map participant (presence_records p))
     \<and> (\<forall>x \<in> set (presence_records p). presence_timer x = f (participant x))
     \<and> record_timer ` set (presence_records p) \<subseteq> issued_timers h
     \<and> record_timer ` present_records (presence_records p) \<inter> expired_timers h = {}
     \<and> (\<forall>(t, g) \<in> issued_timers h. \<exists>x \<in> set (presence_records p). presence_timer x = t \<and> g \<le> generation_of x)
     \<and> inj_on presence_timer (present_records (presence_records p))"

lemma timers_snoc [simp]:
  "issued_timers (h @ [MarkIssued t g]) = insert (t, g) (issued_timers h)"
  "expired_timers (h @ [MarkIssued t g]) = expired_timers h"
  "issued_timers (h @ [MarkExpired t g]) = issued_timers h"
  "expired_timers (h @ [MarkExpired t g]) = insert (t, g) (expired_timers h)"
  by (auto simp: issued_timers_def expired_timers_def)

lemma foldl_max_ge:
  fixes x :: "'a::linorder"
  shows "x \<in> set (g # gs) \<Longrightarrow> x \<le> foldl max g gs"
proof (induction gs arbitrary: g x)
  case (Cons a gs)
  have "max g a \<le> foldl max (max g a) gs" by (rule Cons.IH) simp
  then have "g \<le> foldl max (max g a) gs" "a \<le> foldl max (max g a) gs" by (auto intro: order_trans)
  with Cons.prems Cons.IH [of x "max g a"] show ?case by auto
qed simp

text \<open>The next generation is above every generation of the timer's records.\<close>

lemma next_generation_above:
  assumes "next_generation p t = Some g" and "x \<in> set (presence_records p)" and "presence_timer x = t"
  shows "generation_of x < g"
proof -
  obtain g0 gs where gs: "map generation_of (filter (\<lambda>x. presence_timer x = t) (presence_records p)) = g0 # gs"
    using assms(2,3) by (cases "map generation_of (filter (\<lambda>x. presence_timer x = t) (presence_records p))")
      (auto simp: filter_empty_conv)
  then have "generation_of x \<in> set (g0 # gs)" using assms(2,3) unfolding gs [symmetric] by auto
  then have "generation_of x \<le> foldl max g0 gs" by (rule foldl_max_ge)
  also from assms(1) gs have "\<dots> < g" by (simp add: next_generation_def checked_succ_less)
  finally show ?thesis .
qed

lemma next_generation_fresh:
  assumes "presence_traced f h p" and "next_generation p t = Some g"
  shows "(t, g) \<notin> issued_timers h"
proof
  assume "(t, g) \<in> issued_timers h"
  with assms(1) obtain x where "x \<in> set (presence_records p)" "presence_timer x = t" "g \<le> generation_of x"
    unfolding presence_traced_def by fast
  with next_generation_above [OF assms(2), of x] show False by simp
qed

text \<open>A record that takes a fresh generation, in the place of the one its participant had.\<close>

lemma presence_traced_grant:
  assumes tr: "presence_traced f h p" and g: "next_generation p (f (participant x)) = Some g"
    and x: "presence_timer x = f (participant x)" "generation_of x = g"
    and recs: "set recs = insert x {y \<in> set (presence_records p). participant y \<noteq> participant x}"
      "distinct (map participant recs)"
    and alone: "\<forall>y \<in> set (presence_records p). participant y \<noteq> participant x \<and> presence_timer y = f (participant x)
      \<longrightarrow> \<not> is_present (presence_phase y)"
  shows "presence_traced f (h @ [MarkIssued (f (participant x)) g]) (p\<lparr>presence_records := recs\<rparr>)"
proof -
  let ?t = "f (participant x)" and ?old = "presence_records p"
  note tr' = tr [unfolded presence_traced_def]
  have fresh: "(?t, g) \<notin> issued_timers h" by (rule next_generation_fresh [OF tr g])
  then have new: "MarkIssued ?t g \<notin> set h" by (simp add: issued_timers_def)
  have live: "(?t, g) \<notin> expired_timers h" using fresh tr' by blast
  have pres: "present_records recs \<subseteq> insert x (present_records ?old)" using recs(1) by (auto simp: present_records_def)
  have old: "record_timer ` present_records ?old \<inter> expired_timers h = {}" using tr' by blast
  have "record_timer ` present_records recs \<subseteq> insert (?t, g) (record_timer ` present_records ?old)"
    using image_mono [OF pres, of record_timer] x by simp
  then have "record_timer ` present_records recs \<inter> expired_timers h \<subseteq> {}"
    using live old by (metis (no_types, lifting) Int_insert_left inf_mono order_refl subset_trans)
  then have unexpired: "record_timer ` present_records recs \<inter> expired_timers h = {}" by simp
  have covered: "\<exists>y \<in> set recs. presence_timer y = t \<and> g' \<le> generation_of y"
    if "(t, g') \<in> insert (?t, g) (issued_timers h)" for t g'
  proof (cases "(t, g') \<in> issued_timers h")
    case True
    with tr' obtain y where y: "y \<in> set ?old" "presence_timer y = t" "g' \<le> generation_of y" by fast
    show ?thesis
    proof (cases "participant y = participant x")
      case True
      with y tr' have "t = ?t" by auto
      with next_generation_above [OF g y(1)] y x recs(1) show ?thesis by (intro bexI [of _ x]) auto
    qed (use y recs(1) in blast)
  qed (use that x recs(1) in auto)
  have single: "inj_on presence_timer (present_records recs)"
  proof (rule inj_onI)
    fix y z assume yz: "y \<in> present_records recs" "z \<in> present_records recs" "presence_timer y = presence_timer z"
    have inj: "inj_on presence_timer (present_records ?old)" using tr' by blast
    have at: "w = x" if "w \<in> present_records recs" "presence_timer w = ?t" for w
      using that recs(1) alone by (auto simp: present_records_def)
    show "y = z"
    proof (cases "presence_timer y = ?t")
      case True
      then have "presence_timer z = ?t" using yz(3) by (rule subst [rotated])
      with True show ?thesis using at [OF yz(1)] at [OF yz(2)] by blast
    next
      case False
      with yz x(1) have "y \<noteq> x" "z \<noteq> x" by auto
      then have "y \<in> present_records ?old" "z \<in> present_records ?old"
        using subsetD [OF pres yz(1)] subsetD [OF pres yz(2)] by simp_all
      with inj yz(3) show ?thesis by (simp add: inj_on_def)
    qed
  qed
  have "distinct (h @ [MarkIssued ?t g])" using tr' new by simp
  moreover have "expired_timers h \<subseteq> insert (?t, g) (issued_timers h)" using tr' by blast
  moreover have "\<forall>y \<in> set recs. presence_timer y = f (participant y)" using tr' x(1) unfolding recs(1) by simp
  moreover have "record_timer ` set recs \<subseteq> insert (?t, g) (issued_timers h)"
  proof -
    have "record_timer ` set ?old \<subseteq> issued_timers h" using tr' by blast
    then have "record_timer ` {y \<in> set ?old. participant y \<noteq> participant x} \<subseteq> issued_timers h" by blast
    then show ?thesis unfolding recs(1) image_insert x by blast
  qed
  ultimately show ?thesis
    using tr' unexpired covered single recs(2) unfolding presence_traced_def by (simp add: split_beta)
qed

text \<open>A record that expires.\<close>

lemma presence_traced_expire:
  assumes tr: "presence_traced f h p" and at: "find_key participant k (presence_records p) = Some i"
    and x: "x = presence_records p ! i" and phase: "presence_phase x = Present v g d"
    and y: "y = x\<lparr>presence_phase := PhaseExpired v g\<rparr>"
  shows "presence_traced f (h @ [MarkExpired (f k) g]) (p\<lparr>presence_records := (presence_records p)[i := y]\<rparr>)"
proof -
  let ?old = "presence_records p" and ?recs = "(presence_records p)[i := y]"
  note tr' = tr [unfolded presence_traced_def]
  have k: "participant x = k" "x \<in> set ?old" using find_key_Some [OF at] x by auto
  then have yk: "participant y = k" "presence_timer y = f k" "generation_of y = g" "\<not> is_present (presence_phase y)"
    using tr' y by auto
  have timer: "presence_timer x = f k" "generation_of x = g" "x \<in> present_records ?old"
    using k tr' phase by (auto simp: present_records_def)
  have set: "set ?recs = insert y {z \<in> set ?old. participant z \<noteq> k}"
    using tr' by (intro set_update_key [OF at _ yk(1)]) blast
  have rest: "present_records ?recs \<subseteq> present_records ?old - {x}"
    using k yk(4) unfolding present_records_def set by auto
  have "MarkExpired (f k) g \<notin> set h"
  proof -
    have "record_timer x \<notin> expired_timers h" using timer(3) tr' by blast
    then show ?thesis by (simp add: timer expired_timers_def)
  qed
  then have "distinct (h @ [MarkExpired (f k) g])" using tr' by simp
  moreover have "insert (f k, g) (expired_timers h) \<subseteq> issued_timers h"
  proof -
    have "record_timer x \<in> issued_timers h" using k(2) tr' by blast
    then show ?thesis using tr' by (simp add: timer)
  qed
  moreover have "distinct (map participant ?recs)" using keys_update [OF at yk(1)] tr' by simp
  moreover have "\<forall>z \<in> set ?recs. presence_timer z = f (participant z)" using tr' yk unfolding set by simp
  moreover have "record_timer ` set ?recs \<subseteq> issued_timers h"
    using calculation(2) tr' unfolding set image_insert yk by blast
  moreover have "record_timer ` present_records ?recs \<inter> insert (f k, g) (expired_timers h) = {}"
  proof -
    have "presence_timer z \<noteq> f k" if "z \<in> present_records ?recs" for z
    proof
      assume "presence_timer z = f k"
      moreover have "z \<in> present_records ?old" "z \<noteq> x" using subsetD [OF rest that] by simp_all
      moreover have "inj_on presence_timer (present_records ?old)" using tr' by blast
      ultimately show False using timer by (metis inj_on_def)
    qed
    moreover have "record_timer ` present_records ?recs \<inter> expired_timers h = {}" using tr' rest by blast
    ultimately show ?thesis by blast
  qed
  moreover have "\<exists>z \<in> set ?recs. presence_timer z = t \<and> g' \<le> generation_of z" if "(t, g') \<in> issued_timers h" for t g'
  proof -
    from that tr' obtain z where z: "z \<in> set ?old" "presence_timer z = t" "g' \<le> generation_of z" by fast
    show ?thesis
    proof (cases "participant z = k")
      case True
      have "inj_on participant (set ?old)" using tr' by (simp add: distinct_map)
      then have "z = x" using z(1) k(2) True k(1) by (intro inj_onD [of participant "set ?old" z x]) simp_all
      then have "presence_timer y = t" "g' \<le> generation_of y" using z(2,3) timer(1,2) yk(2,3) by metis+
      then show ?thesis unfolding set by blast
    qed (use z in \<open>auto simp: set\<close>)
  qed
  moreover have "inj_on presence_timer (present_records ?recs)"
  proof (rule inj_on_subset)
    show "inj_on presence_timer (present_records ?old)" using tr' by blast
    show "present_records ?recs \<subseteq> present_records ?old" using rest by blast
  qed
  ultimately show ?thesis using tr' unfolding presence_traced_def by (simp add: split_beta)
qed

lemma presence_marks_simps [simp]:
  "presence_marks f (presence_respond r (Report es)) = []"
  "presence_marks f (presence_respond r (Outcome (PresenceRejected err))) = []"
  "presence_marks f (presence_respond r (Outcome (Unchanged k v g))) = []"
  "presence_marks f (presence_respond r (Outcome (Expired k v g))) = [MarkExpired (f k) g]"
  "presence_marks f presence_idle = []"
  "presence_marks f (granted_announcement r (Announced k v g) t g d) = [MarkIssued t g]"
  "presence_marks f (granted_announcement r (Refreshed k v g) t g d) = [MarkIssued t g]"
  by (simp_all add: presence_marks_def presence_respond_def presence_idle_def granted_announcement_def
      core_defs deliver_def)

lemma introduce_traced:
  assumes tr: "presence_traced f h p" and new: "find_key participant k (presence_records p) = None"
    and alone: "\<forall>y \<in> set (presence_records p). participant y \<noteq> k \<and> presence_timer y = f k
      \<longrightarrow> \<not> is_present (presence_phase y)"
  shows "presence_traced f (h @ presence_marks f (snd (introduce p k v d r (f k)))) (fst (introduce p k v d r (f k)))"
proof (cases "next_generation p (f k)")
  case (Some g)
  let ?x = "\<lparr>participant = k, presence_timer = f k, presence_phase = Present v g d, notify = r\<rparr>"
  have "\<forall>y \<in> set (presence_records p). participant y \<noteq> k" using new by auto
  moreover have "distinct (map participant (presence_records p))" using tr by (simp add: presence_traced_def)
  ultimately have "set (presence_records p @ [?x]) = insert ?x {y \<in> set (presence_records p). participant y \<noteq> participant ?x}"
    "distinct (map participant (presence_records p @ [?x]))" by auto
  from presence_traced_grant [OF tr _ _ _ this] Some alone show ?thesis by (simp add: introduce_def)
qed (use tr in \<open>simp add: introduce_def\<close>)

lemma refresh_traced:
  assumes tr: "presence_traced f h p" and at: "find_key participant k (presence_records p) = Some i"
    and alone: "\<forall>y \<in> set (presence_records p). participant y \<noteq> k \<and> presence_timer y = f k
      \<longrightarrow> \<not> is_present (presence_phase y)"
  shows "presence_traced f (h @ presence_marks f (snd (refresh p i k v d r (f k)))) (fst (refresh p i k v d r (f k)))"
proof (cases "next_generation p (f k)")
  case (Some g)
  let ?old = "presence_records p"
  let ?x = "(?old ! i)\<lparr>presence_phase := Present v g d, notify := r\<rparr>"
  have x: "participant ?x = k" "presence_timer ?x = f k"
    using find_key_Some [OF at] tr by (auto simp: presence_traced_def)
  have dist: "distinct (map participant ?old)" using tr by (simp add: presence_traced_def)
  have "set (?old[i := ?x]) = insert ?x {y \<in> set ?old. participant y \<noteq> participant ?x}"
    using set_update_key [OF at dist x(1)] x(1) by simp
  moreover have "distinct (map participant (?old[i := ?x]))" using keys_update [OF at x(1)] dist by simp
  ultimately have "presence_traced f (h @ [MarkIssued (f k) g]) (p\<lparr>presence_records := ?old[i := ?x]\<rparr>)"
    using presence_traced_grant [OF tr, of ?x g "?old[i := ?x]"] Some alone x by simp
  with tr Some show ?thesis by (auto simp: refresh_def Let_def split: presence_phase.splits)
qed (use tr in \<open>auto simp: refresh_def Let_def split: presence_phase.splits\<close>)

lemma elapse_traced:
  assumes tr: "presence_traced f h p"
  shows "presence_traced f (h @ presence_marks f (snd (presence_elapse p e))) (fst (presence_elapse p e))"
proof (cases "position (awaits e) (presence_records p)")
  case (Some i)
  let ?x = "presence_records p ! i"
  have i: "i < length (presence_records p)" "awaits e ?x" using position_SomeD [OF Some] by auto
  have dist: "distinct (map participant (presence_records p))" using tr by (simp add: presence_traced_def)
  show ?thesis
  proof (cases "presence_phase ?x")
    case (Present v g d)
    with Some presence_traced_expire [OF tr find_key_nth [OF dist i(1)] refl Present refl] show ?thesis
      by (simp add: presence_elapse_def Let_def)
  qed (use i(2) in simp)
qed (use tr in \<open>simp add: presence_elapse_def del: position_None_iff\<close>)

lemma presence_step_traced:
  assumes tr: "presence_traced f h p"
  shows "presence_traced f (h @ presence_marks f (snd (presence_transition p ev))) (fst (presence_transition p ev))"
proof (cases ev)
  case (Inner u)
  show ?thesis
  proof (cases "user_message u")
    case (Announce k v d r)
    have f: "timer_id_of p = f" using tr by (simp add: presence_traced_def)
    let ?P = "\<lambda>x. participant x \<noteq> k \<and> presence_timer x = f k \<and> is_present (presence_phase x)"
    show ?thesis
    proof (cases "find ?P (presence_records p)")
      case None
      then have "\<forall>y \<in> set (presence_records p). participant y \<noteq> k \<and> presence_timer y = f k
          \<longrightarrow> \<not> is_present (presence_phase y)" by (auto simp: find_None_iff)
      from introduce_traced [OF tr _ this] refresh_traced [OF tr _ this] Inner Announce None f show ?thesis
        by (cases "find_key participant k (presence_records p)")
          (simp_all add: presence_transition_def announce_def del: position_None_iff)
    qed (use tr Inner Announce f in \<open>simp add: presence_transition_def announce_def\<close>)
  qed (use tr Inner in \<open>simp add: presence_transition_def\<close>)
qed (use elapse_traced [OF tr] in \<open>simp add: presence_transition_def\<close>)

interpretation presence: traced_fold presence_transition "presence_traced f" "\<lambda>e out. presence_marks f out" for f
  by unfold_locales (rule presence_step_traced)

text \<open>
  Over any history of announcements, queries and timer elapses, no timer generation is
  requested twice and none expires twice or without having been requested. Every participant
  has one record, participants that are present have different timers, and the generation each
  of them waits for was requested and has not expired: a stale elapse expires nobody.
\<close>

theorem presence_timers_are_fresh:
  "let (p, outs) = run (presence_transition :: (('k, 'r) presence, ('a, 'k, 'r) presence_event, _) fold_step) (presence_new f) es;
       marks = concat (map (presence_marks f) outs);
       live = present_records (presence_records p)
   in distinct marks \<and> expired_timers marks \<subseteq> issued_timers marks
      \<and> distinct (map participant (presence_records p)) \<and> inj_on presence_timer live
      \<and> record_timer ` live \<subseteq> issued_timers marks - expired_timers marks"
proof -
  let ?f = "presence_transition :: (('k, 'r) presence, ('a, 'k, 'r) presence_event, _) fold_step"
  obtain p outs where run: "run ?f (presence_new f) es = (p, outs)" by fastforce
  have start: "presence_traced f [] (presence_new f)"
    by (simp add: presence_traced_def presence_new_def issued_timers_def expired_timers_def present_records_def)
  have "length es = length outs" using length_run_outputs [of ?f "presence_new f" es] by (simp add: run)
  then have "presence_traced f (concat (map (presence_marks f) outs)) p"
    using presence.run_trace [OF start, of es] run by (simp add: concat_outputs)
  moreover have "present_records xs \<subseteq> set xs" for xs :: "('k, 'r) presence_record list" by (auto simp: present_records_def)
  ultimately show ?thesis unfolding presence_traced_def by (simp add: run Let_def) blast
qed

end
