(* ===== verification/Discovery.thy ===== *)
theory Discovery
  imports Behavior_Core Keyed_Vec
begin

text \<open>
  \<^verbatim>\<open>discovery/registry.rs\<close>, \<^verbatim>\<open>resolver.rs\<close>, \<^verbatim>\<open>topic.rs\<close> and \<^verbatim>\<open>pub_sub.rs\<close>: named recipients that
  are bound and looked up, a resolver whose bindings are fixed, and publication to the
  subscribers of one topic or of many. A recipient or route is a value of a type variable.
\<close>

section \<open>Registry\<close>

datatype ('k, 'd) registry_result = Found 'k 'd | Missing 'k

datatype ('k, 'd, 'r) registry_message = Bind 'k 'd | Unbind 'k 'd | Lookup 'k 'r

datatype ('k, 'd) registry_error =
    AlreadyBound 'k 'd 'd
  | NotBound 'k 'd
  | StaleBinding 'k 'd 'd

type_synonym ('k, 'd) registry = "('k \<times> 'd) list"

type_synonym ('k, 'd, 'r) registry_acted =
  "('k, 'd) registry_error + (('r, ('k, 'd) registry_result) delivery list, never, never) actions"

definition registry_new :: "('k, 'd) registry" where
  "registry_new = []"

definition lookup_result :: "('k \<times> 'd) list \<Rightarrow> 'k \<Rightarrow> ('k, 'd) registry_result" where
  "lookup_result bindings k = (case find (\<lambda>b. fst b = k) bindings of
      None \<Rightarrow> Missing k
    | Some b \<Rightarrow> Found k (snd b))"

fun registry_transition :: "('k, 'd) registry \<Rightarrow> ('k, 'd, 'r) registry_message
    \<Rightarrow> ('k, 'd) registry \<times> ('k, 'd, 'r) registry_acted" where
  "registry_transition bs (Bind k d) =
     (case find (\<lambda>b. fst b = k) bs of
        Some b \<Rightarrow> (bs, Inl (AlreadyBound k d (snd b)))
      | None \<Rightarrow> (bs @ [(k, d)], Inr (cont vec_sends)))"
| "registry_transition bs (Unbind k d) =
     (case find_key fst k bs of
        None \<Rightarrow> (bs, Inl (NotBound k d))
      | Some i \<Rightarrow>
          (if snd (bs ! i) \<noteq> d then (bs, Inl (StaleBinding k d (snd (bs ! i))))
           else (remove_at i bs, Inr (cont vec_sends))))"
| "registry_transition bs (Lookup k r) = (bs, Inr (send_actions (deliver r (lookup_result bs k))))"

section \<open>Resolver\<close>

datatype ('k, 'd) resolution = ResolutionFound 'k 'd | ResolutionMissing 'k

datatype 'k resolver_config_error = DuplicateKey 'k

datatype ('k, 'r) resolver_message = Resolve 'k 'r

fun accept_bindings :: "('k \<times> 'd) list \<Rightarrow> ('k \<times> 'd) list \<Rightarrow> 'k resolver_config_error + ('k \<times> 'd) list" where
  "accept_bindings accepted [] = Inr accepted"
| "accept_bindings accepted ((k, d) # bs) =
     (if list_ex (\<lambda>b. fst b = k) accepted then Inl (DuplicateKey k)
      else accept_bindings (accepted @ [(k, d)]) bs)"

definition from_bindings :: "('k \<times> 'd) list \<Rightarrow> 'k resolver_config_error + ('k \<times> 'd) list" where
  "from_bindings bs = accept_bindings [] bs"

fun resolver_transition :: "('k \<times> 'd) list \<Rightarrow> ('k, 'r) resolver_message
    \<Rightarrow> ('k \<times> 'd) list \<times> (('r, ('k, 'd) resolution) delivery list, never, never) actions" where
  "resolver_transition bs (Resolve k r) = (bs, send_actions (deliver r
     (case find (\<lambda>b. fst b = k) bs of
        None \<Rightarrow> ResolutionMissing k
      | Some b \<Rightarrow> ResolutionFound k (snd b))))"

section \<open>Topic\<close>

datatype ('p, 'r) topic_message = Subscribe 'r | Unsubscribe 'r | Publish 'p

datatype 'p topic_error = NoSubscribers 'p

type_synonym ('p, 'r) publish_actions = "(('r, 'p) delivery list, never, never) actions"

text \<open>The loop over the subscribers appends one delivery for each.\<close>

definition publish_to :: "'r list \<Rightarrow> 'p \<Rightarrow> ('r, 'p) delivery list" where
  "publish_to subscribers v = foldl (\<lambda>s r. append_sends vec_sends s (deliver r v)) (empty_sends vec_sends) subscribers"

fun topic_transition :: "'r list \<Rightarrow> ('p, 'r) topic_message \<Rightarrow> 'r list \<times> ('p topic_error + ('p, 'r) publish_actions)" where
  "topic_transition subs (Subscribe r) = (push_unique subs r, Inr (cont vec_sends))"
| "topic_transition subs (Unsubscribe r) =
     ((case position (\<lambda>x. x = r) subs of None \<Rightarrow> subs | Some i \<Rightarrow> remove_at i subs), Inr (cont vec_sends))"
| "topic_transition subs (Publish v) =
     (subs, if subs = [] then Inl (NoSubscribers v) else Inr (send_actions (publish_to subs v)))"

section \<open>Publish and subscribe\<close>

record ('k, 'r) topic_membership =
  membership_topic :: 'k
  membership_subscribers :: "'r list"

datatype ('k, 'p, 'r) pub_sub_message =
    SubscribeTo 'k 'r
  | UnsubscribeFrom 'k 'r
  | PublishOn 'k 'p

datatype ('k, 'p, 'r) pub_sub_error =
    UnknownTopic 'k 'r
  | NotSubscribed 'k 'r
  | NoTopicSubscribers 'k 'p

type_synonym ('k, 'p, 'r) pub_sub_acted = "('k, 'p, 'r) pub_sub_error + ('p, 'r) publish_actions"
type_synonym ('k, 'r) pub_sub = "('k, 'r) topic_membership list"

definition pub_sub_new :: "('k, 'r) pub_sub" where
  "pub_sub_new = []"

definition pub_sub_subscribe :: "('k, 'r) pub_sub \<Rightarrow> 'k \<Rightarrow> 'r \<Rightarrow> ('k, 'r) pub_sub" where
  "pub_sub_subscribe ts k r = (case find_key membership_topic k ts of
      Some i \<Rightarrow> ts[i := (ts ! i)\<lparr>membership_subscribers := push_unique (membership_subscribers (ts ! i)) r\<rparr>]
    | None \<Rightarrow> ts @ [\<lparr>membership_topic = k, membership_subscribers = [r]\<rparr>])"

definition pub_sub_unsubscribe :: "('k, 'r) pub_sub \<Rightarrow> 'k \<Rightarrow> 'r
    \<Rightarrow> ('k, 'r) pub_sub \<times> (('k, 'p, 'r) pub_sub_error + unit)" where
  "pub_sub_unsubscribe ts k r = (case find_key membership_topic k ts of
      None \<Rightarrow> (ts, Inl (UnknownTopic k r))
    | Some i \<Rightarrow>
        (case position (\<lambda>x. x = r) (membership_subscribers (ts ! i)) of
           None \<Rightarrow> (ts, Inl (NotSubscribed k r))
         | Some j \<Rightarrow>
             (ts[i := (ts ! i)\<lparr>membership_subscribers := remove_at j (membership_subscribers (ts ! i))\<rparr>], Inr ())))"

fun pub_sub_transition :: "('k, 'r) pub_sub \<Rightarrow> ('k, 'p, 'r) pub_sub_message
    \<Rightarrow> ('k, 'r) pub_sub \<times> ('k, 'p, 'r) pub_sub_acted" where
  "pub_sub_transition ts (SubscribeTo k r) = (pub_sub_subscribe ts k r, Inr (cont vec_sends))"
| "pub_sub_transition ts (UnsubscribeFrom k r) =
     (case pub_sub_unsubscribe ts k r of
        (ts', Inl err) \<Rightarrow> (ts', Inl err)
      | (ts', Inr _) \<Rightarrow> (ts', Inr (cont vec_sends)))"
| "pub_sub_transition ts (PublishOn k v) =
     (case find (\<lambda>t. membership_topic t = k) ts of
        None \<Rightarrow> (ts, Inl (NoTopicSubscribers k v))
      | Some t \<Rightarrow>
          (if membership_subscribers t = [] then (ts, Inl (NoTopicSubscribers k v))
           else (ts, Inr (send_actions (publish_to (membership_subscribers t) v)))))"

section \<open>The registry is a finite map\<close>

fun spec_registry :: "('k \<rightharpoonup> 'd) \<Rightarrow> ('k, 'd, 'r) registry_message \<Rightarrow> ('k \<rightharpoonup> 'd) \<times> ('k, 'd, 'r) registry_acted" where
  "spec_registry m (Bind k d) = (case m k of
      Some current \<Rightarrow> (m, Inl (AlreadyBound k d current))
    | None \<Rightarrow> (m(k \<mapsto> d), Inr (send_actions [])))"
| "spec_registry m (Unbind k d) = (case m k of
      None \<Rightarrow> (m, Inl (NotBound k d))
    | Some current \<Rightarrow> if current = d then (m(k := None), Inr (send_actions [])) else (m, Inl (StaleBinding k d current)))"
| "spec_registry m (Lookup k r) = (m, Inr (send_actions (deliver r (case m k of None \<Rightarrow> Missing k | Some d \<Rightarrow> Found k d))))"

text \<open>\<^verbatim>\<open>find\<close> and \<^verbatim>\<open>position\<close> see the same entry.\<close>

lemma find_key_find: "find (\<lambda>x. key x = k) xs = map_option (\<lambda>i. xs ! i) (find_key key k xs)"
  by (induction xs) (auto simp: option.map_comp comp_def)

lemma find_view: "map_option val (find (\<lambda>x. key x = k) xs) = view key val xs k"
  by (induction xs) auto

lemma lookup_result_view: "lookup_result bs k = (case view fst snd bs k of None \<Rightarrow> Missing k | Some d \<Rightarrow> Found k d)"
  unfolding find_view [symmetric] lookup_result_def by (simp split: option.splits)

lemma registry_step_refines:
  assumes "distinct (map fst bs)"
  shows "distinct (map fst (fst (registry_transition bs e)))
    \<and> spec_registry (view fst snd bs) e = apfst (view fst snd) (registry_transition bs e)"
proof (cases e)
  case (Bind k d)
  show ?thesis
  proof (cases "find (\<lambda>b. fst b = k) bs")
    case None
    then have "\<forall>b \<in> set bs. fst b \<noteq> k" by (auto simp: find_None_iff)
    moreover have "view fst snd bs k = None" using None find_view [of snd fst k bs] by simp
    ultimately have "find_key fst k bs = None" "view fst snd bs k = None" by simp_all
    with None Bind assms view_push [of fst "(k, d)" bs snd] show ?thesis
      by (auto simp: core_defs simp del: position_None_iff) (auto simp: find_None_iff)
  next
    case (Some b)
    then have "view fst snd bs k = Some (snd b)" using find_view [of snd fst k bs] by simp
    with Some Bind assms show ?thesis by simp
  qed
next
  case (Unbind k d)
  show ?thesis
  proof (cases "find_key fst k bs")
    case None
    then have "view fst snd bs k = None" by (simp only: find_key_None_iff [where val = snd])
    with None Unbind assms show ?thesis by (simp del: position_None_iff)
  next
    case (Some i)
    with Unbind assms find_key_view [OF Some, of snd] view_remove [OF Some assms, of snd] show ?thesis
      by (simp add: core_defs)
  qed
next
  case (Lookup k r)
  with assms show ?thesis by (simp add: lookup_result_view)
qed

interpretation registry: refined_fold registry_transition "\<lambda>bs. distinct (map fst bs)" spec_registry "view fst snd"
  by unfold_locales (simp_all add: registry_step_refines)

text \<open>
  The registry implements a finite map from keys to recipients, with the same replies and
  errors for every history: a bound key is never rebound, an unbinding must name the current
  recipient, and a lookup returns the recipient of the last binding that was not unbound.
\<close>

theorem registry_refines_map:
  "let (bs, outs) = run (registry_transition :: (_, ('k, 'd, 'r) registry_message, _) fold_step) registry_new es
   in run spec_registry Map.empty es = (view fst snd bs, outs) \<and> distinct (map fst bs)"
proof -
  obtain bs outs where "run (registry_transition :: (_, ('k, 'd, 'r) registry_message, _) fold_step) registry_new es = (bs, outs)"
    by fastforce
  with registry.run_refines [of registry_new es] registry.run_inv [of registry_new es] show ?thesis
    by (simp add: registry_new_def)
qed

section \<open>The resolver\<close>

lemma accept_bindings_Inr:
  "accept_bindings accepted bs = Inr out \<longleftrightarrow> out = accepted @ bs \<and> distinct (map fst bs) \<and> fst ` set accepted \<inter> fst ` set bs = {}"
proof (induction accepted bs rule: accept_bindings.induct)
  case (2 accepted k d bs)
  then show ?case by (auto simp: list_ex_iff image_iff)
qed auto

text \<open>
  A resolver exists exactly for bindings whose keys are distinct, keeps them for good, and
  answers every key with its recipient, or that there is none.
\<close>

theorem resolver_answers_its_bindings:
  "(from_bindings bs = Inr table) = (table = bs \<and> distinct (map fst bs))
   \<and> run resolver_transition bs (map (\<lambda>(k, r). Resolve k r) qs)
     = (bs, map (\<lambda>(k, r). send_actions (deliver r
         (case map_of bs k of None \<Rightarrow> ResolutionMissing k | Some d \<Rightarrow> ResolutionFound k d))) qs)"
proof -
  have "map_of bs k = map_option snd (find (\<lambda>b. fst b = k) bs)" for k
    using find_view [of snd fst k bs] by (simp add: view_def)
  then have "run resolver_transition bs (map (\<lambda>(k, r). Resolve k r) qs)
     = (bs, map (\<lambda>(k, r). send_actions (deliver r
         (case map_of bs k of None \<Rightarrow> ResolutionMissing k | Some d \<Rightarrow> ResolutionFound k d))) qs)"
    by (induction qs) (auto split: option.splits)
  then show ?thesis by (auto simp: from_bindings_def accept_bindings_Inr)
qed

section \<open>Publications reach the current subscribers\<close>

text \<open>The subscribers of a topic after a history, in the order in which they subscribed.\<close>

fun subscription :: "'k \<Rightarrow> 'r list \<Rightarrow> ('k, 'p, 'r) pub_sub_message \<Rightarrow> 'r list" where
  "subscription k subs (SubscribeTo k' r) = (if k' = k then push_unique subs r else subs)"
| "subscription k subs (UnsubscribeFrom k' r) = (if k' = k then filter (\<lambda>x. x \<noteq> r) subs else subs)"
| "subscription k subs (PublishOn k' v) = subs"

definition subscribers_after :: "'k \<Rightarrow> ('k, 'p, 'r) pub_sub_message list \<Rightarrow> 'r list" where
  "subscribers_after k es = foldl (subscription k) [] es"

definition subscribers_of :: "('k, 'r) pub_sub \<Rightarrow> 'k \<Rightarrow> 'r list" where
  "subscribers_of ts k = (case view membership_topic membership_subscribers ts k of None \<Rightarrow> [] | Some subs \<Rightarrow> subs)"

lemma subscribers_after_snoc [simp]:
  "subscribers_after k [] = []" "subscribers_after k (es @ [e]) = subscription k (subscribers_after k es) e"
  by (simp_all add: subscribers_after_def)

lemma distinct_subscribers_after: "distinct (subscribers_after k es)"
proof (induction es rule: rev_induct)
  case (snoc e es)
  then show ?case by (cases e) simp_all
qed simp

text \<open>A route is a subscriber when it has subscribed and not unsubscribed since.\<close>

definition subscribed :: "'k \<Rightarrow> ('k, 'p, 'r) pub_sub_message list \<Rightarrow> 'r set" where
  "subscribed k es = {r. \<exists>xs ys. es = xs @ SubscribeTo k r # ys \<and> UnsubscribeFrom k r \<notin> set ys}"

lemma subscribed_Nil: "subscribed k [] = {}"
  by (simp add: subscribed_def)

lemma subscribedI: "es = xs @ SubscribeTo k r # ys \<Longrightarrow> UnsubscribeFrom k r \<notin> set ys \<Longrightarrow> r \<in> subscribed k es"
  unfolding subscribed_def by blast

lemma subscribed_snoc:
  "r \<in> subscribed k (es @ [e]) \<longleftrightarrow> e = SubscribeTo k r \<or> (r \<in> subscribed k es \<and> e \<noteq> UnsubscribeFrom k r)"
proof
  assume "r \<in> subscribed k (es @ [e])"
  then obtain xs ys where split: "es @ [e] = xs @ SubscribeTo k r # ys" "UnsubscribeFrom k r \<notin> set ys"
    unfolding subscribed_def by blast
  show "e = SubscribeTo k r \<or> (r \<in> subscribed k es \<and> e \<noteq> UnsubscribeFrom k r)"
  proof (cases ys rule: rev_cases)
    case (snoc ys' y)
    with split have "es = xs @ SubscribeTo k r # ys'" "e = y" "UnsubscribeFrom k r \<notin> set ys'" "y \<noteq> UnsubscribeFrom k r"
      by auto
    then show ?thesis using subscribedI [of es xs k r ys'] by simp
  qed (use split in simp)
next
  assume "e = SubscribeTo k r \<or> (r \<in> subscribed k es \<and> e \<noteq> UnsubscribeFrom k r)"
  then show "r \<in> subscribed k (es @ [e])"
  proof
    assume "e = SubscribeTo k r"
    then show ?thesis by (intro subscribedI [of _ es k r "[]"]) simp_all
  next
    assume held: "r \<in> subscribed k es \<and> e \<noteq> UnsubscribeFrom k r"
    then obtain xs ys where "es = xs @ SubscribeTo k r # ys" "UnsubscribeFrom k r \<notin> set ys"
      unfolding subscribed_def by blast
    with held show ?thesis by (intro subscribedI [of _ xs k r "ys @ [e]"]) auto
  qed
qed

lemma set_subscribers_after: "set (subscribers_after k es) = subscribed k es"
proof (induction es rule: rev_induct)
  case (snoc e es)
  have "r \<in> set (subscribers_after k (es @ [e])) \<longleftrightarrow> r \<in> subscribed k (es @ [e])" for r
    using snoc by (cases e) (auto simp: subscribed_snoc)
  then show ?case by blast
qed (simp add: subscribed_Nil)

lemma publish_to_map: "publish_to subs v = map (\<lambda>r. \<lparr>deliver_to = r, delivered = v\<rparr>) subs"
proof -
  have "foldl (\<lambda>s r. s @ deliver r v) xs subs = xs @ map (\<lambda>r. \<lparr>deliver_to = r, delivered = v\<rparr>) subs" for xs
    by (induction subs arbitrary: xs) (auto simp: deliver_def)
  then show ?thesis by (simp add: publish_to_def)
qed

lemma publish_subscribers:
  "pub_sub_transition ts (PublishOn k v) =
     (ts, if subscribers_of ts k = [] then Inl (NoTopicSubscribers k v)
          else Inr (send_actions (publish_to (subscribers_of ts k) v)))"
  unfolding subscribers_of_def find_view [of membership_subscribers membership_topic k ts, symmetric]
  by (cases "find (\<lambda>t. membership_topic t = k) ts") simp_all

definition pub_sub_traced :: "('k, 'p, 'r) pub_sub_message list \<Rightarrow> ('k, 'r) pub_sub \<Rightarrow> bool" where
  "pub_sub_traced h ts \<longleftrightarrow> (\<forall>k. subscribers_of ts k = subscribers_after k h)"

lemma subscribers_of_update:
  "find_key membership_topic k ts = Some i \<Longrightarrow>
     subscribers_of (ts[i := (ts ! i)\<lparr>membership_subscribers := subs\<rparr>]) = (subscribers_of ts)(k := subs)"
  using find_key_Some [of membership_topic k ts i]
    view_update [of membership_topic k ts i "(ts ! i)\<lparr>membership_subscribers := subs\<rparr>" membership_subscribers]
  by (auto simp: subscribers_of_def fun_eq_iff)

lemma subscribers_of_found:
  "find_key membership_topic k ts = Some i \<Longrightarrow> subscribers_of ts k = membership_subscribers (ts ! i)"
  by (simp add: subscribers_of_def find_key_view)

lemma subscribers_of_missing: "find_key membership_topic k ts = None \<Longrightarrow> subscribers_of ts k = []"
  by (simp only: subscribers_of_def find_key_None_iff [where val = membership_subscribers]) simp

lemma subscribe_traced:
  "subscribers_of (pub_sub_subscribe ts k r) = (subscribers_of ts)(k := push_unique (subscribers_of ts k) r)"
proof (cases "find_key membership_topic k ts")
  case None
  let ?t = "\<lparr>membership_topic = k, membership_subscribers = [r]\<rparr>"
  have "view membership_topic membership_subscribers (ts @ [?t]) = (view membership_topic membership_subscribers ts)(k \<mapsto> [r])"
    using view_push [of membership_topic ?t ts membership_subscribers] None by (simp del: position_None_iff)
  with None subscribers_of_missing [OF None] show ?thesis
    by (auto simp: pub_sub_subscribe_def subscribers_of_def fun_eq_iff push_unique_def simp del: position_None_iff)
next
  case (Some i)
  then show ?thesis by (simp add: pub_sub_subscribe_def subscribers_of_update subscribers_of_found)
qed

lemma unsubscribe_traced:
  assumes "distinct (subscribers_of ts k)"
  shows "subscribers_of (fst (pub_sub_unsubscribe ts k r)) = (subscribers_of ts)(k := filter (\<lambda>x. x \<noteq> r) (subscribers_of ts k))"
proof (cases "find_key membership_topic k ts")
  case None
  with subscribers_of_missing [OF None] show ?thesis
    by (auto simp: pub_sub_unsubscribe_def simp del: position_None_iff)
next
  case (Some i)
  show ?thesis
  proof (cases "position (\<lambda>x. x = r) (membership_subscribers (ts ! i))")
    case None
    then have "filter (\<lambda>x. x \<noteq> r) (subscribers_of ts k) = subscribers_of ts k"
      by (auto simp: subscribers_of_found [OF Some] intro: filter_True)
    with None Some show ?thesis by (simp add: pub_sub_unsubscribe_def del: position_None_iff)
  next
    case (Some j)
    with \<open>find_key membership_topic k ts = Some i\<close> assms show ?thesis
      by (simp add: pub_sub_unsubscribe_def subscribers_of_update subscribers_of_found remove_at_position
          distinct_remove1_removeAll removeAll_filter_not_eq neq_commute)
  qed
qed

interpretation pub_sub: traced_fold pub_sub_transition pub_sub_traced "\<lambda>e out. [e]"
proof unfold_locales
  fix h :: "('k, 'p, 'r) pub_sub_message list" and ts e
  assume traced: "pub_sub_traced h ts"
  then have dist: "distinct (subscribers_of ts k)" for k
    by (simp add: pub_sub_traced_def distinct_subscribers_after)
  show "pub_sub_traced (h @ [e]) (fst (pub_sub_transition ts e))"
  proof (cases e)
    case (SubscribeTo k r)
    with traced show ?thesis by (simp add: pub_sub_traced_def subscribe_traced)
  next
    case (UnsubscribeFrom k r)
    have "fst (pub_sub_transition ts e) = fst (pub_sub_unsubscribe ts k r :: _ \<times> (('k, 'p, 'r) pub_sub_error + unit))"
      by (simp add: UnsubscribeFrom split: prod.splits sum.splits)
    with traced UnsubscribeFrom show ?thesis by (auto simp: pub_sub_traced_def unsubscribe_traced [OF dist])
  next
    case (PublishOn k v)
    with traced show ?thesis by (simp add: pub_sub_traced_def publish_subscribers del: pub_sub_transition.simps)
  qed
qed

text \<open>
  After any history, a publication on a topic is delivered exactly once to every route
  that has subscribed to that topic and not unsubscribed since, and to no other; it is
  returned as an error when there is none. Other topics have no influence.
\<close>

theorem publication_reaches_subscribers:
  "\<exists>subs. distinct subs
     \<and> set subs = {r. \<exists>xs ys. es = xs @ SubscribeTo k r # ys \<and> UnsubscribeFrom k r \<notin> set ys}
     \<and> snd (pub_sub_transition (run_state pub_sub_transition pub_sub_new es) (PublishOn k v))
         = (if subs = [] then Inl (NoTopicSubscribers k v)
            else Inr (send_actions (map (\<lambda>r. \<lparr>deliver_to = r, delivered = v\<rparr>) subs)))"
proof -
  have "pub_sub_traced [] pub_sub_new" by (simp add: pub_sub_traced_def pub_sub_new_def subscribers_of_def)
  from pub_sub.run_trace [OF this, of es]
  have "pub_sub_traced es (run_state pub_sub_transition pub_sub_new es)"
    by (simp add: concat_events)
  then show ?thesis
    by (intro exI [of _ "subscribers_after k es"])
      (simp add: distinct_subscribers_after set_subscribers_after [unfolded subscribed_def] pub_sub_traced_def
        publish_subscribers publish_to_map del: pub_sub_transition.simps)
qed

end
