(* ===== verification/Operations.thy ===== *)
theory Operations
  imports Behavior_Core Keyed_Vec
begin

text \<open>
  \<^verbatim>\<open>operations/configuration.rs\<close>, \<^verbatim>\<open>health.rs\<close>, \<^verbatim>\<open>readiness.rs\<close> and \<^verbatim>\<open>features.rs\<close>: state that is
  reported in versions. All three behaviors commit evidence by the same rule; it is stated once
  as a locale and interpreted on each of them.
\<close>

section \<open>Configuration\<close>

type_synonym configuration_version = u64

datatype 'c configuration_state = Unconfigured | Configured configuration_version 'c

datatype ('c, 'r) configuration_message = Apply configuration_version 'c | QueryConfiguration 'r

datatype 'c configuration_error =
    StaleConfiguration configuration_version configuration_version 'c
  | ConflictingConfiguration configuration_version 'c

type_synonym ('x, 'r) reporting_actions = "(('r, 'x) delivery list, never, never) actions"

definition configuration_apply :: "'c configuration_state \<Rightarrow> configuration_version \<Rightarrow> 'c
    \<Rightarrow> 'c configuration_state \<times> ('c configuration_error + unit)" where
  "configuration_apply st v c = (case st of
      Unconfigured \<Rightarrow> (Configured v c, Inr ())
    | Configured current committed \<Rightarrow>
        (if v < current then (st, Inl (StaleConfiguration v current c))
         else if v = current
         then (if c = committed then (st, Inr ()) else (st, Inl (ConflictingConfiguration v c)))
         else (Configured v c, Inr ())))"

text \<open>\<^verbatim>\<open>self.apply(..)?; Ok(Actions::cont())\<close>: the error is returned, success continues.\<close>

definition and_continue :: "'s \<times> ('err + unit) \<Rightarrow> 's \<times> ('err + ('x, 'r) reporting_actions)" where
  "and_continue res = (case res of
      (s, Inl err) \<Rightarrow> (s, Inl err)
    | (s, Inr _) \<Rightarrow> (s, Inr (cont vec_sends)))"

fun configuration_transition :: "'c configuration_state \<Rightarrow> ('c, 'r) configuration_message
    \<Rightarrow> 'c configuration_state \<times> ('c configuration_error + ('c configuration_state, 'r) reporting_actions)" where
  "configuration_transition st (Apply v c) = and_continue (configuration_apply st v c)"
| "configuration_transition st (QueryConfiguration r) = (st, Inr (send_actions (deliver r st)))"

section \<open>Health\<close>

type_synonym observation_version = u64

datatype health_status = Healthy | Degraded | Unhealthy

instantiation health_status :: linorder
begin

fun health_rank :: "health_status \<Rightarrow> nat" where
  "health_rank Healthy = 0"
| "health_rank Degraded = 1"
| "health_rank Unhealthy = 2"

definition less_eq_health_status :: "health_status \<Rightarrow> health_status \<Rightarrow> bool" where
  "less_eq_health_status a b \<longleftrightarrow> health_rank a \<le> health_rank b"

definition less_health_status :: "health_status \<Rightarrow> health_status \<Rightarrow> bool" where
  "less_health_status a b \<longleftrightarrow> health_rank a < health_rank b"

instance
proof
  fix a b :: health_status
  show "a \<le> b \<Longrightarrow> b \<le> a \<Longrightarrow> a = b"
    by (cases a; cases b) (simp_all add: less_eq_health_status_def)
qed (auto simp: less_eq_health_status_def less_health_status_def)

end

record 'k component_health =
  health_component :: 'k
  health_version :: observation_version
  health_of :: health_status

datatype 'k component_health_state =
    ComponentPresent "'k component_health"
  | ComponentRemoved 'k observation_version

fun state_component :: "'k component_health_state \<Rightarrow> 'k" where
  "state_component (ComponentPresent h) = health_component h"
| "state_component (ComponentRemoved k v) = k"

fun state_version :: "'k component_health_state \<Rightarrow> observation_version" where
  "state_version (ComponentPresent h) = health_version h"
| "state_version (ComponentRemoved k v) = v"

datatype health_evidence = EvidencePresent health_status | EvidenceRemoved

datatype 'k health_error =
    StaleHealth 'k observation_version observation_version health_evidence
  | ConflictingHealth 'k observation_version health_evidence

datatype ('k, 'r) health_message =
    ObserveHealth 'k observation_version health_status
  | RemoveComponent 'k observation_version
  | QueryHealth 'r

type_synonym 'k health = "'k component_health_state list"

fun replacement_state :: "'k \<Rightarrow> observation_version \<Rightarrow> health_evidence \<Rightarrow> 'k component_health_state" where
  "replacement_state k v (EvidencePresent status) =
     ComponentPresent \<lparr>health_component = k, health_version = v, health_of = status\<rparr>"
| "replacement_state k v EvidenceRemoved = ComponentRemoved k v"

definition health_commit :: "'k health \<Rightarrow> 'k \<Rightarrow> observation_version \<Rightarrow> health_evidence
    \<Rightarrow> 'k health \<times> ('k health_error + unit)" where
  "health_commit cs k v evidence =
     (let new = replacement_state k v evidence
      in case find_key state_component k cs of
           None \<Rightarrow> (cs @ [new], Inr ())
         | Some i \<Rightarrow>
             (let current = state_version (cs ! i)
              in if v < current then (cs, Inl (StaleHealth k v current evidence))
                 else if v = current
                 then (if cs ! i = new then (cs, Inr ()) else (cs, Inl (ConflictingHealth k v evidence)))
                 else (cs[i := new], Inr ())))"

definition health_report :: "'k health \<Rightarrow> 'k component_health list" where
  "health_report cs = List.map_filter (\<lambda>st. case st of ComponentPresent h \<Rightarrow> Some h | ComponentRemoved k v \<Rightarrow> None) cs"

text \<open>\<^verbatim>\<open>HealthReport::overall\<close>: \<^verbatim>\<open>max()\<close> of the statuses in the derived order.\<close>

definition overall :: "'k component_health list \<Rightarrow> health_status" where
  "overall report = (case map health_of report of [] \<Rightarrow> Healthy | s # ss \<Rightarrow> foldl max s ss)"

fun health_transition :: "'k health \<Rightarrow> ('k, 'r) health_message
    \<Rightarrow> 'k health \<times> ('k health_error + ('k component_health list, 'r) reporting_actions)" where
  "health_transition cs (ObserveHealth k v status) = and_continue (health_commit cs k v (EvidencePresent status))"
| "health_transition cs (RemoveComponent k v) = and_continue (health_commit cs k v EvidenceRemoved)"
| "health_transition cs (QueryHealth r) = (cs, Inr (send_actions (deliver r (health_report cs))))"

section \<open>Readiness\<close>

datatype readiness_status = Ready | NotReady

datatype readiness_evidence = Unknown | Observed observation_version readiness_status

record 'k dependency_readiness =
  dependency :: 'k
  evidence_of :: readiness_evidence

datatype ('k, 'r) readiness_message =
    ObserveReadiness 'k observation_version readiness_status
  | QueryReadiness 'r

datatype 'k readiness_error =
    UnknownDependency 'k observation_version readiness_status
  | StaleReadiness 'k observation_version observation_version readiness_status
  | ConflictingReadiness 'k observation_version readiness_status

type_synonym 'k readiness = "'k dependency_readiness list"

definition declare_dependency :: "'k readiness \<Rightarrow> 'k \<Rightarrow> 'k readiness" where
  "declare_dependency states k = (if list_ex (\<lambda>s. dependency s = k) states then states
     else states @ [\<lparr>dependency = k, evidence_of = Unknown\<rparr>])"

definition readiness_new :: "'k list \<Rightarrow> 'k readiness" where
  "readiness_new ks = foldl declare_dependency [] ks"

definition readiness_observe :: "'k readiness \<Rightarrow> 'k \<Rightarrow> observation_version \<Rightarrow> readiness_status
    \<Rightarrow> 'k readiness \<times> ('k readiness_error + unit)" where
  "readiness_observe ds k v status =
     (case find_key dependency k ds of
        None \<Rightarrow> (ds, Inl (UnknownDependency k v status))
      | Some i \<Rightarrow>
          (let commit = ds[i := (ds ! i)\<lparr>evidence_of := Observed v status\<rparr>]
           in case evidence_of (ds ! i) of
                Unknown \<Rightarrow> (commit, Inr ())
              | Observed committed committed_status \<Rightarrow>
                  (if v < committed then (ds, Inl (StaleReadiness k v committed status))
                   else if v = committed
                   then (if committed_status = status then (ds, Inr ())
                         else (ds, Inl (ConflictingReadiness k v status)))
                   else (commit, Inr ()))))"

definition report_ready :: "'k readiness \<Rightarrow> bool" where
  "report_ready ds = list_all (\<lambda>s. case evidence_of s of Observed v Ready \<Rightarrow> True | _ \<Rightarrow> False) ds"

fun readiness_transition :: "'k readiness \<Rightarrow> ('k, 'r) readiness_message
    \<Rightarrow> 'k readiness \<times> ('k readiness_error + ('k readiness, 'r) reporting_actions)" where
  "readiness_transition ds (ObserveReadiness k v status) = and_continue (readiness_observe ds k v status)"
| "readiness_transition ds (QueryReadiness r) = (ds, Inr (send_actions (deliver r ds)))"

section \<open>Features\<close>

datatype feature_status = Enabled | Disabled

record 'f feature =
  feature_name :: 'f
  feature_status :: feature_status

definition add_feature :: "'f feature list \<Rightarrow> 'f feature \<Rightarrow> 'f feature list" where
  "add_feature normalized candidate =
     (case find_key feature_name (feature_name candidate) normalized of
        Some i \<Rightarrow> normalized[i := (normalized ! i)\<lparr>feature_status := feature_status candidate\<rparr>]
      | None \<Rightarrow> normalized @ [candidate])"

definition feature_set_new :: "'f feature list \<Rightarrow> 'f feature list" where
  "feature_set_new fs = foldl add_feature [] fs"

section \<open>Versioned registers\<close>

text \<open>
  The evidence a history ends with: the greatest version offered, with the first value that was
  offered at that version.
\<close>

definition newer :: "('v::linorder \<times> 'c) option \<Rightarrow> 'v \<times> 'c \<Rightarrow> ('v \<times> 'c) option" where
  "newer best x = (case best of None \<Rightarrow> Some x | Some b \<Rightarrow> if fst b < fst x then Some x else Some b)"

definition latest :: "('v::linorder \<times> 'c) list \<Rightarrow> ('v \<times> 'c) option" where
  "latest xs = foldl newer None xs"

lemma latest_snoc [simp]: "latest [] = None" "latest (xs @ [x]) = newer (latest xs) x"
  by (simp_all add: latest_def)

lemma latest_None_iff: "latest xs = None \<longleftrightarrow> xs = []"
  by (cases xs rule: rev_cases) (auto simp: newer_def split: option.splits)

lemma latest_SomeD:
  "latest xs = Some (v, c) \<Longrightarrow>
     \<exists>as bs. xs = as @ (v, c) # bs \<and> (\<forall>x \<in> set as. fst x < v) \<and> (\<forall>x \<in> set bs. fst x \<le> v)"
proof (induction xs arbitrary: v c rule: rev_induct)
  case (snoc x xs)
  show ?case
  proof (cases "latest xs")
    case None
    with snoc.prems have "xs = []" "x = (v, c)" by (auto simp: latest_None_iff newer_def)
    then show ?thesis by (intro exI [of _ "[]"]) simp
  next
    case (Some b)
    obtain w d where b: "b = (w, d)" by fastforce
    with Some snoc.IH obtain as bs where
      split: "xs = as @ (w, d) # bs" "\<forall>x \<in> set as. fst x < w" "\<forall>x \<in> set bs. fst x \<le> w" by blast
    show ?thesis
    proof (cases "w < fst x")
      case True
      with snoc.prems Some b have "x = (v, c)" by (simp add: newer_def)
      moreover have "\<forall>y \<in> set xs. fst y < fst x" using split True by auto
      ultimately show ?thesis by (intro exI [of _ xs] exI [of _ "[]"]) simp
    next
      case False
      with snoc.prems Some b have "w = v" "d = c" by (auto simp: newer_def)
      with split False show ?thesis by (intro exI [of _ as] exI [of _ "bs @ [x]"]) auto
    qed
  qed
qed simp

definition commits_latest :: "('v::linorder \<times> 'c) option \<Rightarrow> ('v \<times> 'c) list \<Rightarrow> bool" where
  "commits_latest register offers \<longleftrightarrow> (case register of
      None \<Rightarrow> offers = []
    | Some (v, c) \<Rightarrow> \<exists>as bs. offers = as @ (v, c) # bs
        \<and> list_all (\<lambda>x. fst x < v) as \<and> list_all (\<lambda>x. fst x \<le> v) bs)"

lemma commits_latest: "commits_latest (latest xs) xs"
  using latest_SomeD [of xs] latest_None_iff [of xs]
  by (auto simp: commits_latest_def list_all_iff split: option.splits)

locale versioned_fold = fold_invariant fstep inv
  for fstep :: "('s, 'e, 'o) fold_step" and inv +
  fixes register :: "'s \<Rightarrow> ('v::linorder \<times> 'c) option"
    and offer :: "'e \<Rightarrow> ('v \<times> 'c) option"
  assumes commit_step: "inv s \<Longrightarrow> register (fst (fstep s e)) =
    (case offer e of None \<Rightarrow> register s | Some x \<Rightarrow> newer (register s) x)"
begin

lemma run_commits:
  "inv s \<Longrightarrow> register (run_state fstep s es) = foldl newer (register s) (List.map_filter offer es)"
proof (induction es arbitrary: s)
  case (Cons e es)
  from Cons.IH [OF inv_step [OF Cons.prems]] commit_step [OF Cons.prems] show ?case
    by (simp add: split_beta List.map_filter_simps split: option.splits)
qed (simp add: List.map_filter_simps)

lemma run_latest:
  "inv s \<Longrightarrow> register s = None \<Longrightarrow> register (run_state fstep s es) = latest (List.map_filter offer es)"
  by (simp add: run_commits latest_def)

lemma run_commits_latest:
  "inv s \<Longrightarrow> register s = None \<Longrightarrow> commits_latest (register (run_state fstep s es)) (List.map_filter offer es)"
  by (simp add: run_latest commits_latest)

end

lemma fst_and_continue [simp]: "fst (and_continue res) = fst res"
  by (simp add: and_continue_def split: prod.splits sum.splits)

section \<open>Configuration converges\<close>

fun configured :: "'c configuration_state \<Rightarrow> (configuration_version \<times> 'c) option" where
  "configured Unconfigured = None"
| "configured (Configured v c) = Some (v, c)"

fun configuration_offer :: "('c, 'r) configuration_message \<Rightarrow> (configuration_version \<times> 'c) option" where
  "configuration_offer (Apply v c) = Some (v, c)"
| "configuration_offer (QueryConfiguration r) = None"

interpretation configuration: versioned_fold configuration_transition "\<lambda>st. True" configured configuration_offer
proof unfold_locales
  fix st :: "'c configuration_state" and e :: "('c, 'r) configuration_message"
  show "configured (fst (configuration_transition st e)) =
      (case configuration_offer e of None \<Rightarrow> configured st | Some x \<Rightarrow> newer (configured st) x)"
    by (cases e; cases st) (auto simp: configuration_apply_def newer_def)
qed simp

text \<open>
  Whatever the order in which configurations arrive, the committed one has the greatest
  version that was offered, and among the values offered at that version it is the first: no
  later message replaces it by an older or a conflicting one.
\<close>

theorem configuration_commits_latest:
  "commits_latest (configured (run_state configuration_transition Unconfigured es)) (List.map_filter configuration_offer es)"
  by (rule configuration.run_commits_latest) simp_all

section \<open>Health reports the latest evidence\<close>

fun health_offer :: "'k \<Rightarrow> ('k, 'r) health_message \<Rightarrow> (observation_version \<times> health_evidence) option" where
  "health_offer k (ObserveHealth j v status) = (if j = k then Some (v, EvidencePresent status) else None)"
| "health_offer k (RemoveComponent j v) = (if j = k then Some (v, EvidenceRemoved) else None)"
| "health_offer k (QueryHealth r) = None"

fun state_evidence :: "'k component_health_state \<Rightarrow> observation_version \<times> health_evidence" where
  "state_evidence (ComponentPresent h) = (health_version h, EvidencePresent (health_of h))"
| "state_evidence (ComponentRemoved k v) = (v, EvidenceRemoved)"

abbreviation health_register :: "'k \<Rightarrow> 'k health \<Rightarrow> (observation_version \<times> health_evidence) option" where
  "health_register k cs \<equiv> view state_component state_evidence cs k"

lemma replacement_simps [simp]:
  "state_component (replacement_state k v ev) = k" "state_evidence (replacement_state k v ev) = (v, ev)"
  by (cases ev; simp)+

lemma state_version_evidence: "state_version st = fst (state_evidence st)"
  by (cases st) auto

lemma health_commit_view:
  "view state_component state_evidence (fst (health_commit cs k v ev)) =
     (view state_component state_evidence cs)(k := newer (view state_component state_evidence cs k) (v, ev))"
proof (cases "find_key state_component k cs")
  case None
  then have "view state_component state_evidence cs k = None"
    by (simp only: find_key_None_iff [where val = state_evidence])
  with None view_push [of state_component "replacement_state k v ev" cs state_evidence] show ?thesis
    by (simp add: health_commit_def newer_def Let_def del: position_None_iff)
next
  case (Some i)
  have "view state_component state_evidence cs k = Some (state_evidence (cs ! i))"
    using Some by (rule find_key_view)
  with Some view_update [OF Some, of "replacement_state k v ev" state_evidence] show ?thesis
    by (auto simp: health_commit_def newer_def Let_def state_version_evidence fun_eq_iff)
qed

lemma health_commit_distinct:
  "distinct (map state_component cs) \<Longrightarrow> distinct (map state_component (fst (health_commit cs k v ev)))"
  using keys_update [of state_component k cs _ "replacement_state k v ev"]
  by (auto simp: health_commit_def Let_def split: option.splits)

interpretation health: versioned_fold health_transition "\<lambda>cs. distinct (map state_component cs)" "health_register k" "health_offer k"
  for k :: 'k
proof unfold_locales
  fix cs :: "'k health" and e :: "('k, 'r) health_message"
  show "distinct (map state_component (fst (health_transition cs e)))" if "distinct (map state_component cs)"
    using that health_commit_distinct by (cases e) auto
  show "health_register k (fst (health_transition cs e)) =
      (case health_offer k e of None \<Rightarrow> health_register k cs | Some x \<Rightarrow> newer (health_register k cs) x)"
    by (cases e) (simp_all add: health_commit_view)
qed

lemma overall_iff:
  "overall report \<le> status \<longleftrightarrow> (\<forall>h \<in> set report. health_of h \<le> status)"
proof -
  have "foldl max s ss \<le> status \<longleftrightarrow> s \<le> status \<and> (\<forall>t \<in> set ss. t \<le> status)" for s ss
    by (induction ss arbitrary: s) auto
  moreover have "Healthy \<le> status" by (simp add: less_eq_health_status_def)
  ultimately show ?thesis by (cases report) (auto simp: overall_def)
qed

lemma set_health_report:
  assumes "distinct (map state_component cs)"
  shows "h \<in> set (health_report cs) \<longleftrightarrow>
    health_register (health_component h) cs = Some (health_version h, EvidencePresent (health_of h))"
proof
  assume "h \<in> set (health_report cs)"
  then have "ComponentPresent h \<in> set cs"
    by (auto simp: health_report_def List.map_filter_def split: component_health_state.splits option.splits)
  then obtain i where i: "i < length cs" "cs ! i = ComponentPresent h" by (auto simp: in_set_conv_nth)
  from find_key_view [OF find_key_nth [OF assms i(1)], of state_evidence] i(2)
  show "health_register (health_component h) cs = Some (health_version h, EvidencePresent (health_of h))" by simp
next
  assume found: "health_register (health_component h) cs = Some (health_version h, EvidencePresent (health_of h))"
  then obtain i where at: "find_key state_component (health_component h) cs = Some i"
    using find_key_None_iff [of state_component "health_component h" cs state_evidence]
    by (cases "find_key state_component (health_component h) cs") auto
  with found find_key_view [OF at, of state_evidence] find_key_Some [OF at]
  have "cs ! i = ComponentPresent h" "i < length cs" by (cases "cs ! i"; cases h; auto)+
  then have "ComponentPresent h \<in> set cs" by (metis nth_mem)
  then show "h \<in> set (health_report cs)"
    by (force simp: health_report_def List.map_filter_def image_iff split: component_health_state.splits)
qed

text \<open>
  After any history of observations and removals, in whatever order they arrive, each
  component stands at the greatest version reported for it, with the first evidence reported at
  that version. The report lists exactly the components whose evidence is a status, and the
  overall status is the worst of them.
\<close>

theorem health_reports_latest_evidence:
  fixes es :: "('k, 'r) health_message list"
  shows "let cs = run_state health_transition [] es; report = health_report cs
   in commits_latest (health_register k cs) (List.map_filter (health_offer k) es)
      \<and> (h \<in> set report) = (latest (List.map_filter (health_offer (health_component h)) es)
           = Some (health_version h, EvidencePresent (health_of h)))
      \<and> (overall report \<le> status) = list_all (\<lambda>h. health_of h \<le> status) report"
proof -
  have dist: "distinct (map state_component (run_state health_transition ([] :: 'k health) es))"
    by (rule health.run_inv) simp
  have "health_register j (run_state health_transition [] es) = latest (List.map_filter (health_offer j) es)" for j
    by (rule health.run_latest) simp_all
  with set_health_report [OF dist] show ?thesis
    by (simp add: Let_def commits_latest overall_iff list_all_iff)
qed

section \<open>Readiness\<close>

fun readiness_offer :: "'k \<Rightarrow> ('k, 'r) readiness_message \<Rightarrow> (observation_version \<times> readiness_status) option" where
  "readiness_offer k (ObserveReadiness j v status) = (if j = k then Some (v, status) else None)"
| "readiness_offer k (QueryReadiness r) = None"

fun observed_evidence :: "readiness_evidence \<Rightarrow> (observation_version \<times> readiness_status) option" where
  "observed_evidence Unknown = None"
| "observed_evidence (Observed v status) = Some (v, status)"

definition readiness_register :: "'k \<Rightarrow> 'k readiness \<Rightarrow> (observation_version \<times> readiness_status) option" where
  "readiness_register k ds = (case view dependency evidence_of ds k of None \<Rightarrow> None | Some ev \<Rightarrow> observed_evidence ev)"

lemma readiness_new_states:
  "map dependency (readiness_new ks) = unique_in_order ks \<and> list_all (\<lambda>s. evidence_of s = Unknown) (readiness_new ks)"
proof (induction ks rule: rev_induct)
  case (snoc k ks)
  have "map dependency (declare_dependency states k) = push_unique (map dependency states) k
      \<and> (list_all (\<lambda>s. evidence_of s = Unknown) states \<longrightarrow>
          list_all (\<lambda>s. evidence_of s = Unknown) (declare_dependency states k))" for states
    by (auto simp: declare_dependency_def push_unique_def list_ex_iff image_iff)
  from this [of "readiness_new ks"] snoc show ?case by (simp add: readiness_new_def unique_in_order_def)
qed (simp add: readiness_new_def unique_in_order_def)

lemma readiness_observe_keys: "map dependency (fst (readiness_observe ds k v status)) = map dependency ds"
  using find_key_Some [of dependency k ds]
  by (auto simp: readiness_observe_def Let_def map_list_update_same split: option.splits readiness_evidence.splits)

lemma readiness_transition_keys: "map dependency (fst (readiness_transition ds e)) = map dependency ds"
  by (cases e) (simp_all add: readiness_observe_keys)

lemma readiness_observe_register:
  assumes "j \<in> dependency ` set ds"
  shows "readiness_register k (fst (readiness_observe ds j v status)) =
    (if j = k then newer (readiness_register k ds) (v, status) else readiness_register k ds)"
proof -
  from assms obtain i where at: "find_key dependency j ds = Some i"
    by (cases "find_key dependency j ds") auto
  have ev: "view dependency evidence_of ds j = Some (evidence_of (ds ! i))" by (rule find_key_view [OF at])
  have "view dependency evidence_of (ds[i := (ds ! i)\<lparr>evidence_of := x\<rparr>]) = (view dependency evidence_of ds)(j \<mapsto> x)" for x
    using view_update [OF at, of "(ds ! i)\<lparr>evidence_of := x\<rparr>" evidence_of] find_key_Some [OF at] by simp
  with ev at show ?thesis
    by (cases "evidence_of (ds ! i)") (auto simp: readiness_observe_def readiness_register_def newer_def Let_def)
qed

lemma readiness_observe_unknown: "j \<notin> dependency ` set ds \<Longrightarrow> fst (readiness_observe ds j v status) = ds"
  by (auto simp: readiness_observe_def split: option.splits dest: find_key_Some)

interpretation readiness: versioned_fold readiness_transition
  "\<lambda>ds. k \<in> dependency ` set ds" "readiness_register k" "readiness_offer k" for k :: 'k
proof unfold_locales
  fix ds :: "'k readiness" and e :: "('k, 'r) readiness_message"
  assume known: "k \<in> dependency ` set ds"
  then show "k \<in> dependency ` set (fst (readiness_transition ds e))"
    using readiness_transition_keys [of ds e] by (metis list.set_map)
  show "readiness_register k (fst (readiness_transition ds e)) =
      (case readiness_offer k e of None \<Rightarrow> readiness_register k ds | Some x \<Rightarrow> newer (readiness_register k ds) x)"
  proof (cases e)
    case (ObserveReadiness j v status)
    with known show ?thesis
      by (cases "j \<in> dependency ` set ds") (auto simp: readiness_observe_register readiness_observe_unknown)
  qed simp
qed

lemma report_ready_registers:
  assumes "distinct (map dependency ds)"
  shows "report_ready ds \<longleftrightarrow> (\<forall>k \<in> dependency ` set ds. \<exists>v. readiness_register k ds = Some (v, Ready))"
proof -
  have "readiness_register (dependency s) ds = observed_evidence (evidence_of s)" if s: "s \<in> set ds" for s
  proof -
    from s obtain i where i: "i < length ds" "ds ! i = s" by (auto simp: in_set_conv_nth)
    with find_key_view [OF find_key_nth [OF assms i(1)], of evidence_of] show ?thesis by (simp add: readiness_register_def)
  qed
  moreover have "(case ev of Observed v Ready \<Rightarrow> True | _ \<Rightarrow> False) \<longleftrightarrow> (\<exists>v. observed_evidence ev = Some (v, Ready))" for ev
    by (cases ev) (auto split: readiness_status.splits)
  ultimately show ?thesis by (simp add: report_ready_def list_all_iff)
qed

text \<open>
  A readiness behavior always reports exactly its configured dependencies, each once, and
  is ready exactly when for every one of them the evidence of the greatest version, the first
  at that version, says so; a dependency nothing was reported about is not ready, and reports
  about others have no influence.
\<close>

theorem readiness_needs_every_dependency:
  fixes es :: "('k, 'r) readiness_message list"
  shows "let ds = run_state readiness_transition (readiness_new ks) es
   in map dependency ds = unique_in_order ks
      \<and> report_ready ds = list_all (\<lambda>k. \<exists>v. latest (List.map_filter (readiness_offer k) es) = Some (v, Ready)) ks"
proof -
  let ?ds = "run_state readiness_transition (readiness_new ks) es"
  have "map dependency (run_state readiness_transition ds es) = map dependency ds" for ds :: "'k readiness"
    by (induction es arbitrary: ds) (simp_all add: split_beta readiness_transition_keys)
  then have keys: "map dependency ?ds = unique_in_order ks" using readiness_new_states [of ks] by simp
  have "readiness_register k ?ds = latest (List.map_filter (readiness_offer k) es)" if "k \<in> set ks" for k
  proof (rule readiness.run_latest)
    show "k \<in> dependency ` set (readiness_new ks)"
      using that readiness_new_states [of ks] by (metis list.set_map set_unique_in_order)
    show "readiness_register k (readiness_new ks) = None"
    proof (cases "find_key dependency k (readiness_new ks)")
      case None
      then show ?thesis by (simp only: find_key_None_iff [where val = evidence_of] readiness_register_def) simp
    next
      case (Some i)
      with find_key_view [OF Some, of evidence_of] find_key_Some [OF Some] readiness_new_states [of ks]
      show ?thesis by (simp add: readiness_register_def list_all_length)
    qed
  qed
  moreover have "dependency ` set ?ds = set ks" using keys by (metis list.set_map set_unique_in_order)
  moreover have "distinct (map dependency ?ds)" using keys by simp
  ultimately show ?thesis using keys by (simp add: Let_def report_ready_registers list_all_iff)
qed

section \<open>Features\<close>

text \<open>A normalised set names each feature once, with the last status it was given.\<close>

lemma add_feature_view:
  "view feature_name feature_status (add_feature fs f) = (view feature_name feature_status fs)(feature_name f \<mapsto> feature_status f)
   \<and> (distinct (map feature_name fs) \<longrightarrow> distinct (map feature_name (add_feature fs f)))"
proof (cases "find_key feature_name (feature_name f) fs")
  case None
  with view_push [OF None, of feature_status] distinct_push [OF None] show ?thesis
    by (simp add: add_feature_def del: position_None_iff)
next
  case (Some i)
  let ?y = "(fs ! i)\<lparr>feature_status := feature_status f\<rparr>"
  have "feature_name ?y = feature_name f" using find_key_Some [OF Some] by simp
  with Some view_update [OF Some, of ?y feature_status] keys_update [OF Some, of ?y] show ?thesis
    by (simp add: add_feature_def)
qed

lemma feature_set_normalised:
  "view feature_name feature_status (feature_set_new fs) = view feature_name feature_status (rev fs)
   \<and> distinct (map feature_name (feature_set_new fs))"
proof (induction fs rule: rev_induct)
  case (snoc f fs)
  with add_feature_view [of "feature_set_new fs" f] show ?case by (simp add: feature_set_new_def)
qed (simp add: feature_set_new_def)

end
