(* ===== verification/Settlement.thy ===== *)
theory Settlement
  imports Behavior_Core
begin

text \<open>
  The interpretation of the effects a fold returns (\<^verbatim>\<open>behavior/src/effects/sending.rs\<close>): the
  settlement of one action item and its status, the progress slot that owns an input, its
  partial custody or its result, the traversal of a vector of items, of a request lane and of a
  layered product, and the admission of source results one at a time.

  The code is asynchronous; the progress slot lives outside the future, so that a dropped future
  loses no item. A host call is a function from the loaned pair (input, reply) and the
  interpreter to the pair and the interpreter it leaves. A host that leaves the input in place
  and writes no reply is one whose future was dropped before it consumed the item. All items of
  the crates use the whole-item loan of \<^verbatim>\<open>prepare_item\<close> and \<^verbatim>\<open>finish_item\<close> as custody, apart from the
  assignment of a pool.
\<close>

section \<open>Settlements and their status\<close>

datatype interpreter_fault = MissingCapability | CorruptTraversal

datatype ('item, 'acc, 'rej, 'pre) item_settlement =
    ItemAccepted 'acc
  | ItemRejected 'item 'rej
  | ItemBlocked 'item 'pre
  | ItemCorrupt 'item interpreter_fault

datatype ('item, 'set) settled_item = Attempted 'set | Unattempted 'item

datatype 'set interpreted = CompleteInterpretation 'set | CorruptInterpretation 'set

fun interpretation_map :: "('s \<Rightarrow> 't) \<Rightarrow> 's interpreted \<Rightarrow> 't interpreted" where
  "interpretation_map f (CompleteInterpretation s) = CompleteInterpretation (f s)"
| "interpretation_map f (CorruptInterpretation s) = CorruptInterpretation (f s)"

fun into_settlement :: "'s interpreted \<Rightarrow> 's" where
  "into_settlement (CompleteInterpretation s) = s"
| "into_settlement (CorruptInterpretation s) = s"

datatype settlement_status = StatusAccepted | StatusRejected | StatusCorrupt

definition combine_status :: "settlement_status \<Rightarrow> settlement_status \<Rightarrow> settlement_status" where
  "combine_status a b =
     (if a = StatusCorrupt \<or> b = StatusCorrupt then StatusCorrupt
      else if a = StatusRejected \<or> b = StatusRejected then StatusRejected else StatusAccepted)"

fun item_status :: "('item, 'acc, 'rej, 'pre) item_settlement \<Rightarrow> settlement_status" where
  "item_status (ItemAccepted a) = StatusAccepted"
| "item_status (ItemRejected i r) = StatusRejected"
| "item_status (ItemBlocked i p) = StatusRejected"
| "item_status (ItemCorrupt i f) = StatusCorrupt"

fun settled_status :: "('s \<Rightarrow> settlement_status) \<Rightarrow> ('item, 's) settled_item \<Rightarrow> settlement_status" where
  "settled_status st (Attempted s) = st s"
| "settled_status st (Unattempted i) = StatusCorrupt"

fun interpretation_status :: "('s \<Rightarrow> settlement_status) \<Rightarrow> 's interpreted \<Rightarrow> settlement_status" where
  "interpretation_status st (CompleteInterpretation s) = st s"
| "interpretation_status st (CorruptInterpretation s) = StatusCorrupt"

definition vec_status :: "('s \<Rightarrow> settlement_status) \<Rightarrow> 's list \<Rightarrow> settlement_status" where
  "vec_status st ss = foldl (\<lambda>status s. combine_status status (st s)) StatusAccepted ss"

section \<open>Progress of one item\<close>

datatype ('x, 'c, 's) interpretation_progress =
    Original 'x
  | Interpreting 'c
  | Completed "'s interpreted"

type_synonym ('x, 'c, 's) slot = "('x, 'c, 's) interpretation_progress option"

type_synonym ('item, 'reply) custody = "'item option \<times> 'reply option"

type_synonym ('item, 'acc, 'rej, 'pre) item_slot =
  "('item, ('item, ('item, 'acc, 'rej, 'pre) item_settlement) custody,
    ('item, 'acc, 'rej, 'pre) item_settlement) slot"

text \<open>\<^verbatim>\<open>InterpretItem::interpret_item\<close>: the loaned input and reply, before and after the call.\<close>

type_synonym ('i, 'item, 'reply) item_host =
  "'i \<Rightarrow> ('item, 'reply) custody \<Rightarrow> ('item, 'reply) custody \<times> 'i"

definition prepare_item :: "('item, 'acc, 'rej, 'pre) item_slot \<Rightarrow> ('item, 'acc, 'rej, 'pre) item_slot" where
  "prepare_item p = (case p of Some (Original item) \<Rightarrow> Some (Interpreting (Some item, None)) | _ \<Rightarrow> p)"

definition interpretation_input :: "('item, 'reply) custody \<Rightarrow> ('item, 'reply) custody option" where
  "interpretation_input c = (case c of (Some item, None) \<Rightarrow> Some (Some item, None) | _ \<Rightarrow> None)"

definition finish_item :: "('item, 'acc, 'rej, 'pre) item_slot \<Rightarrow> ('item, 'acc, 'rej, 'pre) item_slot" where
  "finish_item p = (case p of
      Some (Interpreting (None, Some received)) \<Rightarrow>
        Some (Completed (case received of
            ItemCorrupt item fault \<Rightarrow> CorruptInterpretation received
          | _ \<Rightarrow> CompleteInterpretation received))
    | _ \<Rightarrow> p)"

definition settle_item :: "('i, 'item, ('item, 'acc, 'rej, 'pre) item_settlement) item_host
    \<Rightarrow> ('item, 'acc, 'rej, 'pre) item_slot \<Rightarrow> 'i \<Rightarrow> ('item, 'acc, 'rej, 'pre) item_slot \<times> 'i" where
  "settle_item host p i = (case prepare_item p of
      Some (Interpreting c) \<Rightarrow> (case interpretation_input c of
          Some loan \<Rightarrow> (let (c', i') = host i loan in (Some (Interpreting c'), i'))
        | None \<Rightarrow> (Some (Interpreting c), i))
    | p' \<Rightarrow> (p', i))"

section \<open>Traversal of a vector of items\<close>

type_synonym ('item, 'acc, 'rej, 'pre) item_results =
  "('item, ('item, 'acc, 'rej, 'pre) item_settlement) settled_item list"

type_synonym ('item, 'acc, 'rej, 'pre) items_slot =
  "('item list, ('item, 'acc, 'rej, 'pre) item_slot list, ('item, 'acc, 'rej, 'pre) item_results) slot"

definition prepare_items :: "('item, 'acc, 'rej, 'pre) items_slot \<Rightarrow> ('item, 'acc, 'rej, 'pre) items_slot" where
  "prepare_items p = (case p of
      Some (Original items) \<Rightarrow> Some (Interpreting (map (\<lambda>item. Some (Original item)) items))
    | _ \<Rightarrow> p)"

fun row_original :: "('item, 'acc, 'rej, 'pre) item_slot \<Rightarrow> bool" where
  "row_original (Some (Original item)) = True"
| "row_original row = False"

fun row_completed :: "('item, 'acc, 'rej, 'pre) item_slot \<Rightarrow> bool" where
  "row_completed (Some (Completed r)) = True"
| "row_completed row = False"

fun row_corrupt :: "('item, 'acc, 'rej, 'pre) item_slot \<Rightarrow> bool" where
  "row_corrupt (Some (Completed (CorruptInterpretation r))) = True"
| "row_corrupt row = False"

fun row_finish :: "('item, 'acc, 'rej, 'pre) item_slot \<Rightarrow> ('item, 'acc, 'rej, 'pre) item_slot" where
  "row_finish (Some (Interpreting c)) = finish_item (Some (Interpreting c))"
| "row_finish row = row"

fun row_settled :: "('item, 'acc, 'rej, 'pre) item_slot
    \<Rightarrow> ('item, ('item, 'acc, 'rej, 'pre) item_settlement) settled_item option" where
  "row_settled (Some (Original item)) = Some (Unattempted item)"
| "row_settled (Some (Completed r)) = Some (Attempted (into_settlement r))"
| "row_settled row = None"

text \<open>
  \<^verbatim>\<open>finish_item_rows\<close>: every row up to the first corrupt one must be completed and every later
  row untouched; then the rows are taken and become settled items, otherwise they stay.
\<close>

definition finish_item_rows :: "('item, 'acc, 'rej, 'pre) item_slot list
    \<Rightarrow> ('item, 'acc, 'rej, 'pre) item_slot list \<times> ('item, 'acc, 'rej, 'pre) item_results interpreted option" where
  "finish_item_rows rows =
     (let rows = map row_finish rows;
          corrupt = position row_corrupt rows;
          complete = list_all (\<lambda>(index, row). case corrupt of
                Some c \<Rightarrow> if index > c then row_original row else row_completed row
              | None \<Rightarrow> row_completed row) (enumerate 0 rows)
      in if \<not> complete then (rows, None)
         else if \<not> list_all (\<lambda>row. row_original row \<or> row_completed row) rows then (rows, None)
         else ([], Some (let settled = List.map_filter row_settled rows
                         in case corrupt of Some c \<Rightarrow> CorruptInterpretation settled
                                          | None \<Rightarrow> CompleteInterpretation settled)))"

definition finish_items :: "('item, 'acc, 'rej, 'pre) items_slot \<Rightarrow> ('item, 'acc, 'rej, 'pre) items_slot" where
  "finish_items p = (case p of
      Some (Interpreting rows) \<Rightarrow> (case finish_item_rows rows of
          (rows', Some received) \<Rightarrow> Some (Completed received)
        | (rows', None) \<Rightarrow> Some (Interpreting rows'))
    | _ \<Rightarrow> p)"

text \<open>
  The loop shared by \<^verbatim>\<open>interpret_items\<close> and the interpretation of a request lane. The flag says
  that the loop met an empty row, on which the request lane returns without finishing.
\<close>

fun interpret_rows :: "('i, 'item, ('item, 'acc, 'rej, 'pre) item_settlement) item_host
    \<Rightarrow> ('item, 'acc, 'rej, 'pre) item_slot list \<Rightarrow> 'i
    \<Rightarrow> ('item, 'acc, 'rej, 'pre) item_slot list \<times> 'i \<times> bool" where
  "interpret_rows host [] i = ([], i, False)"
| "interpret_rows host (row # rows) i = (case row of
      Some (Completed (CorruptInterpretation r)) \<Rightarrow> (row # rows, i, False)
    | Some (Completed (CompleteInterpretation r)) \<Rightarrow>
        (let (rows', i', e) = interpret_rows host rows i in (row # rows', i', e))
    | None \<Rightarrow> (row # rows, i, True)
    | _ \<Rightarrow>
        (let (row1, i1) = settle_item host row i; row2 = finish_item row1
         in case row2 of
              Some (Completed (CompleteInterpretation r)) \<Rightarrow>
                (let (rows', i', e) = interpret_rows host rows i1 in (row2 # rows', i', e))
            | _ \<Rightarrow> (row2 # rows, i1, False)))"

definition interpret_items :: "('i, 'item, ('item, 'acc, 'rej, 'pre) item_settlement) item_host
    \<Rightarrow> ('item, 'acc, 'rej, 'pre) items_slot \<Rightarrow> 'i \<Rightarrow> ('item, 'acc, 'rej, 'pre) items_slot \<times> 'i" where
  "interpret_items host p i = (case prepare_items p of
      Some (Interpreting rows) \<Rightarrow>
        (let (rows', i', e) = interpret_rows host rows i in (Some (Interpreting rows'), i'))
    | p' \<Rightarrow> (p', i))"

definition unattempted_items :: "('item, 'acc, 'rej, 'pre) items_slot \<Rightarrow> ('item, 'acc, 'rej, 'pre) items_slot" where
  "unattempted_items p = (case p of
      Some (Original items) \<Rightarrow> Some (Completed (CompleteInterpretation (map Unattempted items)))
    | _ \<Rightarrow> p)"

section \<open>Lanes\<close>

text \<open>The traits \<^verbatim>\<open>SendSettlements\<close>, \<^verbatim>\<open>InterpretSends\<close> and \<^verbatim>\<open>ClassifySettlement\<close> of one sends value.\<close>

record ('x, 'c, 's, 'i) send_lane =
  lane_prepare :: "('x, 'c, 's) slot \<Rightarrow> ('x, 'c, 's) slot"
  lane_finish :: "('x, 'c, 's) slot \<Rightarrow> ('x, 'c, 's) slot"
  lane_unattempted :: "('x, 'c, 's) slot \<Rightarrow> ('x, 'c, 's) slot"
  lane_interpret :: "('x, 'c, 's) slot \<Rightarrow> 'i \<Rightarrow> ('x, 'c, 's) slot \<times> 'i"
  lane_status :: "'s \<Rightarrow> settlement_status"

definition vec_interpret :: "('i, 'item, ('item, 'acc, 'rej, 'pre) item_settlement) item_host
    \<Rightarrow> ('item, 'acc, 'rej, 'pre) items_slot \<Rightarrow> 'i \<Rightarrow> ('item, 'acc, 'rej, 'pre) items_slot \<times> 'i" where
  "vec_interpret host p i = (let (p', i') = interpret_items host p i in (finish_items p', i'))"

definition vec_lane :: "('i, 'item, ('item, 'acc, 'rej, 'pre) item_settlement) item_host
    \<Rightarrow> ('item list, ('item, 'acc, 'rej, 'pre) item_slot list, ('item, 'acc, 'rej, 'pre) item_results, 'i) send_lane" where
  "vec_lane host =
     \<lparr>lane_prepare = prepare_items, lane_finish = finish_items, lane_unattempted = unattempted_items,
      lane_interpret = vec_interpret host, lane_status = vec_status (settled_status item_status)\<rparr>"

text \<open>\<^verbatim>\<open>InterpreterRequests\<close> and \<^verbatim>\<open>SourceActions\<close> traverse the vector they wrap in their own loop.\<close>

definition requests_interpret :: "('i, 'item, ('item, 'acc, 'rej, 'pre) item_settlement) item_host
    \<Rightarrow> ('item, 'acc, 'rej, 'pre) items_slot \<Rightarrow> 'i \<Rightarrow> ('item, 'acc, 'rej, 'pre) items_slot \<times> 'i" where
  "requests_interpret host p i = (case prepare_items p of
      Some (Interpreting rows) \<Rightarrow>
        (let (rows', i', e) = interpret_rows host rows i
         in if e then (Some (Interpreting rows'), i') else (finish_items (Some (Interpreting rows')), i'))
    | p' \<Rightarrow> (p', i))"

definition requests_lane :: "('i, 'item, ('item, 'acc, 'rej, 'pre) item_settlement) item_host
    \<Rightarrow> ('item list, ('item, 'acc, 'rej, 'pre) item_slot list, ('item, 'acc, 'rej, 'pre) item_results, 'i) send_lane" where
  "requests_lane host =
     \<lparr>lane_prepare = prepare_items, lane_finish = finish_items, lane_unattempted = unattempted_items,
      lane_interpret = requests_interpret host, lane_status = vec_status (settled_status item_status)\<rparr>"

text \<open>\<^verbatim>\<open>NoSends\<close> and \<^verbatim>\<open>Vec<Never>\<close>: the original is its own settlement.\<close>

definition nothing_prepare :: "('x, 'x, 'x) slot \<Rightarrow> ('x, 'x, 'x) slot" where
  "nothing_prepare p = (case p of
      Some (Original x) \<Rightarrow> Some (Completed (CompleteInterpretation x)) | _ \<Rightarrow> p)"

definition no_sends_lane :: "(unit, unit, unit, 'i) send_lane" where
  "no_sends_lane =
     \<lparr>lane_prepare = nothing_prepare, lane_finish = nothing_prepare, lane_unattempted = nothing_prepare,
      lane_interpret = (\<lambda>p i. (nothing_prepare p, i)), lane_status = (\<lambda>_. StatusAccepted)\<rparr>"

section \<open>Layered products\<close>

type_synonym ('ox, 'oc, 'os, 'ix, 'ic, 'is) layer_slot =
  "(('ox, 'ix) send_layer,
    (('ox, 'oc, 'os) slot, ('ix, 'ic, 'is) slot) send_layer,
    ('os, 'is) send_layer) slot"

definition layer_prepare :: "('ox, 'oc, 'os, 'ix, 'ic, 'is) layer_slot \<Rightarrow> ('ox, 'oc, 'os, 'ix, 'ic, 'is) layer_slot" where
  "layer_prepare p = (case p of
      Some (Original layer) \<Rightarrow> Some (Interpreting
        \<lparr>owned_sends = Some (Original (owned_sends layer)), inner_sends = Some (Original (inner_sends layer))\<rparr>)
    | _ \<Rightarrow> p)"

fun both_interpretations :: "('i \<Rightarrow> 'o \<Rightarrow> 's) \<Rightarrow> 'i interpreted \<Rightarrow> 'o interpreted \<Rightarrow> 's interpreted" where
  "both_interpretations f (CompleteInterpretation a) (CompleteInterpretation b) = CompleteInterpretation (f a b)"
| "both_interpretations f (CompleteInterpretation a) (CorruptInterpretation b) = CorruptInterpretation (f a b)"
| "both_interpretations f (CorruptInterpretation a) (CorruptInterpretation b) = CorruptInterpretation (f a b)"
| "both_interpretations f (CorruptInterpretation a) (CompleteInterpretation b) = CorruptInterpretation (f a b)"

definition layer_finish :: "('ox, 'oc, 'os, 'ix, 'ic, 'is) layer_slot \<Rightarrow> ('ox, 'oc, 'os, 'ix, 'ic, 'is) layer_slot" where
  "layer_finish p = (case p of
      Some (Interpreting layer) \<Rightarrow> (case (inner_sends layer, owned_sends layer) of
          (Some (Completed inner), Some (Completed owned)) \<Rightarrow>
            Some (Completed (both_interpretations (\<lambda>i ow. \<lparr>owned_sends = ow, inner_sends = i\<rparr>) inner owned))
        | _ \<Rightarrow> p)
    | _ \<Rightarrow> p)"

definition layer_unattempted :: "('ox, 'oc, 'os, 'i) send_lane \<Rightarrow> ('ix, 'ic, 'is, 'i) send_lane
    \<Rightarrow> ('ox, 'oc, 'os, 'ix, 'ic, 'is) layer_slot \<Rightarrow> ('ox, 'oc, 'os, 'ix, 'ic, 'is) layer_slot" where
  "layer_unattempted Ow I p = layer_finish (case layer_prepare p of
      Some (Interpreting layer) \<Rightarrow> Some (Interpreting
        \<lparr>owned_sends = lane_unattempted Ow (owned_sends layer),
         inner_sends = lane_unattempted I (inner_sends layer)\<rparr>)
    | p' \<Rightarrow> p')"

definition layer_interpret :: "('ox, 'oc, 'os, 'i) send_lane \<Rightarrow> ('ix, 'ic, 'is, 'i) send_lane
    \<Rightarrow> ('ox, 'oc, 'os, 'ix, 'ic, 'is) layer_slot \<Rightarrow> 'i \<Rightarrow> ('ox, 'oc, 'os, 'ix, 'ic, 'is) layer_slot \<times> 'i" where
  "layer_interpret Ow I p i = (case layer_prepare p of
      Some (Interpreting layer) \<Rightarrow>
        (let (inner, i1) = lane_interpret I (inner_sends layer) i;
             inner = lane_finish I inner
         in case inner of
              Some (Completed (CompleteInterpretation r)) \<Rightarrow>
                (let (owned, i2) = lane_interpret Ow (owned_sends layer) i1
                 in (layer_finish (Some (Interpreting \<lparr>owned_sends = lane_finish Ow owned, inner_sends = inner\<rparr>)), i2))
            | Some (Completed (CorruptInterpretation r)) \<Rightarrow>
                (layer_finish (Some (Interpreting
                   \<lparr>owned_sends = lane_unattempted Ow (owned_sends layer), inner_sends = inner\<rparr>)), i1)
            | _ \<Rightarrow> (Some (Interpreting \<lparr>owned_sends = owned_sends layer, inner_sends = inner\<rparr>), i1))
    | p' \<Rightarrow> (p', i))"

definition layer_lane :: "('ox, 'oc, 'os, 'i) send_lane \<Rightarrow> ('ix, 'ic, 'is, 'i) send_lane
    \<Rightarrow> (('ox, 'ix) send_layer, (('ox, 'oc, 'os) slot, ('ix, 'ic, 'is) slot) send_layer,
        ('os, 'is) send_layer, 'i) send_lane" where
  "layer_lane Ow I =
     \<lparr>lane_prepare = layer_prepare, lane_finish = layer_finish,
      lane_unattempted = layer_unattempted Ow I, lane_interpret = layer_interpret Ow I,
      lane_status = (\<lambda>s. combine_status (lane_status I (inner_sends s)) (lane_status Ow (owned_sends s)))\<rparr>"

section \<open>The reference: one pass over the items in order\<close>

text \<open>
  What becomes of an item: a capability consumed it, it came back whole with a lawful refusal,
  it came back from a broken interpreter, or it was never offered. The reference offers the
  items one after the other and leaves everything behind a faulty item untouched.
\<close>

datatype 'v fact = Consumed | Returned 'v | Faulty 'v | Untouched 'v

fun settle_in_order :: "('v \<Rightarrow> 'i \<Rightarrow> 'v fact \<times> 'i) \<Rightarrow> 'v list \<Rightarrow> 'i \<Rightarrow> 'v fact list \<times> 'i \<times> bool" where
  "settle_in_order answer [] i = ([], i, False)"
| "settle_in_order answer (v # vs) i = (case answer v i of
      (Faulty w, i') \<Rightarrow> (Faulty w # map Untouched vs, i', True)
    | (f, i') \<Rightarrow> (let (fs, j, e) = settle_in_order answer vs i' in (f # fs, j, e)))"

fun fact_of_reply :: "('v, 'acc, 'rej, 'pre) item_settlement \<Rightarrow> 'v fact" where
  "fact_of_reply (ItemAccepted a) = Consumed"
| "fact_of_reply (ItemRejected v r) = Returned v"
| "fact_of_reply (ItemBlocked v p) = Returned v"
| "fact_of_reply (ItemCorrupt v f) = Faulty v"

fun settled_fact :: "('v, ('v, 'acc, 'rej, 'pre) item_settlement) settled_item \<Rightarrow> 'v fact" where
  "settled_fact (Attempted r) = fact_of_reply r"
| "settled_fact (Unattempted v) = Untouched v"

fun fact_status :: "'v fact \<Rightarrow> settlement_status" where
  "fact_status Consumed = StatusAccepted"
| "fact_status (Returned v) = StatusRejected"
| "fact_status (Faulty v) = StatusCorrupt"
| "fact_status (Untouched v) = StatusCorrupt"

fun corrupt_interpretation :: "'s interpreted \<Rightarrow> bool" where
  "corrupt_interpretation (CompleteInterpretation s) = False"
| "corrupt_interpretation (CorruptInterpretation s) = True"

fun sum_answer :: "('v \<Rightarrow> 'i \<Rightarrow> 'v fact \<times> 'i) \<Rightarrow> ('w \<Rightarrow> 'i \<Rightarrow> 'w fact \<times> 'i)
    \<Rightarrow> 'v + 'w \<Rightarrow> 'i \<Rightarrow> ('v + 'w) fact \<times> 'i" where
  "sum_answer a b (Inl v) i = apfst (map_fact Inl) (a v i)"
| "sum_answer a b (Inr w) i = apfst (map_fact Inr) (b w i)"

lemma settle_in_order_append:
  "settle_in_order answer (vs @ ws) i = (case settle_in_order answer vs i of
      (fs, j, True) \<Rightarrow> (fs @ map Untouched ws, j, True)
    | (fs, j, False) \<Rightarrow> (let (gs, k, e) = settle_in_order answer ws j in (fs @ gs, k, e)))"
  by (induction vs arbitrary: i) (auto simp: split_beta split: fact.splits prod.splits bool.splits)

lemma settle_in_order_Inl:
  "settle_in_order (sum_answer a b) (map Inl vs) i = apfst (map (map_fact Inl)) (settle_in_order a vs i)"
  by (induction vs arbitrary: i) (auto simp: split_beta split: fact.splits prod.splits)

lemma settle_in_order_Inr:
  "settle_in_order (sum_answer a b) (map Inr ws) i = apfst (map (map_fact Inr)) (settle_in_order b ws i)"
  by (induction ws arbitrary: i) (auto simp: split_beta split: fact.splits prod.splits)

subsection \<open>Status of a product\<close>

lemma combine_status_laws:
  "combine_status StatusAccepted a = a" "combine_status a StatusAccepted = a"
  "combine_status (combine_status a b) c = combine_status a (combine_status b c)"
  by (cases a; cases b; cases c; simp add: combine_status_def)+

lemma foldl_combine_status:
  "foldl (\<lambda>status s. combine_status status (st s)) a ss
     = combine_status a (foldl (\<lambda>status s. combine_status status (st s)) StatusAccepted ss)"
proof (induction ss arbitrary: a)
  case (Cons s ss)
  show ?case
    using Cons.IH [of "combine_status a (st s)"] Cons.IH [of "st s"] by (simp add: combine_status_laws)
qed (simp add: combine_status_laws)

lemma vec_status_append: "vec_status st (xs @ ys) = combine_status (vec_status st xs) (vec_status st ys)"
  using foldl_combine_status [of st "vec_status st xs" ys] by (simp add: vec_status_def)

lemma vec_status_map: "vec_status st (map f xs) = vec_status (st \<circ> f) xs"
  by (simp add: vec_status_def foldl_map)

lemma vec_status_cong: "(\<And>x. x \<in> set xs \<Longrightarrow> st x = st' x) \<Longrightarrow> vec_status st xs = vec_status st' xs"
  unfolding vec_status_def by (rule foldl_cong) auto

lemma fact_status_map [simp]: "fact_status (map_fact f x) = fact_status x"
  by (cases x) auto

lemma vec_status_map_fact [simp]:
  "vec_status fact_status (map (map_fact f) xs) = vec_status fact_status xs"
  by (auto simp: vec_status_map intro: vec_status_cong)

lemma settled_fact_status: "settled_status item_status s = fact_status (settled_fact s)"
proof (cases s)
  case (Attempted r)
  then show ?thesis by (cases r) auto
qed simp

section \<open>Interfaces\<close>

text \<open>
  A host that answers: it consumes the offered item and leaves a reply that returns the whole
  item, unless the capability accepted it (the contract of \<^verbatim>\<open>OwnedItem\<close>).
\<close>

locale answering_host =
  fixes host :: "('i, 'item, ('item, 'acc, 'rej, 'pre) item_settlement) item_host"
    and answer :: "'item \<Rightarrow> 'i \<Rightarrow> 'item fact \<times> 'i"
  assumes host_answers:
    "\<exists>reply. host i (Some v, None) = ((None, Some reply), snd (answer v i)) \<and> fact_of_reply reply = fst (answer v i)"

text \<open>
  A lane that settles: interpreting an original value is one pass of the reference over its
  items, a result stays, and an untouched value reports every item as unattempted.
\<close>

locale settling_lane =
  fixes L :: "('x, 'c, 's, 'i) send_lane"
    and items :: "'x \<Rightarrow> 'v list"
    and facts :: "'s \<Rightarrow> 'v fact list"
    and answer :: "'v \<Rightarrow> 'i \<Rightarrow> 'v fact \<times> 'i"
  assumes interpret_original:
      "settle_in_order answer (items x) i = (fs, i', e) \<Longrightarrow>
        \<exists>r. lane_interpret L (Some (Original x)) i = (Some (Completed r), i')
          \<and> facts (into_settlement r) = fs \<and> corrupt_interpretation r = e"
    and interpret_completed: "lane_interpret L (Some (Completed r)) i = (Some (Completed r), i)"
    and finish_completed: "lane_finish L (Some (Completed r)) = Some (Completed r)"
    and unattempted_original:
      "\<exists>s. lane_unattempted L (Some (Original x)) = Some (Completed (CompleteInterpretation s))
          \<and> facts s = map Untouched (items x)"
    and status_facts: "lane_status L s = vec_status fact_status (facts s)"

section \<open>Vectors and request lanes settle\<close>

abbreviation original_row :: "'item \<Rightarrow> ('item, 'acc, 'rej, 'pre) item_slot" where
  "original_row v \<equiv> Some (Original v)"

abbreviation complete_row :: "('item, 'acc, 'rej, 'pre) item_settlement \<Rightarrow> ('item, 'acc, 'rej, 'pre) item_slot" where
  "complete_row r \<equiv> Some (Completed (CompleteInterpretation r))"

abbreviation corrupt_row :: "('item, 'acc, 'rej, 'pre) item_settlement \<Rightarrow> ('item, 'acc, 'rej, 'pre) item_slot" where
  "corrupt_row r \<equiv> Some (Completed (CorruptInterpretation r))"

lemma row_settled_rows:
  "List.map_filter row_settled (map complete_row rs) = map Attempted rs"
  "List.map_filter row_settled (map original_row vs) = map Unattempted vs"
  "List.map_filter row_settled (xs @ ys) = List.map_filter row_settled xs @ List.map_filter row_settled ys"
  by (induction rs) (induction vs, auto simp: List.map_filter_def)

lemma position_corrupt_rows:
  "position row_corrupt (map complete_row rs) = None"
  "position row_corrupt (map complete_row rs @ corrupt_row r # rows) = Some (length rs)"
  by (induction rs) auto

lemma finish_complete_rows:
  "finish_item_rows (map complete_row rs) = ([], Some (CompleteInterpretation (map Attempted rs)))"
proof -
  let ?rows = "map complete_row rs"
  have fin: "map row_finish ?rows = ?rows" by simp
  have "list_all (\<lambda>(index, row). row_completed row) (enumerate 0 ?rows)"
    by (auto simp: list_all_iff in_set_enumerate_eq)
  moreover have "list_all (\<lambda>row. row_original row \<or> row_completed row) ?rows"
    by (auto simp: list_all_iff)
  ultimately show ?thesis
    unfolding finish_item_rows_def fin position_corrupt_rows Let_def by (simp add: row_settled_rows)
qed

lemma finish_corrupt_rows:
  "finish_item_rows (map complete_row rs @ corrupt_row r # map original_row vs)
     = ([], Some (CorruptInterpretation (map Attempted rs @ Attempted r # map Unattempted vs)))"
proof -
  let ?rows = "map complete_row rs @ corrupt_row r # map original_row vs"
  have fin: "map row_finish ?rows = ?rows" by simp
  have "list_all (\<lambda>(index, row). if index > length rs then row_original row else row_completed row)
      (enumerate 0 ?rows)"
    by (auto simp: list_all_iff in_set_enumerate_eq nth_append nth_Cons split: nat.splits)
  moreover have "list_all (\<lambda>row. row_original row \<or> row_completed row) ?rows"
    by (auto simp: list_all_iff)
  moreover have "List.map_filter row_settled ?rows = map Attempted rs @ Attempted r # map Unattempted vs"
    using row_settled_rows(1) [of rs] row_settled_rows(2) [of vs]
    by (simp add: row_settled_rows(3) List.map_filter_simps)
  ultimately show ?thesis
    unfolding finish_item_rows_def fin position_corrupt_rows Let_def by simp
qed

context answering_host
begin

lemma settle_original_row:
  obtains reply where "settle_item host (original_row v) i = (Some (Interpreting (None, Some reply)), snd (answer v i))"
    and "fact_of_reply reply = fst (answer v i)"
proof -
  from host_answers [of i v] obtain reply where
    "host i (Some v, None) = ((None, Some reply), snd (answer v i))" "fact_of_reply reply = fst (answer v i)"
    by blast
  then show thesis
    by (intro that) (simp_all add: settle_item_def prepare_item_def interpretation_input_def)
qed

text \<open>The rows the loop leaves: replies up to the first corrupt one, the rest untouched.\<close>

lemma interpret_original_rows:
  assumes "settle_in_order answer vs i = (fs, i', e)"
  shows "\<exists>rs. \<not> e \<and> interpret_rows host (map original_row vs) i = (map complete_row rs, i', False)
            \<and> fs = map fact_of_reply rs
       \<or> (\<exists>r ws. e \<and> interpret_rows host (map original_row vs) i
              = (map complete_row rs @ corrupt_row r # map original_row ws, i', False)
            \<and> fs = map fact_of_reply rs @ fact_of_reply r # map Untouched ws)"
  using assms
proof (induction vs arbitrary: i fs)
  case Nil
  then show ?case by (intro exI [of _ "[]"]) auto
next
  case (Cons v vs)
  obtain reply where reply:
    "settle_item host (original_row v) i = (Some (Interpreting (None, Some reply)), snd (answer v i))"
    "fact_of_reply reply = fst (answer v i)"
    by (rule settle_original_row)
  obtain f j where ans: "answer v i = (f, j)" by fastforce
  show ?case
  proof (cases "\<exists>w. f = Faulty w")
    case True
    then obtain w fault where "reply = ItemCorrupt w fault" "f = Faulty w"
      using reply(2) ans by (cases reply) auto
    with Cons.prems reply ans show ?thesis
      by (intro exI [of _ "[]"]) (auto simp: finish_item_def)
  next
    case False
    then have ok: "finish_item (Some (Interpreting (None, Some reply))) = complete_row reply"
      using reply(2) ans by (cases reply) (auto simp: finish_item_def)
    obtain fs' where fs': "settle_in_order answer vs j = (fs', i', e)" "fs = f # fs'"
      using Cons.prems False ans by (cases f) (auto split: prod.splits)
    from Cons.IH [OF fs'(1)] obtain rs where
      "\<not> e \<and> interpret_rows host (map original_row vs) j = (map complete_row rs, i', False)
            \<and> fs' = map fact_of_reply rs
       \<or> (\<exists>r ws. e \<and> interpret_rows host (map original_row vs) j
              = (map complete_row rs @ corrupt_row r # map original_row ws, i', False)
            \<and> fs' = map fact_of_reply rs @ fact_of_reply r # map Untouched ws)" by blast
    with ok reply ans fs'(2) show ?thesis
      by (intro exI [of _ "reply # rs"]) auto
  qed
qed

lemma finish_interpreted_rows:
  assumes "settle_in_order answer vs i = (fs, i', e)"
  obtains rows r where "interpret_rows host (map original_row vs) i = (rows, i', False)"
    and "finish_items (Some (Interpreting rows)) = Some (Completed r)"
    and "map settled_fact (into_settlement r) = fs" and "corrupt_interpretation r = e"
proof -
  from interpret_original_rows [OF assms] obtain rs where rs:
    "\<not> e \<and> interpret_rows host (map original_row vs) i = (map complete_row rs, i', False)
            \<and> fs = map fact_of_reply rs
       \<or> (\<exists>r ws. e \<and> interpret_rows host (map original_row vs) i
              = (map complete_row rs @ corrupt_row r # map original_row ws, i', False)
            \<and> fs = map fact_of_reply rs @ fact_of_reply r # map Untouched ws)" by blast
  then show thesis
  proof (elim disjE exE conjE)
    assume "\<not> e" "interpret_rows host (map original_row vs) i = (map complete_row rs, i', False)"
      "fs = map fact_of_reply rs"
    then show thesis
      by (intro that [of "map complete_row rs" "CompleteInterpretation (map Attempted rs)"])
        (simp_all add: finish_items_def finish_complete_rows)
  next
    fix r ws
    assume "e" "interpret_rows host (map original_row vs) i
        = (map complete_row rs @ corrupt_row r # map original_row ws, i', False)"
      "fs = map fact_of_reply rs @ fact_of_reply r # map Untouched ws"
    then show thesis
      by (intro that [of "map complete_row rs @ corrupt_row r # map original_row ws"
            "CorruptInterpretation (map Attempted rs @ Attempted r # map Unattempted ws)"])
        (simp_all add: finish_items_def finish_corrupt_rows)
  qed
qed

end

sublocale answering_host \<subseteq> vec: settling_lane "vec_lane host" "\<lambda>vs. vs" "map settled_fact" answer
proof
  fix vs i fs i' e
  assume "settle_in_order answer vs i = (fs, i', e)"
  then obtain rows r where "interpret_rows host (map original_row vs) i = (rows, i', False)"
    "finish_items (Some (Interpreting rows)) = Some (Completed r)"
    "map settled_fact (into_settlement r) = fs" "corrupt_interpretation r = e"
    by (rule finish_interpreted_rows)
  then show "\<exists>r. lane_interpret (vec_lane host) (Some (Original vs)) i = (Some (Completed r), i')
      \<and> map settled_fact (into_settlement r) = fs \<and> corrupt_interpretation r = e"
    by (simp add: vec_lane_def vec_interpret_def interpret_items_def prepare_items_def)
qed (auto simp: vec_lane_def vec_interpret_def interpret_items_def prepare_items_def finish_items_def
    unattempted_items_def vec_status_map settled_fact_status intro: vec_status_cong)

sublocale answering_host \<subseteq> requests: settling_lane "requests_lane host" "\<lambda>vs. vs" "map settled_fact" answer
proof
  fix vs i fs i' e
  assume "settle_in_order answer vs i = (fs, i', e)"
  then obtain rows r where "interpret_rows host (map original_row vs) i = (rows, i', False)"
    "finish_items (Some (Interpreting rows)) = Some (Completed r)"
    "map settled_fact (into_settlement r) = fs" "corrupt_interpretation r = e"
    by (rule finish_interpreted_rows)
  then show "\<exists>r. lane_interpret (requests_lane host) (Some (Original vs)) i = (Some (Completed r), i')
      \<and> map settled_fact (into_settlement r) = fs \<and> corrupt_interpretation r = e"
    by (simp add: requests_lane_def requests_interpret_def prepare_items_def)
qed (auto simp: requests_lane_def requests_interpret_def prepare_items_def finish_items_def
    unattempted_items_def vec_status_map settled_fact_status intro: vec_status_cong)

context answering_host
begin

lemma vec_settles: "settling_lane (vec_lane host) (\<lambda>vs. vs) (map settled_fact) answer"
  by (rule vec.settling_lane_axioms)

lemma requests_settle: "settling_lane (requests_lane host) (\<lambda>vs. vs) (map settled_fact) answer"
  by (rule requests.settling_lane_axioms)

end

interpretation no_sends: settling_lane "no_sends_lane" "\<lambda>_. [] :: 'v list" "\<lambda>_. []" answer
  by unfold_locales (auto simp: no_sends_lane_def nothing_prepare_def vec_status_def)

section \<open>Layers settle\<close>

text \<open>
  The inner product is interpreted first; the layer's own effects follow only when no item inside
  was faulty. Seen as one list, inner items before owned ones, the layer is one pass.
\<close>

locale settling_layer =
  owned: settling_lane Ow items_o facts_o answer_o + inner: settling_lane I items_i facts_i answer_i
  for Ow :: "('ox, 'oc, 'os, 'i) send_lane" and items_o :: "'ox \<Rightarrow> 'w list" and facts_o answer_o
    and I :: "('ix, 'ic, 'is, 'i) send_lane" and items_i :: "'ix \<Rightarrow> 'v list" and facts_i answer_i
begin

definition layer_items :: "('ox, 'ix) send_layer \<Rightarrow> ('v + 'w) list" where
  "layer_items x = map Inl (items_i (inner_sends x)) @ map Inr (items_o (owned_sends x))"

definition layer_facts :: "('os, 'is) send_layer \<Rightarrow> ('v + 'w) fact list" where
  "layer_facts s = map (map_fact Inl) (facts_i (inner_sends s)) @ map (map_fact Inr) (facts_o (owned_sends s))"

abbreviation layer_answer :: "'v + 'w \<Rightarrow> 'i \<Rightarrow> ('v + 'w) fact \<times> 'i" where
  "layer_answer \<equiv> sum_answer answer_i answer_o"

lemma interpret_layer:
  assumes "settle_in_order layer_answer (layer_items x) i = (fs, i', e)"
  shows "\<exists>r. layer_interpret Ow I (Some (Original x)) i = (Some (Completed r), i')
    \<and> layer_facts (into_settlement r) = fs \<and> corrupt_interpretation r = e"
proof -
  obtain gs j e1 where gs: "settle_in_order answer_i (items_i (inner_sends x)) i = (gs, j, e1)"
    by (metis prod_cases3)
  from inner.interpret_original [OF gs] obtain ri where
    ri: "lane_interpret I (Some (Original (inner_sends x))) i = (Some (Completed ri), j)"
      "facts_i (into_settlement ri) = gs" "corrupt_interpretation ri = e1" by blast
  show ?thesis
  proof (cases e1)
    case True
    with ri obtain si where si: "ri = CorruptInterpretation si" "facts_i si = gs" by (cases ri) auto
    obtain so where so:
      "lane_unattempted Ow (Some (Original (owned_sends x))) = Some (Completed (CompleteInterpretation so))"
      "facts_o so = map Untouched (items_o (owned_sends x))"
      using owned.unattempted_original by blast
    have "(fs, i', e) = (map (map_fact Inl) gs @ map Untouched (map Inr (items_o (owned_sends x))), j, True)"
      using assms gs True by (simp add: layer_items_def settle_in_order_append settle_in_order_Inl)
    with ri si so show ?thesis
      by (simp add: layer_interpret_def layer_prepare_def inner.finish_completed layer_finish_def layer_facts_def)
  next
    case False
    with ri obtain si where si: "ri = CompleteInterpretation si" "facts_i si = gs" by (cases ri) auto
    obtain hs k e2 where hs: "settle_in_order answer_o (items_o (owned_sends x)) j = (hs, k, e2)"
      by (metis prod_cases3)
    from owned.interpret_original [OF hs] obtain ro where
      ro: "lane_interpret Ow (Some (Original (owned_sends x))) j = (Some (Completed ro), k)"
        "facts_o (into_settlement ro) = hs" "corrupt_interpretation ro = e2" by blast
    have "(fs, i', e) = (map (map_fact Inl) gs @ map (map_fact Inr) hs, k, e2)"
      using assms gs hs False
      by (simp add: layer_items_def settle_in_order_append settle_in_order_Inl settle_in_order_Inr)
    with ri si ro show ?thesis
      by (cases ro) (simp_all add: layer_interpret_def layer_prepare_def inner.finish_completed
          owned.finish_completed layer_finish_def layer_facts_def)
  qed
qed

lemma unattempted_layer:
  "\<exists>s. layer_unattempted Ow I (Some (Original x)) = Some (Completed (CompleteInterpretation s))
      \<and> layer_facts s = map Untouched (layer_items x)"
proof -
  obtain si so where
    "lane_unattempted I (Some (Original (inner_sends x))) = Some (Completed (CompleteInterpretation si))"
    "facts_i si = map Untouched (items_i (inner_sends x))"
    "lane_unattempted Ow (Some (Original (owned_sends x))) = Some (Completed (CompleteInterpretation so))"
    "facts_o so = map Untouched (items_o (owned_sends x))"
    using inner.unattempted_original owned.unattempted_original by meson
  then show ?thesis
    by (simp add: layer_unattempted_def layer_prepare_def layer_finish_def layer_facts_def layer_items_def)
qed

lemma status_layer:
  "lane_status (layer_lane Ow I) s = vec_status fact_status (layer_facts s)"
  by (simp add: layer_lane_def layer_facts_def vec_status_append inner.status_facts owned.status_facts)

end

sublocale settling_layer \<subseteq> layer: settling_lane "layer_lane Ow I" layer_items layer_facts layer_answer
proof
  show "\<exists>r. lane_interpret (layer_lane Ow I) (Some (Original x)) i = (Some (Completed r), i')
      \<and> layer_facts (into_settlement r) = fs \<and> corrupt_interpretation r = e"
    if "settle_in_order layer_answer (layer_items x) i = (fs, i', e)" for x i fs i' e
    using interpret_layer [OF that] by (simp add: layer_lane_def)
  show "\<exists>s. lane_unattempted (layer_lane Ow I) (Some (Original x)) = Some (Completed (CompleteInterpretation s))
      \<and> layer_facts s = map Untouched (layer_items x)" for x
    using unattempted_layer [of x] by (simp add: layer_lane_def)
qed (auto simp: status_layer, auto simp: layer_lane_def layer_interpret_def layer_prepare_def layer_finish_def)

context settling_layer
begin

lemma layered_interpretation:
  assumes "settle_in_order layer_answer (map Inl (items_i (inner_sends x)) @ map Inr (items_o (owned_sends x))) i
      = (fs, i', e)"
  shows "\<exists>r. lane_interpret (layer_lane Ow I) (Some (Original x)) i = (Some (Completed r), i')
    \<and> map (map_fact Inl) (facts_i (inner_sends (into_settlement r)))
        @ map (map_fact Inr) (facts_o (owned_sends (into_settlement r))) = fs
    \<and> corrupt_interpretation r = e
    \<and> lane_status (layer_lane Ow I) (into_settlement r) = vec_status fact_status fs"
proof -
  from assms have "settle_in_order layer_answer (layer_items x) i = (fs, i', e)" by (simp add: layer_items_def)
  from layer.interpret_original [OF this] obtain r where
    "lane_interpret (layer_lane Ow I) (Some (Original x)) i = (Some (Completed r), i')"
    "layer_facts (into_settlement r) = fs" "corrupt_interpretation r = e" by blast
  then show ?thesis using layer.status_facts [of "into_settlement r"]
    by (intro exI [of _ r]) (auto simp: layer_facts_def)
qed

end

section \<open>Properties\<close>

text \<open>A host that takes the loaned item and writes one reply, and the answer it gives.\<close>

definition owned_host :: "('item \<Rightarrow> 'i \<Rightarrow> ('item, 'acc, 'rej, 'pre) item_settlement \<times> 'i)
    \<Rightarrow> ('i, 'item, ('item, 'acc, 'rej, 'pre) item_settlement) item_host" where
  "owned_host reply i c = (case c of
      (Some item, None) \<Rightarrow> (let (r, i') = reply item i in ((None, Some r), i'))
    | _ \<Rightarrow> (c, i))"

interpretation owned: answering_host "owned_host reply" "\<lambda>v i. apfst fact_of_reply (reply v i)"
  by unfold_locales (auto simp: owned_host_def split: prod.splits)

interpretation two_lanes: settling_layer
  "requests_lane (owned_host reply)" "\<lambda>vs. vs" "map settled_fact" "\<lambda>v i. apfst fact_of_reply (reply v i)"
  "vec_lane (owned_host reply')" "\<lambda>vs. vs" "map settled_fact" "\<lambda>v i. apfst fact_of_reply (reply' v i)"
  by unfold_locales

text \<open>
  C27: The interpretation of a layered sends value, a request lane over an inner vector, always
  completes and is one pass over all its items in the order inner before owned. Each item is
  offered once, lawful refusals do not stop the pass, and after a faulty item no later item of
  either lane is offered: the settlement reports it, the exact faulty item and every later item
  as unattempted, and the result is corrupt exactly then. Holds for every host that answers.
\<close>

theorem layered_interpretation_is_one_pass:
  assumes "answering_host host answer" and "answering_host host' answer'"
    and "settle_in_order (sum_answer answer' answer)
           (map Inl (inner_sends x) @ map Inr (owned_sends x)) i = (fs, i', e)"
  shows "\<exists>r. lane_interpret (layer_lane (requests_lane host) (vec_lane host')) (Some (Original x)) i
             = (Some (Completed r), i')
         \<and> map (map_fact Inl \<circ> settled_fact) (inner_sends (into_settlement r))
             @ map (map_fact Inr \<circ> settled_fact) (owned_sends (into_settlement r)) = fs
         \<and> corrupt_interpretation r = e
         \<and> lane_status (layer_lane (requests_lane host) (vec_lane host')) (into_settlement r)
             = vec_status fact_status fs"
proof -
  have "settling_layer (requests_lane host) (\<lambda>vs. vs) (map settled_fact) answer
      (vec_lane host') (\<lambda>vs. vs) (map settled_fact) answer'"
    by (intro settling_layer.intro answering_host.requests_settle answering_host.vec_settles assms)
  note layer = settling_layer.layered_interpretation [OF this]
  from layer [OF assms(3)] show ?thesis by (simp only: map_map)
qed

definition sample_inner :: "nat \<Rightarrow> nat list \<Rightarrow> (nat, unit, unit, unit) item_settlement \<times> nat list" where
  "sample_inner v i = (if v = 2 then (ItemCorrupt v MissingCapability, i) else (ItemRejected v (), i @ [v]))"

definition sample_owned :: "nat \<Rightarrow> nat list \<Rightarrow> (nat, unit, unit, unit) item_settlement \<times> nat list" where
  "sample_owned v i = (ItemAccepted (), i @ [v])"

theorem layered_interpretation_is_one_pass_witness:
  "\<exists>r. lane_interpret (layer_lane (requests_lane (owned_host sample_owned)) (vec_lane (owned_host sample_inner)))
        (Some (Original \<lparr>owned_sends = [7, 8], inner_sends = [1, 2, 3]\<rparr>)) []
      = (Some (Completed r), [1])
    \<and> map (map_fact Inl \<circ> settled_fact) (inner_sends (into_settlement r))
        @ map (map_fact Inr \<circ> settled_fact) (owned_sends (into_settlement r))
      = [Returned (Inl 1), Faulty (Inl 2), Untouched (Inl 3), Untouched (Inr 7), Untouched (Inr 8)]
    \<and> corrupt_interpretation r = True
    \<and> lane_status (layer_lane (requests_lane (owned_host sample_owned)) (vec_lane (owned_host sample_inner)))
        (into_settlement r)
      = vec_status fact_status [Returned (Inl (1 :: nat)), Faulty (Inl 2), Untouched (Inl 3),
          Untouched (Inr 7), Untouched (Inr (8 :: nat))]"
  by (rule layered_interpretation_is_one_pass
      [OF owned.answering_host_axioms owned.answering_host_axioms])
    (simp add: sample_inner_def sample_owned_def)

section \<open>Interrupted interpretation\<close>

text \<open>
  A future may be dropped while an item is loaned, as often as the runtime likes; the next call
  gets the slot back. The host then either leaves the loan as it was or answers; a reply returns
  the whole item or is a receipt. The ghost log records the items in the order they were answered.
\<close>

definition answers :: "'item \<Rightarrow> ('item, 'acc, 'rej, 'pre) item_settlement \<Rightarrow> bool" where
  "answers v reply \<longleftrightarrow> fact_of_reply reply \<in> {Consumed, Returned v, Faulty v}"

locale loaning_host =
  fixes host :: "('i, 'item, ('item, 'acc, 'rej, 'pre) item_settlement) item_host"
  assumes loan: "fst (host i (Some v, None)) = (Some v, None)
      \<or> (\<exists>reply. fst (host i (Some v, None)) = (None, Some reply) \<and> answers v reply)"

definition logged_host :: "('i, 'item, 'reply) item_host \<Rightarrow> ('i \<times> 'item list, 'item, 'reply) item_host" where
  "logged_host host il c = (let (c', i') = host (fst il) c
     in (c', (i', case (c, c') of ((Some v, None), (None, Some r)) \<Rightarrow> snd il @ [v] | _ \<Rightarrow> snd il)))"

fun attempts :: "('x, 'c, 's, 'i) send_lane \<Rightarrow> nat \<Rightarrow> ('x, 'c, 's) slot \<Rightarrow> 'i \<Rightarrow> ('x, 'c, 's) slot \<times> 'i" where
  "attempts L 0 p i = (p, i)"
| "attempts L (Suc n) p i = (let (p', i') = attempts L n p i in lane_interpret L p' i')"

fun row_item :: "('item, 'acc, 'rej, 'pre) item_slot \<Rightarrow> 'item option" where
  "row_item (Some (Original v)) = Some v"
| "row_item (Some (Interpreting (v, r))) = v"
| "row_item row = None"

fun row_reply :: "('item, 'acc, 'rej, 'pre) item_slot \<Rightarrow> ('item, 'acc, 'rej, 'pre) item_settlement option" where
  "row_reply (Some (Completed r)) = Some (into_settlement r)"
| "row_reply (Some (Interpreting (v, r))) = r"
| "row_reply row = None"

fun settled_untouched :: "('item, 's) settled_item \<Rightarrow> 'item option" where
  "settled_untouched (Unattempted v) = Some v"
| "settled_untouched (Attempted s) = None"

fun settled_attempted :: "('item, 's) settled_item \<Rightarrow> 's option" where
  "settled_attempted (Attempted s) = Some s"
| "settled_attempted (Unattempted v) = None"

text \<open>The items a slot still owns and the replies it has received.\<close>

fun slot_items :: "('item, 'acc, 'rej, 'pre) items_slot \<Rightarrow> 'item list" where
  "slot_items (Some (Original vs)) = vs"
| "slot_items (Some (Interpreting rows)) = List.map_filter row_item rows"
| "slot_items (Some (Completed r)) = List.map_filter settled_untouched (into_settlement r)"
| "slot_items None = []"

fun slot_replies :: "('item, 'acc, 'rej, 'pre) items_slot \<Rightarrow> ('item, 'acc, 'rej, 'pre) item_settlement list" where
  "slot_replies (Some (Interpreting rows)) = List.map_filter row_reply rows"
| "slot_replies (Some (Completed r)) = List.map_filter settled_attempted (into_settlement r)"
| "slot_replies p = []"

abbreviation loaned_row :: "'item \<Rightarrow> ('item, 'acc, 'rej, 'pre) item_slot" where
  "loaned_row v \<equiv> Some (Interpreting (Some v, None))"

text \<open>Where one pass of the loop may stop: at the end, behind a corrupt reply, at a loaned item.\<close>

inductive loop_result :: "'item list \<Rightarrow> 'item list
    \<Rightarrow> ('item, 'acc, 'rej, 'pre) item_slot list \<times> ('i \<times> 'item list) \<times> bool \<Rightarrow> bool" where
  at_end: "list_all2 answers us rs \<Longrightarrow> loop_result lg us (map complete_row rs, (i, lg @ us), False)"
| at_loan: "list_all2 answers us rs \<Longrightarrow>
    loop_result lg (us @ v # ws) (map complete_row rs @ loaned_row v # map original_row ws, (i, lg @ us), False)"
| at_fault: "list_all2 answers us rs \<Longrightarrow> answers v r \<Longrightarrow>
    loop_result lg (us @ v # ws) (map complete_row rs @ corrupt_row r # map original_row ws, (i, lg @ us @ [v]), False)"

lemma loop_result_shape:
  assumes "loop_result lg vs res"
  obtains rows i' lg' where "res = (rows, (i', lg'), False)"
  using assms by (cases rule: loop_result.cases) auto

lemma loop_result_Cons:
  assumes "answers v r" and "loop_result (lg @ [v]) vs res"
  shows "loop_result lg (v # vs) (complete_row r # fst res, snd res)"
  using assms(2)
proof cases
  case (at_end rs i)
  with assms(1) loop_result.at_end [of "v # vs" "r # rs" lg i] show ?thesis by simp
next
  case (at_loan us rs w ws i)
  with assms(1) loop_result.at_loan [of "v # us" "r # rs" lg w ws i] show ?thesis by simp
next
  case (at_fault us rs w s ws i)
  with assms(1) loop_result.at_fault [of "v # us" "r # rs" w s lg ws i] show ?thesis by simp
qed

context loaning_host
begin

text \<open>One loan: the row of an unanswered item stays loaned, or is completed by an answer.\<close>

lemma settle_unanswered:
  assumes "row = original_row v \<or> row = loaned_row v"
  obtains (loaned) i' where "settle_item (logged_host host) row (i, lg) = (loaned_row v, (i', lg))"
  | (answered) i' r where "settle_item (logged_host host) row (i, lg) = (Some (Interpreting (None, Some r)), (i', lg @ [v]))"
      and "answers v r"
proof -
  have "settle_item (logged_host host) row (i, lg)
      = (let (c, il) = logged_host host (i, lg) (Some v, None) in (Some (Interpreting c), il))"
    using assms by (auto simp: settle_item_def prepare_item_def interpretation_input_def)
  then show thesis using loan [of i v]
    by (elim disjE exE conjE; cases "host i (Some v, None)")
      (auto simp: logged_host_def intro: loaned answered)
qed

lemma finish_answered:
  "finish_item (Some (Interpreting (None, Some r)))
     = (case fact_of_reply r of Faulty w \<Rightarrow> corrupt_row r | _ \<Rightarrow> complete_row r)"
  by (cases r) (auto simp: finish_item_def)

lemma interpret_unanswered:
  assumes "row = original_row v \<or> row = loaned_row v"
    and "\<And>i lg. loop_result lg vs (interpret_rows (logged_host host) (map original_row vs) (i, lg))"
  shows "loop_result lg (v # vs) (interpret_rows (logged_host host) (row # map original_row vs) (i, lg))"
proof -
  have step: "interpret_rows (logged_host host) (row # map original_row vs) (i, lg)
      = (let (row1, i1) = settle_item (logged_host host) row (i, lg); row2 = finish_item row1
         in case row2 of
              Some (Completed (CompleteInterpretation r)) \<Rightarrow>
                (let (rows', i', e) = interpret_rows (logged_host host) (map original_row vs) i1 in (row2 # rows', i', e))
            | _ \<Rightarrow> (row2 # map original_row vs, i1, False))"
    using assms(1) by (auto simp: Let_def)
  from assms(1) show ?thesis
  proof (cases rule: settle_unanswered [of row v i lg])
    case (loaned i')
    with loop_result.at_loan [of "[]" "[]" lg v vs i'] show ?thesis
      unfolding step by (simp add: finish_item_def)
  next
    case (answered i' r)
    show ?thesis
    proof (cases "\<exists>w. fact_of_reply r = Faulty w")
      case True
      with answered loop_result.at_fault [of "[]" "[]" v r lg vs i'] show ?thesis
        unfolding step by (auto simp: finish_answered)
    next
      case False
      then have "finish_item (Some (Interpreting (None, Some r))) = complete_row r"
        by (auto simp: finish_answered split: fact.splits)
      with answered loop_result_Cons [OF answered(2) assms(2) [of "lg @ [v]" i']]
      show ?thesis unfolding step by (simp add: split_beta)
    qed
  qed
qed

lemma interpret_originals: "loop_result lg vs (interpret_rows (logged_host host) (map original_row vs) (i, lg))"
proof (induction vs arbitrary: lg i)
  case Nil
  with loop_result.at_end [of "[]" "[]" lg i] show ?case by simp
next
  case (Cons v vs)
  from interpret_unanswered [of "original_row v" v vs lg i] Cons.IH show ?case by simp
qed

text \<open>The slots an interrupted interpretation goes through.\<close>

lemma interpret_completed_prefix:
  "interpret_rows h (map complete_row rs @ rows) i
     = (map complete_row rs @ fst (interpret_rows h rows i), snd (interpret_rows h rows i))"
  by (induction rs) (auto simp: split_beta)

end

inductive held_slot :: "'item list \<Rightarrow> 'item list \<Rightarrow> ('item, 'acc, 'rej, 'pre) items_slot \<Rightarrow> bool" where
  fresh: "held_slot vs [] (Some (Original vs))"
| partial: "list_all2 answers us rs \<Longrightarrow>
    held_slot (us @ v # ws) us (Some (Interpreting (map complete_row rs @ loaned_row v # map original_row ws)))"
| complete: "list_all2 answers us rs \<Longrightarrow>
    held_slot us us (Some (Completed (CompleteInterpretation (map Attempted rs))))"
| faulted: "list_all2 answers us rs \<Longrightarrow>
    held_slot (us @ ws) us (Some (Completed (CorruptInterpretation (map Attempted rs @ map Unattempted ws))))"

lemma finish_loaned_rows:
  "finish_items (Some (Interpreting (map complete_row rs @ loaned_row v # map original_row ws)))
     = Some (Interpreting (map complete_row rs @ loaned_row v # map original_row ws))"
proof -
  let ?rows = "map complete_row rs @ loaned_row v # map original_row ws"
  have fin: "map row_finish ?rows = ?rows" by (simp add: finish_item_def)
  have pos: "position row_corrupt ?rows = None" by (auto simp: list.pred_set)
  have "\<not> list_all (\<lambda>(index, row). row_completed row) (enumerate 0 ?rows)"
    by (auto simp: list_all_iff in_set_enumerate_eq nth_append intro!: bexI [of _ "(length rs, loaned_row v)"])
  then have "finish_item_rows ?rows = (?rows, None)"
    unfolding finish_item_rows_def fin Let_def pos by simp
  then show ?thesis by (simp add: finish_items_def)
qed

lemma held_finished:
  assumes "list_all2 answers us rs" and "loop_result us vs (rows, (i, lg), False)"
  shows "held_slot (us @ vs) lg (finish_items (Some (Interpreting (map complete_row rs @ rows))))"
  using assms(2)
proof cases
  case (at_end ss)
  then have "held_slot (us @ vs) lg (Some (Completed (CompleteInterpretation (map Attempted (rs @ ss)))))"
    using held_slot.complete [of "us @ vs" "rs @ ss"] assms(1) by (simp add: list_all2_appendI)
  with at_end show ?thesis using finish_complete_rows [of "rs @ ss"] by (simp add: finish_items_def)
next
  case (at_loan ts ss w ws)
  then show ?thesis
    using held_slot.partial [of "us @ ts" "rs @ ss" w ws] assms(1) finish_loaned_rows [of "rs @ ss" w ws]
    by (simp add: list_all2_appendI)
next
  case (at_fault ts ss w s ws)
  then have "held_slot (us @ vs) lg (Some (Completed
      (CorruptInterpretation (map Attempted ((rs @ ss) @ [s]) @ map Unattempted ws))))"
    using held_slot.faulted [of "us @ ts @ [w]" "(rs @ ss) @ [s]" ws] assms(1)
    by (simp add: list_all2_appendI)
  with at_fault show ?thesis using finish_corrupt_rows [of "rs @ ss" s ws] by (simp add: finish_items_def)
qed

context loaning_host
begin

lemma held_step:
  assumes "held_slot vs lg p"
  shows "\<exists>i' lg'. snd (requests_interpret (logged_host host) p (i, lg)) = (i', lg')
    \<and> held_slot vs lg' (fst (requests_interpret (logged_host host) p (i, lg)))"
  using assms
proof cases
  case fresh
  let ?res = "interpret_rows (logged_host host) (map original_row vs) (i, [])"
  have res: "loop_result [] vs ?res" by (rule interpret_originals)
  then obtain rows i' lg' where "?res = (rows, (i', lg'), False)" by (rule loop_result_shape)
  with res held_finished [of "[]" "[]" vs rows i' lg'] fresh show ?thesis
    by (simp add: requests_interpret_def prepare_items_def)
next
  case (partial rs v ws)
  let ?res = "interpret_rows (logged_host host) (loaned_row v # map original_row ws) (i, lg)"
  have res: "loop_result lg (v # ws) ?res"
    by (intro interpret_unanswered interpret_originals) simp
  then obtain rows i' lg' where "?res = (rows, (i', lg'), False)" by (rule loop_result_shape)
  with res held_finished [of lg rs "v # ws" rows i' lg'] partial show ?thesis
    by (simp add: requests_interpret_def prepare_items_def interpret_completed_prefix del: interpret_rows.simps)
next
  case (complete rs)
  with assms show ?thesis by (auto simp: requests_interpret_def prepare_items_def)
next
  case (faulted rs ws)
  with assms show ?thesis by (auto simp: requests_interpret_def prepare_items_def)
qed

lemma held_attempts:
  "\<exists>i' lg. snd (attempts (requests_lane (logged_host host)) n (Some (Original vs)) (i, [])) = (i', lg)
    \<and> held_slot vs lg (fst (attempts (requests_lane (logged_host host)) n (Some (Original vs)) (i, [])))"
proof (induction n)
  case 0
  show ?case by (simp add: held_slot.fresh)
next
  case (Suc n)
  then obtain i' lg p where "attempts (requests_lane (logged_host host)) n (Some (Original vs)) (i, []) = (p, (i', lg))"
    "held_slot vs lg p" by (metis prod.collapse)
  with held_step [of vs lg p i'] show ?case by (simp add: requests_lane_def)
qed

end

lemma map_filter_shapes [simp]:
  "List.map_filter row_item (map complete_row rs @ rows) = List.map_filter row_item rows"
  "List.map_filter row_item (map original_row ws) = ws"
  "List.map_filter row_reply (map complete_row rs @ rows) = rs @ List.map_filter row_reply rows"
  "List.map_filter row_reply (map original_row ws) = []"
  "List.map_filter settled_untouched (map Attempted rs @ map Unattempted ws) = ws"
  "List.map_filter settled_attempted (map Attempted rs @ map Unattempted ws) = rs"
  "List.map_filter settled_untouched (map Attempted rs) = []"
  "List.map_filter settled_attempted (map Attempted rs) = rs"
  by (induction rs; induction ws; simp add: List.map_filter_simps)+

lemma held_slot_custody:
  "held_slot vs lg p \<Longrightarrow> lg @ slot_items p = vs \<and> list_all2 answers lg (slot_replies p)"
  by (induction rule: held_slot.induct) (auto simp: List.map_filter_simps)

text \<open>
  C10: However often the interpretation of a request lane is dropped and resumed, no item is lost,
  duplicated or offered again after its answer: the items answered so far, in the order they were
  answered, followed by the items the slot still owns are the original vector; the replies the slot
  holds answer exactly those items, in order; and a result that is not corrupt leaves no item behind.
\<close>

theorem interrupted_interpretation_keeps_custody:
  assumes "loaning_host host"
    and "attempts (requests_lane (logged_host host)) n (Some (Original vs)) (i, []) = (p, i', answered)"
  shows "answered @ slot_items p = vs \<and> list_all2 answers answered (slot_replies p)
    \<and> (\<forall>s. p = Some (Completed (CompleteInterpretation s)) \<longrightarrow> slot_items p = [])"
proof -
  from loaning_host.held_attempts [OF assms(1), of n vs i] assms(2) have held: "held_slot vs answered p" by simp
  moreover from held have "slot_items p = []" if "p = Some (Completed (CompleteInterpretation s))" for s
    using that by cases auto
  ultimately show ?thesis using held_slot_custody [OF held] by blast
qed

text \<open>A host that lets every first loan drop and rejects the item on the second.\<close>

definition dropping_host :: "(bool, nat, (nat, unit, unit, unit) item_settlement) item_host" where
  "dropping_host i c = (case c of
      (Some v, None) \<Rightarrow> if i then ((None, Some (ItemRejected v ())), False) else ((Some v, None), True)
    | _ \<Rightarrow> (c, i))"

interpretation dropping: loaning_host dropping_host
  by unfold_locales (auto simp: dropping_host_def answers_def)

theorem interrupted_interpretation_keeps_custody_witness:
  "attempts (requests_lane (logged_host dropping_host)) 2 (Some (Original [4, 5])) (False, [])
     = (Some (Interpreting [complete_row (ItemRejected 4 ()), loaned_row 5]), True, [4])
   \<and> [4] @ slot_items (Some (Interpreting [complete_row (ItemRejected 4 ()), loaned_row 5]) ::
         (nat, unit, unit, unit) items_slot) = [4, 5]"
proof -
  have run: "attempts (requests_lane (logged_host dropping_host)) 2 (Some (Original [4, 5])) (False, [])
     = (Some (Interpreting [complete_row (ItemRejected 4 ()), loaned_row 5]), True, [4])"
    by code_simp
  with interrupted_interpretation_keeps_custody [OF dropping.loaning_host_axioms run] show ?thesis by blast
qed

end
