(* ===== verification/Creation.thy ===== *)
theory Creation
  imports Settlement
begin

text \<open>
  Child creation (\<^verbatim>\<open>behavior/src/actor/creation.rs\<close>): the sequence that issues creation identities,
  creation requests and their batches, the sum of the child types a parent may create, its append
  and the staging of a product of children, and the dispatch of a routed creation to the host that
  establishes the selected child.
\<close>

section \<open>Identities\<close>

text \<open>\<^verbatim>\<open>CreationId\<close> wraps a \<^verbatim>\<open>NonZeroU64\<close>; the sequence holds the next one, or nothing when exhausted.\<close>

datatype creation_id = CreationId u64

fun creation_id_get :: "creation_id \<Rightarrow> u64" where
  "creation_id_get (CreationId w) = w"

record creation_sequence =
  sequence_next :: "u64 option"

definition creation_sequence_new :: creation_sequence where
  "creation_sequence_new = \<lparr>sequence_next = Some 1\<rparr>"

definition creation_issue :: "creation_sequence \<Rightarrow> creation_sequence \<times> creation_id option" where
  "creation_issue s = (case sequence_next s of
      None \<Rightarrow> (s, None)
    | Some v \<Rightarrow> (s\<lparr>sequence_next := checked_add v 1\<rparr>, Some (CreationId v)))"

section \<open>Requests\<close>

datatype creation_kind = Birth | Replacement creation_id

record 'n create_child =
  create_id :: creation_id
  create_child :: 'n
  create_kind :: creation_kind

definition create_from_parts :: "creation_id \<Rightarrow> 'n \<Rightarrow> creation_kind \<Rightarrow> 'n create_child" where
  "create_from_parts i c k = \<lparr>create_id = i, create_child = c, create_kind = k\<rparr>"

definition create_birth :: "creation_id \<Rightarrow> 'n \<Rightarrow> 'n create_child" where
  "create_birth i c = create_from_parts i c Birth"

definition create_replacement :: "creation_id \<Rightarrow> creation_id \<Rightarrow> 'n \<Rightarrow> 'n create_child" where
  "create_replacement i previous c = create_from_parts i c (Replacement previous)"

definition create_into_parts :: "'n create_child \<Rightarrow> creation_id \<times> 'n \<times> creation_kind" where
  "create_into_parts c = (create_id c, create_child c, create_kind c)"

text \<open>The batch \<^verbatim>\<open>Creations\<close> is its vector.\<close>

type_synonym 'item creations = "'item list"

definition creations_one :: "'item \<Rightarrow> 'item creations" where
  "creations_one item = [item]"

definition creations_into_one :: "'item creations \<Rightarrow> 'item creations + 'item" where
  "creations_into_one items = (case items of [item] \<Rightarrow> Inr item | _ \<Rightarrow> Inl items)"

definition creations_and :: "'item creations \<Rightarrow> 'item \<Rightarrow> 'item creations" where
  "creations_and items item = items @ [item]"

definition creations_map :: "('a \<Rightarrow> 'b) \<Rightarrow> 'a creations \<Rightarrow> 'b creations" where
  "creations_map f items = map f items"

record ('n, 'nonce) routed_creation =
  routed_create :: "'n create_child"
  routed_route :: 'nonce

definition routed_into_parts :: "('n, 'nonce) routed_creation \<Rightarrow> 'n create_child \<times> 'nonce" where
  "routed_into_parts r = (routed_create r, routed_route r)"

datatype allocation_rejection = AllocationExhausted | AddressAlreadyClaimed

datatype creation_rejection =
    CorrelationAlreadyRecorded
  | Allocation allocation_rejection
  | InitializationFailed
  | EnvironmentFailed

datatype child_namespace_exhausted = ChildNamespaceExhausted

section \<open>The children a parent may create\<close>

datatype ('h, 't) child_choice = ChildHead 'h | ChildTail 't

text \<open>
  \<^verbatim>\<open>BirthNodeAppend\<close>: how a prefix node and a tail node enter the appended sum, for a single
  child in front of the tail and for a choice whose rest is appended.
\<close>

record ('p, 't, 'out) birth_append =
  append_prefix :: "'p \<Rightarrow> 'out"
  append_tail :: "'t \<Rightarrow> 'out"

definition child_append :: "('c, 't, ('c, 't) child_choice) birth_append" where
  "child_append = \<lparr>append_prefix = ChildHead, append_tail = ChildTail\<rparr>"

definition choice_append :: "('r, 't, 'out) birth_append
    \<Rightarrow> (('h, 'r) child_choice, 't, ('h, 'out) child_choice) birth_append" where
  "choice_append R =
     \<lparr>append_prefix = (\<lambda>c. case c of ChildHead h \<Rightarrow> ChildHead h | ChildTail r \<Rightarrow> ChildTail (append_prefix R r)),
      append_tail = (\<lambda>t. ChildTail (append_tail R t))\<rparr>"

definition map_create :: "('n \<Rightarrow> 'm) \<Rightarrow> 'n create_child \<Rightarrow> 'm create_child" where
  "map_create f c = (let (i, child, k) = create_into_parts c in create_from_parts i (f child) k)"

definition append_creations :: "('p, 't, 'out) birth_append \<Rightarrow> 'p create_child creations
    \<Rightarrow> 't create_child creations \<Rightarrow> 'out create_child creations" where
  "append_creations A prefix tail = map (map_create (append_prefix A)) prefix @ map (map_create (append_tail A)) tail"

text \<open>\<^verbatim>\<open>ChildProduct::stage\<close>: the earlier children move one position down, the last one is the head.\<close>

definition stage_nothing :: "never create_child creations" where
  "stage_nothing = []"

definition stage_cons :: "'c create_child \<Rightarrow> 'e create_child creations \<Rightarrow> ('c, 'e) child_choice create_child creations" where
  "stage_cons creation earlier = map (map_create ChildTail) earlier @ [map_create ChildHead creation]"

section \<open>Dispatch\<close>

text \<open>\<^verbatim>\<open>EstablishChild::establish_child\<close> of the host and the dispatch of a selected child through it.\<close>

type_synonym ('i, 'n, 'nonce, 'res) establish =
  "('n, 'nonce) routed_creation \<Rightarrow> 'i
     \<Rightarrow> (('n, 'nonce) routed_creation, 'res, creation_rejection, never) item_settlement \<times> 'i"

type_synonym ('i, 'n, 'nonce, 'res) dispatch =
  "'n \<Rightarrow> creation_id \<Rightarrow> 'nonce \<Rightarrow> creation_kind \<Rightarrow> 'i
     \<Rightarrow> (('n, 'nonce) routed_creation, 'res, creation_rejection, never) item_settlement \<times> 'i"

definition dispatch_child :: "('i, 'n, 'nonce, 'res) establish \<Rightarrow> ('i, 'n, 'nonce, 'res) dispatch" where
  "dispatch_child establish child i route kind h =
     establish \<lparr>routed_create = create_from_parts i child kind, routed_route = route\<rparr> h"

definition reselect :: "('n \<Rightarrow> 'm) \<Rightarrow> ('n, 'nonce) routed_creation \<Rightarrow> ('m, 'nonce) routed_creation" where
  "reselect f item = (let (creation, route) = routed_into_parts item
     in \<lparr>routed_create = map_create f creation, routed_route = route\<rparr>)"

fun reselect_settlement :: "('n \<Rightarrow> 'm) \<Rightarrow> ('r \<Rightarrow> 's)
    \<Rightarrow> (('n, 'nonce) routed_creation, 'r, creation_rejection, never) item_settlement
    \<Rightarrow> (('m, 'nonce) routed_creation, 's, creation_rejection, never) item_settlement" where
  "reselect_settlement f g (ItemAccepted receipt) = ItemAccepted (g receipt)"
| "reselect_settlement f g (ItemRejected item reason) = ItemRejected (reselect f item) reason"
| "reselect_settlement f g (ItemBlocked item p) = ItemBlocked (reselect f item) p"
| "reselect_settlement f g (ItemCorrupt item fault) = ItemCorrupt (reselect f item) fault"

fun dispatch_choice :: "('i, 'h, 'nonce, 'a) establish \<Rightarrow> ('i, 't, 'nonce, 'b) dispatch
    \<Rightarrow> ('i, ('h, 't) child_choice, 'nonce, ('a, 'b) child_choice) dispatch" where
  "dispatch_choice establish tail (ChildHead child) i route kind h =
     apfst (reselect_settlement ChildHead ChildHead)
       (establish \<lparr>routed_create = create_from_parts i child kind, routed_route = route\<rparr> h)"
| "dispatch_choice establish tail (ChildTail child) i route kind h =
     apfst (reselect_settlement ChildTail ChildTail) (tail child i route kind h)"

section \<open>Fresh identities\<close>

text \<open>What the sequence has issued so far determines what it issues next.\<close>

definition sequence_step :: "creation_sequence \<Rightarrow> unit \<Rightarrow> creation_sequence \<times> creation_id option" where
  "sequence_step s u = creation_issue s"

definition sequence_traced :: "creation_id list \<Rightarrow> creation_sequence \<Rightarrow> bool" where
  "sequence_traced issued s \<longleftrightarrow> map (unat \<circ> creation_id_get) issued = [1..<Suc (length issued)] \<and>
     (case sequence_next s of Some v \<Rightarrow> unat v = Suc (length issued)
                            | None \<Rightarrow> Suc (length issued) = 2 ^ 64)"

text \<open>The identities among the answers.\<close>

fun issued :: "creation_id option list \<Rightarrow> creation_id list" where
  "issued [] = []"
| "issued (None # outs) = issued outs"
| "issued (Some i # outs) = i # issued outs"

lemma sequence_traced_issue:
  assumes "sequence_traced h s" and "sequence_next s = Some v"
  shows "sequence_traced (h @ [CreationId v]) (s\<lparr>sequence_next := checked_add v 1\<rparr>)"
proof -
  from assms have v: "unat v = Suc (length h)"
    and h: "map (unat \<circ> creation_id_get) h = [1..<Suc (length h)]" by (simp_all add: sequence_traced_def)
  have "map (unat \<circ> creation_id_get) (h @ [CreationId v]) = [1..<Suc (Suc (length h))]"
    using h v by (simp add: o_def)
  moreover have "case checked_add v 1 of Some w \<Rightarrow> unat w = Suc (Suc (length h)) | None \<Rightarrow> Suc (Suc (length h)) = 2 ^ 64"
  proof (cases "checked_add v 1")
    case None
    then have "v = - 1" by (simp add: checked_succ_None_iff)
    then have "unat v = 2 ^ 64 - 1" by (simp only: unat_max_word) simp
    with v None show ?thesis by simp
  qed (simp add: v unat_checked_succ)
  ultimately show ?thesis by (simp add: sequence_traced_def split: option.splits)
qed

interpretation sequence: traced_fold sequence_step sequence_traced "\<lambda>u out. issued [out]"
proof
  fix h s e
  assume "sequence_traced h s"
  then show "sequence_traced (h @ issued [snd (sequence_step s e)]) (fst (sequence_step s e))"
    by (cases "sequence_next s") (simp_all add: sequence_step_def creation_issue_def sequence_traced_issue)
qed

lemma exhausted_sequence_issues_nothing:
  "sequence_next s = None \<Longrightarrow> issued (run_outputs sequence_step s (replicate n ())) = []"
  by (induction n) (simp_all add: sequence_step_def creation_issue_def)

lemma length_issued:
  "sequence_next s = Some v \<Longrightarrow>
     length (issued (run_outputs sequence_step s (replicate n ()))) = min n (2 ^ 64 - unat v)"
proof (induction n arbitrary: s v)
  case (Suc n)
  let ?s = "fst (sequence_step s ())"
  from Suc.prems have step: "snd (sequence_step s ()) = Some (CreationId v)" "sequence_next ?s = checked_add v 1"
    by (simp_all add: sequence_step_def creation_issue_def)
  show ?case
  proof (cases "checked_add v 1")
    case None
    then have "v = - 1" by (simp add: checked_succ_None_iff)
    then have "unat v = 2 ^ 64 - 1" by (simp only: unat_max_word) simp
    with step None exhausted_sequence_issues_nothing [of ?s n] show ?thesis by simp
  next
    case (Some w)
    then have "unat w = Suc (unat v)" by (simp add: unat_checked_succ)
    moreover have "unat w < 2 ^ 64" using unsigned_less [of w] by simp
    ultimately have "2 ^ 64 - unat v = Suc (2 ^ 64 - unat w)" by simp
    with step Some Suc.IH [of ?s w] show ?thesis by simp
  qed
qed simp

lemma concat_issued: "length es = length outs \<Longrightarrow> concat (map2 (\<lambda>u out. issued [out]) es outs) = issued outs"
proof (induction es outs rule: list_induct2)
  case (Cons e es out outs)
  then show ?case by (cases out) simp_all
qed simp

text \<open>
  C35: However often a creation sequence is asked, the identities it issues are 1, 2, 3, and so on:
  never zero, never the same twice, in strictly increasing order. Asked \<open>n\<close> times it issues \<open>n\<close>
  identities as long as \<^verbatim>\<open>u64\<close> has them, and nothing after \<^verbatim>\<open>u64::MAX\<close>.
\<close>

theorem creation_ids_are_fresh:
  "map (unat \<circ> creation_id_get)
       (issued (run_outputs sequence_step creation_sequence_new (replicate n ())))
     = [1..<Suc (min n (2 ^ 64 - 1))]"
proof -
  let ?issued = "issued (run_outputs sequence_step creation_sequence_new (replicate n ()))"
  have "sequence_traced [] creation_sequence_new"
    by (simp add: sequence_traced_def creation_sequence_new_def)
  from sequence.run_trace [OF this, of "replicate n ()"]
  have "sequence_traced ?issued (run_state sequence_step creation_sequence_new (replicate n ()))"
    by (simp add: concat_issued)
  then have "map (unat \<circ> creation_id_get) ?issued = [1..<Suc (length ?issued)]"
    by (simp add: sequence_traced_def)
  also have "length ?issued = min n (2 ^ 64 - 1)"
    using length_issued [of creation_sequence_new 1 n] by (simp add: creation_sequence_new_def)
  finally show ?thesis .
qed

section \<open>Dispatch returns the request\<close>

text \<open>
  A dispatch is whole when every refusal returns the request it was given, with its identity, kind,
  route and selected child. Establishing hosts are whole (their contract); the sum of children keeps it.
\<close>

definition routed_request :: "'n \<Rightarrow> creation_id \<Rightarrow> 'nonce \<Rightarrow> creation_kind \<Rightarrow> ('n, 'nonce) routed_creation" where
  "routed_request child i route kind = \<lparr>routed_create = create_from_parts i child kind, routed_route = route\<rparr>"

locale whole_dispatch =
  fixes dispatch :: "('i, 'n, 'nonce, 'res) dispatch"
  assumes whole: "fact_of_reply (fst (dispatch child i route kind h))
      \<in> {Consumed, Returned (routed_request child i route kind), Faulty (routed_request child i route kind)}"

locale establishing_host =
  fixes establish :: "('i, 'n, 'nonce, 'res) establish"
  assumes establishes: "answers item (fst (establish item h))"

sublocale establishing_host \<subseteq> child: whole_dispatch "dispatch_child establish"
  using establishes by unfold_locales (auto simp: dispatch_child_def answers_def routed_request_def)

lemma reselect_request:
  "reselect f (routed_request child i route kind) = routed_request (f child) i route kind"
  by (simp add: reselect_def routed_into_parts_def map_create_def create_into_parts_def create_from_parts_def
      routed_request_def)

lemma fact_reselect_settlement:
  "fact_of_reply (reselect_settlement f g r) = map_fact (reselect f) (fact_of_reply r)"
  by (cases r) auto

locale choice_host = head: establishing_host establish + tail: whole_dispatch dispatch
  for establish :: "('i, 'h, 'nonce, 'a) establish" and dispatch :: "('i, 't, 'nonce, 'b) dispatch"

sublocale choice_host \<subseteq> choice: whole_dispatch "dispatch_choice establish dispatch"
proof
  fix child i route kind h
  show "fact_of_reply (fst (dispatch_choice establish dispatch child i route kind h))
      \<in> {Consumed, Returned (routed_request child i route kind), Faulty (routed_request child i route kind)}"
  proof (cases child)
    case (ChildHead c)
    with head.establishes [of "routed_request c i route kind" h] show ?thesis
      by (auto simp: answers_def fact_reselect_settlement reselect_request routed_request_def [symmetric]
          simp flip: reselect_request)
  next
    case (ChildTail c)
    with tail.whole [of c i route kind h] show ?thesis
      by (auto simp: fact_reselect_settlement simp flip: reselect_request)
  qed
qed

text \<open>A host that decides on each request, for any decision; and a parent with two child types.\<close>

datatype 'res decision = Establish 'res | Refuse creation_rejection | Break interpreter_fault

definition deciding_establish :: "(('n, 'nonce) routed_creation \<Rightarrow> 'i \<Rightarrow> 'res decision \<times> 'i)
    \<Rightarrow> ('i, 'n, 'nonce, 'res) establish" where
  "deciding_establish decide item h = (case decide item h of
      (Establish r, h') \<Rightarrow> (ItemAccepted r, h')
    | (Refuse e, h') \<Rightarrow> (ItemRejected item e, h')
    | (Break f, h') \<Rightarrow> (ItemCorrupt item f, h'))"

interpretation deciding: establishing_host "deciding_establish decide"
  by unfold_locales (auto simp: deciding_establish_def answers_def split: prod.splits decision.splits)

interpretation two_children: choice_host "deciding_establish decide" "dispatch_child (deciding_establish decide')"
  by unfold_locales

end
