(* ===== verification/Source_Custody.thy ===== *)
theory Source_Custody
  imports Settlement
begin

text \<open>
  The return of settled results to the actor that emitted them (\<^verbatim>\<open>SourceSettlementCustody\<close> of
  \<^verbatim>\<open>effects/sending.rs\<close> and \<^verbatim>\<open>effects/actions.rs\<close>): a settlement product offers at most one result
  per round to the source's mailbox, keeps what must stay in terminal custody, and returns the
  result and the untouched rest when the mailbox is closed. The mailbox host is a function on the
  loaned input and reply, as in the interpretation of items.
\<close>

section \<open>Custody of one product\<close>

datatype 'r source_custody = Exhausted 'r | Retained 'r | Admitted 'r | Closed 'r

fun source_custody_map :: "('r \<Rightarrow> 't) \<Rightarrow> 'r source_custody \<Rightarrow> 't source_custody" where
  "source_custody_map f (Exhausted r) = Exhausted (f r)"
| "source_custody_map f (Retained r) = Retained (f r)"
| "source_custody_map f (Admitted r) = Admitted (f r)"
| "source_custody_map f (Closed r) = Closed (f r)"

datatype ('s, 'c) source_progress = SourceOriginal 's | Offering 'c | SourceCompleted "'s source_custody"

type_synonym ('s, 'c) source_slot = "('s, 'c) source_progress option"

record ('s, 'c, 'h) source_lane =
  source_prepare :: "('s, 'c) source_slot \<Rightarrow> ('s, 'c) source_slot"
  source_offer :: "'c \<Rightarrow> 'h \<Rightarrow> 'c \<times> 'h"
  source_finish :: "('s, 'c) source_slot \<Rightarrow> ('s, 'c) source_slot"

text \<open>One child of a product: prepared when it is still original, offered once, then finished.\<close>

definition offer_child :: "('s, 'c, 'h) source_lane \<Rightarrow> ('s, 'c) source_slot \<Rightarrow> 'h \<Rightarrow> ('s, 'c) source_slot \<times> 'h" where
  "offer_child L p h =
     (let p1 = (case p of Some (SourceOriginal s) \<Rightarrow> source_prepare L p | _ \<Rightarrow> p)
      in case p1 of
           Some (Offering c) \<Rightarrow> (let (c', h') = source_offer L c h in (source_finish L (Some (Offering c')), h'))
         | _ \<Rightarrow> (p1, h))"

definition offer_source_in_order :: "('a, 'ac, 'h) source_lane \<Rightarrow> ('b, 'bc, 'h) source_lane
    \<Rightarrow> ('a, 'ac) source_slot \<times> ('b, 'bc) source_slot \<Rightarrow> 'h
    \<Rightarrow> (('a, 'ac) source_slot \<times> ('b, 'bc) source_slot) \<times> 'h" where
  "offer_source_in_order A B c h =
     (let (p, h1) = offer_child A (fst c) h
      in case p of
           Some (SourceCompleted (Exhausted r)) \<Rightarrow> (let (q, h2) = offer_child B (snd c) h1 in ((p, q), h2))
         | Some (SourceCompleted (Retained r)) \<Rightarrow> (let (q, h2) = offer_child B (snd c) h1 in ((p, q), h2))
         | _ \<Rightarrow> ((p, snd c), h1))"

section \<open>Lanes\<close>

subsection \<open>Pairs\<close>

type_synonym ('a, 'ac, 'b, 'bc) pair_custody = "('a, 'ac) source_slot \<times> ('b, 'bc) source_slot"

definition pair_prepare :: "('a \<times> 'b, ('a, 'ac, 'b, 'bc) pair_custody) source_slot
    \<Rightarrow> ('a \<times> 'b, ('a, 'ac, 'b, 'bc) pair_custody) source_slot" where
  "pair_prepare p = (case p of
      Some (SourceOriginal (a, b)) \<Rightarrow> Some (Offering (Some (SourceOriginal a), Some (SourceOriginal b)))
    | _ \<Rightarrow> p)"

fun pair_complete :: "('a, 'ac, 'b, 'bc) pair_custody \<Rightarrow> ('a \<times> 'b) source_custody option" where
  "pair_complete (Some (SourceCompleted (Admitted a)), Some (SourceOriginal b)) = Some (Admitted (a, b))"
| "pair_complete (Some (SourceCompleted (Closed a)), Some (SourceOriginal b)) = Some (Closed (a, b))"
| "pair_complete (Some (SourceCompleted (Exhausted a)), Some (SourceCompleted later)) =
     Some (source_custody_map (\<lambda>b. (a, b)) later)"
| "pair_complete (Some (SourceCompleted (Retained a)), Some (SourceCompleted later)) =
     Some (case later of
         Exhausted b \<Rightarrow> Retained (a, b)
       | Retained b \<Rightarrow> Retained (a, b)
       | Admitted b \<Rightarrow> Admitted (a, b)
       | Closed b \<Rightarrow> Closed (a, b))"
| "pair_complete c = None"

definition pair_finish :: "('a \<times> 'b, ('a, 'ac, 'b, 'bc) pair_custody) source_slot
    \<Rightarrow> ('a \<times> 'b, ('a, 'ac, 'b, 'bc) pair_custody) source_slot" where
  "pair_finish p = (case p of
      Some (Offering c) \<Rightarrow> (case pair_complete c of
          Some r \<Rightarrow> Some (SourceCompleted r) | None \<Rightarrow> p)
    | _ \<Rightarrow> p)"

definition pair_source :: "('a, 'ac, 'h) source_lane \<Rightarrow> ('b, 'bc, 'h) source_lane
    \<Rightarrow> ('a \<times> 'b, ('a, 'ac, 'b, 'bc) pair_custody, 'h) source_lane" where
  "pair_source A B = \<lparr>source_prepare = pair_prepare, source_offer = offer_source_in_order A B, source_finish = pair_finish\<rparr>"

subsection \<open>Results that return to the source\<close>

text \<open>\<^verbatim>\<open>SourceAdmission::admit_source\<close> on the loaned input and reply; \<open>Inr ()\<close> is \<^verbatim>\<open>Ok(())\<close>.\<close>

type_synonym ('h, 'v) admission = "'h \<Rightarrow> 'v option \<times> ('v + unit) option \<Rightarrow> ('v option \<times> ('v + unit) option) \<times> 'h"

type_synonym 'v results_custody = "'v option \<times> 'v list \<times> ('v + unit) option"

definition results_prepare :: "('v list, 'v results_custody) source_slot \<Rightarrow> ('v list, 'v results_custody) source_slot" where
  "results_prepare p = (case p of
      Some (SourceOriginal []) \<Rightarrow> Some (SourceCompleted (Exhausted []))
    | Some (SourceOriginal (v # vs)) \<Rightarrow> Some (Offering (Some v, vs, None))
    | _ \<Rightarrow> p)"

definition results_offer :: "('h, 'v) admission \<Rightarrow> 'v results_custody \<Rightarrow> 'h \<Rightarrow> 'v results_custody \<times> 'h" where
  "results_offer admit c h = (case c of
      (input, remaining, None) \<Rightarrow>
        (let ((input', reply), h') = admit h (input, None) in ((input', remaining, reply), h'))
    | _ \<Rightarrow> (c, h))"

text \<open>The capacity check of the source cannot fail: a vector never holds \<^verbatim>\<open>usize::MAX\<close> elements.\<close>

definition results_finish :: "('v list, 'v results_custody) source_slot \<Rightarrow> ('v list, 'v results_custody) source_slot" where
  "results_finish p = (case p of
      Some (Offering (None, remaining, Some (Inr u))) \<Rightarrow> Some (SourceCompleted (Admitted remaining))
    | Some (Offering (None, remaining, Some (Inl input))) \<Rightarrow> Some (SourceCompleted (Closed (input # remaining)))
    | _ \<Rightarrow> p)"

definition results_source :: "('h, 'v) admission \<Rightarrow> ('v list, 'v results_custody, 'h) source_lane" where
  "results_source admit =
     \<lparr>source_prepare = results_prepare, source_offer = results_offer admit, source_finish = results_finish\<rparr>"

subsection \<open>Results in terminal custody\<close>

text \<open>\<^verbatim>\<open>Vec<ActionItemResult>\<close> returns nothing to the source; \<^verbatim>\<open>retain_accepted\<close> says which receipts stay.\<close>

type_synonym ('item, 'acc, 'rej, 'pre) retained_custody =
  "('item, 'acc, 'rej, 'pre) item_results \<times> ('item, 'acc, 'rej, 'pre) item_results"

definition retained_prepare ::
    "(('item, 'acc, 'rej, 'pre) item_results, ('item, 'acc, 'rej, 'pre) retained_custody) source_slot
     \<Rightarrow> (('item, 'acc, 'rej, 'pre) item_results, ('item, 'acc, 'rej, 'pre) retained_custody) source_slot" where
  "retained_prepare p = (case p of
      Some (SourceOriginal rs) \<Rightarrow>
        if rs = [] then Some (SourceCompleted (Exhausted rs)) else Some (Offering ([], rs))
    | _ \<Rightarrow> p)"

fun retain_result :: "('acc \<Rightarrow> 'acc option) \<Rightarrow> ('item, ('item, 'acc, 'rej, 'pre) item_settlement) settled_item
    \<Rightarrow> ('item, ('item, 'acc, 'rej, 'pre) item_settlement) settled_item option" where
  "retain_result retain (Attempted (ItemAccepted a)) = map_option (\<lambda>a. Attempted (ItemAccepted a)) (retain a)"
| "retain_result retain r = Some r"

definition retained_offer :: "('acc \<Rightarrow> 'acc option) \<Rightarrow> ('item, 'acc, 'rej, 'pre) retained_custody
    \<Rightarrow> 'h \<Rightarrow> ('item, 'acc, 'rej, 'pre) retained_custody \<times> 'h" where
  "retained_offer retain c h = ((fst c @ List.map_filter (retain_result retain) (snd c), []), h)"

definition retained_finish ::
    "(('item, 'acc, 'rej, 'pre) item_results, ('item, 'acc, 'rej, 'pre) retained_custody) source_slot
     \<Rightarrow> (('item, 'acc, 'rej, 'pre) item_results, ('item, 'acc, 'rej, 'pre) retained_custody) source_slot" where
  "retained_finish p = (case p of
      Some (Offering (retained, remaining)) \<Rightarrow>
        if remaining = []
        then if retained = [] then Some (SourceCompleted (Exhausted retained))
             else Some (SourceCompleted (Retained retained))
        else p
    | _ \<Rightarrow> p)"

definition retained_source :: "('acc \<Rightarrow> 'acc option)
    \<Rightarrow> (('item, 'acc, 'rej, 'pre) item_results, ('item, 'acc, 'rej, 'pre) retained_custody, 'h) source_lane" where
  "retained_source retain =
     \<lparr>source_prepare = retained_prepare, source_offer = retained_offer retain, source_finish = retained_finish\<rparr>"

subsection \<open>Nothing to return\<close>

definition nothing_source :: "('s, 's, 'h) source_lane" where
  "nothing_source =
     \<lparr>source_prepare = (\<lambda>p. case p of Some (SourceOriginal s) \<Rightarrow> Some (SourceCompleted (Exhausted s)) | _ \<Rightarrow> p),
      source_offer = Pair,
      source_finish = (\<lambda>p. case p of
          Some (SourceOriginal s) \<Rightarrow> Some (SourceCompleted (Exhausted s))
        | Some (Offering s) \<Rightarrow> Some (SourceCompleted (Exhausted s))
        | _ \<Rightarrow> p)\<rparr>"

subsection \<open>Layers and actions\<close>

text \<open>Both finish through the pair, whose custody they share; the inner layer is the earlier child.\<close>

definition product_finish :: "('a \<times> 'b \<Rightarrow> 's) \<Rightarrow> ('s, ('a, 'ac, 'b, 'bc) pair_custody) source_slot
    \<Rightarrow> ('s, ('a, 'ac, 'b, 'bc) pair_custody) source_slot" where
  "product_finish mk p = (case p of
      Some (Offering custody) \<Rightarrow> (case pair_finish (Some (Offering custody)) of
          Some (SourceOriginal ab) \<Rightarrow> Some (SourceOriginal (mk ab))
        | Some (Offering c) \<Rightarrow> Some (Offering c)
        | Some (SourceCompleted r) \<Rightarrow> Some (SourceCompleted (source_custody_map mk r))
        | None \<Rightarrow> None)
    | _ \<Rightarrow> p)"

definition layer_source :: "('o, 'oc, 'h) source_lane \<Rightarrow> ('n, 'nc, 'h) source_lane
    \<Rightarrow> (('o, 'n) send_layer, ('n, 'nc, 'o, 'oc) pair_custody, 'h) source_lane" where
  "layer_source Ow I =
     \<lparr>source_prepare = (\<lambda>p. case p of
          Some (SourceOriginal s) \<Rightarrow>
            Some (Offering (Some (SourceOriginal (inner_sends s)), Some (SourceOriginal (owned_sends s))))
        | _ \<Rightarrow> p),
      source_offer = offer_source_in_order I Ow,
      source_finish = product_finish (\<lambda>(i, ow). \<lparr>owned_sends = ow, inner_sends = i\<rparr>)\<rparr>"

record ('c, 's, 'ph) action_settlement =
  settled_creations :: 'c
  settled_sends :: 's
  settled_become :: "'ph become"

definition action_source_finish :: "(('c, 's, 'ph) action_settlement, ('c, 'cc, 's, 'sc) pair_custody \<times> 'ph become) source_slot
    \<Rightarrow> (('c, 's, 'ph) action_settlement, ('c, 'cc, 's, 'sc) pair_custody \<times> 'ph become) source_slot" where
  "action_source_finish p = (case p of
      Some (Offering (custody, b)) \<Rightarrow> (case pair_finish (Some (Offering custody)) of
          Some (SourceOriginal (c, s)) \<Rightarrow>
            Some (SourceOriginal \<lparr>settled_creations = c, settled_sends = s, settled_become = b\<rparr>)
        | Some (Offering custody') \<Rightarrow> Some (Offering (custody', b))
        | Some (SourceCompleted r) \<Rightarrow> Some (SourceCompleted (source_custody_map
            (\<lambda>(c, s). \<lparr>settled_creations = c, settled_sends = s, settled_become = b\<rparr>) r))
        | None \<Rightarrow> None)
    | _ \<Rightarrow> p)"

definition action_source :: "('c, 'cc, 'h) source_lane \<Rightarrow> ('s, 'sc, 'h) source_lane
    \<Rightarrow> (('c, 's, 'ph) action_settlement, ('c, 'cc, 's, 'sc) pair_custody \<times> 'ph become, 'h) source_lane" where
  "action_source C S =
     \<lparr>source_prepare = (\<lambda>p. case p of
          Some (SourceOriginal a) \<Rightarrow> Some (Offering
            ((Some (SourceOriginal (settled_creations a)), Some (SourceOriginal (settled_sends a))), settled_become a))
        | _ \<Rightarrow> p),
      source_offer = (\<lambda>(custody, b) h. let (c', h') = offer_source_in_order C S custody h in ((c', b), h')),
      source_finish = action_source_finish\<rparr>"

section \<open>Interfaces\<close>

text \<open>
  A mailbox takes the loaned input; when it is closed it returns the unchanged input
  (\<^verbatim>\<open>SourceAdmission\<close>). A settlement product offers its first source input, if it has one, and
  keeps the rest.
\<close>

locale admitting_host =
  fixes admit :: "('h, 'v) admission"
    and admission :: "'v \<Rightarrow> 'h \<Rightarrow> bool \<times> 'h"
  assumes admit_loan: "admit h (Some v, None)
      = ((None, Some (if fst (admission v h) then Inr () else Inl v)), snd (admission v h))"

locale source_contract =
  fixes L :: "('s, 'c, 'h) source_lane"
    and inputs :: "'s \<Rightarrow> 'v list"
    and admission :: "'v \<Rightarrow> 'h \<Rightarrow> bool \<times> 'h"
  assumes no_input: "inputs s = [] \<Longrightarrow> \<exists>s'. inputs s' = []
      \<and> offer_child L (Some (SourceOriginal s)) h \<in>
          {(Some (SourceCompleted (Exhausted s')), h), (Some (SourceCompleted (Retained s')), h)}"
    and some_input: "inputs s = v # vs \<Longrightarrow> \<exists>s'. offer_child L (Some (SourceOriginal s)) h
        = (Some (SourceCompleted (if fst (admission v h) then Admitted s' else Closed s')), snd (admission v h))
      \<and> inputs s' = (if fst (admission v h) then vs else v # vs)"

text \<open>The reference: the inputs in order, up to the first that the mailbox refuses.\<close>

fun admit_in_order :: "('v \<Rightarrow> 'h \<Rightarrow> bool \<times> 'h) \<Rightarrow> 'v list \<Rightarrow> 'h \<Rightarrow> 'v list \<times> 'h" where
  "admit_in_order admission [] h = ([], h)"
| "admit_in_order admission (v # vs) h =
     (if fst (admission v h) then admit_in_order admission vs (snd (admission v h))
      else (v # vs, snd (admission v h)))"

text \<open>Rounds of offers on the residual, until nothing is admitted any more.\<close>

fun offer_rounds :: "('s, 'c, 'h) source_lane \<Rightarrow> nat \<Rightarrow> 's \<Rightarrow> 'h \<Rightarrow> ('s source_custody \<times> 'h) option" where
  "offer_rounds L 0 s h = None"
| "offer_rounds L (Suc n) s h = (case offer_child L (Some (SourceOriginal s)) h of
      (Some (SourceCompleted (Admitted s')), h') \<Rightarrow> offer_rounds L n s' h'
    | (Some (SourceCompleted r), h') \<Rightarrow> Some (r, h')
    | _ \<Rightarrow> None)"

fun residual :: "'r source_custody \<Rightarrow> 'r" where
  "residual (Exhausted r) = r"
| "residual (Retained r) = r"
| "residual (Admitted r) = r"
| "residual (Closed r) = r"

fun source_closed :: "'r source_custody \<Rightarrow> bool" where
  "source_closed (Closed r) = True"
| "source_closed r = False"

context source_contract
begin

lemma rounds_admit_in_order:
  "length (inputs s) < n \<Longrightarrow> \<exists>r. offer_rounds L n s h = Some (r, snd (admit_in_order admission (inputs s) h))
     \<and> inputs (residual r) = fst (admit_in_order admission (inputs s) h)
     \<and> source_closed r = (fst (admit_in_order admission (inputs s) h) \<noteq> [])"
proof (induction n arbitrary: s h)
  case (Suc n)
  show ?case
  proof (cases "inputs s")
    case Nil
    with no_input [OF Nil, of h] show ?thesis by auto
  next
    case (Cons v vs)
    from some_input [OF Cons, of h] obtain s' where s': "offer_child L (Some (SourceOriginal s)) h
        = (Some (SourceCompleted (if fst (admission v h) then Admitted s' else Closed s')), snd (admission v h))"
      "inputs s' = (if fst (admission v h) then vs else v # vs)" by blast
    show ?thesis
    proof (cases "fst (admission v h)")
      case True
      with s' Suc.IH [of s' "snd (admission v h)"] Suc.prems Cons show ?thesis by simp
    next
      case False
      with s' Cons show ?thesis by simp
    qed
  qed
qed simp

end

interpretation nothing: source_contract "nothing_source :: ('s, 's, 'h) source_lane" "\<lambda>_. []" admission
  by unfold_locales (auto simp: nothing_source_def offer_child_def)

interpretation retained: source_contract "retained_source retain" "\<lambda>_. []" admission
  by unfold_locales (auto simp: retained_source_def offer_child_def retained_prepare_def retained_offer_def
      retained_finish_def)

sublocale admitting_host \<subseteq> results: source_contract "results_source admit" "\<lambda>vs. vs" admission
  by unfold_locales (auto simp: results_source_def offer_child_def results_prepare_def results_offer_def
      results_finish_def admit_loan)

context admitting_host
begin

lemma results_contract: "source_contract (results_source admit) (\<lambda>vs. vs) admission"
  by (rule results.source_contract_axioms)

end

section \<open>Products offer the earlier part first\<close>

fun sum_admission :: "('v \<Rightarrow> 'h \<Rightarrow> bool \<times> 'h) \<Rightarrow> ('w \<Rightarrow> 'h \<Rightarrow> bool \<times> 'h) \<Rightarrow> 'v + 'w \<Rightarrow> 'h \<Rightarrow> bool \<times> 'h" where
  "sum_admission a b (Inl v) = a v"
| "sum_admission a b (Inr w) = b w"

locale source_product =
  earlier: source_contract A inputs_a admission_a + later: source_contract B inputs_b admission_b
  for A :: "('a, 'ac, 'h) source_lane" and inputs_a :: "'a \<Rightarrow> 'v list" and admission_a
    and B :: "('b, 'bc, 'h) source_lane" and inputs_b :: "'b \<Rightarrow> 'w list" and admission_b
begin

definition product_inputs :: "'a \<times> 'b \<Rightarrow> ('v + 'w) list" where
  "product_inputs ab = map Inl (inputs_a (fst ab)) @ map Inr (inputs_b (snd ab))"

abbreviation product_admission :: "'v + 'w \<Rightarrow> 'h \<Rightarrow> bool \<times> 'h" where
  "product_admission \<equiv> sum_admission admission_a admission_b"

abbreviation product_offer :: "'a \<times> 'b \<Rightarrow> 'h \<Rightarrow> ('a, 'ac, 'b, 'bc) pair_custody \<times> 'h" where
  "product_offer ab \<equiv> offer_source_in_order A B (Some (SourceOriginal (fst ab)), Some (SourceOriginal (snd ab)))"

lemma product_no_input:
  assumes "product_inputs ab = []"
  shows "\<exists>ab'. product_inputs ab' = [] \<and> snd (product_offer ab h) = h
    \<and> pair_complete (fst (product_offer ab h)) \<in> {Some (Exhausted ab'), Some (Retained ab')}"
proof -
  from assms have "inputs_a (fst ab) = []" "inputs_b (snd ab) = []" by (auto simp: product_inputs_def)
  with earlier.no_input [of "fst ab" h] later.no_input [of "snd ab" h] obtain a' b' where
    "inputs_a a' = []" "inputs_b b' = []"
    "offer_child A (Some (SourceOriginal (fst ab))) h \<in>
      {(Some (SourceCompleted (Exhausted a')), h), (Some (SourceCompleted (Retained a')), h)}"
    "offer_child B (Some (SourceOriginal (snd ab))) h \<in>
      {(Some (SourceCompleted (Exhausted b')), h), (Some (SourceCompleted (Retained b')), h)}" by blast
  then show ?thesis
    by (intro exI [of _ "(a', b')"]) (auto simp: offer_source_in_order_def product_inputs_def)
qed

lemma product_some_input:
  assumes "product_inputs ab = v # vs"
  shows "\<exists>ab'. pair_complete (fst (product_offer ab h))
        = Some (if fst (product_admission v h) then Admitted ab' else Closed ab')
      \<and> snd (product_offer ab h) = snd (product_admission v h)
      \<and> product_inputs ab' = (if fst (product_admission v h) then vs else v # vs)"
proof (cases "inputs_a (fst ab)")
  case (Cons w ws)
  with assms have v: "v = Inl w" "vs = map Inl ws @ map Inr (inputs_b (snd ab))"
    by (auto simp: product_inputs_def)
  from earlier.some_input [OF Cons, of h] obtain a' where "offer_child A (Some (SourceOriginal (fst ab))) h
      = (Some (SourceCompleted (if fst (admission_a w h) then Admitted a' else Closed a')), snd (admission_a w h))"
    "inputs_a a' = (if fst (admission_a w h) then ws else w # ws)" by blast
  with v show ?thesis
    by (intro exI [of _ "(a', snd ab)"]) (auto simp: offer_source_in_order_def product_inputs_def)
next
  case Nil
  with assms obtain w ws where w: "inputs_b (snd ab) = w # ws" "v = Inr w" "vs = map Inr ws"
    by (auto simp: product_inputs_def)
  from later.some_input [OF w(1), of h] obtain b' where "offer_child B (Some (SourceOriginal (snd ab))) h
      = (Some (SourceCompleted (if fst (admission_b w h) then Admitted b' else Closed b')), snd (admission_b w h))"
    "inputs_b b' = (if fst (admission_b w h) then ws else w # ws)" by blast
  moreover from earlier.no_input [OF Nil, of h] obtain a' where "inputs_a a' = []"
    "offer_child A (Some (SourceOriginal (fst ab))) h \<in>
      {(Some (SourceCompleted (Exhausted a')), h), (Some (SourceCompleted (Retained a')), h)}" by blast
  ultimately show ?thesis using w
    by (intro exI [of _ "(a', b')"]) (auto simp: offer_source_in_order_def product_inputs_def)
qed

end

context source_product
begin

text \<open>A lane that is the pair up to a constructor: what it offers and how it finishes.\<close>

lemma product_contract:
  assumes "\<And>s h. offer_child L (Some (SourceOriginal s)) h
      = (case pair_complete (fst (product_offer (un s) h)) of
           Some r \<Rightarrow> Some (SourceCompleted (source_custody_map (mk s) r))
         | None \<Rightarrow> slot s (fst (product_offer (un s) h)), snd (product_offer (un s) h))"
    and "\<And>s ab. un (mk s ab) = ab"
  shows "source_contract L (\<lambda>s. product_inputs (un s)) product_admission"
proof
  fix s h
  assume "product_inputs (un s) = []"
  with product_no_input [of "un s" h] obtain ab' where "product_inputs ab' = []"
    "snd (product_offer (un s) h) = h"
    "pair_complete (fst (product_offer (un s) h)) \<in> {Some (Exhausted ab'), Some (Retained ab')}" by auto
  then show "\<exists>s'. product_inputs (un s') = [] \<and> offer_child L (Some (SourceOriginal s)) h \<in>
      {(Some (SourceCompleted (Exhausted s')), h), (Some (SourceCompleted (Retained s')), h)}"
    by (intro exI [of _ "mk s ab'"]) (auto simp: assms)
next
  fix s h v vs
  assume "product_inputs (un s) = v # vs"
  with product_some_input [of "un s" v vs h] obtain ab' where
    "pair_complete (fst (product_offer (un s) h))
      = Some (if fst (product_admission v h) then Admitted ab' else Closed ab')"
    "snd (product_offer (un s) h) = snd (product_admission v h)"
    "product_inputs ab' = (if fst (product_admission v h) then vs else v # vs)" by auto
  then show "\<exists>s'. offer_child L (Some (SourceOriginal s)) h
      = (Some (SourceCompleted (if fst (product_admission v h) then Admitted s' else Closed s')),
         snd (product_admission v h))
      \<and> product_inputs (un s') = (if fst (product_admission v h) then vs else v # vs)"
    by (intro exI [of _ "mk s ab'"]) (auto simp: assms)
qed

lemma custody_map_id: "source_custody_map (\<lambda>ab. ab) r = r"
  by (cases r) auto

lemma pair_contract: "source_contract (pair_source A B) product_inputs product_admission"
proof -
  have "source_contract (pair_source A B) (\<lambda>s. product_inputs (id s)) product_admission"
    by (rule product_contract [where mk = "\<lambda>_ ab. ab" and slot = "\<lambda>_ c. Some (Offering c)"])
      (auto simp: pair_source_def offer_child_def pair_prepare_def pair_finish_def split_beta custody_map_id
        split: option.splits prod.splits)
  then show ?thesis by simp
qed

lemma action_contract:
  "source_contract (action_source A B)
     (\<lambda>a. product_inputs (settled_creations a, settled_sends a)) product_admission"
  by (rule product_contract [where
        mk = "\<lambda>a (c, s). \<lparr>settled_creations = c, settled_sends = s, settled_become = settled_become a\<rparr>"
        and slot = "\<lambda>a c. Some (Offering (c, settled_become a))"])
    (auto simp: action_source_def offer_child_def action_source_finish_def pair_finish_def split_beta
      split: option.splits prod.splits)

lemma layer_contract:
  "source_contract (layer_source B A) (\<lambda>s. product_inputs (inner_sends s, owned_sends s)) product_admission"
  by (rule product_contract [where mk = "\<lambda>_ (i, ow). \<lparr>owned_sends = ow, inner_sends = i\<rparr>"
        and slot = "\<lambda>_ c. Some (Offering c)"])
    (auto simp: layer_source_def offer_child_def product_finish_def pair_finish_def split_beta
      split: option.splits prod.splits)

end

end
