(* ===== verification/Action_Settlement.thy ===== *)
theory Action_Settlement
  imports Creation Source_Custody
begin

text \<open>
  The interpretation of a complete action product (\<^verbatim>\<open>behavior/src/effects/actions.rs\<close>): the batch of
  creations is routed as one item, its children are dispatched in order, then the sends product is
  interpreted; the next-behavior verdict passes through. The custody of the source's creation batch
  follows.

  A child that is dispatched is moved into the dispatch future, so a future dropped there leaves a
  row with neither input nor reply; the dispatch of the model then has no reply.
\<close>

section \<open>Interpretation of a creation batch\<close>

datatype ('req, 'set) creation_settlement =
    CreationsSettled 'set
  | CreationsRejected 'req child_namespace_exhausted
  | CreationsCorrupt 'req interpreter_fault

fun creation_status :: "('set \<Rightarrow> settlement_status) \<Rightarrow> ('req, 'set) creation_settlement \<Rightarrow> settlement_status" where
  "creation_status st (CreationsSettled s) = st s"
| "creation_status st (CreationsRejected r e) = StatusRejected"
| "creation_status st (CreationsCorrupt r f) = StatusCorrupt"

type_synonym ('n, 'nonce, 'res) creation_reply =
  "(('n, 'nonce) routed_creation, 'res, creation_rejection, never) item_settlement"

type_synonym ('n, 'nonce, 'res) creation_row =
  "('n, 'nonce) routed_creation option \<times> ('n, 'nonce, 'res) creation_reply option"

type_synonym ('n, 'nonce) routing_reply =
  "('n create_child creations, ('n, 'nonce) routed_creation creations, child_namespace_exhausted, never) item_settlement"

datatype ('n, 'nonce, 'res) creation_custody =
    Routing "'n create_child creations option" "('n, 'nonce) routing_reply option"
  | Children "('n, 'nonce, 'res) creation_row list"

type_synonym ('n, 'nonce, 'res) creation_results =
  "('n create_child creations,
    (('n, 'nonce) routed_creation, ('n, 'nonce, 'res) creation_reply) settled_item creations) creation_settlement"

type_synonym ('n, 'nonce, 'res) creation_slot =
  "('n create_child creations, ('n, 'nonce, 'res) creation_custody, ('n, 'nonce, 'res) creation_results) slot"

definition prepare_creations :: "('n, 'nonce, 'res) creation_slot \<Rightarrow> ('n, 'nonce, 'res) creation_slot" where
  "prepare_creations p = (case p of
      Some (Original input) \<Rightarrow> Some (Interpreting (Routing (Some input) None)) | _ \<Rightarrow> p)"

text \<open>The prerequisite of a routing reply has type \<^verbatim>\<open>Never\<close>: a blocked reply does not exist and stays.\<close>

definition finish_routing :: "('n, 'nonce, 'res) creation_slot \<Rightarrow> ('n, 'nonce, 'res) creation_slot" where
  "finish_routing p = (case p of
      Some (Interpreting (Routing None (Some received))) \<Rightarrow> (case received of
          ItemAccepted routed \<Rightarrow> Some (Interpreting (Children (map (\<lambda>input. (Some input, None)) routed)))
        | ItemRejected item reason \<Rightarrow> Some (Completed (CompleteInterpretation (CreationsRejected item reason)))
        | ItemCorrupt item fault \<Rightarrow> Some (Completed (CorruptInterpretation (CreationsCorrupt item fault)))
        | ItemBlocked item prerequisite \<Rightarrow> p)
    | _ \<Rightarrow> p)"

text \<open>\<^verbatim>\<open>DispatchBirth::dispatch_birth\<close>; without a reply the future was dropped and the child went with it.\<close>

type_synonym ('i, 'n, 'nonce, 'res) birth_dispatch =
  "'n \<Rightarrow> creation_id \<Rightarrow> 'nonce \<Rightarrow> creation_kind \<Rightarrow> 'i \<Rightarrow> ('n, 'nonce, 'res) creation_reply option \<times> 'i"

definition settle_child :: "('i, 'n, 'nonce, 'res) birth_dispatch \<Rightarrow> ('n, 'nonce, 'res) creation_row \<Rightarrow> 'i
    \<Rightarrow> ('n, 'nonce, 'res) creation_row \<times> 'i" where
  "settle_child dispatch row i = (case row of
      (Some original, None) \<Rightarrow>
        (let (creation, route) = routed_into_parts original;
             (cid, child, kind) = create_into_parts creation;
             (reply, i') = dispatch child cid route kind i
         in ((None, reply), i'))
    | _ \<Rightarrow> (row, i))"

fun interpret_children :: "('i, 'n, 'nonce, 'res) birth_dispatch \<Rightarrow> ('n, 'nonce, 'res) creation_row list \<Rightarrow> 'i
    \<Rightarrow> ('n, 'nonce, 'res) creation_row list \<times> 'i \<times> bool" where
  "interpret_children dispatch [] i = ([], i, False)"
| "interpret_children dispatch (row # rows) i = (case row of
      (None, Some (ItemCorrupt item fault)) \<Rightarrow> (row # rows, i, False)
    | (None, Some received) \<Rightarrow>
        (let (rows', i', e) = interpret_children dispatch rows i in (row # rows', i', e))
    | (Some input, None) \<Rightarrow>
        (let (row', i1) = settle_child dispatch row i
         in case row' of
              (None, Some (ItemCorrupt item fault)) \<Rightarrow> (row' # rows, i1, False)
            | (None, Some received) \<Rightarrow>
                (let (rows', i', e) = interpret_children dispatch rows i1 in (row' # rows', i', e))
            | _ \<Rightarrow> (row' # rows, i1, True))
    | _ \<Rightarrow> (row # rows, i, True))"

fun creation_corrupt :: "('n, 'nonce, 'res) creation_row \<Rightarrow> bool" where
  "creation_corrupt (input, Some (ItemCorrupt item fault)) = True"
| "creation_corrupt row = False"

fun creation_settled :: "('n, 'nonce, 'res) creation_row
    \<Rightarrow> (('n, 'nonce) routed_creation, ('n, 'nonce, 'res) creation_reply) settled_item option" where
  "creation_settled (None, Some received) = Some (Attempted received)"
| "creation_settled (Some input, None) = Some (Unattempted input)"
| "creation_settled row = None"

definition finish_creations :: "('n, 'nonce, 'res) creation_slot \<Rightarrow> ('n, 'nonce, 'res) creation_slot" where
  "finish_creations p = (let p = finish_routing p in case p of
      Some (Interpreting (Children rows)) \<Rightarrow>
        (let corrupt = position creation_corrupt rows;
             complete = list_all (\<lambda>(index, input, received). case corrupt of
                  Some c \<Rightarrow> if index > c then input \<noteq> None \<and> received = None else input = None \<and> received \<noteq> None
                | None \<Rightarrow> input = None \<and> received \<noteq> None) (enumerate 0 rows)
         in if \<not> complete then p
            else if \<not> list_all (\<lambda>row. creation_settled row \<noteq> None) rows then p
            else Some (Completed (case corrupt of
                Some c \<Rightarrow> CorruptInterpretation (CreationsSettled (List.map_filter creation_settled rows))
              | None \<Rightarrow> CompleteInterpretation (CreationsSettled (List.map_filter creation_settled rows)))))
    | _ \<Rightarrow> p)"

definition interpret_creations :: "('i, 'n create_child creations, ('n, 'nonce) routing_reply) item_host
    \<Rightarrow> ('i, 'n, 'nonce, 'res) birth_dispatch \<Rightarrow> ('n, 'nonce, 'res) creation_slot \<Rightarrow> 'i
    \<Rightarrow> ('n, 'nonce, 'res) creation_slot \<times> 'i" where
  "interpret_creations host dispatch p i =
     (let p = prepare_creations p;
          (p, i) = (case p of
              Some (Interpreting (Routing input received)) \<Rightarrow>
                (let ((input', received'), i') = host i (input, received)
                 in (Some (Interpreting (Routing input' received')), i'))
            | _ \<Rightarrow> (p, i));
          p = finish_routing p
      in case p of
           Some (Interpreting (Children rows)) \<Rightarrow>
             (let (rows', i', e) = interpret_children dispatch rows i
              in if e then (Some (Interpreting (Children rows')), i')
                 else (finish_creations (Some (Interpreting (Children rows'))), i'))
         | _ \<Rightarrow> (p, i))"

text \<open>The operations of a birth mode; \<^verbatim>\<open>NoBirths\<close> has nothing to interpret.\<close>

record ('x, 'c, 's, 'i) birth_lane =
  birth_prepare :: "('x, 'c, 's) slot \<Rightarrow> ('x, 'c, 's) slot"
  birth_finish :: "('x, 'c, 's) slot \<Rightarrow> ('x, 'c, 's) slot"
  birth_interpret :: "('x, 'c, 's) slot \<Rightarrow> 'i \<Rightarrow> ('x, 'c, 's) slot \<times> 'i"

definition births :: "('i, 'n create_child creations, ('n, 'nonce) routing_reply) item_host
    \<Rightarrow> ('i, 'n, 'nonce, 'res) birth_dispatch
    \<Rightarrow> ('n create_child creations, ('n, 'nonce, 'res) creation_custody, ('n, 'nonce, 'res) creation_results, 'i) birth_lane" where
  "births host dispatch =
     \<lparr>birth_prepare = prepare_creations, birth_finish = finish_creations,
      birth_interpret = interpret_creations host dispatch\<rparr>"

definition no_births_prepare :: "('x list, unit, 'y list) slot \<Rightarrow> ('x list, unit, 'y list) slot" where
  "no_births_prepare p = (case p of Some (Original x) \<Rightarrow> Some (Completed (CompleteInterpretation [])) | _ \<Rightarrow> p)"

definition no_births :: "('x list, unit, 'y list, 'i) birth_lane" where
  "no_births = \<lparr>birth_prepare = no_births_prepare, birth_finish = no_births_prepare,
     birth_interpret = (\<lambda>p i. (no_births_prepare p, i))\<rparr>"

text \<open>
  \<^verbatim>\<open>RetirementBirths\<close> wraps the slot of its base mode; \<^verbatim>\<open>RetirementCreationSettlement\<close> is a wrapper
  without data of its own.
\<close>

datatype 's retirement_settlement = RetirementCreationSettlement (retired: 's)

definition retirement_prepare :: "('x, ('x, 'c, 's) slot, 's retirement_settlement) slot
    \<Rightarrow> ('x, ('x, 'c, 's) slot, 's retirement_settlement) slot" where
  "retirement_prepare p = (case p of
      Some (Original original) \<Rightarrow> Some (Interpreting (Some (Original original))) | _ \<Rightarrow> p)"

definition retirement_finish :: "('x, ('x, 'c, 's) slot, 's retirement_settlement) slot
    \<Rightarrow> ('x, ('x, 'c, 's) slot, 's retirement_settlement) slot" where
  "retirement_finish p = (case p of
      Some (Interpreting (Some (Completed received))) \<Rightarrow>
        Some (Completed (interpretation_map RetirementCreationSettlement received))
    | _ \<Rightarrow> p)"

definition retirement_births :: "('x, 'c, 's, 'i) birth_lane
    \<Rightarrow> ('x, ('x, 'c, 's) slot, 's retirement_settlement, 'i) birth_lane" where
  "retirement_births B =
     \<lparr>birth_prepare = retirement_prepare, birth_finish = retirement_finish,
      birth_interpret = (\<lambda>p i. case retirement_prepare p of
          Some (Interpreting base) \<Rightarrow>
            (let (base', i') = birth_interpret B base i
             in (retirement_finish (Some (Interpreting (birth_finish B base'))), i'))
        | p' \<Rightarrow> (p', i))\<rparr>"

section \<open>Interpretation of the action product\<close>

type_synonym ('x, 'xc, 'xs, 'c, 'cc, 'cs, 'ph) action_slot =
  "(('x, 'c, 'ph) actions,
    (('c list, 'cc, 'cs) slot \<times> ('x, 'xc, 'xs) slot) \<times> 'ph become,
    ('cs, 'xs, 'ph) action_settlement) slot"

definition actions_prepare :: "('x, 'xc, 'xs, 'c, 'cc, 'cs, 'ph) action_slot \<Rightarrow> ('x, 'xc, 'xs, 'c, 'cc, 'cs, 'ph) action_slot" where
  "actions_prepare p = (case p of
      Some (Original a) \<Rightarrow> Some (Interpreting
        ((Some (Original (creates a)), Some (Original (sends a))), become a))
    | _ \<Rightarrow> p)"

definition actions_finish :: "('x, 'xc, 'xs, 'c, 'cc, 'cs, 'ph) action_slot \<Rightarrow> ('x, 'xc, 'xs, 'c, 'cc, 'cs, 'ph) action_slot" where
  "actions_finish p = (case p of
      Some (Interpreting ((Some (Completed cr), Some (Completed sn)), b)) \<Rightarrow>
        Some (Completed (both_interpretations
          (\<lambda>c s. \<lparr>settled_creations = c, settled_sends = s, settled_become = b\<rparr>) cr sn))
    | _ \<Rightarrow> p)"

definition actions_interpret :: "('c list, 'cc, 'cs, 'i) birth_lane \<Rightarrow> ('x, 'xc, 'xs, 'i) send_lane
    \<Rightarrow> ('x, 'xc, 'xs, 'c, 'cc, 'cs, 'ph) action_slot \<Rightarrow> 'i \<Rightarrow> ('x, 'xc, 'xs, 'c, 'cc, 'cs, 'ph) action_slot \<times> 'i" where
  "actions_interpret B L p i = (case actions_prepare p of
      Some (Interpreting ((cr, sn), b)) \<Rightarrow>
        (let (cr, i1) = birth_interpret B cr i;
             cr = birth_finish B cr
         in case cr of
              Some (Completed (CompleteInterpretation r)) \<Rightarrow>
                (let (sn, i2) = lane_interpret L sn i1
                 in (actions_finish (Some (Interpreting ((cr, lane_finish L sn), b))), i2))
            | Some (Completed (CorruptInterpretation r)) \<Rightarrow>
                (actions_finish (Some (Interpreting ((cr, lane_unattempted L sn), b))), i1)
            | _ \<Rightarrow> (Some (Interpreting ((cr, sn), b)), i1))
    | p' \<Rightarrow> (p', i))"

definition action_settlement_status :: "('cs \<Rightarrow> settlement_status) \<Rightarrow> ('xs \<Rightarrow> settlement_status)
    \<Rightarrow> ('cs, 'xs, 'ph) action_settlement \<Rightarrow> settlement_status" where
  "action_settlement_status cst xst a = combine_status (cst (settled_creations a)) (xst (settled_sends a))"

section \<open>Interfaces\<close>

text \<open>A birth mode settles when interpreting an original batch is its reference and a result stays.\<close>

locale settling_births =
  fixes B :: "('x, 'c, 's, 'i) birth_lane"
    and reference :: "'x \<Rightarrow> 'i \<Rightarrow> 'f \<times> 'i \<times> bool"
    and view :: "'s \<Rightarrow> 'f"
  assumes interpret_batch: "reference x i = (f, i', e) \<Longrightarrow>
      \<exists>r. birth_interpret B (Some (Original x)) i = (Some (Completed r), i')
        \<and> view (into_settlement r) = f \<and> corrupt_interpretation r = e"
    and finish_batch: "birth_finish B (Some (Completed r)) = Some (Completed r)"

interpretation no_births: settling_births "no_births :: ('x list, unit, 'y list, 'i) birth_lane"
  "\<lambda>x i. ((), i, False)" "\<lambda>_. ()"
  by unfold_locales (auto simp: no_births_def no_births_prepare_def)

text \<open>
  The reference of a batch: one routing request for the whole batch; when it is accepted, one pass
  over the routed creations in order.
\<close>

type_synonym ('i, 'n, 'nonce) routing = "'n create_child creations \<Rightarrow> 'i \<Rightarrow> ('n, 'nonce) routing_reply \<times> 'i"

definition dispatch_answer :: "('i, 'n, 'nonce, 'res) dispatch
    \<Rightarrow> ('n, 'nonce) routed_creation \<Rightarrow> 'i \<Rightarrow> ('n, 'nonce) routed_creation fact \<times> 'i" where
  "dispatch_answer d v i = apfst fact_of_reply
     (d (create_child (routed_create v)) (create_id (routed_create v)) (routed_route v) (create_kind (routed_create v)) i)"

definition replying :: "('i, 'n, 'nonce, 'res) dispatch \<Rightarrow> ('i, 'n, 'nonce, 'res) birth_dispatch" where
  "replying d child cid route kind i = apfst Some (d child cid route kind i)"

definition batch_reference :: "('i, 'n, 'nonce) routing \<Rightarrow> ('i, 'n, 'nonce, 'res) dispatch
    \<Rightarrow> 'n create_child creations \<Rightarrow> 'i
    \<Rightarrow> ('n create_child creations, ('n, 'nonce) routed_creation fact list) creation_settlement \<times> 'i \<times> bool" where
  "batch_reference route d x i = (case route x i of
      (ItemAccepted routed, j) \<Rightarrow>
        (let (fs, k, e) = settle_in_order (dispatch_answer d) routed j in (CreationsSettled fs, k, e))
    | (ItemRejected item reason, j) \<Rightarrow> (CreationsRejected item reason, j, False)
    | (ItemBlocked item prerequisite, j) \<Rightarrow> (CreationsRejected item ChildNamespaceExhausted, j, False)
    | (ItemCorrupt item fault, j) \<Rightarrow> (CreationsCorrupt item fault, j, True))"

fun batch_view :: "('n, 'nonce, 'res) creation_results
    \<Rightarrow> ('n create_child creations, ('n, 'nonce) routed_creation fact list) creation_settlement" where
  "batch_view (CreationsSettled rs) = CreationsSettled (map settled_fact rs)"
| "batch_view (CreationsRejected item reason) = CreationsRejected item reason"
| "batch_view (CreationsCorrupt item fault) = CreationsCorrupt item fault"

section \<open>Batches settle\<close>

abbreviation staged_row :: "('n, 'nonce) routed_creation \<Rightarrow> ('n, 'nonce, 'res) creation_row" where
  "staged_row v \<equiv> (Some v, None)"

abbreviation replied_row :: "('n, 'nonce, 'res) creation_reply \<Rightarrow> ('n, 'nonce, 'res) creation_row" where
  "replied_row r \<equiv> (None, Some r)"

fun faulty_reply :: "('n, 'nonce, 'res) creation_reply \<Rightarrow> bool" where
  "faulty_reply (ItemCorrupt item fault) = True"
| "faulty_reply r = False"

lemma creation_corrupt_reply [simp]: "creation_corrupt (replied_row r) = faulty_reply r"
  by (cases r) auto

lemma creation_settled_rows [simp]:
  "List.map_filter creation_settled (map replied_row rs @ rows) = map Attempted rs @ List.map_filter creation_settled rows"
  "List.map_filter creation_settled (map staged_row vs) = map Unattempted vs"
  "List.map_filter creation_settled (map replied_row rs) = map Attempted rs"
  by (induction rs; induction vs; simp add: List.map_filter_simps)+

lemma finish_replied_children:
  assumes "list_all (\<lambda>r. \<not> faulty_reply r) rs"
  shows "finish_creations (Some (Interpreting (Children (map replied_row rs))))
    = Some (Completed (CompleteInterpretation (CreationsSettled (map Attempted rs))))"
proof -
  let ?rows = "map replied_row rs"
  have pos: "position creation_corrupt ?rows = None" using assms by (auto simp: list_all_iff)
  have "list_all (\<lambda>(index, input, received). input = None \<and> received \<noteq> None) (enumerate 0 ?rows)"
    by (auto simp: list_all_iff in_set_enumerate_eq)
  moreover have "list_all (\<lambda>row. creation_settled row \<noteq> None) ?rows" by (auto simp: list_all_iff)
  ultimately show ?thesis
    unfolding finish_creations_def finish_routing_def Let_def by (simp add: pos del: position_None_iff)
qed

lemma position_corrupt_child:
  "list_all (\<lambda>r. \<not> faulty_reply r) rs \<Longrightarrow> faulty_reply r \<Longrightarrow>
     position creation_corrupt (map replied_row rs @ replied_row r # rows) = Some (length rs)"
  by (induction rs) auto

lemma finish_faulty_children:
  assumes "list_all (\<lambda>r. \<not> faulty_reply r) rs" and "faulty_reply r"
  shows "finish_creations (Some (Interpreting (Children (map replied_row rs @ replied_row r # map staged_row vs))))
    = Some (Completed (CorruptInterpretation (CreationsSettled (map Attempted rs @ Attempted r # map Unattempted vs))))"
proof -
  let ?rows = "map replied_row rs @ replied_row r # map staged_row vs"
  have pos: "position creation_corrupt ?rows = Some (length rs)" by (rule position_corrupt_child [OF assms])
  have "list_all (\<lambda>(index, input, received). if index > length rs then input \<noteq> None \<and> received = None
      else input = None \<and> received \<noteq> None) (enumerate 0 ?rows)"
    by (auto simp: list_all_iff in_set_enumerate_eq nth_append nth_Cons split: nat.splits if_splits)
  moreover have "list_all (\<lambda>row. creation_settled row \<noteq> None) ?rows" by (auto simp: list_all_iff)
  moreover have "List.map_filter creation_settled ?rows = map Attempted rs @ Attempted r # map Unattempted vs"
    by (simp add: List.map_filter_simps(1))
  ultimately show ?thesis
    unfolding finish_creations_def finish_routing_def Let_def by (simp only: option.case pos interpretation_progress.case creation_custody.case) simp
qed

lemma settle_staged_child:
  "settle_child (replying d) (staged_row v) i
     = (replied_row (fst (d (create_child (routed_create v)) (create_id (routed_create v)) (routed_route v)
          (create_kind (routed_create v)) i)), snd (dispatch_answer d v i))"
  by (simp add: settle_child_def routed_into_parts_def create_into_parts_def replying_def dispatch_answer_def split_beta)

lemma interpret_staged_children:
  assumes "settle_in_order (dispatch_answer d) vs i = (fs, i', e)"
  shows "\<exists>rs. list_all (\<lambda>r. \<not> faulty_reply r) rs \<and>
      (\<not> e \<and> interpret_children (replying d) (map staged_row vs) i = (map replied_row rs, i', False)
         \<and> fs = map fact_of_reply rs
     \<or> (\<exists>r ws. e \<and> faulty_reply r \<and> interpret_children (replying d) (map staged_row vs) i
              = (map replied_row rs @ replied_row r # map staged_row ws, i', False)
            \<and> fs = map fact_of_reply rs @ fact_of_reply r # map Untouched ws))"
  using assms
proof (induction vs arbitrary: i fs)
  case Nil
  then show ?case by (intro exI [of _ "[]"]) auto
next
  case (Cons v vs)
  let ?r = "fst (d (create_child (routed_create v)) (create_id (routed_create v)) (routed_route v)
          (create_kind (routed_create v)) i)"
  obtain j where ans: "dispatch_answer d v i = (fact_of_reply ?r, j)"
    by (simp add: dispatch_answer_def apfst_def map_prod_def split_beta)
  show ?case
  proof (cases "faulty_reply ?r")
    case True
    then obtain w fault where "?r = ItemCorrupt w fault" by (cases ?r) auto
    with Cons.prems ans show ?thesis
      by (intro exI [of _ "[]"]) (auto simp: settle_staged_child)
  next
    case False
    then obtain fs' where fs': "settle_in_order (dispatch_answer d) vs j = (fs', i', e)" "fs = fact_of_reply ?r # fs'"
      using Cons.prems ans by (cases ?r) (auto split: prod.splits)
    from Cons.IH [OF fs'(1)] obtain rs where rs: "list_all (\<lambda>r. \<not> faulty_reply r) rs"
      "\<not> e \<and> interpret_children (replying d) (map staged_row vs) j = (map replied_row rs, i', False)
         \<and> fs' = map fact_of_reply rs
     \<or> (\<exists>r ws. e \<and> faulty_reply r \<and> interpret_children (replying d) (map staged_row vs) j
              = (map replied_row rs @ replied_row r # map staged_row ws, i', False)
            \<and> fs' = map fact_of_reply rs @ fact_of_reply r # map Untouched ws)" by blast
    have "interpret_children (replying d) (map staged_row (v # vs)) i
        = (let (rows', i', e) = interpret_children (replying d) (map staged_row vs) j in (replied_row ?r # rows', i', e))"
      using False ans by (cases ?r) (auto simp: settle_staged_child)
    with rs fs'(2) False show ?thesis by (intro exI [of _ "?r # rs"]) auto
  qed
qed

text \<open>
  The laws the births of an actor rest on: every dispatch answers and returns what it refuses, and
  the routing host is never blocked (its prerequisite type has no value).
\<close>

locale routed_births = whole_dispatch d
  for d :: "('i, 'n, 'nonce, 'res) dispatch" +
  fixes route :: "('i, 'n, 'nonce) routing"
  assumes never_blocked: "fst (route x i) \<noteq> ItemBlocked item prerequisite"
begin

lemma route_batch:
  "interpret_creations (owned_host route) (replying d) (Some (Original x)) i = (case route x i of
      (ItemAccepted routed, j) \<Rightarrow>
        (let (rows, k, e) = interpret_children (replying d) (map staged_row routed) j
         in if e then (Some (Interpreting (Children rows)), k)
            else (finish_creations (Some (Interpreting (Children rows))), k))
    | (ItemRejected item reason, j) \<Rightarrow> (Some (Completed (CompleteInterpretation (CreationsRejected item reason))), j)
    | (ItemBlocked item prerequisite, j) \<Rightarrow>
        (Some (Interpreting (Routing None (Some (ItemBlocked item prerequisite)))), j)
    | (ItemCorrupt item fault, j) \<Rightarrow> (Some (Completed (CorruptInterpretation (CreationsCorrupt item fault))), j))"
  by (simp add: interpret_creations_def prepare_creations_def owned_host_def finish_routing_def
      split: prod.splits item_settlement.splits)

lemma settle_batch:
  assumes "batch_reference route d x i = (f, i', e)"
  shows "\<exists>r. interpret_creations (owned_host route) (replying d) (Some (Original x)) i = (Some (Completed r), i')
    \<and> batch_view (into_settlement r) = f \<and> corrupt_interpretation r = e"
proof (cases "route x i")
  case (Pair reply j)
  show ?thesis
  proof (cases reply)
    case (ItemAccepted routed)
    obtain fs where fs: "settle_in_order (dispatch_answer d) routed j = (fs, i', e)" "f = CreationsSettled fs"
      using assms Pair ItemAccepted by (auto simp: batch_reference_def split: prod.splits)
    from interpret_staged_children [OF fs(1)] obtain rs where rs: "list_all (\<lambda>r. \<not> faulty_reply r) rs"
      "\<not> e \<and> interpret_children (replying d) (map staged_row routed) j = (map replied_row rs, i', False)
         \<and> fs = map fact_of_reply rs
     \<or> (\<exists>r ws. e \<and> faulty_reply r \<and> interpret_children (replying d) (map staged_row routed) j
              = (map replied_row rs @ replied_row r # map staged_row ws, i', False)
            \<and> fs = map fact_of_reply rs @ fact_of_reply r # map Untouched ws)" by blast
    from rs(2) show ?thesis
      by (elim disjE exE conjE)
        (simp_all add: route_batch Pair ItemAccepted fs(2) finish_replied_children [OF rs(1)]
          finish_faulty_children [OF rs(1)])
  next
    case (ItemRejected item reason)
    with assms Pair show ?thesis by (auto simp: route_batch batch_reference_def)
  next
    case (ItemBlocked item prerequisite)
    with never_blocked [of x i item prerequisite] Pair show ?thesis by simp
  next
    case (ItemCorrupt item fault)
    with assms Pair show ?thesis by (auto simp: route_batch batch_reference_def)
  qed
qed

end

sublocale routed_births \<subseteq> births: settling_births "births (owned_host route) (replying d)" "batch_reference route d" batch_view
proof
  show "\<exists>r. birth_interpret (births (owned_host route) (replying d)) (Some (Original x)) i = (Some (Completed r), i')
      \<and> batch_view (into_settlement r) = f \<and> corrupt_interpretation r = e"
    if "batch_reference route d x i = (f, i', e)" for x i f i' e
    using settle_batch [OF that] by (simp add: births_def)
qed (simp add: births_def finish_creations_def finish_routing_def)

context routed_births
begin

lemma births_settle: "settling_births (births (owned_host route) (replying d)) (batch_reference route d) batch_view"
  by (rule births.settling_births_axioms)

end

locale retired_births = settling_births B reference view
  for B :: "('x, 'c, 's, 'i) birth_lane" and reference :: "'x \<Rightarrow> 'i \<Rightarrow> 'f \<times> 'i \<times> bool" and view

sublocale retired_births \<subseteq> retirement: settling_births "retirement_births B" reference "view \<circ> retired"
proof
  fix x i f i' e
  assume "reference x i = (f, i', e)"
  from interpret_batch [OF this] obtain r where
    "birth_interpret B (Some (Original x)) i = (Some (Completed r), i')"
    "view (into_settlement r) = f" "corrupt_interpretation r = e" by blast
  then show "\<exists>r. birth_interpret (retirement_births B) (Some (Original x)) i = (Some (Completed r), i')
      \<and> (view \<circ> retired) (into_settlement r) = f \<and> corrupt_interpretation r = e"
    by (cases r) (simp_all add: retirement_births_def retirement_prepare_def retirement_finish_def finish_batch)
qed (simp add: retirement_births_def retirement_finish_def)

section \<open>Actions settle\<close>

locale settling_actions =
  births: settling_births B reference view + sends: settling_lane L items facts answer
  for B :: "('c list, 'cc, 'cs, 'i) birth_lane" and reference :: "'c list \<Rightarrow> 'i \<Rightarrow> 'f \<times> 'i \<times> bool" and view
    and L :: "('x, 'xc, 'xs, 'i) send_lane" and items :: "'x \<Rightarrow> 'v list" and facts answer
begin

lemma interpret_actions:
  assumes "reference (creates a) i = (f, j, e)"
    and "(if e then (map Untouched (items (sends a)), j, False) else settle_in_order answer (items (sends a)) j) = (fs, k, e')"
  shows "\<exists>r. actions_interpret B L (Some (Original a)) i = (Some (Completed r), k)
    \<and> view (settled_creations (into_settlement r)) = f
    \<and> facts (settled_sends (into_settlement r)) = fs
    \<and> settled_become (into_settlement r) = become a
    \<and> corrupt_interpretation r = (e \<or> e')"
proof -
  from births.interpret_batch [OF assms(1)] obtain rc where
    rc: "birth_interpret B (Some (Original (creates a))) i = (Some (Completed rc), j)"
      "view (into_settlement rc) = f" "corrupt_interpretation rc = e" by blast
  show ?thesis
  proof (cases e)
    case True
    with rc obtain sc where "rc = CorruptInterpretation sc" by (cases rc) auto
    moreover obtain ss where "lane_unattempted L (Some (Original (sends a))) = Some (Completed (CompleteInterpretation ss))"
      "facts ss = map Untouched (items (sends a))" using sends.unattempted_original by blast
    ultimately show ?thesis using rc assms(2) True
      by (simp add: actions_interpret_def actions_prepare_def births.finish_batch actions_finish_def)
  next
    case False
    with rc obtain sc where sc: "rc = CompleteInterpretation sc" by (cases rc) auto
    from False assms(2) have "settle_in_order answer (items (sends a)) j = (fs, k, e')" by simp
    from sends.interpret_original [OF this] obtain rs where
      "lane_interpret L (Some (Original (sends a))) j = (Some (Completed rs), k)"
      "facts (into_settlement rs) = fs" "corrupt_interpretation rs = e'" by blast
    with rc sc False show ?thesis
      by (cases rs) (simp_all add: actions_interpret_def actions_prepare_def births.finish_batch
          sends.finish_completed actions_finish_def)
  qed
qed

end

section \<open>Custody of the source's creation batch\<close>

type_synonym 's batch_custody = "'s option \<times> ('s + unit) option"

type_synonym ('req, 'r) batch_settlement = "('req, 'r list) creation_settlement"

definition creation_source_prepare :: "(('req, 'r) batch_settlement, ('req, 'r) batch_settlement batch_custody) source_slot
    \<Rightarrow> (('req, 'r) batch_settlement, ('req, 'r) batch_settlement batch_custody) source_slot" where
  "creation_source_prepare p = (case p of
      Some (SourceOriginal (CreationsSettled [])) \<Rightarrow> Some (SourceCompleted (Exhausted (CreationsSettled [])))
    | Some (SourceOriginal original) \<Rightarrow> Some (Offering (Some original, None))
    | _ \<Rightarrow> p)"

definition creation_source_offer :: "('h, 's) admission \<Rightarrow> 's batch_custody \<Rightarrow> 'h \<Rightarrow> 's batch_custody \<times> 'h" where
  "creation_source_offer admit c h = (if snd c = None then admit h c else (c, h))"

definition creation_source_finish :: "(('req, 'r) batch_settlement, ('req, 'r) batch_settlement batch_custody) source_slot
    \<Rightarrow> (('req, 'r) batch_settlement, ('req, 'r) batch_settlement batch_custody) source_slot" where
  "creation_source_finish p = (case p of
      Some (Offering (None, Some (Inr u))) \<Rightarrow> Some (SourceCompleted (Admitted (CreationsSettled [])))
    | Some (Offering (None, Some (Inl returned))) \<Rightarrow> Some (SourceCompleted (Closed returned))
    | _ \<Rightarrow> p)"

definition creation_source :: "('h, ('req, 'r) batch_settlement) admission
    \<Rightarrow> (('req, 'r) batch_settlement, ('req, 'r) batch_settlement batch_custody, 'h) source_lane" where
  "creation_source admit =
     \<lparr>source_prepare = creation_source_prepare, source_offer = creation_source_offer admit,
      source_finish = creation_source_finish\<rparr>"

definition retire_batch :: "('req, 'r) batch_settlement retirement_settlement
    \<Rightarrow> ('req, 'r) batch_settlement retirement_settlement source_custody" where
  "retire_batch original = (if retired original = CreationsSettled [] then Exhausted original else Retained original)"

definition retirement_source :: "(('req, 'r) batch_settlement retirement_settlement,
    ('req, 'r) batch_settlement retirement_settlement, 'h) source_lane" where
  "retirement_source =
     \<lparr>source_prepare = (\<lambda>p. case p of
          Some (SourceOriginal original) \<Rightarrow> Some (SourceCompleted (retire_batch original)) | _ \<Rightarrow> p),
      source_offer = Pair,
      source_finish = (\<lambda>p. case p of
          Some (SourceOriginal original) \<Rightarrow> Some (SourceCompleted (retire_batch original))
        | Some (Offering original) \<Rightarrow> Some (SourceCompleted (retire_batch original))
        | _ \<Rightarrow> p)\<rparr>"

definition batch_inputs :: "('req, 'r) batch_settlement \<Rightarrow> ('req, 'r) batch_settlement list" where
  "batch_inputs s = (case s of CreationsSettled [] \<Rightarrow> [] | _ \<Rightarrow> [s])"

locale batch_host = admitting_host admit admission
  for admit :: "('h, ('req, 'r) batch_settlement) admission" and admission

sublocale batch_host \<subseteq> batch: source_contract "creation_source admit" batch_inputs admission
  by unfold_locales
    (auto simp: creation_source_def offer_child_def creation_source_prepare_def creation_source_offer_def
      creation_source_finish_def admit_loan batch_inputs_def
      split: creation_settlement.splits list.splits)

context batch_host
begin

lemma batch_contract: "source_contract (creation_source admit) batch_inputs admission"
  by (rule batch.source_contract_axioms)

end

interpretation retirement: source_contract retirement_source "\<lambda>_. []" admission
  by unfold_locales (auto simp: retirement_source_def offer_child_def retire_batch_def)

section \<open>Hosts\<close>

text \<open>
  A router that allocates a route for every creation of a batch or refuses the batch whole, and a
  mailbox that takes an input or returns it: the hosts the laws above ask for, over any allocation
  and any admission.
\<close>

definition namespace_routing :: "('n create_child creations \<Rightarrow> 'i \<Rightarrow> ('n, 'nonce) routed_creation creations option \<times> 'i)
    \<Rightarrow> ('i, 'n, 'nonce) routing" where
  "namespace_routing allocate x i = (case allocate x i of
      (Some routed, j) \<Rightarrow> (ItemAccepted routed, j)
    | (None, j) \<Rightarrow> (ItemRejected x ChildNamespaceExhausted, j))"

interpretation namespace: routed_births "dispatch_child (deciding_establish decide)" "namespace_routing allocate"
  by unfold_locales (auto simp: namespace_routing_def split: prod.splits option.splits)

interpretation retired_namespace: retired_births "births (owned_host (namespace_routing allocate)) (replying (dispatch_child (deciding_establish decide)))"
  "batch_reference (namespace_routing allocate) (dispatch_child (deciding_establish decide))" batch_view
  by unfold_locales

definition owned_admit :: "('v \<Rightarrow> 'h \<Rightarrow> bool \<times> 'h) \<Rightarrow> ('h, 'v) admission" where
  "owned_admit admission h c = (case c of
      (Some v, None) \<Rightarrow> ((None, Some (if fst (admission v h) then Inr () else Inl v)), snd (admission v h))
    | _ \<Rightarrow> (c, h))"

interpretation owned_mailbox: admitting_host "owned_admit admission" admission
  by unfold_locales (auto simp: owned_admit_def)

interpretation owned_batch: batch_host "owned_admit admission" admission
  by unfold_locales (auto simp: owned_admit_def)

interpretation owned_actions: settling_actions
  "births (owned_host (namespace_routing allocate)) (replying (dispatch_child (deciding_establish decide)))" "batch_reference (namespace_routing allocate) (dispatch_child (deciding_establish decide))" batch_view
  "requests_lane (owned_host reply)" "\<lambda>vs. vs" "map settled_fact" "\<lambda>v i. apfst fact_of_reply (reply v i)"
  by unfold_locales

section \<open>Properties\<close>

text \<open>
  C11: Interpreting the actions of a fold always completes: the creation batch is routed whole and
  its children are dispatched in order before any send; a refusal of the batch or of a child does
  not suppress the sends, but after a fault in a creation no send is offered and every one is
  reported unattempted; otherwise the sends are settled in one pass. The verdict is returned
  unchanged, and the result is corrupt exactly when a creation or a send was faulty.
\<close>

theorem actions_interpretation_settles:
  assumes "routed_births d route" and "settling_lane L items facts answer"
    and "batch_reference route d (creates a) i = (f, j, e)"
    and "(if e then (map Untouched (items (sends a)), j, False)
          else settle_in_order answer (items (sends a)) j) = (fs, k, e')"
  shows "\<exists>r. actions_interpret (births (owned_host route) (replying d)) L (Some (Original a)) i = (Some (Completed r), k)
    \<and> batch_view (settled_creations (into_settlement r)) = f
    \<and> facts (settled_sends (into_settlement r)) = fs
    \<and> settled_become (into_settlement r) = become a
    \<and> corrupt_interpretation r = (e \<or> e')"
proof -
  have "settling_actions (births (owned_host route) (replying d)) (batch_reference route d) batch_view L items facts answer"
    by (intro settling_actions.intro routed_births.births_settle assms)
  from settling_actions.interpret_actions [OF this assms(3, 4)] show ?thesis .
qed

definition sample_allocate :: "nat create_child creations \<Rightarrow> nat list
    \<Rightarrow> (nat, nat) routed_creation creations option \<times> nat list" where
  "sample_allocate x i = (Some (map (\<lambda>c. \<lparr>routed_create = c, routed_route = 0\<rparr>) x), i)"

definition sample_decide :: "(nat, nat) routed_creation \<Rightarrow> nat list \<Rightarrow> unit decision \<times> nat list" where
  "sample_decide item i = (let child = create_child (routed_create item)
     in (if child = 2 then Break MissingCapability else Establish (), i @ [child]))"

abbreviation sample_dispatch :: "(nat list, nat, nat, unit) dispatch" where
  "sample_dispatch \<equiv> dispatch_child (deciding_establish sample_decide)"

definition sample_action :: "(nat list, nat create_child, never) actions" where
  "sample_action = \<lparr>sends = [7, 8], creates = [create_birth (CreationId 1) 1, create_birth (CreationId 2) 2,
     create_birth (CreationId 3) 3], become = Continue\<rparr>"

theorem actions_interpretation_settles_witness:
  "\<exists>r. actions_interpret (births (owned_host (namespace_routing sample_allocate)) (replying sample_dispatch))
          (requests_lane (owned_host sample_owned)) (Some (Original sample_action)) []
        = (Some (Completed r), [1, 2])
    \<and> batch_view (settled_creations (into_settlement r))
        = CreationsSettled [Consumed, Faulty (routed_request 2 (CreationId 2) 0 Birth),
            Untouched (routed_request 3 (CreationId 3) 0 Birth)]
    \<and> map settled_fact (settled_sends (into_settlement r)) = [Untouched 7, Untouched 8]
    \<and> settled_become (into_settlement r) = Continue
    \<and> corrupt_interpretation r = (True \<or> False)"
proof -
  have "batch_reference (namespace_routing sample_allocate) sample_dispatch (creates sample_action) []
      = (CreationsSettled [Consumed, Faulty (routed_request 2 (CreationId 2) 0 Birth),
            Untouched (routed_request 3 (CreationId 3) 0 Birth)], [1, 2], True)"
    by (simp add: batch_reference_def namespace_routing_def sample_allocate_def sample_decide_def sample_action_def
        dispatch_child_def deciding_establish_def
        create_birth_def create_from_parts_def dispatch_answer_def routed_request_def)
  from actions_interpretation_settles [OF namespace.routed_births_axioms
      owned.requests_settle this, where fs = "[Untouched 7, Untouched 8]" and k = "[1, 2]" and e' = False]
  show ?thesis by (simp add: sample_action_def)
qed

text \<open>
  C32: The results an action settlement owes its source are offered one per round, in order:
  the creation batch, the results of the inner sends, the results of the layer's own sends. Enough
  rounds always come to an end; until the mailbox refuses one, each is admitted exactly once and in
  order, and when it refuses, the refused result and everything behind it stay in custody unchanged.
\<close>

theorem source_results_return_in_order:
  fixes a :: "(('req, 'r) batch_settlement, ('o list, 'n list) send_layer, 'ph) action_settlement"
  assumes "admitting_host admit_c adm_c" and "admitting_host admit_n adm_n" and "admitting_host admit_o adm_o"
  defines "owed \<equiv> (\<lambda>a :: (('req, 'r) batch_settlement, ('o list, 'n list) send_layer, 'ph) action_settlement.
       map Inl (batch_inputs (settled_creations a))
         @ map Inr (map Inl (inner_sends (settled_sends a)) @ map Inr (owned_sends (settled_sends a))))"
  assumes "length (owed a) < n"
    and "admit_in_order (sum_admission adm_c (sum_admission adm_n adm_o)) (owed a) h = (rest, h')"
  shows "\<exists>r. offer_rounds (action_source (creation_source admit_c)
          (layer_source (results_source admit_o) (results_source admit_n))) n a h = Some (r, h')
      \<and> owed (residual r) = rest \<and> source_closed r = (rest \<noteq> [])"
proof -
  have lanes: "source_product (results_source admit_n) (\<lambda>vs. vs) adm_n (results_source admit_o) (\<lambda>vs. vs) adm_o"
    by (intro source_product.intro admitting_host.results_contract assms)
  note product = source_product.intro [OF batch_host.batch_contract [OF batch_host.intro [OF assms(1)]]
      source_product.layer_contract [OF lanes]]
  have "source_contract (action_source (creation_source admit_c)
      (layer_source (results_source admit_o) (results_source admit_n))) owed
      (sum_admission adm_c (sum_admission adm_n adm_o))"
    unfolding owed_def
    by (rule source_product.action_contract [OF product,
          unfolded source_product.product_inputs_def [OF product] fst_conv snd_conv, unfolded source_product.product_inputs_def [OF lanes] fst_conv snd_conv])
  from source_contract.rounds_admit_in_order [OF this assms(5), of h] assms(6) show ?thesis by simp
qed

theorem source_results_return_in_order_witness:
  "\<exists>r. offer_rounds (action_source (creation_source (owned_admit (\<lambda>v h. (h < 2, Suc h))))
          (layer_source (results_source (owned_admit (\<lambda>v h. (h < 2, Suc h))))
             (results_source (owned_admit (\<lambda>v h. (h < 2, Suc h)))))) 5
        \<lparr>settled_creations = (CreationsSettled [True] :: (unit, bool) batch_settlement),
         settled_sends = \<lparr>owned_sends = [''o''], inner_sends = [1, 2 :: nat]\<rparr>,
         settled_become = (Continue :: never become)\<rparr> 0 = Some (r, 3)
      \<and> map Inl (batch_inputs (settled_creations (residual r)))
         @ map Inr (map Inl (inner_sends (settled_sends (residual r))) @ map Inr (owned_sends (settled_sends (residual r))))
        = [Inr (Inl 2), Inr (Inr ''o'')]
      \<and> source_closed r = ([Inr (Inl 2), Inr (Inr ''o'')]
          \<noteq> ([] :: ((unit, bool) batch_settlement + nat + string) list))"
  by (rule source_results_return_in_order
      [OF owned_mailbox.admitting_host_axioms owned_mailbox.admitting_host_axioms
        owned_mailbox.admitting_host_axioms])
    (simp_all add: batch_inputs_def)

end
