(* ===== verification/Termination.thy ===== *)
theory Termination
  imports Creation Restart
begin

text \<open>
  Terminal outcomes and their observation (\<^verbatim>\<open>termination.rs\<close>, the lifecycle reports of
  \<^verbatim>\<open>protocol/mod.rs\<close> and \<^verbatim>\<open>protocol/established.rs\<close>, \<^verbatim>\<open>watch.rs\<close>, \<^verbatim>\<open>lifecycle/termination_monitor.rs\<close>,
  \<^verbatim>\<open>lifecycle/termination_propagation.rs\<close> and \<^verbatim>\<open>lifecycle/task.rs\<close>).

  An \<^verbatim>\<open>Arc<ObservationId>\<close> is its allocation together with the value: \<^verbatim>\<open>Arc::ptr_eq\<close> compares the
  allocations only. Types and markers without run-time content are left out.
\<close>

section \<open>Outcomes\<close>

datatype failed_restart =
    RestartBudgetExceeded usize usize u32
  | RestartReleaseRejected restart_release_failure
  | AttemptSequenceExhausted
  | TimerGenerationExhausted
  | TimerIdentityExhausted

datatype supervision_failure =
    RestartDenied failed_restart
  | StableChildStopped
  | StableChildCreationRejected creation_rejection
  | WorkerFactoryRejected
  | WorkerCreationRejected creation_rejection

datatype 'a exit = ExitNormal | ExitCollected | ExitLinkDied 'a | ExitSupervisionFailed supervision_failure

datatype crash = CrashFailed | CrashEnvironmentFailed | CrashCapabilityFailed | CrashPanicked | CrashCancelled

type_synonym 'a terminal_outcome = "crash + 'a exit"

record 'a peer_stopped =
  stopped_peer :: 'a
  peer_outcome :: "'a terminal_outcome"

record 'a child_stopped =
  stopped_child :: creation_id
  stopped_outcome :: "'a terminal_outcome"
  stopped_at :: instant

datatype child_shutdown_rejection = NotEstablished | AlreadyStopping

record child_shutdown_rejected =
  rejected_child :: creation_id
  rejected_reason :: child_shutdown_rejection

section \<open>Task\<close>

datatype task_state = TaskPending | TaskCompleted | TaskCancelled

datatype 'r task_result = TaskResultCompleted 'r | TaskResultCancelled

datatype ('v, 'r) task_message = TaskComplete 'v 'r | TaskCancel 'r

datatype ('v, 'r) task_error =
    ResultAfterCompletion 'v 'r
  | ResultAfterCancellation 'v 'r
  | CancellationAfterCompletion 'r
  | CancellationAfterCancellation 'r

definition task_new :: task_state where
  "task_new = TaskPending"

fun task_transition :: "task_state \<Rightarrow> ('v, 'r) task_message
    \<Rightarrow> task_state \<times> (('v, 'r) task_error + (('r, 'v task_result) delivery list, never, never) actions)" where
  "task_transition TaskPending (TaskComplete v r) =
     (TaskCompleted, Inr (new_actions (deliver r (TaskResultCompleted v)) [] (Stop Stopped)))"
| "task_transition TaskPending (TaskCancel r) =
     (TaskCancelled, Inr (new_actions (deliver r TaskResultCancelled) [] (Stop Stopped)))"
| "task_transition TaskCompleted (TaskComplete v r) = (TaskCompleted, Inl (ResultAfterCompletion v r))"
| "task_transition TaskCancelled (TaskComplete v r) = (TaskCancelled, Inl (ResultAfterCancellation v r))"
| "task_transition TaskCompleted (TaskCancel r) = (TaskCompleted, Inl (CancellationAfterCompletion r))"
| "task_transition TaskCancelled (TaskCancel r) = (TaskCancelled, Inl (CancellationAfterCancellation r))"

section \<open>Observation of an established actor\<close>

record arc_id =
  arc_ptr :: nat
  arc_value :: u64

definition ptr_eq :: "arc_id \<Rightarrow> arc_id \<Rightarrow> bool" where
  "ptr_eq a b \<longleftrightarrow> arc_ptr a = arc_ptr b"

text \<open>\<^verbatim>\<open>ObservationRelationship\<close> is its identity, compared by \<^verbatim>\<open>ptr_eq\<close>; an authority holds one.\<close>

type_synonym relationship = arc_id

datatype authority = ObservationAuthority (authority_relationship: relationship)

record 'rcp observe_established =
  observe_correlation :: arc_id
  observe_recipient :: 'rcp

definition authority_issued :: "'rcp observe_established \<Rightarrow> authority" where
  "authority_issued request = ObservationAuthority (observe_correlation request)"

definition matches_request :: "authority \<Rightarrow> arc_id \<Rightarrow> bool" where
  "matches_request au correlation = ptr_eq (authority_relationship au) correlation"

datatype cancel_observation = CancelObservation (cancel_authority: authority)

definition cancel_relationship :: "cancel_observation \<Rightarrow> relationship" where
  "cancel_relationship c = authority_relationship (cancel_authority c)"

datatype observation_operation = ObservationStart | ObservationCancel

datatype established_observation_rejection = IdAlreadyBound | NotObserved

datatype ('rcp, 'a) established_observation =
    ObservationStarted authority
  | ObservationStopped relationship "'a terminal_outcome" instant
  | ObservationCancelled relationship
  | ObserveRejected "'rcp observe_established" established_observation_rejection
  | CancelRejected cancel_observation established_observation_rejection

datatype termination_observation =
    Requested | Observing | Observed | Cancelled
  | RejectedObservation observation_operation established_observation_rejection

datatype ('err, 'rep) termination_monitor_error =
    MonitorInner 'err
  | UnexpectedReport termination_observation 'rep

datatype 'rcp established_termination =
    Unissued "'rcp observe_established"
  | EstRequested arc_id
  | EstObserving authority
  | CancelPending relationship
  | CancelRejectedWaiting cancel_observation
  | StoppedAwaitingCancel relationship
  | EstObserveRejected "'rcp observe_established"
  | EstStopped
  | StoppedWithCancelRejected cancel_observation
  | EstCancelled

definition take_cancellation :: "'rcp established_termination \<Rightarrow> 'rcp established_termination \<times> cancel_observation option" where
  "take_cancellation t = (case t of
      EstObserving au \<Rightarrow> (CancelPending (authority_relationship au), Some (CancelObservation au))
    | _ \<Rightarrow> (t, None))"

definition into_rejected_observe :: "'rcp established_termination
    \<Rightarrow> 'rcp established_termination + 'rcp observe_established \<times> established_observation_rejection" where
  "into_rejected_observe t = (case t of
      EstObserveRejected request \<Rightarrow> Inr (request, IdAlreadyBound) | _ \<Rightarrow> Inl t)"

definition into_rejected_cancel :: "'rcp established_termination
    \<Rightarrow> 'rcp established_termination + cancel_observation \<times> established_observation_rejection" where
  "into_rejected_cancel t = (case t of
      CancelRejectedWaiting request \<Rightarrow> Inr (request, NotObserved)
    | StoppedWithCancelRejected request \<Rightarrow> Inr (request, NotObserved)
    | _ \<Rightarrow> Inl t)"

definition request_once :: "'rcp established_termination
    \<Rightarrow> 'rcp established_termination \<times> 'rcp observe_established option" where
  "request_once t = (case t of
      Unissued request \<Rightarrow> (EstRequested (observe_correlation request), Some request) | _ \<Rightarrow> (t, None))"

fun current_observation :: "'rcp established_termination \<Rightarrow> termination_observation" where
  "current_observation (Unissued r) = Requested"
| "current_observation (EstRequested c) = Requested"
| "current_observation (EstObserving au) = Observing"
| "current_observation (CancelPending rel) = Observing"
| "current_observation (CancelRejectedWaiting c) = Observing"
| "current_observation EstStopped = Observed"
| "current_observation (StoppedAwaitingCancel rel) = Observed"
| "current_observation (StoppedWithCancelRejected c) = Observed"
| "current_observation EstCancelled = Cancelled"
| "current_observation (EstObserveRejected r) = RejectedObservation ObservationStart IdAlreadyBound"

text \<open>
  \<^verbatim>\<open>accept_report\<close> on the observation state alone: the next state and whether the reaction runs, or
  nothing when the report is returned to the caller.
\<close>

fun accept_observation :: "'rcp established_termination \<Rightarrow> ('rcp, 'a) established_observation
    \<Rightarrow> ('rcp established_termination \<times> bool) option" where
  "accept_observation t (ObservationStarted au) = (case t of
      EstRequested correlation \<Rightarrow>
        if matches_request au correlation then Some (EstObserving au, False) else None
    | _ \<Rightarrow> None)"
| "accept_observation t (ObserveRejected request reason) = (case t of
      EstRequested correlation \<Rightarrow>
        if reason = IdAlreadyBound \<and> ptr_eq (observe_correlation request) correlation
        then Some (EstObserveRejected request, False) else None
    | _ \<Rightarrow> None)"
| "accept_observation t (CancelRejected request reason) = (case t of
      CancelPending expected \<Rightarrow>
        if reason = NotObserved \<and> ptr_eq expected (cancel_relationship request)
        then Some (CancelRejectedWaiting request, False) else None
    | StoppedAwaitingCancel expected \<Rightarrow>
        if reason = NotObserved \<and> ptr_eq expected (cancel_relationship request)
        then Some (StoppedWithCancelRejected request, False) else None
    | _ \<Rightarrow> None)"
| "accept_observation t (ObservationCancelled rel) = (case t of
      CancelPending expected \<Rightarrow> if ptr_eq expected rel then Some (EstCancelled, False) else None
    | _ \<Rightarrow> None)"
| "accept_observation t (ObservationStopped rel oc at) = (case t of
      EstObserving au \<Rightarrow> if ptr_eq (authority_relationship au) rel then Some (EstStopped, True) else None
    | CancelPending expected \<Rightarrow>
        if ptr_eq expected rel then Some (StoppedAwaitingCancel expected, True) else None
    | CancelRejectedWaiting request \<Rightarrow>
        if ptr_eq (cancel_relationship request) rel then Some (StoppedWithCancelRejected request, True) else None
    | _ \<Rightarrow> None)"

section \<open>Monitors\<close>

text \<open>The trait \<^verbatim>\<open>TerminationObservationTarget\<close>: its request, its phase and its reaction to a report.\<close>

record ('t, 'b, 'rep, 'req, 'x, 'c, 'ph) observation_target =
  target_request :: "'t \<Rightarrow> 't \<times> 'req option"
  target_observation :: "'t \<Rightarrow> termination_observation"
  target_react :: "'t \<Rightarrow> 'b \<Rightarrow> 'rep \<Rightarrow> 't \<times> 'b \<times> ('rep + ('x, 'c, 'ph) actions)"

datatype 'a logical_termination = LogicalObserving 'a | LogicalObserved 'a

fun logical_peer :: "'a logical_termination \<Rightarrow> 'a" where
  "logical_peer (LogicalObserving peer) = peer"
| "logical_peer (LogicalObserved peer) = peer"

definition logical_target :: "('b \<Rightarrow> 'a peer_stopped \<Rightarrow> 'b \<times> ('x, 'c, 'ph) actions)
    \<Rightarrow> ('a logical_termination, 'b, 'a peer_stopped, 'a, 'x, 'c, 'ph) observation_target" where
  "logical_target react =
     \<lparr>target_request = (\<lambda>t. (t, Some (logical_peer t))),
      target_observation = (\<lambda>t. case t of LogicalObserving p \<Rightarrow> Observing | LogicalObserved p \<Rightarrow> Observed),
      target_react = (\<lambda>t b report. case t of
          LogicalObserving peer \<Rightarrow>
            if stopped_peer report \<noteq> peer then (t, b, Inl report)
            else (let (b', a) = react b report in (LogicalObserved peer, b', Inr a))
        | LogicalObserved peer \<Rightarrow> (t, b, Inl report))\<rparr>"

definition established_target :: "'x send_effects
    \<Rightarrow> ('b \<Rightarrow> ('rcp, 'a) established_observation \<Rightarrow> 'b \<times> ('x, 'c, 'ph) actions)
    \<Rightarrow> ('rcp established_termination, 'b, ('rcp, 'a) established_observation, 'rcp observe_established, 'x, 'c, 'ph)
       observation_target" where
  "established_target S react =
     \<lparr>target_request = request_once,
      target_observation = current_observation,
      target_react = (\<lambda>t b report. case accept_observation t report of
          None \<Rightarrow> (t, b, Inl report)
        | Some (t', False) \<Rightarrow> (t', b, Inr (cont S))
        | Some (t', True) \<Rightarrow> (let (b', a) = react b report in (t', b', Inr a)))\<rparr>"

record ('b, 't) monitor =
  monitor_inner :: 'b
  monitor_target :: 't

definition monitor_wrap :: "('x, 'c, 'ph) actions \<Rightarrow> 'req list \<Rightarrow> (('req list, 'x) send_layer, 'c, 'ph) actions" where
  "monitor_wrap a observations = map_sends (\<lambda>inner. \<lparr>owned_sends = observations, inner_sends = inner\<rparr>) a"

definition monitor_init :: "('t, 'b, 'rep, 'req, 'x, 'c, 'ph) observation_target
    \<Rightarrow> ('b, 'e, 'a, 'm, 'x, 'c, 'ph, 'err) behavior \<Rightarrow> ('b, 't) monitor
    \<Rightarrow> ('b, 't) monitor \<times> (('err, 'rep) termination_monitor_error + (('req list, 'x) send_layer, 'c, 'ph) actions)" where
  "monitor_init T B s = (case initialize B (monitor_inner s) of
      (b, Inl err) \<Rightarrow> (s\<lparr>monitor_inner := b\<rparr>, Inl (MonitorInner err))
    | (b, Inr a) \<Rightarrow>
        (let (t, request) = target_request T (monitor_target s)
         in (\<lparr>monitor_inner = b, monitor_target = t\<rparr>,
             Inr (monitor_wrap a (case request of Some r \<Rightarrow> [r] | None \<Rightarrow> [])))))"

definition monitor_transition :: "('t, 'b, 'rep, 'req, 'x, 'c, 'ph) observation_target
    \<Rightarrow> ('b, 'e, 'a, 'm, 'x, 'c, 'ph, 'err) behavior \<Rightarrow> ('b, 't) monitor \<Rightarrow> ('rep, 'e) event_layer
    \<Rightarrow> ('b, 't) monitor \<times> (('err, 'rep) termination_monitor_error + (('req list, 'x) send_layer, 'c, 'ph) actions)" where
  "monitor_transition T B s event = (case event of
      Owned report \<Rightarrow> (case target_react T (monitor_target s) (monitor_inner s) report of
          (t, b, Inl returned) \<Rightarrow>
            (\<lparr>monitor_inner = b, monitor_target = t\<rparr>, Inl (UnexpectedReport (target_observation T t) returned))
        | (t, b, Inr a) \<Rightarrow> (\<lparr>monitor_inner = b, monitor_target = t\<rparr>, Inr (monitor_wrap a [])))
    | Inner e \<Rightarrow> (case delegate_transition B (monitor_inner s) e of
          (b, Inl err) \<Rightarrow> (s\<lparr>monitor_inner := b\<rparr>, Inl (MonitorInner err))
        | (b, Inr a) \<Rightarrow> (s\<lparr>monitor_inner := b\<rparr>, Inr (monitor_wrap a []))))"

section \<open>Watch\<close>

record ('b, 'a) watch =
  watch_inner :: 'b
  watch_peer :: 'a

text \<open>The reaction of \<^verbatim>\<open>Watch\<close> returns a verdict without a phase.\<close>

fun watch_become :: "(never, stopped) step \<Rightarrow> 'ph become" where
  "watch_become Continue = Continue"
| "watch_become (Goto n) = Continue"
| "watch_become (Stop s) = Stop s"

definition watch_init :: "('b, 'e, 'a, 'm, 'x, 'c, 'ph, 'err) behavior \<Rightarrow> ('b, 'a) watch
    \<Rightarrow> ('b, 'a) watch \<times> (('err, 'a peer_stopped) termination_monitor_error + (('a list, 'x) send_layer, 'c, 'ph) actions)" where
  "watch_init B s = (case initialize B (watch_inner s) of
      (b, Inl err) \<Rightarrow> (s\<lparr>watch_inner := b\<rparr>, Inl (MonitorInner err))
    | (b, Inr a) \<Rightarrow> (s\<lparr>watch_inner := b\<rparr>, Inr (monitor_wrap a [watch_peer s])))"

definition watch_transition :: "('b \<Rightarrow> 'a \<Rightarrow> 'a terminal_outcome \<Rightarrow> 'b \<times> (never, stopped) step)
    \<Rightarrow> ('b, 'e, 'a, 'm, 'x, 'c, 'ph, 'err) behavior \<Rightarrow> ('b, 'a) watch \<Rightarrow> ('a peer_stopped, 'e) event_layer
    \<Rightarrow> ('b, 'a) watch \<times> (('err, 'a peer_stopped) termination_monitor_error + (('a list, 'x) send_layer, 'c, 'ph) actions)" where
  "watch_transition on_stopped B s event = (case event of
      Owned report \<Rightarrow>
        if stopped_peer report = watch_peer s
        then let (b, verdict) = on_stopped (watch_inner s) (stopped_peer report) (peer_outcome report)
             in (s\<lparr>watch_inner := b\<rparr>, Inr (monitor_wrap (just (b_sends B) (watch_become verdict)) []))
        else (s, Inl (UnexpectedReport Observing report))
    | Inner e \<Rightarrow> (case delegate_transition B (watch_inner s) e of
          (b, Inl err) \<Rightarrow> (s\<lparr>watch_inner := b\<rparr>, Inl (MonitorInner err))
        | (b, Inr a) \<Rightarrow> (s\<lparr>watch_inner := b\<rparr>, Inr (monitor_wrap a []))))"

fun normal_outcome :: "'a terminal_outcome \<Rightarrow> bool" where
  "normal_outcome (Inr ExitNormal) = True"
| "normal_outcome (Inr ExitCollected) = True"
| "normal_outcome oc = False"

definition stop_on_abnormal_death :: "'b \<Rightarrow> 'a \<Rightarrow> 'a terminal_outcome \<Rightarrow> 'b \<times> (never, stopped) step" where
  "stop_on_abnormal_death b peer oc = (b, if normal_outcome oc then Continue else Stop Stopped)"

section \<open>Propagation\<close>

text \<open>The trait \<^verbatim>\<open>TerminationTarget\<close> and its two implementations.\<close>

record ('t, 'rep, 'req, 'a) termination_target =
  termination_request :: "'t \<Rightarrow> 'req"
  termination_matches :: "'t \<Rightarrow> 'rep \<Rightarrow> bool"
  termination_outcome :: "'rep \<Rightarrow> 'a terminal_outcome"

definition child_termination :: "(creation_id, 'a child_stopped, creation_id, 'a) termination_target" where
  "child_termination = \<lparr>termination_request = (\<lambda>child. child),
     termination_matches = (\<lambda>child report. stopped_child report = child), termination_outcome = stopped_outcome\<rparr>"

definition peer_termination :: "('a, 'a peer_stopped, 'a, 'a) termination_target" where
  "peer_termination = \<lparr>termination_request = (\<lambda>peer. peer),
     termination_matches = (\<lambda>peer report. stopped_peer report = peer), termination_outcome = peer_outcome\<rparr>"

datatype terminal_disposition = Discharge | Propagate

definition propagate_all :: "'a terminal_outcome \<Rightarrow> terminal_disposition" where
  "propagate_all oc = Propagate"

definition propagate_abnormal :: "'a terminal_outcome \<Rightarrow> terminal_disposition" where
  "propagate_abnormal oc = (if normal_outcome oc then Discharge else Propagate)"

datatype propagation_state = PropagationObserving | Discharged | Propagated

datatype ('err, 'rep) propagation_error =
    PropagationInner 'err
  | UnexpectedTerminalReport propagation_state 'rep

record ('req, 'a) propagation_sends =
  observations :: "'req list"
  terminal_reports :: "'a terminal_outcome list"

definition propagation_effects :: "('req, 'a) propagation_sends send_effects" where
  "propagation_effects = \<lparr>empty_sends = \<lparr>observations = [], terminal_reports = []\<rparr>,
     append_sends = (\<lambda>x y. \<lparr>observations = observations x @ observations y,
                            terminal_reports = terminal_reports x @ terminal_reports y\<rparr>)\<rparr>"

record ('b, 't) propagation =
  propagation_inner :: 'b
  propagation_target :: 't
  propagation_phase :: propagation_state

definition propagation_new :: "'b \<Rightarrow> 't \<Rightarrow> ('b, 't) propagation" where
  "propagation_new b t = \<lparr>propagation_inner = b, propagation_target = t, propagation_phase = PropagationObserving\<rparr>"

type_synonym ('req, 'a, 'x, 'c, 'ph) propagation_actions =
  "((('req, 'a) propagation_sends, 'x) send_layer, 'c, 'ph) actions"

definition propagation_wrap :: "('x, 'c, 'ph) actions \<Rightarrow> ('req, 'a) propagation_sends
    \<Rightarrow> ('req, 'a, 'x, 'c, 'ph) propagation_actions" where
  "propagation_wrap a owned = map_sends (\<lambda>inner. \<lparr>owned_sends = owned, inner_sends = inner\<rparr>) a"

definition propagation_init :: "('t, 'rep, 'req, 'd) termination_target
    \<Rightarrow> ('b, 'e, 'a, 'm, 'x, 'c, 'ph, 'err) behavior \<Rightarrow> ('b, 't) propagation
    \<Rightarrow> ('b, 't) propagation \<times> (('err, 'rep) propagation_error + ('req, 'd, 'x, 'c, 'ph) propagation_actions)" where
  "propagation_init T B s = (case initialize B (propagation_inner s) of
      (b, Inl err) \<Rightarrow> (s\<lparr>propagation_inner := b\<rparr>, Inl (PropagationInner err))
    | (b, Inr a) \<Rightarrow> (s\<lparr>propagation_inner := b\<rparr>, Inr (propagation_wrap a
        \<lparr>observations = [termination_request T (propagation_target s)], terminal_reports = []\<rparr>)))"

definition propagation_transition :: "('t, 'rep, 'req, 'd) termination_target
    \<Rightarrow> ('d terminal_outcome \<Rightarrow> terminal_disposition)
    \<Rightarrow> ('b, 'e, 'a, 'm, 'x, 'c, 'ph, 'err) behavior \<Rightarrow> ('b, 't) propagation \<Rightarrow> ('rep, 'e) event_layer
    \<Rightarrow> ('b, 't) propagation \<times> (('err, 'rep) propagation_error + ('req, 'd, 'x, 'c, 'ph) propagation_actions)" where
  "propagation_transition T policy B s event = (case event of
      Owned report \<Rightarrow>
        if propagation_phase s = PropagationObserving \<and> termination_matches T (propagation_target s) report
        then let oc = termination_outcome T report
             in case policy oc of
                  Discharge \<Rightarrow> (s\<lparr>propagation_phase := Discharged\<rparr>,
                    Inr (cont (layer_sends propagation_effects (b_sends B))))
                | Propagate \<Rightarrow> (s\<lparr>propagation_phase := Propagated\<rparr>,
                    Inr (new_actions \<lparr>owned_sends = \<lparr>observations = [], terminal_reports = [oc]\<rparr>,
                                      inner_sends = empty_sends (b_sends B)\<rparr> [] (Stop Stopped)))
        else (s, Inl (UnexpectedTerminalReport (propagation_phase s) report))
    | Inner e \<Rightarrow> (case delegate_transition B (propagation_inner s) e of
          (b, Inl err) \<Rightarrow> (s\<lparr>propagation_inner := b\<rparr>, Inl (PropagationInner err))
        | (b, Inr a) \<Rightarrow> (s\<lparr>propagation_inner := b\<rparr>,
            Inr (propagation_wrap a (empty_sends propagation_effects)))))"

section \<open>Properties\<close>

text \<open>What a run reports upwards, and the matching reports it decided on.\<close>

fun reported :: "('err + ('req, 'd, 'x, 'c, 'ph) propagation_actions) \<Rightarrow> 'd terminal_outcome list" where
  "reported (Inr a) = terminal_reports (owned_sends (sends a))"
| "reported (Inl err) = []"

text \<open>The first report of the watched actor decides.\<close>

fun first_matching :: "('t, 'rep, 'req, 'd) termination_target \<Rightarrow> 't \<Rightarrow> ('rep, 'e) event_layer list
    \<Rightarrow> 'd terminal_outcome option" where
  "first_matching T t [] = None"
| "first_matching T t (Inner e # es) = first_matching T t es"
| "first_matching T t (Owned r # es) =
     (if termination_matches T t r then Some (termination_outcome T r) else first_matching T t es)"

lemma first_matching_append:
  "first_matching T t (es @ fs) = (case first_matching T t es of
      Some oc \<Rightarrow> Some oc | None \<Rightarrow> first_matching T t fs)"
  by (induction T t es rule: first_matching.induct) auto

definition decided :: "('t, 'rep, 'req, 'd) termination_target \<Rightarrow> ('d terminal_outcome \<Rightarrow> terminal_disposition)
    \<Rightarrow> 't \<Rightarrow> ('rep, 'e) event_layer list \<Rightarrow> propagation_state" where
  "decided T policy t es = (case first_matching T t es of
      None \<Rightarrow> PropagationObserving
    | Some oc \<Rightarrow> (case policy oc of Discharge \<Rightarrow> Discharged | Propagate \<Rightarrow> Propagated))"

definition propagation_traced :: "('t, 'rep, 'req, 'd) termination_target \<Rightarrow> ('d terminal_outcome \<Rightarrow> terminal_disposition)
    \<Rightarrow> 't \<Rightarrow> (('rep, 'e) event_layer \<times> ('err + ('req, 'd, 'x, 'c, 'ph) propagation_actions)) list
    \<Rightarrow> ('b, 't) propagation \<Rightarrow> bool" where
  "propagation_traced T policy t h s \<longleftrightarrow> propagation_target s = t
     \<and> propagation_phase s = decided T policy t (map fst h)
     \<and> concat (map (reported \<circ> snd) h)
         = (case first_matching T t (map fst h) of Some oc \<Rightarrow> (if policy oc = Propagate then [oc] else []) | None \<Rightarrow> [])"

lemma propagation_step:
  assumes "propagation_traced T policy t h s"
  shows "propagation_traced T policy t (h @ [(e, snd (propagation_transition T policy B s e))])
    (fst (propagation_transition T policy B s e))"
proof (cases e)
  case (Inner i)
  obtain b res where d: "delegate_transition B (propagation_inner s) i = (b, res)" by fastforce
  with assms Inner show ?thesis
    by (cases res) (auto simp: propagation_traced_def propagation_transition_def decided_def first_matching_append
        propagation_wrap_def propagation_effects_def split: option.splits)
next
  case (Owned r)
  show ?thesis
  proof (cases "first_matching T t (map fst h)")
    case None
    with assms Owned show ?thesis
      by (auto simp: propagation_traced_def propagation_transition_def decided_def first_matching_append
          cont_def just_def new_actions_def layer_sends_def propagation_effects_def Let_def
          split: terminal_disposition.splits)
  next
    case (Some oc)
    with assms have "propagation_phase s \<noteq> PropagationObserving"
      by (auto simp: propagation_traced_def decided_def split: terminal_disposition.splits)
    with Some assms Owned show ?thesis
      by (auto simp: propagation_traced_def propagation_transition_def decided_def first_matching_append)
  qed
qed

interpretation propagation: traced_fold "propagation_transition T policy B" "propagation_traced T policy t" "\<lambda>e out. [(e, out)]"
  by unfold_locales (rule propagation_step)

text \<open>
  C34: A behavior that propagates termination reports the outcome of the actor it watches at most
  once, to whoever waits for it: exactly the outcome of the first report that matches its target,
  if the policy propagates that outcome, and nothing otherwise. Reports of other actors and later
  reports of the same actor change nothing.
\<close>

theorem termination_propagated_once:
  "concat (map reported (run_outputs (propagation_transition T policy B) (propagation_new b t) es))
     = (case first_matching T t es of Some oc \<Rightarrow> (if policy oc = Propagate then [oc] else []) | None \<Rightarrow> [])
   \<and> propagation_phase (run_state (propagation_transition T policy B) (propagation_new b t) es) = decided T policy t es"
proof -
  have "propagation_traced T policy t [] (propagation_new b t)"
    by (simp add: propagation_traced_def propagation_new_def decided_def)
  from propagation.run_trace [OF this, where B = B and es = es] show ?thesis
    by (simp add: concat_pairs propagation_traced_def flip: map_map)
qed

subsection \<open>The established monitor\<close>

text \<open>
  Operations on a monitor of an established actor: an event, or the application taking the one
  cancellation it may send.
\<close>

datatype 'e monitor_operation = Deliver 'e | TakeCancellation

datatype 'o monitor_result = Delivered 'o | Cancellation "cancel_observation option"

fun monitor_step :: "'x send_effects \<Rightarrow> ('b \<Rightarrow> ('rcp, 'd) established_observation \<Rightarrow> 'b \<times> ('x, 'c, 'ph) actions)
    \<Rightarrow> ('b, 'e, 'a, 'm, 'x, 'c, 'ph, 'err) behavior \<Rightarrow> ('b, 'rcp established_termination) monitor
    \<Rightarrow> (('rcp, 'd) established_observation, 'e) event_layer monitor_operation
    \<Rightarrow> ('b, 'rcp established_termination) monitor
       \<times> (('err, ('rcp, 'd) established_observation) termination_monitor_error
          + (('rcp observe_established list, 'x) send_layer, 'c, 'ph) actions) monitor_result" where
  "monitor_step S react B s (Deliver e) = apsnd Delivered (monitor_transition (established_target S react) B s e)"
| "monitor_step S react B s TakeCancellation =
     (let (t, c) = take_cancellation (monitor_target s) in (s\<lparr>monitor_target := t\<rparr>, Cancellation c))"

text \<open>The terminal reports a monitor reacted to, and the cancellations it handed out.\<close>

datatype lifecycle_fact = ReactedTo relationship | HandedOut relationship

fun lifecycle_facts :: "(('rcp, 'd) established_observation, 'e) event_layer monitor_operation
    \<Rightarrow> ('err + 'act) monitor_result \<Rightarrow> lifecycle_fact list" where
  "lifecycle_facts (Deliver (Owned (ObservationStopped rel oc at))) (Delivered (Inr a)) = [ReactedTo rel]"
| "lifecycle_facts TakeCancellation (Cancellation (Some c)) = [HandedOut (cancel_relationship c)]"
| "lifecycle_facts operation result = []"

fun reactions :: "lifecycle_fact list \<Rightarrow> relationship list" where
  "reactions [] = []"
| "reactions (ReactedTo r # fs) = r # reactions fs"
| "reactions (HandedOut r # fs) = reactions fs"

fun cancellations :: "lifecycle_fact list \<Rightarrow> relationship list" where
  "cancellations [] = []"
| "cancellations (HandedOut r # fs) = r # cancellations fs"
| "cancellations (ReactedTo r # fs) = cancellations fs"

lemma lifecycle_lists_append [simp]:
  "reactions (fs @ gs) = reactions fs @ reactions gs" "cancellations (fs @ gs) = cancellations fs @ cancellations gs"
  by (induction fs rule: reactions.induct) auto

fun est_reacted :: "'rcp established_termination \<Rightarrow> nat" where
  "est_reacted EstStopped = 1"
| "est_reacted (StoppedAwaitingCancel rel) = 1"
| "est_reacted (StoppedWithCancelRejected c) = 1"
| "est_reacted t = 0"

fun est_cancelled :: "'rcp established_termination \<Rightarrow> nat" where
  "est_cancelled (CancelPending rel) = 1"
| "est_cancelled (CancelRejectedWaiting c) = 1"
| "est_cancelled (StoppedAwaitingCancel rel) = 1"
| "est_cancelled (StoppedWithCancelRejected c) = 1"
| "est_cancelled EstCancelled = 1"
| "est_cancelled t = 0"

text \<open>The allocation a state identifies the relationship by, while it still does.\<close>

fun est_identity :: "'rcp established_termination \<Rightarrow> nat option" where
  "est_identity (Unissued r) = Some (arc_ptr (observe_correlation r))"
| "est_identity (EstRequested c) = Some (arc_ptr c)"
| "est_identity (EstObserving au) = Some (arc_ptr (authority_relationship au))"
| "est_identity (CancelPending rel) = Some (arc_ptr rel)"
| "est_identity (CancelRejectedWaiting c) = Some (arc_ptr (cancel_relationship c))"
| "est_identity (StoppedAwaitingCancel rel) = Some (arc_ptr rel)"
| "est_identity t = None"

definition est_traced :: "nat \<Rightarrow> lifecycle_fact list \<Rightarrow> ('b, 'rcp established_termination) monitor \<Rightarrow> bool" where
  "est_traced p h s \<longleftrightarrow> length (reactions h) = est_reacted (monitor_target s)
     \<and> length (cancellations h) = est_cancelled (monitor_target s)
     \<and> list_all (\<lambda>r. arc_ptr r = p) (reactions h @ cancellations h)
     \<and> (est_identity (monitor_target s) = None \<or> est_identity (monitor_target s) = Some p)"

text \<open>How an accepted report moves the observation state.\<close>

lemma accept_observation_step:
  assumes "accept_observation t report = Some (t', reacts)"
  shows "reacts \<longleftrightarrow> (\<exists>rel oc at. report = ObservationStopped rel oc at)"
    and "est_reacted t' = est_reacted t + (if reacts then 1 else 0)" and "est_cancelled t' = est_cancelled t"
    and "est_identity t \<noteq> None" and "est_identity t' = None \<or> est_identity t' = est_identity t"
    and "report = ObservationStopped rel oc at \<Longrightarrow> est_identity t = Some (arc_ptr rel)"
  using assms
  by (cases report; cases t; auto simp: matches_request_def ptr_eq_def cancel_relationship_def split: if_splits)+

lemma take_cancellation_step:
  "take_cancellation t = (t', c) \<Longrightarrow> (case c of None \<Rightarrow> t' = t
     | Some co \<Rightarrow> est_cancelled t = 0 \<and> est_cancelled t' = 1 \<and> est_reacted t' = est_reacted t
         \<and> est_identity t' = est_identity t \<and> est_identity t = Some (arc_ptr (cancel_relationship co)))"
  by (cases t) (auto simp: take_cancellation_def cancel_relationship_def)

lemma monitor_step_traced:
  assumes tr: "est_traced p h s"
  shows "est_traced p (h @ lifecycle_facts operation (snd (monitor_step S react B s operation)))
    (fst (monitor_step S react B s operation))"
proof (cases operation)
  case TakeCancellation
  obtain t' c where c: "take_cancellation (monitor_target s) = (t', c)" by fastforce
  from take_cancellation_step [OF c] tr show ?thesis
    by (cases c) (auto simp: TakeCancellation c est_traced_def)
next
  case (Deliver e)
  show ?thesis
  proof (cases e)
    case (Inner i)
    obtain b res where "delegate_transition B (monitor_inner s) i = (b, res)" by fastforce
    with tr show ?thesis
      by (cases res) (auto simp: Deliver Inner monitor_transition_def est_traced_def)
  next
    case (Owned report)
    show ?thesis
    proof (cases "accept_observation (monitor_target s) report")
      case None
      with tr show ?thesis
        by (cases report) (auto simp: Deliver Owned monitor_transition_def established_target_def est_traced_def)
    next
      case (Some tr')
      obtain t' reacts where acc: "accept_observation (monitor_target s) report = Some (t', reacts)"
        using Some by (cases tr') auto
      obtain b' act where react: "react (monitor_inner s) report = (b', act)" by fastforce
      obtain b'' a where eq: "monitor_step S react B s operation
          = (\<lparr>monitor_inner = b'', monitor_target = t'\<rparr>, Delivered (Inr (monitor_wrap a [])))"
        using react by (cases reacts) (simp_all add: Deliver Owned monitor_transition_def established_target_def acc)
      then have fst_step: "monitor_target (fst (monitor_step S react B s operation)) = t'" by simp
      have facts: "lifecycle_facts operation (snd (monitor_step S react B s operation))
          = (case report of ObservationStopped rel oc at \<Rightarrow> [ReactedTo rel] | _ \<Rightarrow> [])"
        unfolding eq by (cases report) (simp_all add: Deliver Owned)
      note step = accept_observation_step(2-5) [OF acc]
      show ?thesis
      proof (cases reacts)
        case True
        then obtain rel oc at where report: "report = ObservationStopped rel oc at"
          using accept_observation_step(1) [OF acc] by blast
        have "arc_ptr rel = p"
          using accept_observation_step(6) [OF acc report] tr by (simp add: est_traced_def)
        with step tr True show ?thesis
          unfolding est_traced_def fst_step facts by (simp add: report, metis)
      next
        case False
        then have "lifecycle_facts operation (snd (monitor_step S react B s operation)) = []"
          using accept_observation_step(1) [OF acc] facts by (cases report) auto
        with step tr False show ?thesis unfolding est_traced_def fst_step by (simp, metis)
      qed
    qed
  qed
qed

interpretation established_monitor: traced_fold "monitor_step S react B" "est_traced p" lifecycle_facts
  by unfold_locales (rule monitor_step_traced)

text \<open>
  C33: A monitor of an established actor runs its reaction at most once and hands out at most one
  cancellation, whatever reports arrive in whatever order, duplicated, stale or of other
  relationships, and however the application interleaves its cancellation with them; and both are
  for exactly the relationship of its own request.
\<close>

theorem established_monitor_reacts_once:
  fixes request :: "'rcp observe_established"
    and react :: "'b \<Rightarrow> ('rcp, 'd) established_observation \<Rightarrow> 'b \<times> ('x, 'c, 'ph) actions"
    and B :: "('b, 'e, 'a, 'm, 'x, 'c, 'ph, 'err) behavior" and S :: "'x send_effects" and b :: 'b
    and ops :: "(('rcp, 'd) established_observation, 'e) event_layer monitor_operation list"
  defines "start \<equiv> fst (monitor_init (established_target S react) B
      \<lparr>monitor_inner = b, monitor_target = Unissued request\<rparr>)"
  defines "history \<equiv> concat (map2 lifecycle_facts ops (run_outputs (monitor_step S react B) start ops))"
  shows "length (reactions history) \<le> 1 \<and> length (cancellations history) \<le> 1
    \<and> list_all (\<lambda>r. ptr_eq r (observe_correlation request)) (reactions history @ cancellations history)"
proof -
  have "est_traced (arc_ptr (observe_correlation request)) [] start"
    unfolding start_def monitor_init_def
    by (auto simp: est_traced_def established_target_def request_once_def split: prod.splits sum.splits)
  from established_monitor.run_trace [OF this, where S = S and react = react and B = B and es = ops]
  have "est_traced (arc_ptr (observe_correlation request)) history (run_state (monitor_step S react B) start ops)"
    by (simp add: history_def)
  moreover have "est_reacted t \<le> 1" "est_cancelled t \<le> 1" for t :: "'rcp established_termination"
    by (cases t; simp)+
  ultimately show ?thesis by (auto simp: est_traced_def ptr_eq_def)
qed

subsection \<open>Tasks\<close>

fun task_answer :: "('v, 'r) task_message \<Rightarrow> ('r, 'v task_result) delivery list" where
  "task_answer (TaskComplete v r) = deliver r (TaskResultCompleted v)"
| "task_answer (TaskCancel r) = deliver r TaskResultCancelled"

fun task_refusal :: "('v, 'r) task_message \<Rightarrow> ('v, 'r) task_message \<Rightarrow> ('v, 'r) task_error" where
  "task_refusal (TaskComplete w q) (TaskComplete v r) = ResultAfterCompletion v r"
| "task_refusal (TaskComplete w q) (TaskCancel r) = CancellationAfterCompletion r"
| "task_refusal (TaskCancel q) (TaskComplete v r) = ResultAfterCancellation v r"
| "task_refusal (TaskCancel q) (TaskCancel r) = CancellationAfterCancellation r"

lemma settled_task_refuses:
  "run_outputs task_transition (fst (task_transition TaskPending m)) ms = map (Inl \<circ> task_refusal m) ms"
proof -
  have step: "task_transition (fst (task_transition TaskPending m)) n
      = (fst (task_transition TaskPending m), Inl (task_refusal m n))" for n
    by (cases m; cases n) simp_all
  show ?thesis by (induction ms) (simp_all add: step)
qed

text \<open>
  A task is settled once. The first message, a result or a cancellation, is answered on its own
  route and stops the task; every later message is refused with an error that says how the task was
  settled and returns that message's result and route, and no further answer is sent.
\<close>

theorem task_settles_once:
  "run_outputs task_transition task_new (m # ms)
     = Inr (new_actions (task_answer m) [] (Stop Stopped)) # map (Inl \<circ> task_refusal m) ms"
  using settled_task_refuses [of m ms] by (cases m) (simp_all add: task_new_def)

end
