(* ===== verification/Shutdown.thy ===== *)
theory Shutdown
  imports Termination
begin

text \<open>
  Ordered shutdown (\<^verbatim>\<open>lifecycle/shutdown_coordinator.rs\<close>, \<^verbatim>\<open>shutdown.rs\<close>): plans and their validation,
  the topological layering of a dependency tree, the coordinator that stops one phase of children
  after the other around an inner behavior, in its version for children of one type and in the one
  for children of several types, and the wrappers that stop or finalize on a shutdown request.
\<close>

section \<open>Plans\<close>

text \<open>A \<^verbatim>\<open>ShutdownPlan\<close> is its vector of phases.\<close>

type_synonym 'n shutdown_plan = "'n list list"

datatype 'n shutdown_plan_error = EmptyPhase nat | PlanDuplicateChild 'n

text \<open>The two nested loops over phases and children with the accumulated \<^verbatim>\<open>seen\<close>.\<close>

fun plan_children :: "'n list \<Rightarrow> 'n list \<Rightarrow> 'n + 'n list" where
  "plan_children seen [] = Inr seen"
| "plan_children seen (c # cs) = (if c \<in> set seen then Inl c else plan_children (seen @ [c]) cs)"

fun plan_phases :: "nat \<Rightarrow> 'n list \<Rightarrow> 'n list list \<Rightarrow> 'n shutdown_plan_error option" where
  "plan_phases phase seen [] = None"
| "plan_phases phase seen (cs # rest) =
     (if cs = [] then Some (EmptyPhase phase)
      else case plan_children seen cs of
             Inl c \<Rightarrow> Some (PlanDuplicateChild c)
           | Inr seen' \<Rightarrow> plan_phases (Suc phase) seen' rest)"

definition shutdown_plan_new :: "'n list list \<Rightarrow> 'n shutdown_plan_error + 'n shutdown_plan" where
  "shutdown_plan_new phases = (case plan_phases 0 [] phases of Some e \<Rightarrow> Inl e | None \<Rightarrow> Inr phases)"

section \<open>Trees\<close>

datatype 'n shutdown_tree_error = TreeDuplicateChild 'n | UnknownChild 'n | Cycle

fun tree_duplicate :: "'n list \<Rightarrow> 'n list \<Rightarrow> 'n option" where
  "tree_duplicate unique [] = None"
| "tree_duplicate unique (n # ns) = (if n \<in> set unique then Some n else tree_duplicate (unique @ [n]) ns)"

fun tree_unknown :: "'n list \<Rightarrow> ('n \<times> 'n) list \<Rightarrow> 'n option" where
  "tree_unknown nodes [] = None"
| "tree_unknown nodes ((dependent, dependency) # edges) =
     (if dependent \<notin> set nodes then Some dependent
      else if dependency \<notin> set nodes then Some dependency
      else tree_unknown nodes edges)"

definition tree_phase :: "('n \<times> 'n) list \<Rightarrow> 'n list \<Rightarrow> 'n list" where
  "tree_phase edges remaining = filter (\<lambda>candidate.
     \<not> list_ex (\<lambda>(dependent, dependency). dependency = candidate \<and> dependent \<in> set remaining) edges) remaining"

function tree_phases :: "('n \<times> 'n) list \<Rightarrow> 'n list \<Rightarrow> 'n list list \<Rightarrow> 'n shutdown_tree_error + 'n list list" where
  "tree_phases edges remaining phases =
     (if remaining = [] then Inr phases
      else let phase = tree_phase edges remaining
           in if phase = [] then Inl Cycle
              else tree_phases edges (filter (\<lambda>node. node \<notin> set phase) remaining) (phases @ [phase]))"
  by pat_completeness auto

lemma tree_phase_subset: "set (tree_phase edges remaining) \<subseteq> set remaining"
  by (auto simp: tree_phase_def)

lemma tree_rest_shorter:
  assumes "tree_phase edges remaining \<noteq> []"
  shows "length (filter (\<lambda>node. node \<notin> set (tree_phase edges remaining)) remaining) < length remaining"
proof -
  from assms obtain x where "x \<in> set (tree_phase edges remaining)" by (meson last_in_set)
  with tree_phase_subset [of edges remaining] show ?thesis by (intro length_filter_less [of x]) auto
qed

termination tree_phases
  by (relation "measure (\<lambda>(edges, remaining, phases). length remaining)") (auto simp: tree_rest_shorter)

declare tree_phases.simps [simp del]

definition shutdown_tree_new :: "'n list \<Rightarrow> ('n \<times> 'n) list \<Rightarrow> 'n shutdown_tree_error + 'n shutdown_plan" where
  "shutdown_tree_new nodes edges = (case tree_duplicate [] nodes of
      Some n \<Rightarrow> Inl (TreeDuplicateChild n)
    | None \<Rightarrow> (case tree_unknown nodes edges of
          Some n \<Rightarrow> Inl (UnknownChild n)
        | None \<Rightarrow> tree_phases edges nodes []))"

section \<open>The coordinator\<close>

datatype ('p, 'n) shutdown_state =
    AwaitingPlan
  | AwaitingPlanAfterShutdown
  | Ready 'p
  | Stopping 'p nat "'n list"
  | ShutdownCompleted

datatype 'p shutdown_move = MoveNone | StartPhase 'p nat | MoveStop

datatype ('e, 'p, 'a) coordinator_event =
    CoordinatorBehavior 'e
  | CoordinatorPlan 'p
  | CoordinatorRequested
  | CoordinatorChildStopped "'a child_stopped"
  | CoordinatorChildRejected child_shutdown_rejected

datatype ('err, 'a, 'p) coordinator_error =
    CoordinatorInner 'err
  | ChildRejected creation_id child_shutdown_rejection
  | UnexpectedChildStopped "'a child_stopped"
  | UnexpectedChildRejection creation_id child_shutdown_rejection
  | PlanAlreadyInstalled 'p

text \<open>The event sum keeps the user events of the wrapped behavior.\<close>

definition coordinator_user :: "('e, 'a, 'm) user_event \<Rightarrow> (('e, 'p, 'b) coordinator_event, 'a, 'm) user_event" where
  "coordinator_user U =
     \<lparr>mk_user = (\<lambda>f m. CoordinatorBehavior (mk_user U f m)),
      into_user = (\<lambda>e. case e of
          CoordinatorBehavior i \<Rightarrow> (case into_user U i of
              Inl j \<Rightarrow> Inl (CoordinatorBehavior j) | Inr u \<Rightarrow> Inr u)
        | other \<Rightarrow> Inl other)\<rparr>"

record ('b, 'p) coordinator =
  coordinator_inner :: 'b
  coordinator_state :: "('p, creation_id) shutdown_state"

subsection \<open>Children of one type\<close>

type_synonym 'b shutdown_coordinator = "('b, creation_id shutdown_plan) coordinator"

record shutdown_child =
  shutdown_target :: creation_id

type_synonym ('x, 'c, 'ph) coordinator_actions = "((shutdown_child list, 'x) send_layer, 'c, 'ph) actions"

definition coordinator_new :: "'b \<Rightarrow> creation_id shutdown_plan \<Rightarrow> 'b shutdown_coordinator" where
  "coordinator_new b plan = \<lparr>coordinator_inner = b, coordinator_state = Ready plan\<rparr>"

definition coordinator_awaiting_plan :: "'b \<Rightarrow> 'b shutdown_coordinator" where
  "coordinator_awaiting_plan b = \<lparr>coordinator_inner = b, coordinator_state = AwaitingPlan\<rparr>"

definition coordinator_wrap :: "('x, 'c, 'ph) actions \<Rightarrow> ('x, 'c, 'ph) coordinator_actions" where
  "coordinator_wrap a = map_sends (\<lambda>inner. \<lparr>owned_sends = [], inner_sends = inner\<rparr>) a"

definition phase_actions :: "'x send_effects \<Rightarrow> creation_id shutdown_plan \<Rightarrow> nat \<Rightarrow> ('x, 'c, 'ph) coordinator_actions" where
  "phase_actions S plan phase = send_actions
     \<lparr>owned_sends = map (\<lambda>child. \<lparr>shutdown_target = child\<rparr>) (plan ! phase), inner_sends = empty_sends S\<rparr>"

definition start_plan :: "creation_id shutdown_plan
    \<Rightarrow> (creation_id shutdown_plan, creation_id) shutdown_state \<times> creation_id shutdown_plan shutdown_move" where
  "start_plan plan =
     (if plan = [] then (ShutdownCompleted, MoveStop) else (Stopping plan 0 (plan ! 0), StartPhase plan 0))"

definition install_plan :: "(creation_id shutdown_plan, creation_id) shutdown_state \<Rightarrow> creation_id shutdown_plan
    \<Rightarrow> (creation_id shutdown_plan, creation_id) shutdown_state
       \<times> (creation_id shutdown_plan + creation_id shutdown_plan shutdown_move)" where
  "install_plan st plan = (case st of
      AwaitingPlan \<Rightarrow> (Ready plan, Inr MoveNone)
    | AwaitingPlanAfterShutdown \<Rightarrow> apsnd Inr (start_plan plan)
    | _ \<Rightarrow> (st, Inl plan))"

definition request_shutdown :: "(creation_id shutdown_plan, creation_id) shutdown_state
    \<Rightarrow> (creation_id shutdown_plan, creation_id) shutdown_state \<times> creation_id shutdown_plan shutdown_move" where
  "request_shutdown st = (case st of
      AwaitingPlan \<Rightarrow> (AwaitingPlanAfterShutdown, MoveNone)
    | Ready plan \<Rightarrow> start_plan plan
    | _ \<Rightarrow> (st, MoveNone))"

definition child_has_stopped :: "(creation_id shutdown_plan, creation_id) shutdown_state \<Rightarrow> creation_id
    \<Rightarrow> (creation_id shutdown_plan, creation_id) shutdown_state \<times> creation_id shutdown_plan shutdown_move" where
  "child_has_stopped st child = (case st of
      Stopping plan phase awaiting \<Rightarrow> (case position (\<lambda>candidate. candidate = child) awaiting of
          None \<Rightarrow> (st, MoveNone)
        | Some p \<Rightarrow>
            (let awaiting = remove_at p awaiting
             in if awaiting \<noteq> [] then (Stopping plan phase awaiting, MoveNone)
                else if phase + 1 = length plan then (ShutdownCompleted, MoveStop)
                else (Stopping plan (phase + 1) (plan ! (phase + 1)), StartPhase plan (phase + 1))))
    | _ \<Rightarrow> (st, MoveNone))"

definition coordinator_sends :: "'x send_effects \<Rightarrow> (shutdown_child list, 'x) send_layer send_effects" where
  [core_defs]: "coordinator_sends S = layer_sends vec_sends S"

fun move_actions :: "'x send_effects \<Rightarrow> creation_id shutdown_plan shutdown_move \<Rightarrow> ('x, 'c, 'ph) coordinator_actions" where
  "move_actions S MoveNone = cont (coordinator_sends S)"
| "move_actions S MoveStop = stop_actions (coordinator_sends S)"
| "move_actions S (StartPhase plan phase) = phase_actions S plan phase"

definition awaits_child :: "('p, creation_id) shutdown_state \<Rightarrow> creation_id \<Rightarrow> bool" where
  "awaits_child st child = (case st of Stopping plan phase awaiting \<Rightarrow> child \<in> set awaiting | _ \<Rightarrow> False)"

definition coordinator_init :: "('b, 'e, 'a, 'm, 'x, 'c, 'ph, 'err) behavior \<Rightarrow> 'b shutdown_coordinator
    \<Rightarrow> 'b shutdown_coordinator
       \<times> (('err, 'd, creation_id shutdown_plan) coordinator_error + ('x, 'c, 'ph) coordinator_actions)" where
  "coordinator_init B s = (case initialize B (coordinator_inner s) of
      (b, Inl err) \<Rightarrow> (s\<lparr>coordinator_inner := b\<rparr>, Inl (CoordinatorInner err))
    | (b, Inr a) \<Rightarrow> (s\<lparr>coordinator_inner := b\<rparr>, Inr (coordinator_wrap a)))"

definition coordinator_transition :: "('b, 'e, 'a, 'm, 'x, 'c, 'ph, 'err) behavior \<Rightarrow> 'b shutdown_coordinator
    \<Rightarrow> ('e, creation_id shutdown_plan, 'd) coordinator_event
    \<Rightarrow> 'b shutdown_coordinator
       \<times> (('err, 'd, creation_id shutdown_plan) coordinator_error + ('x, 'c, 'ph) coordinator_actions)" where
  "coordinator_transition B s event = (case event of
      CoordinatorPlan plan \<Rightarrow> (case install_plan (coordinator_state s) plan of
          (st, Inl p) \<Rightarrow> (s\<lparr>coordinator_state := st\<rparr>, Inl (PlanAlreadyInstalled p))
        | (st, Inr mv) \<Rightarrow> (s\<lparr>coordinator_state := st\<rparr>, Inr (move_actions (b_sends B) mv)))
    | CoordinatorRequested \<Rightarrow>
        (let (st, mv) = request_shutdown (coordinator_state s)
         in (s\<lparr>coordinator_state := st\<rparr>, Inr (move_actions (b_sends B) mv)))
    | CoordinatorChildStopped stopped \<Rightarrow>
        (if \<not> awaits_child (coordinator_state s) (stopped_child stopped)
         then (s, Inl (UnexpectedChildStopped stopped))
         else let (st, mv) = child_has_stopped (coordinator_state s) (stopped_child stopped)
              in (s\<lparr>coordinator_state := st\<rparr>, Inr (move_actions (b_sends B) mv)))
    | CoordinatorChildRejected rejected \<Rightarrow>
        (if awaits_child (coordinator_state s) (rejected_child rejected)
         then (s, Inl (ChildRejected (rejected_child rejected) (rejected_reason rejected)))
         else (s, Inl (UnexpectedChildRejection (rejected_child rejected) (rejected_reason rejected))))
    | CoordinatorBehavior inner \<Rightarrow> (case delegate_transition B (coordinator_inner s) inner of
          (b, Inl err) \<Rightarrow> (s\<lparr>coordinator_inner := b\<rparr>, Inl (CoordinatorInner err))
        | (b, Inr a) \<Rightarrow> (s\<lparr>coordinator_inner := b\<rparr>, Inr (coordinator_wrap a))))"

subsection \<open>Children of several types\<close>

text \<open>
  \<^verbatim>\<open>ShutdownChoice\<close>: a target is one child of the head type or a target among the others. Every target
  names the creation it stops; \<open>creation\<close> is \<^verbatim>\<open>Selection::creation\<close>.
\<close>

datatype 't shutdown_choice = ShutdownTarget creation_id | ShutdownOther 't

fun choice_creation :: "('t \<Rightarrow> creation_id) \<Rightarrow> 't shutdown_choice \<Rightarrow> creation_id" where
  "choice_creation creation (ShutdownTarget c) = c"
| "choice_creation creation (ShutdownOther t) = creation t"

fun choice_children :: "('t \<Rightarrow> creation_id) \<Rightarrow> creation_id list \<Rightarrow> 't list \<Rightarrow> creation_id + creation_id list" where
  "choice_children creation seen [] = Inr seen"
| "choice_children creation seen (t # ts) =
     (if creation t \<in> set seen then Inl (creation t) else choice_children creation (seen @ [creation t]) ts)"

fun choice_phases :: "('t \<Rightarrow> creation_id) \<Rightarrow> nat \<Rightarrow> creation_id list \<Rightarrow> 't list list \<Rightarrow> creation_id shutdown_plan_error option" where
  "choice_phases creation phase seen [] = None"
| "choice_phases creation phase seen (ts # rest) =
     (if ts = [] then Some (EmptyPhase phase)
      else case choice_children creation seen ts of
             Inl c \<Rightarrow> Some (PlanDuplicateChild c)
           | Inr seen' \<Rightarrow> choice_phases creation (Suc phase) seen' rest)"

definition heterogeneous_plan_new :: "('t \<Rightarrow> creation_id) \<Rightarrow> 't list list
    \<Rightarrow> creation_id shutdown_plan_error + 't shutdown_plan" where
  "heterogeneous_plan_new creation phases =
     (case choice_phases creation 0 [] phases of Some e \<Rightarrow> Inl e | None \<Rightarrow> Inr phases)"

type_synonym ('t, 'x, 'c, 'ph) heterogeneous_actions = "(('t list, 'x) send_layer, 'c, 'ph) actions"

definition h_sends :: "'x send_effects \<Rightarrow> ('t list, 'x) send_layer send_effects" where
  [core_defs]: "h_sends S = layer_sends vec_sends S"

definition h_wrap :: "('x, 'c, 'ph) actions \<Rightarrow> ('t, 'x, 'c, 'ph) heterogeneous_actions" where
  "h_wrap a = map_sends (\<lambda>inner. \<lparr>owned_sends = [], inner_sends = inner\<rparr>) a"

definition h_phase_actions :: "'x send_effects \<Rightarrow> 't shutdown_plan \<Rightarrow> nat \<Rightarrow> ('t, 'x, 'c, 'ph) heterogeneous_actions" where
  "h_phase_actions S plan phase = send_actions \<lparr>owned_sends = plan ! phase, inner_sends = empty_sends S\<rparr>"

definition phase_creations :: "('t \<Rightarrow> creation_id) \<Rightarrow> 't shutdown_plan \<Rightarrow> nat \<Rightarrow> creation_id list" where
  "phase_creations creation plan phase = map creation (plan ! phase)"

definition h_new :: "'b \<Rightarrow> 't shutdown_plan \<Rightarrow> ('b, 't shutdown_plan) coordinator" where
  "h_new b plan = \<lparr>coordinator_inner = b, coordinator_state = Ready plan\<rparr>"

definition h_awaiting_plan :: "'b \<Rightarrow> ('b, 't shutdown_plan) coordinator" where
  "h_awaiting_plan b = \<lparr>coordinator_inner = b, coordinator_state = AwaitingPlan\<rparr>"

type_synonym 't h_state = "('t shutdown_plan, creation_id) shutdown_state"

definition h_start_plan :: "('t \<Rightarrow> creation_id) \<Rightarrow> 't shutdown_plan \<Rightarrow> 't h_state \<times> 't shutdown_plan shutdown_move" where
  "h_start_plan creation plan =
     (if plan = [] then (ShutdownCompleted, MoveStop)
      else (Stopping plan 0 (phase_creations creation plan 0), StartPhase plan 0))"

definition h_install_plan :: "('t \<Rightarrow> creation_id) \<Rightarrow> 't h_state \<Rightarrow> 't shutdown_plan
    \<Rightarrow> 't h_state \<times> ('t shutdown_plan + 't shutdown_plan shutdown_move)" where
  "h_install_plan creation st plan = (case st of
      AwaitingPlan \<Rightarrow> (Ready plan, Inr MoveNone)
    | AwaitingPlanAfterShutdown \<Rightarrow> apsnd Inr (h_start_plan creation plan)
    | _ \<Rightarrow> (st, Inl plan))"

definition h_request_shutdown :: "('t \<Rightarrow> creation_id) \<Rightarrow> 't h_state \<Rightarrow> 't h_state \<times> 't shutdown_plan shutdown_move" where
  "h_request_shutdown creation st = (case st of
      AwaitingPlan \<Rightarrow> (AwaitingPlanAfterShutdown, MoveNone)
    | Ready plan \<Rightarrow> h_start_plan creation plan
    | _ \<Rightarrow> (st, MoveNone))"

definition h_child_stopped :: "('t \<Rightarrow> creation_id) \<Rightarrow> 't h_state \<Rightarrow> creation_id \<Rightarrow> 't h_state \<times> 't shutdown_plan shutdown_move" where
  "h_child_stopped creation st child = (case st of
      Stopping plan phase awaiting \<Rightarrow> (case position (\<lambda>candidate. candidate = child) awaiting of
          None \<Rightarrow> (st, MoveNone)
        | Some p \<Rightarrow>
            (let awaiting = remove_at p awaiting
             in if awaiting \<noteq> [] then (Stopping plan phase awaiting, MoveNone)
                else if phase + 1 = length plan then (ShutdownCompleted, MoveStop)
                else (Stopping plan (phase + 1) (phase_creations creation plan (phase + 1)), StartPhase plan (phase + 1))))
    | _ \<Rightarrow> (st, MoveNone))"

fun h_move_actions :: "'x send_effects \<Rightarrow> 't shutdown_plan shutdown_move \<Rightarrow> ('t, 'x, 'c, 'ph) heterogeneous_actions" where
  "h_move_actions S MoveNone = cont (h_sends S)"
| "h_move_actions S MoveStop = stop_actions (h_sends S)"
| "h_move_actions S (StartPhase plan phase) = h_phase_actions S plan phase"

definition h_init :: "('b, 'e, 'a, 'm, 'x, 'c, 'ph, 'err) behavior \<Rightarrow> ('b, 't shutdown_plan) coordinator
    \<Rightarrow> ('b, 't shutdown_plan) coordinator
       \<times> (('err, 'd, 't shutdown_plan) coordinator_error + ('t, 'x, 'c, 'ph) heterogeneous_actions)" where
  "h_init B s = (case initialize B (coordinator_inner s) of
      (b, Inl err) \<Rightarrow> (s\<lparr>coordinator_inner := b\<rparr>, Inl (CoordinatorInner err))
    | (b, Inr a) \<Rightarrow> (s\<lparr>coordinator_inner := b\<rparr>, Inr (h_wrap a)))"

definition h_transition :: "('t \<Rightarrow> creation_id) \<Rightarrow> ('b, 'e, 'a, 'm, 'x, 'c, 'ph, 'err) behavior
    \<Rightarrow> ('b, 't shutdown_plan) coordinator \<Rightarrow> ('e, 't shutdown_plan, 'd) coordinator_event
    \<Rightarrow> ('b, 't shutdown_plan) coordinator
       \<times> (('err, 'd, 't shutdown_plan) coordinator_error + ('t, 'x, 'c, 'ph) heterogeneous_actions)" where
  "h_transition creation B s event = (case event of
      CoordinatorPlan plan \<Rightarrow> (case h_install_plan creation (coordinator_state s) plan of
          (st, Inl p) \<Rightarrow> (s\<lparr>coordinator_state := st\<rparr>, Inl (PlanAlreadyInstalled p))
        | (st, Inr mv) \<Rightarrow> (s\<lparr>coordinator_state := st\<rparr>, Inr (h_move_actions (b_sends B) mv)))
    | CoordinatorRequested \<Rightarrow>
        (let (st, mv) = h_request_shutdown creation (coordinator_state s)
         in (s\<lparr>coordinator_state := st\<rparr>, Inr (h_move_actions (b_sends B) mv)))
    | CoordinatorChildStopped stopped \<Rightarrow>
        (if \<not> awaits_child (coordinator_state s) (stopped_child stopped)
         then (s, Inl (UnexpectedChildStopped stopped))
         else let (st, mv) = h_child_stopped creation (coordinator_state s) (stopped_child stopped)
              in (s\<lparr>coordinator_state := st\<rparr>, Inr (h_move_actions (b_sends B) mv)))
    | CoordinatorChildRejected rejected \<Rightarrow>
        (if awaits_child (coordinator_state s) (rejected_child rejected)
         then (s, Inl (ChildRejected (rejected_child rejected) (rejected_reason rejected)))
         else (s, Inl (UnexpectedChildRejection (rejected_child rejected) (rejected_reason rejected))))
    | CoordinatorBehavior inner \<Rightarrow> (case delegate_transition B (coordinator_inner s) inner of
          (b, Inl err) \<Rightarrow> (s\<lparr>coordinator_inner := b\<rparr>, Inl (CoordinatorInner err))
        | (b, Inr a) \<Rightarrow> (s\<lparr>coordinator_inner := b\<rparr>, Inr (h_wrap a))))"

section \<open>Wrappers that stop on a request\<close>

datatype shutdown_requested = ShutdownRequested

definition shutdown_wrap :: "('x, 'c, 'ph) actions \<Rightarrow> ((unit, 'x) send_layer, 'c, 'ph) actions" where
  "shutdown_wrap a = map_sends (\<lambda>inner. \<lparr>owned_sends = (), inner_sends = inner\<rparr>) a"

definition shutdown_init :: "('b, 'e, 'a, 'm, 'x, 'c, 'ph, 'err) behavior \<Rightarrow> 'b
    \<Rightarrow> 'b \<times> ('err + ((unit, 'x) send_layer, 'c, 'ph) actions)" where
  "shutdown_init B b = (case initialize B b of (b', Inl err) \<Rightarrow> (b', Inl err) | (b', Inr a) \<Rightarrow> (b', Inr (shutdown_wrap a)))"

definition shutdown_transition :: "('b \<Rightarrow> shutdown_requested \<Rightarrow> 'b \<times> ((unit, 'x) send_layer, 'c, 'ph) actions)
    \<Rightarrow> ('b, 'e, 'a, 'm, 'x, 'c, 'ph, 'err) behavior \<Rightarrow> 'b \<Rightarrow> (shutdown_requested, 'e) event_layer
    \<Rightarrow> 'b \<times> ('err + ((unit, 'x) send_layer, 'c, 'ph) actions)" where
  "shutdown_transition on_shutdown B b event = (case event of
      Inner e \<Rightarrow> (case delegate_transition B b e of
          (b', Inl err) \<Rightarrow> (b', Inl err) | (b', Inr a) \<Rightarrow> (b', Inr (shutdown_wrap a)))
    | Owned request \<Rightarrow> (let (b', a) = on_shutdown b request in (b', Inr a)))"

definition stop_on_shutdown :: "('b, 'e, 'a, 'm, 'x, 'c, 'ph, 'err) behavior
    \<Rightarrow> ('b, (shutdown_requested, 'e) event_layer, 'a, 'm, (unit, 'x) send_layer, 'c, 'ph, 'err) behavior" where
  "stop_on_shutdown B =
     \<lparr>b_init = shutdown_init B,
      b_transition = shutdown_transition (\<lambda>b request. (b, stop_actions (layer_sends no_sends (b_sends B)))) B,
      b_sends = layer_sends no_sends (b_sends B), b_user = layer_user (b_user B)\<rparr>"

definition finalize_on_shutdown :: "('b \<Rightarrow> shutdown_requested \<Rightarrow> 'b \<times> ('x, 'c, 'ph) actions)
    \<Rightarrow> ('b, 'e, 'a, 'm, 'x, 'c, 'ph, 'err) behavior
    \<Rightarrow> ('b, (shutdown_requested, 'e) event_layer, 'a, 'm, (unit, 'x) send_layer, 'c, 'ph, 'err) behavior" where
  "finalize_on_shutdown finalize B =
     \<lparr>b_init = shutdown_init B,
      b_transition = shutdown_transition (\<lambda>b request. let (b', a) = finalize b request
         in (b', shutdown_wrap (map_become (\<lambda>_. Stop Stopped) a))) B,
      b_sends = layer_sends no_sends (b_sends B), b_user = layer_user (b_user B)\<rparr>"

section \<open>Plans and trees are correct\<close>

lemma plan_children_Inr_iff:
  "plan_children seen cs = Inr seen' \<longleftrightarrow> seen' = seen @ cs \<and> distinct cs \<and> set seen \<inter> set cs = {}"
  by (induction seen cs arbitrary: seen' rule: plan_children.induct) auto

lemma plan_phases_None_iff:
  "plan_phases phase seen phases = None
     \<longleftrightarrow> [] \<notin> set phases \<and> distinct (concat phases) \<and> set seen \<inter> set (concat phases) = {}"
proof (induction phases arbitrary: phase seen)
  case (Cons cs rest)
  show ?case
  proof (cases "plan_children seen cs")
    case (Inl c)
    then have "\<not> (distinct cs \<and> set seen \<inter> set cs = {})" using plan_children_Inr_iff [of seen cs] by auto
    with Inl show ?thesis by auto
  next
    case (Inr seen')
    then have "seen' = seen @ cs \<and> distinct cs \<and> set seen \<inter> set cs = {}" by (simp add: plan_children_Inr_iff)
    with Inr Cons.IH [of "Suc phase" "seen @ cs"] show ?thesis by auto
  qed
qed simp

lemma shutdown_plan_new_iff:
  "shutdown_plan_new phases = Inr plan \<longleftrightarrow> plan = phases \<and> [] \<notin> set phases \<and> distinct (concat phases)"
  using plan_phases_None_iff [of 0 "[]" phases] by (auto simp: shutdown_plan_new_def split: option.splits)

lemma tree_duplicate_None_iff:
  "tree_duplicate unique nodes = None \<longleftrightarrow> distinct nodes \<and> set unique \<inter> set nodes = {}"
  by (induction unique nodes rule: tree_duplicate.induct) auto

lemma tree_unknown_None_iff:
  "tree_unknown nodes edges = None \<longleftrightarrow> set edges \<subseteq> set nodes \<times> set nodes"
  by (induction nodes edges rule: tree_unknown.induct) auto

lemma set_tree_phase:
  "b \<in> set (tree_phase edges remaining) \<longleftrightarrow>
     b \<in> set remaining \<and> (\<forall>a. (a, b) \<in> set edges \<longrightarrow> a \<notin> set remaining)"
  by (auto simp: tree_phase_def list_ex_iff)

text \<open>The phase a child is stopped in, and the layering of the remaining children.\<close>

definition phase_index :: "'n shutdown_plan \<Rightarrow> 'n \<Rightarrow> nat" where
  "phase_index plan n = length (takeWhile (\<lambda>phase. n \<notin> set phase) plan)"

lemma phase_index_Cons [simp]:
  "phase_index (p # ps) n = (if n \<in> set p then 0 else Suc (phase_index ps n))"
  by (simp add: phase_index_def)

definition layers :: "('n \<times> 'n) list \<Rightarrow> 'n list \<Rightarrow> 'n shutdown_plan \<Rightarrow> bool" where
  "layers edges remaining ps \<longleftrightarrow> [] \<notin> set ps \<and> set (concat ps) = set remaining
     \<and> (distinct remaining \<longrightarrow> distinct (concat ps))
     \<and> list_all (\<lambda>(a, b). a \<in> set remaining \<and> b \<in> set remaining \<longrightarrow> phase_index ps a < phase_index ps b) edges"

lemma layers_Cons:
  assumes "phase = tree_phase edges remaining" and "phase \<noteq> []"
    and "layers edges (filter (\<lambda>node. node \<notin> set phase) remaining) ps"
  shows "layers edges remaining (phase # ps)"
proof -
  let ?rest = "filter (\<lambda>node. node \<notin> set phase) remaining"
  have sub: "set phase \<subseteq> set remaining" using assms(1) tree_phase_subset by fastforce
  have below: "phase_index (phase # ps) a < phase_index (phase # ps) b"
    if "(a, b) \<in> set edges" "a \<in> set remaining" "b \<in> set remaining" for a b
  proof -
    have "b \<notin> set phase" using that assms(1) by (auto simp: set_tree_phase)
    with that assms(3) show ?thesis by (auto simp: layers_def list_all_iff)
  qed
  have "distinct (concat (phase # ps))" if "distinct remaining"
  proof -
    have "distinct phase" using that by (simp add: assms(1) tree_phase_def)
    moreover have "distinct (concat ps)" "set (concat ps) = set ?rest"
      using that assms(3) by (simp_all add: layers_def)
    ultimately show ?thesis by auto
  qed
  moreover have "set (concat (phase # ps)) = set remaining" using assms(3) sub by (auto simp: layers_def)
  moreover have "[] \<notin> set (phase # ps)" using assms(2, 3) by (simp add: layers_def)
  ultimately show ?thesis using below unfolding layers_def list_all_iff by blast
qed

lemma tree_phases_layers:
  "tree_phases edges remaining phases = Inr plan \<Longrightarrow> \<exists>ps. plan = phases @ ps \<and> layers edges remaining ps"
proof (induction edges remaining phases arbitrary: plan rule: tree_phases.induct)
  case (1 edges remaining phases)
  show ?case
  proof (cases "remaining = []")
    case True
    with "1.prems" have "plan = phases" by (simp add: tree_phases.simps)
    with True show ?thesis by (simp add: layers_def list_all_iff split_def)
  next
    case False
    let ?phase = "tree_phase edges remaining"
    from False "1.prems" have ne: "?phase \<noteq> []"
      by (auto simp: tree_phases.simps [of edges remaining] Let_def split: if_splits)
    with False "1.prems" "1.IH" [OF False refl ne]
    obtain ps where "plan = (phases @ [?phase]) @ ps"
      "layers edges (filter (\<lambda>node. node \<notin> set ?phase) remaining) ps"
      by (auto simp: tree_phases.simps [of edges remaining] Let_def)
    with layers_Cons [OF refl ne] show ?thesis by auto
  qed
qed

lemma tree_phases_acyclic:
  "acyclic (set edges) \<Longrightarrow> \<exists>plan. tree_phases edges remaining phases = Inr plan"
proof (induction edges remaining phases rule: tree_phases.induct)
  case (1 edges remaining phases)
  show ?case
  proof (cases "remaining = []")
    case False
    have "wf (set edges)" using "1.prems" by (simp add: finite_acyclic_wf)
    then obtain z where "z \<in> set remaining" "\<And>y. (y, z) \<in> set edges \<Longrightarrow> y \<notin> set remaining"
      using False by (metis wf_eq_minimal ex_in_conv set_empty)
    then have "z \<in> set (tree_phase edges remaining)" by (auto simp: set_tree_phase)
    then have ne: "tree_phase edges remaining \<noteq> []" by auto
    from "1.IH" [OF False refl ne "1.prems"] False ne show ?thesis
      by (simp add: tree_phases.simps [of edges remaining] Let_def)
  qed (simp add: tree_phases.simps)
qed

lemma layers_acyclic:
  assumes "layers edges nodes plan" and "set edges \<subseteq> set nodes \<times> set nodes"
  shows "acyclic (set edges)"
proof -
  have "set edges \<subseteq> measure (phase_index plan)"
    using assms by (fastforce simp: layers_def list_all_iff)
  then have "wf (set edges)" by (rule wf_subset [OF wf_measure])
  then show ?thesis by (rule wf_acyclic)
qed

text \<open>
  C12: The layering of a shutdown tree always terminates, and it succeeds exactly for declared,
  pairwise different children whose dependencies form no cycle. The plan it returns is a valid plan
  of exactly those children, and every dependent is stopped in a strictly earlier phase than what it
  depends on.
\<close>

theorem shutdown_tree_layers:
  "((\<exists>plan. shutdown_tree_new nodes edges = Inr plan)
      \<longleftrightarrow> distinct nodes \<and> set edges \<subseteq> set nodes \<times> set nodes \<and> acyclic (set edges))
   \<and> (\<forall>plan. shutdown_tree_new nodes edges = Inr plan \<longrightarrow>
        shutdown_plan_new plan = Inr plan \<and> set (concat plan) = set nodes
      \<and> list_all (\<lambda>(dependent, dependency). phase_index plan dependent < phase_index plan dependency) edges)"
proof -
  have ok: "distinct nodes \<and> set edges \<subseteq> set nodes \<times> set nodes \<and> layers edges nodes plan"
    if "shutdown_tree_new nodes edges = Inr plan" for plan
    using that tree_duplicate_None_iff [of "[]" nodes] tree_unknown_None_iff [of nodes edges]
      tree_phases_layers [of edges nodes "[]" plan]
    by (auto simp: shutdown_tree_new_def split: option.splits)
  have "\<exists>plan. shutdown_tree_new nodes edges = Inr plan"
    if "distinct nodes" "set edges \<subseteq> set nodes \<times> set nodes" "acyclic (set edges)"
    using that tree_phases_acyclic [of edges nodes "[]"] tree_duplicate_None_iff [of "[]" nodes]
      tree_unknown_None_iff [of nodes edges]
    by (auto simp: shutdown_tree_new_def)
  moreover have "shutdown_plan_new plan = Inr plan \<and> set (concat plan) = set nodes
      \<and> list_all (\<lambda>(a, b). phase_index plan a < phase_index plan b) edges"
    if "shutdown_tree_new nodes edges = Inr plan" for plan
    using ok [OF that] by (fastforce simp: shutdown_plan_new_iff layers_def list_all_iff)
  ultimately show ?thesis using ok layers_acyclic by blast
qed

theorem shutdown_tree_layers_witness:
  "shutdown_tree_new [1, 2, 3, 4] [(1, 2), (1, 3), (2, 4), (3, 4)] = Inr [[1], [2, 3], [4 :: nat]]
   \<and> list_all (\<lambda>(a, b). phase_index [[1], [2, 3], [4 :: nat]] a < phase_index [[1], [2, 3], [4 :: nat]] b)
       [(1, 2), (1, 3), (2, 4), (3, 4)]"
proof -
  have tree: "shutdown_tree_new [1, 2, 3, 4] [(1, 2), (1, 3), (2, 4), (3, 4)] = Inr [[1], [2, 3], [4 :: nat]]"
    by code_simp
  with shutdown_tree_layers [of "[1, 2, 3, 4 :: nat]" "[(1, 2), (1, 3), (2, 4), (3, 4)]"] show ?thesis by blast
qed

end
