(* ===== verification/Shutdown_Order.thy ===== *)
theory Shutdown_Order
  imports Shutdown Latch
begin

text \<open>
  What the shutdown coordinator promises over whole runs: phases are stopped in order and each is
  awaited before the next is requested, a run that reports every child completes, and the
  coordinator for children of several types behaves as the one for children of one type.
\<close>

section \<open>What a run requests and hears\<close>

datatype shutdown_fact = RequestedChild creation_id | ReportedChild creation_id

fun step_facts :: "('e, 'p, 'd) coordinator_event \<Rightarrow> ('err + ('x, 'c, 'ph) coordinator_actions) \<Rightarrow> shutdown_fact list" where
  "step_facts e (Inl err) = []"
| "step_facts e (Inr a) = (case e of CoordinatorChildStopped r \<Rightarrow> [ReportedChild (stopped_child r)] | _ \<Rightarrow> [])
     @ map (\<lambda>c. RequestedChild (shutdown_target c)) (owned_sends (sends a))"

fun requested_children :: "shutdown_fact list \<Rightarrow> creation_id list" where
  "requested_children [] = []"
| "requested_children (RequestedChild c # h) = c # requested_children h"
| "requested_children (ReportedChild c # h) = requested_children h"

fun reported_children :: "shutdown_fact list \<Rightarrow> creation_id list" where
  "reported_children [] = []"
| "reported_children (RequestedChild c # h) = reported_children h"
| "reported_children (ReportedChild c # h) = c # reported_children h"

text \<open>Every child is requested only after all children of the earlier phases were reported stopped.\<close>

fun phases_respected :: "creation_id shutdown_plan \<Rightarrow> creation_id list \<Rightarrow> shutdown_fact list \<Rightarrow> bool" where
  "phases_respected P heard [] \<longleftrightarrow> True"
| "phases_respected P heard (ReportedChild c # h) \<longleftrightarrow> phases_respected P (c # heard) h"
| "phases_respected P heard (RequestedChild c # h) \<longleftrightarrow>
     list_all (\<lambda>d. d \<in> set heard) (concat (take (phase_index P c) P)) \<and> phases_respected P heard h"

lemma requested_children_append [simp]:
  "requested_children (h @ h') = requested_children h @ requested_children h'"
  by (induction h rule: requested_children.induct) auto

lemma reported_children_append [simp]:
  "reported_children (h @ h') = reported_children h @ reported_children h'"
  by (induction h rule: reported_children.induct) auto

lemma phases_respected_append [simp]:
  "phases_respected P heard (h @ h')
     \<longleftrightarrow> phases_respected P heard h \<and> phases_respected P (rev (reported_children h) @ heard) h'"
  by (induction P heard h rule: phases_respected.induct) auto

lemma children_of_requests [simp]:
  "requested_children (map RequestedChild cs) = cs"
  "reported_children (map RequestedChild cs) = []"
  by (induction cs) auto

lemma phases_respected_requests [simp]:
  "phases_respected P heard (map RequestedChild cs)
     \<longleftrightarrow> (\<forall>c \<in> set cs. set (concat (take (phase_index P c) P)) \<subseteq> set heard)"
  by (induction cs) (auto simp: list_all_iff)

section \<open>Valid plans\<close>

abbreviation valid_plan :: "creation_id shutdown_plan \<Rightarrow> bool" where
  "valid_plan P \<equiv> shutdown_plan_new P = Inr P"

lemma phase_index_nth:
  assumes "distinct (concat P)" and "k < length P" and "c \<in> set (P ! k)"
  shows "phase_index P c = k"
  using assms
proof (induction P arbitrary: k)
  case (Cons p ps)
  show ?case
  proof (cases k)
    case (Suc j)
    with Cons.prems have "c \<in> set (concat ps)" by auto
    with Cons.prems(1) have "c \<notin> set p" by auto
    with Cons.prems Suc Cons.IH [of j] show ?thesis by auto
  qed (use Cons.prems in simp)
qed simp

lemma earlier_phases_disjoint:
  assumes "distinct (concat P)" and "k < length P"
  shows "set (concat (take k P)) \<inter> set (P ! k) = {}"
proof -
  from assms(2) have "concat P = concat (take k P) @ P ! k @ concat (drop (Suc k) P)"
    by (metis concat.simps(2) concat_append id_take_nth_drop)
  with assms(1) show ?thesis by (metis disjoint_iff distinct_append set_append UnCI)
qed

text \<open>A latch behind a coordinator of two phases.\<close>

abbreviation coordinated_latch ::
    "(nat latch_state, (nat, nat latch_message) user, nat, nat latch_message, (nat, latch_released) delivery list, unit, unit, unit) behavior" where
  "coordinated_latch \<equiv> latch_behavior"

abbreviation two_phases :: "creation_id shutdown_plan" where
  "two_phases \<equiv> [[CreationId 1, CreationId 2], [CreationId 3]]"

abbreviation stopped_report :: "u64 \<Rightarrow> nat child_stopped" where
  "stopped_report n \<equiv> \<lparr>stopped_child = CreationId n, stopped_outcome = Inr ExitNormal, stopped_at = 0\<rparr>"

abbreviation shutdown_events :: "((nat, nat latch_message) user, creation_id shutdown_plan, nat) coordinator_event list" where
  "shutdown_events \<equiv> [CoordinatorRequested, CoordinatorChildStopped (stopped_report 2)]"

section \<open>The order of shutdown\<close>

definition shutdown_traced :: "creation_id shutdown_plan \<Rightarrow> shutdown_fact list \<Rightarrow> 'b shutdown_coordinator \<Rightarrow> bool" where
  "shutdown_traced P h s \<longleftrightarrow> phases_respected P [] h \<and> (case coordinator_state s of
      Ready plan \<Rightarrow> plan = P \<and> h = []
    | Stopping plan phase awaiting \<Rightarrow> plan = P \<and> phase < length P \<and> awaiting \<noteq> []
        \<and> set awaiting \<subseteq> set (P ! phase)
        \<and> requested_children h = concat (take (Suc phase) P)
        \<and> mset (reported_children h) + mset awaiting = mset (concat (take (Suc phase) P))
    | ShutdownCompleted \<Rightarrow> requested_children h = concat P
        \<and> mset (reported_children h) = mset (concat P)
    | _ \<Rightarrow> False)"

lemma step_facts_quiet [simp]:
  "step_facts (CoordinatorBehavior i) (Inr (coordinator_wrap a)) = []"
  "step_facts CoordinatorRequested (Inr (move_actions S MoveNone)) = []"
  "step_facts CoordinatorRequested (Inr (move_actions S MoveStop)) = []"
  "step_facts (CoordinatorPlan q) (Inr (move_actions S MoveNone)) = []"
  "step_facts (CoordinatorChildStopped r) (Inr (move_actions S MoveNone)) = [ReportedChild (stopped_child r)]"
  "step_facts (CoordinatorChildStopped r) (Inr (move_actions S MoveStop)) = [ReportedChild (stopped_child r)]"
  by (simp_all add: coordinator_wrap_def core_defs layer_sends_def vec_sends_def)

lemma step_facts_phase [simp]:
  "step_facts CoordinatorRequested (Inr (move_actions S (StartPhase P k))) = map RequestedChild (P ! k)"
  "step_facts (CoordinatorChildStopped r) (Inr (move_actions S (StartPhase P k)))
     = ReportedChild (stopped_child r) # map RequestedChild (P ! k)"
  by (simp_all add: phase_actions_def core_defs comp_def)

declare step_facts.simps(2) [simp del] move_actions.simps [simp del]

text \<open>A phase starts when every earlier child is reported.\<close>

lemma traced_phase:
  assumes "valid_plan P" and "k < length P" and "phases_respected P [] h"
    and "requested_children h = concat (take k P)" and "mset (reported_children h) = mset (concat (take k P))"
  shows "shutdown_traced P (h @ map RequestedChild (P ! k)) (s\<lparr>coordinator_state := Stopping P k (P ! k)\<rparr>)"
proof -
  from assms(1) have P: "[] \<notin> set P" "distinct (concat P)" by (simp_all add: shutdown_plan_new_iff)
  have "set (concat (take k P)) \<subseteq> set (reported_children h)"
    using assms(5) by (metis order_refl set_mset_mset)
  then have "\<forall>c \<in> set (P ! k). set (concat (take (phase_index P c) P)) \<subseteq> set (reported_children h)"
    using phase_index_nth [OF P(2) assms(2)] by auto
  moreover have "P ! k \<noteq> []" using P(1) assms(2) by (metis nth_mem)
  ultimately show ?thesis using assms by (simp add: shutdown_traced_def take_Suc_conv_app_nth)
qed

lemma traced_report:
  assumes "valid_plan P" and "shutdown_traced P h s" and "awaits_child (coordinator_state s) (stopped_child r)"
  defines "res \<equiv> child_has_stopped (coordinator_state s) (stopped_child r)"
  shows "shutdown_traced P (h @ step_facts (CoordinatorChildStopped r) (Inr (move_actions S (snd res))))
    (s\<lparr>coordinator_state := fst res\<rparr>)"
proof -
  let ?c = "stopped_child r" and ?h = "h @ [ReportedChild (stopped_child r)]"
  from assms(3) obtain plan k awaiting where st: "coordinator_state s = Stopping plan k awaiting" and c: "?c \<in> set awaiting"
    by (auto simp: awaits_child_def split: shutdown_state.splits)
  with assms(2) have tr: "plan = P" "k < length P" "set awaiting \<subseteq> set (P ! k)" "phases_respected P [] ?h"
      "requested_children ?h = concat (take (Suc k) P)"
      "mset (reported_children h) + mset awaiting = mset (concat (take (Suc k) P))"
    by (simp_all add: shutdown_traced_def)
  from c obtain i where i: "position (\<lambda>d. d = ?c) awaiting = Some i"
    using position_SomeI [of ?c awaiting "\<lambda>d. d = ?c"] by blast
  let ?rest = "remove_at i awaiting"
  have "mset awaiting = add_mset ?c (mset ?rest)"
    using mset_remove_at [of i awaiting] position_SomeD [OF i] by simp
  with tr(6) have heard: "mset (reported_children ?h) + mset ?rest = mset (concat (take (Suc k) P))" by simp
  have sub: "set ?rest \<subseteq> set (P ! k)" using set_remove_at_subset tr(3) by fastforce
  show ?thesis
  proof (cases "?rest = []")
    case False
    with st i tr heard sub show ?thesis by (simp add: res_def child_has_stopped_def shutdown_traced_def)
  next
    case True
    show ?thesis
    proof (cases "Suc k = length P")
      case last: True
      with True st i tr heard show ?thesis by (simp add: res_def child_has_stopped_def shutdown_traced_def)
    next
      case False
      with tr(2) have "Suc k < length P" by simp
      from traced_phase [OF assms(1) this tr(4, 5)] True heard False st i tr(1) show ?thesis
        by (simp add: res_def child_has_stopped_def)
    qed
  qed
qed

lemma shutdown_step_traced:
  assumes "valid_plan P" and "shutdown_traced P h s"
  shows "shutdown_traced P (h @ step_facts e (snd (coordinator_transition B s e))) (fst (coordinator_transition B s e))"
proof (cases e)
  case (CoordinatorBehavior i)
  obtain b out where "delegate_transition B (coordinator_inner s) i = (b, out)" by fastforce
  with assms(2) CoordinatorBehavior show ?thesis
    by (cases out) (auto simp: coordinator_transition_def shutdown_traced_def)
next
  case (CoordinatorPlan q)
  with assms(2) show ?thesis
    by (auto simp: coordinator_transition_def install_plan_def shutdown_traced_def split: shutdown_state.splits)
next
  case CoordinatorRequested
  show ?thesis
  proof (cases "coordinator_state s = Ready P \<and> P \<noteq> []")
    case True
    with assms(2) have "h = []" by (simp add: shutdown_traced_def)
    with True CoordinatorRequested traced_phase [OF assms(1), of 0 "[]" s] show ?thesis
      by (simp add: coordinator_transition_def request_shutdown_def start_plan_def)
  next
    case False
    with assms(2) CoordinatorRequested show ?thesis
      by (auto simp: coordinator_transition_def request_shutdown_def start_plan_def shutdown_traced_def
          split: shutdown_state.splits)
  qed
next
  case (CoordinatorChildStopped r)
  with assms(2) traced_report [OF assms, of r "b_sends B"] show ?thesis
    by (auto simp: coordinator_transition_def split_beta)
next
  case (CoordinatorChildRejected r)
  with assms(2) show ?thesis by (simp add: coordinator_transition_def)
qed

interpretation shutdown: traced_fold "coordinator_transition B" "\<lambda>h s. valid_plan P \<and> shutdown_traced P h s" step_facts
  by unfold_locales (simp add: shutdown_step_traced)

text \<open>
  C9: A coordinator with a valid plan asks the children to stop phase by phase: over any run, what
  it requested is the concatenation of an initial part of the plan's phases, each child once; a
  child is requested only after every child of every earlier phase was reported stopped; only
  requested children are accepted as stopped, each once; and the shutdown is complete exactly when
  it was requested and every child of the plan was reported.
\<close>

theorem shutdown_follows_plan:
  fixes B :: "('b, 'e, 'a, 'm, 'x, 'c, 'ph, 'err) behavior" and b :: 'b
    and es :: "('e, creation_id shutdown_plan, 'd) coordinator_event list"
  assumes "shutdown_plan_new P = Inr P"
  defines "final \<equiv> run_state (coordinator_transition B) (coordinator_new b P) es"
    and "facts \<equiv> concat (map2 step_facts es (run_outputs (coordinator_transition B) (coordinator_new b P) es))"
  shows "(\<exists>m \<le> length P. requested_children facts = concat (take m P))
    \<and> phases_respected P [] facts
    \<and> mset (reported_children facts) \<subseteq># mset (requested_children facts)
    \<and> (coordinator_state final = ShutdownCompleted \<longrightarrow> mset (reported_children facts) = mset (concat P))
    \<and> (coordinator_state final \<noteq> ShutdownCompleted \<longrightarrow>
         coordinator_state final = Ready P \<or> mset (reported_children facts) \<subset># mset (concat P))"
proof -
  have "valid_plan P \<and> shutdown_traced P [] (coordinator_new b P)"
    using assms(1) by (simp add: shutdown_traced_def coordinator_new_def)
  from shutdown.run_trace [OF this, where B = B and es = es]
  have tr: "shutdown_traced P facts final" by (simp add: final_def facts_def)
  show ?thesis
  proof (cases "coordinator_state final")
    case (Stopping plan k awaiting)
    have part: "mset (concat (take (Suc k) P)) \<subseteq># mset (concat P)"
      by (metis append_take_drop_id concat_append mset_append mset_subset_eq_add_left)
    from tr Stopping have heard: "mset (reported_children facts) + mset awaiting = mset (concat (take (Suc k) P))"
      and "awaiting \<noteq> []" "requested_children facts = concat (take (Suc k) P)" "Suc k \<le> length P"
      by (auto simp: shutdown_traced_def)
    then have "mset (reported_children facts) \<subset># mset (concat (take (Suc k) P))"
      by (metis add.right_neutral add_left_cancel mset_subset_eq_add_left mset_zero_iff subset_mset.le_neq_trans)
    then have "mset (reported_children facts) \<subset># mset (concat P)" using part by (rule subset_mset.less_le_trans)
    moreover have "mset (reported_children facts) \<subseteq># mset (requested_children facts)"
      using \<open>mset (reported_children facts) \<subset># mset (concat (take (Suc k) P))\<close>
        \<open>requested_children facts = concat (take (Suc k) P)\<close> by simp
    ultimately show ?thesis
      using tr Stopping \<open>requested_children facts = _\<close> \<open>Suc k \<le> length P\<close> by (auto simp: shutdown_traced_def)
  next
    case (Ready plan)
    with tr have "plan = P" "facts = []" by (simp_all add: shutdown_traced_def)
    with Ready show ?thesis by (auto intro: exI [of _ 0])
  next
    case ShutdownCompleted
    with tr have done_facts: "requested_children facts = concat P" "mset (reported_children facts) = mset (concat P)"
      "phases_respected P [] facts" by (simp_all add: shutdown_traced_def)
    with ShutdownCompleted show ?thesis by (auto intro: exI [of _ "length P"])
  qed (use tr in \<open>simp_all add: shutdown_traced_def\<close>)
qed

theorem shutdown_follows_plan_witness:
  "phases_respected two_phases [] (concat (map2 step_facts shutdown_events
       (run_outputs (coordinator_transition coordinated_latch) (coordinator_new Released two_phases)
         shutdown_events)))"
proof -
  have "shutdown_plan_new two_phases = Inr two_phases" by (simp add: shutdown_plan_new_def)
  from shutdown_follows_plan [OF this, where B = coordinated_latch and b = Released and es = shutdown_events]
  show ?thesis by blast
qed

section \<open>A shutdown completes\<close>

text \<open>The reports of the awaited children, in any order, finish a phase.\<close>

definition after_phase :: "creation_id shutdown_plan \<Rightarrow> nat \<Rightarrow> (creation_id shutdown_plan, creation_id) shutdown_state" where
  "after_phase P k = (if Suc k = length P then ShutdownCompleted else Stopping P (Suc k) (P ! Suc k))"

definition phase_move :: "creation_id shutdown_plan \<Rightarrow> nat \<Rightarrow> creation_id shutdown_plan shutdown_move" where
  "phase_move P k = (if Suc k = length P then MoveStop else StartPhase P (Suc k))"

lemma report_step:
  assumes "stopped_child r \<in> set awaiting"
  shows "coordinator_transition B \<lparr>coordinator_inner = b, coordinator_state = Stopping P k awaiting\<rparr> (CoordinatorChildStopped r)
     = (let rest = remove1 (stopped_child r) awaiting
        in if rest = [] then (\<lparr>coordinator_inner = b, coordinator_state = after_phase P k\<rparr>, Inr (move_actions (b_sends B) (phase_move P k)))
           else (\<lparr>coordinator_inner = b, coordinator_state = Stopping P k rest\<rparr>, Inr (move_actions (b_sends B) MoveNone)))"
proof -
  obtain i where i: "position (\<lambda>d. d = stopped_child r) awaiting = Some i"
    using position_SomeI [OF assms, of "\<lambda>d. d = stopped_child r"] by blast
  with remove_at_position [OF i] assms show ?thesis
    by (simp add: coordinator_transition_def awaits_child_def child_has_stopped_def after_phase_def phase_move_def Let_def)
qed

lemma phase_completes:
  assumes "mset (map stopped_child rs) = mset awaiting" and "awaiting \<noteq> []"
  shows "\<exists>outs. run (coordinator_transition B) \<lparr>coordinator_inner = b, coordinator_state = Stopping P k awaiting\<rparr>
        (map CoordinatorChildStopped rs)
      = (\<lparr>coordinator_inner = b, coordinator_state = after_phase P k\<rparr>,
         map Inr (outs @ [move_actions (b_sends B) (phase_move P k)]))"
  using assms
proof (induction rs arbitrary: awaiting)
  case (Cons r rs)
  from Cons.prems(1) have r: "stopped_child r \<in> set awaiting"
    by (metis list.set_intros(1) list.simps(9) set_mset_mset)
  let ?rest = "remove1 (stopped_child r) awaiting"
  from Cons.prems(1) have rest: "mset (map stopped_child rs) = mset ?rest"
    by (metis add_mset_remove_trivial list.simps(9) mset.simps(2) mset_remove1)
  show ?case
  proof (cases "?rest = []")
    case True
    with rest have "rs = []" by simp
    with True r show ?thesis by (auto simp: report_step intro: exI [of _ "[]"])
  next
    case False
    from Cons.IH [OF rest False] obtain outs where
      "run (coordinator_transition B) \<lparr>coordinator_inner = b, coordinator_state = Stopping P k ?rest\<rparr> (map CoordinatorChildStopped rs)
        = (\<lparr>coordinator_inner = b, coordinator_state = after_phase P k\<rparr>,
           map Inr (outs @ [move_actions (b_sends B) (phase_move P k)]))" by blast
    with False r show ?thesis
      by (auto simp: report_step Let_def intro!: exI [of _ "move_actions (b_sends B) MoveNone # outs"])
  qed
qed simp

lemma phases_complete:
  assumes "list_all2 (\<lambda>q p. mset (map stopped_child q) = mset p) qs (drop k P)" and "k < length P" and "[] \<notin> set P"
  shows "\<exists>outs. run (coordinator_transition B) \<lparr>coordinator_inner = b, coordinator_state = Stopping P k (P ! k)\<rparr>
        (map CoordinatorChildStopped (concat qs))
      = (\<lparr>coordinator_inner = b, coordinator_state = ShutdownCompleted\<rparr>,
         map Inr (outs @ [move_actions (b_sends B) MoveStop]))"
  using assms(1, 2)
proof (induction qs arbitrary: k)
  case (Cons q qs)
  from Cons.prems have drop: "drop k P = P ! k # drop (Suc k) P" by (simp add: Cons_nth_drop_Suc)
  with Cons.prems(1) have q: "mset (map stopped_child q) = mset (P ! k)"
    and qs: "list_all2 (\<lambda>q p. mset (map stopped_child q) = mset p) qs (drop (Suc k) P)" by simp_all
  have "P ! k \<noteq> []" using assms(3) Cons.prems(2) by (metis nth_mem)
  from phase_completes [OF q this, where B = B and b = b and P = P and k = k] obtain outs where
    one: "run (coordinator_transition B) \<lparr>coordinator_inner = b, coordinator_state = Stopping P k (P ! k)\<rparr> (map CoordinatorChildStopped q)
      = (\<lparr>coordinator_inner = b, coordinator_state = after_phase P k\<rparr>,
         map Inr (outs @ [move_actions (b_sends B) (phase_move P k)]))" by blast
  show ?case
  proof (cases "Suc k = length P")
    case True
    with qs have "qs = []" by simp
    with one True show ?thesis by (auto simp: after_phase_def phase_move_def)
  next
    case False
    with Cons.prems(2) have "Suc k < length P" by simp
    from Cons.IH [OF qs this] obtain outs' where
      "run (coordinator_transition B) \<lparr>coordinator_inner = b, coordinator_state = Stopping P (Suc k) (P ! Suc k)\<rparr>
          (map CoordinatorChildStopped (concat qs))
        = (\<lparr>coordinator_inner = b, coordinator_state = ShutdownCompleted\<rparr>,
           map Inr (outs' @ [move_actions (b_sends B) MoveStop]))" by blast
    with one False show ?thesis
      by (auto simp: run_append after_phase_def
          intro!: exI [of _ "outs @ [move_actions (b_sends B) (phase_move P k)] @ outs'"])
  qed
qed simp

text \<open>
  C28: Once shutdown is requested and the plan is known, in whichever order the two arrive, reports
  of all children, phase by phase and in any order inside a phase, complete the shutdown: no step
  fails, the last one stops the actor, and the wrapped behavior is untouched.
\<close>

theorem shutdown_completes:
  fixes B :: "('b, 'e, 'a, 'm, 'x, 'c, 'ph, 'err) behavior"
    and qs :: "'d child_stopped list list"
  assumes "shutdown_plan_new P = Inr P"
    and "list_all2 (\<lambda>q phase. mset (map stopped_child q) = mset phase) qs P"
  shows "(start, es) \<in> {(coordinator_new b P, [CoordinatorRequested]),
                        (coordinator_awaiting_plan b, [CoordinatorPlan P, CoordinatorRequested]),
                        (coordinator_awaiting_plan b, [CoordinatorRequested, CoordinatorPlan P])}
    \<Longrightarrow> \<exists>outs. run (coordinator_transition B) start (es @ map CoordinatorChildStopped (concat qs))
          = (\<lparr>coordinator_inner = b, coordinator_state = ShutdownCompleted\<rparr>,
             map Inr (outs @ [stop_actions (coordinator_sends (b_sends B))]))"
proof -
  assume cases: "(start, es) \<in> {(coordinator_new b P, [CoordinatorRequested]),
                        (coordinator_awaiting_plan b, [CoordinatorPlan P, CoordinatorRequested]),
                        (coordinator_awaiting_plan b, [CoordinatorRequested, CoordinatorPlan P])}"
  let ?S = "b_sends B"
  from assms(1) have P: "[] \<notin> set P" by (simp add: shutdown_plan_new_iff)
  have stop: "stop_actions (coordinator_sends ?S) = move_actions ?S MoveStop" by (simp add: move_actions.simps)
  show ?thesis
  proof (cases "P = []")
    case True
    with assms(2) have "qs = []" by simp
    from cases True have "\<exists>outs. run (coordinator_transition B) start es
        = (\<lparr>coordinator_inner = b, coordinator_state = ShutdownCompleted\<rparr>, map Inr (outs @ [move_actions ?S MoveStop]))"
      by (auto simp: coordinator_new_def coordinator_awaiting_plan_def coordinator_transition_def request_shutdown_def
          install_plan_def start_plan_def intro: exI [of _ "[]"] exI [of _ "[move_actions ?S MoveNone]"])
    with \<open>qs = []\<close> show ?thesis by (simp add: stop)
  next
    case False
    from cases False obtain outs where "run (coordinator_transition B) start es
        = (\<lparr>coordinator_inner = b, coordinator_state = Stopping P 0 (P ! 0)\<rparr>, map Inr outs)"
      by (atomize_elim, auto simp: coordinator_new_def coordinator_awaiting_plan_def coordinator_transition_def request_shutdown_def
          install_plan_def start_plan_def intro: exI [of _ "[move_actions ?S (StartPhase P 0)]"]
            exI [of _ "[move_actions ?S MoveNone, move_actions ?S (StartPhase P 0)]"])
    moreover from phases_complete [of qs 0 P B b] assms(2) False P
    obtain outs' where "run (coordinator_transition B) \<lparr>coordinator_inner = b, coordinator_state = Stopping P 0 (P ! 0)\<rparr>
        (map CoordinatorChildStopped (concat qs))
      = (\<lparr>coordinator_inner = b, coordinator_state = ShutdownCompleted\<rparr>,
         map Inr (outs' @ [move_actions ?S MoveStop]))" by auto
    ultimately show ?thesis by (auto simp: run_append stop intro!: exI [of _ "outs @ outs'"])
  qed
qed

theorem shutdown_completes_witness:
  "\<exists>outs. run (coordinator_transition coordinated_latch) (coordinator_new Released two_phases)
      ([CoordinatorRequested] @ map CoordinatorChildStopped (concat [[stopped_report 2, stopped_report 1], [stopped_report 3]]))
    = (\<lparr>coordinator_inner = Released, coordinator_state = ShutdownCompleted\<rparr>,
       map Inr (outs @ [stop_actions (coordinator_sends (b_sends coordinated_latch))]))"
  by (rule shutdown_completes) (simp_all add: shutdown_plan_new_def)

section \<open>Children of several types\<close>

text \<open>A target seen as the creation it names: plans, states, events, errors and requests.\<close>

definition plan_view :: "('t \<Rightarrow> creation_id) \<Rightarrow> 't shutdown_plan \<Rightarrow> creation_id shutdown_plan" where
  "plan_view creation = map (map creation)"

definition coordinator_view :: "('t \<Rightarrow> creation_id) \<Rightarrow> ('b, 't shutdown_plan) coordinator \<Rightarrow> 'b shutdown_coordinator" where
  "coordinator_view creation s = \<lparr>coordinator_inner = coordinator_inner s,
     coordinator_state = map_shutdown_state (plan_view creation) id (coordinator_state s)\<rparr>"

definition event_view :: "('t \<Rightarrow> creation_id) \<Rightarrow> ('e, 't shutdown_plan, 'd) coordinator_event
    \<Rightarrow> ('e, creation_id shutdown_plan, 'd) coordinator_event" where
  "event_view creation = map_coordinator_event id (plan_view creation)"

definition output_view :: "('t \<Rightarrow> creation_id)
    \<Rightarrow> ('err, 'd, 't shutdown_plan) coordinator_error + ('t, 'x, 'c, 'ph) heterogeneous_actions
    \<Rightarrow> ('err, 'd, creation_id shutdown_plan) coordinator_error + ('x, 'c, 'ph) coordinator_actions" where
  "output_view creation = map_sum (map_coordinator_error id (plan_view creation))
     (map_sends (\<lambda>l. \<lparr>owned_sends = map (\<lambda>t. \<lparr>shutdown_target = creation t\<rparr>) (owned_sends l), inner_sends = inner_sends l\<rparr>))"

definition phase_in_range :: "('b, 't shutdown_plan) coordinator \<Rightarrow> bool" where
  "phase_in_range s = (case coordinator_state s of Stopping plan phase awaiting \<Rightarrow> phase < length plan | _ \<Rightarrow> True)"

lemma choice_children_view:
  "choice_children creation seen ts = plan_children seen (map creation ts)"
  by (induction creation seen ts rule: choice_children.induct) auto

lemma choice_phases_view:
  "choice_phases creation n seen P = plan_phases n seen (plan_view creation P)"
  by (induction creation n seen P rule: choice_phases.induct)
    (auto simp: choice_children_view plan_view_def split: sum.splits)

lemma phase_creations_view:
  "k < length P \<Longrightarrow> phase_creations creation P k = plan_view creation P ! k"
  by (simp add: phase_creations_def plan_view_def)

lemma plan_view_simps [simp]:
  "plan_view creation P = [] \<longleftrightarrow> P = []" "length (plan_view creation P) = length P"
  by (simp_all add: plan_view_def)

text \<open>The four moves and their actions under the view.\<close>

lemma start_plan_view:
  "map_prod (map_shutdown_state (plan_view creation) id) (map_shutdown_move (plan_view creation)) (h_start_plan creation P)
     = start_plan (plan_view creation P)"
  by (simp add: h_start_plan_def start_plan_def phase_creations_view)

lemma child_stopped_view:
  assumes "\<And>plan k aw. st = Stopping plan k aw \<Longrightarrow> k < length plan"
  shows "map_prod (map_shutdown_state (plan_view creation) id) (map_shutdown_move (plan_view creation)) (h_child_stopped creation st c)
     = child_has_stopped (map_shutdown_state (plan_view creation) id st) c"
  using assms
  by (cases st) (auto simp: h_child_stopped_def child_has_stopped_def phase_creations_view Let_def
      simp del: position_None_iff split: option.splits)

lemma request_shutdown_view:
  "map_prod (map_shutdown_state (plan_view creation) id) (map_shutdown_move (plan_view creation)) (h_request_shutdown creation st)
     = request_shutdown (map_shutdown_state (plan_view creation) id st)"
  using start_plan_view by (cases st) (auto simp: h_request_shutdown_def request_shutdown_def)

fun move_in_range :: "'t shutdown_plan shutdown_move \<Rightarrow> bool" where
  "move_in_range (StartPhase plan k) \<longleftrightarrow> k < length plan"
| "move_in_range mv \<longleftrightarrow> True"

lemma move_actions_view:
  "move_in_range mv \<Longrightarrow> output_view creation (Inr (h_move_actions S mv))
     = Inr (move_actions S (map_shutdown_move (plan_view creation) mv))"
  by (cases mv) (auto simp: output_view_def move_actions.simps h_phase_actions_def phase_actions_def core_defs
      layer_sends_def vec_sends_def plan_view_def comp_def)

lemma h_moves_in_range:
  "move_in_range (snd (h_start_plan creation P))"
  "move_in_range (snd (h_request_shutdown creation st))"
  "phase_in_range s \<Longrightarrow> move_in_range (snd (h_child_stopped creation (coordinator_state s) c))"
  by (auto simp: h_start_plan_def h_request_shutdown_def h_child_stopped_def phase_in_range_def Let_def
      split: shutdown_state.splits option.splits)

lemma h_keeps_range:
  "phase_in_range (s\<lparr>coordinator_state := fst (h_start_plan creation P)\<rparr>)"
  "phase_in_range s \<Longrightarrow> phase_in_range (s\<lparr>coordinator_state := fst (h_request_shutdown creation (coordinator_state s))\<rparr>)"
  "phase_in_range s \<Longrightarrow> phase_in_range (s\<lparr>coordinator_state := fst (h_child_stopped creation (coordinator_state s) c)\<rparr>)"
  by (auto simp: h_start_plan_def h_request_shutdown_def h_child_stopped_def phase_in_range_def Let_def
      split: shutdown_state.splits option.splits)

lemma awaits_child_view: "awaits_child (map_shutdown_state f id st) c = awaits_child st c"
  by (cases st) (auto simp: awaits_child_def)

lemma output_view_simps [simp]:
  "output_view creation (Inl err) = Inl (map_coordinator_error id (plan_view creation) err)"
  "output_view creation (Inr (h_wrap a)) = Inr (coordinator_wrap a)"
  by (simp_all add: output_view_def h_wrap_def coordinator_wrap_def core_defs)

lemma coordinator_view_update:
  "coordinator_view creation (s\<lparr>coordinator_state := st\<rparr>)
     = (coordinator_view creation s)\<lparr>coordinator_state := map_shutdown_state (plan_view creation) id st\<rparr>"
  "coordinator_view creation (s\<lparr>coordinator_inner := b\<rparr>) = (coordinator_view creation s)\<lparr>coordinator_inner := b\<rparr>"
  "coordinator_inner (coordinator_view creation s) = coordinator_inner s"
  "coordinator_state (coordinator_view creation s) = map_shutdown_state (plan_view creation) id (coordinator_state s)"
  by (simp_all add: coordinator_view_def)

lemma install_plan_view:
  "install_plan (map_shutdown_state (plan_view creation) id st) (plan_view creation P)
     = map_prod (map_shutdown_state (plan_view creation) id) (map_sum (plan_view creation) (map_shutdown_move (plan_view creation)))
         (h_install_plan creation st P)"
  using start_plan_view [of creation P, symmetric]
  by (cases st) (simp_all add: install_plan_def h_install_plan_def apsnd_def prod.map_comp comp_def)

lemma install_in_range:
  "snd (h_install_plan creation st P) = Inr mv \<Longrightarrow> move_in_range mv"
  "phase_in_range s \<Longrightarrow> phase_in_range (s\<lparr>coordinator_state := fst (h_install_plan creation (coordinator_state s) P)\<rparr>)"
  using h_moves_in_range(1) [of creation P] h_keeps_range(1) [where s = s and creation = creation and P = P]
  by (auto simp: h_install_plan_def split: shutdown_state.splits) (simp_all add: phase_in_range_def)

lemma h_step_view:
  assumes "phase_in_range s"
  shows "coordinator_transition B (coordinator_view creation s) (event_view creation e)
     = map_prod (coordinator_view creation) (output_view creation) (h_transition creation B s e)"
proof (cases e)
  case (CoordinatorPlan P)
  obtain st res where res: "h_install_plan creation (coordinator_state s) P = (st, res)" by fastforce
  with CoordinatorPlan install_plan_view [of creation "coordinator_state s" P] install_in_range(1) [of creation "coordinator_state s" P]
  show ?thesis
    by (cases res) (auto simp: coordinator_transition_def h_transition_def event_view_def coordinator_view_update move_actions_view)
next
  case (CoordinatorChildStopped r)
  have "map_prod (map_shutdown_state (plan_view creation) id) (map_shutdown_move (plan_view creation))
      (h_child_stopped creation (coordinator_state s) (stopped_child r))
     = child_has_stopped (map_shutdown_state (plan_view creation) id (coordinator_state s)) (stopped_child r)"
    using assms by (intro child_stopped_view) (auto simp: phase_in_range_def)
  from this [symmetric] CoordinatorChildStopped h_moves_in_range(3) [OF assms, of creation "stopped_child r"] show ?thesis
    by (auto simp: coordinator_transition_def h_transition_def event_view_def coordinator_view_update move_actions_view
        awaits_child_view split_beta)
next
  case CoordinatorRequested
  with request_shutdown_view [of creation "coordinator_state s", symmetric] h_moves_in_range(2) [of creation "coordinator_state s"]
  show ?thesis
    by (auto simp: coordinator_transition_def h_transition_def event_view_def coordinator_view_update move_actions_view split_beta)
qed (auto simp: coordinator_transition_def h_transition_def event_view_def coordinator_view_update awaits_child_view
    split: prod.splits sum.splits)

lemma h_step_in_range:
  assumes "phase_in_range s"
  shows "phase_in_range (fst (h_transition creation B s e))"
  using assms h_keeps_range(2, 3) [OF assms, of creation] install_in_range(2) [OF assms, of creation]
  by (cases e) (auto simp: h_transition_def split_beta split: sum.splits, auto simp: phase_in_range_def)

interpretation heterogeneous: refined_fold "\<lambda>s e. apsnd (output_view creation) (h_transition creation B s e)" phase_in_range
  "\<lambda>t e. coordinator_transition B t (event_view creation e)" "coordinator_view creation"
  by unfold_locales (simp_all add: h_step_view h_step_in_range apfst_def apsnd_def prod.map_comp)

text \<open>Runs of a fold seen through maps of its events and outputs.\<close>

lemma run_mapped_outputs: "run (\<lambda>s e. apsnd g (f s e)) s es = apsnd (map g) (run f s es)"
  by (induction es arbitrary: s) (auto simp: split_beta)

lemma run_mapped_events: "run (\<lambda>s e. f s (g e)) s es = run f s (map g es)"
  by (induction es arbitrary: s) (auto simp: split_beta)

text \<open>
  C29: The coordinator for children of several types is the one for children of one type: with every
  target replaced by the creation it names, it accepts the same plans, and every run of it, whatever
  its events, is step by step the run of the simple coordinator on the replaced events, with the
  same states, errors, requests and verdicts.
\<close>

theorem heterogeneous_shutdown_is_homogeneous:
  "map_sum id (plan_view creation) (heterogeneous_plan_new creation P) = shutdown_plan_new (plan_view creation P)
   \<and> run (coordinator_transition B) (coordinator_new b (plan_view creation P)) (map (event_view creation) es)
      = map_prod (coordinator_view creation) (map (output_view creation))
          (run (h_transition creation B) (h_new b P) es)
   \<and> run (coordinator_transition B) (coordinator_awaiting_plan b) (map (event_view creation) es)
      = map_prod (coordinator_view creation) (map (output_view creation))
          (run (h_transition creation B) (h_awaiting_plan b) es)"
proof -
  have runs: "run (coordinator_transition B) (coordinator_view creation s) (map (event_view creation) es)
      = map_prod (coordinator_view creation) (map (output_view creation)) (run (h_transition creation B) s es)"
    if "phase_in_range s" for s
    using heterogeneous.run_refines [OF that, where B = B and es = es and creation = creation]
    by (simp add: run_mapped_outputs run_mapped_events) (simp add: map_prod_def split_beta)
  have "map_sum id (plan_view creation) (heterogeneous_plan_new creation P) = shutdown_plan_new (plan_view creation P)"
    by (simp add: heterogeneous_plan_new_def shutdown_plan_new_def choice_phases_view split: option.splits)
  with runs [of "h_new b P"] runs [of "h_awaiting_plan b"] show ?thesis
    by (simp add: h_new_def h_awaiting_plan_def coordinator_new_def coordinator_awaiting_plan_def
        coordinator_view_def phase_in_range_def)
qed

section \<open>User events through the event sum\<close>




end
