(* ===== verification/Testkit.thy ===== *)
theory Testkit
  imports Timers Latch
begin

text \<open>
  The driver and the reference model that the repository's own tests rest on
  (\<^verbatim>\<open>behavior-testkit/src/lib.rs\<close> and \<^verbatim>\<open>model.rs\<close>): a mailbox, \<^verbatim>\<open>drive\<close>, which feeds it to an activated
  behavior until that stops or the mailbox is empty, and \<^verbatim>\<open>InactivityModel\<close>, the history model of
  the receive timeout.
\<close>

section \<open>The driver\<close>

record 'e mailbox =
  mailbox_events :: "'e list"

definition mailbox_new :: "'e list \<Rightarrow> 'e mailbox" where
  "mailbox_new es = \<lparr>mailbox_events = es\<rparr>"

definition mailbox_receive :: "'e mailbox \<Rightarrow> 'e mailbox \<times> 'e option" where
  "mailbox_receive m = (case mailbox_events m of
      [] \<Rightarrow> (m, None)
    | e # es \<Rightarrow> (m\<lparr>mailbox_events := es\<rparr>, Some e))"

definition mailbox_pending :: "'e mailbox \<Rightarrow> nat" where
  "mailbox_pending m = length (mailbox_events m)"

datatype drive_disposition = MailboxDrained | BehaviorStopped stopped

record ('b, 'x, 'c) drive_trace =
  trace_behavior :: 'b
  trace_sends :: 'x
  trace_creates :: "'c list"
  trace_disposition :: drive_disposition
  trace_transitions :: nat
  trace_pending :: nat

text \<open>
  The loop: account for the actions at hand, leave on a stop, take the next event, fold it. An
  error leaves through \<^verbatim>\<open>?\<close>; the mailbox, borrowed mutably, keeps what was not received. The arm
  \<^verbatim>\<open>Step::Goto(never)\<close> is an empty match.
\<close>

function drive_loop :: "('b, 'e, 'a, 'm, 'x, 'c, never, 'err) behavior \<Rightarrow> 'b \<Rightarrow> 'x \<Rightarrow> 'c list \<Rightarrow> nat
    \<Rightarrow> ('x, 'c, never) actions \<Rightarrow> 'e mailbox \<Rightarrow> 'e mailbox \<times> ('err + ('b, 'x, 'c) drive_trace)" where
  "drive_loop B b acc created n act m =
     (let acc = append_sends (b_sends B) acc (sends act);
          created = created @ creates act;
          leave = (\<lambda>m d. (m, Inr \<lparr>trace_behavior = b, trace_sends = acc, trace_creates = created,
             trace_disposition = d, trace_transitions = Suc n, trace_pending = mailbox_pending m\<rparr>))
      in case become act of
           Stop r \<Rightarrow> leave m (BehaviorStopped r)
         | _ \<Rightarrow> (case mailbox_receive m of
               (m, None) \<Rightarrow> leave m MailboxDrained
             | (m, Some e) \<Rightarrow> (case delegate_transition B b e of
                   (b, Inl err) \<Rightarrow> (m, Inl err)
                 | (b, Inr act) \<Rightarrow> drive_loop B b acc created (Suc n) act m)))"
  by pat_completeness auto

lemma mailbox_receive_shorter:
  "mailbox_receive m = (m', Some e) \<Longrightarrow> mailbox_pending m' < mailbox_pending m"
  by (auto simp: mailbox_receive_def mailbox_pending_def split: list.splits)

termination drive_loop
  by (relation "measure (\<lambda>(B, b, acc, created, n, act, m). mailbox_pending m)")
    (auto dest: mailbox_receive_shorter [OF sym])

declare drive_loop.simps [simp del]

definition drive :: "('b, 'e, 'a, 'm, 'x, 'c, never, 'err) behavior \<Rightarrow> 'b \<Rightarrow> 'e mailbox
    \<Rightarrow> 'e mailbox \<times> ('err + ('b, 'x, 'c) drive_trace)" where
  "drive B definition_state m = (case initialize B definition_state of
      (b, Inl err) \<Rightarrow> (m, Inl err)
    | (b, Inr act) \<Rightarrow> drive_loop B b (empty_sends (b_sends B)) [] 0 act m)"

section \<open>The driver is a cut run\<close>

text \<open>
  The specification: run the fold over every event, and cut the results (the initialization's
  first) after the first that is an error or stops.
\<close>

fun continues :: "'err + ('x, 'c, never) actions \<Rightarrow> bool" where
  "continues (Inl err) \<longleftrightarrow> False"
| "continues (Inr act) \<longleftrightarrow> \<not> stops (become act)"

definition accounted :: "'x send_effects \<Rightarrow> 'x \<Rightarrow> 'c list \<Rightarrow> nat \<Rightarrow> 'b \<Rightarrow> ('err + ('x, 'c, never) actions) list
    \<Rightarrow> drive_disposition \<Rightarrow> nat \<Rightarrow> ('b, 'x, 'c) drive_trace" where
  "accounted S acc created n b results d pending =
     \<lparr>trace_behavior = b,
      trace_sends = foldl (append_sends S) acc (map (sends \<circ> projr) results),
      trace_creates = created @ concat (map (creates \<circ> projr) results),
      trace_disposition = d, trace_transitions = n + length results, trace_pending = pending\<rparr>"

definition cut_run :: "('b, 'e, 'a, 'm, 'x, 'c, never, 'err) behavior \<Rightarrow> 'x \<Rightarrow> 'c list \<Rightarrow> nat
    \<Rightarrow> 'b \<Rightarrow> 'err + ('x, 'c, never) actions \<Rightarrow> 'e list \<Rightarrow> 'e list \<times> ('err + ('b, 'x, 'c) drive_trace)" where
  "cut_run B acc created n b first es =
     (let step = delegate_transition B;
          results = first # run_outputs step b es;
          k = length (takeWhile continues results)
      in if k = length results
         then ([], Inr (accounted (b_sends B) acc created n (run_state step b es) results MailboxDrained 0))
         else (drop k es, case results ! k of
             Inl err \<Rightarrow> Inl err
           | Inr act \<Rightarrow> Inr (accounted (b_sends B) acc created n (run_state step b (take k es)) (take (Suc k) results)
               (BehaviorStopped Stopped) (length es - k))))"

lemma cut_run_error: "cut_run B acc created n b (Inl err) es = (es, Inl err)"
  by (simp add: cut_run_def)

lemma cut_run_stop:
  "stops (become act) \<Longrightarrow> cut_run B acc created n b (Inr act) es
     = (es, Inr \<lparr>trace_behavior = b, trace_sends = append_sends (b_sends B) acc (sends act),
         trace_creates = created @ creates act, trace_disposition = BehaviorStopped Stopped,
         trace_transitions = Suc n, trace_pending = length es\<rparr>)"
  by (simp add: cut_run_def accounted_def)

lemma cut_run_drained:
  "\<not> stops (become act) \<Longrightarrow> cut_run B acc created n b (Inr act) []
     = ([], Inr \<lparr>trace_behavior = b, trace_sends = append_sends (b_sends B) acc (sends act),
         trace_creates = created @ creates act, trace_disposition = MailboxDrained,
         trace_transitions = Suc n, trace_pending = 0\<rparr>)"
  by (simp add: cut_run_def accounted_def)

lemma cut_run_Cons:
  assumes "\<not> stops (become act)" and "delegate_transition B b e = (b', r)"
  shows "cut_run B acc created n b (Inr act) (e # es)
    = cut_run B (append_sends (b_sends B) acc (sends act)) (created @ creates act) (Suc n) b' r es"
  using assms by (auto simp: cut_run_def accounted_def Let_def split: sum.splits)

text \<open>The three ways round the loop.\<close>

lemma drive_loop_stop:
  "stops (become act) \<Longrightarrow> drive_loop B b acc created n act m
     = (m, Inr \<lparr>trace_behavior = b, trace_sends = append_sends (b_sends B) acc (sends act),
         trace_creates = created @ creates act, trace_disposition = BehaviorStopped Stopped,
         trace_transitions = Suc n, trace_pending = mailbox_pending m\<rparr>)"
  by (subst drive_loop.simps) (simp add: stops_iff)

lemma drive_loop_drained:
  "\<not> stops (become act) \<Longrightarrow> mailbox_events m = [] \<Longrightarrow> drive_loop B b acc created n act m
     = (m, Inr \<lparr>trace_behavior = b, trace_sends = append_sends (b_sends B) acc (sends act),
         trace_creates = created @ creates act, trace_disposition = MailboxDrained,
         trace_transitions = Suc n, trace_pending = 0\<rparr>)"
  by (subst drive_loop.simps)
    (auto simp: mailbox_receive_def mailbox_pending_def Let_def split: step.splits)

lemma drive_loop_Cons:
  "\<not> stops (become act) \<Longrightarrow> mailbox_events m = e # es \<Longrightarrow> drive_loop B b acc created n act m
     = (case delegate_transition B b e of
          (b', Inl err) \<Rightarrow> (m\<lparr>mailbox_events := es\<rparr>, Inl err)
        | (b', Inr act') \<Rightarrow> drive_loop B b' (append_sends (b_sends B) acc (sends act)) (created @ creates act)
             (Suc n) act' (m\<lparr>mailbox_events := es\<rparr>))"
  by (subst drive_loop.simps) (auto simp: mailbox_receive_def Let_def split: step.splits)

lemma drive_loop_cut_run:
  "mailbox_events m = es \<Longrightarrow> apfst mailbox_events (drive_loop B b acc created n act m)
     = cut_run B acc created n b (Inr act) es"
proof (induction es arbitrary: b acc created n act m)
  case Nil
  then show ?case
    by (cases "stops (become act)")
      (simp_all add: drive_loop_stop drive_loop_drained cut_run_stop cut_run_drained mailbox_pending_def)
next
  case (Cons e es)
  obtain b' r where step: "delegate_transition B b e = (b', r)" by fastforce
  with Cons show ?case
    by (cases r; cases "stops (become act)")
      (simp_all add: drive_loop_stop drive_loop_Cons cut_run_stop cut_run_Cons cut_run_error mailbox_pending_def)
qed

text \<open>
  C30: Driving a behavior terminates for every behavior and every mailbox, and is the run of its
  fold over the mailbox cut after the first result that stops or fails: the trace accumulates the
  effects and births of exactly the turns up to there, in order and each once, an error is the
  first the fold returns, and the mailbox keeps exactly the events that were not received.
\<close>

theorem drive_is_cut_run:
  "apfst mailbox_events (drive B b (mailbox_new es))
     = (let (b', first) = initialize B b in cut_run B (empty_sends (b_sends B)) [] 0 b' first es)"
  by (auto simp: drive_def mailbox_new_def drive_loop_cut_run cut_run_error split: prod.splits sum.splits)

section \<open>The reference model of receive inactivity\<close>

record inactivity_model =
  last_token :: "u64 option"
  live_token :: "u64 option"




definition inactivity_activity :: "inactivity_model \<Rightarrow> inactivity_model \<times> u64 option" where
  "inactivity_activity m = (case Option.bind (last_token m) (\<lambda>token. checked_add token 1) of
      None \<Rightarrow> (m, None)
    | Some token \<Rightarrow> (m\<lparr>last_token := Some token, live_token := Some token\<rparr>, Some token))"

definition inactivity_no_activity :: "inactivity_model \<Rightarrow> u64 option" where
  "inactivity_no_activity m = live_token m"
















text \<open>
  At the last generation the two part: the lease retires the live generation with the exhausted
  counter, the model keeps the last token live.
\<close>

lemma model_keeps_last_token:
  "lease_arm (Armed (- 1)) = (LeaseExhausted, None)
   \<and> inactivity_activity \<lparr>last_token = Some (- 1), live_token = Some (- 1)\<rparr>
       = (\<lparr>last_token = Some (- 1), live_token = Some (- 1)\<rparr>, None)
   \<and> lease_live LeaseExhausted = None"
proof -
  have "checked_add (- 1 :: u64) 1 = None" by (simp add: checked_succ_None_iff)
  then show ?thesis by (simp add: lease_next_def inactivity_activity_def)
qed

end
