(* ===== verification/Worker.thy ===== *)
theory Worker
  imports Action_Settlement Termination
begin

text \<open>
  The workers of the templates (\<^verbatim>\<open>actors/src/templates/worker/\<close>): the evidence of one worker
  attempt, of its initialization and of its startup, the requests a proxy or a pool emits for them
  and the reports it receives, and the recovery of a worker whose creation did not commit
  (\<^verbatim>\<open>worker/mod.rs\<close>, \<^verbatim>\<open>worker/initialization.rs\<close>, \<^verbatim>\<open>worker/startup.rs\<close>), with the shutdown
  request of an established actor and its resolution (\<^verbatim>\<open>protocol/established.rs\<close>).

  An \<^verbatim>\<open>Arc<()>\<close> token is known by its address; \<^verbatim>\<open>Arc::new\<close> takes the next address of a heap that
  is threaded through the operations that allocate. An established actor is known by the endpoint
  its recipient addresses, a type variable. The parts of a worker's type the templates move and
  never inspect (its error, its initialization actions, its address) are type variables, as are the
  startup plan and what the plan returns.
\<close>

section \<open>Tokens\<close>

type_synonym token = nat

type_synonym heap = nat

definition arc_new :: "heap \<Rightarrow> heap \<times> token" where
  "arc_new h = (Suc h, h)"

section \<open>Children as the templates create them\<close>

datatype 'w hosted = StopOnShutdown 'w

fun into_inner :: "'w hosted \<Rightarrow> 'w" where
  "into_inner (StopOnShutdown w) = w"

datatype 'r established_actor = EstablishedActor 'r

fun recipient :: "'r established_actor \<Rightarrow> 'r" where
  "recipient (EstablishedActor r) = r"

record 'r committed_child =
  committed_id :: creation_id
  committed_kind :: creation_kind
  committed_actor :: "'r established_actor"

datatype (plugins only: code) ('c, 'r, 'n, 'err, 'ini) child_creation_outcome =
    ChildEstablished "'r committed_child"
  | ChildUnavailable creation_id creation_kind
  | InitializationRejected "('c, 'n) routed_creation" 'err
  | InitializationPanicked "('c, 'n) routed_creation"
  | HostRejected "('c, 'n) routed_creation" 'ini creation_rejection

fun into_committed :: "('c, 'r, 'n, 'err, 'ini) child_creation_outcome
    \<Rightarrow> ('c, 'r, 'n, 'err, 'ini) child_creation_outcome + 'r committed_child" where
  "into_committed (ChildEstablished child) = Inr child"
| "into_committed other = Inl other"

type_synonym ('c, 'r, 'n, 'err, 'ini) child_settlement =
  "(('c, 'n) routed_creation, ('c, 'n, ('c, 'r, 'n, 'err, 'ini) child_creation_outcome) creation_reply) settled_item"

type_synonym ('c, 'r, 'n, 'err, 'ini) children_settled =
  "('c create_child creations, ('c, 'r, 'n, 'err, 'ini) child_settlement creations) creation_settlement"

text \<open>The correlation a settled creation carries, by its outcome or by the item it returns.\<close>

fun routed_identity :: "('c, 'n) routed_creation \<Rightarrow> creation_id \<times> creation_kind" where
  "routed_identity r = (create_id (routed_create r), create_kind (routed_create r))"

fun outcome_identity :: "('c, 'r, 'n, 'err, 'ini) child_creation_outcome \<Rightarrow> creation_id \<times> creation_kind" where
  "outcome_identity (ChildEstablished child) = (committed_id child, committed_kind child)"
| "outcome_identity (ChildUnavailable i k) = (i, k)"
| "outcome_identity (InitializationRejected creation e) = routed_identity creation"
| "outcome_identity (InitializationPanicked creation) = routed_identity creation"
| "outcome_identity (HostRejected creation a e) = routed_identity creation"

fun settlement_identity :: "('c, 'r, 'n, 'err, 'ini) child_settlement \<Rightarrow> creation_id \<times> creation_kind" where
  "settlement_identity (Unattempted item) = routed_identity item"
| "settlement_identity (Attempted (ItemRejected item e)) = routed_identity item"
| "settlement_identity (Attempted (ItemBlocked item p)) = routed_identity item"
| "settlement_identity (Attempted (ItemCorrupt item f)) = routed_identity item"
| "settlement_identity (Attempted (ItemAccepted outcome)) = outcome_identity outcome"

section \<open>Attempts\<close>

datatype stop_kind = StopNormal | StopAbnormal

fun stop_kind_of :: "'a terminal_outcome \<Rightarrow> stop_kind" where
  "stop_kind_of (Inr ExitNormal) = StopNormal"
| "stop_kind_of (Inr ExitCollected) = StopNormal"
| "stop_kind_of (Inr (ExitLinkDied a)) = StopAbnormal"
| "stop_kind_of (Inr (ExitSupervisionFailed f)) = StopAbnormal"
| "stop_kind_of (Inl c) = StopAbnormal"

record worker_attempt =
  attempt_creation :: creation_id
  attempt_token :: token

definition attempt_issued :: "heap \<Rightarrow> creation_id \<Rightarrow> heap \<times> worker_attempt" where
  "attempt_issued h i = (let (h', t) = arc_new h in (h', \<lparr>attempt_creation = i, attempt_token = t\<rparr>))"

record initialization_attempt =
  initialized_worker :: worker_attempt
  initialization_token :: token

definition initialization_issued :: "heap \<Rightarrow> worker_attempt \<Rightarrow> heap \<times> initialization_attempt" where
  "initialization_issued h a =
     (let (h', t) = arc_new h in (h', \<lparr>initialized_worker = a, initialization_token = t\<rparr>))"

record ('w, 'p) worker_submission =
  submitted_worker :: 'w
  submitted_startup :: 'p

section \<open>Recovery of a worker that was not created\<close>

record ('w, 'ini) worker_recovery =
  recovered_worker :: 'w
  recovered_initialization :: 'ini

definition recovery_into_retirement :: "('w, 'ini) worker_recovery \<Rightarrow> 'w \<times> 'ini" where
  "recovery_into_retirement r = (recovered_worker r, recovered_initialization r)"

datatype (plugins only: code) ('w, 'err, 'ini) worker_creation_rejection =
    WorkerUnavailable creation_id creation_kind
  | NamespaceExhausted 'w
  | WorkerRejected 'w 'err
  | WorkerPanicked 'w
  | WorkerHostRejected "('w, 'ini) worker_recovery" creation_rejection
  | WorkerCreationRejected 'w creation_rejection
  | WorkerInterpreterCorrupt 'w interpreter_fault
  | InterpretationSkipped 'w

datatype (plugins only: code) ('w, 'r, 'err, 'ini) worker_creation_outcome =
    WorkerEstablished "'r established_actor"
  | WorkerNotCreated "('w, 'err, 'ini) worker_creation_rejection"

type_synonym ('w, 'r, 'n, 'err, 'ini) worker_creation_settlement =
  "('w hosted, 'r, 'n, 'err, 'ini) child_settlement"

definition recover_worker :: "('w hosted, 'n) routed_creation \<Rightarrow> 'w" where
  "recover_worker creation = (let (create, route) = routed_into_parts creation;
     (i, worker, k) = create_into_parts create in into_inner worker)"

text \<open>The blocked prerequisite of a creation is \<^verbatim>\<open>Never\<close>: that row cannot occur, and the value given for it is never read.\<close>

fun settle_worker_creation :: "('w, 'r, 'n, 'err, 'ini) worker_creation_settlement
    \<Rightarrow> ('w, 'r, 'err, 'ini) worker_creation_outcome" where
  "settle_worker_creation (Attempted (ItemAccepted (ChildUnavailable i k))) =
     WorkerNotCreated (WorkerUnavailable i k)"
| "settle_worker_creation (Attempted (ItemAccepted (ChildEstablished child))) =
     WorkerEstablished (committed_actor child)"
| "settle_worker_creation (Attempted (ItemAccepted (InitializationRejected creation e))) =
     WorkerNotCreated (WorkerRejected (recover_worker creation) e)"
| "settle_worker_creation (Attempted (ItemAccepted (InitializationPanicked creation))) =
     WorkerNotCreated (WorkerPanicked (recover_worker creation))"
| "settle_worker_creation (Attempted (ItemAccepted (HostRejected creation ini e))) =
     WorkerNotCreated (WorkerHostRejected
       \<lparr>recovered_worker = recover_worker creation, recovered_initialization = ini\<rparr> e)"
| "settle_worker_creation (Attempted (ItemRejected item e)) =
     WorkerNotCreated (WorkerCreationRejected (recover_worker item) e)"
| "settle_worker_creation (Attempted (ItemBlocked item Never)) =
     WorkerNotCreated (InterpretationSkipped (recover_worker item))"
| "settle_worker_creation (Attempted (ItemCorrupt item f)) =
     WorkerNotCreated (WorkerInterpreterCorrupt (recover_worker item) f)"
| "settle_worker_creation (Unattempted item) =
     WorkerNotCreated (InterpretationSkipped (recover_worker item))"

section \<open>Initialization\<close>

record 'r startup_permit =
  permit_worker :: worker_attempt
  permit_initialization :: initialization_attempt
  permit_target :: 'r

record ('r, 'p) initialize_worker =
  initialize_attempt :: worker_attempt
  initialize_initialization :: initialization_attempt
  initialize_target :: 'r
  initialize_startup :: 'p

definition initialize_new :: "worker_attempt \<Rightarrow> initialization_attempt \<Rightarrow> 'r \<Rightarrow> 'p \<Rightarrow> ('r, 'p) initialize_worker" where
  "initialize_new a i t p =
     \<lparr>initialize_attempt = a, initialize_initialization = i, initialize_target = t, initialize_startup = p\<rparr>"

datatype worker_initialization_failure = EffectsRejected | InterpreterCorrupt

datatype 'a worker_initialization_outcome =
    ReadyForStartup
  | InitializationEffects worker_initialization_failure
  | StoppedInitializing "'a child_stopped"

datatype (plugins only: code) ('r, 'p, 'a) worker_initialization_report =
    InitializedReport worker_attempt initialization_attempt 'p "'r startup_permit"
  | EffectsRejectedReport worker_attempt initialization_attempt 'p worker_initialization_failure
  | StoppedReport worker_attempt initialization_attempt 'p "'a child_stopped"

definition initialize_resolve :: "('r, 'p) initialize_worker \<Rightarrow> 'a worker_initialization_outcome
    \<Rightarrow> ('r, 'p, 'a) worker_initialization_report" where
  "initialize_resolve q result = (let a = initialize_attempt q; i = initialize_initialization q; p = initialize_startup q in
     case result of
       ReadyForStartup \<Rightarrow> InitializedReport a i p
         \<lparr>permit_worker = a, permit_initialization = i, permit_target = initialize_target q\<rparr>
     | InitializationEffects failure \<Rightarrow> EffectsRejectedReport a i p failure
     | StoppedInitializing stopped \<Rightarrow> StoppedReport a i p stopped)"

fun report_worker :: "('r, 'p, 'a) worker_initialization_report \<Rightarrow> worker_attempt" where
  "report_worker (InitializedReport a i p permit) = a"
| "report_worker (EffectsRejectedReport a i p failure) = a"
| "report_worker (StoppedReport a i p stopped) = a"

fun report_initialization :: "('r, 'p, 'a) worker_initialization_report \<Rightarrow> initialization_attempt" where
  "report_initialization (InitializedReport a i p permit) = i"
| "report_initialization (EffectsRejectedReport a i p failure) = i"
| "report_initialization (StoppedReport a i p stopped) = i"

section \<open>Startup\<close>

record worker_startup_grant =
  grant_worker :: worker_attempt
  grant_token :: token

definition grant_issued :: "heap \<Rightarrow> worker_attempt \<Rightarrow> heap \<times> worker_startup_grant" where
  "grant_issued h a = (let (h', t) = arc_new h in (h', \<lparr>grant_worker = a, grant_token = t\<rparr>))"

datatype startup_rejection = OwnerStopped

record ('r, 'p) start_worker =
  start_startup :: worker_startup_grant
  start_permit :: "'r startup_permit"
  start_plan :: 'p

definition start_worker_new :: "heap \<Rightarrow> 'p \<Rightarrow> 'r startup_permit \<Rightarrow> heap \<times> ('r, 'p) start_worker" where
  "start_worker_new h plan permit = (let (h', grant) = grant_issued h (permit_worker permit) in
     (h', \<lparr>start_startup = grant, start_permit = permit, start_plan = plan\<rparr>))"

definition start_into_parts :: "('r, 'p) start_worker \<Rightarrow> 'r startup_permit \<times> 'p \<times> worker_startup_grant" where
  "start_into_parts q = (start_permit q, start_plan q, start_startup q)"

datatype (plugins only: code) ('r, 'p, 'd, 'j) worker_startup_outcome =
    Started
  | StartRejected "('r, 'p) start_worker" startup_rejection
  | StartupReady 'd
  | StartupRejected 'j

record ('r, 'p, 'd, 'j) worker_startup =
  startup_worker :: worker_attempt
  startup_attempt :: worker_startup_grant
  startup_outcome :: "('r, 'p, 'd, 'j) worker_startup_outcome"

definition grant_resolve :: "worker_startup_grant \<Rightarrow> 'j + 'd \<Rightarrow> ('r, 'p, 'd, 'j) worker_startup" where
  "grant_resolve g reply = \<lparr>startup_worker = grant_worker g, startup_attempt = g,
     startup_outcome = (case reply of Inr readiness \<Rightarrow> StartupReady readiness | Inl rejection \<Rightarrow> StartupRejected rejection)\<rparr>"

definition start_started :: "('r, 'p) start_worker \<Rightarrow> ('r, 'p, 'd, 'j) worker_startup" where
  "start_started q = \<lparr>startup_worker = permit_worker (start_permit q), startup_attempt = start_startup q,
     startup_outcome = Started\<rparr>"

definition start_rejected :: "('r, 'p) start_worker \<Rightarrow> startup_rejection \<Rightarrow> ('r, 'p, 'd, 'j) worker_startup" where
  "start_rejected q reason = \<lparr>startup_worker = permit_worker (start_permit q), startup_attempt = start_startup q,
     startup_outcome = StartRejected q reason\<rparr>"

text \<open>\<^verbatim>\<open>StartWorker::start\<close> awaits the plan; \<open>started\<close> is what the plan's future returns.\<close>

definition start_run :: "('p \<Rightarrow> 'j + 'd) \<Rightarrow> ('r, 'p) start_worker \<Rightarrow> ('r, 'p, 'd, 'j) worker_startup" where
  "start_run started q = \<lparr>startup_worker = permit_worker (start_permit q), startup_attempt = start_startup q,
     startup_outcome = (case started (start_plan q) of Inr readiness \<Rightarrow> StartupReady readiness
                                                  | Inl rejection \<Rightarrow> StartupRejected rejection)\<rparr>"

definition into_started :: "('r, 'p, 'd, 'j) worker_startup \<Rightarrow> ('r, 'p, 'd, 'j) worker_startup + unit" where
  "into_started s = (case startup_outcome s of Started \<Rightarrow> Inr () | _ \<Rightarrow> Inl s)"

definition into_start_rejection :: "('r, 'p, 'd, 'j) worker_startup
    \<Rightarrow> ('r, 'p, 'd, 'j) worker_startup + ('r, 'p) start_worker \<times> startup_rejection" where
  "into_start_rejection s = (case startup_outcome s of
      StartRejected request reason \<Rightarrow> Inr (request, reason) | _ \<Rightarrow> Inl s)"

definition into_ready :: "('r, 'p, 'd, 'j) worker_startup \<Rightarrow> ('r, 'p, 'd, 'j) worker_startup + 'd" where
  "into_ready s = (case startup_outcome s of StartupReady readiness \<Rightarrow> Inr readiness | _ \<Rightarrow> Inl s)"

definition into_rejection :: "('r, 'p, 'd, 'j) worker_startup \<Rightarrow> ('r, 'p, 'd, 'j) worker_startup + 'j" where
  "into_rejection s = (case startup_outcome s of StartupRejected rejection \<Rightarrow> Inr rejection | _ \<Rightarrow> Inl s)"

section \<open>Shutdown of an established actor\<close>

datatype shutdown_id = ShutdownId u64

record 'r shutdown_established =
  shutdown_request_id :: shutdown_id
  shutdown_actor :: "'r established_actor"

datatype shutdown_rejection = ShutdownAlreadyStopping | ShutdownAlreadyStopped

datatype shutdown_resolved =
    ShutdownAccepted shutdown_id
  | ShutdownRejected shutdown_id shutdown_rejection

fun resolved_id :: "shutdown_resolved \<Rightarrow> shutdown_id" where
  "resolved_id (ShutdownAccepted i) = i"
| "resolved_id (ShutdownRejected i reason) = i"

text \<open>
  \<^verbatim>\<open>settle\<close> transfers the request to the interpreter, which answers for the installed actor:
  \<open>admit\<close> is the interpreter's \<^verbatim>\<open>shutdown\<close>.
\<close>

definition shutdown_settle :: "(shutdown_id \<Rightarrow> 'r established_actor \<Rightarrow> 'i \<Rightarrow> (shutdown_rejection + unit) \<times> 'i)
    \<Rightarrow> 'r shutdown_established \<Rightarrow> 'i
    \<Rightarrow> ('r shutdown_established, shutdown_id, shutdown_rejection, never) item_settlement \<times> 'i" where
  "shutdown_settle admit q h = (let (admission, h') = admit (shutdown_request_id q) (shutdown_actor q) h in
     (case admission of Inr _ \<Rightarrow> ItemAccepted (shutdown_request_id q) | Inl reason \<Rightarrow> ItemRejected q reason, h'))"

section \<open>Facts\<close>

text \<open>What \<^verbatim>\<open>into_*\<close> returns together with the outcomes that lead there.\<close>

lemma into_started_Inr: "into_started s = Inr u \<longleftrightarrow> startup_outcome s = Started"
  by (simp add: into_started_def split: worker_startup_outcome.splits)

lemma into_started_Inl: "into_started s = Inl t \<longleftrightarrow> t = s \<and> startup_outcome s \<noteq> Started"
  by (auto simp: into_started_def split: worker_startup_outcome.splits)

lemma into_start_rejection_Inr:
  "into_start_rejection s = Inr (request, reason) \<longleftrightarrow> startup_outcome s = StartRejected request reason"
  by (auto simp: into_start_rejection_def split: worker_startup_outcome.splits)

lemma into_start_rejection_Inl:
  "into_start_rejection s = Inl t \<longleftrightarrow> t = s \<and> (\<forall>request reason. startup_outcome s \<noteq> StartRejected request reason)"
  by (auto simp: into_start_rejection_def split: worker_startup_outcome.splits)

lemma into_ready_Inr: "into_ready s = Inr readiness \<longleftrightarrow> startup_outcome s = StartupReady readiness"
  by (auto simp: into_ready_def split: worker_startup_outcome.splits)

lemma into_ready_Inl: "into_ready s = Inl t \<longleftrightarrow> t = s \<and> (\<forall>readiness. startup_outcome s \<noteq> StartupReady readiness)"
  by (auto simp: into_ready_def split: worker_startup_outcome.splits)

lemma into_rejection_Inr: "into_rejection s = Inr rejection \<longleftrightarrow> startup_outcome s = StartupRejected rejection"
  by (auto simp: into_rejection_def split: worker_startup_outcome.splits)

lemma into_rejection_Inl:
  "into_rejection s = Inl t \<longleftrightarrow> t = s \<and> (\<forall>rejection. startup_outcome s \<noteq> StartupRejected rejection)"
  by (auto simp: into_rejection_def split: worker_startup_outcome.splits)

lemmas startup_splits = into_started_Inr into_started_Inl into_start_rejection_Inr into_start_rejection_Inl
  into_ready_Inr into_ready_Inl into_rejection_Inr into_rejection_Inl

text \<open>A settled creation returns the worker of the item it rejects, and no other outcome holds one.\<close>

fun settled_worker :: "('w, 'r, 'n, 'err, 'ini) worker_creation_settlement \<Rightarrow> 'w option" where
  "settled_worker (Unattempted item) = Some (recover_worker item)"
| "settled_worker (Attempted (ItemRejected item e)) = Some (recover_worker item)"
| "settled_worker (Attempted (ItemBlocked item p)) = Some (recover_worker item)"
| "settled_worker (Attempted (ItemCorrupt item f)) = Some (recover_worker item)"
| "settled_worker (Attempted (ItemAccepted (ChildEstablished child))) = None"
| "settled_worker (Attempted (ItemAccepted (ChildUnavailable i k))) = None"
| "settled_worker (Attempted (ItemAccepted (InitializationRejected creation e))) = Some (recover_worker creation)"
| "settled_worker (Attempted (ItemAccepted (InitializationPanicked creation))) = Some (recover_worker creation)"
| "settled_worker (Attempted (ItemAccepted (HostRejected creation a e))) = Some (recover_worker creation)"

fun rejection_worker :: "('w, 'err, 'ini) worker_creation_rejection \<Rightarrow> 'w option" where
  "rejection_worker (WorkerUnavailable i k) = None"
| "rejection_worker (NamespaceExhausted w) = Some w"
| "rejection_worker (WorkerRejected w e) = Some w"
| "rejection_worker (WorkerPanicked w) = Some w"
| "rejection_worker (WorkerHostRejected recovery e) = Some (recovered_worker recovery)"
| "rejection_worker (WorkerCreationRejected w e) = Some w"
| "rejection_worker (WorkerInterpreterCorrupt w f) = Some w"
| "rejection_worker (InterpretationSkipped w) = Some w"

fun creation_outcome_worker :: "('w, 'r, 'err, 'ini) worker_creation_outcome \<Rightarrow> 'w option" where
  "creation_outcome_worker (WorkerEstablished actor) = None"
| "creation_outcome_worker (WorkerNotCreated rejection) = rejection_worker rejection"

lemma settle_worker_creation_returns:
  "creation_outcome_worker (settle_worker_creation s) = settled_worker s"
  by (induction s rule: settle_worker_creation.induct) simp_all

end
