(* ===== verification/Proxy_State.thy ===== *)
theory Proxy_State
  imports Worker
begin

text \<open>
  The data of a stable proxy (\<^verbatim>\<open>actors/src/templates/proxy/\<close>): its commands, events, owner outcomes
  and diagnostics (\<^verbatim>\<open>protocol.rs\<close>), the send lanes (\<^verbatim>\<open>effects.rs\<close>), the states of its aggregate
  (\<^verbatim>\<open>state.rs\<close>), and the values it keeps of a worker that is being created, is current or is
  departing (\<^verbatim>\<open>worker/mod.rs\<close>) with their operations.

  The type variables are, throughout: \<open>'w\<close> the worker, \<open>'p\<close> its startup plan, \<open>'d\<close> and \<open>'j\<close> what the
  plan returns when it is ready or rejects, \<open>'err\<close> and \<open>'ini\<close> the worker's error and its hosted
  initialization actions, \<open>'a\<close> addresses, \<open>'r\<close> endpoints, \<open>'n\<close> routes of creations, \<open>'m\<close> messages.
\<close>

section \<open>Control flow\<close>

datatype (plugins only: code) ('b, 'c) control_flow = FlowBreak 'b | FlowContinue 'c

section \<open>Protocol\<close>

datatype (plugins only: code) ('w, 'p) proxy_command =
    ProxyStart "('w, 'p) worker_submission"
  | ProxyReplace "('w, 'p) worker_submission"
  | ProxyShutdownCommand

datatype (plugins only: code) proxy_phase =
    PhaseDormant | PhaseCreating | PhaseInitializing | PhaseStarting | PhaseReady | PhaseEmptyInitial
  | PhaseEmptyAfter | PhaseReplacing | PhaseReturningWorker | PhaseShuttingDown | PhaseStopped

datatype (plugins only: code) ('p, 'd, 'j, 'a, 'r) proxy_drain =
    DrainInitializationRejected worker_initialization_failure 'p "shutdown_resolved option" "'a child_stopped"
  | DrainInitializationStopped 'p "'a child_stopped option" "'a child_stopped"
  | DrainInitializationCompleted "'r startup_permit" 'p "'a child_stopped"
  | DrainStartupRefused "('r, 'p) start_worker" startup_rejection "shutdown_resolved option" "'a child_stopped"
  | DrainStartupRejected 'j "shutdown_resolved option" "'a child_stopped"
  | DrainStartupCompleted 'd "'a child_stopped"

datatype (plugins only: code) ('w, 'p, 'd, 'j, 'err, 'ini, 'a, 'r) worker_start_result =
    ResultCreationRejected "('w, 'err, 'ini) worker_creation_rejection" 'p "'a child_stopped option"
  | ResultReady worker_attempt 'd
  | ResultUnavailable worker_attempt "('p, 'd, 'j, 'a, 'r) proxy_drain"

datatype (plugins only: code) ('w, 'p, 'd, 'j, 'err, 'ini, 'a, 'r) initial_worker_outcome =
    InitialOverlap 'w 'p proxy_phase
  | InitialAttemptsExhausted 'w 'p
  | InitialResolved "('w, 'p, 'd, 'j, 'err, 'ini, 'a, 'r) worker_start_result"

datatype (plugins only: code) ('w, 'p, 'd, 'j, 'err, 'ini, 'a, 'r) replacement_outcome =
    NotReplaceable 'w 'p proxy_phase
  | ReplacementAttemptsExhausted worker_attempt 'w 'p
  | CancelledBeforeBirth worker_attempt 'w 'p
  | ReplacementResolved worker_attempt "('w, 'p, 'd, 'j, 'err, 'ini, 'a, 'r) worker_start_result"

datatype (plugins only: code) ('w, 'p, 'd, 'j, 'err, 'ini, 'a, 'r, 'm) proxy_outcome =
    OutcomeInitial "('w, 'p, 'd, 'j, 'err, 'ini, 'a, 'r) initial_worker_outcome"
  | OutcomeReplacement "('w, 'p, 'd, 'j, 'err, 'ini, 'a, 'r) replacement_outcome"
  | OutcomeWorkerStopped worker_attempt "'a child_stopped"
  | OutcomeUnavailable 'a proxy_phase 'm

type_synonym ('w, 'r, 'n, 'err, 'ini) workers_settled = "('w hosted, 'r, 'n, 'err, 'ini) children_settled"

datatype (plugins only: code) ('w, 'p, 'd, 'j, 'err, 'ini, 'a, 'r, 'n) proxy_diagnostic =
    UnexpectedWorkerStart proxy_phase "('w, 'r, 'n, 'err, 'ini) workers_settled"
  | UnexpectedWorkerStop proxy_phase "'a child_stopped"
  | UnexpectedWorkerInitialization proxy_phase "('r, 'p, 'a) worker_initialization_report"
  | UnexpectedWorkerStartup proxy_phase "('r, 'p, 'd, 'j) worker_startup"
  | UnexpectedWorkerShutdown proxy_phase shutdown_resolved

datatype (plugins only: code) ('w, 'p, 'd, 'j, 'err, 'ini, 'a, 'r, 'n, 'm) proxy_event =
    EventService "('a, 'm) user"
  | EventOwner "('w, 'p) proxy_command"
  | EventWorkersCreated "('w, 'r, 'n, 'err, 'ini) workers_settled"
  | EventWorkerInitialization "('r, 'p, 'a) worker_initialization_report"
  | EventWorkerStartup "('r, 'p, 'd, 'j) worker_startup"
  | EventWorkerShutdown shutdown_resolved
  | EventWorkerStopped "'a child_stopped"

definition proxy_user :: "(('w, 'p, 'd, 'j, 'err, 'ini, 'a, 'r, 'n, 'm) proxy_event, 'a, 'm) user_event" where
  "proxy_user = \<lparr>mk_user = (\<lambda>f m. EventService \<lparr>user_from = f, user_message = m\<rparr>),
     into_user = (\<lambda>e. case e of EventService service \<Rightarrow> Inr service | other \<Rightarrow> Inl other)\<rparr>"

section \<open>Send lanes\<close>

record ('w, 'p, 'd, 'j, 'err, 'ini, 'a, 'r, 'n, 'm) proxy_effects =
  worker_observations :: "creation_id list"
  worker_initializations :: "('r, 'p) initialize_worker list"
  worker_startups :: "('r, 'p) start_worker list"
  worker_shutdowns :: "'r shutdown_established list"
  worker_deliveries :: "('r, 'm) delivery list"
  owner_outcomes :: "('w, 'p, 'd, 'j, 'err, 'ini, 'a, 'r, 'm) proxy_outcome list"
  proxy_diagnostics :: "('w, 'p, 'd, 'j, 'err, 'ini, 'a, 'r, 'n) proxy_diagnostic list"

definition no_effects :: "('w, 'p, 'd, 'j, 'err, 'ini, 'a, 'r, 'n, 'm) proxy_effects" where
  "no_effects = \<lparr>worker_observations = [], worker_initializations = [], worker_startups = [],
     worker_shutdowns = [], worker_deliveries = [], owner_outcomes = [], proxy_diagnostics = []\<rparr>"

text \<open>The derived product: every lane appends its own.\<close>

definition proxy_sends :: "('w, 'p, 'd, 'j, 'err, 'ini, 'a, 'r, 'n, 'm) proxy_effects send_effects" where
  "proxy_sends = \<lparr>empty_sends = no_effects, append_sends = (\<lambda>x y.
     \<lparr>worker_observations = worker_observations x @ worker_observations y,
      worker_initializations = worker_initializations x @ worker_initializations y,
      worker_startups = worker_startups x @ worker_startups y,
      worker_shutdowns = worker_shutdowns x @ worker_shutdowns y,
      worker_deliveries = worker_deliveries x @ worker_deliveries y,
      owner_outcomes = owner_outcomes x @ owner_outcomes y,
      proxy_diagnostics = proxy_diagnostics x @ proxy_diagnostics y\<rparr>)\<rparr>"

type_synonym ('w, 'p, 'd, 'j, 'err, 'ini, 'a, 'r, 'n, 'm) proxy_actions =
  "(('w, 'p, 'd, 'j, 'err, 'ini, 'a, 'r, 'n, 'm) proxy_effects, 'w hosted create_child, never) actions"

section \<open>A worker that is being created\<close>

record 'p pending_worker =
  pending_attempt :: worker_attempt
  pending_initialization :: initialization_attempt
  pending_kind :: creation_kind
  pending_startup :: 'p

definition await_creation :: "heap \<Rightarrow> 'p \<Rightarrow> 'w hosted create_child
    \<Rightarrow> heap \<times> 'p pending_worker \<times> 'w hosted create_child" where
  "await_creation h startup request =
     (let (h1, attempt) = attempt_issued h (create_id request);
          (h2, initialization) = initialization_issued h1 attempt
      in (h2, \<lparr>pending_attempt = attempt, pending_initialization = initialization,
               pending_kind = create_kind request, pending_startup = startup\<rparr>, request))"

definition pending_birth :: "heap \<Rightarrow> creation_sequence \<Rightarrow> 'w \<Rightarrow> 'p
    \<Rightarrow> heap \<times> creation_sequence \<times> ('w \<times> 'p + 'p pending_worker \<times> 'w hosted create_child)" where
  "pending_birth h creations worker startup = (case creation_issue creations of
      (creations', None) \<Rightarrow> (h, creations', Inl (worker, startup))
    | (creations', Some creation) \<Rightarrow>
        (let (h', issued) = await_creation h startup (create_birth creation (StopOnShutdown worker))
         in (h', creations', Inr issued)))"

definition pending_replacement :: "heap \<Rightarrow> creation_sequence \<Rightarrow> creation_id \<Rightarrow> 'w \<Rightarrow> 'p
    \<Rightarrow> heap \<times> creation_sequence \<times> ('w \<times> 'p + 'p pending_worker \<times> 'w hosted create_child)" where
  "pending_replacement h creations previous worker startup = (case creation_issue creations of
      (creations', None) \<Rightarrow> (h, creations', Inl (worker, startup))
    | (creations', Some creation) \<Rightarrow>
        (let (h', issued) = await_creation h startup (create_replacement creation previous (StopOnShutdown worker))
         in (h', creations', Inr issued)))"

definition pending_creation :: "'p pending_worker \<Rightarrow> creation_id" where
  "pending_creation worker = attempt_creation (pending_attempt worker)"

definition pending_cancel :: "'p pending_worker \<Rightarrow> 'w hosted create_child \<Rightarrow> worker_attempt \<times> 'w \<times> 'p" where
  "pending_cancel worker creation = (let (i, child, k) = create_into_parts creation in
     (pending_attempt worker, into_inner child, pending_startup worker))"

definition pending_admit_stop :: "'p pending_worker \<Rightarrow> 'a child_stopped \<Rightarrow> 'a child_stopped + 'a child_stopped" where
  "pending_admit_stop worker stopped =
     (if stopped_child stopped = attempt_creation (pending_attempt worker) then Inr stopped else Inl stopped)"

definition admit_creation :: "'p pending_worker \<Rightarrow> ('w, 'r, 'n, 'err, 'ini) worker_creation_settlement
    \<Rightarrow> ('w, 'r, 'n, 'err, 'ini) worker_creation_settlement + ('w, 'r, 'n, 'err, 'ini) worker_creation_settlement" where
  "admit_creation worker settlement =
     (if settlement_identity settlement = (attempt_creation (pending_attempt worker), pending_kind worker)
      then Inr settlement else Inl settlement)"

section \<open>The current worker\<close>

record 'r current_worker =
  current_attempt :: worker_attempt
  current_initialization :: initialization_attempt
  current_actor :: "'r established_actor"

definition current_admit_stop :: "'r current_worker \<Rightarrow> 'a child_stopped \<Rightarrow> 'a child_stopped + 'a child_stopped" where
  "current_admit_stop worker stopped =
     (if stopped_child stopped = attempt_creation (current_attempt worker) then Inr stopped else Inl stopped)"

definition admit_initialization :: "'r current_worker \<Rightarrow> ('r, 'p, 'a) worker_initialization_report
    \<Rightarrow> ('r, 'p, 'a) worker_initialization_report + ('r, 'p, 'a) worker_initialization_report" where
  "admit_initialization worker input =
     (if report_worker input = current_attempt worker \<and> report_initialization input = current_initialization worker
      then Inr input else Inl input)"

datatype (plugins only: code) ('w, 'p, 'err, 'ini, 'a, 'r, 'n) worker_creation =
    CreationInitializing "'r current_worker" 'p "'a child_stopped option"
  | CreationNotCommitted "('w, 'err, 'ini) worker_creation_rejection" 'p "'a child_stopped option"
  | CreationUnexpected "'p pending_worker" "'a child_stopped option" "('w, 'r, 'n, 'err, 'ini) workers_settled"

definition created_one :: "'p pending_worker \<Rightarrow> ('w, 'r, 'n, 'err, 'ini) worker_creation_settlement
    \<Rightarrow> 'a child_stopped option \<Rightarrow> ('w, 'p, 'err, 'ini, 'a, 'r, 'n) worker_creation" where
  "created_one pending worker stopped = (case admit_creation pending worker of
      Inr settlement \<Rightarrow> (case settle_worker_creation settlement of
          WorkerEstablished actor \<Rightarrow> CreationInitializing
            \<lparr>current_attempt = pending_attempt pending, current_initialization = pending_initialization pending,
             current_actor = actor\<rparr> (pending_startup pending) stopped
        | WorkerNotCreated rejection \<Rightarrow> CreationNotCommitted rejection (pending_startup pending) stopped)
    | Inl settlement \<Rightarrow> CreationUnexpected pending stopped (CreationsSettled (creations_one settlement)))"

definition worker_created :: "'p pending_worker \<Rightarrow> ('w, 'r, 'n, 'err, 'ini) workers_settled
    \<Rightarrow> 'a child_stopped option \<Rightarrow> ('w, 'p, 'err, 'ini, 'a, 'r, 'n) worker_creation" where
  "worker_created pending workers stopped = (case workers of
      CreationsRejected creations reason \<Rightarrow> (case creations_into_one creations of
          Inl creations \<Rightarrow> CreationUnexpected pending stopped (CreationsRejected creations reason)
        | Inr creation \<Rightarrow>
            if (create_id creation, create_kind creation) \<noteq> (pending_creation pending, pending_kind pending)
            then CreationUnexpected pending stopped (CreationsRejected (creations_one creation) reason)
            else (let (i, worker, k) = create_into_parts creation in
              CreationNotCommitted (NamespaceExhausted (into_inner worker)) (pending_startup pending) stopped))
    | CreationsSettled settlements \<Rightarrow> (case creations_into_one settlements of
          Inl settlements \<Rightarrow> CreationUnexpected pending stopped (CreationsSettled settlements)
        | Inr settlement \<Rightarrow> created_one pending settlement stopped)
    | CreationsCorrupt creations fault \<Rightarrow>
        CreationUnexpected pending stopped (CreationsCorrupt creations fault))"

section \<open>A departing worker\<close>

datatype (plugins only: code) worker_shutdown = ShutdownRequestedAs shutdown_id | ShutdownSettledBy shutdown_resolved

record ('a, 'r) worker_stopping =
  stopping_worker :: "'r current_worker"
  stopping_shutdown :: worker_shutdown
  stopping_stopped :: "'a child_stopped option"

record ('a, 'r) stopped_worker =
  stopped_current :: "'r current_worker"
  stopped_shutdown :: shutdown_resolved
  stopped_stop :: "'a child_stopped"

definition stopping_begin :: "'r current_worker \<Rightarrow> ('a, 'r) worker_stopping \<times> 'r shutdown_established" where
  "stopping_begin worker =
     (let shutdown = \<lparr>shutdown_request_id = ShutdownId (creation_id_get (attempt_creation (current_attempt worker))),
                      shutdown_actor = current_actor worker\<rparr>
      in (\<lparr>stopping_worker = worker, stopping_shutdown = ShutdownRequestedAs (shutdown_request_id shutdown),
           stopping_stopped = None\<rparr>, shutdown))"

definition stopping_complete :: "('a, 'r) worker_stopping
    \<Rightarrow> (('a, 'r) stopped_worker, ('a, 'r) worker_stopping) control_flow" where
  "stopping_complete d = (case (stopping_shutdown d, stopping_stopped d) of
      (ShutdownSettledBy shutdown, Some stopped) \<Rightarrow> FlowBreak
        \<lparr>stopped_current = stopping_worker d, stopped_shutdown = shutdown, stopped_stop = stopped\<rparr>
    | (shutdown, stopped) \<Rightarrow> FlowContinue
        \<lparr>stopping_worker = stopping_worker d, stopping_shutdown = shutdown, stopping_stopped = stopped\<rparr>)"

definition stopping_resolved :: "('a, 'r) worker_stopping \<Rightarrow> shutdown_resolved
    \<Rightarrow> ('a, 'r) worker_stopping \<times> shutdown_resolved
       + (('a, 'r) stopped_worker, ('a, 'r) worker_stopping) control_flow" where
  "stopping_resolved d input = (case stopping_shutdown d of
      ShutdownRequestedAs expected \<Rightarrow>
        if resolved_id input = expected
        then Inr (stopping_complete \<lparr>stopping_worker = stopping_worker d,
               stopping_shutdown = ShutdownSettledBy input, stopping_stopped = stopping_stopped d\<rparr>)
        else Inl (d, input)
    | ShutdownSettledBy shutdown \<Rightarrow> Inl (d, input))"

definition stopping_worker_stopped :: "('a, 'r) worker_stopping \<Rightarrow> 'a child_stopped
    \<Rightarrow> ('a, 'r) worker_stopping \<times> 'a child_stopped
       + (('a, 'r) stopped_worker, ('a, 'r) worker_stopping) control_flow" where
  "stopping_worker_stopped d input = (case stopping_stopped d of
      None \<Rightarrow> (case current_admit_stop (stopping_worker d) input of
          Inr stopped \<Rightarrow> Inr (stopping_complete \<lparr>stopping_worker = stopping_worker d,
               stopping_shutdown = stopping_shutdown d, stopping_stopped = Some stopped\<rparr>)
        | Inl input \<Rightarrow> Inl (d, input))
    | Some stopped \<Rightarrow> Inl (d, input))"

definition into_stopped_before_shutdown :: "('a, 'r) worker_stopping
    \<Rightarrow> ('a, 'r) worker_stopping + 'r current_worker \<times> shutdown_id \<times> 'a child_stopped" where
  "into_stopped_before_shutdown d = (case (stopping_shutdown d, stopping_stopped d) of
      (ShutdownRequestedAs shutdown, Some stopped) \<Rightarrow> Inr (stopping_worker d, shutdown, stopped)
    | _ \<Rightarrow> Inl d)"

section \<open>The states of a proxy\<close>

datatype (plugins only: code) ('p, 'j, 'r) pre_ready_failure =
    FailedInitializationEffects worker_initialization_failure 'p
  | FailedStartupRefused "('r, 'p) start_worker" startup_rejection
  | FailedStartupRejected 'j

datatype (plugins only: code) predecessor_shutdown = PredecessorSettled | PredecessorAwaiting shutdown_id

datatype (plugins only: code) worker_start_kind = StartInitial | StartReplacement worker_attempt predecessor_shutdown

datatype (plugins only: code) ('w, 'p, 'd, 'j, 'err, 'ini, 'a, 'r) replacement_completion =
    CompletedReady "'r current_worker" "('w, 'p, 'd, 'j, 'err, 'ini, 'a, 'r) worker_start_result"
  | CompletedReadyAfterStop worker_attempt "('w, 'p, 'd, 'j, 'err, 'ini, 'a, 'r) worker_start_result" "'a child_stopped"
  | CompletedEmpty worker_attempt "('w, 'p, 'd, 'j, 'err, 'ini, 'a, 'r) worker_start_result"

datatype (plugins only: code) ('w, 'p, 'd, 'j, 'err, 'ini, 'a, 'r) proxy_replacement =
    ReplacementReturningPredecessor "('a, 'r) worker_stopping" "'p pending_worker" "'w hosted create_child"
  | SuccessorResultAwaitingShutdown worker_attempt shutdown_id
      "('w, 'p, 'd, 'j, 'err, 'ini, 'a, 'r) replacement_completion"

datatype (plugins only: code) startup_progress = WaitingForStart worker_startup_grant | StartRunning worker_startup_grant

datatype (plugins only: code) ('p, 'd, 'j, 'r) worker_startup_retirement =
    RetiredStartRejected "('r, 'p) start_worker" startup_rejection
  | RetiredStartReady 'd
  | RetiredStartRefused 'j

datatype (plugins only: code) ('p, 'd, 'j, 'r) startup_during_departure =
    StartupPending startup_progress
  | StartupReturned "('p, 'd, 'j, 'r) worker_startup_retirement"

datatype (plugins only: code) ('p, 'd, 'j, 'a, 'r) worker_startup_shutdown =
    StartupDeparting "('p, 'd, 'j, 'r) startup_during_departure" "('a, 'r) worker_stopping"
  | WaitingForStartup startup_progress "'r current_worker" "shutdown_resolved option" "'a child_stopped"

datatype (plugins only: code) ('p, 'j, 'a, 'r) worker_start_phase =
    StartCreating "'p pending_worker" "'a child_stopped option"
  | StartInitializing "'r current_worker" "'a child_stopped option"
  | StartStarting "'r current_worker" startup_progress "'a child_stopped option"
  | StartReturningWorker "('a, 'r) worker_stopping" "('p, 'j, 'r) pre_ready_failure"

record ('p, 'j, 'a, 'r) worker_start =
  start_kind :: worker_start_kind
  start_phase :: "('p, 'j, 'a, 'r) worker_start_phase"

datatype (plugins only: code) ('p, 'a, 'r) worker_initialization_retirement =
    RetiredInitialized "'r startup_permit" 'p
  | RetiredEffectsRejected worker_initialization_failure 'p
  | RetiredInitializationStopped 'p "'a child_stopped option"

datatype (plugins only: code) ('p, 'a, 'r) worker_initialization_shutdown =
    InitializationDeparting "('p, 'a, 'r) worker_initialization_retirement option" "('a, 'r) worker_stopping"
  | WaitingForInitialization "'r current_worker" "shutdown_resolved option" "'a child_stopped"

datatype (plugins only: code) ('w, 'p, 'd, 'j, 'err, 'ini, 'a, 'r) worker_start_retirement =
    RetiredResult "('w, 'p, 'd, 'j, 'err, 'ini, 'a, 'r) worker_start_result"
  | RetiredInitialization "('p, 'a, 'r) worker_initialization_retirement" "'r current_worker"
      "shutdown_resolved option" "'a child_stopped"
  | RetiredStartup "('p, 'd, 'j, 'r) worker_startup_retirement" "'r current_worker"
      "shutdown_resolved option" "'a child_stopped"
  | RetiredReadyWorker "('w, 'p, 'd, 'j, 'err, 'ini, 'a, 'r) worker_start_result" "('a, 'r) stopped_worker"
  | RetiredCompletion "('w, 'p, 'd, 'j, 'err, 'ini, 'a, 'r) replacement_completion"

datatype (plugins only: code) ('w, 'p, 'd, 'j, 'err, 'ini, 'a, 'r) proxy_retirement =
    RetiredEmpty "worker_attempt option"
  | RetiredReplacementCancelled worker_attempt worker_attempt "('a, 'r) stopped_worker"
  | RetiredWorker "('a, 'r) stopped_worker"
  | RetiredWorkerStart "worker_attempt option" "('w, 'p, 'd, 'j, 'err, 'ini, 'a, 'r) worker_start_retirement"
  | RetiredAfterPredecessor worker_attempt shutdown_resolved
      "('w, 'p, 'd, 'j, 'err, 'ini, 'a, 'r) worker_start_retirement"

datatype (plugins only: code) predecessor_return = ReturnAwaiting shutdown_id | ReturnReturned shutdown_resolved

datatype (plugins only: code) ('w, 'p, 'd, 'j, 'err, 'ini, 'a, 'r) proxy_shutdown =
    WaitingForCreation "('p, 'j, 'a, 'r) worker_start"
  | ReturningWorker "('a, 'r) worker_stopping"
  | ReturningWorkerStart worker_start_kind "('a, 'r) worker_stopping" "('p, 'j, 'r) pre_ready_failure"
  | ShutdownReturningPredecessor "('a, 'r) worker_stopping" worker_attempt worker_attempt
  | ReturningSuccessor worker_attempt predecessor_return "('a, 'r) worker_stopping"
      "('w, 'p, 'd, 'j, 'err, 'ini, 'a, 'r) worker_start_result"
  | ShutdownInitializing worker_start_kind "('p, 'a, 'r) worker_initialization_shutdown"
  | ShutdownStarting worker_start_kind "('p, 'd, 'j, 'a, 'r) worker_startup_shutdown"
  | WaitingForPredecessor worker_attempt shutdown_id
      "('w, 'p, 'd, 'j, 'err, 'ini, 'a, 'r) worker_start_retirement"

datatype (plugins only: code) ('w, 'p, 'd, 'j, 'err, 'ini, 'a, 'r) proxy_state =
    ProxyDormant
  | ProxyStarting "('p, 'j, 'a, 'r) worker_start"
  | ProxyReady "'r current_worker"
  | ProxyEmptyInitial
  | ProxyEmptyAfter worker_attempt
  | ProxyReplacing "('w, 'p, 'd, 'j, 'err, 'ini, 'a, 'r) proxy_replacement"
  | ProxyShuttingDown "('w, 'p, 'd, 'j, 'err, 'ini, 'a, 'r) proxy_shutdown"
  | ProxyStopped "('w, 'p, 'd, 'j, 'err, 'ini, 'a, 'r) proxy_retirement"

fun state_phase :: "('w, 'p, 'd, 'j, 'err, 'ini, 'a, 'r) proxy_state \<Rightarrow> proxy_phase" where
  "state_phase ProxyDormant = PhaseDormant"
| "state_phase (ProxyStarting start) = (case start_phase start of
      StartCreating worker stopped \<Rightarrow> PhaseCreating
    | StartInitializing worker stopped \<Rightarrow> PhaseInitializing
    | StartStarting worker progress stopped \<Rightarrow> PhaseStarting
    | StartReturningWorker departure failure \<Rightarrow> PhaseReturningWorker)"
| "state_phase (ProxyReady worker) = PhaseReady"
| "state_phase ProxyEmptyInitial = PhaseEmptyInitial"
| "state_phase (ProxyEmptyAfter previous) = PhaseEmptyAfter"
| "state_phase (ProxyReplacing replacement) = PhaseReplacing"
| "state_phase (ProxyShuttingDown shutdown) = PhaseShuttingDown"
| "state_phase (ProxyStopped retirement) = PhaseStopped"

record ('w, 'p, 'd, 'j, 'err, 'ini, 'a, 'r) stable_proxy =
  proxy_state :: "('w, 'p, 'd, 'j, 'err, 'ini, 'a, 'r) proxy_state"
  proxy_creations :: creation_sequence

definition dormant_proxy :: "('w, 'p, 'd, 'j, 'err, 'ini, 'a, 'r) stable_proxy" where
  "dormant_proxy = \<lparr>proxy_state = ProxyDormant, proxy_creations = creation_sequence_new\<rparr>"

definition proxy_phase_of :: "('w, 'p, 'd, 'j, 'err, 'ini, 'a, 'r) stable_proxy \<Rightarrow> proxy_phase" where
  "proxy_phase_of proxy = state_phase (proxy_state proxy)"

end
