(* ===== verification/Proxy.thy ===== *)
theory Proxy
  imports Proxy_State
begin

text \<open>
  The transitions of a stable proxy (\<^verbatim>\<open>actors/src/templates/proxy/mod.rs\<close>), in the order of the
  source: service, owner commands, creation, replacement, owner shutdown, startup, initialization
  and shutdown settlement. A transition returns the next proxy and its actions; the three that
  issue evidence also take the heap and return it.
\<close>

section \<open>Actions\<close>

definition proxy_with :: "creation_sequence \<Rightarrow> ('w, 'p, 'd, 'j, 'err, 'ini, 'a, 'r) proxy_state
    \<Rightarrow> ('w, 'p, 'd, 'j, 'err, 'ini, 'a, 'r) stable_proxy" where
  "proxy_with creations state = \<lparr>proxy_state = state, proxy_creations = creations\<rparr>"

definition proxy_report :: "('w, 'p, 'd, 'j, 'err, 'ini, 'a, 'r, 'm) proxy_outcome
    \<Rightarrow> ('w, 'p, 'd, 'j, 'err, 'ini, 'a, 'r, 'n, 'm) proxy_actions" where
  "proxy_report outcome = send_actions (no_effects\<lparr>owner_outcomes := [outcome]\<rparr>)"

definition proxy_diagnose :: "('w, 'p, 'd, 'j, 'err, 'ini, 'a, 'r, 'n) proxy_diagnostic
    \<Rightarrow> ('w, 'p, 'd, 'j, 'err, 'ini, 'a, 'r, 'n, 'm) proxy_actions" where
  "proxy_diagnose diagnostic = send_actions (no_effects\<lparr>proxy_diagnostics := [diagnostic]\<rparr>)"

definition create_worker :: "creation_id \<Rightarrow> 'w hosted create_child
    \<Rightarrow> ('w, 'p, 'd, 'j, 'err, 'ini, 'a, 'r, 'n, 'm) proxy_actions" where
  "create_worker observation creation =
     new_actions (no_effects\<lparr>worker_observations := [observation]\<rparr>) (creations_one creation) Continue"

definition request_worker_shutdown :: "'r shutdown_established
    \<Rightarrow> ('w, 'p, 'd, 'j, 'err, 'ini, 'a, 'r, 'n, 'm) proxy_actions" where
  "request_worker_shutdown shutdown = send_actions (no_effects\<lparr>worker_shutdowns := [shutdown]\<rparr>)"

definition report_pair :: "('w, 'p, 'd, 'j, 'err, 'ini, 'a, 'r, 'm) proxy_outcome
    \<Rightarrow> ('w, 'p, 'd, 'j, 'err, 'ini, 'a, 'r, 'm) proxy_outcome
    \<Rightarrow> ('w, 'p, 'd, 'j, 'err, 'ini, 'a, 'r, 'n, 'm) proxy_actions" where
  "report_pair earlier later = send_actions (no_effects\<lparr>owner_outcomes := [earlier, later]\<rparr>)"

definition request_initialization :: "('r, 'p) initialize_worker
    \<Rightarrow> ('w, 'p, 'd, 'j, 'err, 'ini, 'a, 'r, 'n, 'm) proxy_actions" where
  "request_initialization q = send_actions (no_effects\<lparr>worker_initializations := [q]\<rparr>)"

definition initialize_and_shutdown :: "('r, 'p) initialize_worker \<Rightarrow> 'r shutdown_established
    \<Rightarrow> ('w, 'p, 'd, 'j, 'err, 'ini, 'a, 'r, 'n, 'm) proxy_actions" where
  "initialize_and_shutdown q shutdown =
     send_actions (no_effects\<lparr>worker_initializations := [q], worker_shutdowns := [shutdown]\<rparr>)"

definition begin_startup :: "('r, 'p) start_worker
    \<Rightarrow> ('w, 'p, 'd, 'j, 'err, 'ini, 'a, 'r, 'n, 'm) proxy_actions" where
  "begin_startup q = send_actions (no_effects\<lparr>worker_startups := [q]\<rparr>)"

abbreviation proxy_cont :: "('w, 'p, 'd, 'j, 'err, 'ini, 'a, 'r, 'n, 'm) proxy_actions" where
  "proxy_cont \<equiv> cont proxy_sends"

section \<open>Inputs the current state does not admit\<close>

definition unexpected_stop where
  "unexpected_stop creations state stopped =
     (proxy_with creations state, proxy_diagnose (UnexpectedWorkerStop (state_phase state) stopped))"

definition unexpected_shutdown where
  "unexpected_shutdown creations state shutdown =
     (proxy_with creations state, proxy_diagnose (UnexpectedWorkerShutdown (state_phase state) shutdown))"

definition unexpected_startup where
  "unexpected_startup creations state startup =
     (proxy_with creations state, proxy_diagnose (UnexpectedWorkerStartup (state_phase state) startup))"

definition unexpected_worker_start where
  "unexpected_worker_start creations shutdown workers =
     (proxy_with creations (ProxyShuttingDown shutdown),
      proxy_diagnose (UnexpectedWorkerStart PhaseShuttingDown workers))"

definition unexpected_initialization where
  "unexpected_initialization creations shutdown initialization =
     (proxy_with creations (ProxyShuttingDown shutdown),
      proxy_diagnose (UnexpectedWorkerInitialization PhaseShuttingDown initialization))"

definition unexpected_shutdown_startup where
  "unexpected_shutdown_startup creations shutdown startup =
     (proxy_with creations (ProxyShuttingDown shutdown),
      proxy_diagnose (UnexpectedWorkerStartup PhaseShuttingDown startup))"

definition unexpected_start_initialization where
  "unexpected_start_initialization creations kind worker stopped initialization =
     (proxy_with creations (ProxyStarting \<lparr>start_kind = kind, start_phase = StartInitializing worker stopped\<rparr>),
      proxy_diagnose (UnexpectedWorkerInitialization PhaseInitializing initialization))"

section \<open>Service\<close>

definition service where
  "service current user = (case proxy_state current of
      ProxyReady worker \<Rightarrow>
        (proxy_with (proxy_creations current) (ProxyReady worker),
         send_actions (no_effects\<lparr>worker_deliveries :=
           [\<lparr>deliver_to = recipient (current_actor worker), delivered = user_message user\<rparr>]\<rparr>))
    | state \<Rightarrow>
        (proxy_with (proxy_creations current) state,
         proxy_report (OutcomeUnavailable (user_from user) (state_phase state) (user_message user))))"

section \<open>Replacement\<close>

definition publish_replacement where
  "publish_replacement creations replaces completion = (case completion of
      CompletedReady worker result \<Rightarrow>
        (proxy_with creations (ProxyReady worker),
         proxy_report (OutcomeReplacement (ReplacementResolved replaces result)))
    | CompletedEmpty worker result \<Rightarrow>
        (proxy_with creations (ProxyEmptyAfter worker),
         proxy_report (OutcomeReplacement (ReplacementResolved replaces result)))
    | CompletedReadyAfterStop worker result stopped \<Rightarrow>
        (proxy_with creations (ProxyEmptyAfter worker),
         report_pair (OutcomeReplacement (ReplacementResolved replaces result))
           (OutcomeWorkerStopped worker stopped)))"

definition finish_replacement where
  "finish_replacement creations replaces predecessor completion = (case predecessor of
      PredecessorAwaiting i \<Rightarrow>
        (proxy_with creations (ProxyReplacing (SuccessorResultAwaitingShutdown replaces i completion)), proxy_cont)
    | PredecessorSettled \<Rightarrow> publish_replacement creations replaces completion)"

definition start_successor_after_stop where
  "start_successor_after_stop creations replaces predecessor successor creation stopped =
     (proxy_with creations (ProxyStarting \<lparr>start_kind = StartReplacement replaces predecessor,
        start_phase = StartCreating successor None\<rparr>),
      new_actions (no_effects\<lparr>worker_observations := [pending_creation successor],
          owner_outcomes := [OutcomeWorkerStopped replaces stopped]\<rparr>)
        (creations_one creation) Continue)"

definition replace_worker where
  "replace_worker h current worker startup = (case proxy_state current of
      ProxyReady current_worker \<Rightarrow>
        (let replaces = current_attempt current_worker in
         case pending_replacement h (proxy_creations current) (attempt_creation replaces) worker startup of
           (h', creations, Inr (successor, creation)) \<Rightarrow>
             (let (departure, shutdown) = stopping_begin current_worker in
              (h', (proxy_with creations (ProxyReplacing (ReplacementReturningPredecessor departure successor creation)),
                    request_worker_shutdown shutdown)))
         | (h', creations, Inl (worker, startup)) \<Rightarrow>
             (h', (proxy_with creations (ProxyReady current_worker),
                   proxy_report (OutcomeReplacement (ReplacementAttemptsExhausted replaces worker startup)))))
    | ProxyEmptyAfter previous \<Rightarrow>
        (case pending_replacement h (proxy_creations current) (attempt_creation previous) worker startup of
           (h', creations, Inr (pending, creation)) \<Rightarrow>
             (h', (proxy_with creations (ProxyStarting \<lparr>start_kind = StartReplacement previous PredecessorSettled,
                     start_phase = StartCreating pending None\<rparr>),
                   create_worker (pending_creation pending) creation))
         | (h', creations, Inl (worker, startup)) \<Rightarrow>
             (h', (proxy_with creations (ProxyEmptyAfter previous),
                   proxy_report (OutcomeReplacement (ReplacementAttemptsExhausted previous worker startup)))))
    | state \<Rightarrow>
        (h, (proxy_with (proxy_creations current) state,
             proxy_report (OutcomeReplacement (NotReplaceable worker startup (state_phase state))))))"

definition replacement_worker_stopped where
  "replacement_worker_stopped creations replacement stopped = (case replacement of
      ReplacementReturningPredecessor departure successor creation \<Rightarrow>
        (case stopping_worker_stopped departure stopped of
           Inr (FlowContinue departure) \<Rightarrow> (case into_stopped_before_shutdown departure of
               Inr (worker, shutdown, stopped) \<Rightarrow>
                 start_successor_after_stop creations (current_attempt worker) (PredecessorAwaiting shutdown)
                   successor creation stopped
             | Inl departure \<Rightarrow>
                 (proxy_with creations (ProxyReplacing (ReplacementReturningPredecessor departure successor creation)),
                  proxy_cont))
         | Inr (FlowBreak departed) \<Rightarrow>
             start_successor_after_stop creations (current_attempt (stopped_current departed)) PredecessorSettled
               successor creation (stopped_stop departed)
         | Inl (departure, input) \<Rightarrow>
             unexpected_stop creations (ProxyReplacing (ReplacementReturningPredecessor departure successor creation)) input)
    | SuccessorResultAwaitingShutdown replaces shutdown completion \<Rightarrow> (case completion of
        CompletedReady worker result \<Rightarrow> (case current_admit_stop worker stopped of
            Inr stopped \<Rightarrow>
              (proxy_with creations (ProxyReplacing (SuccessorResultAwaitingShutdown replaces shutdown
                 (CompletedReadyAfterStop (current_attempt worker) result stopped))), proxy_cont)
          | Inl stopped \<Rightarrow>
              unexpected_stop creations (ProxyReplacing (SuccessorResultAwaitingShutdown replaces shutdown
                (CompletedReady worker result))) stopped)
      | _ \<Rightarrow> unexpected_stop creations (ProxyReplacing replacement) stopped))"

definition replacement_shutdown_resolved where
  "replacement_shutdown_resolved creations replacement shutdown = (case replacement of
      ReplacementReturningPredecessor departure successor creation \<Rightarrow>
        (case stopping_resolved departure shutdown of
           Inr (FlowContinue departure) \<Rightarrow>
             (proxy_with creations (ProxyReplacing (ReplacementReturningPredecessor departure successor creation)),
              proxy_cont)
         | Inr (FlowBreak departed) \<Rightarrow>
             start_successor_after_stop creations (current_attempt (stopped_current departed)) PredecessorSettled
               successor creation (stopped_stop departed)
         | Inl (departure, input) \<Rightarrow>
             unexpected_shutdown creations
               (ProxyReplacing (ReplacementReturningPredecessor departure successor creation)) input)
    | SuccessorResultAwaitingShutdown replaces expected completion \<Rightarrow>
        if resolved_id shutdown = expected then publish_replacement creations replaces completion
        else unexpected_shutdown creations
               (ProxyReplacing (SuccessorResultAwaitingShutdown replaces expected completion)) shutdown)"

section \<open>Results of a worker start\<close>

definition worker_creation_rejected where
  "worker_creation_rejected creations kind result = (case kind of
      StartInitial \<Rightarrow>
        (proxy_with creations ProxyEmptyInitial, proxy_report (OutcomeInitial (InitialResolved result)))
    | StartReplacement replaces predecessor \<Rightarrow>
        finish_replacement creations replaces predecessor (CompletedEmpty replaces result))"

definition worker_start_ready where
  "worker_start_ready creations kind worker result = (case kind of
      StartInitial \<Rightarrow>
        (proxy_with creations (ProxyReady worker), proxy_report (OutcomeInitial (InitialResolved result)))
    | StartReplacement replaces predecessor \<Rightarrow>
        finish_replacement creations replaces predecessor (CompletedReady worker result))"

definition worker_start_empty where
  "worker_start_empty creations kind previous result = (case kind of
      StartInitial \<Rightarrow>
        (proxy_with creations (ProxyEmptyAfter previous), proxy_report (OutcomeInitial (InitialResolved result)))
    | StartReplacement replaces predecessor \<Rightarrow>
        finish_replacement creations replaces predecessor (CompletedEmpty previous result))"

definition worker_return_result where
  "worker_return_result worker failure shutdown stopped =
     (let attempt = current_attempt worker in case failure of
        FailedInitializationEffects failure startup \<Rightarrow>
          ResultUnavailable attempt (DrainInitializationRejected failure startup (Some shutdown) stopped)
      | FailedStartupRefused request reason \<Rightarrow>
          ResultUnavailable attempt (DrainStartupRefused request reason (Some shutdown) stopped)
      | FailedStartupRejected rejection \<Rightarrow>
          ResultUnavailable attempt (DrainStartupRejected rejection (Some shutdown) stopped))"

definition worker_returned where
  "worker_returned creations kind worker failure shutdown stopped =
     worker_start_empty creations kind (current_attempt worker) (worker_return_result worker failure shutdown stopped)"

definition return_worker where
  "return_worker creations kind worker failure =
     (let (departure, shutdown) = stopping_begin worker in
      (proxy_with creations (ProxyStarting \<lparr>start_kind = kind, start_phase = StartReturningWorker departure failure\<rparr>),
       request_worker_shutdown shutdown))"

section \<open>Creation\<close>

definition begin_initial where
  "begin_initial h creations worker startup = (case pending_birth h creations worker startup of
      (h', creations, Inr (pending, creation)) \<Rightarrow>
        (h', (proxy_with creations (ProxyStarting \<lparr>start_kind = StartInitial, start_phase = StartCreating pending None\<rparr>),
              create_worker (pending_creation pending) creation))
    | (h', creations, Inl (worker, startup)) \<Rightarrow>
        (h', (proxy_with creations ProxyDormant,
              proxy_report (OutcomeInitial (InitialAttemptsExhausted worker startup)))))"

definition start_initial where
  "start_initial h current worker startup = (case proxy_state current of
      ProxyDormant \<Rightarrow> begin_initial h (proxy_creations current) worker startup
    | state \<Rightarrow>
        (h, (proxy_with (proxy_creations current) state,
             proxy_report (OutcomeInitial (InitialOverlap worker startup (state_phase state))))))"

definition await_initialization where
  "await_initialization creations kind worker startup stopped =
     (proxy_with creations (ProxyStarting \<lparr>start_kind = kind, start_phase = StartInitializing worker stopped\<rparr>),
      send_actions (no_effects\<lparr>worker_initializations :=
        [initialize_new (current_attempt worker) (current_initialization worker)
           (recipient (current_actor worker)) startup]\<rparr>))"

section \<open>Owner shutdown\<close>

definition stop_with where
  "stop_with creations retirement = (proxy_with creations (ProxyStopped retirement), stop_actions proxy_sends)"

definition finish_shutdown where
  "finish_shutdown creations worker shutdown stopped = stop_with creations
     (RetiredWorker \<lparr>stopped_current = worker, stopped_shutdown = shutdown, stopped_stop = stopped\<rparr>)"

definition finish_start_retirement where
  "finish_start_retirement creations kind retirement = (case kind of
      StartInitial \<Rightarrow> stop_with creations (RetiredWorkerStart None retirement)
    | StartReplacement replaces PredecessorSettled \<Rightarrow> stop_with creations (RetiredWorkerStart (Some replaces) retirement)
    | StartReplacement replaces (PredecessorAwaiting i) \<Rightarrow>
        (proxy_with creations (ProxyShuttingDown (WaitingForPredecessor replaces i retirement)), proxy_cont))"

definition finish_cancelled_replacement where
  "finish_cancelled_replacement creations replaces successor predecessor shutdown stopped = stop_with creations
     (RetiredReplacementCancelled replaces successor
       \<lparr>stopped_current = predecessor, stopped_shutdown = shutdown, stopped_stop = stopped\<rparr>)"

definition begin_startup_shutdown where
  "begin_startup_shutdown worker startup stopped = (case stopped of
      Some stopped \<Rightarrow> (WaitingForStartup startup worker None stopped, None)
    | None \<Rightarrow> (let (departure, shutdown) = stopping_begin worker in
        (StartupDeparting (StartupPending startup) departure, Some shutdown)))"

definition shutdown_start where
  "shutdown_start creations start = (let kind = start_kind start in case start_phase start of
      StartInitializing worker stopped \<Rightarrow> (case stopped of
          Some stopped \<Rightarrow>
            (proxy_with creations (ProxyShuttingDown (ShutdownInitializing kind
               (WaitingForInitialization worker None stopped))), proxy_cont)
        | None \<Rightarrow> (let (departure, shutdown) = stopping_begin worker in
            (proxy_with creations (ProxyShuttingDown (ShutdownInitializing kind
               (InitializationDeparting None departure))), request_worker_shutdown shutdown)))
    | StartStarting worker progress stopped \<Rightarrow>
        (let (startup, shutdown) = begin_startup_shutdown worker progress stopped;
             actions = (case shutdown of Some shutdown \<Rightarrow> request_worker_shutdown shutdown | None \<Rightarrow> proxy_cont)
         in (proxy_with creations (ProxyShuttingDown (ShutdownStarting kind startup)), actions))
    | StartReturningWorker departure failure \<Rightarrow>
        (proxy_with creations (ProxyShuttingDown (ReturningWorkerStart kind departure failure)), proxy_cont)
    | StartCreating worker stopped \<Rightarrow>
        (proxy_with creations (ProxyShuttingDown (WaitingForCreation start)), proxy_cont))"

definition shutdown_replacement where
  "shutdown_replacement creations replacement = (case replacement of
      ReplacementReturningPredecessor departure successor creation \<Rightarrow>
        (let replaces = current_attempt (stopping_worker departure);
             (successor_attempt, worker, startup) = pending_cancel successor creation
         in (proxy_with creations (ProxyShuttingDown (ShutdownReturningPredecessor departure replaces successor_attempt)),
             proxy_report (OutcomeReplacement (CancelledBeforeBirth replaces worker startup))))
    | SuccessorResultAwaitingShutdown replaces shutdown completion \<Rightarrow> (case completion of
        CompletedReady worker result \<Rightarrow>
          (let (departure, successor_shutdown) = stopping_begin worker in
           (proxy_with creations (ProxyShuttingDown (ReturningSuccessor replaces (ReturnAwaiting shutdown) departure result)),
            request_worker_shutdown successor_shutdown))
      | completion \<Rightarrow>
          (proxy_with creations (ProxyShuttingDown (WaitingForPredecessor replaces shutdown
             (RetiredCompletion completion))), proxy_cont)))"

definition owner_shutdown where
  "owner_shutdown current = (let creations = proxy_creations current in case proxy_state current of
      ProxyDormant \<Rightarrow> stop_with creations (RetiredEmpty None)
    | ProxyEmptyInitial \<Rightarrow> stop_with creations (RetiredEmpty None)
    | ProxyEmptyAfter previous \<Rightarrow> stop_with creations (RetiredEmpty (Some previous))
    | ProxyReady worker \<Rightarrow> (let (departure, shutdown) = stopping_begin worker in
        (proxy_with creations (ProxyShuttingDown (ReturningWorker departure)), request_worker_shutdown shutdown))
    | ProxyStarting start \<Rightarrow> shutdown_start creations start
    | ProxyReplacing replacement \<Rightarrow> shutdown_replacement creations replacement
    | ProxyShuttingDown shutdown \<Rightarrow> (proxy_with creations (ProxyShuttingDown shutdown), proxy_cont)
    | ProxyStopped retirement \<Rightarrow> stop_with creations retirement)"

subsection \<open>Creation that settles during shutdown\<close>

definition begin_shutdown_initialization where
  "begin_shutdown_initialization creations kind worker startup stopped =
     (let request = initialize_new (current_attempt worker) (current_initialization worker)
            (recipient (current_actor worker)) startup
      in case stopped of
        Some stopped \<Rightarrow>
          (proxy_with creations (ProxyShuttingDown (ShutdownInitializing kind
             (WaitingForInitialization worker None stopped))), request_initialization request)
      | None \<Rightarrow> (let (departure, shutdown) = stopping_begin worker in
          (proxy_with creations (ProxyShuttingDown (ShutdownInitializing kind
             (InitializationDeparting None departure))), initialize_and_shutdown request shutdown)))"

definition shutdown_workers_created where
  "shutdown_workers_created creations shutdown workers = (case shutdown of
      WaitingForCreation start \<Rightarrow> (let kind = start_kind start in case start_phase start of
        StartCreating worker stopped \<Rightarrow> (case worker_created worker workers stopped of
            CreationInitializing worker startup stopped \<Rightarrow>
              begin_shutdown_initialization creations kind worker startup stopped
          | CreationNotCommitted rejection startup stopped \<Rightarrow>
              finish_start_retirement creations kind (RetiredResult (ResultCreationRejected rejection startup stopped))
          | CreationUnexpected worker stopped workers \<Rightarrow>
              unexpected_worker_start creations (WaitingForCreation
                \<lparr>start_kind = kind, start_phase = StartCreating worker stopped\<rparr>) workers)
      | _ \<Rightarrow> unexpected_worker_start creations shutdown workers)
    | _ \<Rightarrow> unexpected_worker_start creations shutdown workers)"

subsection \<open>Initialization that returns during shutdown\<close>

definition wait_for_initialization_departure where
  "wait_for_initialization_departure departure initialization = InitializationDeparting (Some initialization) departure"

definition return_unrelated_initialization_stop where
  "return_unrelated_initialization_stop departure worker initialization startup stopped =
     (InitializationDeparting None departure, StoppedReport worker initialization startup stopped)"

definition retain_initialization_stop where
  "retain_initialization_stop departure worker initialization startup stopped = (case stopping_stopped departure of
      Some _ \<Rightarrow> (case current_admit_stop (stopping_worker departure) stopped of
          Inr stopped \<Rightarrow> Inr (FlowContinue (wait_for_initialization_departure departure
            (RetiredInitializationStopped startup (Some stopped))))
        | Inl stopped \<Rightarrow>
            Inl (return_unrelated_initialization_stop departure worker initialization startup stopped))
    | None \<Rightarrow> (case stopping_worker_stopped departure stopped of
          Inr (FlowContinue departure) \<Rightarrow> Inr (FlowContinue (wait_for_initialization_departure departure
            (RetiredInitializationStopped startup None)))
        | Inr (FlowBreak departed) \<Rightarrow> Inr (FlowBreak (RetiredInitialization (RetiredInitializationStopped startup None)
            (stopped_current departed) (Some (stopped_shutdown departed)) (stopped_stop departed)))
        | Inl (departure, input) \<Rightarrow>
            Inl (return_unrelated_initialization_stop departure worker initialization startup input)))"

definition retain_initialization_while_departing where
  "retain_initialization_while_departing departure input = (case input of
      InitializedReport worker initialization startup permit \<Rightarrow>
        Inr (FlowContinue (wait_for_initialization_departure departure (RetiredInitialized permit startup)))
    | EffectsRejectedReport worker initialization startup failure \<Rightarrow>
        Inr (FlowContinue (wait_for_initialization_departure departure (RetiredEffectsRejected failure startup)))
    | StoppedReport worker initialization startup stopped \<Rightarrow>
        retain_initialization_stop departure worker initialization startup stopped)"

definition classify_initialization_after_stop where
  "classify_initialization_after_stop worker input = (case input of
      InitializedReport attempt initialization startup permit \<Rightarrow> Inr (RetiredInitialized permit startup)
    | EffectsRejectedReport attempt initialization startup failure \<Rightarrow> Inr (RetiredEffectsRejected failure startup)
    | StoppedReport attempt initialization startup stopped \<Rightarrow> (case current_admit_stop worker stopped of
          Inr stopped \<Rightarrow> Inr (RetiredInitializationStopped startup (Some stopped))
        | Inl stopped \<Rightarrow> Inl (StoppedReport attempt initialization startup stopped)))"

definition rejoin_initialization_departure where
  "rejoin_initialization_departure initialization admitted = (case admitted of
      Inr (FlowContinue departure) \<Rightarrow> Inr (FlowContinue (InitializationDeparting initialization departure))
    | Inr (FlowBreak departed) \<Rightarrow> (case initialization of
          None \<Rightarrow> Inr (FlowContinue (WaitingForInitialization (stopped_current departed)
            (Some (stopped_shutdown departed)) (stopped_stop departed)))
        | Some initialization \<Rightarrow> Inr (FlowBreak (RetiredInitialization initialization (stopped_current departed)
            (Some (stopped_shutdown departed)) (stopped_stop departed))))
    | Inl (departure, input) \<Rightarrow> Inl (InitializationDeparting initialization departure, input))"

definition admit_worker_initialized_during_shutdown where
  "admit_worker_initialized_during_shutdown current input = (case current of
      InitializationDeparting None departure \<Rightarrow>
        (case admit_initialization (stopping_worker departure) input of
           Inr input \<Rightarrow> retain_initialization_while_departing departure input
         | Inl input \<Rightarrow> Inl (InitializationDeparting None departure, input))
    | InitializationDeparting (Some initialization) departure \<Rightarrow>
        Inl (InitializationDeparting (Some initialization) departure, input)
    | WaitingForInitialization worker shutdown stopped \<Rightarrow> (case admit_initialization worker input of
          Inr input \<Rightarrow> (case classify_initialization_after_stop worker input of
              Inr initialization \<Rightarrow> Inr (FlowBreak (RetiredInitialization initialization worker shutdown stopped))
            | Inl input \<Rightarrow> Inl (WaitingForInitialization worker shutdown stopped, input))
        | Inl input \<Rightarrow> Inl (WaitingForInitialization worker shutdown stopped, input)))"

definition continue_initialization_shutdown where
  "continue_initialization_shutdown creations kind changed = (case changed of
      Inr (FlowContinue initialization) \<Rightarrow>
        Inr (proxy_with creations (ProxyShuttingDown (ShutdownInitializing kind initialization)), proxy_cont)
    | Inr (FlowBreak retirement) \<Rightarrow> Inr (finish_start_retirement creations kind retirement)
    | Inl (initialization, input) \<Rightarrow> Inl (creations, ShutdownInitializing kind initialization, input))"

definition shutdown_worker_initialized where
  "shutdown_worker_initialized creations shutdown initialization = (case shutdown of
      ShutdownInitializing kind current \<Rightarrow>
        (case continue_initialization_shutdown creations kind
                (admit_worker_initialized_during_shutdown current initialization) of
           Inr changed \<Rightarrow> changed
         | Inl (creations, shutdown, input) \<Rightarrow> unexpected_initialization creations shutdown input)
    | _ \<Rightarrow> unexpected_initialization creations shutdown initialization)"

subsection \<open>Startup that returns during shutdown\<close>

definition admit_startup where
  "admit_startup progress input =
     (let expected = (case progress of WaitingForStart attempt \<Rightarrow> attempt | StartRunning attempt \<Rightarrow> attempt)
      in if startup_attempt input = expected then Inr input else Inl input)"

definition advance_startup_during_shutdown where
  "advance_startup_during_shutdown progress input = (case progress of
      WaitingForStart attempt \<Rightarrow> (case into_started input of
          Inr _ \<Rightarrow> Inr (StartupPending (StartRunning attempt))
        | Inl input \<Rightarrow> (case into_start_rejection input of
              Inr (request, reason) \<Rightarrow> Inr (StartupReturned (RetiredStartRejected request reason))
            | Inl input \<Rightarrow> Inl (WaitingForStart attempt, input)))
    | StartRunning attempt \<Rightarrow> (case into_ready input of
          Inr readiness \<Rightarrow> Inr (StartupReturned (RetiredStartReady readiness))
        | Inl input \<Rightarrow> (case into_rejection input of
              Inr rejection \<Rightarrow> Inr (StartupReturned (RetiredStartRefused rejection))
            | Inl input \<Rightarrow> Inl (StartRunning attempt, input))))"

definition retain_startup_while_departing where
  "retain_startup_while_departing progress departure input = (case advance_startup_during_shutdown progress input of
      Inr startup \<Rightarrow> Inr (FlowContinue (StartupDeparting startup departure))
    | Inl (progress, input) \<Rightarrow> Inl (StartupDeparting (StartupPending progress) departure, input))"

definition retain_startup_after_worker where
  "retain_startup_after_worker progress worker shutdown stopped input =
     (case advance_startup_during_shutdown progress input of
        Inr (StartupPending startup) \<Rightarrow> Inr (FlowContinue (WaitingForStartup startup worker shutdown stopped))
      | Inr (StartupReturned startup) \<Rightarrow> Inr (FlowBreak (RetiredStartup startup worker shutdown stopped))
      | Inl (progress, input) \<Rightarrow> Inl (WaitingForStartup progress worker shutdown stopped, input))"

definition admit_worker_startup_during_shutdown where
  "admit_worker_startup_during_shutdown current input = (case current of
      StartupDeparting (StartupPending progress) departure \<Rightarrow> (case admit_startup progress input of
          Inr input \<Rightarrow> retain_startup_while_departing progress departure input
        | Inl input \<Rightarrow> Inl (StartupDeparting (StartupPending progress) departure, input))
    | StartupDeparting startup departure \<Rightarrow> Inl (StartupDeparting startup departure, input)
    | WaitingForStartup startup worker shutdown stopped \<Rightarrow> (case admit_startup startup input of
          Inr input \<Rightarrow> retain_startup_after_worker startup worker shutdown stopped input
        | Inl input \<Rightarrow> Inl (WaitingForStartup startup worker shutdown stopped, input)))"

definition rejoin_startup_departure where
  "rejoin_startup_departure startup admitted = (case admitted of
      Inr (FlowContinue departure) \<Rightarrow> Inr (FlowContinue (StartupDeparting startup departure))
    | Inr (FlowBreak departed) \<Rightarrow> (case startup of
          StartupPending startup \<Rightarrow> Inr (FlowContinue (WaitingForStartup startup (stopped_current departed)
            (Some (stopped_shutdown departed)) (stopped_stop departed)))
        | StartupReturned startup \<Rightarrow> Inr (FlowBreak (RetiredStartup startup (stopped_current departed)
            (Some (stopped_shutdown departed)) (stopped_stop departed))))
    | Inl (departure, input) \<Rightarrow> Inl (StartupDeparting startup departure, input))"

definition continue_startup_shutdown where
  "continue_startup_shutdown creations kind changed = (case changed of
      Inr (FlowContinue startup) \<Rightarrow>
        Inr (proxy_with creations (ProxyShuttingDown (ShutdownStarting kind startup)), proxy_cont)
    | Inr (FlowBreak retirement) \<Rightarrow> Inr (finish_start_retirement creations kind retirement)
    | Inl (startup, input) \<Rightarrow> Inl (creations, ShutdownStarting kind startup, input))"

definition settle_shutdown_startup where
  "settle_shutdown_startup creations shutdown input = (case shutdown of
      ShutdownStarting kind startup \<Rightarrow>
        (case continue_startup_shutdown creations kind (admit_worker_startup_during_shutdown startup input) of
           Inr changed \<Rightarrow> changed
         | Inl (creations, shutdown, input) \<Rightarrow> unexpected_shutdown_startup creations shutdown input)
    | _ \<Rightarrow> unexpected_shutdown_startup creations shutdown input)"

subsection \<open>Shutdown results and stops that return during shutdown\<close>

definition successor_departed where
  "successor_departed creations replaces predecessor result departure =
     (let retirement = RetiredReadyWorker result departure in case predecessor of
        ReturnAwaiting shutdown \<Rightarrow>
          (proxy_with creations (ProxyShuttingDown (WaitingForPredecessor replaces shutdown retirement)), proxy_cont)
      | ReturnReturned resolution \<Rightarrow> stop_with creations (RetiredAfterPredecessor replaces resolution retirement))"

definition successor_shutdown_resolved where
  "successor_shutdown_resolved creations replaces predecessor departure result resolution =
     (case stopping_resolved departure resolution of
        Inr (FlowContinue departure) \<Rightarrow>
          (proxy_with creations (ProxyShuttingDown (ReturningSuccessor replaces predecessor departure result)), proxy_cont)
      | Inr (FlowBreak departure) \<Rightarrow> successor_departed creations replaces predecessor result departure
      | Inl (departure, input) \<Rightarrow>
          unexpected_shutdown creations
            (ProxyShuttingDown (ReturningSuccessor replaces predecessor departure result)) input)"

definition shutdown_resolved_by where
  "shutdown_resolved_by creations shutdown resolution = (case shutdown of
      ReturningWorker departure \<Rightarrow> (case stopping_resolved departure resolution of
          Inr (FlowContinue departure) \<Rightarrow>
            (proxy_with creations (ProxyShuttingDown (ReturningWorker departure)), proxy_cont)
        | Inr (FlowBreak departed) \<Rightarrow>
            finish_shutdown creations (stopped_current departed) (stopped_shutdown departed) (stopped_stop departed)
        | Inl (departure, input) \<Rightarrow>
            unexpected_shutdown creations (ProxyShuttingDown (ReturningWorker departure)) input)
    | ReturningWorkerStart kind departure failure \<Rightarrow> (case stopping_resolved departure resolution of
          Inr (FlowContinue departure) \<Rightarrow>
            (proxy_with creations (ProxyShuttingDown (ReturningWorkerStart kind departure failure)), proxy_cont)
        | Inr (FlowBreak departed) \<Rightarrow>
            finish_start_retirement creations kind (RetiredResult (worker_return_result (stopped_current departed)
              failure (stopped_shutdown departed) (stopped_stop departed)))
        | Inl (departure, input) \<Rightarrow>
            unexpected_shutdown creations (ProxyShuttingDown (ReturningWorkerStart kind departure failure)) input)
    | ShutdownReturningPredecessor departure replaces successor \<Rightarrow> (case stopping_resolved departure resolution of
          Inr (FlowContinue departure) \<Rightarrow>
            (proxy_with creations (ProxyShuttingDown (ShutdownReturningPredecessor departure replaces successor)), proxy_cont)
        | Inr (FlowBreak departed) \<Rightarrow>
            finish_cancelled_replacement creations replaces successor (stopped_current departed)
              (stopped_shutdown departed) (stopped_stop departed)
        | Inl (departure, input) \<Rightarrow>
            unexpected_shutdown creations
              (ProxyShuttingDown (ShutdownReturningPredecessor departure replaces successor)) input)
    | ReturningSuccessor replaces predecessor departure result \<Rightarrow> (case predecessor of
          ReturnAwaiting expected \<Rightarrow>
            if resolved_id resolution = expected
            then (proxy_with creations (ProxyShuttingDown (ReturningSuccessor replaces
                   (ReturnReturned resolution) departure result)), proxy_cont)
            else successor_shutdown_resolved creations replaces (ReturnAwaiting expected) departure result resolution
        | predecessor \<Rightarrow> successor_shutdown_resolved creations replaces predecessor departure result resolution)
    | ShutdownInitializing kind initialization \<Rightarrow> (case initialization of
          InitializationDeparting initialization departure \<Rightarrow>
            (case continue_initialization_shutdown creations kind
                    (rejoin_initialization_departure initialization (stopping_resolved departure resolution)) of
               Inr changed \<Rightarrow> changed
             | Inl (creations, shutdown, input) \<Rightarrow> unexpected_shutdown creations (ProxyShuttingDown shutdown) input)
        | initialization \<Rightarrow>
            unexpected_shutdown creations (ProxyShuttingDown (ShutdownInitializing kind initialization)) resolution)
    | ShutdownStarting kind startup \<Rightarrow>
        (let changed = (case startup of
            StartupDeparting startup departure \<Rightarrow>
              rejoin_startup_departure startup (stopping_resolved departure resolution)
          | startup \<Rightarrow> Inl (startup, resolution))
         in case continue_startup_shutdown creations kind changed of
              Inr changed \<Rightarrow> changed
            | Inl (creations, shutdown, input) \<Rightarrow> unexpected_shutdown creations (ProxyShuttingDown shutdown) input)
    | WaitingForPredecessor replaces expected retirement \<Rightarrow>
        if resolved_id resolution = expected
        then stop_with creations (RetiredAfterPredecessor replaces resolution retirement)
        else unexpected_shutdown creations
               (ProxyShuttingDown (WaitingForPredecessor replaces expected retirement)) resolution
    | shutdown \<Rightarrow> unexpected_shutdown creations (ProxyShuttingDown shutdown) resolution)"

definition shutdown_worker_stopped where
  "shutdown_worker_stopped creations shutdown stopped = (case shutdown of
      ReturningWorker departure \<Rightarrow> (case stopping_worker_stopped departure stopped of
          Inr (FlowContinue departure) \<Rightarrow>
            (proxy_with creations (ProxyShuttingDown (ReturningWorker departure)), proxy_cont)
        | Inr (FlowBreak departed) \<Rightarrow>
            finish_shutdown creations (stopped_current departed) (stopped_shutdown departed) (stopped_stop departed)
        | Inl (departure, input) \<Rightarrow>
            unexpected_stop creations (ProxyShuttingDown (ReturningWorker departure)) input)
    | ReturningWorkerStart kind departure failure \<Rightarrow> (case stopping_worker_stopped departure stopped of
          Inr (FlowContinue departure) \<Rightarrow>
            (proxy_with creations (ProxyShuttingDown (ReturningWorkerStart kind departure failure)), proxy_cont)
        | Inr (FlowBreak departed) \<Rightarrow>
            finish_start_retirement creations kind (RetiredResult (worker_return_result (stopped_current departed)
              failure (stopped_shutdown departed) (stopped_stop departed)))
        | Inl (departure, input) \<Rightarrow>
            unexpected_stop creations (ProxyShuttingDown (ReturningWorkerStart kind departure failure)) input)
    | ShutdownReturningPredecessor departure replaces successor \<Rightarrow> (case stopping_worker_stopped departure stopped of
          Inr (FlowContinue departure) \<Rightarrow>
            (proxy_with creations (ProxyShuttingDown (ShutdownReturningPredecessor departure replaces successor)), proxy_cont)
        | Inr (FlowBreak departed) \<Rightarrow>
            finish_cancelled_replacement creations replaces successor (stopped_current departed)
              (stopped_shutdown departed) (stopped_stop departed)
        | Inl (departure, input) \<Rightarrow>
            unexpected_stop creations
              (ProxyShuttingDown (ShutdownReturningPredecessor departure replaces successor)) input)
    | ReturningSuccessor replaces predecessor departure result \<Rightarrow> (case stopping_worker_stopped departure stopped of
          Inr (FlowContinue departure) \<Rightarrow>
            (proxy_with creations (ProxyShuttingDown (ReturningSuccessor replaces predecessor departure result)), proxy_cont)
        | Inr (FlowBreak departure) \<Rightarrow> successor_departed creations replaces predecessor result departure
        | Inl (departure, input) \<Rightarrow>
            unexpected_stop creations
              (ProxyShuttingDown (ReturningSuccessor replaces predecessor departure result)) input)
    | ShutdownInitializing kind initialization \<Rightarrow> (case initialization of
          InitializationDeparting initialization departure \<Rightarrow>
            (case continue_initialization_shutdown creations kind
                    (rejoin_initialization_departure initialization (stopping_worker_stopped departure stopped)) of
               Inr changed \<Rightarrow> changed
             | Inl (creations, shutdown, input) \<Rightarrow> unexpected_stop creations (ProxyShuttingDown shutdown) input)
        | initialization \<Rightarrow>
            unexpected_stop creations (ProxyShuttingDown (ShutdownInitializing kind initialization)) stopped)
    | ShutdownStarting kind startup \<Rightarrow>
        (let changed = (case startup of
            StartupDeparting startup departure \<Rightarrow>
              rejoin_startup_departure startup (stopping_worker_stopped departure stopped)
          | startup \<Rightarrow> Inl (startup, stopped))
         in case continue_startup_shutdown creations kind changed of
              Inr changed \<Rightarrow> changed
            | Inl (creations, shutdown, input) \<Rightarrow> unexpected_stop creations (ProxyShuttingDown shutdown) input)
    | shutdown \<Rightarrow> unexpected_stop creations (ProxyShuttingDown shutdown) stopped)"

section \<open>Creation settlements and worker stops\<close>

definition workers_created where
  "workers_created current workers = (let creations = proxy_creations current;
       other = (\<lambda>state. (proxy_with creations state, proxy_diagnose (UnexpectedWorkerStart (state_phase state) workers)))
     in case proxy_state current of
      ProxyStarting start \<Rightarrow> (let kind = start_kind start in case start_phase start of
          StartCreating worker stopped \<Rightarrow> (case worker_created worker workers stopped of
              CreationInitializing worker startup stopped \<Rightarrow>
                await_initialization creations kind worker startup stopped
            | CreationNotCommitted rejection startup stopped \<Rightarrow>
                worker_creation_rejected creations kind (ResultCreationRejected rejection startup stopped)
            | CreationUnexpected worker stopped workers \<Rightarrow>
                (proxy_with creations (ProxyStarting \<lparr>start_kind = kind, start_phase = StartCreating worker stopped\<rparr>),
                 proxy_diagnose (UnexpectedWorkerStart PhaseCreating workers)))
        | _ \<Rightarrow> other (ProxyStarting start))
    | ProxyShuttingDown shutdown \<Rightarrow> shutdown_workers_created creations shutdown workers
    | state \<Rightarrow> other state)"

definition admit_pre_ready_stop where
  "admit_pre_ready_stop phase stopped = (case phase of
      StartCreating worker None \<Rightarrow> (case pending_admit_stop worker stopped of
          Inr stopped \<Rightarrow> Inr (StartCreating worker (Some stopped))
        | Inl stopped \<Rightarrow> Inl (StartCreating worker None, stopped))
    | StartInitializing worker None \<Rightarrow> (case current_admit_stop worker stopped of
          Inr stopped \<Rightarrow> Inr (StartInitializing worker (Some stopped))
        | Inl stopped \<Rightarrow> Inl (StartInitializing worker None, stopped))
    | StartStarting worker progress None \<Rightarrow> (case current_admit_stop worker stopped of
          Inr stopped \<Rightarrow> Inr (StartStarting worker progress (Some stopped))
        | Inl stopped \<Rightarrow> Inl (StartStarting worker progress None, stopped))
    | phase \<Rightarrow> Inl (phase, stopped))"

definition worker_start_stopped where
  "worker_start_stopped creations start stopped = (let kind = start_kind start in case start_phase start of
      StartReturningWorker departure failure \<Rightarrow> (case stopping_worker_stopped departure stopped of
          Inr (FlowContinue departure) \<Rightarrow>
            (proxy_with creations (ProxyStarting \<lparr>start_kind = kind,
               start_phase = StartReturningWorker departure failure\<rparr>), proxy_cont)
        | Inr (FlowBreak departed) \<Rightarrow>
            worker_returned creations kind (stopped_current departed) failure (stopped_shutdown departed)
              (stopped_stop departed)
        | Inl (departure, input) \<Rightarrow>
            unexpected_stop creations (ProxyStarting \<lparr>start_kind = kind,
              start_phase = StartReturningWorker departure failure\<rparr>) input)
    | phase \<Rightarrow> (case admit_pre_ready_stop phase stopped of
          Inr phase \<Rightarrow> (proxy_with creations (ProxyStarting \<lparr>start_kind = kind, start_phase = phase\<rparr>), proxy_cont)
        | Inl (phase, stopped) \<Rightarrow>
            unexpected_stop creations (ProxyStarting \<lparr>start_kind = kind, start_phase = phase\<rparr>) stopped))"

definition worker_stopped where
  "worker_stopped current stopped = (let creations = proxy_creations current in case proxy_state current of
      ProxyStarting start \<Rightarrow> worker_start_stopped creations start stopped
    | ProxyReplacing replacement \<Rightarrow> replacement_worker_stopped creations replacement stopped
    | ProxyShuttingDown shutdown \<Rightarrow> shutdown_worker_stopped creations shutdown stopped
    | ProxyReady worker \<Rightarrow> (case current_admit_stop worker stopped of
          Inr stopped \<Rightarrow>
            (proxy_with creations (ProxyEmptyAfter (current_attempt worker)),
             proxy_report (OutcomeWorkerStopped (current_attempt worker) stopped))
        | Inl stopped \<Rightarrow> unexpected_stop creations (ProxyReady worker) stopped)
    | state \<Rightarrow>
        (proxy_with creations state, proxy_diagnose (UnexpectedWorkerStop (state_phase state) stopped)))"

section \<open>Startup\<close>

definition startup_waiting where
  "startup_waiting creations kind worker startup stopped input = (case into_started input of
      Inr _ \<Rightarrow>
        (proxy_with creations (ProxyStarting \<lparr>start_kind = kind,
           start_phase = StartStarting worker (StartRunning startup) stopped\<rparr>), proxy_cont)
    | Inl input \<Rightarrow> (case into_start_rejection input of
          Inr (request, reason) \<Rightarrow> (case stopped of
              Some stopped \<Rightarrow> worker_start_empty creations kind (current_attempt worker)
                (ResultUnavailable (current_attempt worker) (DrainStartupRefused request reason None stopped))
            | None \<Rightarrow> return_worker creations kind worker (FailedStartupRefused request reason))
        | Inl input \<Rightarrow> unexpected_startup creations (ProxyStarting \<lparr>start_kind = kind,
            start_phase = StartStarting worker (WaitingForStart startup) stopped\<rparr>) input))"

definition startup_running where
  "startup_running creations kind worker startup stopped input = (case into_ready input of
      Inr readiness \<Rightarrow> (case stopped of
          Some stopped \<Rightarrow> worker_start_empty creations kind (current_attempt worker)
            (ResultUnavailable (current_attempt worker) (DrainStartupCompleted readiness stopped))
        | None \<Rightarrow> worker_start_ready creations kind worker (ResultReady (current_attempt worker) readiness))
    | Inl input \<Rightarrow> (case into_rejection input of
          Inr rejection \<Rightarrow> (case stopped of
              Some stopped \<Rightarrow> worker_start_empty creations kind (current_attempt worker)
                (ResultUnavailable (current_attempt worker) (DrainStartupRejected rejection None stopped))
            | None \<Rightarrow> return_worker creations kind worker (FailedStartupRejected rejection))
        | Inl input \<Rightarrow> unexpected_startup creations (ProxyStarting \<lparr>start_kind = kind,
            start_phase = StartStarting worker (StartRunning startup) stopped\<rparr>) input))"

definition settle_worker_startup where
  "settle_worker_startup current input = (let creations = proxy_creations current in case proxy_state current of
      ProxyStarting start \<Rightarrow> (let kind = start_kind start in case start_phase start of
          StartStarting worker progress stopped \<Rightarrow> (case admit_startup progress input of
              Inr input \<Rightarrow> (case progress of
                  WaitingForStart startup \<Rightarrow> startup_waiting creations kind worker startup stopped input
                | StartRunning startup \<Rightarrow> startup_running creations kind worker startup stopped input)
            | Inl input \<Rightarrow> unexpected_startup creations (ProxyStarting \<lparr>start_kind = kind,
                start_phase = StartStarting worker progress stopped\<rparr>) input)
        | _ \<Rightarrow> unexpected_startup creations (ProxyStarting start) input)
    | ProxyShuttingDown shutdown \<Rightarrow> settle_shutdown_startup creations shutdown input
    | state \<Rightarrow> unexpected_startup creations state input)"

section \<open>Initialization\<close>

definition initialization_resolved where
  "initialization_resolved h creations kind worker stopped initialization = (case initialization of
      InitializedReport attempt initialization startup permit \<Rightarrow> (case stopped of
          Some stopped \<Rightarrow> (h, worker_start_empty creations kind (current_attempt worker)
            (ResultUnavailable (current_attempt worker) (DrainInitializationCompleted permit startup stopped)))
        | None \<Rightarrow> (let (h', request) = start_worker_new h startup permit in
            (h', (proxy_with creations (ProxyStarting \<lparr>start_kind = kind,
                    start_phase = StartStarting worker (WaitingForStart (start_startup request)) None\<rparr>),
                  begin_startup request))))
    | EffectsRejectedReport attempt initialization startup failure \<Rightarrow> (case stopped of
          Some stopped \<Rightarrow> (h, worker_start_empty creations kind (current_attempt worker)
            (ResultUnavailable (current_attempt worker) (DrainInitializationRejected failure startup None stopped)))
        | None \<Rightarrow> (h, return_worker creations kind worker (FailedInitializationEffects failure startup)))
    | StoppedReport attempt initialization startup returned \<Rightarrow> (case current_admit_stop worker returned of
          Inr returned \<Rightarrow> (h, worker_start_empty creations kind (current_attempt worker)
            (ResultUnavailable (current_attempt worker) (DrainInitializationStopped startup stopped returned)))
        | Inl returned \<Rightarrow> (h, unexpected_start_initialization creations kind worker stopped
            (StoppedReport attempt initialization startup returned))))"

definition worker_initialized where
  "worker_initialized h current initialization = (let creations = proxy_creations current;
       other = (\<lambda>state. (h, (proxy_with creations state,
         proxy_diagnose (UnexpectedWorkerInitialization (state_phase state) initialization))))
     in case proxy_state current of
      ProxyStarting start \<Rightarrow> (let kind = start_kind start in case start_phase start of
          StartInitializing worker stopped \<Rightarrow> (case admit_initialization worker initialization of
              Inr initialization \<Rightarrow> initialization_resolved h creations kind worker stopped initialization
            | Inl initialization \<Rightarrow>
                (h, unexpected_start_initialization creations kind worker stopped initialization))
        | _ \<Rightarrow> other (ProxyStarting start))
    | ProxyShuttingDown shutdown \<Rightarrow> (h, shutdown_worker_initialized creations shutdown initialization)
    | state \<Rightarrow> other state)"

section \<open>Shutdown settlement\<close>

definition worker_start_shutdown_resolved where
  "worker_start_shutdown_resolved creations kind phase shutdown = (case phase of
      StartReturningWorker departure failure \<Rightarrow> (case stopping_resolved departure shutdown of
          Inr (FlowContinue departure) \<Rightarrow>
            (proxy_with creations (ProxyStarting \<lparr>start_kind = kind,
               start_phase = StartReturningWorker departure failure\<rparr>), proxy_cont)
        | Inr (FlowBreak departed) \<Rightarrow>
            worker_returned creations kind (stopped_current departed) failure (stopped_shutdown departed)
              (stopped_stop departed)
        | Inl (departure, input) \<Rightarrow>
            unexpected_shutdown creations (ProxyStarting \<lparr>start_kind = kind,
              start_phase = StartReturningWorker departure failure\<rparr>) input)
    | phase \<Rightarrow> unexpected_shutdown creations (ProxyStarting \<lparr>start_kind = kind, start_phase = phase\<rparr>) shutdown)"

definition worker_shutdown_resolved where
  "worker_shutdown_resolved current shutdown = (let creations = proxy_creations current in case proxy_state current of
      ProxyStarting start \<Rightarrow>
        (let kind = start_kind start; phase = start_phase start;
             other = worker_start_shutdown_resolved creations kind phase shutdown
         in case kind of
              StartReplacement replaces (PredecessorAwaiting i) \<Rightarrow>
                if resolved_id shutdown = i
                then (proxy_with creations (ProxyStarting \<lparr>start_kind = StartReplacement replaces PredecessorSettled,
                        start_phase = phase\<rparr>), proxy_cont)
                else other
            | _ \<Rightarrow> other)
    | ProxyReplacing replacement \<Rightarrow> replacement_shutdown_resolved creations replacement shutdown
    | ProxyShuttingDown proxy_shutdown \<Rightarrow> shutdown_resolved_by creations proxy_shutdown shutdown
    | state \<Rightarrow> unexpected_shutdown creations state shutdown)"

section \<open>The behavior\<close>

definition proxy_owner where
  "proxy_owner h current control = (case control of
      ProxyStart submission \<Rightarrow>
        start_initial h current (submitted_worker submission) (submitted_startup submission)
    | ProxyReplace submission \<Rightarrow>
        replace_worker h current (submitted_worker submission) (submitted_startup submission)
    | ProxyShutdownCommand \<Rightarrow> (h, owner_shutdown current))"

definition proxy_accept :: "heap \<Rightarrow> ('w, 'p, 'd, 'j, 'err, 'ini, 'a, 'r) stable_proxy
    \<Rightarrow> ('w, 'p, 'd, 'j, 'err, 'ini, 'a, 'r, 'n, 'm) proxy_event
    \<Rightarrow> heap \<times> ('w, 'p, 'd, 'j, 'err, 'ini, 'a, 'r) stable_proxy
         \<times> ('w, 'p, 'd, 'j, 'err, 'ini, 'a, 'r, 'n, 'm) proxy_actions" where
  "proxy_accept h current event = (case event of
      EventService user \<Rightarrow> (h, service current user)
    | EventOwner control \<Rightarrow> proxy_owner h current control
    | EventWorkersCreated workers \<Rightarrow> (h, workers_created current workers)
    | EventWorkerInitialization initialization \<Rightarrow> worker_initialized h current initialization
    | EventWorkerStartup startup \<Rightarrow> (h, settle_worker_startup current startup)
    | EventWorkerShutdown shutdown \<Rightarrow> (h, worker_shutdown_resolved current shutdown)
    | EventWorkerStopped stopped \<Rightarrow> (h, worker_stopped current stopped))"

text \<open>The transition as a fold over the proxy and the heap; the behavior has no error.\<close>

definition proxy_step where
  "proxy_step s event = (let (h', next, actions) = proxy_accept (fst s) (snd s) event in ((h', next), actions))"

definition proxy_behavior where
  "proxy_behavior = \<lparr>b_init = default_init proxy_sends,
     b_transition = (\<lambda>s event. apsnd Inr (proxy_step s event)), b_sends = proxy_sends, b_user = proxy_user\<rparr>"

end
