(* ===== verification/Proxy_Laws.thy ===== *)
theory Proxy_Laws
  imports Proxy
begin

text \<open>
  The laws of a stable proxy. Service reaches the ready worker or returns to its sender's owner;
  an input the state does not admit comes back whole and changes nothing; every submission is
  answered once, and the workers and plans it is given are in its state or were handed on; at most
  one worker exists at a time.
\<close>

section \<open>Facts for the transitions\<close>

lemmas proxy_action_defs = proxy_with_def proxy_report_def proxy_diagnose_def create_worker_def
  request_worker_shutdown_def report_pair_def request_initialization_def initialize_and_shutdown_def
  begin_startup_def unexpected_stop_def unexpected_shutdown_def unexpected_startup_def
  unexpected_worker_start_def unexpected_initialization_def unexpected_shutdown_startup_def
  unexpected_start_initialization_def stop_with_def core_defs proxy_sends_def no_effects_def

lemmas proxy_result_defs = publish_replacement_def finish_replacement_def start_successor_after_stop_def
  worker_creation_rejected_def worker_start_ready_def worker_start_empty_def worker_return_result_def
  worker_returned_def return_worker_def finish_shutdown_def finish_start_retirement_def
  finish_cancelled_replacement_def successor_departed_def

lemmas proxy_stop_defs = worker_stopped_def worker_start_stopped_def admit_pre_ready_stop_def
  replacement_worker_stopped_def shutdown_worker_stopped_def continue_initialization_shutdown_def
  rejoin_initialization_departure_def continue_startup_shutdown_def rejoin_startup_departure_def

lemmas proxy_resolved_defs = worker_shutdown_resolved_def worker_start_shutdown_resolved_def
  replacement_shutdown_resolved_def shutdown_resolved_by_def successor_shutdown_resolved_def
  continue_initialization_shutdown_def rejoin_initialization_departure_def
  continue_startup_shutdown_def rejoin_startup_departure_def

lemmas proxy_initialized_defs = worker_initialized_def initialization_resolved_def start_worker_new_def
  grant_issued_def arc_new_def shutdown_worker_initialized_def continue_initialization_shutdown_def
  admit_worker_initialized_during_shutdown_def retain_initialization_while_departing_def
  retain_initialization_stop_def wait_for_initialization_departure_def
  return_unrelated_initialization_stop_def classify_initialization_after_stop_def

lemmas proxy_startup_defs = settle_worker_startup_def startup_waiting_def startup_running_def
  settle_shutdown_startup_def continue_startup_shutdown_def admit_worker_startup_during_shutdown_def
  retain_startup_while_departing_def retain_startup_after_worker_def advance_startup_during_shutdown_def

lemmas proxy_created_defs = workers_created_def await_initialization_def shutdown_workers_created_def
  begin_shutdown_initialization_def initialize_new_def

lemmas proxy_owner_defs = proxy_owner_def start_initial_def begin_initial_def replace_worker_def
  owner_shutdown_def shutdown_start_def begin_startup_shutdown_def shutdown_replacement_def

lemmas pending_defs = pending_birth_def pending_replacement_def await_creation_def attempt_issued_def
  initialization_issued_def arc_new_def create_birth_def create_replacement_def create_from_parts_def

lemmas proxy_splits = proxy_state.splits worker_start_phase.splits option.splits sum.splits prod.splits
  control_flow.splits replacement_completion.splits proxy_replacement.splits predecessor_shutdown.splits
  worker_start_kind.splits proxy_shutdown.splits predecessor_return.splits
  worker_initialization_shutdown.splits worker_startup_shutdown.splits startup_during_departure.splits
  startup_progress.splits pre_ready_failure.splits worker_initialization_report.splits
  worker_creation.splits if_splits

text \<open>What holds of the transition of every event holds of a step.\<close>

lemma proxy_step_cases:
  assumes "\<And>user. Q (h, service p user) (EventService user)"
    and "\<And>control. Q (proxy_owner h p control) (EventOwner control)"
    and "\<And>workers. Q (h, workers_created p workers) (EventWorkersCreated workers)"
    and "\<And>report. Q (worker_initialized h p report) (EventWorkerInitialization report)"
    and "\<And>startup. Q (h, settle_worker_startup p startup) (EventWorkerStartup startup)"
    and "\<And>shutdown. Q (h, worker_shutdown_resolved p shutdown) (EventWorkerShutdown shutdown)"
    and "\<And>stopped. Q (h, worker_stopped p stopped) (EventWorkerStopped stopped)"
  shows "Q (proxy_accept h p e) e"
  using assms by (cases e) (simp_all add: proxy_accept_def)

section \<open>Service\<close>

fun event_messages :: "('w, 'p, 'd, 'j, 'err, 'ini, 'a, 'r, 'n, 'm) proxy_event \<Rightarrow> ('a \<times> 'm) list" where
  "event_messages (EventService user) = [(user_from user, user_message user)]"
| "event_messages e = []"

fun outcome_messages :: "('w, 'p, 'd, 'j, 'err, 'ini, 'a, 'r, 'm) proxy_outcome \<Rightarrow> ('a \<times> proxy_phase \<times> 'm) list" where
  "outcome_messages (OutcomeUnavailable sender phase command) = [(sender, phase, command)]"
| "outcome_messages outcome = []"

definition returned_messages :: "('w, 'p, 'd, 'j, 'err, 'ini, 'a, 'r, 'n, 'm) proxy_actions
    \<Rightarrow> ('a \<times> proxy_phase \<times> 'm) list" where
  "returned_messages a = concat (map outcome_messages (owner_outcomes (sends a)))"

text \<open>The endpoint of the ready worker.\<close>

fun ready_endpoint :: "('w, 'p, 'd, 'j, 'err, 'ini, 'a, 'r) proxy_state \<Rightarrow> 'r option" where
  "ready_endpoint (ProxyReady worker) = Some (recipient (current_actor worker))"
| "ready_endpoint state = None"

lemma service_routes:
  fixes p :: "('w, 'p, 'd, 'j, 'err, 'ini, 'a, 'r) stable_proxy"
    and a :: "('w, 'p, 'd, 'j, 'err, 'ini, 'a, 'r, 'n, 'm) proxy_actions"
  assumes "service p user = (p', a)"
  shows "p' = p"
    and "worker_deliveries (sends a) = (case ready_endpoint (proxy_state p) of
           Some r \<Rightarrow> [\<lparr>deliver_to = r, delivered = user_message user\<rparr>] | None \<Rightarrow> [])"
    and "returned_messages a = (case ready_endpoint (proxy_state p) of Some r \<Rightarrow> []
           | None \<Rightarrow> [(user_from user, proxy_phase_of p, user_message user)])"
  using assms by (auto simp: service_def proxy_action_defs returned_messages_def proxy_phase_of_def split: proxy_state.splits)

section \<open>Inputs the state does not admit\<close>

text \<open>What an input the state does not admit is diagnosed as.\<close>

fun diagnosis :: "proxy_phase \<Rightarrow> ('w, 'p, 'd, 'j, 'err, 'ini, 'a, 'r, 'n, 'm) proxy_event
    \<Rightarrow> ('w, 'p, 'd, 'j, 'err, 'ini, 'a, 'r, 'n) proxy_diagnostic option" where
  "diagnosis phase (EventService user) = None"
| "diagnosis phase (EventOwner control) = None"
| "diagnosis phase (EventWorkersCreated workers) = Some (UnexpectedWorkerStart phase workers)"
| "diagnosis phase (EventWorkerInitialization report) = Some (UnexpectedWorkerInitialization phase report)"
| "diagnosis phase (EventWorkerStartup startup) = Some (UnexpectedWorkerStartup phase startup)"
| "diagnosis phase (EventWorkerShutdown shutdown) = Some (UnexpectedWorkerShutdown phase shutdown)"
| "diagnosis phase (EventWorkerStopped stopped) = Some (UnexpectedWorkerStop phase stopped)"

fun admits_or_returns :: "heap \<Rightarrow> ('w, 'p, 'd, 'j, 'err, 'ini, 'a, 'r) stable_proxy
    \<Rightarrow> heap \<times> ('w, 'p, 'd, 'j, 'err, 'ini, 'a, 'r) stable_proxy
         \<times> ('w, 'p, 'd, 'j, 'err, 'ini, 'a, 'r, 'n, 'm) proxy_actions
    \<Rightarrow> ('w, 'p, 'd, 'j, 'err, 'ini, 'a, 'r, 'n, 'm) proxy_event \<Rightarrow> bool" where
  "admits_or_returns h p (h', p', a) e \<longleftrightarrow> proxy_diagnostics (sends a) = []
     \<or> (h' = h \<and> p' = p \<and> (\<exists>d. diagnosis (proxy_phase_of p) e = Some d \<and> a = proxy_diagnose d))"

declare admits_or_returns.simps [simp del]

definition stopping_resolves :: "('a, 'r) worker_stopping \<Rightarrow> shutdown_resolved \<Rightarrow> bool" where
  "stopping_resolves d i \<longleftrightarrow> stopping_shutdown d = ShutdownRequestedAs (resolved_id i)"

definition stopping_stops :: "('a, 'r) worker_stopping \<Rightarrow> 'a child_stopped \<Rightarrow> bool" where
  "stopping_stops d i \<longleftrightarrow> stopping_stopped d = None
     \<and> stopped_child i = attempt_creation (current_attempt (stopping_worker d))"

definition creation_admitted :: "'p pending_worker \<Rightarrow> ('w, 'r, 'n, 'err, 'ini) workers_settled \<Rightarrow> bool" where
  "creation_admitted w ws \<longleftrightarrow> (case ws of
      CreationsRejected creations reason \<Rightarrow> map (\<lambda>c. (create_id c, create_kind c)) creations = [(pending_creation w, pending_kind w)]
    | CreationsSettled settlements \<Rightarrow> map settlement_identity settlements = [(pending_creation w, pending_kind w)]
    | CreationsCorrupt creations fault \<Rightarrow> False)"

lemma stopping_resolved_Inl: "stopping_resolved d i = Inl x \<longleftrightarrow> x = (d, i) \<and> \<not> stopping_resolves d i"
  by (auto simp: stopping_resolved_def stopping_resolves_def split: worker_shutdown.splits if_splits)

lemma stopping_worker_stopped_Inl: "stopping_worker_stopped d i = Inl x \<longleftrightarrow> x = (d, i) \<and> \<not> stopping_stops d i"
  by (auto simp: stopping_worker_stopped_def stopping_stops_def current_admit_stop_def split: option.splits if_splits)

lemma worker_created_Unexpected:
  "worker_created w ws st = CreationUnexpected w' st' ws' \<longleftrightarrow> w' = w \<and> st' = st \<and> ws' = ws \<and> \<not> creation_admitted w ws"
  by (auto simp: worker_created_def created_one_def admit_creation_def creations_into_one_def creations_one_def Let_def
      creation_admitted_def pending_creation_def create_into_parts_def
      split: creation_settlement.splits list.splits sum.splits if_splits worker_creation_outcome.splits)

lemma current_admit_stop_iff:
  "current_admit_stop c s = Inl s' \<longleftrightarrow> s' = s \<and> stopped_child s \<noteq> attempt_creation (current_attempt c)"
  "current_admit_stop c s = Inr s' \<longleftrightarrow> s' = s \<and> stopped_child s = attempt_creation (current_attempt c)"
  by (auto simp: current_admit_stop_def)

lemma pending_admit_stop_iff:
  "pending_admit_stop w s = Inl s' \<longleftrightarrow> s' = s \<and> stopped_child s \<noteq> pending_creation w"
  "pending_admit_stop w s = Inr s' \<longleftrightarrow> s' = s \<and> stopped_child s = pending_creation w"
  by (auto simp: pending_admit_stop_def pending_creation_def)

lemma admit_initialization_iff:
  "admit_initialization c r = Inl r' \<longleftrightarrow> r' = r \<and> \<not> (report_worker r = current_attempt c \<and> report_initialization r = current_initialization c)"
  "admit_initialization c r = Inr r' \<longleftrightarrow> r' = r \<and> report_worker r = current_attempt c \<and> report_initialization r = current_initialization c"
  by (auto simp: admit_initialization_def)

fun progress_grant :: "startup_progress \<Rightarrow> worker_startup_grant" where
  "progress_grant (WaitingForStart g) = g"
| "progress_grant (StartRunning g) = g"

lemma admit_startup_iff:
  "admit_startup g i = Inl i' \<longleftrightarrow> i' = i \<and> startup_attempt i \<noteq> progress_grant g"
  "admit_startup g i = Inr i' \<longleftrightarrow> i' = i \<and> startup_attempt i = progress_grant g"
  by (auto simp: admit_startup_def Let_def split: startup_progress.splits)

lemmas admission_iffs = stopping_resolved_Inl stopping_worker_stopped_Inl worker_created_Unexpected
  current_admit_stop_iff pending_admit_stop_iff admit_initialization_iff admit_startup_iff startup_splits

lemma proxy_with_eta: "proxy_with c st = p \<longleftrightarrow> c = proxy_creations p \<and> st = proxy_state p"
  by (cases p) (auto simp: proxy_with_def)

lemma start_eta: "\<lparr>start_kind = k, start_phase = ph\<rparr> = s \<longleftrightarrow> k = start_kind s \<and> ph = start_phase s"
  by (cases s) auto

lemma admits_leaf [simp]:
  "admits_or_returns h p (h', q, proxy_report x) e"
  "admits_or_returns h p (h', q, create_worker i c) e"
  "admits_or_returns h p (h', q, request_worker_shutdown r) e"
  "admits_or_returns h p (h', q, report_pair x y) e"
  "admits_or_returns h p (h', q, request_initialization z) e"
  "admits_or_returns h p (h', q, initialize_and_shutdown z r) e"
  "admits_or_returns h p (h', q, begin_startup w) e"
  "admits_or_returns h p (h', q, cont proxy_sends) e"
  "admits_or_returns h p (h', q, stop_actions proxy_sends) e"
  "proxy_diagnostics s = [] \<Longrightarrow> admits_or_returns h p (h', q, send_actions s) e"
  "proxy_diagnostics s = [] \<Longrightarrow> admits_or_returns h p (h', q, new_actions s cs b) e"
  by (simp_all add: admits_or_returns.simps proxy_action_defs)

lemma admits_diagnosed:
  "admits_or_returns h p (h', q, proxy_diagnose d) e \<longleftrightarrow> h' = h \<and> q = p \<and> diagnosis (proxy_phase_of p) e = Some d"
  by (auto simp: admits_or_returns.simps proxy_action_defs)

lemmas unexpected_defs = unexpected_stop_def unexpected_shutdown_def unexpected_startup_def
  unexpected_worker_start_def unexpected_initialization_def unexpected_shutdown_startup_def
  unexpected_start_initialization_def stop_with_def

lemmas admits_simps = admits_diagnosed unexpected_defs proxy_with_eta proxy_phase_of_def start_eta admission_iffs Let_def no_effects_def

lemma worker_stopped_returns: "admits_or_returns h p (h, worker_stopped p st) (EventWorkerStopped st)"
  by (simp add: proxy_stop_defs proxy_result_defs admits_simps split: proxy_splits)

lemma worker_shutdown_returns: "admits_or_returns h p (h, worker_shutdown_resolved p st) (EventWorkerShutdown st)"
  by (simp add: proxy_resolved_defs proxy_result_defs admits_simps split: proxy_splits)

lemma settle_worker_startup_returns: "admits_or_returns h p (h, settle_worker_startup p st) (EventWorkerStartup st)"
  by (simp add: proxy_startup_defs proxy_result_defs admits_simps split: proxy_splits)

lemma workers_created_returns: "admits_or_returns h p (h, workers_created p st) (EventWorkersCreated st)"
  by (simp add: proxy_created_defs proxy_result_defs admits_simps split: proxy_splits)

lemma worker_initialized_returns: "admits_or_returns h p (worker_initialized h p rep) (EventWorkerInitialization rep)"
  by (simp add: proxy_initialized_defs proxy_result_defs admits_simps split: proxy_splits)

lemma service_returns: "admits_or_returns h p (h, service p user) (EventService user)"
  by (simp add: service_def admits_simps split: proxy_splits)

lemma proxy_owner_returns: "admits_or_returns h p (proxy_owner h p control) (EventOwner control)"
  by (simp add: proxy_owner_defs proxy_result_defs admits_simps split: proxy_splits proxy_command.splits)

lemmas proxy_returns = proxy_step_cases [where Q = "admits_or_returns h p" for h p, OF service_returns
  proxy_owner_returns workers_created_returns worker_initialized_returns settle_worker_startup_returns
  worker_shutdown_returns worker_stopped_returns]

lemma proxy_with_simps [simp]:
  "proxy_state (proxy_with c st) = st"
  "proxy_creations (proxy_with c st) = c"
  by (simp_all add: proxy_with_def)

lemma action_sends [simp]:
  "sends (proxy_report x) = no_effects\<lparr>owner_outcomes := [x]\<rparr>"
  "sends (proxy_diagnose g) = no_effects\<lparr>proxy_diagnostics := [g]\<rparr>"
  "sends (create_worker i c) = no_effects\<lparr>worker_observations := [i]\<rparr>"
  "sends (request_worker_shutdown r) = no_effects\<lparr>worker_shutdowns := [r]\<rparr>"
  "sends (report_pair x y) = no_effects\<lparr>owner_outcomes := [x, y]\<rparr>"
  "sends (request_initialization z) = no_effects\<lparr>worker_initializations := [z]\<rparr>"
  "sends (initialize_and_shutdown z r) = no_effects\<lparr>worker_initializations := [z], worker_shutdowns := [r]\<rparr>"
  "sends (begin_startup w) = no_effects\<lparr>worker_startups := [w]\<rparr>"
  "sends (cont proxy_sends) = no_effects"
  "sends (stop_actions proxy_sends) = no_effects"
  "sends (send_actions s) = s"
  "sends (new_actions s cs b) = s"
  by (simp_all add: proxy_action_defs)

lemma action_creates [simp]:
  "creates (proxy_report x) = []"
  "creates (proxy_diagnose g) = []"
  "creates (create_worker i c) = [c]"
  "creates (request_worker_shutdown r) = []"
  "creates (report_pair x y) = []"
  "creates (request_initialization z) = []"
  "creates (initialize_and_shutdown z r) = []"
  "creates (begin_startup w) = []"
  "creates (cont proxy_sends) = []"
  "creates (stop_actions proxy_sends) = []"
  "creates (send_actions s) = []"
  "creates (new_actions s cs b) = cs"
  by (simp_all add: proxy_action_defs creations_one_def)

lemma no_effects_lanes [simp]:
  "worker_observations no_effects = []" "worker_initializations no_effects = []" "worker_startups no_effects = []"
  "worker_shutdowns no_effects = []" "worker_deliveries no_effects = []" "owner_outcomes no_effects = []"
  "proxy_diagnostics no_effects = []"
  by (simp_all add: no_effects_def)

lemmas law_simps = unexpected_defs proxy_phase_of_def admission_iffs creations_one_def Let_def

fun routes_service :: "('w, 'p, 'd, 'j, 'err, 'ini, 'a, 'r) stable_proxy
    \<Rightarrow> heap \<times> ('w, 'p, 'd, 'j, 'err, 'ini, 'a, 'r) stable_proxy
         \<times> ('w, 'p, 'd, 'j, 'err, 'ini, 'a, 'r, 'n, 'm) proxy_actions
    \<Rightarrow> ('w, 'p, 'd, 'j, 'err, 'ini, 'a, 'r, 'n, 'm) proxy_event \<Rightarrow> bool" where
  "routes_service p (h', p', a) (EventService user) \<longleftrightarrow> p' = p \<and> (case ready_endpoint (proxy_state p) of
      Some r \<Rightarrow> worker_deliveries (sends a) = [\<lparr>deliver_to = r, delivered = user_message user\<rparr>] \<and> returned_messages a = []
    | None \<Rightarrow> worker_deliveries (sends a) = []
        \<and> returned_messages a = [(user_from user, proxy_phase_of p, user_message user)])"
| "routes_service p (h', p', a) e \<longleftrightarrow> worker_deliveries (sends a) = [] \<and> returned_messages a = []"

lemma proxy_routes: "routes_service p (proxy_accept h p e) e"
proof (rule proxy_step_cases)
  show "routes_service p (h, service p user) (EventService user)" for user
    by (simp add: service_def law_simps proxy_with_eta returned_messages_def split: proxy_splits)
  show "routes_service p (proxy_owner h p control) (EventOwner control)" for control
    by (simp add: proxy_owner_defs proxy_result_defs law_simps returned_messages_def split: proxy_splits proxy_command.splits)
  show "routes_service p (h, workers_created p workers) (EventWorkersCreated workers)" for workers
    by (simp add: proxy_created_defs proxy_result_defs law_simps returned_messages_def split: proxy_splits)
  show "routes_service p (worker_initialized h p report) (EventWorkerInitialization report)" for report
    by (simp add: proxy_initialized_defs proxy_result_defs law_simps returned_messages_def split: proxy_splits)
  show "routes_service p (h, settle_worker_startup p startup) (EventWorkerStartup startup)" for startup
    by (simp add: proxy_startup_defs proxy_result_defs law_simps returned_messages_def split: proxy_splits)
  show "routes_service p (h, worker_shutdown_resolved p shutdown) (EventWorkerShutdown shutdown)" for shutdown
    by (simp add: proxy_resolved_defs proxy_result_defs law_simps returned_messages_def split: proxy_splits)
  show "routes_service p (h, worker_stopped p stopped) (EventWorkerStopped stopped)" for stopped
    by (simp add: proxy_stop_defs proxy_result_defs law_simps returned_messages_def split: proxy_splits)
qed

section \<open>Submissions\<close>

text \<open>
  How many submissions a state has not answered yet; a proxy that stops while one is in progress
  retains it. The answers are the initial and the replacement outcomes.
\<close>

fun shutdown_due :: "('w, 'p, 'd, 'j, 'err, 'ini, 'a, 'r) proxy_shutdown \<Rightarrow> nat" where
  "shutdown_due (ReturningWorker departure) = 0"
| "shutdown_due (ShutdownReturningPredecessor departure replaces successor) = 0"
| "shutdown_due shutdown = 1"

fun retirement_due :: "('w, 'p, 'd, 'j, 'err, 'ini, 'a, 'r) proxy_retirement \<Rightarrow> nat" where
  "retirement_due (RetiredWorkerStart replaces retirement) = 1"
| "retirement_due (RetiredAfterPredecessor replaces predecessor retirement) = 1"
| "retirement_due retirement = 0"

fun state_due :: "('w, 'p, 'd, 'j, 'err, 'ini, 'a, 'r) proxy_state \<Rightarrow> nat" where
  "state_due (ProxyStarting start) = 1"
| "state_due (ProxyReplacing replacement) = 1"
| "state_due (ProxyShuttingDown shutdown) = shutdown_due shutdown"
| "state_due (ProxyStopped retirement) = retirement_due retirement"
| "state_due state = 0"

fun event_submits :: "('w, 'p, 'd, 'j, 'err, 'ini, 'a, 'r, 'n, 'm) proxy_event \<Rightarrow> nat" where
  "event_submits (EventOwner (ProxyStart submission)) = 1"
| "event_submits (EventOwner (ProxyReplace submission)) = 1"
| "event_submits e = 0"

fun outcome_answers :: "('w, 'p, 'd, 'j, 'err, 'ini, 'a, 'r, 'm) proxy_outcome \<Rightarrow> nat" where
  "outcome_answers (OutcomeInitial outcome) = 1"
| "outcome_answers (OutcomeReplacement outcome) = 1"
| "outcome_answers outcome = 0"

definition action_answers :: "('w, 'p, 'd, 'j, 'err, 'ini, 'a, 'r, 'n, 'm) proxy_actions \<Rightarrow> nat" where
  "action_answers a = (\<Sum>outcome\<leftarrow>owner_outcomes (sends a). outcome_answers outcome)"

fun answers_once :: "('w, 'p, 'd, 'j, 'err, 'ini, 'a, 'r) stable_proxy
    \<Rightarrow> heap \<times> ('w, 'p, 'd, 'j, 'err, 'ini, 'a, 'r) stable_proxy
         \<times> ('w, 'p, 'd, 'j, 'err, 'ini, 'a, 'r, 'n, 'm) proxy_actions
    \<Rightarrow> ('w, 'p, 'd, 'j, 'err, 'ini, 'a, 'r, 'n, 'm) proxy_event \<Rightarrow> bool" where
  "answers_once p (h', p', a) e \<longleftrightarrow>
     state_due (proxy_state p) + event_submits e = state_due (proxy_state p') + action_answers a"

lemma proxy_answers: "answers_once p (proxy_accept h p e) e"
proof (rule proxy_step_cases)
  show "answers_once p (h, service p user) (EventService user)" for user
    by (simp add: service_def law_simps action_answers_def split: proxy_splits)
  show "answers_once p (proxy_owner h p control) (EventOwner control)" for control
    by (simp add: proxy_owner_defs proxy_result_defs law_simps action_answers_def split: proxy_splits proxy_command.splits)
  show "answers_once p (h, workers_created p workers) (EventWorkersCreated workers)" for workers
    by (simp add: proxy_created_defs proxy_result_defs law_simps action_answers_def split: proxy_splits)
  show "answers_once p (worker_initialized h p report) (EventWorkerInitialization report)" for report
    by (simp add: proxy_initialized_defs proxy_result_defs law_simps action_answers_def split: proxy_splits)
  show "answers_once p (h, settle_worker_startup p startup) (EventWorkerStartup startup)" for startup
    by (simp add: proxy_startup_defs proxy_result_defs law_simps action_answers_def split: proxy_splits)
  show "answers_once p (h, worker_shutdown_resolved p shutdown) (EventWorkerShutdown shutdown)" for shutdown
    by (simp add: proxy_resolved_defs proxy_result_defs law_simps action_answers_def split: proxy_splits)
  show "answers_once p (h, worker_stopped p stopped) (EventWorkerStopped stopped)" for stopped
    by (simp add: proxy_stop_defs proxy_result_defs law_simps action_answers_def split: proxy_splits)
qed

section \<open>Custody\<close>

text \<open>The workers and the startup plans a value holds.\<close>

type_synonym ('w, 'p) goods = "('w + 'p) list"

fun drain_goods :: "('p, 'd, 'j, 'a, 'r) proxy_drain \<Rightarrow> ('w, 'p) goods" where
  "drain_goods (DrainInitializationRejected failure startup shutdown stopped) = [Inr startup]"
| "drain_goods (DrainInitializationStopped startup observed returned) = [Inr startup]"
| "drain_goods (DrainInitializationCompleted permit startup stopped) = [Inr startup]"
| "drain_goods (DrainStartupRefused request reason shutdown stopped) = [Inr (start_plan request)]"
| "drain_goods (DrainStartupRejected rejection shutdown stopped) = []"
| "drain_goods (DrainStartupCompleted readiness stopped) = []"

definition worker_goods :: "'w option \<Rightarrow> ('w, 'p) goods" where
  "worker_goods worker = (case worker of Some w \<Rightarrow> [Inl w] | None \<Rightarrow> [])"

fun result_goods :: "('w, 'p, 'd, 'j, 'err, 'ini, 'a, 'r) worker_start_result \<Rightarrow> ('w, 'p) goods" where
  "result_goods (ResultCreationRejected rejection startup stopped) = worker_goods (rejection_worker rejection) @ [Inr startup]"
| "result_goods (ResultReady attempt readiness) = []"
| "result_goods (ResultUnavailable attempt drain) = drain_goods drain"

fun outcome_goods :: "('w, 'p, 'd, 'j, 'err, 'ini, 'a, 'r, 'm) proxy_outcome \<Rightarrow> ('w, 'p) goods" where
  "outcome_goods (OutcomeInitial (InitialOverlap worker startup phase)) = [Inl worker, Inr startup]"
| "outcome_goods (OutcomeInitial (InitialAttemptsExhausted worker startup)) = [Inl worker, Inr startup]"
| "outcome_goods (OutcomeInitial (InitialResolved result)) = result_goods result"
| "outcome_goods (OutcomeReplacement (NotReplaceable worker startup phase)) = [Inl worker, Inr startup]"
| "outcome_goods (OutcomeReplacement (ReplacementAttemptsExhausted replaces worker startup)) = [Inl worker, Inr startup]"
| "outcome_goods (OutcomeReplacement (CancelledBeforeBirth replaces worker startup)) = [Inl worker, Inr startup]"
| "outcome_goods (OutcomeReplacement (ReplacementResolved replaces result)) = result_goods result"
| "outcome_goods (OutcomeWorkerStopped worker stopped) = []"
| "outcome_goods (OutcomeUnavailable sender phase command) = []"

definition creation_goods :: "'w hosted create_child \<Rightarrow> ('w, 'p) goods" where
  "creation_goods creation = [Inl (into_inner (create_child creation))]"

fun settled_goods :: "('w, 'r, 'n, 'err, 'ini) workers_settled \<Rightarrow> ('w, 'p) goods" where
  "settled_goods (CreationsSettled settlements) = concat (map (worker_goods \<circ> settled_worker) settlements)"
| "settled_goods (CreationsRejected creations reason) = concat (map creation_goods creations)"
| "settled_goods (CreationsCorrupt creations fault) = concat (map creation_goods creations)"

fun report_goods :: "('r, 'p, 'a) worker_initialization_report \<Rightarrow> ('w, 'p) goods" where
  "report_goods (InitializedReport worker initialization startup permit) = [Inr startup]"
| "report_goods (EffectsRejectedReport worker initialization startup failure) = [Inr startup]"
| "report_goods (StoppedReport worker initialization startup stopped) = [Inr startup]"

definition startup_goods :: "('r, 'p, 'd, 'j) worker_startup \<Rightarrow> ('w, 'p) goods" where
  "startup_goods startup = (case startup_outcome startup of
      StartRejected request reason \<Rightarrow> [Inr (start_plan request)] | _ \<Rightarrow> [])"

fun diagnostic_goods :: "('w, 'p, 'd, 'j, 'err, 'ini, 'a, 'r, 'n) proxy_diagnostic \<Rightarrow> ('w, 'p) goods" where
  "diagnostic_goods (UnexpectedWorkerStart phase workers) = settled_goods workers"
| "diagnostic_goods (UnexpectedWorkerStop phase stopped) = []"
| "diagnostic_goods (UnexpectedWorkerInitialization phase report) = report_goods report"
| "diagnostic_goods (UnexpectedWorkerStartup phase startup) = startup_goods startup"
| "diagnostic_goods (UnexpectedWorkerShutdown phase shutdown) = []"

definition action_goods :: "('w, 'p, 'd, 'j, 'err, 'ini, 'a, 'r, 'n, 'm) proxy_actions \<Rightarrow> ('w, 'p) goods" where
  "action_goods a = concat (map creation_goods (creates a))
     @ map (\<lambda>q. Inr (initialize_startup q)) (worker_initializations (sends a))
     @ map (\<lambda>q. Inr (start_plan q)) (worker_startups (sends a))
     @ concat (map outcome_goods (owner_outcomes (sends a)))
     @ concat (map diagnostic_goods (proxy_diagnostics (sends a)))"

fun event_goods :: "('w, 'p, 'd, 'j, 'err, 'ini, 'a, 'r, 'n, 'm) proxy_event \<Rightarrow> ('w, 'p) goods" where
  "event_goods (EventService user) = []"
| "event_goods (EventOwner (ProxyStart submission)) = [Inl (submitted_worker submission), Inr (submitted_startup submission)]"
| "event_goods (EventOwner (ProxyReplace submission)) = [Inl (submitted_worker submission), Inr (submitted_startup submission)]"
| "event_goods (EventOwner ProxyShutdownCommand) = []"
| "event_goods (EventWorkersCreated workers) = settled_goods workers"
| "event_goods (EventWorkerInitialization report) = report_goods report"
| "event_goods (EventWorkerStartup startup) = startup_goods startup"
| "event_goods (EventWorkerShutdown shutdown) = []"
| "event_goods (EventWorkerStopped stopped) = []"

fun failure_goods :: "('p, 'j, 'r) pre_ready_failure \<Rightarrow> ('w, 'p) goods" where
  "failure_goods (FailedInitializationEffects failure startup) = [Inr startup]"
| "failure_goods (FailedStartupRefused request reason) = [Inr (start_plan request)]"
| "failure_goods (FailedStartupRejected rejection) = []"

fun phase_goods :: "('p, 'j, 'a, 'r) worker_start_phase \<Rightarrow> ('w, 'p) goods" where
  "phase_goods (StartCreating worker stopped) = [Inr (pending_startup worker)]"
| "phase_goods (StartInitializing worker stopped) = []"
| "phase_goods (StartStarting worker progress stopped) = []"
| "phase_goods (StartReturningWorker departure failure) = failure_goods failure"

fun completion_goods :: "('w, 'p, 'd, 'j, 'err, 'ini, 'a, 'r) replacement_completion \<Rightarrow> ('w, 'p) goods" where
  "completion_goods (CompletedReady worker result) = result_goods result"
| "completion_goods (CompletedReadyAfterStop worker result stopped) = result_goods result"
| "completion_goods (CompletedEmpty worker result) = result_goods result"

fun initialization_goods :: "('p, 'a, 'r) worker_initialization_retirement \<Rightarrow> ('w, 'p) goods" where
  "initialization_goods (RetiredInitialized permit startup) = [Inr startup]"
| "initialization_goods (RetiredEffectsRejected failure startup) = [Inr startup]"
| "initialization_goods (RetiredInitializationStopped startup stopped) = [Inr startup]"

fun startup_retirement_goods :: "('p, 'd, 'j, 'r) worker_startup_retirement \<Rightarrow> ('w, 'p) goods" where
  "startup_retirement_goods (RetiredStartRejected request reason) = [Inr (start_plan request)]"
| "startup_retirement_goods (RetiredStartReady readiness) = []"
| "startup_retirement_goods (RetiredStartRefused rejection) = []"

fun start_retirement_goods :: "('w, 'p, 'd, 'j, 'err, 'ini, 'a, 'r) worker_start_retirement \<Rightarrow> ('w, 'p) goods" where
  "start_retirement_goods (RetiredResult result) = result_goods result"
| "start_retirement_goods (RetiredInitialization initialization worker shutdown stopped) = initialization_goods initialization"
| "start_retirement_goods (RetiredStartup startup worker shutdown stopped) = startup_retirement_goods startup"
| "start_retirement_goods (RetiredReadyWorker result departure) = result_goods result"
| "start_retirement_goods (RetiredCompletion completion) = completion_goods completion"

fun retirement_goods :: "('w, 'p, 'd, 'j, 'err, 'ini, 'a, 'r) proxy_retirement \<Rightarrow> ('w, 'p) goods" where
  "retirement_goods (RetiredWorkerStart replaces retirement) = start_retirement_goods retirement"
| "retirement_goods (RetiredAfterPredecessor replaces predecessor retirement) = start_retirement_goods retirement"
| "retirement_goods retirement = []"

fun shutdown_goods :: "('w, 'p, 'd, 'j, 'err, 'ini, 'a, 'r) proxy_shutdown \<Rightarrow> ('w, 'p) goods" where
  "shutdown_goods (WaitingForCreation start) = phase_goods (start_phase start)"
| "shutdown_goods (ReturningWorker departure) = []"
| "shutdown_goods (ReturningWorkerStart kind departure failure) = failure_goods failure"
| "shutdown_goods (ShutdownReturningPredecessor departure replaces successor) = []"
| "shutdown_goods (ReturningSuccessor replaces predecessor departure result) = result_goods result"
| "shutdown_goods (ShutdownInitializing kind (InitializationDeparting initialization departure)) =
     (case initialization of Some retirement \<Rightarrow> initialization_goods retirement | None \<Rightarrow> [])"
| "shutdown_goods (ShutdownInitializing kind (WaitingForInitialization worker shutdown stopped)) = []"
| "shutdown_goods (ShutdownStarting kind (StartupDeparting startup departure)) =
     (case startup of StartupReturned retirement \<Rightarrow> startup_retirement_goods retirement | StartupPending progress \<Rightarrow> [])"
| "shutdown_goods (ShutdownStarting kind (WaitingForStartup progress worker shutdown stopped)) = []"
| "shutdown_goods (WaitingForPredecessor replaces shutdown retirement) = start_retirement_goods retirement"

fun state_goods :: "('w, 'p, 'd, 'j, 'err, 'ini, 'a, 'r) proxy_state \<Rightarrow> ('w, 'p) goods" where
  "state_goods (ProxyStarting start) = phase_goods (start_phase start)"
| "state_goods (ProxyReplacing (ReplacementReturningPredecessor departure successor creation)) =
     creation_goods creation @ [Inr (pending_startup successor)]"
| "state_goods (ProxyReplacing (SuccessorResultAwaitingShutdown replaces shutdown completion)) = completion_goods completion"
| "state_goods (ProxyShuttingDown shutdown) = shutdown_goods shutdown"
| "state_goods (ProxyStopped retirement) = retirement_goods retirement"
| "state_goods state = []"

fun conserves_goods :: "('w, 'p, 'd, 'j, 'err, 'ini, 'a, 'r) stable_proxy
    \<Rightarrow> heap \<times> ('w, 'p, 'd, 'j, 'err, 'ini, 'a, 'r) stable_proxy
         \<times> ('w, 'p, 'd, 'j, 'err, 'ini, 'a, 'r, 'n, 'm) proxy_actions
    \<Rightarrow> ('w, 'p, 'd, 'j, 'err, 'ini, 'a, 'r, 'n, 'm) proxy_event \<Rightarrow> bool" where
  "conserves_goods p (h', p', a) e \<longleftrightarrow>
     mset (state_goods (proxy_state p)) + mset (event_goods e) = mset (state_goods (proxy_state p')) + mset (action_goods a)"

lemma creation_goods_simps [simp]:
  "creation_goods (create_birth i (StopOnShutdown w)) = [Inl w]"
  "creation_goods (create_replacement i q (StopOnShutdown w)) = [Inl w]"
  by (simp_all add: creation_goods_def create_birth_def create_replacement_def create_from_parts_def)

lemma into_parts_worker: "create_into_parts creation = (i, child, k) \<Longrightarrow> creation_goods creation = [Inl (into_inner child)]"
  by (auto simp: creation_goods_def create_into_parts_def)

text \<open>The worker of a creation that is not committed is in its rejection.\<close>

lemma worker_created_goods:
  fixes w :: "'p pending_worker" and ws :: "('w, 'r, 'n, 'err, 'ini) workers_settled"
  shows "worker_created w ws st = CreationInitializing c startup st' \<Longrightarrow> startup = pending_startup w \<and> st' = st \<and> (settled_goods ws :: ('w, 'p) goods) = []"
  "worker_created w ws st = CreationNotCommitted rejection startup st' \<Longrightarrow>
     startup = pending_startup w \<and> st' = st \<and> (settled_goods ws :: ('w, 'p) goods) = worker_goods (rejection_worker rejection)"
  by (auto simp: settle_worker_creation_returns [symmetric] worker_created_def created_one_def admit_creation_def creations_into_one_def Let_def worker_goods_def
      creation_goods_def create_into_parts_def
      split: creation_settlement.splits list.splits sum.splits if_splits worker_creation_outcome.splits)

lemma proxy_conserves: "conserves_goods p (proxy_accept h p e) e"
proof (rule proxy_step_cases)
  show "conserves_goods p (h, service p user) (EventService user)" for user
    by (simp add: service_def law_simps action_goods_def split: proxy_splits)
  show "conserves_goods p (proxy_owner h p control) (EventOwner control)" for control
    by (simp add: proxy_owner_defs proxy_result_defs law_simps action_goods_def pending_cancel_def into_parts_worker
        pending_birth_def pending_replacement_def await_creation_def attempt_issued_def initialization_issued_def arc_new_def
        split: proxy_splits proxy_command.splits)
  show "conserves_goods p (h, workers_created p workers) (EventWorkersCreated workers)" for workers
    by (auto simp: proxy_created_defs proxy_result_defs law_simps action_goods_def split: proxy_splits dest!: worker_created_goods)
  show "conserves_goods p (worker_initialized h p report) (EventWorkerInitialization report)" for report
    by (auto simp: proxy_initialized_defs proxy_result_defs law_simps action_goods_def split: proxy_splits)
  show "conserves_goods p (h, settle_worker_startup p startup) (EventWorkerStartup startup)" for startup
    by (auto simp: proxy_startup_defs proxy_result_defs law_simps action_goods_def startup_goods_def split: proxy_splits)
  show "conserves_goods p (h, worker_shutdown_resolved p shutdown) (EventWorkerShutdown shutdown)" for shutdown
    by (auto simp: proxy_resolved_defs proxy_result_defs law_simps action_goods_def split: proxy_splits)
  show "conserves_goods p (h, worker_stopped p stopped) (EventWorkerStopped stopped)" for stopped
    by (auto simp: proxy_stop_defs proxy_result_defs law_simps action_goods_def split: proxy_splits)
qed

section \<open>One worker at a time\<close>

text \<open>The creation of the worker a state has not seen stop, and the one it has issued but not emitted.\<close>

definition unless_stopped :: "'a child_stopped option \<Rightarrow> creation_id \<Rightarrow> creation_id list" where
  "unless_stopped stopped i = (case stopped of None \<Rightarrow> [i] | Some report \<Rightarrow> [])"

definition departing_worker :: "('a, 'r) worker_stopping \<Rightarrow> creation_id list" where
  "departing_worker d = unless_stopped (stopping_stopped d) (attempt_creation (current_attempt (stopping_worker d)))"

fun phase_worker :: "('p, 'j, 'a, 'r) worker_start_phase \<Rightarrow> creation_id list" where
  "phase_worker (StartCreating worker stopped) = unless_stopped stopped (pending_creation worker)"
| "phase_worker (StartInitializing worker stopped) = unless_stopped stopped (attempt_creation (current_attempt worker))"
| "phase_worker (StartStarting worker progress stopped) = unless_stopped stopped (attempt_creation (current_attempt worker))"
| "phase_worker (StartReturningWorker departure failure) = departing_worker departure"

fun shutdown_worker :: "('w, 'p, 'd, 'j, 'err, 'ini, 'a, 'r) proxy_shutdown \<Rightarrow> creation_id list" where
  "shutdown_worker (WaitingForCreation start) = phase_worker (start_phase start)"
| "shutdown_worker (ReturningWorker departure) = departing_worker departure"
| "shutdown_worker (ReturningWorkerStart kind departure failure) = departing_worker departure"
| "shutdown_worker (ShutdownReturningPredecessor departure replaces successor) = departing_worker departure"
| "shutdown_worker (ReturningSuccessor replaces predecessor departure result) = departing_worker departure"
| "shutdown_worker (ShutdownInitializing kind (InitializationDeparting initialization departure)) = departing_worker departure"
| "shutdown_worker (ShutdownInitializing kind (WaitingForInitialization worker shutdown stopped)) = []"
| "shutdown_worker (ShutdownStarting kind (StartupDeparting startup departure)) = departing_worker departure"
| "shutdown_worker (ShutdownStarting kind (WaitingForStartup startup worker shutdown stopped)) = []"
| "shutdown_worker (WaitingForPredecessor replaces shutdown retirement) = []"

fun state_worker :: "('w, 'p, 'd, 'j, 'err, 'ini, 'a, 'r) proxy_state \<Rightarrow> creation_id list" where
  "state_worker (ProxyStarting start) = phase_worker (start_phase start)"
| "state_worker (ProxyReady worker) = [attempt_creation (current_attempt worker)]"
| "state_worker (ProxyReplacing (ReplacementReturningPredecessor departure successor creation)) = departing_worker departure"
| "state_worker (ProxyReplacing (SuccessorResultAwaitingShutdown replaces shutdown (CompletedReady worker result))) =
     [attempt_creation (current_attempt worker)]"
| "state_worker (ProxyShuttingDown shutdown) = shutdown_worker shutdown"
| "state_worker state = []"

text \<open>The workers an event reports as gone: stopped, or not created.\<close>

fun settlement_gone :: "('w, 'r, 'n, 'err, 'ini) worker_creation_settlement \<Rightarrow> creation_id list" where
  "settlement_gone (Attempted (ItemAccepted (ChildEstablished child))) = []"
| "settlement_gone settlement = [fst (settlement_identity settlement)]"

fun event_gone :: "('w, 'p, 'd, 'j, 'err, 'ini, 'a, 'r, 'n, 'm) proxy_event \<Rightarrow> creation_id list" where
  "event_gone (EventWorkerStopped stopped) = [stopped_child stopped]"
| "event_gone (EventWorkerInitialization (StoppedReport worker initialization startup stopped)) = [stopped_child stopped]"
| "event_gone (EventWorkersCreated (CreationsSettled settlements)) = concat (map settlement_gone settlements)"
| "event_gone (EventWorkersCreated (CreationsRejected creations reason)) = map create_id creations"
| "event_gone e = []"

definition created_workers :: "('w, 'p, 'd, 'j, 'err, 'ini, 'a, 'r, 'n, 'm) proxy_actions \<Rightarrow> creation_id list" where
  "created_workers a = map create_id (creates a)"

fun replaces_worker :: "('w, 'p, 'd, 'j, 'err, 'ini, 'a, 'r) stable_proxy
    \<Rightarrow> heap \<times> ('w, 'p, 'd, 'j, 'err, 'ini, 'a, 'r) stable_proxy
         \<times> ('w, 'p, 'd, 'j, 'err, 'ini, 'a, 'r, 'n, 'm) proxy_actions
    \<Rightarrow> ('w, 'p, 'd, 'j, 'err, 'ini, 'a, 'r, 'n, 'm) proxy_event \<Rightarrow> bool" where
  "replaces_worker p (h', p', a) e \<longleftrightarrow>
     (if created_workers a = [] then set (state_worker (proxy_state p)) - set (event_gone e) \<subseteq> set (state_worker (proxy_state p'))
      else created_workers a = state_worker (proxy_state p') \<and> set (state_worker (proxy_state p)) \<subseteq> set (event_gone e))"

text \<open>A successor is held with the creation it was issued for.\<close>

fun successor_issued :: "('w, 'p, 'd, 'j, 'err, 'ini, 'a, 'r) proxy_state \<Rightarrow> bool" where
  "successor_issued (ProxyReplacing (ReplacementReturningPredecessor departure successor creation)) \<longleftrightarrow>
     pending_creation successor = create_id creation"
| "successor_issued state \<longleftrightarrow> True"

lemma unless_stopped_simps [simp]: "unless_stopped None i = [i]" "unless_stopped (Some report) i = []"
  by (simp_all add: unless_stopped_def)

lemma in_unless_stopped [simp]: "x \<in> set (unless_stopped stopped i) \<longleftrightarrow> stopped = None \<and> x = i"
  by (cases stopped) auto

lemma stopping_resolved_Inr:
  "stopping_resolved d i = Inr (FlowContinue d') \<longleftrightarrow> stopping_resolves d i \<and> stopping_stopped d = None
     \<and> d' = d\<lparr>stopping_shutdown := ShutdownSettledBy i\<rparr>"
  "stopping_resolved d i = Inr (FlowBreak x) \<longleftrightarrow> stopping_resolves d i \<and> (\<exists>s. stopping_stopped d = Some s
     \<and> x = \<lparr>stopped_current = stopping_worker d, stopped_shutdown = i, stopped_stop = s\<rparr>)"
  by (auto simp: stopping_resolved_def stopping_resolves_def stopping_complete_def
      split: worker_shutdown.splits if_splits option.splits)

lemma stopping_worker_stopped_Inr:
  "stopping_worker_stopped d i = Inr (FlowContinue d') \<longleftrightarrow> stopping_stops d i
     \<and> (\<exists>q. stopping_shutdown d = ShutdownRequestedAs q) \<and> d' = d\<lparr>stopping_stopped := Some i\<rparr>"
  "stopping_worker_stopped d i = Inr (FlowBreak x) \<longleftrightarrow> stopping_stops d i \<and> (\<exists>r. stopping_shutdown d = ShutdownSettledBy r
     \<and> x = \<lparr>stopped_current = stopping_worker d, stopped_shutdown = r, stopped_stop = i\<rparr>)"
  by (auto simp: stopping_worker_stopped_def stopping_stops_def stopping_complete_def current_admit_stop_def
      split: worker_shutdown.splits if_splits option.splits)

lemma into_stopped_iff:
  "into_stopped_before_shutdown d = Inl d' \<longleftrightarrow> d' = d
     \<and> \<not> (\<exists>q s. stopping_shutdown d = ShutdownRequestedAs q \<and> stopping_stopped d = Some s)"
  "into_stopped_before_shutdown d = Inr (w, q, s) \<longleftrightarrow> w = stopping_worker d
     \<and> stopping_shutdown d = ShutdownRequestedAs q \<and> stopping_stopped d = Some s"
  by (auto simp: into_stopped_before_shutdown_def split: worker_shutdown.splits option.splits)

lemmas stopping_iffs = stopping_resolved_Inr stopping_worker_stopped_Inr into_stopped_iff

lemma stopping_begin_simps: "stopping_begin w = (d, r) \<longleftrightarrow>
    d = \<lparr>stopping_worker = w, stopping_shutdown = ShutdownRequestedAs (ShutdownId (creation_id_get (attempt_creation (current_attempt w)))),
         stopping_stopped = None\<rparr>
    \<and> r = \<lparr>shutdown_request_id = ShutdownId (creation_id_get (attempt_creation (current_attempt w))), shutdown_actor = current_actor w\<rparr>"
  by (auto simp: stopping_begin_def)

lemma departing_worker_stops: "stopping_stops d i \<Longrightarrow> departing_worker d = [stopped_child i]"
  by (simp add: departing_worker_def stopping_stops_def)

lemma worker_created_gone:
  "worker_created w ws st = CreationInitializing c startup st' \<Longrightarrow>
     st' = st \<and> attempt_creation (current_attempt c) = pending_creation w"
  "worker_created w ws st = CreationNotCommitted rejection startup st' \<Longrightarrow>
     st' = st \<and> pending_creation w \<in> set (event_gone (EventWorkersCreated ws))"
proof -
  have gone: "settle_worker_creation s = WorkerNotCreated r \<Longrightarrow> fst (settlement_identity s) \<in> set (settlement_gone s)" for s r
    by (induction s rule: settle_worker_creation.induct) simp_all
  show "worker_created w ws st = CreationInitializing c startup st' \<Longrightarrow>
      st' = st \<and> attempt_creation (current_attempt c) = pending_creation w"
    by (auto simp: worker_created_def created_one_def admit_creation_def pending_creation_def Let_def
        split: creation_settlement.splits sum.splits if_splits worker_creation_outcome.splits prod.splits)
  show "worker_created w ws st = CreationNotCommitted rejection startup st' \<Longrightarrow>
      st' = st \<and> pending_creation w \<in> set (event_gone (EventWorkersCreated ws))"
    by (auto simp: worker_created_def created_one_def admit_creation_def creations_into_one_def pending_creation_def Let_def
        split: creation_settlement.splits list.splits sum.splits if_splits worker_creation_outcome.splits prod.splits
        dest!: gone)
qed

lemma proxy_replaces:
  assumes "successor_issued (proxy_state p)"
  shows "replaces_worker p (proxy_accept h p e) e"
proof (rule proxy_step_cases)
  show "replaces_worker p (h, service p user) (EventService user)" for user
    by (simp add: service_def law_simps created_workers_def split: proxy_splits)
  show "replaces_worker p (proxy_owner h p control) (EventOwner control)" for control
    by (simp add: proxy_owner_defs proxy_result_defs law_simps created_workers_def stopping_begin_simps departing_worker_def
        pending_defs pending_creation_def split: proxy_splits proxy_command.splits)
  show "replaces_worker p (h, workers_created p workers) (EventWorkersCreated workers)" for workers
    by (auto simp: proxy_created_defs proxy_result_defs law_simps created_workers_def stopping_begin_simps departing_worker_def
        split: proxy_splits dest!: worker_created_gone)
  show "replaces_worker p (worker_initialized h p report) (EventWorkerInitialization report)" for report
    by (auto simp: proxy_initialized_defs proxy_result_defs law_simps created_workers_def stopping_iffs stopping_begin_simps
        stopping_stops_def departing_worker_def split: proxy_splits)
  show "replaces_worker p (h, settle_worker_startup p startup) (EventWorkerStartup startup)" for startup
    by (auto simp: proxy_startup_defs proxy_result_defs law_simps created_workers_def stopping_begin_simps departing_worker_def split: proxy_splits)
  show "replaces_worker p (h, worker_shutdown_resolved p shutdown) (EventWorkerShutdown shutdown)" for shutdown
    using assms
    by (auto simp: proxy_resolved_defs proxy_result_defs law_simps created_workers_def stopping_iffs departing_worker_def creations_one_def split: proxy_splits)
  show "replaces_worker p (h, worker_stopped p stopped) (EventWorkerStopped stopped)" for stopped
    using assms
    by (auto simp: proxy_stop_defs proxy_result_defs law_simps created_workers_def stopping_iffs stopping_stops_def departing_worker_def split: proxy_splits)
qed

section \<open>Inputs the state admits\<close>

text \<open>A report that leaves the state as it was comes back in a diagnostic.\<close>

fun moves_or_returns :: "('w, 'p, 'd, 'j, 'err, 'ini, 'a, 'r) stable_proxy
    \<Rightarrow> heap \<times> ('w, 'p, 'd, 'j, 'err, 'ini, 'a, 'r) stable_proxy
         \<times> ('w, 'p, 'd, 'j, 'err, 'ini, 'a, 'r, 'n, 'm) proxy_actions
    \<Rightarrow> ('w, 'p, 'd, 'j, 'err, 'ini, 'a, 'r, 'n, 'm) proxy_event \<Rightarrow> bool" where
  "moves_or_returns p (h', p', a) e \<longleftrightarrow> proxy_state p' = proxy_state p \<longrightarrow> diagnosis (proxy_phase_of p) e \<noteq> None
     \<longrightarrow> proxy_diagnostics (sends a) \<noteq> []"

lemma departure_moves:
  "d\<lparr>stopping_stopped := Some s\<rparr> = d \<longleftrightarrow> stopping_stopped d = Some s"
  "d\<lparr>stopping_shutdown := x\<rparr> = d \<longleftrightarrow> stopping_shutdown d = x"
  by (cases d; auto)+

lemma proxy_moves: "moves_or_returns p (proxy_accept h p e) e"
proof (rule proxy_step_cases)
  show "moves_or_returns p (h, service p user) (EventService user)" for user
    by (simp add: service_def law_simps split: proxy_splits)
  show "moves_or_returns p (proxy_owner h p control) (EventOwner control)" for control
    by (simp add: proxy_owner_defs proxy_result_defs law_simps split: proxy_splits proxy_command.splits)
  show "moves_or_returns p (h, workers_created p workers) (EventWorkersCreated workers)" for workers
    by (simp add: proxy_created_defs proxy_result_defs law_simps start_eta split: proxy_splits)
  show "moves_or_returns p (worker_initialized h p report) (EventWorkerInitialization report)" for report
    by (simp add: proxy_initialized_defs proxy_result_defs law_simps start_eta split: proxy_splits)
  show "moves_or_returns p (h, settle_worker_startup p startup) (EventWorkerStartup startup)" for startup
    by (simp add: proxy_startup_defs proxy_result_defs law_simps start_eta split: proxy_splits)
  show "moves_or_returns p (h, worker_shutdown_resolved p shutdown) (EventWorkerShutdown shutdown)" for shutdown
    by (auto simp: proxy_resolved_defs proxy_result_defs law_simps stopping_iffs start_eta departure_moves stopping_resolves_def split: proxy_splits)
  show "moves_or_returns p (h, worker_stopped p stopped) (EventWorkerStopped stopped)" for stopped
    by (auto simp: proxy_stop_defs proxy_result_defs law_simps stopping_iffs start_eta departure_moves stopping_stops_def split: proxy_splits)
qed

end
