(* ===== verification/Proxy_Invariant.thy ===== *)
theory Proxy_Invariant
  imports Proxy_Laws
begin

text \<open>
  The invariant of a stable proxy: what its state keeps of a worker belongs to that worker, was
  issued by the proxy and is still needed. Every event keeps it. With it, the laws of the steps
  become laws of the runs of a proxy from its birth.
\<close>

section \<open>Well-formed proxies\<close>

definition issued_by :: "creation_sequence \<Rightarrow> creation_id \<Rightarrow> bool" where
  "issued_by s i \<longleftrightarrow> (case sequence_next s of Some v \<Rightarrow> creation_id_get i < v | None \<Rightarrow> True)"

definition attempt_wf :: "heap \<Rightarrow> creation_sequence \<Rightarrow> worker_attempt \<Rightarrow> bool" where
  "attempt_wf h s a \<longleftrightarrow> attempt_token a < h \<and> issued_by s (attempt_creation a)"

definition initialization_wf :: "heap \<Rightarrow> worker_attempt \<Rightarrow> initialization_attempt \<Rightarrow> bool" where
  "initialization_wf h a i \<longleftrightarrow> initialized_worker i = a \<and> initialization_token i < h"

definition pending_wf :: "heap \<Rightarrow> creation_sequence \<Rightarrow> 'p pending_worker \<Rightarrow> bool" where
  "pending_wf h s w \<longleftrightarrow> attempt_wf h s (pending_attempt w) \<and> initialization_wf h (pending_attempt w) (pending_initialization w)"

definition current_wf :: "heap \<Rightarrow> creation_sequence \<Rightarrow> 'r current_worker \<Rightarrow> bool" where
  "current_wf h s w \<longleftrightarrow> attempt_wf h s (current_attempt w) \<and> initialization_wf h (current_attempt w) (current_initialization w)"

definition attempt_shutdown :: "worker_attempt \<Rightarrow> shutdown_id" where
  "attempt_shutdown a = ShutdownId (creation_id_get (attempt_creation a))"

definition stops_attempt :: "worker_attempt \<Rightarrow> 'a child_stopped \<Rightarrow> bool" where
  "stops_attempt a stopped \<longleftrightarrow> stopped_child stopped = attempt_creation a"

text \<open>A departing worker still waits for its stop or for its shutdown result.\<close>

definition stopping_wf :: "heap \<Rightarrow> creation_sequence \<Rightarrow> ('a, 'r) worker_stopping \<Rightarrow> bool" where
  "stopping_wf h s d \<longleftrightarrow> current_wf h s (stopping_worker d)
     \<and> pred_option (stops_attempt (current_attempt (stopping_worker d))) (stopping_stopped d)
     \<and> (case stopping_shutdown d of
          ShutdownRequestedAs i \<Rightarrow> i = attempt_shutdown (current_attempt (stopping_worker d))
        | ShutdownSettledBy r \<Rightarrow> resolved_id r = attempt_shutdown (current_attempt (stopping_worker d))
            \<and> stopping_stopped d = None)"

definition progress_wf :: "heap \<Rightarrow> startup_progress \<Rightarrow> bool" where
  "progress_wf h progress \<longleftrightarrow> grant_token (progress_grant progress) < h"

fun phase_wf :: "heap \<Rightarrow> creation_sequence \<Rightarrow> ('p, 'j, 'a, 'r) worker_start_phase \<Rightarrow> bool" where
  "phase_wf h s (StartCreating worker stopped) \<longleftrightarrow>
     pending_wf h s worker \<and> pred_option (stops_attempt (pending_attempt worker)) stopped"
| "phase_wf h s (StartInitializing worker stopped) \<longleftrightarrow>
     current_wf h s worker \<and> pred_option (stops_attempt (current_attempt worker)) stopped"
| "phase_wf h s (StartStarting worker progress stopped) \<longleftrightarrow>
     current_wf h s worker \<and> progress_wf h progress \<and> pred_option (stops_attempt (current_attempt worker)) stopped"
| "phase_wf h s (StartReturningWorker departure failure) \<longleftrightarrow> stopping_wf h s departure"

fun phase_attempt :: "('p, 'j, 'a, 'r) worker_start_phase \<Rightarrow> worker_attempt" where
  "phase_attempt (StartCreating worker stopped) = pending_attempt worker"
| "phase_attempt (StartInitializing worker stopped) = current_attempt worker"
| "phase_attempt (StartStarting worker progress stopped) = current_attempt worker"
| "phase_attempt (StartReturningWorker departure failure) = current_attempt (stopping_worker departure)"

text \<open>The predecessor of a replacement was issued earlier; a result it still owes is the one requested of it.\<close>

definition precedes :: "worker_attempt \<Rightarrow> worker_attempt \<Rightarrow> bool" where
  "precedes a b \<longleftrightarrow> creation_id_get (attempt_creation a) < creation_id_get (attempt_creation b)"

fun predecessor_wf :: "worker_attempt \<Rightarrow> predecessor_shutdown \<Rightarrow> bool" where
  "predecessor_wf a PredecessorSettled \<longleftrightarrow> True"
| "predecessor_wf a (PredecessorAwaiting i) \<longleftrightarrow> i = attempt_shutdown a"

fun kind_wf :: "heap \<Rightarrow> creation_sequence \<Rightarrow> worker_start_kind \<Rightarrow> worker_attempt \<Rightarrow> bool" where
  "kind_wf h s StartInitial a \<longleftrightarrow> True"
| "kind_wf h s (StartReplacement replaces predecessor) a \<longleftrightarrow>
     attempt_wf h s replaces \<and> precedes replaces a \<and> predecessor_wf replaces predecessor"

fun kind_provenance :: "worker_start_kind \<Rightarrow> creation_kind" where
  "kind_provenance StartInitial = Birth"
| "kind_provenance (StartReplacement replaces predecessor) = Replacement (attempt_creation replaces)"

fun start_wf :: "heap \<Rightarrow> creation_sequence \<Rightarrow> worker_start_kind \<Rightarrow> ('p, 'j, 'a, 'r) worker_start_phase \<Rightarrow> bool" where
  "start_wf h s kind phase \<longleftrightarrow> phase_wf h s phase \<and> kind_wf h s kind (phase_attempt phase)
     \<and> (\<forall>worker stopped. phase = StartCreating worker stopped \<longrightarrow> pending_kind worker = kind_provenance kind)"

fun completion_wf :: "heap \<Rightarrow> creation_sequence \<Rightarrow> worker_attempt
    \<Rightarrow> ('w, 'p, 'd, 'j, 'err, 'ini, 'a, 'r) replacement_completion \<Rightarrow> bool" where
  "completion_wf h s replaces (CompletedReady worker result) \<longleftrightarrow> current_wf h s worker \<and> precedes replaces (current_attempt worker)"
| "completion_wf h s replaces (CompletedReadyAfterStop worker result stopped) \<longleftrightarrow>
     attempt_wf h s worker \<and> precedes replaces worker \<and> stops_attempt worker stopped"
| "completion_wf h s replaces (CompletedEmpty worker result) \<longleftrightarrow> attempt_wf h s worker"

fun replacement_wf :: "heap \<Rightarrow> creation_sequence \<Rightarrow> ('w, 'p, 'd, 'j, 'err, 'ini, 'a, 'r) proxy_replacement \<Rightarrow> bool" where
  "replacement_wf h s (ReplacementReturningPredecessor departure successor creation) \<longleftrightarrow>
     stopping_wf h s departure \<and> stopping_stopped departure = None \<and> pending_wf h s successor
     \<and> create_id creation = pending_creation successor \<and> create_kind creation = pending_kind successor
     \<and> pending_kind successor = Replacement (attempt_creation (current_attempt (stopping_worker departure)))
     \<and> precedes (current_attempt (stopping_worker departure)) (pending_attempt successor)"
| "replacement_wf h s (SuccessorResultAwaitingShutdown replaces shutdown completion) \<longleftrightarrow>
     attempt_wf h s replaces \<and> shutdown = attempt_shutdown replaces \<and> completion_wf h s replaces completion"

fun shutdown_wf :: "heap \<Rightarrow> creation_sequence \<Rightarrow> ('w, 'p, 'd, 'j, 'err, 'ini, 'a, 'r) proxy_shutdown \<Rightarrow> bool" where
  "shutdown_wf h s (WaitingForCreation start) \<longleftrightarrow> start_wf h s (start_kind start) (start_phase start)
     \<and> (\<exists>worker stopped. start_phase start = StartCreating worker stopped)"
| "shutdown_wf h s (ReturningWorker departure) \<longleftrightarrow> stopping_wf h s departure"
| "shutdown_wf h s (ReturningWorkerStart kind departure failure) \<longleftrightarrow>
     stopping_wf h s departure \<and> kind_wf h s kind (current_attempt (stopping_worker departure))"
| "shutdown_wf h s (ShutdownReturningPredecessor departure replaces successor) \<longleftrightarrow>
     stopping_wf h s departure \<and> replaces = current_attempt (stopping_worker departure) \<and> precedes replaces successor"
| "shutdown_wf h s (ReturningSuccessor replaces predecessor departure result) \<longleftrightarrow>
     stopping_wf h s departure \<and> precedes replaces (current_attempt (stopping_worker departure))
     \<and> (case predecessor of ReturnAwaiting i \<Rightarrow> i = attempt_shutdown replaces
                          | ReturnReturned r \<Rightarrow> resolved_id r = attempt_shutdown replaces)"
| "shutdown_wf h s (ShutdownInitializing kind (InitializationDeparting initialization departure)) \<longleftrightarrow>
     stopping_wf h s departure \<and> kind_wf h s kind (current_attempt (stopping_worker departure))"
| "shutdown_wf h s (ShutdownInitializing kind (WaitingForInitialization worker shutdown stopped)) \<longleftrightarrow>
     current_wf h s worker \<and> kind_wf h s kind (current_attempt worker) \<and> stops_attempt (current_attempt worker) stopped"
| "shutdown_wf h s (ShutdownStarting kind (StartupDeparting startup departure)) \<longleftrightarrow>
     stopping_wf h s departure \<and> kind_wf h s kind (current_attempt (stopping_worker departure))"
| "shutdown_wf h s (ShutdownStarting kind (WaitingForStartup progress worker shutdown stopped)) \<longleftrightarrow>
     current_wf h s worker \<and> kind_wf h s kind (current_attempt worker) \<and> stops_attempt (current_attempt worker) stopped"
| "shutdown_wf h s (WaitingForPredecessor replaces shutdown retirement) \<longleftrightarrow> shutdown = attempt_shutdown replaces"

fun state_wf :: "heap \<Rightarrow> creation_sequence \<Rightarrow> ('w, 'p, 'd, 'j, 'err, 'ini, 'a, 'r) proxy_state \<Rightarrow> bool" where
  "state_wf h s (ProxyStarting start) \<longleftrightarrow> start_wf h s (start_kind start) (start_phase start)"
| "state_wf h s (ProxyReady worker) \<longleftrightarrow> current_wf h s worker"
| "state_wf h s (ProxyEmptyAfter previous) \<longleftrightarrow> attempt_wf h s previous"
| "state_wf h s (ProxyReplacing replacement) \<longleftrightarrow> replacement_wf h s replacement"
| "state_wf h s (ProxyShuttingDown shutdown) \<longleftrightarrow> shutdown_wf h s shutdown"
| "state_wf h s state \<longleftrightarrow> True"

fun proxy_wf :: "heap \<times> ('w, 'p, 'd, 'j, 'err, 'ini, 'a, 'r) stable_proxy \<Rightarrow> bool" where
  "proxy_wf (h, p) \<longleftrightarrow> state_wf h (proxy_creations p) (proxy_state p)"

fun keeps_wf :: "heap \<times> ('w, 'p, 'd, 'j, 'err, 'ini, 'a, 'r) stable_proxy
         \<times> ('w, 'p, 'd, 'j, 'err, 'ini, 'a, 'r, 'n, 'm) proxy_actions
    \<Rightarrow> ('w, 'p, 'd, 'j, 'err, 'ini, 'a, 'r, 'n, 'm) proxy_event \<Rightarrow> bool" where
  "keeps_wf (h', p', a) e \<longleftrightarrow> state_wf h' (proxy_creations p') (proxy_state p')"

lemma worker_created_current:
  "worker_created w ws st = CreationInitializing c startup st' \<Longrightarrow> st' = st
     \<and> current_attempt c = pending_attempt w \<and> current_initialization c = pending_initialization w"
  "worker_created w ws st = CreationNotCommitted rejection startup st' \<Longrightarrow> st' = st"
  by (auto simp: worker_created_def created_one_def admit_creation_def Let_def
      split: creation_settlement.splits sum.splits if_splits worker_creation_outcome.splits prod.splits)

lemma current_wf_created:
  "pending_wf h s w \<Longrightarrow> current_attempt c = pending_attempt w \<Longrightarrow> current_initialization c = pending_initialization w
     \<Longrightarrow> current_wf h s c"
  by (simp add: pending_wf_def current_wf_def)

lemmas wf_stopping = stopping_wf_def stopping_stops_def stopping_resolves_def stops_attempt_def attempt_shutdown_def

lemma wf_worker_stopped: "state_wf h (proxy_creations p) (proxy_state p) \<Longrightarrow> keeps_wf (h, worker_stopped p stopped) (EventWorkerStopped stopped)"
    by (auto simp: proxy_stop_defs proxy_result_defs law_simps stopping_iffs wf_stopping current_wf_def pending_creation_def split: proxy_splits)

lemma wf_resolved: "state_wf h (proxy_creations p) (proxy_state p) \<Longrightarrow> keeps_wf (h, worker_shutdown_resolved p sh) (EventWorkerShutdown sh)"
    by (auto simp: proxy_resolved_defs proxy_result_defs law_simps stopping_iffs wf_stopping current_wf_def split: proxy_splits)

lemma wf_startup: "state_wf h (proxy_creations p) (proxy_state p) \<Longrightarrow> keeps_wf (h, settle_worker_startup p sh) (EventWorkerStartup sh)"
    by (auto simp: proxy_startup_defs proxy_result_defs law_simps stopping_begin_simps wf_stopping current_wf_def progress_wf_def split: proxy_splits)

lemma wf_created: "state_wf h (proxy_creations p) (proxy_state p) \<Longrightarrow> keeps_wf (h, workers_created p sh) (EventWorkersCreated sh)"
    by (auto simp: proxy_created_defs proxy_result_defs law_simps stopping_begin_simps wf_stopping split: proxy_splits dest!: worker_created_current intro: current_wf_created)

lemma issued_by_issue:
  assumes "creation_issue s = (s', r)"
  shows "r = Some i \<Longrightarrow> issued_by s' i"
    and "issued_by s j \<Longrightarrow> issued_by s' j"
    and "r = Some i \<Longrightarrow> issued_by s j \<Longrightarrow> creation_id_get j < creation_id_get i"
  using assms by (auto simp: creation_issue_def issued_by_def split: option.splits
      intro: order.strict_trans [OF _ checked_succ_less] checked_succ_less)

lemma current_wf_attempt: "current_wf h s w \<Longrightarrow> attempt_wf h s (current_attempt w)"
  by (simp add: current_wf_def)

lemma wf_Suc:
  "attempt_wf h s a \<Longrightarrow> attempt_wf (Suc h) s a"
  "current_wf h s w \<Longrightarrow> current_wf (Suc h) s w"
  "kind_wf h s k a \<Longrightarrow> kind_wf (Suc h) s k a"
  by (cases k; simp add: current_wf_def attempt_wf_def initialization_wf_def)+

lemma wf_service: "state_wf h (proxy_creations p) (proxy_state p) \<Longrightarrow> keeps_wf (h, service p u) (EventService u)"
  by (auto simp: service_def law_simps split: proxy_splits)

lemma wf_initialized: "state_wf h (proxy_creations p) (proxy_state p) \<Longrightarrow> keeps_wf (worker_initialized h p sh) (EventWorkerInitialization sh)"
    by (auto simp: proxy_initialized_defs proxy_result_defs law_simps stopping_iffs stopping_begin_simps wf_stopping progress_wf_def
      wf_Suc current_wf_attempt split: proxy_splits)

text \<open>What is issued is fresh.\<close>

definition grows :: "heap \<Rightarrow> creation_sequence \<Rightarrow> heap \<Rightarrow> creation_sequence \<Rightarrow> bool" where
  "grows h s h' s' \<longleftrightarrow> h \<le> h' \<and> (\<forall>j. issued_by s j \<longrightarrow> issued_by s' j)"

definition fresh_worker :: "heap \<Rightarrow> creation_sequence \<Rightarrow> heap \<Rightarrow> creation_sequence \<Rightarrow> 'p pending_worker \<Rightarrow> 'w hosted create_child \<Rightarrow> bool" where
  "fresh_worker h s h' s' pending creation \<longleftrightarrow> grows h s h' s' \<and> pending_wf h' s' pending
     \<and> create_id creation = pending_creation pending \<and> create_kind creation = pending_kind pending
     \<and> (\<forall>a. attempt_wf h s a \<longrightarrow> precedes a (pending_attempt pending))"

lemma await_creation_fresh:
  assumes "creation_issue s = (s', Some i)" and "await_creation h startup request = (h', pending, creation)" and "create_id request = i"
  shows "fresh_worker h s h' s' pending creation \<and> pending_kind pending = create_kind request"
  using assms
  by (auto simp: fresh_worker_def grows_def await_creation_def attempt_issued_def initialization_issued_def arc_new_def
      pending_wf_def pending_creation_def attempt_wf_def initialization_wf_def precedes_def issued_by_issue [OF assms(1)])

lemma pending_birth_fresh:
  "pending_birth h s w startup = (h', s', Inr (pending, creation)) \<Longrightarrow>
     fresh_worker h s h' s' pending creation \<and> pending_kind pending = Birth"
  "pending_birth h s w startup = (h', s', Inl x) \<Longrightarrow> grows h s h' s'"
  by (auto simp: pending_birth_def create_birth_def create_from_parts_def grows_def issued_by_issue fresh_worker_def
      split: prod.splits option.splits dest: await_creation_fresh)

lemma pending_replacement_fresh:
  "pending_replacement h s q w startup = (h', s', Inr (pending, creation)) \<Longrightarrow>
     fresh_worker h s h' s' pending creation \<and> pending_kind pending = Replacement q"
  "pending_replacement h s q w startup = (h', s', Inl x) \<Longrightarrow> grows h s h' s'"
  by (auto simp: pending_replacement_def create_replacement_def create_from_parts_def grows_def issued_by_issue fresh_worker_def
      split: prod.splits option.splits dest: await_creation_fresh)

lemma wf_grows:
  assumes "grows h s h' s'"
  shows "attempt_wf h s a \<Longrightarrow> attempt_wf h' s' a"
    and "current_wf h s w \<Longrightarrow> current_wf h' s' w"
  using assms by (auto simp: grows_def attempt_wf_def current_wf_def initialization_wf_def)

lemma wf_start_initial: "state_wf h (proxy_creations p) (proxy_state p) \<Longrightarrow> keeps_wf (start_initial h p w startup) (EventOwner c)"
  by (auto simp: start_initial_def begin_initial_def law_simps fresh_worker_def split: proxy_splits dest!: pending_birth_fresh)

lemma wf_replace: "state_wf h (proxy_creations p) (proxy_state p) \<Longrightarrow> keeps_wf (replace_worker h p w startup) (EventOwner c)"
  by (auto simp: replace_worker_def law_simps fresh_worker_def stopping_begin_simps wf_stopping wf_grows current_wf_attempt
     split: proxy_splits dest!: pending_replacement_fresh)

lemma wf_owner_shutdown: "state_wf h (proxy_creations p) (proxy_state p) \<Longrightarrow> keeps_wf (h, owner_shutdown p) (EventOwner c)"
  by (auto simp: owner_shutdown_def shutdown_start_def begin_startup_shutdown_def shutdown_replacement_def pending_cancel_def
        proxy_result_defs law_simps stopping_begin_simps wf_stopping split: proxy_splits)

lemma wf_owner: "state_wf h (proxy_creations p) (proxy_state p) \<Longrightarrow> keeps_wf (proxy_owner h p c) (EventOwner c)"
  by (cases c) (auto simp: proxy_owner_def intro: wf_start_initial wf_replace wf_owner_shutdown)

lemma proxy_keeps_wf:
  assumes "proxy_wf (h, p)"
  shows "keeps_wf (proxy_accept h p e) e"
  by (rule proxy_step_cases [where Q = keeps_wf])
    (use assms in \<open>simp_all only: proxy_wf.simps wf_service wf_owner wf_created wf_initialized wf_startup wf_resolved
       wf_worker_stopped\<close>)

lemma proxy_step_accept: "proxy_step s e = (t, a) \<longleftrightarrow> proxy_accept (fst s) (snd s) e = (fst t, snd t, a)"
  by (auto simp: proxy_step_def split: prod.splits)

lemma proxy_step_keeps_wf: "proxy_wf s \<Longrightarrow> proxy_wf (fst (proxy_step s e))"
proof -
  assume "proxy_wf s"
  then have "keeps_wf (proxy_accept (fst s) (snd s) e) e" by (intro proxy_keeps_wf) simp
  then show ?thesis by (cases "proxy_accept (fst s) (snd s) e") (simp add: proxy_step_def)
qed

interpretation proxy: fold_invariant proxy_step proxy_wf
  by unfold_locales (rule proxy_step_keeps_wf)

lemma dormant_wf: "proxy_wf (h, dormant_proxy)"
  by (simp add: dormant_proxy_def)

text \<open>
  C14: from its birth on, whatever events a stable proxy receives, its state is well-formed: every
  attempt it keeps carries a creation identity its own sequence issued and tokens that were
  allocated; an initialization belongs to the attempt it is kept with; a stop it keeps is the stop
  of that worker; a departing worker still waits for its stop or for the result of the one
  shutdown that was requested of it, never for neither; a predecessor was issued before its
  successor and the creation of the successor names it.
\<close>

theorem proxy_stays_well_formed: "proxy_wf (run_state proxy_step (h, dormant_proxy) es)"
  by (rule proxy.run_inv [OF dormant_wf])

section \<open>Custody along runs\<close>

interpretation proxy_goods: conserving_fold proxy_step proxy_wf "\<lambda>s. mset (state_goods (proxy_state (snd s)))"
    "\<lambda>e. mset (event_goods e)" "\<lambda>a. mset (action_goods a)"
proof
  fix s :: "heap \<times> ('a, 'b, 'c, 'd, 'e, 'f, 'g, 'h) stable_proxy" and e :: "('a, 'b, 'c, 'd, 'e, 'f, 'g, 'h, 'i, 'j) proxy_event"
  have "conserves_goods (snd s) (proxy_accept (fst s) (snd s) e) e" by (rule proxy_conserves)
  then show "mset (state_goods (proxy_state (snd s))) + mset (event_goods e)
      = mset (state_goods (proxy_state (snd (fst (proxy_step s e))))) + mset (action_goods (snd (proxy_step s e)))"
    by (cases "proxy_accept (fst s) (snd s) e") (simp add: proxy_step_def)
qed

interpretation proxy_due: conserving_fold proxy_step proxy_wf "\<lambda>s. replicate_mset (state_due (proxy_state (snd s))) ()"
    "\<lambda>e. replicate_mset (event_submits e) ()" "\<lambda>a. replicate_mset (action_answers a) ()"
proof
  fix s :: "heap \<times> ('a, 'b, 'c, 'd, 'e, 'f, 'g, 'h) stable_proxy" and e :: "('a, 'b, 'c, 'd, 'e, 'f, 'g, 'h, 'i, 'j) proxy_event"
  have "answers_once (snd s) (proxy_accept (fst s) (snd s) e) e" by (rule proxy_answers)
  then show "replicate_mset (state_due (proxy_state (snd s))) () + replicate_mset (event_submits e) ()
      = replicate_mset (state_due (proxy_state (snd (fst (proxy_step s e))))) () + replicate_mset (action_answers (snd (proxy_step s e))) ()"
    by (cases "proxy_accept (fst s) (snd s) e") (simp add: proxy_step_def multiset_eq_iff)
qed

text \<open>
  C7: whatever a stable proxy receives from its birth on, every worker and every startup plan that
  an owner submitted or that a report brought back is exactly once accounted for: it is in the
  proxy's state, or it was handed on exactly once, in a creation, an initialization or a startup
  request, an owner outcome or a diagnostic. Every start or replacement command has exactly one
  outcome, except the one the proxy is still working on or retained when it stopped.
\<close>

theorem proxy_keeps_submissions:
  fixes h :: heap and es :: "('w, 'p, 'd, 'j, 'err, 'ini, 'a, 'r, 'n, 'm) proxy_event list"
  defines "final \<equiv> proxy_state (snd (run_state proxy_step (h, dormant_proxy) es))"
    and "outs \<equiv> run_outputs proxy_step (h, dormant_proxy) es"
  shows "(\<Sum>e\<leftarrow>es. mset (event_goods e)) = mset (state_goods final) + (\<Sum>a\<leftarrow>outs. mset (action_goods a))
    \<and> (\<Sum>e\<leftarrow>es. event_submits e) = state_due final + (\<Sum>a\<leftarrow>outs. action_answers a)"
proof
  show "(\<Sum>e\<leftarrow>es. mset (event_goods e)) = mset (state_goods final) + (\<Sum>a\<leftarrow>outs. mset (action_goods a))"
    using proxy_goods.run_conserves [OF dormant_wf, of h es] by (simp add: final_def outs_def dormant_proxy_def)
  have size: "size (\<Sum>x\<leftarrow>xs. replicate_mset (f x) ()) = (\<Sum>x\<leftarrow>xs. f x)" for f :: "'z \<Rightarrow> nat" and xs
    by (induction xs) simp_all
  from arg_cong [OF proxy_due.run_conserves [OF dormant_wf, of h es], of size]
  show "(\<Sum>e\<leftarrow>es. event_submits e) = state_due final + (\<Sum>a\<leftarrow>outs. action_answers a)"
    by (simp add: final_def outs_def size) (simp add: dormant_proxy_def)
qed

section \<open>One worker at a time\<close>

fun reserved :: "('w, 'p, 'd, 'j, 'err, 'ini, 'a, 'r) proxy_state \<Rightarrow> creation_id list" where
  "reserved (ProxyReplacing (ReplacementReturningPredecessor departure successor creation)) = [create_id creation]"
| "reserved state = []"

text \<open>A step issues one fresh identity or none; what it creates was reserved or is what it issues.\<close>

fun issues_fresh :: "('w, 'p, 'd, 'j, 'err, 'ini, 'a, 'r) stable_proxy
    \<Rightarrow> heap \<times> ('w, 'p, 'd, 'j, 'err, 'ini, 'a, 'r) stable_proxy
         \<times> ('w, 'p, 'd, 'j, 'err, 'ini, 'a, 'r, 'n, 'm) proxy_actions
    \<Rightarrow> ('w, 'p, 'd, 'j, 'err, 'ini, 'a, 'r, 'n, 'm) proxy_event \<Rightarrow> bool" where
  "issues_fresh p (h', p', a) e \<longleftrightarrow> (let now = created_workers a @ reserved (proxy_state p') in
     proxy_creations p' = proxy_creations p \<and> now \<in> {[], reserved (proxy_state p)}
     \<or> (\<exists>i. creation_issue (proxy_creations p) = (proxy_creations p', i) \<and> reserved (proxy_state p) = [] \<and> now = (case i of Some i \<Rightarrow> [i] | None \<Rightarrow> [])))"

lemma proxy_issues_fresh: "issues_fresh p (proxy_accept h p e) e"
proof (rule proxy_step_cases)
  show "issues_fresh p (h, service p user) (EventService user)" for user
    by (simp add: service_def law_simps created_workers_def split: proxy_splits)
  show "issues_fresh p (proxy_owner h p control) (EventOwner control)" for control
    by (auto simp: proxy_owner_defs proxy_result_defs law_simps created_workers_def
        pending_defs pending_creation_def split: proxy_splits proxy_command.splits)
  show "issues_fresh p (h, workers_created p workers) (EventWorkersCreated workers)" for workers
    by (auto simp: proxy_created_defs proxy_result_defs law_simps created_workers_def split: proxy_splits)
  show "issues_fresh p (worker_initialized h p report) (EventWorkerInitialization report)" for report
    by (auto simp: proxy_initialized_defs proxy_result_defs law_simps created_workers_def split: proxy_splits)
  show "issues_fresh p (h, settle_worker_startup p startup) (EventWorkerStartup startup)" for startup
    by (auto simp: proxy_startup_defs proxy_result_defs law_simps created_workers_def split: proxy_splits)
  show "issues_fresh p (h, worker_shutdown_resolved p shutdown) (EventWorkerShutdown shutdown)" for shutdown
    by (auto simp: proxy_resolved_defs proxy_result_defs law_simps created_workers_def split: proxy_splits)
  show "issues_fresh p (h, worker_stopped p stopped) (EventWorkerStopped stopped)" for stopped
    by (auto simp: proxy_stop_defs proxy_result_defs law_simps created_workers_def split: proxy_splits)
qed

text \<open>
  The workers that a history of events and actions leaves: those that were created and that no
  event reported gone since.
\<close>

definition outstanding :: "(('w, 'p, 'd, 'j, 'err, 'ini, 'a, 'r, 'n, 'm) proxy_event
    \<times> ('w, 'p, 'd, 'j, 'err, 'ini, 'a, 'r, 'n, 'm) proxy_actions) list \<Rightarrow> creation_id set" where
  "outstanding history =
     foldl (\<lambda>live (e, a). (live - set (event_gone e)) \<union> set (created_workers a)) {} history"

definition history_created :: "(('w, 'p, 'd, 'j, 'err, 'ini, 'a, 'r, 'n, 'm) proxy_event
    \<times> ('w, 'p, 'd, 'j, 'err, 'ini, 'a, 'r, 'n, 'm) proxy_actions) list \<Rightarrow> creation_id list" where
  "history_created history = concat (map (created_workers \<circ> snd) history)"

lemma outstanding_snoc:
  "outstanding (history @ [(e, a)]) = (outstanding history - set (event_gone e)) \<union> set (created_workers a)"
  by (simp add: outstanding_def)

definition worker_traced :: "(('w, 'p, 'd, 'j, 'err, 'ini, 'a, 'r, 'n, 'm) proxy_event
    \<times> ('w, 'p, 'd, 'j, 'err, 'ini, 'a, 'r, 'n, 'm) proxy_actions) list
    \<Rightarrow> heap \<times> ('w, 'p, 'd, 'j, 'err, 'ini, 'a, 'r) stable_proxy \<Rightarrow> bool" where
  "worker_traced history s \<longleftrightarrow> proxy_wf s
     \<and> outstanding history \<subseteq> set (state_worker (proxy_state (snd s)))
     \<and> (\<forall>before e a after. history = before @ (e, a) # after \<and> created_workers a \<noteq> [] \<longrightarrow>
          outstanding before \<subseteq> set (event_gone e))
     \<and> distinct (history_created history @ reserved (proxy_state (snd s)))
     \<and> (\<forall>i \<in> set (history_created history @ reserved (proxy_state (snd s))). issued_by (proxy_creations (snd s)) i)"

lemma state_wf_successor: "state_wf h c state \<Longrightarrow> successor_issued state"
  by (cases state rule: successor_issued.cases) auto

lemma unless_stopped_single: "length (unless_stopped stopped i) \<le> 1"
  by (cases stopped) simp_all

lemma phase_worker_single: "length (phase_worker phase) \<le> 1"
  by (cases phase) (use unless_stopped_single in \<open>simp_all add: departing_worker_def\<close>)

lemma shutdown_worker_single: "length (shutdown_worker shutdown) \<le> 1"
  by (cases shutdown rule: shutdown_worker.cases)
    (use unless_stopped_single phase_worker_single in \<open>simp_all add: departing_worker_def\<close>)

lemma state_worker_single: "length (state_worker state) \<le> 1"
  by (cases state rule: state_worker.cases)
    (use unless_stopped_single phase_worker_single shutdown_worker_single in \<open>simp_all add: departing_worker_def\<close>)

lemma fresh_history:
  assumes "issues_fresh p (h', p', a) e"
    and "distinct (xs @ reserved (proxy_state p))"
    and "\<forall>i \<in> set (xs @ reserved (proxy_state p)). issued_by (proxy_creations p) i"
  shows "distinct (xs @ created_workers a @ reserved (proxy_state p'))
    \<and> (\<forall>i \<in> set (xs @ created_workers a @ reserved (proxy_state p')). issued_by (proxy_creations p') i)"
proof -
  define now where "now = created_workers a @ reserved (proxy_state p')"
  from assms(1) consider (kept) "proxy_creations p' = proxy_creations p" "now \<in> {[], reserved (proxy_state p)}"
    | (issued) i where "creation_issue (proxy_creations p) = (proxy_creations p', i)" "reserved (proxy_state p) = []"
        "now = (case i of Some i \<Rightarrow> [i] | None \<Rightarrow> [])"
    by (auto simp: Let_def now_def)
  then have "distinct (xs @ now) \<and> (\<forall>i \<in> set (xs @ now). issued_by (proxy_creations p') i)"
  proof cases
    case kept
    with assms(2, 3) show ?thesis by auto
  next
    case issued
    note mono = issued_by_issue [OF issued(1)]
    have "i = Some j \<Longrightarrow> j \<notin> set xs" for j
      using assms(3) issued mono(3) [of j j] by auto
    with issued assms(2, 3) mono show ?thesis by (cases i) auto
  qed
  then show ?thesis by (simp add: now_def)
qed

lemma worker_traced_step:
  assumes "worker_traced history s"
  shows "worker_traced (history @ [(e, snd (proxy_step s e))]) (fst (proxy_step s e))"
proof -
  obtain h p where s: "s = (h, p)" by force
  obtain h' p' a where acc: "proxy_accept h p e = (h', p', a)" by (metis prod_cases3)
  then have step: "proxy_step s e = ((h', p'), a)" by (simp add: s proxy_step_def)
  from assms have wf: "proxy_wf (h, p)" and out: "outstanding history \<subseteq> set (state_worker (proxy_state p))"
    and sole: "\<And>before e a after. history = before @ (e, a) # after \<Longrightarrow> created_workers a \<noteq> [] \<Longrightarrow>
          outstanding before \<subseteq> set (event_gone e)"
    and fresh: "distinct (history_created history @ reserved (proxy_state p))"
      "\<forall>i \<in> set (history_created history @ reserved (proxy_state p)). issued_by (proxy_creations p) i"
    by (auto simp: worker_traced_def s)
  from wf have "successor_issued (proxy_state p)" by (simp add: state_wf_successor)
  from proxy_replaces [OF this, of h e] have replaces: "replaces_worker p (h', p', a) e" by (simp only: acc)
  have "proxy_wf (h', p')" using proxy_step_keeps_wf [OF wf, of e] by (simp add: step [unfolded s])
  moreover have "outstanding (history @ [(e, a)]) \<subseteq> set (state_worker (proxy_state p'))"
    using replaces out by (auto simp: outstanding_snoc split: if_splits)
  moreover have "outstanding before \<subseteq> set (event_gone f)"
    if "history @ [(e, a)] = before @ (f, b) # after" and "created_workers b \<noteq> []" for before f b after
  proof (cases after rule: rev_cases)
    case Nil
    with that replaces out show ?thesis by (auto split: if_splits)
  next
    case (snoc init l)
    with that have "history = before @ (f, b) # init" by simp
    from sole [OF this that(2)] show ?thesis .
  qed
  moreover have "distinct (history_created (history @ [(e, a)]) @ reserved (proxy_state p'))
    \<and> (\<forall>i \<in> set (history_created (history @ [(e, a)]) @ reserved (proxy_state p')). issued_by (proxy_creations p') i)"
    using fresh_history [OF _ fresh, of h' p' a e] proxy_issues_fresh [of p h e]
    by (simp add: acc history_created_def)
  ultimately show ?thesis by (simp add: worker_traced_def step)
qed

interpretation proxy_workers: traced_fold proxy_step worker_traced "\<lambda>e a. [(e, a)]"
  by unfold_locales (rule worker_traced_step)

text \<open>
  C2: a stable proxy has one worker at a time. Along any run from its birth, the creations it
  emits have pairwise distinct identities; when it emits one, every worker it created before has
  been reported gone (stopped, or not created), at the latest by the event it reacts to; and at no
  time is more than one of the workers it created not reported gone.
\<close>

theorem proxy_has_one_worker:
  fixes h :: heap and es :: "('w, 'p, 'd, 'j, 'err, 'ini, 'a, 'r, 'n, 'm) proxy_event list"
  defines "history \<equiv> zip es (run_outputs proxy_step (h, dormant_proxy) es)"
  shows "distinct (history_created history)
    \<and> (history = before @ (e, a) # after \<longrightarrow> creates a \<noteq> [] \<longrightarrow> outstanding before \<subseteq> set (event_gone e))
    \<and> card (outstanding history) \<le> 1"
proof (intro conjI)
  have start: "worker_traced [] (h, dormant_proxy :: ('w, 'p, 'd, 'j, 'err, 'ini, 'a, 'r) stable_proxy)"
    by (simp add: worker_traced_def outstanding_def history_created_def) (simp add: dormant_proxy_def)
  from proxy_workers.run_trace [OF this, where es = es] have traced: "worker_traced history (run_state proxy_step (h, dormant_proxy) es)"
    by (simp add: history_def concat_pairs)
  then show "distinct (history_created history)"
    and "history = before @ (e, a) # after \<longrightarrow> creates a \<noteq> [] \<longrightarrow> outstanding before \<subseteq> set (event_gone e)"
    by (auto simp: worker_traced_def created_workers_def)
  let ?state = "proxy_state (snd (run_state proxy_step (h, dormant_proxy) es))"
  from traced have "card (outstanding history) \<le> card (set (state_worker ?state))"
    by (intro card_mono) (auto simp: worker_traced_def)
  also have "\<dots> \<le> 1" using card_length [of "state_worker ?state"] state_worker_single [of ?state] by linarith
  finally show "card (outstanding history) \<le> 1" .
qed

text \<open>A worker that stops while it initializes, and its replacement.\<close>

type_synonym sample_event = "(nat, nat, nat, nat, nat, nat, nat, nat, nat, nat) proxy_event"

definition sample_attempt :: worker_attempt where
  "sample_attempt = \<lparr>attempt_creation = CreationId 1, attempt_token = 0\<rparr>"

definition sample_submission :: "nat \<Rightarrow> (nat, nat) worker_submission" where
  "sample_submission n = \<lparr>submitted_worker = n, submitted_startup = n + 10\<rparr>"

definition sample_stop :: "u64 \<Rightarrow> nat child_stopped" where
  "sample_stop i = \<lparr>stopped_child = CreationId i, stopped_outcome = Inr ExitNormal, stopped_at = 0\<rparr>"

definition sample_created :: "u64 \<Rightarrow> creation_kind \<Rightarrow> nat \<Rightarrow> (nat, nat, nat, nat, nat) workers_settled" where
  "sample_created i k r = CreationsSettled [Attempted (ItemAccepted (ChildEstablished
     \<lparr>committed_id = CreationId i, committed_kind = k, committed_actor = EstablishedActor r\<rparr>))]"

definition sample_events :: "sample_event list" where
  "sample_events = [EventOwner (ProxyStart (sample_submission 1)), EventWorkersCreated (sample_created 1 Birth 7),
     EventWorkerInitialization (StoppedReport sample_attempt
       \<lparr>initialized_worker = sample_attempt, initialization_token = 1\<rparr> 11 (sample_stop 1)),
     EventOwner (ProxyReplace (sample_submission 2))]"

lemmas sample_defs = sample_attempt_def sample_submission_def sample_stop_def sample_created_def dormant_proxy_def

lemmas proxy_run_defs = proxy_step_def proxy_accept_def proxy_owner_defs proxy_created_defs proxy_initialized_defs
  proxy_startup_defs proxy_stop_defs proxy_resolved_defs proxy_result_defs law_simps pending_defs pending_creation_def
  creation_issue_def creation_sequence_new_def checked_add_def
  worker_created_def created_one_def admit_creation_def admit_initialization_def current_admit_stop_def creations_into_one_def stopping_begin_simps

lemma sample_creates: "map (map create_id \<circ> creates) (run_outputs proxy_step (0, dormant_proxy) sample_events)
    = [[CreationId 1], [], [], [CreationId 2]]"
  by (simp add: sample_events_def sample_defs proxy_run_defs)

theorem proxy_has_one_worker_witness:
  "let history = zip sample_events (run_outputs proxy_step (0, dormant_proxy) sample_events) in
     distinct (history_created history) \<and> creates (snd (history ! 3)) \<noteq> []
     \<and> outstanding (take 3 history) \<subseteq> set (event_gone (fst (history ! 3))) \<and> card (outstanding history) \<le> 1"
proof -
  let ?outs = "run_outputs proxy_step (0, dormant_proxy) sample_events"
  let ?history = "zip sample_events ?outs"
  have n: "3 < length ?history" "drop (Suc 3) ?history = []" by (simp_all add: sample_events_def)
  from arg_cong [OF sample_creates, of "\<lambda>xs. xs ! 3"] n have c: "creates (snd (?history ! 3)) \<noteq> []"
    by (auto simp: nth_map)
  have "?history = take 3 ?history @ (fst (?history ! 3), snd (?history ! 3)) # []"
    using id_take_nth_drop [OF n(1)] n(2) by simp
  with c show ?thesis
    unfolding Let_def using proxy_has_one_worker [where h = 0 and es = sample_events] by blast
qed


end
