(* ===== verification/Proxy_Shutdown.thy ===== *)
theory Proxy_Shutdown
  imports Proxy_Invariant
begin

text \<open>
  Shutdown of a stable proxy. A proxy that shuts down waits for reports; each report it waits for
  brings it nearer to its stop, every other event leaves it as it is, and it stops exactly when it
  waits for nothing more. The last section shows an order of lawful reports in which the result a
  predecessor owes arrives while its successor's start is being shut down, is returned as
  unexpected, and is then waited for.
\<close>

section \<open>What a proxy that shuts down waits for\<close>

type_synonym ('w, 'p, 'd, 'j, 'err, 'ini, 'a, 'r, 'n, 'm) proxy_awaits =
  "('w, 'p, 'd, 'j, 'err, 'ini, 'a, 'r, 'n, 'm) proxy_event \<Rightarrow> bool"

fun departure_awaits :: "('a, 'r) worker_stopping \<Rightarrow> ('w, 'p, 'd, 'j, 'err, 'ini, 'a, 'r, 'n, 'm) proxy_awaits" where
  "departure_awaits d (EventWorkerShutdown shutdown) \<longleftrightarrow> stopping_resolves d shutdown"
| "departure_awaits d (EventWorkerStopped stopped) \<longleftrightarrow> stopping_stops d stopped"
| "departure_awaits d e \<longleftrightarrow> False"

fun report_stop :: "('r, 'p, 'a) worker_initialization_report \<Rightarrow> 'a child_stopped option" where
  "report_stop (StoppedReport worker initialization startup stopped) = Some stopped"
| "report_stop report = None"

definition report_fits :: "'r current_worker \<Rightarrow> ('r, 'p, 'a) worker_initialization_report \<Rightarrow> bool" where
  "report_fits worker report \<longleftrightarrow> report_worker report = current_attempt worker
     \<and> report_initialization report = current_initialization worker
     \<and> pred_option (stops_attempt (current_attempt worker)) (report_stop report)"

definition initialization_awaits :: "'r current_worker \<Rightarrow> ('w, 'p, 'd, 'j, 'err, 'ini, 'a, 'r, 'n, 'm) proxy_awaits" where
  "initialization_awaits worker e \<longleftrightarrow> (case e of EventWorkerInitialization report \<Rightarrow> report_fits worker report | _ \<Rightarrow> False)"

fun startup_fits :: "startup_progress \<Rightarrow> ('r, 'p, 'd, 'j) worker_startup \<Rightarrow> bool" where
  "startup_fits (WaitingForStart grant) input \<longleftrightarrow> startup_attempt input = grant
     \<and> (case startup_outcome input of Started \<Rightarrow> True | StartRejected request reason \<Rightarrow> True | _ \<Rightarrow> False)"
| "startup_fits (StartRunning grant) input \<longleftrightarrow> startup_attempt input = grant
     \<and> (case startup_outcome input of StartupReady readiness \<Rightarrow> True | StartupRejected rejection \<Rightarrow> True | _ \<Rightarrow> False)"

definition startup_awaits :: "startup_progress \<Rightarrow> ('w, 'p, 'd, 'j, 'err, 'ini, 'a, 'r, 'n, 'm) proxy_awaits" where
  "startup_awaits progress e \<longleftrightarrow> (case e of EventWorkerStartup input \<Rightarrow> startup_fits progress input | _ \<Rightarrow> False)"

definition creation_awaits :: "'p pending_worker \<Rightarrow> ('w, 'p, 'd, 'j, 'err, 'ini, 'a, 'r, 'n, 'm) proxy_awaits" where
  "creation_awaits worker e \<longleftrightarrow> (case e of EventWorkersCreated workers \<Rightarrow> creation_admitted worker workers | _ \<Rightarrow> False)"

definition resolution_awaits :: "shutdown_id \<Rightarrow> ('w, 'p, 'd, 'j, 'err, 'ini, 'a, 'r, 'n, 'm) proxy_awaits" where
  "resolution_awaits i e \<longleftrightarrow> (case e of EventWorkerShutdown resolution \<Rightarrow> resolved_id resolution = i | _ \<Rightarrow> False)"

fun shutdown_awaits :: "('w, 'p, 'd, 'j, 'err, 'ini, 'a, 'r) proxy_shutdown
    \<Rightarrow> ('w, 'p, 'd, 'j, 'err, 'ini, 'a, 'r, 'n, 'm) proxy_awaits" where
  "shutdown_awaits (WaitingForCreation start) e \<longleftrightarrow>
     (case start_phase start of StartCreating worker stopped \<Rightarrow> creation_awaits worker e | _ \<Rightarrow> False)"
| "shutdown_awaits (ReturningWorker departure) e \<longleftrightarrow> departure_awaits departure e"
| "shutdown_awaits (ReturningWorkerStart kind departure failure) e \<longleftrightarrow> departure_awaits departure e"
| "shutdown_awaits (ShutdownReturningPredecessor departure replaces successor) e \<longleftrightarrow> departure_awaits departure e"
| "shutdown_awaits (ReturningSuccessor replaces predecessor departure result) e \<longleftrightarrow> departure_awaits departure e
     \<or> (case predecessor of ReturnAwaiting i \<Rightarrow> resolution_awaits i e | ReturnReturned resolution \<Rightarrow> False)"
| "shutdown_awaits (ShutdownInitializing kind (InitializationDeparting initialization departure)) e \<longleftrightarrow>
     departure_awaits departure e \<or> (initialization = None \<and> initialization_awaits (stopping_worker departure) e)"
| "shutdown_awaits (ShutdownInitializing kind (WaitingForInitialization worker shutdown stopped)) e \<longleftrightarrow>
     initialization_awaits worker e"
| "shutdown_awaits (ShutdownStarting kind (StartupDeparting startup departure)) e \<longleftrightarrow> departure_awaits departure e
     \<or> (case startup of StartupPending progress \<Rightarrow> startup_awaits progress e | StartupReturned retirement \<Rightarrow> False)"
| "shutdown_awaits (ShutdownStarting kind (WaitingForStartup progress worker shutdown stopped)) e \<longleftrightarrow> startup_awaits progress e"
| "shutdown_awaits (WaitingForPredecessor replaces shutdown retirement) e \<longleftrightarrow> resolution_awaits shutdown e"

text \<open>How many reports it may still take.\<close>

definition departure_remaining :: "('a, 'r) worker_stopping \<Rightarrow> nat" where
  "departure_remaining d = (case stopping_shutdown d of ShutdownRequestedAs i \<Rightarrow> 1 | ShutdownSettledBy r \<Rightarrow> 0)
     + (case stopping_stopped d of None \<Rightarrow> 1 | Some stopped \<Rightarrow> 0)"

fun progress_remaining :: "startup_progress \<Rightarrow> nat" where
  "progress_remaining (WaitingForStart grant) = 2"
| "progress_remaining (StartRunning grant) = 1"

fun kind_remaining :: "worker_start_kind \<Rightarrow> nat" where
  "kind_remaining (StartReplacement replaces (PredecessorAwaiting i)) = 1"
| "kind_remaining kind = 0"

fun shutdown_remaining :: "('w, 'p, 'd, 'j, 'err, 'ini, 'a, 'r) proxy_shutdown \<Rightarrow> nat" where
  "shutdown_remaining (WaitingForCreation start) = 4 + kind_remaining (start_kind start)"
| "shutdown_remaining (ReturningWorker departure) = departure_remaining departure"
| "shutdown_remaining (ReturningWorkerStart kind departure failure) = departure_remaining departure + kind_remaining kind"
| "shutdown_remaining (ShutdownReturningPredecessor departure replaces successor) = departure_remaining departure"
| "shutdown_remaining (ReturningSuccessor replaces predecessor departure result) = departure_remaining departure
     + (case predecessor of ReturnAwaiting i \<Rightarrow> 1 | ReturnReturned resolution \<Rightarrow> 0)"
| "shutdown_remaining (ShutdownInitializing kind (InitializationDeparting initialization departure)) =
     departure_remaining departure + (case initialization of None \<Rightarrow> 1 | Some retirement \<Rightarrow> 0) + kind_remaining kind"
| "shutdown_remaining (ShutdownInitializing kind (WaitingForInitialization worker shutdown stopped)) = 1 + kind_remaining kind"
| "shutdown_remaining (ShutdownStarting kind (StartupDeparting startup departure)) = departure_remaining departure
     + (case startup of StartupPending progress \<Rightarrow> progress_remaining progress | StartupReturned retirement \<Rightarrow> 0) + kind_remaining kind"
| "shutdown_remaining (ShutdownStarting kind (WaitingForStartup progress worker shutdown stopped)) =
     progress_remaining progress + kind_remaining kind"
| "shutdown_remaining (WaitingForPredecessor replaces shutdown retirement) = 1"

section \<open>Progress\<close>

fun nearer :: "nat \<Rightarrow> ('w, 'p, 'd, 'j, 'err, 'ini, 'a, 'r) proxy_state
    \<Rightarrow> ('w, 'p, 'd, 'j, 'err, 'ini, 'a, 'r, 'n, 'm) proxy_actions \<Rightarrow> bool" where
  "nearer n (ProxyShuttingDown shutdown) a \<longleftrightarrow> shutdown_remaining shutdown < n \<and> \<not> stops (become a)"
| "nearer n (ProxyStopped retirement) a \<longleftrightarrow> stops (become a) \<and> 0 < n"
| "nearer n state a \<longleftrightarrow> False"

fun shuts_down :: "('w, 'p, 'd, 'j, 'err, 'ini, 'a, 'r) stable_proxy \<Rightarrow> ('w, 'p, 'd, 'j, 'err, 'ini, 'a, 'r) proxy_shutdown
    \<Rightarrow> heap \<times> ('w, 'p, 'd, 'j, 'err, 'ini, 'a, 'r) stable_proxy
         \<times> ('w, 'p, 'd, 'j, 'err, 'ini, 'a, 'r, 'n, 'm) proxy_actions
    \<Rightarrow> ('w, 'p, 'd, 'j, 'err, 'ini, 'a, 'r, 'n, 'm) proxy_event \<Rightarrow> bool" where
  "shuts_down p shutdown (h', p', a) e \<longleftrightarrow>
     (if shutdown_awaits shutdown e then nearer (shutdown_remaining shutdown) (proxy_state p') a
      else proxy_state p' = proxy_state p \<and> proxy_creations p' = proxy_creations p)"

lemma action_become [simp]:
  "become (proxy_report x) = Continue" "become (proxy_diagnose g) = Continue" "become (create_worker i c) = Continue"
  "become (request_worker_shutdown r) = Continue" "become (report_pair x y) = Continue"
  "become (request_initialization z) = Continue" "become (initialize_and_shutdown z r) = Continue"
  "become (begin_startup w) = Continue" "become (cont proxy_sends) = Continue"
  "become (stop_actions proxy_sends) = Stop Stopped" "become (send_actions s) = Continue" "become (new_actions s cs b) = b"
  by (simp_all add: proxy_action_defs)

lemma departure_remaining_simps:
  "stopping_resolves d i \<Longrightarrow> departure_remaining d = Suc (departure_remaining (d\<lparr>stopping_shutdown := ShutdownSettledBy i\<rparr>))"
  "stopping_stops d s \<Longrightarrow> departure_remaining d = Suc (departure_remaining (d\<lparr>stopping_stopped := Some s\<rparr>))"
  by (simp_all add: departure_remaining_def stopping_resolves_def stopping_stops_def)

lemma departure_remaining_pos: "stopping_resolves d i \<Longrightarrow> 0 < departure_remaining d" "stopping_stops d s \<Longrightarrow> 0 < departure_remaining d"
  by (simp_all add: departure_remaining_def stopping_resolves_def stopping_stops_def)

lemma begin_remaining: "departure_remaining \<lparr>stopping_worker = w, stopping_shutdown = ShutdownRequestedAs i, stopping_stopped = None\<rparr> = 2"
  by (simp add: departure_remaining_def)

lemmas awaits_defs = creation_awaits_def initialization_awaits_def startup_awaits_def resolution_awaits_def

lemmas shutdown_law_simps = law_simps stopping_iffs start_eta awaits_defs departure_remaining_simps departure_remaining_pos

lemma shutdown_by_stop:
  assumes "proxy_state p = ProxyShuttingDown shutdown"
  shows "shuts_down p shutdown (h, worker_stopped p stopped) (EventWorkerStopped stopped)"
  using assms by (cases shutdown rule: shutdown_remaining.cases)
    (auto simp: proxy_stop_defs proxy_result_defs shutdown_law_simps split: proxy_splits)

lemma shutdown_by_resolution:
  assumes "proxy_state p = ProxyShuttingDown shutdown"
  shows "shuts_down p shutdown (h, worker_shutdown_resolved p resolution) (EventWorkerShutdown resolution)"
  using assms by (cases shutdown rule: shutdown_remaining.cases)
    (auto simp: proxy_resolved_defs proxy_result_defs shutdown_law_simps split: proxy_splits)

lemma shutdown_by_startup:
  assumes "proxy_state p = ProxyShuttingDown shutdown"
  shows "shuts_down p shutdown (h, settle_worker_startup p startup) (EventWorkerStartup startup)"
  using assms by (cases shutdown rule: shutdown_remaining.cases)
    (auto simp: proxy_startup_defs proxy_result_defs shutdown_law_simps split: proxy_splits worker_startup_outcome.splits)

lemma worker_created_admitted:
  "worker_created w ws st = CreationInitializing c startup st' \<Longrightarrow> creation_admitted w ws"
  "worker_created w ws st = CreationNotCommitted rejection startup st' \<Longrightarrow> creation_admitted w ws"
  using worker_created_Unexpected [of w ws st w st ws] by auto

lemma shutdown_by_creation:
  assumes "proxy_state p = ProxyShuttingDown shutdown"
  shows "shuts_down p shutdown (h, workers_created p workers) (EventWorkersCreated workers)"
  using assms by (cases shutdown rule: shutdown_remaining.cases)
    (auto simp: proxy_created_defs proxy_result_defs shutdown_law_simps stopping_begin_simps begin_remaining
      split: proxy_splits dest: worker_created_admitted)

lemma shutdown_by_initialization:
  fixes p :: "('w, 'p, 'd, 'j, 'err, 'ini, 'a, 'r) stable_proxy"
  assumes "proxy_state p = ProxyShuttingDown shutdown"
  shows "shuts_down p shutdown (worker_initialized h p report)
    (EventWorkerInitialization report :: ('w, 'p, 'd, 'j, 'err, 'ini, 'a, 'r, 'n, 'm) proxy_event)"
proof -
  note defs = worker_initialized_def shutdown_worker_initialized_def continue_initialization_shutdown_def
    admit_worker_initialized_during_shutdown_def retain_initialization_while_departing_def
    wait_for_initialization_departure_def classify_initialization_after_stop_def proxy_result_defs
  have other: ?thesis
    if "\<not> shutdown_awaits shutdown (EventWorkerInitialization report :: ('w, 'p, 'd, 'j, 'err, 'ini, 'a, 'r, 'n, 'm) proxy_event)"
      and "shutdown_worker_initialized (proxy_creations p) shutdown report = (unexpected_initialization (proxy_creations p)
        shutdown report :: _ \<times> ('w, 'p, 'd, 'j, 'err, 'ini, 'a, 'r, 'n, 'm) proxy_actions)"
    using that assms by (simp add: worker_initialized_def law_simps)
  show ?thesis
  proof (cases shutdown rule: shutdown_remaining.cases)
    case (6 kind initialization departure)
    show ?thesis
    proof (cases initialization)
      case None
      with 6 assms show ?thesis
        by (cases report; cases "stopping_stopped departure")
          (auto simp: defs retain_initialization_stop_def return_unrelated_initialization_stop_def law_simps awaits_defs
            report_fits_def stops_attempt_def stopping_iffs stopping_stops_def departure_remaining_def
            split: sum.splits control_flow.splits worker_start_kind.splits predecessor_shutdown.splits worker_shutdown.splits)
    next
      case (Some retirement)
      with 6 show ?thesis by (intro other) (simp_all add: awaits_defs defs)
    qed
  next
    case (7 kind worker result stopped)
    with assms show ?thesis
      by (cases report) (auto simp: defs law_simps awaits_defs report_fits_def stops_attempt_def
          split: sum.splits control_flow.splits worker_start_kind.splits predecessor_shutdown.splits)
  qed (rule other; simp add: shutdown_worker_initialized_def awaits_defs
         split: worker_start_phase.splits startup_during_departure.splits predecessor_return.splits)+
qed

lemma shutdown_by_others:
  assumes "proxy_state p = ProxyShuttingDown shutdown"
  shows "shuts_down p shutdown (h, service p user) (EventService user)"
    and "shuts_down p shutdown (proxy_owner h p control) (EventOwner control)"
  using assms by (cases shutdown rule: shutdown_remaining.cases;
      auto simp: service_def proxy_owner_defs shutdown_law_simps split: proxy_splits proxy_command.splits)+

lemma proxy_shuts_down:
  assumes "proxy_state p = ProxyShuttingDown shutdown"
  shows "shuts_down p shutdown (proxy_accept h p e) e"
  by (rule proxy_step_cases)
    (use assms in \<open>simp_all only: shutdown_by_stop shutdown_by_resolution shutdown_by_startup shutdown_by_creation
      shutdown_by_initialization shutdown_by_others\<close>)

text \<open>A well-formed proxy that shuts down waits for something.\<close>

lemma departure_awaits_something:
  assumes "stopping_wf h c d"
  obtains e :: "('w, 'p, 'd, 'j, 'err, 'ini, 'a, 'r, 'n, 'm) proxy_event" where "departure_awaits d e"
proof (cases "stopping_shutdown d")
  case (ShutdownRequestedAs i)
  then have "departure_awaits d (EventWorkerShutdown (ShutdownAccepted i) :: ('w, 'p, 'd, 'j, 'err, 'ini, 'a, 'r, 'n, 'm) proxy_event)"
    by (simp add: stopping_resolves_def)
  then show ?thesis by (rule that)
next
  case (ShutdownSettledBy r)
  with assms have "departure_awaits d (EventWorkerStopped \<lparr>stopped_child = attempt_creation (current_attempt (stopping_worker d)),
      stopped_outcome = Inr ExitNormal, stopped_at = 0\<rparr> :: ('w, 'p, 'd, 'j, 'err, 'ini, 'a, 'r, 'n, 'm) proxy_event)"
    by (simp add: stopping_stops_def stopping_wf_def)
  then show ?thesis by (rule that)
qed

lemma shutdown_awaits_something:
  fixes shutdown :: "('w, 'p, 'd, 'j, 'err, 'ini, 'a, 'r) proxy_shutdown"
  assumes "shutdown_wf h c shutdown"
  obtains e :: "('w, 'p, 'd, 'j, 'err, 'ini, 'a, 'r, 'n, 'm) proxy_event" where "shutdown_awaits shutdown e"
proof -
  note found = that
  have departing: ?thesis if wf: "stopping_wf h c d" and awaits: "\<And>e :: ('w, 'p, 'd, 'j, 'err, 'ini, 'a, 'r, 'n, 'm) proxy_event.
      departure_awaits d e \<Longrightarrow> shutdown_awaits shutdown e" for d
  proof -
    obtain e :: "('w, 'p, 'd, 'j, 'err, 'ini, 'a, 'r, 'n, 'm) proxy_event" where "departure_awaits d e"
      by (rule departure_awaits_something [OF wf])
    then show ?thesis by (intro found awaits)
  qed
  show ?thesis
  proof (cases shutdown rule: shutdown_remaining.cases)
    case (1 start)
    with assms obtain w stopped where w: "start_phase start = StartCreating w stopped" by auto
    have "shutdown_awaits shutdown (EventWorkersCreated (CreationsSettled
        [Attempted (ItemAccepted (ChildUnavailable (pending_creation w) (pending_kind w)))])
        :: ('w, 'p, 'd, 'j, 'err, 'ini, 'a, 'r, 'n, 'm) proxy_event)"
      by (simp add: 1 w creation_awaits_def creation_admitted_def)
    then show ?thesis by (rule that)
  next
    case (7 kind worker result stopped)
    then have "shutdown_awaits shutdown (EventWorkerInitialization (EffectsRejectedReport (current_attempt worker)
        (current_initialization worker) undefined EffectsRejected) :: ('w, 'p, 'd, 'j, 'err, 'ini, 'a, 'r, 'n, 'm) proxy_event)"
      by (simp add: initialization_awaits_def report_fits_def)
    then show ?thesis by (rule that)
  next
    case (9 kind progress worker result stopped)
    then have "shutdown_awaits shutdown (EventWorkerStartup \<lparr>startup_worker = grant_worker (progress_grant progress),
        startup_attempt = progress_grant progress,
        startup_outcome = (case progress of WaitingForStart grant \<Rightarrow> Started | StartRunning grant \<Rightarrow> StartupReady undefined)\<rparr>
        :: ('w, 'p, 'd, 'j, 'err, 'ini, 'a, 'r, 'n, 'm) proxy_event)"
      by (cases progress) (simp_all add: startup_awaits_def)
    then show ?thesis by (rule that)
  next
    case (10 replaces i retirement)
    then have "shutdown_awaits shutdown (EventWorkerShutdown (ShutdownAccepted i)
        :: ('w, 'p, 'd, 'j, 'err, 'ini, 'a, 'r, 'n, 'm) proxy_event)"
      by (simp add: resolution_awaits_def)
    then show ?thesis by (rule that)
  qed (use assms in \<open>auto intro: departing\<close>)
qed

section \<open>Shutdown completes\<close>

fun state_awaits :: "('w, 'p, 'd, 'j, 'err, 'ini, 'a, 'r) proxy_state
    \<Rightarrow> ('w, 'p, 'd, 'j, 'err, 'ini, 'a, 'r, 'n, 'm) proxy_awaits" where
  "state_awaits (ProxyShuttingDown shutdown) e \<longleftrightarrow> shutdown_awaits shutdown e"
| "state_awaits state e \<longleftrightarrow> False"

text \<open>Events that come when the proxy waits for them.\<close>

fun awaited_run :: "heap \<times> ('w, 'p, 'd, 'j, 'err, 'ini, 'a, 'r) stable_proxy
    \<Rightarrow> ('w, 'p, 'd, 'j, 'err, 'ini, 'a, 'r, 'n, 'm) proxy_event list \<Rightarrow> bool" where
  "awaited_run s [] \<longleftrightarrow> True"
| "awaited_run s (e # es) \<longleftrightarrow> state_awaits (proxy_state (snd s)) e \<and> awaited_run (fst (proxy_step s e)) es"

fun state_remaining :: "('w, 'p, 'd, 'j, 'err, 'ini, 'a, 'r) proxy_state \<Rightarrow> nat option" where
  "state_remaining (ProxyShuttingDown shutdown) = Some (shutdown_remaining shutdown)"
| "state_remaining (ProxyStopped retirement) = Some 0"
| "state_remaining state = None"

lemma awaited_step:
  assumes "state_remaining (proxy_state (snd s)) = Some n" and "state_awaits (proxy_state (snd s)) e"
  obtains m where "state_remaining (proxy_state (snd (fst (proxy_step s e)))) = Some m" and "m < n"
proof -
  from assms(2) obtain shutdown where st: "proxy_state (snd s) = ProxyShuttingDown shutdown"
    by (cases "proxy_state (snd s)") auto
  obtain h' p' a where acc: "proxy_accept (fst s) (snd s) e = (h', p', a)" by (metis prod_cases3)
  with proxy_shuts_down [OF st, of "fst s" e] assms st have "nearer n (proxy_state p') a" by simp
  then have "\<exists>m < n. state_remaining (proxy_state p') = Some m" by (cases "proxy_state p'") auto
  with acc that show ?thesis by (auto simp: proxy_step_def)
qed

lemma awaited_run_bounded:
  "state_remaining (proxy_state (snd s)) = Some n \<Longrightarrow> awaited_run s es \<Longrightarrow>
     length es \<le> n \<and> state_remaining (proxy_state (snd (run_state proxy_step s es))) \<noteq> None"
proof (induction es arbitrary: s n)
  case (Cons e es)
  from Cons.prems obtain m where "state_remaining (proxy_state (snd (fst (proxy_step s e)))) = Some m" "m < n"
    by (auto elim: awaited_step)
  with Cons.IH [of "fst (proxy_step s e)" m] Cons.prems show ?case by simp
qed simp

text \<open>
  C6: a stable proxy that shuts down stops. Whatever reaches it, an event it does not wait for
  leaves the proxy unchanged. Reports it waits for can be at most as many as it has left, in any
  order and with any content; and as long as it has not stopped there is one it waits for. A
  history of awaited reports that cannot be continued therefore ends in the stopped proxy.
\<close>

theorem proxy_shutdown_completes:
  fixes s :: "heap \<times> ('w, 'p, 'd, 'j, 'err, 'ini, 'a, 'r) stable_proxy"
    and es :: "('w, 'p, 'd, 'j, 'err, 'ini, 'a, 'r, 'n, 'm) proxy_event list"
  assumes "proxy_wf s" and "proxy_state (snd s) = ProxyShuttingDown shutdown"
  shows "(\<not> shutdown_awaits shutdown e \<longrightarrow> snd (fst (proxy_step s e)) = snd s)
    \<and> (awaited_run s es \<longrightarrow> length es \<le> shutdown_remaining shutdown)
    \<and> (awaited_run s es \<longrightarrow> (\<forall>e. \<not> awaited_run s (es @ [e])) \<longrightarrow>
      (\<exists>retirement. proxy_state (snd (run_state proxy_step s es)) = ProxyStopped retirement))"
proof (intro conjI impI)
  obtain h' p' a where acc: "proxy_accept (fst s) (snd s) e = (h', p', a)" by (metis prod_cases3)
  show "\<not> shutdown_awaits shutdown e \<Longrightarrow> snd (fst (proxy_step s e)) = snd s"
    using proxy_shuts_down [OF assms(2), of "fst s" e] by (simp add: acc proxy_step_def)
  show "length es \<le> shutdown_remaining shutdown" if "awaited_run s es"
    using awaited_run_bounded [OF _ that] assms(2) by auto
  assume run: "awaited_run s es"
  let ?final = "run_state proxy_step s es"
  assume stuck: "\<forall>e. \<not> awaited_run s (es @ [e])"
  have snoc: "awaited_run t (xs @ [e]) \<longleftrightarrow> awaited_run t xs \<and> state_awaits (proxy_state (snd (run_state proxy_step t xs))) e" for t xs e
    by (induction xs arbitrary: t) simp_all
  have wf: "proxy_wf ?final" using assms(1) by (rule proxy.run_inv)
  from awaited_run_bounded [OF _ run] assms(2) have "state_remaining (proxy_state (snd ?final)) \<noteq> None" by auto
  moreover have False if "proxy_state (snd ?final) = ProxyShuttingDown final" for final
  proof -
    from wf that have "shutdown_wf (fst ?final) (proxy_creations (snd ?final)) final" by (cases ?final) simp
    then obtain e :: "('w, 'p, 'd, 'j, 'err, 'ini, 'a, 'r, 'n, 'm) proxy_event" where "shutdown_awaits final e"
      by (rule shutdown_awaits_something)
    with stuck run that show False by (simp add: snoc)
  qed
  ultimately show "\<exists>retirement. proxy_state (snd ?final) = ProxyStopped retirement"
    by (cases "proxy_state (snd ?final)") auto
qed

text \<open>A proxy that is shut down while its first worker initializes.\<close>

definition sample_current :: "nat current_worker" where
  "sample_current = \<lparr>current_attempt = sample_attempt,
     current_initialization = \<lparr>initialized_worker = sample_attempt, initialization_token = 1\<rparr>, current_actor = EstablishedActor 7\<rparr>"

definition sample_shutdown :: "(nat, nat, nat, nat, nat, nat, nat, nat) proxy_shutdown" where
  "sample_shutdown = ShutdownInitializing StartInitial (InitializationDeparting None (fst (stopping_begin sample_current)))"

definition sample_shutting :: "heap \<times> (nat, nat, nat, nat, nat, nat, nat, nat) stable_proxy" where
  "sample_shutting = run_state proxy_step (0, dormant_proxy) ([EventOwner (ProxyStart (sample_submission 1)),
     EventWorkersCreated (sample_created 1 Birth 7), EventOwner ProxyShutdownCommand] :: sample_event list)"

definition sample_reports :: "sample_event list" where
  "sample_reports = [EventWorkerShutdown (ShutdownAccepted (ShutdownId 1)), EventWorkerStopped (sample_stop 1),
     EventWorkerInitialization (EffectsRejectedReport sample_attempt
       (current_initialization sample_current) 11 EffectsRejected)]"

lemma sample_shutting_state: "proxy_state (snd sample_shutting) = ProxyShuttingDown sample_shutdown"
  by (simp add: sample_shutting_def sample_shutdown_def sample_current_def sample_defs proxy_run_defs stopping_begin_def)

lemma sample_reports_awaited: "awaited_run sample_shutting sample_reports"
  by (simp add: sample_reports_def sample_shutting_def sample_current_def sample_defs proxy_run_defs stopping_begin_def
      awaits_defs report_fits_def stopping_resolves_def stopping_stops_def stopping_resolved_def stopping_worker_stopped_def stopping_complete_def)

lemma sample_stops: "\<exists>retirement. proxy_state (snd (run_state proxy_step sample_shutting sample_reports)) = ProxyStopped retirement"
  by (simp add: sample_reports_def sample_shutting_def sample_current_def sample_defs proxy_run_defs stopping_begin_def
      stopping_resolved_def stopping_worker_stopped_def stopping_complete_def)

theorem proxy_shutdown_completes_witness:
  "snd (fst (proxy_step sample_shutting (EventWorkerStopped (sample_stop 2) :: sample_event))) = snd sample_shutting
   \<and> length sample_reports \<le> shutdown_remaining sample_shutdown
   \<and> (\<exists>retirement. proxy_state (snd (run_state proxy_step sample_shutting sample_reports)) = ProxyStopped retirement)"
proof -
  have wf: "proxy_wf sample_shutting" unfolding sample_shutting_def by (rule proxy.run_inv [OF dormant_wf])
  note facts = proxy_shutdown_completes [OF wf sample_shutting_state]
  have other: "\<not> shutdown_awaits sample_shutdown (EventWorkerStopped (sample_stop 2) :: sample_event)"
    by (simp add: sample_shutdown_def sample_current_def sample_defs stopping_begin_def stopping_stops_def initialization_awaits_def)
  have snoc: "awaited_run t (xs @ [e]) \<Longrightarrow> state_awaits (proxy_state (snd (run_state proxy_step t xs))) e"
    for t :: "heap \<times> (nat, nat, nat, nat, nat, nat, nat, nat) stable_proxy" and xs and e :: sample_event
    by (induction xs arbitrary: t) simp_all
  have "\<not> awaited_run sample_shutting (sample_reports @ [e])" for e
    using snoc [of sample_shutting sample_reports e] sample_stops by auto
  with facts [of "EventWorkerStopped (sample_stop 2) :: sample_event" sample_reports] other sample_reports_awaited
  show ?thesis by simp
qed

section \<open>A result that arrives too early\<close>








end
