(* ===== verification/Template_Base.thy ===== *)
theory Template_Base
  imports Proxy_State Restart Timers
begin

text \<open>
  What the supervisors and pools share (\<^verbatim>\<open>actors/src/templates/\<close>): the keys of scheduled timers
  (\<^verbatim>\<open>schedule.rs\<close>), the drain policy and the deadline of a shutdown (\<^verbatim>\<open>drain.rs\<close>), declared roles
  (\<^verbatim>\<open>roster.rs\<close>), positive capacities (\<^verbatim>\<open>capacity.rs\<close>, \<^verbatim>\<open>worker/limit.rs\<close>), the preparation of
  initial workers (\<^verbatim>\<open>worker/roster.rs\<close>), the preparation of replacement workers by a worker source
  (\<^verbatim>\<open>worker/preparation.rs\<close>) and the route of diagnostics (\<^verbatim>\<open>diagnostic.rs\<close>).

  A \<^verbatim>\<open>RoleName\<close> shares its role through an \<^verbatim>\<open>Arc\<close> and is compared by the role: it is the role.
\<close>

section \<open>Keys of schedules\<close>

record schedule_key =
  key_id :: timer_id
  key_generation :: timer_generation

definition key_after :: "schedule_key \<Rightarrow> duration \<Rightarrow> timer_id schedule_after" where
  "key_after key delay = \<lparr>after_id = key_id key, after_generation = key_generation key, after_delay = delay\<rparr>"

definition key_issue :: "u64 \<Rightarrow> u64 \<times> schedule_key option" where
  "key_issue next = (case checked_add next 1 of
      None \<Rightarrow> (next, None)
    | Some successor \<Rightarrow> (successor, Some \<lparr>key_id = next, key_generation = 0\<rparr>))"

record 't timer_scheduled =
  scheduled_id :: 't
  scheduled_generation :: timer_generation

datatype schedule_after_rejection = DeadlineOverflow | QueueGenerationExhausted | QueueSequenceExhausted

type_synonym schedule_result = "(timer_id schedule_after, (timer_id schedule_after, timer_id timer_scheduled,
  schedule_after_rejection, never) item_settlement) settled_item"

definition key_requests :: "schedule_key \<Rightarrow> timer_id schedule_after \<Rightarrow> bool" where
  "key_requests key item \<longleftrightarrow> key_id key = after_id item \<and> key_generation key = after_generation item"

text \<open>A prerequisite is \<^verbatim>\<open>Never\<close>: no schedule is blocked, and the value given for that row is never read.\<close>

fun accepts_result :: "schedule_key \<Rightarrow> schedule_result \<Rightarrow> bool" where
  "accepts_result key (Attempted (ItemAccepted scheduled)) \<longleftrightarrow>
     key_id key = scheduled_id scheduled \<and> key_generation key = scheduled_generation scheduled"
| "accepts_result key (Attempted (ItemRejected item reason)) \<longleftrightarrow> key_requests key item"
| "accepts_result key (Attempted (ItemCorrupt item fault)) \<longleftrightarrow> key_requests key item"
| "accepts_result key (Unattempted item) \<longleftrightarrow> key_requests key item"
| "accepts_result key (Attempted (ItemBlocked item prerequisite)) \<longleftrightarrow> False"

definition admit_result :: "schedule_key \<Rightarrow> schedule_result \<Rightarrow> schedule_result + schedule_result" where
  "admit_result key input = (if accepts_result key input then Inr input else Inl input)"

definition admit_elapsed :: "schedule_key \<Rightarrow> timer_id timer_elapsed \<Rightarrow> timer_id timer_elapsed + timer_id timer_elapsed" where
  "admit_elapsed key elapsed =
     (if key_id key = elapsed_id elapsed \<and> key_generation key = elapsed_generation elapsed
      then Inr elapsed else Inl elapsed)"

section \<open>The deadline of a shutdown\<close>

datatype actor_drain_policy = WaitForActorGraph | RetireActorGraphAfter duration

datatype (plugins only: code) shutdown_deadline =
    DeadlineUnlimited
  | DeadlineScheduling schedule_key
  | DeadlineWaiting schedule_key
  | DeadlineNotScheduled schedule_result
  | DeadlineElapsed "timer_id timer_elapsed"

definition deadline_key :: schedule_key where
  "deadline_key = \<lparr>key_id = 0, key_generation = 0\<rparr>"

fun deadline_begin :: "actor_drain_policy \<Rightarrow> shutdown_deadline \<times> timer_id schedule_after option" where
  "deadline_begin WaitForActorGraph = (DeadlineUnlimited, None)"
| "deadline_begin (RetireActorGraphAfter deadline) =
     (DeadlineScheduling deadline_key, Some (key_after deadline_key deadline))"

text \<open>A refused input leaves the deadline as it was, so only the accepted one returns a deadline.\<close>

definition deadline_accept_schedule :: "shutdown_deadline \<Rightarrow> schedule_result \<Rightarrow> schedule_result + shutdown_deadline" where
  "deadline_accept_schedule deadline input = (case deadline of
      DeadlineScheduling expected \<Rightarrow> (case admit_result expected input of
          Inl input \<Rightarrow> Inl input
        | Inr input \<Rightarrow> Inr (case input of
              Attempted (ItemAccepted scheduled) \<Rightarrow> DeadlineWaiting expected
            | _ \<Rightarrow> DeadlineNotScheduled input))
    | _ \<Rightarrow> Inl input)"

definition deadline_accept_elapsed :: "shutdown_deadline \<Rightarrow> timer_id timer_elapsed \<Rightarrow> timer_id timer_elapsed + shutdown_deadline" where
  "deadline_accept_elapsed deadline elapsed = (case deadline of
      DeadlineWaiting expected \<Rightarrow> (case admit_elapsed expected elapsed of
          Inr elapsed \<Rightarrow> Inr (DeadlineElapsed elapsed)
        | Inl elapsed \<Rightarrow> Inl elapsed)
    | _ \<Rightarrow> Inl elapsed)"

section \<open>Roles and capacities\<close>

record 'k duplicate_role =
  duplicate_declared :: "'k list"
  duplicate_duplicate :: 'k
  duplicate_remaining :: "'k list"

fun declare_roles :: "'k list \<Rightarrow> 'k list \<Rightarrow> 'k duplicate_role + 'k list" where
  "declare_roles declared [] = Inr declared"
| "declare_roles declared (role # remaining) =
     (if role \<in> set declared
      then Inl \<lparr>duplicate_declared = declared, duplicate_duplicate = role, duplicate_remaining = remaining\<rparr>
      else declare_roles (declared @ [role]) remaining)"

definition ordered_roles :: "'k \<Rightarrow> 'k list \<Rightarrow> 'k duplicate_role + 'k list" where
  "ordered_roles first remaining = declare_roles [first] remaining"

datatype zero_capacity = ZeroCapacity

definition positive_capacity :: "usize \<Rightarrow> zero_capacity + usize" where
  "positive_capacity maximum = (if maximum = 0 then Inl ZeroCapacity else Inr maximum)"

record startup_limit =
  limit_capacity :: usize

definition startup_limit_new :: "usize \<Rightarrow> zero_capacity + startup_limit" where
  "startup_limit_new maximum = (case positive_capacity maximum of
      Inl zero \<Rightarrow> Inl zero | Inr maximum \<Rightarrow> Inr \<lparr>limit_capacity = maximum\<rparr>)"

section \<open>Initial workers\<close>

record ('k, 'w, 'p) prepared_worker =
  prepared_role :: 'k
  prepared_submission :: "('w, 'p) worker_submission"

record ('f, 'k, 'w, 'p, 'e) initial_worker_rejection =
  rejection_factory :: 'f
  rejection_prepared :: "('k, 'w, 'p) prepared_worker list"
  rejection_role :: 'k
  rejection_reason :: 'e
  rejection_remaining :: "'k list"

text \<open>The factory is an \<^verbatim>\<open>FnMut\<close>: \<open>'f\<close> is what it captures and \<open>call\<close> one call of it.\<close>

fun prepare_workers_from :: "('f \<Rightarrow> 'k \<Rightarrow> 'f \<times> ('e + ('w, 'p) worker_submission)) \<Rightarrow> 'f
    \<Rightarrow> ('k, 'w, 'p) prepared_worker list \<Rightarrow> 'k list
    \<Rightarrow> ('f, 'k, 'w, 'p, 'e) initial_worker_rejection + ('k, 'w, 'p) prepared_worker list" where
  "prepare_workers_from call factory prepared [] = Inr prepared"
| "prepare_workers_from call factory prepared (role # remaining) = (case call factory role of
      (factory, Inr submission) \<Rightarrow> prepare_workers_from call factory
         (prepared @ [\<lparr>prepared_role = role, prepared_submission = submission\<rparr>]) remaining
    | (factory, Inl rejection) \<Rightarrow> Inl \<lparr>rejection_factory = factory, rejection_prepared = prepared,
         rejection_role = role, rejection_reason = rejection, rejection_remaining = remaining\<rparr>)"

definition prepare_initial_workers :: "('f \<Rightarrow> 'k \<Rightarrow> 'f \<times> ('e + ('w, 'p) worker_submission)) \<Rightarrow> 'f \<Rightarrow> 'k list
    \<Rightarrow> ('f, 'k, 'w, 'p, 'e) initial_worker_rejection + ('k, 'w, 'p) prepared_worker list" where
  "prepare_initial_workers call factory roles = prepare_workers_from call factory [] roles"

section \<open>Preparation by a worker source\<close>

type_synonym preparation_ticket = token

definition ticket_reserve :: "heap \<Rightarrow> heap \<times> preparation_ticket \<times> preparation_ticket" where
  "ticket_reserve h = (let (h', t) = arc_new h in (h', t, t))"

record ('s, 'k) prepare_workers =
  prepare_ticket :: preparation_ticket
  prepare_source :: 's
  prepare_first :: 'k
  prepare_remaining :: "'k list"

datatype preparation_started = PreparationStarted preparation_ticket

fun started_accepts :: "preparation_started \<Rightarrow> preparation_ticket \<Rightarrow> bool" where
  "started_accepts (PreparationStarted ticket) expected \<longleftrightarrow> ticket = expected"

type_synonym ('s, 'k) preparation_start = "(('s, 'k) prepare_workers, (('s, 'k) prepare_workers, preparation_started,
  never, never) item_settlement) settled_item"

definition prepare_workers_new :: "heap \<Rightarrow> 's \<Rightarrow> 'k \<Rightarrow> 'k list
    \<Rightarrow> heap \<times> preparation_ticket \<times> ('s, 'k) prepare_workers" where
  "prepare_workers_new h source first remaining = (let (h', expected, ticket) = ticket_reserve h in
     (h', expected, \<lparr>prepare_ticket = ticket, prepare_source = source, prepare_first = first,
        prepare_remaining = remaining\<rparr>))"

definition prepare_accepts :: "('s, 'k) prepare_workers \<Rightarrow> preparation_ticket \<Rightarrow> bool" where
  "prepare_accepts request expected \<longleftrightarrow> expected = prepare_ticket request"

definition prepare_into_parts :: "('s, 'k) prepare_workers \<Rightarrow> 's \<times> 'k \<times> 'k list" where
  "prepare_into_parts request = (prepare_source request, prepare_first request, prepare_remaining request)"

fun preparation_start_accepts :: "('s, 'k) preparation_start \<Rightarrow> preparation_ticket \<Rightarrow> bool" where
  "preparation_start_accepts (Attempted (ItemAccepted started)) expected \<longleftrightarrow> started_accepts started expected"
| "preparation_start_accepts (Attempted (ItemRejected item reason)) expected \<longleftrightarrow> prepare_accepts item expected"
| "preparation_start_accepts (Attempted (ItemBlocked item prerequisite)) expected \<longleftrightarrow> prepare_accepts item expected"
| "preparation_start_accepts (Attempted (ItemCorrupt item fault)) expected \<longleftrightarrow> prepare_accepts item expected"
| "preparation_start_accepts (Unattempted item) expected \<longleftrightarrow> prepare_accepts item expected"

datatype (plugins only: code) ('s, 'k, 'w, 'p, 'e, 'f) worker_preparation_outcome =
    WorkersPrepared 's "('k, 'w, 'p) prepared_worker list"
  | PreparationWorkerRejected 's "('k, 'w, 'p) prepared_worker list" 'k 'e "'k list"
  | PreparationSourceRejected 's 'k 'f "'k list"

record ('s, 'k, 'w, 'p, 'e, 'f) worker_preparation =
  preparation_ticket :: preparation_ticket
  preparation_outcome :: "('s, 'k, 'w, 'p, 'e, 'f) worker_preparation_outcome"

definition preparation_accepts :: "('s, 'k, 'w, 'p, 'e, 'f) worker_preparation \<Rightarrow> preparation_ticket \<Rightarrow> bool" where
  "preparation_accepts returned expected \<longleftrightarrow> expected = preparation_ticket returned"

datatype (plugins only: code) preparation_expectation =
    ExpectationIssued preparation_ticket
  | ExpectationStarted preparation_ticket

fun expectation_accept_start :: "preparation_expectation \<Rightarrow> preparation_started
    \<Rightarrow> preparation_expectation + preparation_expectation" where
  "expectation_accept_start (ExpectationIssued ticket) receipt =
     (if started_accepts receipt ticket then Inr (ExpectationStarted ticket) else Inl (ExpectationIssued ticket))"
| "expectation_accept_start (ExpectationStarted ticket) receipt = Inl (ExpectationStarted ticket)"

fun expectation_accepts_issued :: "preparation_expectation \<Rightarrow> ('s, 'k) preparation_start \<Rightarrow> bool" where
  "expectation_accepts_issued (ExpectationIssued ticket) input \<longleftrightarrow> preparation_start_accepts input ticket"
| "expectation_accepts_issued (ExpectationStarted ticket) input \<longleftrightarrow> False"

fun expectation_accepts_return :: "preparation_expectation \<Rightarrow> ('s, 'k, 'w, 'p, 'e, 'f) worker_preparation \<Rightarrow> bool" where
  "expectation_accepts_return (ExpectationIssued ticket) returned \<longleftrightarrow> False"
| "expectation_accepts_return (ExpectationStarted ticket) returned \<longleftrightarrow> preparation_accepts returned ticket"

text \<open>What a worker source runs: the first role of a started preparation, then each pending one.\<close>

record ('s, 'k) starting_preparation =
  starting_ticket :: preparation_ticket
  starting_source :: 's
  starting_first :: 'k
  starting_remaining :: "'k list"

record ('s, 'k, 'w, 'p) pending_preparation =
  pending_ticket :: preparation_ticket
  pending_source :: 's
  pending_prepared :: "('k, 'w, 'p) prepared_worker list"
  pending_current :: 'k
  pending_remaining :: "'k list"

definition prepare_start :: "('s, 'k) prepare_workers \<Rightarrow> preparation_started \<times> ('s, 'k) starting_preparation" where
  "prepare_start request = (PreparationStarted (prepare_ticket request),
     \<lparr>starting_ticket = prepare_ticket request, starting_source = prepare_source request,
      starting_first = prepare_first request, starting_remaining = prepare_remaining request\<rparr>)"

definition advance_preparation :: "preparation_ticket \<Rightarrow> 's \<Rightarrow> ('k, 'w, 'p) prepared_worker list \<Rightarrow> 'k \<Rightarrow> 'k list
    \<Rightarrow> ('w, 'p) worker_submission
    \<Rightarrow> (('s, 'k, 'w, 'p, 'e, 'f) worker_preparation, ('s, 'k, 'w, 'p) pending_preparation) control_flow" where
  "advance_preparation ticket source prepared current remaining submission =
     (let prepared = prepared @ [\<lparr>prepared_role = current, prepared_submission = submission\<rparr>] in
      case remaining of
        [] \<Rightarrow> FlowBreak \<lparr>preparation_ticket = ticket, preparation_outcome = WorkersPrepared source prepared\<rparr>
      | current # remaining \<Rightarrow> FlowContinue \<lparr>pending_ticket = ticket, pending_source = source,
          pending_prepared = prepared, pending_current = current, pending_remaining = remaining\<rparr>)"

definition rejected_preparation :: "preparation_ticket \<Rightarrow> 's \<Rightarrow> ('k, 'w, 'p) prepared_worker list \<Rightarrow> 'k \<Rightarrow> 'e \<Rightarrow> 'k list
    \<Rightarrow> ('s, 'k, 'w, 'p, 'e, 'f) worker_preparation" where
  "rejected_preparation ticket source prepared failed reason remaining = \<lparr>preparation_ticket = ticket,
     preparation_outcome = PreparationWorkerRejected source prepared failed reason remaining\<rparr>"

definition starting_accept :: "('s, 'k) starting_preparation \<Rightarrow> ('w, 'p) worker_submission
    \<Rightarrow> (('s, 'k, 'w, 'p, 'e, 'f) worker_preparation, ('s, 'k, 'w, 'p) pending_preparation) control_flow" where
  "starting_accept p submission = advance_preparation (starting_ticket p) (starting_source p) []
     (starting_first p) (starting_remaining p) submission"

definition starting_reject :: "('s, 'k) starting_preparation \<Rightarrow> 'e \<Rightarrow> ('s, 'k, 'w, 'p, 'e, 'f) worker_preparation" where
  "starting_reject p reason = rejected_preparation (starting_ticket p) (starting_source p) []
     (starting_first p) reason (starting_remaining p)"

definition starting_reject_source :: "('s, 'k) starting_preparation \<Rightarrow> 'f \<Rightarrow> ('s, 'k, 'w, 'p, 'e, 'f) worker_preparation" where
  "starting_reject_source p reason = \<lparr>preparation_ticket = starting_ticket p,
     preparation_outcome = PreparationSourceRejected (starting_source p) (starting_first p) reason (starting_remaining p)\<rparr>"

definition pending_accept :: "('s, 'k, 'w, 'p) pending_preparation \<Rightarrow> ('w, 'p) worker_submission
    \<Rightarrow> (('s, 'k, 'w, 'p, 'e, 'f) worker_preparation, ('s, 'k, 'w, 'p) pending_preparation) control_flow" where
  "pending_accept p submission = advance_preparation (pending_ticket p) (pending_source p) (pending_prepared p)
     (pending_current p) (pending_remaining p) submission"

definition pending_reject :: "('s, 'k, 'w, 'p) pending_preparation \<Rightarrow> 'e \<Rightarrow> ('s, 'k, 'w, 'p, 'e, 'f) worker_preparation" where
  "pending_reject p reason = rejected_preparation (pending_ticket p) (pending_source p) (pending_prepared p)
     (pending_current p) reason (pending_remaining p)"

section \<open>Diagnostics\<close>

datatype 'route diagnostic_disposition = DeliverDiagnosticsTo 'route | TerminateOnDiagnostic

datatype ('route, 'd) diagnostic_action = DiagnosticDeliver 'route 'd | DiagnosticTerminal 'd

fun disposition_action :: "'route diagnostic_disposition \<Rightarrow> 'd \<Rightarrow> ('route, 'd) diagnostic_action" where
  "disposition_action (DeliverDiagnosticsTo route) diagnostic = DiagnosticDeliver route diagnostic"
| "disposition_action TerminateOnDiagnostic diagnostic = DiagnosticTerminal diagnostic"

datatype 'd diagnostic_accepted = DiagnosticDelivered | DiagnosticTerminated 'd

fun retain_diagnostic :: "'d diagnostic_accepted \<Rightarrow> 'd diagnostic_accepted option" where
  "retain_diagnostic DiagnosticDelivered = None"
| "retain_diagnostic (DiagnosticTerminated diagnostic) = Some (DiagnosticTerminated diagnostic)"

section \<open>Facts\<close>

lemma admit_result_iff [simp]:
  "admit_result key input = Inr y \<longleftrightarrow> y = input \<and> accepts_result key input"
  "admit_result key input = Inl y \<longleftrightarrow> y = input \<and> \<not> accepts_result key input"
  by (auto simp: admit_result_def)

lemma admit_elapsed_iff [simp]:
  "admit_elapsed key elapsed = Inr y \<longleftrightarrow> y = elapsed \<and> key_id key = elapsed_id elapsed \<and> key_generation key = elapsed_generation elapsed"
  "admit_elapsed key elapsed = Inl y \<longleftrightarrow> y = elapsed \<and> \<not> (key_id key = elapsed_id elapsed \<and> key_generation key = elapsed_generation elapsed)"
  by (auto simp: admit_elapsed_def)

lemma deadline_refuses_whole:
  "deadline_accept_schedule deadline input = Inl returned \<Longrightarrow> returned = input"
  "deadline_accept_elapsed deadline elapsed = Inl gone \<Longrightarrow> gone = elapsed"
  by (auto simp: deadline_accept_schedule_def deadline_accept_elapsed_def split: shutdown_deadline.splits sum.splits)

text \<open>Declared roles are distinct and in the order given; a duplicate comes back with everything around it.\<close>

lemma declare_roles_distinct:
  "distinct declared \<Longrightarrow> declare_roles declared remaining = Inr roles \<Longrightarrow> roles = declared @ remaining \<and> distinct (declared @ remaining)"
proof (induction remaining arbitrary: declared)
  case (Cons role remaining)
  then have "declare_roles (declared @ [role]) remaining = Inr roles" "distinct (declared @ [role])"
    by (auto split: if_splits)
  from Cons.IH[OF this(2,1)] show ?case by simp
qed simp

lemma declare_roles_returns:
  "declare_roles declared remaining = Inl d \<Longrightarrow>
   duplicate_declared d @ duplicate_duplicate d # duplicate_remaining d = declared @ remaining \<and>
   duplicate_duplicate d \<in> set (duplicate_declared d)"
  by (induction remaining arbitrary: declared) (auto split: if_splits)

lemma ordered_roles_Inr: "ordered_roles first remaining = Inr roles \<Longrightarrow> roles = first # remaining \<and> distinct (first # remaining)"
  using declare_roles_distinct[of "[first]" remaining roles] by (simp add: ordered_roles_def)

lemma prepare_workers_from_roles:
  "prepare_workers_from call factory prepared roles = Inr workers \<Longrightarrow>
   map prepared_role workers = map prepared_role prepared @ roles"
  by (induction roles arbitrary: factory prepared) (auto split: prod.splits sum.splits)

lemma prepare_workers_from_rejects:
  "prepare_workers_from call factory prepared roles = Inl r \<Longrightarrow>
   map prepared_role (rejection_prepared r) @ rejection_role r # rejection_remaining r = map prepared_role prepared @ roles"
  by (induction roles arbitrary: factory prepared) (auto split: prod.splits sum.splits)

text \<open>Every step of a preparation keeps the roles it was asked for, in their order.\<close>

fun outcome_roles :: "('s, 'k, 'w, 'p, 'e, 'f) worker_preparation_outcome \<Rightarrow> 'k list" where
  "outcome_roles (WorkersPrepared source members) = map prepared_role members"
| "outcome_roles (PreparationWorkerRejected source prepared failed reason remaining) =
     map prepared_role prepared @ failed # remaining"
| "outcome_roles (PreparationSourceRejected source failed reason remaining) = failed # remaining"

definition pending_roles :: "('s, 'k, 'w, 'p) pending_preparation \<Rightarrow> 'k list" where
  "pending_roles p = map prepared_role (pending_prepared p) @ pending_current p # pending_remaining p"

fun flow_roles :: "(('s, 'k, 'w, 'p, 'e, 'f) worker_preparation, ('s, 'k, 'w, 'p) pending_preparation) control_flow
    \<Rightarrow> preparation_ticket \<times> 'k list" where
  "flow_roles (FlowBreak returned) = (preparation_ticket returned, outcome_roles (preparation_outcome returned))"
| "flow_roles (FlowContinue p) = (pending_ticket p, pending_roles p)"

lemma advance_preparation_roles [simp]:
  "flow_roles (advance_preparation ticket source prepared current remaining submission) =
   (ticket, map prepared_role prepared @ current # remaining)"
  by (simp add: advance_preparation_def Let_def pending_roles_def split: list.splits)

lemma preparation_keeps_roles:
  "flow_roles (pending_accept p submission) = (pending_ticket p, pending_roles p)"
  "outcome_roles (preparation_outcome (pending_reject p reason)) = pending_roles p"
  "flow_roles (starting_accept s submission) = (starting_ticket s, starting_first s # starting_remaining s)"
  "outcome_roles (preparation_outcome (starting_reject s reason)) = starting_first s # starting_remaining s"
  "outcome_roles (preparation_outcome (starting_reject_source s why)) = starting_first s # starting_remaining s"
  by (simp_all add: pending_accept_def pending_reject_def starting_accept_def starting_reject_def
      starting_reject_source_def rejected_preparation_def pending_roles_def)

end
