(* ===== verification/Proxy_Operation.thy ===== *)
theory Proxy_Operation
  imports Template_Base
begin

text \<open>
  The operations by which an aggregate drives its stable proxies (\<^verbatim>\<open>templates/proxy/operation.rs\<close>):
  an operation carries a control and the token whose other half the aggregate keeps as a witness,
  its interpretation lends the control to the host and settles with a receipt or with the whole
  operation, and the witness admits exactly the settlement of its own operation. Then the
  settlement of a proxy's creation (\<^verbatim>\<open>templates/proxy_creation.rs\<close>).
\<close>

section \<open>Operations, receipts and witnesses\<close>

datatype child_input_reason = MissingBinding | ClosedControlLane

record ('w, 'p) proxy_operation =
  operation_creation :: creation_id
  operation_control :: "('w, 'p) proxy_command"
  operation_token :: token

record 'r proxy_input_receipt =
  receipt_creation :: creation_id
  receipt_proxy :: "'r established_actor"
  receipt_token :: token

type_synonym ('w, 'p, 'r) proxy_input_settlement =
  "(('w, 'p) proxy_operation, 'r proxy_input_receipt, child_input_reason, never) item_settlement"

type_synonym ('w, 'p, 'r) proxy_input_result =
  "(('w, 'p) proxy_operation, ('w, 'p, 'r) proxy_input_settlement) settled_item"

definition witness_reserve :: "heap \<Rightarrow> heap \<times> token \<times> token" where
  "witness_reserve h = (let (h', t) = arc_new h in (h', t, t))"

definition operation_initial :: "heap \<Rightarrow> creation_id \<Rightarrow> ('w, 'p) worker_submission
    \<Rightarrow> heap \<times> token \<times> ('w, 'p) proxy_operation" where
  "operation_initial h creation submission = (let (h', witness, operation) = witness_reserve h in
     (h', witness, \<lparr>operation_creation = creation, operation_control = ProxyStart submission, operation_token = operation\<rparr>))"

definition operation_replacement :: "heap \<Rightarrow> creation_id \<Rightarrow> ('w, 'p) worker_submission
    \<Rightarrow> heap \<times> token \<times> ('w, 'p) proxy_operation" where
  "operation_replacement h creation submission = (let (h', witness, operation) = witness_reserve h in
     (h', witness, \<lparr>operation_creation = creation, operation_control = ProxyReplace submission, operation_token = operation\<rparr>))"

definition operation_shutdown :: "heap \<Rightarrow> creation_id \<Rightarrow> heap \<times> token \<times> ('w, 'p) proxy_operation" where
  "operation_shutdown h creation = (let (h', witness, operation) = witness_reserve h in
     (h', witness, \<lparr>operation_creation = creation, operation_control = ProxyShutdownCommand, operation_token = operation\<rparr>))"

definition receipt_into_parts :: "'r proxy_input_receipt \<Rightarrow> creation_id \<times> 'r established_actor \<times> token" where
  "receipt_into_parts receipt = (receipt_creation receipt, receipt_proxy receipt, receipt_token receipt)"

fun input_token :: "('w, 'p, 'r) proxy_input_result \<Rightarrow> token" where
  "input_token (Attempted (ItemAccepted receipt)) = receipt_token receipt"
| "input_token (Attempted (ItemRejected operation reason)) = operation_token operation"
| "input_token (Attempted (ItemCorrupt operation fault)) = operation_token operation"
| "input_token (Unattempted operation) = operation_token operation"
| "input_token (Attempted (ItemBlocked operation prerequisite)) = operation_token operation"

text \<open>A refused settlement comes back beside the witness, which is unchanged.\<close>

definition witness_admit :: "token \<Rightarrow> ('w, 'p, 'r) proxy_input_result
    \<Rightarrow> ('w, 'p, 'r) proxy_input_result + ('w, 'p, 'r) proxy_input_result" where
  "witness_admit witness settlement = (if witness = input_token settlement then Inr settlement else Inl settlement)"

definition admit_receipt :: "token \<Rightarrow> 'r proxy_input_receipt \<Rightarrow> 'r proxy_input_receipt + 'r proxy_input_receipt" where
  "admit_receipt witness receipt = (if witness = receipt_token receipt then Inr receipt else Inl receipt)"

definition admit_rejection :: "token \<Rightarrow> ('w, 'p) proxy_operation \<Rightarrow> child_input_reason
    \<Rightarrow> ('w, 'p) proxy_operation \<times> child_input_reason + ('w, 'p) proxy_operation \<times> child_input_reason" where
  "admit_rejection witness operation reason =
     (if witness = operation_token operation then Inr (operation, reason) else Inl (operation, reason))"

section \<open>Interpretation\<close>

type_synonym ('w, 'p, 'r) control_settlement =
  "(('w, 'p) proxy_command, 'r established_actor, child_input_reason, never) item_settlement"

record ('w, 'p, 'r) operation_custody =
  custody_creation :: creation_id
  custody_operation :: token
  custody_control :: "('w, 'p) proxy_command option"
  custody_reply :: "('w, 'p, 'r) control_settlement option"

type_synonym ('w, 'p, 'r) operation_slot =
  "(('w, 'p) proxy_operation, ('w, 'p, 'r) operation_custody, ('w, 'p, 'r) proxy_input_settlement) slot"

definition operation_prepare :: "('w, 'p, 'r) operation_slot \<Rightarrow> ('w, 'p, 'r) operation_slot" where
  "operation_prepare progress = (case progress of
      Some (Original operation) \<Rightarrow> Some (Interpreting
        \<lparr>custody_creation = operation_creation operation, custody_operation = operation_token operation,
         custody_control = Some (operation_control operation), custody_reply = None\<rparr>)
    | _ \<Rightarrow> progress)"

text \<open>The control and the reply are lent together, when there is a control and no reply yet.\<close>

definition operation_input :: "('w, 'p, 'r) operation_custody \<Rightarrow> (creation_id \<times> ('w, 'p) proxy_command) option" where
  "operation_input custody = (case (custody_control custody, custody_reply custody) of
      (Some control, None) \<Rightarrow> Some (custody_creation custody, control)
    | _ \<Rightarrow> None)"

definition custody_item :: "('w, 'p, 'r) operation_custody \<Rightarrow> ('w, 'p) proxy_command \<Rightarrow> ('w, 'p) proxy_operation" where
  "custody_item custody control = \<lparr>operation_creation = custody_creation custody, operation_control = control,
     operation_token = custody_operation custody\<rparr>"

fun custody_received :: "('w, 'p, 'r) operation_custody \<Rightarrow> ('w, 'p, 'r) control_settlement
    \<Rightarrow> ('w, 'p, 'r) proxy_input_settlement" where
  "custody_received custody (ItemAccepted proxy) = ItemAccepted \<lparr>receipt_creation = custody_creation custody,
     receipt_proxy = proxy, receipt_token = custody_operation custody\<rparr>"
| "custody_received custody (ItemRejected control reason) = ItemRejected (custody_item custody control) reason"
| "custody_received custody (ItemCorrupt control fault) = ItemCorrupt (custody_item custody control) fault"
| "custody_received custody (ItemBlocked control prerequisite) = ItemBlocked (custody_item custody control) prerequisite"

definition operation_finish :: "('w, 'p, 'r) operation_slot \<Rightarrow> ('w, 'p, 'r) operation_slot" where
  "operation_finish progress = (case progress of
      Some (Interpreting custody) \<Rightarrow> (case (custody_control custody, custody_reply custody) of
          (None, Some reply) \<Rightarrow> (let received = custody_received custody reply in
            Some (Completed (case received of
                ItemCorrupt item fault \<Rightarrow> CorruptInterpretation received
              | _ \<Rightarrow> CompleteInterpretation received)))
        | _ \<Rightarrow> progress)
    | _ \<Rightarrow> progress)"

text \<open>\<open>host\<close> is \<^verbatim>\<open>ProxyControlAdmission::admit_proxy_control\<close> of the interpreter.\<close>

definition operation_settle :: "(creation_id \<Rightarrow> ('w, 'p) proxy_command \<Rightarrow> 'i \<Rightarrow> ('w, 'p, 'r) control_settlement \<times> 'i)
    \<Rightarrow> ('w, 'p, 'r) operation_slot \<Rightarrow> 'i \<Rightarrow> ('w, 'p, 'r) operation_slot \<times> 'i" where
  "operation_settle host progress i = (case operation_prepare progress of
      Some (Interpreting custody) \<Rightarrow> (case operation_input custody of
          Some (creation, control) \<Rightarrow> (let (reply, i') = host creation control i in
            (operation_finish (Some (Interpreting (custody\<lparr>custody_control := None, custody_reply := Some reply\<rparr>))), i'))
        | None \<Rightarrow> (operation_finish (Some (Interpreting custody)), i))
    | progress' \<Rightarrow> (operation_finish progress', i))"

section \<open>Creation of a proxy\<close>

datatype (plugins only: code) ('c, 'r, 'n, 'err, 'ini) stable_proxy_creation =
    ProxyCommitted "'r established_actor"
  | ProxyNotCommitted "('c, 'r, 'n, 'err, 'ini) child_settlement"

definition resolve_proxy_creation :: "('c, 'r, 'n, 'err, 'ini) child_settlement
    \<Rightarrow> ('c, 'r, 'n, 'err, 'ini) stable_proxy_creation" where
  "resolve_proxy_creation settlement = (case snd (settlement_identity settlement) of
      Birth \<Rightarrow> (case settlement of
          Attempted (ItemAccepted (ChildEstablished child)) \<Rightarrow> ProxyCommitted (committed_actor child)
        | _ \<Rightarrow> ProxyNotCommitted settlement)
    | Replacement previous \<Rightarrow> ProxyNotCommitted settlement)"

section \<open>Facts\<close>

lemma witness_admit_iff [simp]:
  "witness_admit witness settlement = Inr y \<longleftrightarrow> y = settlement \<and> witness = input_token settlement"
  "witness_admit witness settlement = Inl y \<longleftrightarrow> y = settlement \<and> witness \<noteq> input_token settlement"
  by (auto simp: witness_admit_def)

lemma admit_receipt_iff [simp]:
  "admit_receipt witness receipt = Inr y \<longleftrightarrow> y = receipt \<and> witness = receipt_token receipt"
  "admit_receipt witness receipt = Inl y \<longleftrightarrow> y = receipt \<and> witness \<noteq> receipt_token receipt"
  by (auto simp: admit_receipt_def)

lemma admit_rejection_iff [simp]:
  "admit_rejection witness operation reason = Inr y \<longleftrightarrow> y = (operation, reason) \<and> witness = operation_token operation"
  "admit_rejection witness operation reason = Inl y \<longleftrightarrow> y = (operation, reason) \<and> witness \<noteq> operation_token operation"
  by (auto simp: admit_rejection_def)

text \<open>
  One interpretation asks the host once for the operation's control at its creation and settles
  with the host's answer, which the witness of the operation admits and no other witness does.
\<close>

lemma operation_settle_original:
  "operation_settle host (Some (Original operation)) i =
     (let (reply, i') = host (operation_creation operation) (operation_control operation) i;
          received = custody_received \<lparr>custody_creation = operation_creation operation,
            custody_operation = operation_token operation, custody_control = None, custody_reply = Some reply\<rparr> reply
      in (Some (Completed (case received of ItemCorrupt item fault \<Rightarrow> CorruptInterpretation received
                                          | _ \<Rightarrow> CompleteInterpretation received)), i'))"
  by (simp add: operation_settle_def operation_prepare_def operation_input_def operation_finish_def Let_def
      split: prod.splits)

lemma input_token_received [simp]: "input_token (Attempted (custody_received custody reply)) = custody_operation custody"
  by (cases reply) (simp_all add: custody_item_def)

lemma into_settlement_completed [simp]:
  "into_settlement (case received of ItemCorrupt item fault \<Rightarrow> CorruptInterpretation received
                                   | _ \<Rightarrow> CompleteInterpretation received) = received"
  by (cases received) simp_all

lemma operation_settles_for_its_witness:
  "\<exists>settled. operation_settle host (Some (Original operation)) i =
     (Some (Completed settled), snd (host (operation_creation operation) (operation_control operation) i)) \<and>
     input_token (Attempted (into_settlement settled)) = operation_token operation"
  by (simp add: operation_settle_original Let_def split_beta)

lemma resolve_committed:
  "resolve_proxy_creation settlement = ProxyCommitted proxy \<longleftrightarrow>
   (\<exists>child. settlement = Attempted (ItemAccepted (ChildEstablished child)) \<and> committed_kind child = Birth \<and>
      proxy = committed_actor child)"
  by (auto simp: resolve_proxy_creation_def split: creation_kind.splits settled_item.splits item_settlement.splits
      child_creation_outcome.splits)

end
