(* ===== verification/Roster_State.thy ===== *)
theory Roster_State
  imports Proxy_Operation
begin

text \<open>
  The data of the fixed supervisor (\<^verbatim>\<open>templates/supervisor/roster/\<close>): member roles (\<^verbatim>\<open>role.rs\<close>),
  the owners of a member as it starts, is online, recovers, stops and retires (\<^verbatim>\<open>member.rs\<close>,
  \<^verbatim>\<open>proxy/\<close>, \<^verbatim>\<open>recovery/\<close>, \<^verbatim>\<open>shutdown/\<close>), the protocol, lifecycle, diagnostics, events and send lanes
  (\<^verbatim>\<open>protocol.rs\<close>, \<^verbatim>\<open>lifecycle.rs\<close>, \<^verbatim>\<open>diagnostic.rs\<close>, \<^verbatim>\<open>event.rs\<close>, \<^verbatim>\<open>requests.rs\<close>), its policy and
  errors (\<^verbatim>\<open>mod.rs\<close>, \<^verbatim>\<open>config.rs\<close>).

  The type variables are \<open>'k\<close> the roles, \<open>'a\<close> addresses, \<open>'r\<close> endpoints of proxies, \<open>'s\<close> the worker
  source, \<open>'q\<close> reply, lifecycle and diagnostic routes, and \<open>'v\<close> for everything the supervisor moves
  and never inspects: workers, startup plans, readiness, rejections, routes of creations and
  messages. \<^verbatim>\<open>RosterPosition\<close> is its number; a \<^verbatim>\<open>VecDeque\<close> is a list.
\<close>

section \<open>What proxies are created from and report\<close>

type_synonym 'v submission = "('v, 'v) worker_submission"
type_synonym 'v operation = "('v, 'v) proxy_operation"
type_synonym ('v, 'r) input_result = "('v, 'v, 'r) proxy_input_result"
type_synonym ('v, 'a, 'r) outcome = "('v, 'v, 'v, 'v, 'v, 'v, 'a, 'r, 'v) proxy_outcome"
type_synonym ('v, 'a, 'r) replaced = "('v, 'v, 'v, 'v, 'v, 'v, 'a, 'r) replacement_outcome"
type_synonym ('v, 'a, 'r) proxy_child = "('v, 'v, 'v, 'v, 'v, 'v, 'a, 'r) stable_proxy"
type_synonym ('v, 'a, 'r) proxy_settlement = "(('v, 'a, 'r) proxy_child, 'r, 'v, 'v, 'v) child_settlement"
type_synonym ('v, 'a, 'r) proxies_settled = "(('v, 'a, 'r) proxy_child, 'r, 'v, 'v, 'v) children_settled"
type_synonym ('k, 'v) prepared = "('k, 'v, 'v) prepared_worker"
type_synonym ('s, 'k, 'v) preparation_return = "('s, 'k, 'v, 'v, 'v, 'v) worker_preparation"

record 'x child_report =
  report_child :: creation_id
  report_report :: 'x

section \<open>Members\<close>

type_synonym roster_position = nat

record 'k member_role =
  role_position :: roster_position
  role_name :: 'k
  role_recoveries :: u32

definition role_declared :: "roster_position \<Rightarrow> 'k \<Rightarrow> 'k member_role" where
  "role_declared at role = \<lparr>role_position = at, role_name = role, role_recoveries = 0\<rparr>"

record ('k, 'v, 'r) online_member =
  online_role :: "'k member_role"
  online_creation :: creation_id
  online_proxy :: "'r established_actor"
  online_worker :: worker_attempt
  online_readiness :: 'v

record ('k, 'v, 'a, 'r) stopped_member =
  halted_role :: "'k member_role"
  halted_creation :: creation_id
  halted_proxy :: "'r established_actor"
  halted_worker :: worker_attempt
  halted_readiness :: 'v
  halted_stopped :: "'a child_stopped"

record ('k, 'v, 'a, 'r) empty_member =
  empty_role :: "'k member_role"
  empty_creation :: creation_id
  empty_proxy :: "'r established_actor"
  empty_worker :: worker_attempt
  empty_readiness :: 'v
  empty_stopped :: "'a child_stopped option"

datatype (plugins only: code) ('k, 'v, 'a, 'r) proxy_starting_member =
    CreatingProxy "'k member_role" token "'v operation"
  | WaitingForAuthorization "'k member_role" "'r established_actor" token "'v operation"
  | InputDispatched "'k member_role" creation_id "'r established_actor" token
  | AwaitingProxyOutcome "'k member_role" creation_id "'r established_actor" token
  | ProxyInputRejected "'k member_role" creation_id "'r established_actor" "('v, 'r) input_result"
  | ProxyBirthRejected "'k member_role" token "'v operation" "('v, 'a, 'r) proxy_settlement"

datatype (plugins only: code) ('v, 'r) proxy_stop =
    StopDispatched token
  | StopAccepted token
  | StopRejected "('v, 'r) input_result"

record ('k, 'v, 'a, 'r) proxy_stopping_member =
  exiting_role :: "'k member_role"
  exiting_creation :: creation_id
  exiting_proxy :: "'r established_actor"
  exiting_shutdown :: "('v, 'r) proxy_stop"
  exiting_stopped :: "'a child_stopped option"

record ('k, 'v, 'a, 'r) retired_proxy_member =
  retired_role :: "'k member_role"
  retired_stopped :: "'a child_stopped"
  retired_rejected :: "('r established_actor \<times> ('v, 'r) input_result) option"

section \<open>Recovery\<close>

datatype (plugins only: code) ('k, 'v, 'a, 'r) recovery_participant =
    ParticipantStopped "('k, 'v, 'a, 'r) stopped_member"
  | ParticipantDispatched "'k member_role" creation_id "'r established_actor" token
  | ParticipantAwaiting "'k member_role" creation_id "'r established_actor" token
  | ParticipantOnline "('k, 'v, 'r) online_member"

record ('k, 'v, 'a, 'r) prepared_participant =
  participant_member :: "('k, 'v, 'a, 'r) recovery_participant"
  participant_submission :: "'v submission"

record ('k, 'v, 'a, 'r) preparing_recovery =
  preparing_expected :: preparation_expectation
  preparing_before :: "('k, 'v, 'a, 'r) recovery_participant list"
  preparing_trigger :: "('k, 'v, 'a, 'r) stopped_member"
  preparing_after :: "('k, 'v, 'a, 'r) recovery_participant list"

record ('k, 'v, 'a, 'r) prepared_recovery =
  prepared_before :: "('k, 'v, 'a, 'r) prepared_participant list"
  prepared_trigger :: "('k, 'v, 'a, 'r) stopped_member"
  prepared_trigger_submission :: "'v submission"
  prepared_after :: "('k, 'v, 'a, 'r) prepared_participant list"

datatype (plugins only: code) ('v, 'a, 'r) replacement_response =
    ResponseInputPending token
  | ResponseOutcomePending token
  | ResponseOutcomeReturned "('v, 'a, 'r) replaced"
  | ResponseInputRejected "'v operation" child_input_reason

record ('v, 'a, 'r) worker_replacement =
  replacing_previous :: worker_attempt
  replacing_readiness :: 'v
  replacing_stopped :: "'a child_stopped option"
  replacing_response :: "('v, 'a, 'r) replacement_response"

datatype (plugins only: code) ('k, 'v, 'a, 'r) recovery_member =
    MemberWaiting "('k, 'v, 'a, 'r) recovery_participant" "'v submission"
  | MemberReplacing "'k member_role" creation_id "'r established_actor" "('v, 'a, 'r) worker_replacement"

datatype (plugins only: code) restart_release_state =
    ReleaseReady
  | ReleaseScheduling schedule_key
  | ReleaseWaiting schedule_key

record ('k, 'v, 'a, 'r) recovery_batch =
  batch_ticket :: u64
  batch_trigger :: roster_position
  batch_release :: restart_release_state
  batch_members :: "('k, 'v, 'a, 'r) recovery_member list"

datatype (plugins only: code) ('k, 'v, 'a, 'r) recovery_roster_owner =
    RecoveryPreparing "('k, 'v, 'a, 'r) preparing_recovery"
  | RecoveryAdmitted "('k, 'v, 'a, 'r) recovery_batch"

datatype (plugins only: code) ('k, 'v, 'a, 'r) recovery_completion =
    CompletionRestarted "'k member_role" creation_id "'r established_actor" 'v "'a child_stopped" worker_attempt 'v u64
  | CompletionInputRejected "'k member_role" creation_id "'r established_actor" worker_attempt 'v
      "'a child_stopped option" "'v operation" child_input_reason u64
  | CompletionProxyFailed "'k member_role" creation_id "'r established_actor" worker_attempt 'v
      "'a child_stopped" "('v, 'a, 'r) replaced" u64

section \<open>Ownership of a proxy that stops\<close>

datatype (plugins only: code) ('v, 'a, 'r) proxy_ownership =
    OwnedReady worker_attempt 'v "'v submission option"
  | OwnedWorkerStopped worker_attempt 'v "'a child_stopped option" "'v submission option"
  | OwnedInputCancelled token "'v operation"
  | OwnedInputDispatched token "'v submission option"
  | OwnedOutcomeWaiting token "'v submission option"
  | OwnedOutcomeReceived token "('v, 'a, 'r) outcome" "'v submission option"
  | OwnedInputRejected "('v, 'r) input_result" "'v submission option"
  | OwnedReplacement "('v, 'a, 'r) worker_replacement"
  | OwnedUnavailable

record ('k, 'v, 'a, 'r) unrecovered_member =
  unrecovered_proxy :: "('k, 'v, 'a, 'r) proxy_stopping_member"
  unrecovered_ownership :: "('v, 'a, 'r) proxy_ownership"

datatype (plugins only: code) ('k, 'v, 'a, 'r) roster_owner =
    OwnerStarting "('k, 'v, 'a, 'r) proxy_starting_member"
  | OwnerStopping "('k, 'v, 'a, 'r) proxy_stopping_member"
  | OwnerOnline "('k, 'v, 'r) online_member"
  | OwnerEmpty "('k, 'v, 'a, 'r) empty_member"
  | OwnerRecovery "('k, 'v, 'a, 'r) recovery_roster_owner"
  | OwnerUnrecovered "('k, 'v, 'a, 'r) unrecovered_member"
  | OwnerRetired "('k, 'v, 'a, 'r) retired_proxy_member"

record ('k, 'v, 'a, 'r) unissued_replacements =
  unissued_peers :: "('k, 'v, 'a, 'r) prepared_participant list"
  unissued_trigger :: "('k, 'v, 'a, 'r) empty_member"
  unissued_trigger_submission :: "'v submission"

record ('k, 'v, 'a, 'r) recovery_failure =
  failure_owners :: "('k, 'v, 'a, 'r) roster_owner list"
  failure_replacements :: "('k, 'v, 'a, 'r) unissued_replacements"

section \<open>Shutdown and roster\<close>

datatype (plugins only: code) ('k, 'v, 'a, 'r) fixed_shutdown_member =
    ShutdownAwaitingBirth "'k member_role" token "'v operation"
  | ShutdownProxy "(('k, 'v, 'a, 'r) retired_proxy_member, ('k, 'v, 'a, 'r) proxy_stopping_member) control_flow"
      "('v, 'a, 'r) proxy_ownership" "preparation_expectation option"
  | ShutdownAbsentProxy "'k member_role" token "'v operation" "('v, 'a, 'r) proxy_settlement option"

datatype (plugins only: code) cancelled_recovery =
    CancelledAwaiting schedule_key
  | CancelledReturned schedule_result

record ('k, 'v, 'a, 'r) fixed_shutdown =
  fixed_members :: "('k, 'v, 'a, 'r) fixed_shutdown_member list"
  fixed_unrouted :: "('v, 'a, 'r) proxies_settled option"
  fixed_cancelled :: "cancelled_recovery list"
  fixed_deadline :: shutdown_deadline

datatype (plugins only: code) ('k, 'v, 'a, 'r) fixed_roster =
    RosterNew "('k, 'v) prepared list"
  | RosterOperating "('k, 'v, 'a, 'r) roster_owner list"
  | RosterShuttingDown "('k, 'v, 'a, 'r) fixed_shutdown"
  | RosterTerminating "('k, 'v, 'a, 'r) roster_owner list" "'v submission list"
  | RosterStopped

section \<open>Policy and recovery\<close>

datatype (plugins only: code) strategy = OneForOne | OneForAll | RestForOne

record recovery_policy =
  policy_strategy :: strategy
  policy_limit :: restart_limit
  policy_delay :: restart_release

datatype (plugins only: code) 's recovery_decision = RecoverPermanent 's recovery_policy | RecoverTransient 's recovery_policy | RecoverTemporary

datatype (plugins only: code) failure_reaction = RetireMember | StopSupervisor

datatype (plugins only: code) automatic_eligibility = EligiblePermanent | EligibleTransient

record recovery_settings =
  settings_eligibility :: automatic_eligibility
  settings_strategy :: strategy
  settings_limit :: restart_limit
  settings_release :: restart_release

datatype (plugins only: code) correlation_sequence = CorrelationNext u64 | CorrelationExhausted

record recovery_correlations =
  correlation_recoveries :: correlation_sequence
  correlation_timers :: correlation_sequence

datatype (plugins only: code) ('s, 'k, 'v) preparation_retirement =
    RetirementStart "('s, 'k) preparation_start"
  | RetirementReturned "('s, 'k, 'v) preparation_return"

datatype (plugins only: code) ('s, 'k, 'v) worker_source_custody =
    SourceAvailable 's
  | SourcePreparingWorkers
  | SourceRetirement "('s, 'k, 'v) preparation_retirement"

record ('s, 'k, 'v) automatic_recovery =
  automatic_settings :: recovery_settings
  automatic_source :: "('s, 'k, 'v) worker_source_custody"
  automatic_budget :: restart_budget
  automatic_correlations :: recovery_correlations

datatype (plugins only: code) ('s, 'k, 'v) supervisor_recovery =
    RecoveryAutomatic "('s, 'k, 'v) automatic_recovery"
  | RecoveryTemporary

datatype (plugins only: code) recovery_denial_reason =
    RecoveryTicketsExhausted
  | RestartTimersExhausted
  | DenialLimitReached u32 usize u32
  | DenialClockRegressed instant instant
  | DenialCountExhausted u32
  | DenialReleaseFailed restart_release_failure

section \<open>Protocol\<close>

datatype (plugins only: code) unavailable_phase =
    PhaseCreatingProxy | PhaseWaitingForStartup | PhaseAwaitingProxy | PhaseEmpty | PhaseRecovering
  | PhaseStopping | PhaseRetired

datatype (plugins only: code) 'r member_status =
    MemberCreatingProxy | MemberWaitingForStartup | MemberAwaitingProxy | MemberReady 'r | MemberEmpty
  | MemberRecovering | MemberStopping | MemberRetired

fun phase_status :: "unavailable_phase \<Rightarrow> 'r member_status" where
  "phase_status PhaseCreatingProxy = MemberCreatingProxy"
| "phase_status PhaseWaitingForStartup = MemberWaitingForStartup"
| "phase_status PhaseAwaitingProxy = MemberAwaitingProxy"
| "phase_status PhaseEmpty = MemberEmpty"
| "phase_status PhaseRecovering = MemberRecovering"
| "phase_status PhaseStopping = MemberStopping"
| "phase_status PhaseRetired = MemberRetired"

datatype (plugins only: code) ('k, 'r) capability_result =
    CapabilityReady 'k 'r
  | CapabilityUnavailable 'k unavailable_phase
  | CapabilityUnknownRole 'k

datatype (plugins only: code) ('k, 'q) fixed_command =
    FixedStatus 'q
  | FixedCapability 'k 'q
  | FixedShutdownCommand

section \<open>Lifecycle\<close>

datatype (plugins only: code) ('v, 'a, 'r) fixed_lifecycle_change =
    LifecycleStarted "'r established_actor"
  | LifecycleRestarted "'r established_actor" u64
  | LifecycleStoppedIneligible "'a child_stopped"
  | LifecycleStoppedAfterAdmission "'a child_stopped" u64
  | LifecycleUnavailable 'a proxy_phase 'v
  | LifecycleMemberRetired

record ('k, 'v, 'a, 'r) fixed_lifecycle =
  lifecycle_role :: 'k
  lifecycle_change :: "('v, 'a, 'r) fixed_lifecycle_change"

section \<open>Events, diagnostics, errors and send lanes\<close>

datatype (plugins only: code) ('s, 'k, 'v, 'a, 'r, 'q) fixed_event =
    FixedCommanded "('a, ('k, 'q) fixed_command) user"
  | FixedCreationsSettled "('v, 'a, 'r) proxies_settled"
  | FixedInputSettled "('v, 'r) input_result"
  | FixedReported "('v, 'a, 'r) outcome child_report"
  | FixedDiagnosed "('v, 'v, 'v, 'v, 'v, 'v, 'a, 'r, 'v) proxy_diagnostic child_report"
  | FixedProxyStopped "'a child_stopped"
  | FixedPreparationStarted "('s, 'k) preparation_start"
  | FixedPreparationReturned "('s, 'k, 'v) preparation_return"
  | FixedScheduleSettled schedule_result
  | FixedElapsed "timer_id timer_elapsed"

record ('k, 'v, 'a) unavailable_worker =
  unavailable_role :: 'k
  unavailable_sender :: 'a
  unavailable_in :: proxy_phase
  unavailable_command :: 'v

record ('k, 'v) proxy_input_failure =
  input_failure_role :: 'k
  input_failure_operation :: "'v operation"
  input_failure_reason :: child_input_reason

record 'k restart_schedule_failure =
  schedule_failure_trigger :: 'k
  schedule_failure_request :: "timer_id schedule_after"
  schedule_failure_reason :: schedule_after_rejection

record ('k, 'a) recovery_denied =
  denied_trigger :: 'k
  denied_stopped :: "'a child_stopped"
  denied_reason :: recovery_denial_reason

datatype (plugins only: code) ('k, 'v) preparation_failure_state =
    FailureWorkerRejected "('k, 'v) prepared list" 'k 'v "'k list"
  | FailureSourceRejected 'v "'k list"
  | FailureInterpreterFault interpreter_fault "'k list"
  | FailureUnattempted "'k list"

record ('k, 'v) worker_preparation_failure =
  preparation_failure_trigger :: 'k
  preparation_failure_state :: "('k, 'v) preparation_failure_state"

record ('k, 'v, 'a, 'r) proxy_outcome_failure =
  outcome_failure_role :: 'k
  outcome_failure_outcome :: "('v, 'a, 'r) outcome"

datatype (plugins only: code) ('s, 'k, 'v, 'a, 'r, 'q) fixed_diagnostic =
    ProxyOutcomeFailed "('k, 'v, 'a, 'r) proxy_outcome_failure"
  | ProxyInputFailed "('k, 'v) proxy_input_failure"
  | WorkerPreparationFailed "('k, 'v) worker_preparation_failure"
  | DiagnosedRecoveryDenied "('k, 'a) recovery_denied"
  | RestartScheduleFailed "'k restart_schedule_failure"
  | DiagnosedWorkerUnavailable "('k, 'v, 'a) unavailable_worker"
  | UnexpectedInput "('s, 'k, 'v, 'a, 'r, 'q) fixed_event"

datatype (plugins only: code) ('s, 'k, 'v, 'a, 'r, 'q) fixed_error =
    InitializationUnavailable
  | ProxyCreationsExhausted "('k, 'v) prepared list"
  | ProxyCreationRejected "('v, 'a, 'r) proxies_settled"
  | InputRejected "('s, 'k, 'v, 'a, 'r, 'q) fixed_event"
  | RosterStateRejected "('k, 'v) prepared list"
  | AuthorizationStateRejected usize usize
  | OperatingStateRejected
  | InitialOutcomeContradiction "('v, 'a, 'r) outcome child_report"

record ('s, 'k, 'v, 'a, 'r, 'q) fixed_requests =
  proxy_observations :: "creation_id list"
  worker_preparations :: "('s, 'k) prepare_workers list"
  proxy_operations :: "'v operation list"
  restart_schedules :: "timer_id schedule_after list"
  lifecycle_sends :: "('q, ('k, 'v, 'a, 'r) fixed_lifecycle) delivery list"
  status_replies :: "('q, 'r member_status list) delivery list"
  capability_replies :: "('q, ('k, 'r) capability_result) delivery list"
  fixed_diagnostics :: "('q, ('s, 'k, 'v, 'a, 'r, 'q) fixed_diagnostic) diagnostic_action list"

definition no_requests :: "('s, 'k, 'v, 'a, 'r, 'q) fixed_requests" where
  "no_requests = \<lparr>proxy_observations = [], worker_preparations = [], proxy_operations = [], restart_schedules = [],
     lifecycle_sends = [], status_replies = [], capability_replies = [], fixed_diagnostics = []\<rparr>"

type_synonym ('s, 'k, 'v, 'a, 'r, 'q) fixed_actions =
  "(('s, 'k, 'v, 'a, 'r, 'q) fixed_requests, ('v, 'a, 'r) proxy_child create_child, never) actions"

section \<open>The supervisor\<close>

record ('s, 'k, 'v, 'a, 'r, 'q) fixed_supervisor =
  fixed_roster :: "('k, 'v, 'a, 'r) fixed_roster"
  fixed_creations :: creation_sequence
  fixed_startup :: startup_limit
  fixed_recovery :: "('s, 'k, 'v) supervisor_recovery"
  fixed_reaction :: failure_reaction
  fixed_drain :: actor_drain_policy
  fixed_disposition :: "'q diagnostic_disposition"
  fixed_lifecycle_route :: "'q option"

record ('s, 'q) fixed_config =
  config_startup :: startup_limit
  config_recovery :: "'s recovery_decision"
  config_failure :: failure_reaction
  config_shutdown :: actor_drain_policy
  config_diagnostics :: "'q diagnostic_disposition"

end
