(* ===== verification/Roster_Members.thy ===== *)
theory Roster_Members
  imports Roster_State
begin

text \<open>
  The members of a fixed supervisor one by one: a proxy that starts (\<^verbatim>\<open>proxy/start.rs\<close>,
  \<^verbatim>\<open>proxy/outcome.rs\<close>) or stops (\<^verbatim>\<open>proxy/stop.rs\<close>), a member whose worker stopped
  (\<^verbatim>\<open>recovery/stop.rs\<close>), the participants of a recovery, their replacements and the batch that holds
  them (\<^verbatim>\<open>recovery/mod.rs\<close>), and the statuses they show (\<^verbatim>\<open>member.rs\<close>).

  \<^verbatim>\<open>Result<_, (Self, X)>\<close> returns what was offered beside the member that refused it: the left of a
  sum. Loops that offer an input to one owner after the other are \<open>offer_each\<close>.
\<close>

section \<open>Positions in a vector\<close>

definition insert_at :: "nat \<Rightarrow> 'x \<Rightarrow> 'x list \<Rightarrow> 'x list" where
  "insert_at i x xs = take i xs @ x # drop i xs"

fun find_map :: "('x \<Rightarrow> 'y option) \<Rightarrow> 'x list \<Rightarrow> 'y option" where
  "find_map f [] = None"
| "find_map f (x # xs) = (case f x of Some y \<Rightarrow> Some y | None \<Rightarrow> find_map f xs)"

text \<open>The owners before the one that accepts, what it answers, and the owners behind it.\<close>

fun offer_each :: "('o \<Rightarrow> 'x \<Rightarrow> 'o \<times> 'x + 'y) \<Rightarrow> 'o list \<Rightarrow> 'o list \<Rightarrow> 'x
    \<Rightarrow> ('o list \<times> 'x) + ('o list \<times> 'y \<times> 'o list)" where
  "offer_each f examined [] x = Inl (examined, x)"
| "offer_each f examined (own # owners) x = (case f own x of
      Inr y \<Rightarrow> Inr (examined, y, owners)
    | Inl (own', x') \<Rightarrow> offer_each f (examined @ [own']) owners x')"

section \<open>A proxy that stops\<close>

definition exiting_begin :: "heap \<Rightarrow> 'k member_role \<Rightarrow> creation_id \<Rightarrow> 'r established_actor
    \<Rightarrow> heap \<times> ('k, 'v, 'a, 'r) proxy_stopping_member \<times> 'v operation" where
  "exiting_begin h role creation proxy = (let (h', witness, operation) = operation_shutdown h creation in
     (h', \<lparr>exiting_role = role, exiting_creation = creation, exiting_proxy = proxy,
           exiting_shutdown = StopDispatched witness, exiting_stopped = None\<rparr>, operation))"

definition exiting_finish :: "('k, 'v, 'a, 'r) proxy_stopping_member
    \<Rightarrow> (('k, 'v, 'a, 'r) retired_proxy_member, ('k, 'v, 'a, 'r) proxy_stopping_member) control_flow" where
  "exiting_finish m = (case (exiting_shutdown m, exiting_stopped m) of
      (StopAccepted operation, Some stopped) \<Rightarrow> FlowBreak
        \<lparr>retired_role = exiting_role m, retired_stopped = stopped, retired_rejected = None\<rparr>
    | (StopRejected input, Some stopped) \<Rightarrow> FlowBreak
        \<lparr>retired_role = exiting_role m, retired_stopped = stopped, retired_rejected = Some (exiting_proxy m, input)\<rparr>
    | _ \<Rightarrow> FlowContinue m)"

definition exiting_accept_operation :: "('k, 'v, 'a, 'r) proxy_stopping_member \<Rightarrow> ('v, 'r) input_result
    \<Rightarrow> ('k, 'v, 'a, 'r) proxy_stopping_member \<times> ('v, 'r) input_result
       + (('k, 'v, 'a, 'r) retired_proxy_member, ('k, 'v, 'a, 'r) proxy_stopping_member) control_flow" where
  "exiting_accept_operation m settlement = (case exiting_shutdown m of
      StopDispatched witness \<Rightarrow> (case witness_admit witness settlement of
          Inl settlement \<Rightarrow> Inl (m, settlement)
        | Inr input \<Rightarrow> Inr (exiting_finish (case input of
              Attempted (ItemAccepted receipt) \<Rightarrow>
                (if receipt_creation receipt = exiting_creation m
                 then (let (creation, proxy, operation) = receipt_into_parts receipt in
                   m\<lparr>exiting_proxy := proxy, exiting_shutdown := StopAccepted operation\<rparr>)
                 else m\<lparr>exiting_shutdown := StopRejected input\<rparr>)
            | _ \<Rightarrow> m\<lparr>exiting_shutdown := StopRejected input\<rparr>)))
    | _ \<Rightarrow> Inl (m, settlement))"

definition exiting_accepts_child :: "('k, 'v, 'a, 'r) proxy_stopping_member \<Rightarrow> creation_id \<Rightarrow> bool" where
  "exiting_accepts_child m child \<longleftrightarrow> exiting_creation m = child"

definition exiting_accepts_stop :: "('k, 'v, 'a, 'r) proxy_stopping_member \<Rightarrow> 'a child_stopped \<Rightarrow> bool" where
  "exiting_accepts_stop m stopped \<longleftrightarrow> exiting_accepts_child m (stopped_child stopped)"

definition exiting_accept_stop :: "('k, 'v, 'a, 'r) proxy_stopping_member \<Rightarrow> 'a child_stopped
    \<Rightarrow> ('k, 'v, 'a, 'r) proxy_stopping_member \<times> 'a child_stopped
       + (('k, 'v, 'a, 'r) retired_proxy_member, ('k, 'v, 'a, 'r) proxy_stopping_member) control_flow" where
  "exiting_accept_stop m stopped = (case exiting_stopped m of
      None \<Rightarrow> Inr (exiting_finish (m\<lparr>exiting_stopped := Some stopped\<rparr>))
    | Some current \<Rightarrow> Inl (m, stopped))"

definition exiting_live_role :: "('k, 'v, 'a, 'r) proxy_stopping_member \<Rightarrow> creation_id \<Rightarrow> 'k option" where
  "exiting_live_role m child = (case exiting_stopped m of
      None \<Rightarrow> if child = exiting_creation m then Some (role_name (exiting_role m)) else None
    | Some stopped \<Rightarrow> None)"

definition retired_accepts_child :: "('k, 'v, 'a, 'r) retired_proxy_member \<Rightarrow> creation_id \<Rightarrow> bool" where
  "retired_accepts_child m child \<longleftrightarrow> stopped_child (retired_stopped m) = child"

section \<open>A proxy that starts\<close>

fun starting_role_phase :: "('k, 'v, 'a, 'r) proxy_starting_member \<Rightarrow> 'k member_role \<times> unavailable_phase" where
  "starting_role_phase (CreatingProxy role witness operation) = (role, PhaseCreatingProxy)"
| "starting_role_phase (ProxyBirthRejected role witness operation settlement) = (role, PhaseCreatingProxy)"
| "starting_role_phase (WaitingForAuthorization role proxy witness operation) = (role, PhaseWaitingForStartup)"
| "starting_role_phase (InputDispatched role creation proxy witness) = (role, PhaseAwaitingProxy)"
| "starting_role_phase (AwaitingProxyOutcome role creation proxy operation) = (role, PhaseAwaitingProxy)"
| "starting_role_phase (ProxyInputRejected role creation proxy settlement) = (role, PhaseAwaitingProxy)"

definition starting_role :: "('k, 'v, 'a, 'r) proxy_starting_member \<Rightarrow> 'k member_role" where
  "starting_role m = fst (starting_role_phase m)"

fun starting_live_role :: "('k, 'v, 'a, 'r) proxy_starting_member \<Rightarrow> creation_id \<Rightarrow> 'k option" where
  "starting_live_role (WaitingForAuthorization role proxy witness operation) child =
     (if operation_creation operation = child then Some (role_name role) else None)"
| "starting_live_role (InputDispatched role creation proxy witness) child =
     (if creation = child then Some (role_name role) else None)"
| "starting_live_role (AwaitingProxyOutcome role creation proxy operation) child =
     (if creation = child then Some (role_name role) else None)"
| "starting_live_role (ProxyInputRejected role creation proxy settlement) child =
     (if creation = child then Some (role_name role) else None)"
| "starting_live_role (CreatingProxy role witness operation) child = None"
| "starting_live_role (ProxyBirthRejected role witness operation settlement) child = None"

fun starting_awaits_birth :: "('k, 'v, 'a, 'r) proxy_starting_member \<Rightarrow> creation_id \<Rightarrow> bool" where
  "starting_awaits_birth (CreatingProxy role witness operation) creation \<longleftrightarrow> operation_creation operation = creation"
| "starting_awaits_birth m creation \<longleftrightarrow> False"

fun starting_into_creating :: "('k, 'v, 'a, 'r) proxy_starting_member
    \<Rightarrow> ('k, 'v, 'a, 'r) proxy_starting_member + 'k member_role \<times> token \<times> 'v operation" where
  "starting_into_creating (CreatingProxy role witness operation) = Inr (role, witness, operation)"
| "starting_into_creating m = Inl m"

definition proxy_created :: "'k member_role \<Rightarrow> token \<Rightarrow> 'v operation \<Rightarrow> ('v, 'a, 'r) proxy_settlement
    \<Rightarrow> ('k, 'v, 'a, 'r) proxy_starting_member" where
  "proxy_created role witness operation settlement = (case resolve_proxy_creation settlement of
      ProxyCommitted proxy \<Rightarrow> WaitingForAuthorization role proxy witness operation
    | ProxyNotCommitted settlement \<Rightarrow> ProxyBirthRejected role witness operation settlement)"

fun starting_authorization_count :: "('k, 'v, 'a, 'r) proxy_starting_member \<Rightarrow> usize" where
  "starting_authorization_count (InputDispatched role creation proxy witness) = 1"
| "starting_authorization_count (AwaitingProxyOutcome role creation proxy operation) = 1"
| "starting_authorization_count m = 0"

fun starting_accept_operation :: "('k, 'v, 'a, 'r) proxy_starting_member \<Rightarrow> ('v, 'r) input_result
    \<Rightarrow> ('k, 'v, 'a, 'r) proxy_starting_member \<times> ('v, 'r) input_result + ('k, 'v, 'a, 'r) proxy_starting_member" where
  "starting_accept_operation (InputDispatched role creation proxy witness) settlement =
     (case witness_admit witness settlement of
        Inr settlement \<Rightarrow> Inr (case settlement of
            Attempted (ItemAccepted accepted) \<Rightarrow> (let (creation, proxy, operation) = receipt_into_parts accepted in
              AwaitingProxyOutcome role creation proxy operation)
          | _ \<Rightarrow> ProxyInputRejected role creation proxy settlement)
      | Inl settlement \<Rightarrow> Inl (InputDispatched role creation proxy witness, settlement))"
| "starting_accept_operation m settlement = Inl (m, settlement)"

section \<open>A member whose worker stopped\<close>

definition halted_live_role :: "('k, 'v, 'a, 'r) stopped_member \<Rightarrow> creation_id \<Rightarrow> 'k option" where
  "halted_live_role m child = (if halted_creation m = child then Some (role_name (halted_role m)) else None)"

definition into_empty :: "('k, 'v, 'a, 'r) stopped_member \<Rightarrow> ('k, 'v, 'a, 'r) empty_member \<times> 'a child_stopped" where
  "into_empty m = (\<lparr>empty_role = halted_role m, empty_creation = halted_creation m, empty_proxy = halted_proxy m,
     empty_worker = halted_worker m, empty_readiness = halted_readiness m, empty_stopped = None\<rparr>, halted_stopped m)"

definition retain_stop :: "('k, 'v, 'a, 'r) stopped_member \<Rightarrow> ('k, 'v, 'a, 'r) empty_member" where
  "retain_stop m = (let (member, stopped) = into_empty m in member\<lparr>empty_stopped := Some stopped\<rparr>)"

definition empty_live_role :: "('k, 'v, 'a, 'r) empty_member \<Rightarrow> creation_id \<Rightarrow> 'k option" where
  "empty_live_role m child = (if empty_creation m = child then Some (role_name (empty_role m)) else None)"

definition retire_prepared_worker :: "heap \<Rightarrow> ('k, 'v, 'a, 'r) empty_member \<Rightarrow> 'v submission
    \<Rightarrow> heap \<times> ('k, 'v, 'a, 'r) proxy_stopping_member \<times> ('v, 'a, 'r) proxy_ownership \<times> 'v operation" where
  "retire_prepared_worker h m prepared =
     (let (h', proxy, operation) = exiting_begin h (empty_role m) (empty_creation m) (empty_proxy m) in
      (h', proxy, OwnedWorkerStopped (empty_worker m) (empty_readiness m) (empty_stopped m) (Some prepared), operation))"

section \<open>An unrecovered member\<close>

definition unrecovered_begin :: "heap \<Rightarrow> ('k, 'v, 'a, 'r) stopped_member
    \<Rightarrow> heap \<times> ('k, 'v, 'a, 'r) unrecovered_member \<times> 'v operation" where
  "unrecovered_begin h m = (let (h', proxy, operation) = exiting_begin h (halted_role m) (halted_creation m) (halted_proxy m) in
     (h', \<lparr>unrecovered_proxy = proxy, unrecovered_ownership =
        OwnedWorkerStopped (halted_worker m) (halted_readiness m) (Some (halted_stopped m)) None\<rparr>, operation))"

definition begin_replacement_failure :: "heap \<Rightarrow> 'k member_role \<Rightarrow> creation_id \<Rightarrow> 'r established_actor \<Rightarrow> worker_attempt
    \<Rightarrow> 'v \<Rightarrow> 'a child_stopped option \<Rightarrow> heap \<times> ('k, 'v, 'a, 'r) unrecovered_member \<times> 'v operation" where
  "begin_replacement_failure h role creation proxy worker readiness stopped =
     (let ownership = (case stopped of
            Some stopped \<Rightarrow> OwnedWorkerStopped worker readiness (Some stopped) None
          | None \<Rightarrow> OwnedReady worker readiness None);
          (h', proxy, operation) = exiting_begin h role creation proxy
      in (h', \<lparr>unrecovered_proxy = proxy, unrecovered_ownership = ownership\<rparr>, operation))"

definition begin_after_worker_stop_transfer :: "heap \<Rightarrow> 'k member_role \<Rightarrow> creation_id \<Rightarrow> 'r established_actor
    \<Rightarrow> heap \<times> ('k, 'v, 'a, 'r) unrecovered_member \<times> 'v operation" where
  "begin_after_worker_stop_transfer h role creation proxy =
     (let (h', proxy, operation) = exiting_begin h role creation proxy in
      (h', \<lparr>unrecovered_proxy = proxy, unrecovered_ownership = OwnedUnavailable\<rparr>, operation))"

definition unrecovered_accept_operation :: "('k, 'v, 'a, 'r) unrecovered_member \<Rightarrow> ('v, 'r) input_result
    \<Rightarrow> ('k, 'v, 'a, 'r) unrecovered_member \<times> ('v, 'r) input_result
       + (('k, 'v, 'a, 'r) retired_proxy_member, ('k, 'v, 'a, 'r) unrecovered_member) control_flow" where
  "unrecovered_accept_operation m settlement = (case exiting_accept_operation (unrecovered_proxy m) settlement of
      Inr (FlowContinue proxy) \<Rightarrow> Inr (FlowContinue (m\<lparr>unrecovered_proxy := proxy\<rparr>))
    | Inr (FlowBreak gone) \<Rightarrow> Inr (FlowBreak gone)
    | Inl (proxy, settlement) \<Rightarrow> Inl (m\<lparr>unrecovered_proxy := proxy\<rparr>, settlement))"

definition unrecovered_accept_stop :: "('k, 'v, 'a, 'r) unrecovered_member \<Rightarrow> 'a child_stopped
    \<Rightarrow> ('k, 'v, 'a, 'r) unrecovered_member \<times> 'a child_stopped
       + (('k, 'v, 'a, 'r) retired_proxy_member, ('k, 'v, 'a, 'r) unrecovered_member) control_flow" where
  "unrecovered_accept_stop m stopped = (case exiting_accept_stop (unrecovered_proxy m) stopped of
      Inr (FlowContinue proxy) \<Rightarrow> Inr (FlowContinue (m\<lparr>unrecovered_proxy := proxy\<rparr>))
    | Inr (FlowBreak gone) \<Rightarrow> Inr (FlowBreak gone)
    | Inl (proxy, stopped) \<Rightarrow> Inl (m\<lparr>unrecovered_proxy := proxy\<rparr>, stopped))"

end
