(* ===== verification/Roster_Recovery.thy ===== *)
theory Roster_Recovery
  imports Roster_Members
begin

text \<open>
  The recovery of members (\<^verbatim>\<open>supervisor/roster/recovery/\<close>, \<^verbatim>\<open>restart/admission.rs\<close>): correlations of
  recoveries and timers, the choice a supervisor makes when a worker stops, the participants of a
  recovery while their workers are prepared, the admitted batch with its release, and the
  replacement of one worker until the proxy answers.
\<close>

section \<open>Correlations\<close>

text \<open>\<^verbatim>\<open>NonZeroU64\<close> numbers are words, positive by the invariant that they start at one and never wrap.\<close>

record proposed_correlation =
  proposed_issued :: u64
  proposed_successor :: correlation_sequence

definition correlation_new :: correlation_sequence where
  "correlation_new = CorrelationNext 1"

fun correlation_propose :: "correlation_sequence \<Rightarrow> correlation_sequence + proposed_correlation" where
  "correlation_propose (CorrelationNext next) = Inr \<lparr>proposed_issued = next, proposed_successor =
     (case checked_add next 1 of Some successor \<Rightarrow> CorrelationNext successor | None \<Rightarrow> CorrelationExhausted)\<rparr>"
| "correlation_propose CorrelationExhausted = Inl CorrelationExhausted"

definition correlation_accept :: "proposed_correlation \<Rightarrow> correlation_sequence \<times> u64" where
  "correlation_accept p = (proposed_successor p, proposed_issued p)"

definition correlation_decline :: "proposed_correlation \<Rightarrow> correlation_sequence" where
  "correlation_decline p = CorrelationNext (proposed_issued p)"

definition correlations_new :: recovery_correlations where
  "correlations_new = \<lparr>correlation_recoveries = correlation_new, correlation_timers = correlation_new\<rparr>"

datatype recovery_timer = TimerImmediate | TimerDelayed schedule_key

record recovery_ticket_proposal =
  ticket_recovery :: proposed_correlation
  ticket_timers :: correlation_sequence

datatype recovery_timing_proposal =
    TimingImmediate proposed_correlation correlation_sequence
  | TimingDelayed proposed_correlation proposed_correlation duration

record accepted_correlations =
  accepted_correlations :: recovery_correlations
  accepted_recovery :: u64
  accepted_timer :: recovery_timer
  accepted_schedule :: "timer_id schedule_after option"

record correlation_denial =
  denial_unchanged :: recovery_correlations
  denial_reason :: recovery_denial_reason

definition propose_recovery :: "recovery_correlations \<Rightarrow> correlation_denial + recovery_ticket_proposal" where
  "propose_recovery c = (case correlation_propose (correlation_recoveries c) of
      Inr recovery \<Rightarrow> Inr \<lparr>ticket_recovery = recovery, ticket_timers = correlation_timers c\<rparr>
    | Inl recoveries \<Rightarrow> Inl \<lparr>denial_unchanged = c\<lparr>correlation_recoveries := recoveries\<rparr>,
        denial_reason = RecoveryTicketsExhausted\<rparr>)"

definition ticket_decline :: "recovery_ticket_proposal \<Rightarrow> recovery_correlations" where
  "ticket_decline t = \<lparr>correlation_recoveries = correlation_decline (ticket_recovery t), correlation_timers = ticket_timers t\<rparr>"

definition select_release :: "recovery_ticket_proposal \<Rightarrow> recovery_release \<Rightarrow> correlation_denial + recovery_timing_proposal" where
  "select_release t release = (case release of
      Immediate \<Rightarrow> Inr (TimingImmediate (ticket_recovery t) (ticket_timers t))
    | Delayed after \<Rightarrow> (case correlation_propose (ticket_timers t) of
          Inr timer \<Rightarrow> Inr (TimingDelayed (ticket_recovery t) timer after)
        | Inl timers \<Rightarrow> Inl \<lparr>denial_unchanged = ticket_decline (t\<lparr>ticket_timers := timers\<rparr>),
            denial_reason = RestartTimersExhausted\<rparr>))"

fun timing_accept :: "recovery_timing_proposal \<Rightarrow> accepted_correlations" where
  "timing_accept (TimingImmediate recovery timers) = (let (recoveries, recovery) = correlation_accept recovery in
     \<lparr>accepted_correlations = \<lparr>correlation_recoveries = recoveries, correlation_timers = timers\<rparr>,
      accepted_recovery = recovery, accepted_timer = TimerImmediate, accepted_schedule = None\<rparr>)"
| "timing_accept (TimingDelayed recovery timer after) = (let (recoveries, recovery) = correlation_accept recovery;
       (timers, timer) = correlation_accept timer; key = \<lparr>key_id = timer, key_generation = 0\<rparr> in
     \<lparr>accepted_correlations = \<lparr>correlation_recoveries = recoveries, correlation_timers = timers\<rparr>,
      accepted_recovery = recovery, accepted_timer = TimerDelayed key, accepted_schedule = Some (key_after key after)\<rparr>)"

section \<open>Admission of a restart\<close>

fun denial_of :: "restart_denial \<Rightarrow> recovery_denial_reason" where
  "denial_of (RestartLimitReached active asked maximum) = DenialLimitReached active asked maximum"
| "denial_of (ClockRegressed previous observed) = DenialClockRegressed previous observed"
| "denial_of (RecoveryCountExhausted admitted) = DenialCountExhausted admitted"
| "denial_of (ReleaseCalculationFailed reason) = DenialReleaseFailed reason"

datatype roster_restart_admission = RosterRestartProposed restart_proposal | RosterRestartDenied restart_budget recovery_denial_reason

text \<open>\<open>None\<close> is the panic of the shared admission; \<open>lowest\<close> is the least instant of the platform.\<close>

definition roster_admit_restart :: "instant \<Rightarrow> 'k member_role \<Rightarrow> restart_budget \<Rightarrow> restart_limit \<Rightarrow> restart_release
    \<Rightarrow> instant \<Rightarrow> usize \<Rightarrow> roster_restart_admission option" where
  "roster_admit_restart lowest role budget limit release observed n =
     (case admit_restart lowest (role_recoveries role) budget limit release observed n of
        None \<Rightarrow> None
      | Some (Proposed proposal) \<Rightarrow> Some (RosterRestartProposed proposal)
      | Some (Denied budget reason) \<Rightarrow> Some (RosterRestartDenied budget (denial_of reason)))"

section \<open>The choice of a supervisor\<close>

record 's recovery_preparation =
  choice_settings :: recovery_settings
  choice_source :: 's
  choice_budget :: restart_budget
  choice_correlations :: recovery_correlations

record awaiting_worker_source =
  awaiting_settings :: recovery_settings
  awaiting_budget :: restart_budget
  awaiting_correlations :: recovery_correlations

datatype (plugins only: code) ('s, 'k, 'v) recovery_choice =
    ChoiceLeaveEmpty "('s, 'k, 'v) supervisor_recovery"
  | ChoiceSourceUnavailable "('s, 'k, 'v) supervisor_recovery"
  | ChoicePrepare "'s recovery_preparation"

definition automatic_new :: "automatic_eligibility \<Rightarrow> 's \<Rightarrow> recovery_policy \<Rightarrow> ('s, 'k, 'v) supervisor_recovery" where
  "automatic_new eligibility source policy = RecoveryAutomatic \<lparr>automatic_settings =
     \<lparr>settings_eligibility = eligibility, settings_strategy = policy_strategy policy,
      settings_limit = policy_limit policy, settings_release = policy_delay policy\<rparr>,
     automatic_source = SourceAvailable source, automatic_budget = [], automatic_correlations = correlations_new\<rparr>"

fun recovery_from :: "'s recovery_decision \<Rightarrow> ('s, 'k, 'v) supervisor_recovery" where
  "recovery_from (RecoverPermanent source policy) = automatic_new EligiblePermanent source policy"
| "recovery_from (RecoverTransient source policy) = automatic_new EligibleTransient source policy"
| "recovery_from RecoverTemporary = RecoveryTemporary"

fun recovery_choose :: "('s, 'k, 'v) supervisor_recovery \<Rightarrow> stop_kind \<Rightarrow> ('s, 'k, 'v) recovery_choice" where
  "recovery_choose RecoveryTemporary stop = ChoiceLeaveEmpty RecoveryTemporary"
| "recovery_choose (RecoveryAutomatic recovery) stop =
     (if settings_eligibility (automatic_settings recovery) = EligibleTransient \<and> stop = StopNormal
      then ChoiceLeaveEmpty (RecoveryAutomatic recovery)
      else case automatic_source recovery of
          SourceAvailable source \<Rightarrow> ChoicePrepare \<lparr>choice_settings = automatic_settings recovery, choice_source = source,
            choice_budget = automatic_budget recovery, choice_correlations = automatic_correlations recovery\<rparr>
        | _ \<Rightarrow> ChoiceSourceUnavailable (RecoveryAutomatic recovery))"

definition expect_source :: "('s, 'k, 'v) supervisor_recovery \<Rightarrow> ('s, 'k, 'v) supervisor_recovery + awaiting_worker_source" where
  "expect_source state = (case state of
      RecoveryAutomatic recovery \<Rightarrow> (case automatic_source recovery of
          SourcePreparingWorkers \<Rightarrow> Inr \<lparr>awaiting_settings = automatic_settings recovery,
            awaiting_budget = automatic_budget recovery, awaiting_correlations = automatic_correlations recovery\<rparr>
        | _ \<Rightarrow> Inl state)
    | RecoveryTemporary \<Rightarrow> Inl state)"

definition awaiting_with :: "awaiting_worker_source \<Rightarrow> ('s, 'k, 'v) worker_source_custody \<Rightarrow> ('s, 'k, 'v) supervisor_recovery" where
  "awaiting_with w custody = RecoveryAutomatic \<lparr>automatic_settings = awaiting_settings w, automatic_source = custody,
     automatic_budget = awaiting_budget w, automatic_correlations = awaiting_correlations w\<rparr>"

definition awaiting_waiting :: "awaiting_worker_source \<Rightarrow> ('s, 'k, 'v) supervisor_recovery" where
  "awaiting_waiting w = awaiting_with w SourcePreparingWorkers"

definition awaiting_restore :: "awaiting_worker_source \<Rightarrow> 's \<Rightarrow> ('s, 'k, 'v) supervisor_recovery" where
  "awaiting_restore w source = awaiting_with w (SourceAvailable source)"

definition retain_for_retirement :: "awaiting_worker_source \<Rightarrow> ('s, 'k, 'v) preparation_retirement \<Rightarrow> ('s, 'k, 'v) supervisor_recovery" where
  "retain_for_retirement w returned = awaiting_with w (SourceRetirement returned)"

definition available_recovery :: "recovery_settings \<Rightarrow> 's \<Rightarrow> restart_budget \<Rightarrow> recovery_correlations \<Rightarrow> ('s, 'k, 'v) supervisor_recovery" where
  "available_recovery settings source budget correlations = RecoveryAutomatic \<lparr>automatic_settings = settings,
     automatic_source = SourceAvailable source, automatic_budget = budget, automatic_correlations = correlations\<rparr>"

definition choice_restore :: "'s recovery_preparation \<Rightarrow> ('s, 'k, 'v) supervisor_recovery" where
  "choice_restore p = RecoveryAutomatic \<lparr>automatic_settings = choice_settings p, automatic_source = SourceAvailable (choice_source p),
     automatic_budget = choice_budget p, automatic_correlations = choice_correlations p\<rparr>"

definition choice_begin :: "heap \<Rightarrow> 's recovery_preparation \<Rightarrow> 'k \<Rightarrow> 'k list
    \<Rightarrow> heap \<times> ('s, 'k, 'v) supervisor_recovery \<times> preparation_ticket \<times> ('s, 'k) prepare_workers" where
  "choice_begin h p first remaining = (let (h', expected, request) = prepare_workers_new h (choice_source p) first remaining in
     (h', RecoveryAutomatic \<lparr>automatic_settings = choice_settings p, automatic_source = SourcePreparingWorkers,
        automatic_budget = choice_budget p, automatic_correlations = choice_correlations p\<rparr>, expected, request))"

datatype recovery_retirement = RetirementReady | RetirementWaitingForSource

definition retirement_of :: "('s, 'k, 'v) supervisor_recovery \<Rightarrow> recovery_retirement" where
  "retirement_of state = (case state of
      RecoveryAutomatic recovery \<Rightarrow> (case automatic_source recovery of
          SourcePreparingWorkers \<Rightarrow> RetirementWaitingForSource | _ \<Rightarrow> RetirementReady)
    | RecoveryTemporary \<Rightarrow> RetirementReady)"

section \<open>Participants\<close>

fun participant_role :: "('k, 'v, 'a, 'r) recovery_participant \<Rightarrow> 'k member_role" where
  "participant_role (ParticipantStopped m) = halted_role m"
| "participant_role (ParticipantDispatched role creation proxy witness) = role"
| "participant_role (ParticipantAwaiting role creation proxy operation) = role"
| "participant_role (ParticipantOnline m) = online_role m"

fun participant_creation :: "('k, 'v, 'a, 'r) recovery_participant \<Rightarrow> creation_id" where
  "participant_creation (ParticipantStopped m) = halted_creation m"
| "participant_creation (ParticipantDispatched role creation proxy witness) = creation"
| "participant_creation (ParticipantAwaiting role creation proxy operation) = creation"
| "participant_creation (ParticipantOnline m) = online_creation m"

definition participant_live_role :: "('k, 'v, 'a, 'r) recovery_participant \<Rightarrow> creation_id \<Rightarrow> 'k option" where
  "participant_live_role p child = (if participant_creation p = child then Some (role_name (participant_role p)) else None)"

fun participant_select :: "('k, 'v, 'a, 'r) roster_owner \<Rightarrow> ('k, 'v, 'a, 'r) roster_owner + ('k, 'v, 'a, 'r) recovery_participant" where
  "participant_select (OwnerStarting (InputDispatched role creation proxy witness)) =
     Inr (ParticipantDispatched role creation proxy witness)"
| "participant_select (OwnerStarting (AwaitingProxyOutcome role creation proxy operation)) =
     Inr (ParticipantAwaiting role creation proxy operation)"
| "participant_select (OwnerOnline m) = Inr (ParticipantOnline m)"
| "participant_select own = Inl own"

fun participant_release :: "('k, 'v, 'a, 'r) recovery_participant \<Rightarrow> ('k, 'v, 'a, 'r) roster_owner" where
  "participant_release (ParticipantStopped m) = OwnerEmpty (retain_stop m)"
| "participant_release (ParticipantDispatched role creation proxy witness) =
     OwnerStarting (InputDispatched role creation proxy witness)"
| "participant_release (ParticipantAwaiting role creation proxy operation) =
     OwnerStarting (AwaitingProxyOutcome role creation proxy operation)"
| "participant_release (ParticipantOnline m) = OwnerOnline m"

fun into_stopped :: "('k, 'v, 'a, 'r) recovery_participant
    \<Rightarrow> ('k, 'v, 'a, 'r) recovery_participant + ('k, 'v, 'a, 'r) stopped_member" where
  "into_stopped (ParticipantStopped m) = Inr m"
| "into_stopped p = Inl p"

fun select_peers_from :: "('k, 'v, 'a, 'r) recovery_participant list \<Rightarrow> ('k, 'v, 'a, 'r) roster_owner list
    \<Rightarrow> ('k, 'v, 'a, 'r) roster_owner list + ('k, 'v, 'a, 'r) recovery_participant list" where
  "select_peers_from selected [] = Inr selected"
| "select_peers_from selected (own # remaining) = (case participant_select own of
      Inr participant \<Rightarrow> select_peers_from (selected @ [participant]) remaining
    | Inl own \<Rightarrow> Inl (map participant_release selected @ [own] @ remaining))"

definition select_recovery_peers :: "('k, 'v, 'a, 'r) roster_owner list
    \<Rightarrow> ('k, 'v, 'a, 'r) roster_owner list + ('k, 'v, 'a, 'r) recovery_participant list" where
  "select_recovery_peers owners = select_peers_from [] owners"

definition participant_admit :: "('k, 'v, 'a, 'r) prepared_participant \<Rightarrow> ('k, 'v, 'a, 'r) recovery_member" where
  "participant_admit p = MemberWaiting (participant_member p) (participant_submission p)"

definition participant_cancel :: "('k, 'v, 'a, 'r) prepared_participant \<Rightarrow> ('k, 'v, 'a, 'r) roster_owner" where
  "participant_cancel p = participant_release (participant_member p)"

section \<open>One replacement\<close>

definition replacement_accept_operation :: "('v, 'a, 'r) worker_replacement \<Rightarrow> ('v, 'r) input_result
    \<Rightarrow> ('v, 'a, 'r) worker_replacement \<times> ('v, 'r) input_result + ('v, 'a, 'r) worker_replacement" where
  "replacement_accept_operation replacement settlement = (case replacing_response replacement of
      ResponseInputPending witness \<Rightarrow> (case settlement of
          Attempted (ItemAccepted receipt) \<Rightarrow> (case admit_receipt witness receipt of
              Inr receipt \<Rightarrow> (let (creation, proxy, operation) = receipt_into_parts receipt in
                Inr (replacement\<lparr>replacing_response := ResponseOutcomePending operation\<rparr>))
            | Inl receipt \<Rightarrow> Inl (replacement, Attempted (ItemAccepted receipt)))
        | Attempted (ItemRejected operation reason) \<Rightarrow> (case admit_rejection witness operation reason of
              Inr (operation, reason) \<Rightarrow> Inr (replacement\<lparr>replacing_response := ResponseInputRejected operation reason\<rparr>)
            | Inl (operation, reason) \<Rightarrow> Inl (replacement, Attempted (ItemRejected operation reason)))
        | _ \<Rightarrow> Inl (replacement, settlement))
    | _ \<Rightarrow> Inl (replacement, settlement))"

fun replaced_worker :: "('v, 'a, 'r) replaced \<Rightarrow> worker_attempt option" where
  "replaced_worker (NotReplaceable worker plan phase) = None"
| "replaced_worker (ReplacementAttemptsExhausted replaces worker plan) = Some replaces"
| "replaced_worker (CancelledBeforeBirth replaces worker plan) = Some replaces"
| "replaced_worker (ReplacementResolved replaces result) = Some replaces"

definition replacement_accept_outcome :: "('v, 'a, 'r) worker_replacement \<Rightarrow> ('v, 'a, 'r) replaced
    \<Rightarrow> ('v, 'a, 'r) worker_replacement \<times> ('v, 'a, 'r) replaced + ('v, 'a, 'r) worker_replacement" where
  "replacement_accept_outcome replacement outcome = (case replacing_response replacement of
      ResponseOutcomePending operation \<Rightarrow>
        (if replaced_worker outcome = Some (replacing_previous replacement)
         then Inr (replacement\<lparr>replacing_response := ResponseOutcomeReturned outcome\<rparr>)
         else Inl (replacement, outcome))
    | _ \<Rightarrow> Inl (replacement, outcome))"

definition replacement_accept_worker_stop :: "('v, 'a, 'r) worker_replacement \<Rightarrow> worker_attempt \<Rightarrow> 'a child_stopped
    \<Rightarrow> ('v, 'a, 'r) worker_replacement \<times> worker_attempt \<times> 'a child_stopped + ('v, 'a, 'r) worker_replacement" where
  "replacement_accept_worker_stop replacement worker stopped =
     (if replacing_stopped replacement = None \<and> worker = replacing_previous replacement
      then Inr (replacement\<lparr>replacing_stopped := Some stopped\<rparr>)
      else Inl (replacement, worker, stopped))"

definition replacement_progress :: "'k member_role \<Rightarrow> creation_id \<Rightarrow> 'r established_actor \<Rightarrow> ('v, 'a, 'r) worker_replacement \<Rightarrow> u64
    \<Rightarrow> (('k, 'v, 'a, 'r) recovery_completion, ('k, 'v, 'a, 'r) recovery_member) control_flow" where
  "replacement_progress role creation proxy replacement recovery =
     (case (replacing_stopped replacement, replacing_response replacement) of
        (Some stopped, ResponseOutcomeReturned (ReplacementResolved replaces (ResultReady worker readiness))) \<Rightarrow>
          FlowBreak (CompletionRestarted role creation proxy (replacing_readiness replacement) stopped worker readiness recovery)
      | (Some stopped, ResponseOutcomeReturned outcome) \<Rightarrow>
          FlowBreak (CompletionProxyFailed role creation proxy (replacing_previous replacement)
            (replacing_readiness replacement) stopped outcome recovery)
      | (stopped, ResponseInputRejected operation reason) \<Rightarrow>
          FlowBreak (CompletionInputRejected role creation proxy (replacing_previous replacement)
            (replacing_readiness replacement) stopped operation reason recovery)
      | _ \<Rightarrow> FlowContinue (MemberReplacing role creation proxy replacement))"

section \<open>Members of an admitted recovery\<close>

fun recovering_role :: "('k, 'v, 'a, 'r) recovery_member \<Rightarrow> 'k member_role" where
  "recovering_role (MemberWaiting member submission) = participant_role member"
| "recovering_role (MemberReplacing role creation proxy replacement) = role"

fun recovering_live_role :: "('k, 'v, 'a, 'r) recovery_member \<Rightarrow> creation_id \<Rightarrow> 'k option" where
  "recovering_live_role (MemberWaiting member submission) child = participant_live_role member child"
| "recovering_live_role (MemberReplacing role creation proxy replacement) child =
     (if creation = child then Some (role_name role) else None)"

fun recovering_authorization_count :: "('k, 'v, 'a, 'r) recovery_member \<Rightarrow> usize" where
  "recovering_authorization_count (MemberWaiting member submission) = 0"
| "recovering_authorization_count (MemberReplacing role creation proxy replacement) =
     (case replacing_response replacement of
        ResponseInputPending witness \<Rightarrow> 1 | ResponseOutcomePending operation \<Rightarrow> 1
      | ResponseOutcomeReturned outcome \<Rightarrow> 0 | ResponseInputRejected operation reason \<Rightarrow> 0)"

fun recovering_authorize :: "heap \<Rightarrow> ('k, 'v, 'a, 'r) recovery_member
    \<Rightarrow> heap \<times> ('k, 'v, 'a, 'r) recovery_member \<times> 'v operation option" where
  "recovering_authorize h (MemberWaiting (ParticipantStopped m) submission) =
     (let (h', witness, operation) = operation_replacement h (halted_creation m) submission in
      (h', MemberReplacing (halted_role m) (halted_creation m) (halted_proxy m)
         \<lparr>replacing_previous = halted_worker m, replacing_readiness = halted_readiness m,
          replacing_stopped = Some (halted_stopped m), replacing_response = ResponseInputPending witness\<rparr>, Some operation))"
| "recovering_authorize h (MemberWaiting (ParticipantOnline m) submission) =
     (let (h', witness, operation) = operation_replacement h (online_creation m) submission in
      (h', MemberReplacing (online_role m) (online_creation m) (online_proxy m)
         \<lparr>replacing_previous = online_worker m, replacing_readiness = online_readiness m,
          replacing_stopped = None, replacing_response = ResponseInputPending witness\<rparr>, Some operation))"
| "recovering_authorize h member = (h, member, None)"

fun into_prepared :: "('k, 'v, 'a, 'r) recovery_member
    \<Rightarrow> ('k, 'v, 'a, 'r) recovery_member + ('k, 'v, 'a, 'r) prepared_participant" where
  "into_prepared (MemberWaiting member submission) =
     Inr \<lparr>participant_member = member, participant_submission = submission\<rparr>"
| "into_prepared member = Inl member"

fun recovering_accept_operation :: "u64 \<Rightarrow> ('k, 'v, 'a, 'r) recovery_member \<Rightarrow> ('v, 'r) input_result
    \<Rightarrow> ('k, 'v, 'a, 'r) recovery_member \<times> ('v, 'r) input_result
       + (('k, 'v, 'a, 'r) recovery_completion, ('k, 'v, 'a, 'r) recovery_member) control_flow" where
  "recovering_accept_operation recovery (MemberReplacing role creation proxy replacement) settlement =
     (case replacement_accept_operation replacement settlement of
        Inr replacement \<Rightarrow> Inr (replacement_progress role creation proxy replacement recovery)
      | Inl (replacement, settlement) \<Rightarrow> Inl (MemberReplacing role creation proxy replacement, settlement))"
| "recovering_accept_operation recovery member settlement = Inl (member, settlement)"

definition recovering_accept_report :: "u64 \<Rightarrow> ('k, 'v, 'a, 'r) recovery_member \<Rightarrow> ('v, 'a, 'r) outcome child_report
    \<Rightarrow> ('k, 'v, 'a, 'r) recovery_member \<times> ('v, 'a, 'r) outcome child_report
       + (('k, 'v, 'a, 'r) recovery_completion, ('k, 'v, 'a, 'r) recovery_member) control_flow" where
  "recovering_accept_report recovery member report =
     (let child = report_child report; refused = Inl (member, report) in
      case (member, report_report report) of
        (MemberWaiting (ParticipantOnline m) submission, OutcomeWorkerStopped told stopped) \<Rightarrow>
          (if online_creation m = child \<and> online_worker m = told
           then Inr (FlowContinue (MemberWaiting (ParticipantStopped
             \<lparr>halted_role = online_role m, halted_creation = online_creation m, halted_proxy = online_proxy m,
              halted_worker = online_worker m, halted_readiness = online_readiness m, halted_stopped = stopped\<rparr>) submission))
           else refused)
      | (MemberReplacing role creation proxy replacement, OutcomeReplacement outcome) \<Rightarrow>
          (if creation = child
           then (case replacement_accept_outcome replacement outcome of
               Inr replacement \<Rightarrow> Inr (replacement_progress role creation proxy replacement recovery)
             | Inl (replacement, outcome) \<Rightarrow> Inl (MemberReplacing role creation proxy replacement,
                 \<lparr>report_child = child, report_report = OutcomeReplacement outcome\<rparr>))
           else refused)
      | (MemberReplacing role creation proxy replacement, OutcomeWorkerStopped worker stopped) \<Rightarrow>
          (if creation = child
           then (case replacement_accept_worker_stop replacement worker stopped of
               Inr replacement \<Rightarrow> Inr (replacement_progress role creation proxy replacement recovery)
             | Inl (replacement, worker, stopped) \<Rightarrow> Inl (MemberReplacing role creation proxy replacement,
                 \<lparr>report_child = child, report_report = OutcomeWorkerStopped worker stopped\<rparr>))
           else refused)
      | _ \<Rightarrow> refused)"

section \<open>The batch\<close>

fun prepared_members_from :: "('k, 'v, 'a, 'r) prepared_participant list \<Rightarrow> ('k, 'v, 'a, 'r) recovery_member list
    \<Rightarrow> ('k, 'v, 'a, 'r) recovery_member list + ('k, 'v, 'a, 'r) prepared_participant list" where
  "prepared_members_from prepared [] = Inr prepared"
| "prepared_members_from prepared (member # members) = (case into_prepared member of
      Inr participant \<Rightarrow> prepared_members_from (prepared @ [participant]) members
    | Inl member \<Rightarrow> Inl (map participant_admit prepared @ [member] @ members))"

definition into_prepared_members :: "('k, 'v, 'a, 'r) recovery_member list
    \<Rightarrow> ('k, 'v, 'a, 'r) recovery_member list + ('k, 'v, 'a, 'r) prepared_participant list" where
  "into_prepared_members members = prepared_members_from [] members"

fun authorize_sequence_from :: "heap \<Rightarrow> ('k, 'v, 'a, 'r) recovery_member list \<Rightarrow> ('k, 'v, 'a, 'r) recovery_member list
    \<Rightarrow> heap \<times> ('k, 'v, 'a, 'r) recovery_member list \<times> 'v operation option" where
  "authorize_sequence_from h examined [] = (h, examined, None)"
| "authorize_sequence_from h examined (member # members) = (case recovering_authorize h member of
      (h, member, Some operation) \<Rightarrow> (h, examined @ [member] @ members, Some operation)
    | (h, member, None) \<Rightarrow> authorize_sequence_from h (examined @ [member]) members)"

definition authorize_recovery_sequence :: "heap \<Rightarrow> ('k, 'v, 'a, 'r) recovery_member list
    \<Rightarrow> heap \<times> ('k, 'v, 'a, 'r) recovery_member list \<times> 'v operation option" where
  "authorize_recovery_sequence h members = authorize_sequence_from h [] members"

definition batch_authorization_count :: "('k, 'v, 'a, 'r) recovery_batch \<Rightarrow> usize" where
  "batch_authorization_count batch = sum_list (map recovering_authorization_count (batch_members batch))"

definition batch_authorize :: "heap \<Rightarrow> ('k, 'v, 'a, 'r) recovery_batch
    \<Rightarrow> heap \<times> ('k, 'v, 'a, 'r) recovery_batch \<times> 'v operation option" where
  "batch_authorize h batch = (case batch_release batch of
      ReleaseReady \<Rightarrow> (let (h', members, operation) = authorize_recovery_sequence h (batch_members batch) in
        (h', batch\<lparr>batch_members := members\<rparr>, operation))
    | _ \<Rightarrow> (h, batch, None))"

text \<open>The loop over the members of a batch, for a settled operation and for a report.\<close>

definition batch_offer :: "('k, 'v, 'a, 'r) recovery_batch
    \<Rightarrow> (('k, 'v, 'a, 'r) recovery_member \<Rightarrow> 'x \<Rightarrow> ('k, 'v, 'a, 'r) recovery_member \<times> 'x
          + (('k, 'v, 'a, 'r) recovery_completion, ('k, 'v, 'a, 'r) recovery_member) control_flow) \<Rightarrow> 'x
    \<Rightarrow> ('k, 'v, 'a, 'r) recovery_batch \<times> 'x
       + (('k, 'v, 'a, 'r) recovery_batch \<times> ('k, 'v, 'a, 'r) recovery_completion, ('k, 'v, 'a, 'r) recovery_batch) control_flow" where
  "batch_offer batch accept x = (case offer_each accept [] (batch_members batch) x of
      Inr (examined, FlowContinue member, members) \<Rightarrow>
        Inr (FlowContinue (batch\<lparr>batch_members := examined @ [member] @ members\<rparr>))
    | Inr (examined, FlowBreak completed, members) \<Rightarrow>
        Inr (FlowBreak (batch\<lparr>batch_members := examined @ members\<rparr>, completed))
    | Inl (examined, x) \<Rightarrow> Inl (batch\<lparr>batch_members := examined\<rparr>, x))"

definition batch_accept_operation :: "('k, 'v, 'a, 'r) recovery_batch \<Rightarrow> ('v, 'r) input_result
    \<Rightarrow> ('k, 'v, 'a, 'r) recovery_batch \<times> ('v, 'r) input_result
       + (('k, 'v, 'a, 'r) recovery_batch \<times> ('k, 'v, 'a, 'r) recovery_completion, ('k, 'v, 'a, 'r) recovery_batch) control_flow" where
  "batch_accept_operation batch settlement = batch_offer batch (recovering_accept_operation (batch_ticket batch)) settlement"

definition batch_accept_report :: "('k, 'v, 'a, 'r) recovery_batch \<Rightarrow> ('v, 'a, 'r) outcome child_report
    \<Rightarrow> ('k, 'v, 'a, 'r) recovery_batch \<times> ('v, 'a, 'r) outcome child_report
       + (('k, 'v, 'a, 'r) recovery_batch \<times> ('k, 'v, 'a, 'r) recovery_completion, ('k, 'v, 'a, 'r) recovery_batch) control_flow" where
  "batch_accept_report batch report = batch_offer batch (recovering_accept_report (batch_ticket batch)) report"

definition from_admitted :: "roster_position \<Rightarrow> ('k, 'v, 'a, 'r) prepared_participant list
    \<Rightarrow> ('k, 'v, 'a, 'r) prepared_participant list + ('k, 'v, 'a, 'r) prepared_recovery" where
  "from_admitted trigger members =
     (case position (\<lambda>m. role_position (participant_role (participant_member m)) = trigger) members of
        None \<Rightarrow> Inl members
      | Some i \<Rightarrow> (let participant = members ! i; others = remove_at i members in
          case into_stopped (participant_member participant) of
            Inl member \<Rightarrow> Inl (insert_at i (participant\<lparr>participant_member := member\<rparr>) others)
          | Inr trigger \<Rightarrow> Inr \<lparr>prepared_before = take i others, prepared_trigger = trigger,
              prepared_trigger_submission = participant_submission participant, prepared_after = drop i others\<rparr>))"

definition recovery_admit :: "('k, 'v, 'a, 'r) prepared_recovery \<Rightarrow> u64 \<Rightarrow> recovery_timer \<Rightarrow> ('k, 'v, 'a, 'r) recovery_batch" where
  "recovery_admit prepared ticket timer = \<lparr>batch_ticket = ticket,
     batch_trigger = role_position (halted_role (prepared_trigger prepared)),
     batch_release = (case timer of TimerImmediate \<Rightarrow> ReleaseReady | TimerDelayed timer \<Rightarrow> ReleaseScheduling timer),
     batch_members = map participant_admit (prepared_before prepared)
       @ [participant_admit \<lparr>participant_member = ParticipantStopped (prepared_trigger prepared),
            participant_submission = prepared_trigger_submission prepared\<rparr>]
       @ map participant_admit (prepared_after prepared)\<rparr>"

datatype (plugins only: code) ('k, 'v, 'a, 'r) recovery_schedule_admission =
    BatchWaiting "('k, 'v, 'a, 'r) recovery_batch"
  | BatchRejected "('k, 'v, 'a, 'r) prepared_recovery" "timer_id schedule_after" schedule_after_rejection
  | BatchUnrelated "('k, 'v, 'a, 'r) recovery_batch" schedule_result

definition batch_accept_schedule :: "('k, 'v, 'a, 'r) recovery_batch \<Rightarrow> schedule_result
    \<Rightarrow> ('k, 'v, 'a, 'r) recovery_schedule_admission" where
  "batch_accept_schedule batch input = (case (batch_release batch, input) of
      (ReleaseScheduling timer, Attempted (ItemAccepted scheduled)) \<Rightarrow>
        (if key_id timer = scheduled_id scheduled \<and> key_generation timer = scheduled_generation scheduled
         then BatchWaiting (batch\<lparr>batch_release := ReleaseWaiting timer\<rparr>) else BatchUnrelated batch input)
    | (ReleaseScheduling timer, Attempted (ItemRejected item reason)) \<Rightarrow>
        (if key_id timer = after_id item \<and> key_generation timer = after_generation item
         then (case into_prepared_members (batch_members batch) of
             Inl members \<Rightarrow> BatchUnrelated (batch\<lparr>batch_members := members\<rparr>) input
           | Inr prepared \<Rightarrow> (case from_admitted (batch_trigger batch) prepared of
                 Inl prepared \<Rightarrow> BatchUnrelated (batch\<lparr>batch_members := map participant_admit prepared\<rparr>) input
               | Inr prepared \<Rightarrow> BatchRejected prepared item reason))
         else BatchUnrelated batch input)
    | _ \<Rightarrow> BatchUnrelated batch input)"

definition batch_accept_elapsed :: "('k, 'v, 'a, 'r) recovery_batch \<Rightarrow> timer_id timer_elapsed
    \<Rightarrow> ('k, 'v, 'a, 'r) recovery_batch \<times> timer_id timer_elapsed + ('k, 'v, 'a, 'r) recovery_batch" where
  "batch_accept_elapsed batch elapsed = (case batch_release batch of
      ReleaseWaiting timer \<Rightarrow>
        (if key_id timer = elapsed_id elapsed \<and> key_generation timer = elapsed_generation elapsed
         then Inr (batch\<lparr>batch_release := ReleaseReady\<rparr>) else Inl (batch, elapsed))
    | _ \<Rightarrow> Inl (batch, elapsed))"

section \<open>Preparing\<close>

definition preparing_participants :: "('k, 'v, 'a, 'r) preparing_recovery \<Rightarrow> ('k, 'v, 'a, 'r) recovery_participant list" where
  "preparing_participants p = preparing_before p @ ParticipantStopped (preparing_trigger p) # preparing_after p"

fun selected_names :: "('k, 'v, 'a, 'r) recovery_participant list \<Rightarrow> ('k, 'v, 'a, 'r) stopped_member
    \<Rightarrow> ('k, 'v, 'a, 'r) recovery_participant list \<Rightarrow> 'k \<times> 'k list" where
  "selected_names (first # before) trigger after = (role_name (participant_role first),
     map (role_name \<circ> participant_role) before @ role_name (halted_role trigger) # map (role_name \<circ> participant_role) after)"
| "selected_names [] trigger after = (role_name (halted_role trigger), map (role_name \<circ> participant_role) after)"

definition preparing_begin :: "heap \<Rightarrow> 's recovery_preparation \<Rightarrow> ('k, 'v, 'a, 'r) recovery_participant list
    \<Rightarrow> ('k, 'v, 'a, 'r) stopped_member \<Rightarrow> ('k, 'v, 'a, 'r) recovery_participant list
    \<Rightarrow> heap \<times> ('s, 'k, 'v) supervisor_recovery \<times> ('k, 'v, 'a, 'r) preparing_recovery \<times> ('s, 'k) prepare_workers" where
  "preparing_begin h preparation before trigger after =
     (let (first, remaining) = selected_names before trigger after;
          (h', recovery, expected, request) = choice_begin h preparation first remaining
      in (h', recovery, \<lparr>preparing_expected = ExpectationIssued expected, preparing_before = before,
            preparing_trigger = trigger, preparing_after = after\<rparr>, request))"

definition preparing_accept_start :: "('k, 'v, 'a, 'r) preparing_recovery \<Rightarrow> preparation_started
    \<Rightarrow> ('k, 'v, 'a, 'r) preparing_recovery \<times> preparation_started + ('k, 'v, 'a, 'r) preparing_recovery" where
  "preparing_accept_start p started = (case expectation_accept_start (preparing_expected p) started of
      Inr expected \<Rightarrow> Inr (p\<lparr>preparing_expected := expected\<rparr>)
    | Inl expected \<Rightarrow> Inl (p\<lparr>preparing_expected := expected\<rparr>, started))"

definition restore_peers :: "('k, 'v, 'a, 'r) preparing_recovery
    \<Rightarrow> ('k, 'v, 'a, 'r) roster_owner list \<times> 'k \<times> ('k, 'v, 'a, 'r) stopped_member" where
  "restore_peers p = (map participant_release (preparing_before p @ preparing_after p),
     role_name (halted_role (preparing_trigger p)), preparing_trigger p)"

datatype (plugins only: code) ('s, 'k, 'v, 'a, 'r) preparation_decision =
    DecisionPrepared "('k, 'v, 'a, 'r) prepared_recovery" 's
  | DecisionFailed "('k, 'v, 'a, 'r) roster_owner list" "('k, 'v, 'a, 'r) stopped_member" 's "('k, 'v) worker_preparation_failure"
  | DecisionRejected "('k, 'v, 'a, 'r) preparing_recovery" "('s, 'k, 'v) preparation_return"

definition participant_prepared :: "('k, 'v, 'a, 'r) recovery_participant \<times> ('k, 'v) prepared \<Rightarrow> ('k, 'v, 'a, 'r) prepared_participant" where
  "participant_prepared pw = \<lparr>participant_member = fst pw, participant_submission = prepared_submission (snd pw)\<rparr>"

text \<open>The sums of lengths are those of vectors that exist: they do not overflow a \<^verbatim>\<open>usize\<close>.\<close>

definition preparing_accept :: "('k, 'v, 'a, 'r) preparing_recovery \<Rightarrow> ('s, 'k, 'v) preparation_return
    \<Rightarrow> ('s, 'k, 'v, 'a, 'r) preparation_decision" where
  "preparing_accept p returned =
     (if \<not> expectation_accepts_return (preparing_expected p) returned then DecisionRejected p returned
      else case preparation_outcome returned of
        WorkersPrepared source members \<Rightarrow>
          (if length members \<noteq> length (preparing_before p) + 1 + length (preparing_after p)
           then DecisionRejected p returned
           else (case drop (length (preparing_before p)) members of
               [] \<Rightarrow> DecisionRejected p returned
             | trigger_prepared # after \<Rightarrow> DecisionPrepared
                 \<lparr>prepared_before = map participant_prepared (zip (preparing_before p) (take (length (preparing_before p)) members)),
                  prepared_trigger = preparing_trigger p,
                  prepared_trigger_submission = prepared_submission trigger_prepared,
                  prepared_after = map participant_prepared (zip (preparing_after p) after)\<rparr> source))
      | PreparationWorkerRejected source prepared failed reason remaining \<Rightarrow>
          (let (peers, trigger_role, trigger) = restore_peers p in
           DecisionFailed peers trigger source \<lparr>preparation_failure_trigger = trigger_role,
             preparation_failure_state = FailureWorkerRejected prepared failed reason remaining\<rparr>)
      | PreparationSourceRejected source failed reason remaining \<Rightarrow>
          (let (peers, trigger_role, trigger) = restore_peers p in
           DecisionFailed peers trigger source \<lparr>preparation_failure_trigger = trigger_role,
             preparation_failure_state = FailureSourceRejected reason (failed # remaining)\<rparr>))"

definition worker_count :: "('k, 'v, 'a, 'r) prepared_recovery \<Rightarrow> usize" where
  "worker_count p = length (prepared_before p) + 1 + length (prepared_after p)"

end
