(* ===== verification/Roster_Shutdown.thy ===== *)
theory Roster_Shutdown
  imports Roster_Recovery
begin

text \<open>
  The shutdown of a fixed supervisor (\<^verbatim>\<open>supervisor/roster/shutdown/\<close>): every owner of the roster
  becomes a member that waits for its proxy's birth, for the stop of its proxy, or for nothing, the
  recoveries in progress are cancelled, and the supervisor stops when nothing is unresolved or its
  deadline has passed.
\<close>

section \<open>Members of a shutdown\<close>

fun leaving_role :: "('k, 'v, 'a, 'r) fixed_shutdown_member \<Rightarrow> 'k member_role" where
  "leaving_role (ShutdownAwaitingBirth role witness operation) = role"
| "leaving_role (ShutdownAbsentProxy role witness operation settlement) = role"
| "leaving_role (ShutdownProxy (FlowContinue proxy) ownership preparation) = exiting_role proxy"
| "leaving_role (ShutdownProxy (FlowBreak proxy) ownership preparation) = retired_role proxy"

definition leaving_position :: "('k, 'v, 'a, 'r) fixed_shutdown_member \<Rightarrow> roster_position" where
  "leaving_position m = role_position (leaving_role m)"

fun leaving_phase :: "('k, 'v, 'a, 'r) fixed_shutdown_member \<Rightarrow> unavailable_phase" where
  "leaving_phase (ShutdownAwaitingBirth role witness operation) = PhaseStopping"
| "leaving_phase (ShutdownAbsentProxy role witness operation settlement) = PhaseRetired"
| "leaving_phase (ShutdownProxy (FlowContinue proxy) ownership preparation) = PhaseStopping"
| "leaving_phase (ShutdownProxy (FlowBreak proxy) ownership preparation) = PhaseRetired"

definition leaving_status :: "('k, 'v, 'a, 'r) fixed_shutdown_member \<Rightarrow> (roster_position \<times> 'r member_status) list" where
  "leaving_status m = [(leaving_position m, phase_status (leaving_phase m))]"

definition leaving_capability_phase :: "('k, 'v, 'a, 'r) fixed_shutdown_member \<Rightarrow> 'k \<Rightarrow> unavailable_phase option" where
  "leaving_capability_phase m expected = (if role_name (leaving_role m) = expected then Some (leaving_phase m) else None)"

fun leaving_live_role :: "('k, 'v, 'a, 'r) fixed_shutdown_member \<Rightarrow> creation_id \<Rightarrow> 'k option" where
  "leaving_live_role (ShutdownProxy (FlowContinue proxy) ownership preparation) child = exiting_live_role proxy child"
| "leaving_live_role m child = None"

fun is_unresolved :: "('k, 'v, 'a, 'r) fixed_shutdown_member \<Rightarrow> bool" where
  "is_unresolved (ShutdownAwaitingBirth role witness operation) \<longleftrightarrow> True"
| "is_unresolved (ShutdownProxy (FlowContinue proxy) ownership preparation) \<longleftrightarrow> True"
| "is_unresolved (ShutdownProxy (FlowBreak proxy) ownership preparation) \<longleftrightarrow>
     (case ownership of
        OwnedReplacement replacement \<Rightarrow> (case replacing_response replacement of
            ResponseInputPending witness \<Rightarrow> True | ResponseOutcomePending operation \<Rightarrow> True | _ \<Rightarrow> preparation \<noteq> None)
      | _ \<Rightarrow> preparation \<noteq> None)"
| "is_unresolved (ShutdownAbsentProxy role witness operation settlement) \<longleftrightarrow> False"

fun awaits_creation :: "('k, 'v, 'a, 'r) fixed_shutdown_member \<Rightarrow> creation_id \<times> creation_kind \<Rightarrow> bool" where
  "awaits_creation (ShutdownAwaitingBirth role witness operation) (creation, kind) \<longleftrightarrow>
     operation_creation operation = creation \<and> kind = Birth"
| "awaits_creation m identity \<longleftrightarrow> False"

fun into_awaiting_proxy :: "('k, 'v, 'a, 'r) fixed_shutdown_member
    \<Rightarrow> ('k, 'v, 'a, 'r) fixed_shutdown_member + 'k member_role \<times> token \<times> 'v operation" where
  "into_awaiting_proxy (ShutdownAwaitingBirth role witness operation) = Inr (role, witness, operation)"
| "into_awaiting_proxy m = Inl m"

fun ownership_accept_input :: "('v, 'a, 'r) proxy_ownership \<Rightarrow> ('v, 'r) input_result
    \<Rightarrow> ('v, 'a, 'r) proxy_ownership \<times> ('v, 'r) input_result + ('v, 'a, 'r) proxy_ownership" where
  "ownership_accept_input (OwnedInputDispatched witness prepared) settlement =
     (case witness_admit witness settlement of
        Inr settlement \<Rightarrow> Inr (case settlement of
            Attempted (ItemAccepted accepted) \<Rightarrow> (let (creation, proxy, operation) = receipt_into_parts accepted in
              OwnedOutcomeWaiting operation prepared)
          | _ \<Rightarrow> OwnedInputRejected settlement prepared)
      | Inl settlement \<Rightarrow> Inl (OwnedInputDispatched witness prepared, settlement))"
| "ownership_accept_input (OwnedReplacement replacement) settlement =
     (case replacement_accept_operation replacement settlement of
        Inr replacement \<Rightarrow> Inr (OwnedReplacement replacement)
      | Inl (replacement, settlement) \<Rightarrow> Inl (OwnedReplacement replacement, settlement))"
| "ownership_accept_input ownership settlement = Inl (ownership, settlement)"

definition ownership_accept_outcome :: "('v, 'a, 'r) proxy_ownership \<Rightarrow> ('v, 'a, 'r) outcome
    \<Rightarrow> ('v, 'a, 'r) proxy_ownership \<times> ('v, 'a, 'r) outcome + ('v, 'a, 'r) proxy_ownership" where
  "ownership_accept_outcome ownership outcome = (case (ownership, outcome) of
      (OwnedOutcomeWaiting operation prepared, OutcomeInitial initial) \<Rightarrow>
        Inr (OwnedOutcomeReceived operation outcome prepared)
    | (OwnedReplacement replacement, OutcomeReplacement result) \<Rightarrow>
        (case replacement_accept_outcome replacement result of
           Inr replacement \<Rightarrow> Inr (OwnedReplacement replacement)
         | Inl (replacement, result) \<Rightarrow> Inl (OwnedReplacement replacement, OutcomeReplacement result))
    | (OwnedReplacement replacement, OutcomeWorkerStopped worker stopped) \<Rightarrow>
        (case replacement_accept_worker_stop replacement worker stopped of
           Inr replacement \<Rightarrow> Inr (OwnedReplacement replacement)
         | Inl (replacement, worker, stopped) \<Rightarrow> Inl (OwnedReplacement replacement, OutcomeWorkerStopped worker stopped))
    | _ \<Rightarrow> Inl (ownership, outcome))"

fun leaving_accept_operation :: "('k, 'v, 'a, 'r) fixed_shutdown_member \<Rightarrow> ('v, 'r) input_result
    \<Rightarrow> ('k, 'v, 'a, 'r) fixed_shutdown_member \<times> ('v, 'r) input_result + ('k, 'v, 'a, 'r) fixed_shutdown_member" where
  "leaving_accept_operation (ShutdownProxy proxy ownership preparation) settlement =
     (case (case proxy of
          FlowContinue proxy \<Rightarrow> (case exiting_accept_operation proxy settlement of
              Inr proxy \<Rightarrow> Inr proxy
            | Inl (proxy, settlement) \<Rightarrow> Inl (FlowContinue proxy, settlement))
        | FlowBreak proxy \<Rightarrow> Inl (FlowBreak proxy, settlement)) of
        Inr proxy \<Rightarrow> Inr (ShutdownProxy proxy ownership preparation)
      | Inl (proxy, settlement) \<Rightarrow> (case ownership_accept_input ownership settlement of
            Inr ownership \<Rightarrow> Inr (ShutdownProxy proxy ownership preparation)
          | Inl (ownership, settlement) \<Rightarrow> Inl (ShutdownProxy proxy ownership preparation, settlement)))"
| "leaving_accept_operation m settlement = Inl (m, settlement)"

fun owns_outcome_source :: "('k, 'v, 'a, 'r) fixed_shutdown_member \<Rightarrow> creation_id \<Rightarrow> bool" where
  "owns_outcome_source (ShutdownProxy (FlowContinue proxy) ownership preparation) child \<longleftrightarrow> exiting_accepts_child proxy child"
| "owns_outcome_source (ShutdownProxy (FlowBreak proxy) ownership preparation) child \<longleftrightarrow> retired_accepts_child proxy child"
| "owns_outcome_source m child \<longleftrightarrow> False"

fun leaving_accept_outcome :: "('k, 'v, 'a, 'r) fixed_shutdown_member \<Rightarrow> ('v, 'a, 'r) outcome child_report
    \<Rightarrow> ('k, 'v, 'a, 'r) fixed_shutdown_member \<times> ('v, 'a, 'r) outcome child_report + ('k, 'v, 'a, 'r) fixed_shutdown_member" where
  "leaving_accept_outcome (ShutdownProxy proxy ownership preparation) report =
     (case ownership_accept_outcome ownership (report_report report) of
        Inr ownership \<Rightarrow> Inr (ShutdownProxy proxy ownership preparation)
      | Inl (ownership, outcome) \<Rightarrow> Inl (ShutdownProxy proxy ownership preparation,
          \<lparr>report_child = report_child report, report_report = outcome\<rparr>))"
| "leaving_accept_outcome m report = Inl (m, report)"

fun leaving_accepts_stop :: "('k, 'v, 'a, 'r) fixed_shutdown_member \<Rightarrow> 'a child_stopped \<Rightarrow> bool" where
  "leaving_accepts_stop (ShutdownProxy (FlowContinue proxy) ownership preparation) stopped \<longleftrightarrow> exiting_accepts_stop proxy stopped"
| "leaving_accepts_stop m stopped \<longleftrightarrow> False"

fun leaving_accept_stop :: "('k, 'v, 'a, 'r) fixed_shutdown_member \<Rightarrow> 'a child_stopped
    \<Rightarrow> ('k, 'v, 'a, 'r) fixed_shutdown_member \<times> 'a child_stopped + ('k, 'v, 'a, 'r) fixed_shutdown_member" where
  "leaving_accept_stop (ShutdownProxy (FlowContinue proxy) ownership preparation) stopped =
     (case exiting_accept_stop proxy stopped of
        Inr proxy \<Rightarrow> Inr (ShutdownProxy proxy ownership preparation)
      | Inl (proxy, stopped) \<Rightarrow> Inl (ShutdownProxy (FlowContinue proxy) ownership preparation, stopped))"
| "leaving_accept_stop m stopped = Inl (m, stopped)"

text \<open>A preparation is neither rejected nor blocked (\<^verbatim>\<open>Never\<close>): those rows return the result and are never read.\<close>

fun leaving_accept_preparation_start :: "('k, 'v, 'a, 'r) fixed_shutdown_member \<Rightarrow> ('s, 'k) preparation_start
    \<Rightarrow> ('k, 'v, 'a, 'r) fixed_shutdown_member \<times> ('s, 'k) preparation_start
       + (('k, 'v, 'a, 'r) fixed_shutdown_member \<times> ('s, 'k) preparation_start, ('k, 'v, 'a, 'r) fixed_shutdown_member) control_flow" where
  "leaving_accept_preparation_start (ShutdownProxy proxy ownership (Some expected)) result =
     (if expectation_accepts_issued expected result
      then (case result of
          Attempted (ItemAccepted started) \<Rightarrow> (case expectation_accept_start expected started of
              Inr expected \<Rightarrow> Inr (FlowContinue (ShutdownProxy proxy ownership (Some expected)))
            | Inl expected \<Rightarrow> Inl (ShutdownProxy proxy ownership (Some expected), Attempted (ItemAccepted started)))
        | _ \<Rightarrow> Inr (FlowBreak (ShutdownProxy proxy ownership None, result)))
      else Inl (ShutdownProxy proxy ownership (Some expected), result))"
| "leaving_accept_preparation_start m result = Inl (m, result)"

fun leaving_accept_preparation_return :: "('k, 'v, 'a, 'r) fixed_shutdown_member \<Rightarrow> ('s, 'k, 'v) preparation_return
    \<Rightarrow> ('k, 'v, 'a, 'r) fixed_shutdown_member \<times> ('s, 'k, 'v) preparation_return
       + ('k, 'v, 'a, 'r) fixed_shutdown_member \<times> ('s, 'k, 'v) preparation_return" where
  "leaving_accept_preparation_return (ShutdownProxy proxy ownership (Some expected)) returned =
     (if expectation_accepts_return expected returned
      then Inr (ShutdownProxy proxy ownership None, returned)
      else Inl (ShutdownProxy proxy ownership (Some expected), returned))"
| "leaving_accept_preparation_return m returned = Inl (m, returned)"

section \<open>Beginning\<close>

fun participant_ownership :: "('k, 'v, 'a, 'r) recovery_participant \<Rightarrow> 'v submission option
    \<Rightarrow> 'r established_actor \<times> ('v, 'a, 'r) proxy_ownership" where
  "participant_ownership (ParticipantStopped m) prepared =
     (halted_proxy m, OwnedWorkerStopped (halted_worker m) (halted_readiness m) (Some (halted_stopped m)) prepared)"
| "participant_ownership (ParticipantDispatched role creation proxy witness) prepared = (proxy, OwnedInputDispatched witness prepared)"
| "participant_ownership (ParticipantAwaiting role creation proxy operation) prepared = (proxy, OwnedOutcomeWaiting operation prepared)"
| "participant_ownership (ParticipantOnline m) prepared = (online_proxy m, OwnedReady (online_worker m) (online_readiness m) prepared)"

definition participant_begin_shutdown :: "heap \<Rightarrow> ('k, 'v, 'a, 'r) recovery_participant \<Rightarrow> 'v submission option
    \<Rightarrow> heap \<times> ('k, 'v, 'a, 'r) fixed_shutdown_member \<times> 'v operation" where
  "participant_begin_shutdown h p prepared = (let (proxy, ownership) = participant_ownership p prepared;
       (h', exiting, operation) = exiting_begin h (participant_role p) (participant_creation p) proxy
     in (h', ShutdownProxy (FlowContinue exiting) ownership None, operation))"

fun recovering_begin_shutdown :: "heap \<Rightarrow> ('k, 'v, 'a, 'r) recovery_member
    \<Rightarrow> heap \<times> ('k, 'v, 'a, 'r) fixed_shutdown_member \<times> 'v operation" where
  "recovering_begin_shutdown h (MemberWaiting member submission) = participant_begin_shutdown h member (Some submission)"
| "recovering_begin_shutdown h (MemberReplacing role creation proxy replacement) =
     (let (h', exiting, operation) = exiting_begin h role creation proxy
      in (h', ShutdownProxy (FlowContinue exiting) (OwnedReplacement replacement) None, operation))"

fun recovering_begin_shutdowns :: "heap \<Rightarrow> ('k, 'v, 'a, 'r) recovery_member list
    \<Rightarrow> heap \<times> ('k, 'v, 'a, 'r) fixed_shutdown_member list \<times> 'v operation list" where
  "recovering_begin_shutdowns h [] = (h, [], [])"
| "recovering_begin_shutdowns h (participant # participants) =
     (let (h, member, operation) = recovering_begin_shutdown h participant;
          (h, members, operations) = recovering_begin_shutdowns h participants
      in (h, member # members, operation # operations))"

definition batch_begin_shutdown :: "heap \<Rightarrow> ('k, 'v, 'a, 'r) recovery_batch
    \<Rightarrow> heap \<times> ('k, 'v, 'a, 'r) fixed_shutdown_member list \<times> 'v operation list \<times> cancelled_recovery option" where
  "batch_begin_shutdown h batch = (let (h', members, operations) = recovering_begin_shutdowns h (batch_members batch)
     in (h', members, operations,
         case batch_release batch of ReleaseScheduling timer \<Rightarrow> Some (CancelledAwaiting timer) | _ \<Rightarrow> None))"

text \<open>One owner outside a recovery: the member it becomes and the shutdown of its proxy, if it has one.\<close>

definition begin_exit :: "heap \<Rightarrow> 'k member_role \<Rightarrow> creation_id \<Rightarrow> 'r established_actor \<Rightarrow> ('v, 'a, 'r) proxy_ownership
    \<Rightarrow> preparation_expectation option
    \<Rightarrow> heap \<times> ('k, 'v, 'a, 'r) fixed_shutdown_member \<times> (roster_position \<times> 'v operation) list" where
  "begin_exit h role creation proxy ownership preparation =
     (let (h', exiting, shutdown) = exiting_begin h role creation proxy
      in (h', ShutdownProxy (FlowContinue exiting) ownership preparation, [(role_position role, shutdown)]))"

fun owner_begin_shutdown :: "heap \<Rightarrow> ('k, 'v, 'a, 'r) roster_owner \<Rightarrow> preparation_expectation option
    \<Rightarrow> heap \<times> ('k, 'v, 'a, 'r) fixed_shutdown_member list \<times> (roster_position \<times> 'v operation) list \<times> cancelled_recovery list" where
  "owner_begin_shutdown h (OwnerStarting (WaitingForAuthorization role proxy witness operation)) preparation =
     (let (h', member, operations) = begin_exit h role (operation_creation operation) proxy
        (OwnedInputCancelled witness operation) preparation in (h', [member], operations, []))"
| "owner_begin_shutdown h (OwnerStarting (InputDispatched role creation proxy witness)) preparation =
     (let (h', member, operations) = begin_exit h role creation proxy (OwnedInputDispatched witness None) preparation
      in (h', [member], operations, []))"
| "owner_begin_shutdown h (OwnerStarting (AwaitingProxyOutcome role creation proxy operation)) preparation =
     (let (h', member, operations) = begin_exit h role creation proxy (OwnedOutcomeWaiting operation None) preparation
      in (h', [member], operations, []))"
| "owner_begin_shutdown h (OwnerStarting (ProxyInputRejected role creation proxy settlement)) preparation =
     (let (h', member, operations) = begin_exit h role creation proxy (OwnedInputRejected settlement None) preparation
      in (h', [member], operations, []))"
| "owner_begin_shutdown h (OwnerStarting (ProxyBirthRejected role witness operation settlement)) preparation =
     (h, [ShutdownAbsentProxy role witness operation (Some settlement)], [], [])"
| "owner_begin_shutdown h (OwnerStarting (CreatingProxy role witness operation)) preparation =
     (h, [ShutdownAwaitingBirth role witness operation], [], [])"
| "owner_begin_shutdown h (OwnerOnline m) preparation =
     (let (h', member, operations) = begin_exit h (online_role m) (online_creation m) (online_proxy m)
        (OwnedReady (online_worker m) (online_readiness m) None) preparation in (h', [member], operations, []))"
| "owner_begin_shutdown h (OwnerEmpty m) preparation =
     (let (h', member, operations) = begin_exit h (empty_role m) (empty_creation m) (empty_proxy m)
        (OwnedWorkerStopped (empty_worker m) (empty_readiness m) (empty_stopped m) None) preparation
      in (h', [member], operations, []))"
| "owner_begin_shutdown h (OwnerRecovery (RecoveryAdmitted batch)) preparation =
     (let (h', members, operations, cancelled) = batch_begin_shutdown h batch
      in (h', members, zip (map leaving_position members) operations,
          case cancelled of Some cancelled \<Rightarrow> [cancelled] | None \<Rightarrow> []))"
| "owner_begin_shutdown h (OwnerUnrecovered m) preparation =
     (h, [ShutdownProxy (FlowContinue (unrecovered_proxy m)) (unrecovered_ownership m) None], [], [])"
| "owner_begin_shutdown h (OwnerStopping proxy) preparation =
     (h, [ShutdownProxy (FlowContinue proxy) OwnedUnavailable preparation], [], [])"
| "owner_begin_shutdown h (OwnerRetired proxy) preparation =
     (h, [ShutdownProxy (FlowBreak proxy) OwnedUnavailable preparation], [], [])"
| "owner_begin_shutdown h (OwnerRecovery (RecoveryPreparing recovery)) preparation = (h, [], [], [])"

text \<open>
  The loop of \<^verbatim>\<open>FixedShutdown::begin\<close>: a recovery that prepares puts its participants in front of the
  remaining owners, the trigger with the expectation of the preparation. The measure counts owners
  and participants.
\<close>

fun owner_weight :: "('k, 'v, 'a, 'r) roster_owner \<times> preparation_expectation option \<Rightarrow> nat" where
  "owner_weight (OwnerRecovery (RecoveryPreparing p), e) = length (preparing_before p) + length (preparing_after p) + 2"
| "owner_weight other = 1"

definition released :: "('k, 'v, 'a, 'r) preparing_recovery \<Rightarrow> (('k, 'v, 'a, 'r) roster_owner \<times> preparation_expectation option) list" where
  "released p = map (\<lambda>participant. (participant_release participant, None)) (preparing_before p)
     @ (OwnerEmpty (retain_stop (preparing_trigger p)), Some (preparing_expected p))
     # map (\<lambda>participant. (participant_release participant, None)) (preparing_after p)"

lemma owner_weight_release [simp]: "owner_weight (participant_release participant, e) = 1"
  by (cases participant) simp_all

lemma owner_weight_released: "sum_list (map owner_weight (released p)) = length (preparing_before p) + length (preparing_after p) + 1"
  by (simp add: released_def comp_def sum_list_triv)

function shutdown_owners :: "heap \<Rightarrow> (('k, 'v, 'a, 'r) roster_owner \<times> preparation_expectation option) list
    \<Rightarrow> ('k, 'v, 'a, 'r) fixed_shutdown_member list \<Rightarrow> (roster_position \<times> 'v operation) list \<Rightarrow> cancelled_recovery list
    \<Rightarrow> heap \<times> ('k, 'v, 'a, 'r) fixed_shutdown_member list \<times> (roster_position \<times> 'v operation) list \<times> cancelled_recovery list" where
  "shutdown_owners h [] members operations cancelled = (h, members, operations, cancelled)"
| "shutdown_owners h ((own, preparation) # remaining) members operations cancelled = (case own of
      OwnerRecovery (RecoveryPreparing p) \<Rightarrow> shutdown_owners h (released p @ remaining) members operations cancelled
    | _ \<Rightarrow> (let (h', ms, os, cs) = owner_begin_shutdown h own preparation
           in shutdown_owners h' remaining (members @ ms) (operations @ os) (cancelled @ cs)))"
  by pat_completeness auto
termination
  by (relation "measure (\<lambda>(h, owners, _). sum_list (map owner_weight owners))")
     (auto simp: owner_weight_released split: roster_owner.splits recovery_roster_owner.splits)

definition fixed_shutdown_begin :: "heap \<Rightarrow> ('k, 'v, 'a, 'r) roster_owner list \<Rightarrow> actor_drain_policy
    \<Rightarrow> heap \<times> ('k, 'v, 'a, 'r) fixed_shutdown \<times> (roster_position \<times> 'v operation) list \<times> timer_id schedule_after option" where
  "fixed_shutdown_begin h owners drain =
     (let (h', members, operations, cancelled) = shutdown_owners h (map (\<lambda>own. (own, None)) owners) [] [] [];
          (deadline, schedule) = deadline_begin drain
      in (h', \<lparr>fixed_members = sort_key leaving_position members, fixed_unrouted = None,
               fixed_cancelled = cancelled, fixed_deadline = deadline\<rparr>, sort_key fst operations, schedule))"

fun peers_begin_shutdown :: "heap \<Rightarrow> ('k, 'v, 'a, 'r) prepared_participant list
    \<Rightarrow> heap \<times> ('k, 'v, 'a, 'r) fixed_shutdown_member list \<times> (roster_position \<times> 'v operation) list" where
  "peers_begin_shutdown h [] = (h, [], [])"
| "peers_begin_shutdown h (participant # peers) =
     (let (h, member, operation) = participant_begin_shutdown h (participant_member participant)
            (Some (participant_submission participant));
          (h, members, operations) = peers_begin_shutdown h peers
      in (h, member # members, (leaving_position member, operation) # operations))"

definition begin_with_unissued :: "heap \<Rightarrow> ('k, 'v, 'a, 'r) roster_owner list \<Rightarrow> ('k, 'v, 'a, 'r) unissued_replacements
    \<Rightarrow> actor_drain_policy
    \<Rightarrow> heap \<times> ('k, 'v, 'a, 'r) fixed_shutdown \<times> (roster_position \<times> 'v operation) list \<times> timer_id schedule_after option" where
  "begin_with_unissued h owners unissued drain =
     (let (h, shutdown, operations, schedule) = fixed_shutdown_begin h owners drain;
          (h, members, peer_operations) = peers_begin_shutdown h (unissued_peers unissued);
          (h, proxy, ownership, operation) = retire_prepared_worker h (unissued_trigger unissued) (unissued_trigger_submission unissued);
          member = ShutdownProxy (FlowContinue proxy) ownership None
      in (h, shutdown\<lparr>fixed_members := sort_key leaving_position (fixed_members shutdown @ members @ [member])\<rparr>,
          sort_key fst (operations @ peer_operations @ [(leaving_position member, operation)]), schedule))"

section \<open>Steps of a shutdown\<close>

fun cancelled_accept_schedule :: "cancelled_recovery \<Rightarrow> schedule_result
    \<Rightarrow> cancelled_recovery \<times> schedule_result + cancelled_recovery" where
  "cancelled_accept_schedule (CancelledAwaiting timer) input = (case admit_result timer input of
      Inr input \<Rightarrow> Inr (CancelledReturned input)
    | Inl input \<Rightarrow> Inl (CancelledAwaiting timer, input))"
| "cancelled_accept_schedule (CancelledReturned result) input = Inl (CancelledReturned result, input)"

fun cancelled_awaits :: "cancelled_recovery \<Rightarrow> bool" where
  "cancelled_awaits (CancelledAwaiting timer) \<longleftrightarrow> True"
| "cancelled_awaits (CancelledReturned result) \<longleftrightarrow> False"

definition shutdown_into_step :: "('k, 'v, 'a, 'r) fixed_shutdown \<Rightarrow> recovery_retirement \<Rightarrow> never become" where
  "shutdown_into_step shutdown recovery = (case fixed_deadline shutdown of
      DeadlineNotScheduled result \<Rightarrow> Stop Stopped
    | DeadlineElapsed elapsed \<Rightarrow> Stop Stopped
    | _ \<Rightarrow> (if list_ex cancelled_awaits (fixed_cancelled shutdown) then Continue
          else if list_ex is_unresolved (fixed_members shutdown) then Continue
          else case recovery of RetirementReady \<Rightarrow> Stop Stopped | RetirementWaitingForSource \<Rightarrow> Continue))"

definition shutdown_accept_schedule :: "('k, 'v, 'a, 'r) fixed_shutdown \<Rightarrow> schedule_result
    \<Rightarrow> ('k, 'v, 'a, 'r) fixed_shutdown \<times> schedule_result + ('k, 'v, 'a, 'r) fixed_shutdown" where
  "shutdown_accept_schedule shutdown input =
     (case offer_each cancelled_accept_schedule [] (fixed_cancelled shutdown) input of
        Inr (examined, recovery, remaining) \<Rightarrow> Inr (shutdown\<lparr>fixed_cancelled := examined @ [recovery] @ remaining\<rparr>)
      | Inl (examined, input) \<Rightarrow> (let shutdown = shutdown\<lparr>fixed_cancelled := examined\<rparr> in
          case deadline_accept_schedule (fixed_deadline shutdown) input of
            Inr deadline \<Rightarrow> Inr (shutdown\<lparr>fixed_deadline := deadline\<rparr>)
          | Inl input \<Rightarrow> Inl (shutdown, input)))"

definition shutdown_accept_elapsed :: "('k, 'v, 'a, 'r) fixed_shutdown \<Rightarrow> timer_id timer_elapsed
    \<Rightarrow> ('k, 'v, 'a, 'r) fixed_shutdown \<times> timer_id timer_elapsed + ('k, 'v, 'a, 'r) fixed_shutdown" where
  "shutdown_accept_elapsed shutdown elapsed = (case deadline_accept_elapsed (fixed_deadline shutdown) elapsed of
      Inr deadline \<Rightarrow> Inr (shutdown\<lparr>fixed_deadline := deadline\<rparr>)
    | Inl elapsed \<Rightarrow> Inl (shutdown, elapsed))"

definition shutdown_accept_preparation_start :: "('k, 'v, 'a, 'r) fixed_shutdown \<Rightarrow> ('s, 'k) preparation_start
    \<Rightarrow> ('k, 'v, 'a, 'r) fixed_shutdown \<times> ('s, 'k) preparation_start
       + (('k, 'v, 'a, 'r) fixed_shutdown \<times> ('s, 'k) preparation_start, ('k, 'v, 'a, 'r) fixed_shutdown) control_flow" where
  "shutdown_accept_preparation_start shutdown result =
     (case offer_each leaving_accept_preparation_start [] (fixed_members shutdown) result of
        Inr (examined, FlowContinue member, members) \<Rightarrow>
          Inr (FlowContinue (shutdown\<lparr>fixed_members := examined @ [member] @ members\<rparr>))
      | Inr (examined, FlowBreak (member, returned), members) \<Rightarrow>
          Inr (FlowBreak (shutdown\<lparr>fixed_members := examined @ [member] @ members\<rparr>, returned))
      | Inl (examined, result) \<Rightarrow> Inl (shutdown\<lparr>fixed_members := examined\<rparr>, result))"

definition shutdown_accept_preparation_return :: "('k, 'v, 'a, 'r) fixed_shutdown \<Rightarrow> ('s, 'k, 'v) preparation_return
    \<Rightarrow> ('k, 'v, 'a, 'r) fixed_shutdown \<times> ('s, 'k, 'v) preparation_return
       + ('k, 'v, 'a, 'r) fixed_shutdown \<times> ('s, 'k, 'v) preparation_return" where
  "shutdown_accept_preparation_return shutdown returned =
     (case offer_each leaving_accept_preparation_return [] (fixed_members shutdown) returned of
        Inr (examined, (member, returned), members) \<Rightarrow>
          Inr (shutdown\<lparr>fixed_members := examined @ [member] @ members\<rparr>, returned)
      | Inl (examined, returned) \<Rightarrow> Inl (shutdown\<lparr>fixed_members := examined\<rparr>, returned))"

definition shutdown_accept_operation :: "('k, 'v, 'a, 'r) fixed_shutdown \<Rightarrow> ('v, 'r) input_result
    \<Rightarrow> ('k, 'v, 'a, 'r) fixed_shutdown \<times> ('v, 'r) input_result + ('k, 'v, 'a, 'r) fixed_shutdown" where
  "shutdown_accept_operation shutdown settlement =
     (case offer_each leaving_accept_operation [] (fixed_members shutdown) settlement of
        Inr (examined, member, members) \<Rightarrow> Inr (shutdown\<lparr>fixed_members := examined @ [member] @ members\<rparr>)
      | Inl (examined, settlement) \<Rightarrow> Inl (shutdown\<lparr>fixed_members := examined\<rparr>, settlement))"

text \<open>A member found by position, taken out and put back.\<close>

definition shutdown_at :: "(('k, 'v, 'a, 'r) fixed_shutdown_member \<Rightarrow> bool)
    \<Rightarrow> (('k, 'v, 'a, 'r) fixed_shutdown_member \<Rightarrow> 'x
          \<Rightarrow> ('k, 'v, 'a, 'r) fixed_shutdown_member \<times> 'x + ('k, 'v, 'a, 'r) fixed_shutdown_member)
    \<Rightarrow> ('k, 'v, 'a, 'r) fixed_shutdown \<Rightarrow> 'x \<Rightarrow> ('k, 'v, 'a, 'r) fixed_shutdown \<times> 'x + ('k, 'v, 'a, 'r) fixed_shutdown" where
  "shutdown_at owns accept shutdown x = (case position owns (fixed_members shutdown) of
      None \<Rightarrow> Inl (shutdown, x)
    | Some i \<Rightarrow> (let member = fixed_members shutdown ! i; others = remove_at i (fixed_members shutdown) in
        case accept member x of
          Inr member \<Rightarrow> Inr (shutdown\<lparr>fixed_members := insert_at i member others\<rparr>)
        | Inl (member, x) \<Rightarrow> Inl (shutdown\<lparr>fixed_members := insert_at i member others\<rparr>, x)))"

definition shutdown_accept_outcome :: "('k, 'v, 'a, 'r) fixed_shutdown \<Rightarrow> ('v, 'a, 'r) outcome child_report
    \<Rightarrow> ('k, 'v, 'a, 'r) fixed_shutdown \<times> ('v, 'a, 'r) outcome child_report + ('k, 'v, 'a, 'r) fixed_shutdown" where
  "shutdown_accept_outcome shutdown report =
     shutdown_at (\<lambda>m. owns_outcome_source m (report_child report)) leaving_accept_outcome shutdown report"

definition shutdown_accept_stop :: "('k, 'v, 'a, 'r) fixed_shutdown \<Rightarrow> 'a child_stopped
    \<Rightarrow> ('k, 'v, 'a, 'r) fixed_shutdown \<times> 'a child_stopped + ('k, 'v, 'a, 'r) fixed_shutdown" where
  "shutdown_accept_stop shutdown stopped = shutdown_at (\<lambda>m. leaving_accepts_stop m stopped) leaving_accept_stop shutdown stopped"

section \<open>Births during a shutdown\<close>

fun awaiting_proxies_from :: "('k member_role \<times> token \<times> 'v operation) list \<Rightarrow> ('k, 'v, 'a, 'r) fixed_shutdown_member list
    \<Rightarrow> ('k, 'v, 'a, 'r) fixed_shutdown_member list + ('k member_role \<times> token \<times> 'v operation) list" where
  "awaiting_proxies_from awaiting [] = Inr awaiting"
| "awaiting_proxies_from awaiting (member # remaining) = (case into_awaiting_proxy member of
      Inr entry \<Rightarrow> awaiting_proxies_from (awaiting @ [entry]) remaining
    | Inl member \<Rightarrow> Inl (map (\<lambda>(role, witness, operation). ShutdownAwaitingBirth role witness operation) awaiting
        @ [member] @ remaining))"

fun births_resolved :: "heap \<Rightarrow> (('k member_role \<times> token \<times> 'v operation) \<times> ('v, 'a, 'r) proxy_settlement) list
    \<Rightarrow> heap \<times> ('k, 'v, 'a, 'r) fixed_shutdown_member list \<times> 'v operation list" where
  "births_resolved h [] = (h, [], [])"
| "births_resolved h (((role, witness, operation), settlement) # rest) =
     (case resolve_proxy_creation settlement of
        ProxyCommitted proxy \<Rightarrow>
          (let (h, exiting, shutdown) = exiting_begin h role (operation_creation operation) proxy;
               (h, members, operations) = births_resolved h rest
           in (h, ShutdownProxy (FlowContinue exiting) (OwnedInputCancelled witness operation) None # members,
               shutdown # operations))
      | ProxyNotCommitted settlement \<Rightarrow>
          (let (h, members, operations) = births_resolved h rest
           in (h, ShutdownAbsentProxy role witness operation (Some settlement) # members, operations)))"

definition births_absent :: "('k member_role \<times> token \<times> 'v operation) list \<Rightarrow> ('k, 'v, 'a, 'r) fixed_shutdown_member list" where
  "births_absent awaiting = map (\<lambda>(role, witness, operation). ShutdownAbsentProxy role witness operation None) awaiting"

fun settlement_identities :: "('v, 'a, 'r) proxies_settled \<Rightarrow> (creation_id \<times> creation_kind) list" where
  "settlement_identities (CreationsSettled settlements) = map settlement_identity settlements"
| "settlement_identities (CreationsRejected creations reason) = map (\<lambda>c. (create_id c, create_kind c)) creations"
| "settlement_identities (CreationsCorrupt creations fault) = map (\<lambda>c. (create_id c, create_kind c)) creations"

definition shutdown_accept_births :: "heap \<Rightarrow> ('k, 'v, 'a, 'r) fixed_shutdown \<Rightarrow> ('v, 'a, 'r) proxies_settled
    \<Rightarrow> heap \<times> (('k, 'v, 'a, 'r) fixed_shutdown \<times> ('v, 'a, 'r) proxies_settled
       + ('k, 'v, 'a, 'r) fixed_shutdown \<times> 'v operation list)" where
  "shutdown_accept_births h shutdown proxies =
     (if fixed_unrouted shutdown \<noteq> None then (h, Inl (shutdown, proxies))
      else if \<not> (length (settlement_identities proxies) = length (fixed_members shutdown)
                \<and> list_all2 (\<lambda>identity m. awaits_creation m identity) (settlement_identities proxies) (fixed_members shutdown))
      then (h, Inl (shutdown, proxies))
      else case awaiting_proxies_from [] (fixed_members shutdown) of
          Inl members \<Rightarrow> (h, Inl (shutdown\<lparr>fixed_members := members\<rparr>, proxies))
        | Inr awaiting \<Rightarrow> (case proxies of
            CreationsSettled settlements \<Rightarrow>
              (let (h', members, operations) = births_resolved h (zip awaiting settlements)
               in (h', Inr (shutdown\<lparr>fixed_members := members\<rparr>, operations)))
          | CreationsRejected creations reason \<Rightarrow>
              (h, Inr (shutdown\<lparr>fixed_members := births_absent awaiting, fixed_unrouted := Some proxies\<rparr>, []))
          | CreationsCorrupt creations fault \<Rightarrow>
              (h, Inr (shutdown\<lparr>fixed_members := births_absent awaiting, fixed_unrouted := Some proxies\<rparr>, []))))"

end
