(* ===== verification/Roster_Owners.thy ===== *)
theory Roster_Owners
  imports Roster_Shutdown
begin

text \<open>
  The roster as a whole (\<^verbatim>\<open>supervisor/roster/member.rs\<close>, \<^verbatim>\<open>proxy/mod.rs\<close>, \<^verbatim>\<open>proxy/start.rs\<close>,
  \<^verbatim>\<open>proxy/outcome.rs\<close>, \<^verbatim>\<open>proxy/stop.rs\<close>, \<^verbatim>\<open>recovery/\<close>): queries over its owners, the creation of the
  proxies, the authorization of operations up to the startup limit, the routing of settlements,
  reports, stops, preparations and timers to the owner they belong to, and the recovery of a member
  whose worker stopped.
\<close>

section \<open>Queries\<close>

fun recovery_participants :: "('k, 'v, 'a, 'r) recovery_roster_owner \<Rightarrow> 'k member_role list" where
  "recovery_participants (RecoveryPreparing p) = map participant_role (preparing_participants p)"
| "recovery_participants (RecoveryAdmitted batch) = map recovering_role (batch_members batch)"

fun owner_roles :: "('k, 'v, 'a, 'r) roster_owner \<Rightarrow> 'k member_role list" where
  "owner_roles (OwnerStarting m) = [starting_role m]"
| "owner_roles (OwnerStopping m) = [exiting_role m]"
| "owner_roles (OwnerOnline m) = [online_role m]"
| "owner_roles (OwnerEmpty m) = [empty_role m]"
| "owner_roles (OwnerRecovery recovery) = recovery_participants recovery"
| "owner_roles (OwnerUnrecovered m) = [exiting_role (unrecovered_proxy m)]"
| "owner_roles (OwnerRetired m) = [retired_role m]"

definition recovery_status :: "('k, 'v, 'a, 'r) recovery_roster_owner \<Rightarrow> (roster_position \<times> 'r member_status) list" where
  "recovery_status recovery = map (\<lambda>role. (role_position role, phase_status PhaseRecovering)) (recovery_participants recovery)"

fun owner_status :: "('k, 'v, 'a, 'r) roster_owner \<Rightarrow> (roster_position \<times> 'r member_status) list" where
  "owner_status (OwnerStarting m) = (let (role, phase) = starting_role_phase m in [(role_position role, phase_status phase)])"
| "owner_status (OwnerStopping m) = [(role_position (exiting_role m), phase_status PhaseStopping)]"
| "owner_status (OwnerOnline m) = [(role_position (online_role m), MemberReady (recipient (online_proxy m)))]"
| "owner_status (OwnerEmpty m) = [(role_position (empty_role m), phase_status PhaseEmpty)]"
| "owner_status (OwnerRecovery recovery) = recovery_status recovery"
| "owner_status (OwnerUnrecovered m) = [(role_position (exiting_role (unrecovered_proxy m)), phase_status PhaseStopping)]"
| "owner_status (OwnerRetired m) = [(role_position (retired_role m), phase_status PhaseRetired)]"

definition find_role :: "('k, 'v, 'a, 'r) recovery_roster_owner \<Rightarrow> 'k \<Rightarrow> 'k option" where
  "find_role recovery expected = find (\<lambda>role. role = expected) (map role_name (recovery_participants recovery))"

definition capability_of :: "'k member_role \<Rightarrow> unavailable_phase + 'r \<Rightarrow> 'k \<Rightarrow> (unavailable_phase + 'r) option" where
  "capability_of role current expected = (if role_name role = expected then Some current else None)"

fun owner_capability :: "('k, 'v, 'a, 'r) roster_owner \<Rightarrow> 'k \<Rightarrow> (unavailable_phase + 'r) option" where
  "owner_capability (OwnerStarting m) expected =
     (let (role, phase) = starting_role_phase m in capability_of role (Inl phase) expected)"
| "owner_capability (OwnerStopping m) expected = capability_of (exiting_role m) (Inl PhaseStopping) expected"
| "owner_capability (OwnerOnline m) expected = capability_of (online_role m) (Inr (recipient (online_proxy m))) expected"
| "owner_capability (OwnerEmpty m) expected = capability_of (empty_role m) (Inl PhaseEmpty) expected"
| "owner_capability (OwnerRecovery recovery) expected =
     (case find_role recovery expected of Some role \<Rightarrow> Some (Inl PhaseRecovering) | None \<Rightarrow> None)"
| "owner_capability (OwnerUnrecovered m) expected =
     capability_of (exiting_role (unrecovered_proxy m)) (Inl PhaseStopping) expected"
| "owner_capability (OwnerRetired m) expected = capability_of (retired_role m) (Inl PhaseRetired) expected"

fun recovery_live_role :: "('k, 'v, 'a, 'r) recovery_roster_owner \<Rightarrow> creation_id \<Rightarrow> 'k option" where
  "recovery_live_role (RecoveryPreparing p) child =
     find_map (\<lambda>participant. participant_live_role participant child) (preparing_participants p)"
| "recovery_live_role (RecoveryAdmitted batch) child =
     find_map (\<lambda>member. recovering_live_role member child) (batch_members batch)"

fun owner_live_role :: "('k, 'v, 'a, 'r) roster_owner \<Rightarrow> creation_id \<Rightarrow> 'k option" where
  "owner_live_role (OwnerStarting m) child = starting_live_role m child"
| "owner_live_role (OwnerStopping m) child = exiting_live_role m child"
| "owner_live_role (OwnerOnline m) child = (if online_creation m = child then Some (role_name (online_role m)) else None)"
| "owner_live_role (OwnerEmpty m) child = empty_live_role m child"
| "owner_live_role (OwnerRecovery recovery) child = recovery_live_role recovery child"
| "owner_live_role (OwnerUnrecovered m) child = exiting_live_role (unrecovered_proxy m) child"
| "owner_live_role (OwnerRetired m) child = None"

text \<open>
  \<^verbatim>\<open>Iterator::min\<close> and \<^verbatim>\<open>max\<close> of the positions of an owner, as a sort key: \<^verbatim>\<open>None\<close>, the minimum of
  nothing, is the least \<^verbatim>\<open>Option\<close>.
\<close>

definition least_position :: "nat list \<Rightarrow> nat option" where
  "least_position xs = (if xs = [] then None else Some (fold min (tl xs) (hd xs)))"

definition greatest_position :: "nat list \<Rightarrow> nat option" where
  "greatest_position xs = (if xs = [] then None else Some (fold max (tl xs) (hd xs)))"

definition first_roster_position :: "('k, 'v, 'a, 'r) roster_owner \<Rightarrow> roster_position option" where
  "first_roster_position own = least_position (map role_position (owner_roles own))"

definition last_roster_position :: "('k, 'v, 'a, 'r) roster_owner \<Rightarrow> roster_position option" where
  "last_roster_position own = greatest_position (map role_position (owner_roles own))"

fun option_key :: "nat option \<Rightarrow> nat" where
  "option_key None = 0"
| "option_key (Some n) = Suc n"

fun roster_snapshot :: "('k, 'v, 'a, 'r) fixed_roster \<Rightarrow> 'r member_status list option" where
  "roster_snapshot (RosterOperating owners) = Some (map snd (sort_key fst (concat (map owner_status owners))))"
| "roster_snapshot (RosterShuttingDown shutdown) =
     Some (map snd (sort_key fst (concat (map leaving_status (fixed_members shutdown)))))"
| "roster_snapshot roster = None"

fun shutdown_capability :: "('k, 'v, 'a, 'r) fixed_shutdown \<Rightarrow> 'k \<Rightarrow> (unavailable_phase + 'r) option" where
  "shutdown_capability shutdown expected =
     map_option Inl (find_map (\<lambda>m. leaving_capability_phase m expected) (fixed_members shutdown))"

definition capability_answer :: "'k \<Rightarrow> (unavailable_phase + 'r) option \<Rightarrow> ('k, 'r) capability_result" where
  "capability_answer role current = (case current of
      Some (Inr proxy) \<Rightarrow> CapabilityReady role proxy
    | Some (Inl phase) \<Rightarrow> CapabilityUnavailable role phase
    | None \<Rightarrow> CapabilityUnknownRole role)"

fun roster_capability :: "('k, 'v, 'a, 'r) fixed_roster \<Rightarrow> 'k \<Rightarrow> 'k + ('k, 'r) capability_result" where
  "roster_capability (RosterOperating owners) role =
     Inr (capability_answer role (find_map (\<lambda>own. owner_capability own role) owners))"
| "roster_capability (RosterShuttingDown shutdown) role = Inr (capability_answer role (shutdown_capability shutdown role))"
| "roster_capability roster role = Inl role"

fun roster_live_role :: "('k, 'v, 'a, 'r) fixed_roster \<Rightarrow> creation_id \<Rightarrow> 'k option" where
  "roster_live_role (RosterOperating owners) child = find_map (\<lambda>own. owner_live_role own child) owners"
| "roster_live_role (RosterShuttingDown shutdown) child = find_map (\<lambda>m. leaving_live_role m child) (fixed_members shutdown)"
| "roster_live_role roster child = None"

section \<open>Creation of the proxies\<close>

fun issue_many :: "creation_sequence \<Rightarrow> nat \<Rightarrow> creation_sequence \<times> creation_id list option" where
  "issue_many creations 0 = (creations, Some [])"
| "issue_many creations (Suc n) = (case creation_issue creations of
      (creations, None) \<Rightarrow> (creations, None)
    | (creations, Some i) \<Rightarrow> (case issue_many creations n of
          (creations, None) \<Rightarrow> (creations, None)
        | (creations, Some ids) \<Rightarrow> (creations, Some (i # ids))))"

fun begin_members :: "heap \<Rightarrow> roster_position \<Rightarrow> (('k, 'v) prepared \<times> creation_id) list
    \<Rightarrow> heap \<times> ('k, 'v, 'a, 'r) roster_owner list" where
  "begin_members h at [] = (h, [])"
| "begin_members h at ((member, creation) # rest) =
     (let (h, witness, operation) = operation_initial h creation (prepared_submission member);
          (h, owners) = begin_members h (Suc at) rest
      in (h, OwnerStarting (CreatingProxy (role_declared at (prepared_role member)) witness operation) # owners))"

definition roster_begin :: "heap \<Rightarrow> ('k, 'v, 'a, 'r) fixed_roster \<Rightarrow> creation_sequence
    \<Rightarrow> heap \<times> creation_sequence \<times> (('k, 'v, 'a, 'r) fixed_roster \<times> ('s, 'k, 'v, 'a, 'r, 'q) fixed_error
       + ('k, 'v, 'a, 'r) fixed_roster \<times> creation_id list \<times> ('v, 'a, 'r) proxy_child create_child list)" where
  "roster_begin h roster creations = (case roster of
      RosterNew members \<Rightarrow> (case issue_many creations (length members) of
          (creations, None) \<Rightarrow> (h, creations, Inl (RosterStopped, ProxyCreationsExhausted members))
        | (creations, Some ids) \<Rightarrow> (let (h', owners) = begin_members h 0 (zip members ids)
            in (h', creations, Inr (RosterOperating owners, ids, map (\<lambda>i. create_birth i dormant_proxy) ids))))
    | _ \<Rightarrow> (h, creations, Inl (roster, InitializationUnavailable)))"

section \<open>Births\<close>

fun owner_awaits_birth :: "('k, 'v, 'a, 'r) roster_owner \<Rightarrow> creation_id \<Rightarrow> bool" where
  "owner_awaits_birth (OwnerStarting m) creation \<longleftrightarrow> starting_awaits_birth m creation"
| "owner_awaits_birth own creation \<longleftrightarrow> False"

fun owner_into_creating :: "('k, 'v, 'a, 'r) roster_owner
    \<Rightarrow> ('k, 'v, 'a, 'r) roster_owner + 'k member_role \<times> token \<times> 'v operation" where
  "owner_into_creating (OwnerStarting m) = (case starting_into_creating m of
      Inr entry \<Rightarrow> Inr entry | Inl m \<Rightarrow> Inl (OwnerStarting m))"
| "owner_into_creating own = Inl own"

fun creating_from :: "('k member_role \<times> token \<times> 'v operation) list \<Rightarrow> ('k, 'v, 'a, 'r) roster_owner list
    \<Rightarrow> ('k, 'v, 'a, 'r) roster_owner list + ('k member_role \<times> token \<times> 'v operation) list" where
  "creating_from creating [] = Inr creating"
| "creating_from creating (own # remaining) = (case owner_into_creating own of
      Inr entry \<Rightarrow> creating_from (creating @ [entry]) remaining
    | Inl own \<Rightarrow> Inl (map (\<lambda>(role, witness, operation). OwnerStarting (CreatingProxy role witness operation)) creating
        @ [own] @ remaining))"

definition roster_accept_births :: "('k, 'v, 'a, 'r) fixed_roster \<Rightarrow> ('v, 'a, 'r) proxies_settled
    \<Rightarrow> ('k, 'v, 'a, 'r) fixed_roster \<times> ('s, 'k, 'v, 'a, 'r, 'q) fixed_error + ('k, 'v, 'a, 'r) fixed_roster" where
  "roster_accept_births roster proxies = (case roster of
      RosterOperating members \<Rightarrow> (case proxies of
          CreationsSettled settlements \<Rightarrow>
            (if length settlements \<noteq> length members
                \<or> \<not> list_all2 (\<lambda>settlement member. snd (settlement_identity settlement) = Birth
                     \<and> owner_awaits_birth member (fst (settlement_identity settlement))) settlements members
             then Inl (roster, InputRejected (FixedCreationsSettled proxies))
             else (case creating_from [] members of
                 Inl members \<Rightarrow> Inl (RosterOperating members, InputRejected (FixedCreationsSettled proxies))
               | Inr creating \<Rightarrow> Inr (RosterOperating (map (\<lambda>((role, witness, operation), settlement).
                     OwnerStarting (proxy_created role witness operation settlement)) (zip creating settlements)))))
        | _ \<Rightarrow> Inl (roster, ProxyCreationRejected proxies))
    | _ \<Rightarrow> Inl (roster, InputRejected (FixedCreationsSettled proxies)))"

section \<open>Authorization\<close>

datatype (plugins only: code) ('k, 'v, 'a, 'r) input_authorization =
    AuthorizationIssued "('k, 'v, 'a, 'r) roster_owner" "'v operation"
  | AuthorizationContinue "('k, 'v, 'a, 'r) roster_owner"
  | AuthorizationWait "('k, 'v, 'a, 'r) roster_owner"

fun starting_authorize :: "('k, 'v, 'a, 'r) proxy_starting_member \<Rightarrow> ('k, 'v, 'a, 'r) input_authorization" where
  "starting_authorize (WaitingForAuthorization role proxy witness operation) =
     AuthorizationIssued (OwnerStarting (InputDispatched role (operation_creation operation) proxy witness)) operation"
| "starting_authorize (CreatingProxy role witness operation) = AuthorizationWait (OwnerStarting (CreatingProxy role witness operation))"
| "starting_authorize (ProxyBirthRejected role witness operation settlement) =
     AuthorizationWait (OwnerStarting (ProxyBirthRejected role witness operation settlement))"
| "starting_authorize (ProxyInputRejected role creation proxy settlement) =
     AuthorizationWait (OwnerStarting (ProxyInputRejected role creation proxy settlement))"
| "starting_authorize (InputDispatched role creation proxy witness) =
     AuthorizationContinue (OwnerStarting (InputDispatched role creation proxy witness))"
| "starting_authorize (AwaitingProxyOutcome role creation proxy operation) =
     AuthorizationContinue (OwnerStarting (AwaitingProxyOutcome role creation proxy operation))"

fun recovery_authorization_count :: "('k, 'v, 'a, 'r) recovery_roster_owner \<Rightarrow> usize" where
  "recovery_authorization_count (RecoveryPreparing p) = 0"
| "recovery_authorization_count (RecoveryAdmitted batch) = batch_authorization_count batch"

fun recovery_authorize :: "heap \<Rightarrow> ('k, 'v, 'a, 'r) recovery_roster_owner
    \<Rightarrow> heap \<times> ('k, 'v, 'a, 'r) recovery_roster_owner \<times> 'v operation option" where
  "recovery_authorize h (RecoveryAdmitted batch) =
     (let (h', batch, operation) = batch_authorize h batch in (h', RecoveryAdmitted batch, operation))"
| "recovery_authorize h (RecoveryPreparing p) = (h, RecoveryPreparing p, None)"

fun authorization_count :: "('k, 'v, 'a, 'r) roster_owner \<Rightarrow> usize" where
  "authorization_count (OwnerStarting m) = starting_authorization_count m"
| "authorization_count (OwnerRecovery recovery) = recovery_authorization_count recovery"
| "authorization_count own = 0"

fun owner_authorize :: "heap \<Rightarrow> ('k, 'v, 'a, 'r) roster_owner \<Rightarrow> heap \<times> ('k, 'v, 'a, 'r) input_authorization" where
  "owner_authorize h (OwnerStarting m) = (h, starting_authorize m)"
| "owner_authorize h (OwnerRecovery recovery) = (case recovery_authorize h recovery of
      (h', recovery, Some operation) \<Rightarrow> (h', AuthorizationIssued (OwnerRecovery recovery) operation)
    | (h', recovery, None) \<Rightarrow> (h', AuthorizationContinue (OwnerRecovery recovery)))"
| "owner_authorize h own = (h, AuthorizationContinue own)"

definition occupied :: "('k, 'v, 'a, 'r) roster_owner list \<Rightarrow> usize" where
  "occupied owners = sum_list (map authorization_count owners)"

text \<open>
  The loop of \<^verbatim>\<open>authorize\<close>: an owner that issued is asked again while operations are available. Each
  round uses up one available operation or one owner.
\<close>

function authorize_owners :: "heap \<Rightarrow> usize \<Rightarrow> ('k, 'v, 'a, 'r) roster_owner list \<Rightarrow> ('k, 'v, 'a, 'r) roster_owner list
    \<Rightarrow> 'v operation list \<Rightarrow> heap \<times> ('k, 'v, 'a, 'r) roster_owner list \<times> 'v operation list" where
  "authorize_owners h available [] next operations = (h, next, operations)"
| "authorize_owners h available (own # remaining) next operations =
     (if available = 0 then (h, next @ own # remaining, operations)
      else case owner_authorize h own of
          (h', AuthorizationIssued own operation) \<Rightarrow>
            authorize_owners h' (available - 1) (own # remaining) next (operations @ [operation])
        | (h', AuthorizationContinue own) \<Rightarrow> authorize_owners h' available remaining (next @ [own]) operations
        | (h', AuthorizationWait own) \<Rightarrow> (h', next @ own # remaining, operations))"
  by pat_completeness auto
termination
  by (relation "measures [\<lambda>(h, available, owners, _). available, \<lambda>(h, available, owners, _). length owners]") auto

definition roster_authorize :: "heap \<Rightarrow> usize \<Rightarrow> ('k, 'v, 'a, 'r) fixed_roster
    \<Rightarrow> heap \<times> (('k, 'v, 'a, 'r) fixed_roster \<times> ('s, 'k, 'v, 'a, 'r, 'q) fixed_error
       + ('k, 'v, 'a, 'r) fixed_roster \<times> 'v operation list)" where
  "roster_authorize h maximum roster = (case roster of
      RosterOperating members \<Rightarrow>
        (let members = sort_key (option_key \<circ> first_roster_position) members in
         if maximum < occupied members
         then (h, Inl (RosterOperating members, AuthorizationStateRejected (occupied members) maximum))
         else (let (h', owners, operations) = authorize_owners h (maximum - occupied members) members [] []
               in (h', Inr (RosterOperating owners, operations))))
    | _ \<Rightarrow> (h, Inr (roster, [])))"

section \<open>Settled operations\<close>

fun owner_accept_operation :: "('k, 'v, 'a, 'r) roster_owner \<Rightarrow> ('v, 'r) input_result
    \<Rightarrow> ('k, 'v, 'a, 'r) roster_owner \<times> ('v, 'r) input_result + ('k, 'v, 'a, 'r) roster_owner \<times> 'k option" where
  "owner_accept_operation (OwnerStarting m) settlement = (case starting_accept_operation m settlement of
      Inr m \<Rightarrow> Inr (OwnerStarting m, None)
    | Inl (m, settlement) \<Rightarrow> Inl (OwnerStarting m, settlement))"
| "owner_accept_operation (OwnerStopping m) settlement = (case exiting_accept_operation m settlement of
      Inr (FlowContinue m) \<Rightarrow> Inr (OwnerStopping m, None)
    | Inr (FlowBreak gone) \<Rightarrow> Inr (OwnerRetired gone, Some (role_name (retired_role gone)))
    | Inl (m, settlement) \<Rightarrow> Inl (OwnerStopping m, settlement))"
| "owner_accept_operation (OwnerUnrecovered m) settlement = (case unrecovered_accept_operation m settlement of
      Inr (FlowContinue m) \<Rightarrow> Inr (OwnerUnrecovered m, None)
    | Inr (FlowBreak gone) \<Rightarrow> Inr (OwnerRetired gone, Some (role_name (retired_role gone)))
    | Inl (m, settlement) \<Rightarrow> Inl (OwnerUnrecovered m, settlement))"
| "owner_accept_operation own settlement = Inl (own, settlement)"

text \<open>\<^verbatim>\<open>swap_remove\<close>, \<^verbatim>\<open>push\<close> and \<^verbatim>\<open>swap\<close> put the owner back where it was, so the order stays.\<close>

definition roster_accept_operation :: "('k, 'v, 'a, 'r) fixed_roster \<Rightarrow> ('v, 'r) input_result
    \<Rightarrow> ('k, 'v, 'a, 'r) fixed_roster \<times> ('s, 'k, 'v, 'a, 'r, 'q) fixed_error + ('k, 'v, 'a, 'r) fixed_roster \<times> 'k option" where
  "roster_accept_operation roster settlement = (case roster of
      RosterOperating members \<Rightarrow> (case offer_each owner_accept_operation [] members settlement of
          Inr (examined, (own, gone), rest) \<Rightarrow> Inr (RosterOperating (examined @ [own] @ rest), gone)
        | Inl (members, settlement) \<Rightarrow> Inl (RosterOperating members, InputRejected (FixedInputSettled settlement)))
    | _ \<Rightarrow> Inl (roster, InputRejected (FixedInputSettled settlement)))"

text \<open>The loops over the admitted recoveries: a batch that lost its last member leaves the roster.\<close>

fun admitted_offer :: "(('k, 'v, 'a, 'r) recovery_batch \<Rightarrow> 'x \<Rightarrow> ('k, 'v, 'a, 'r) recovery_batch \<times> 'x
      + (('k, 'v, 'a, 'r) recovery_batch \<times> ('k, 'v, 'a, 'r) recovery_completion, ('k, 'v, 'a, 'r) recovery_batch) control_flow)
    \<Rightarrow> ('k, 'v, 'a, 'r) roster_owner \<Rightarrow> 'x \<Rightarrow> ('k, 'v, 'a, 'r) roster_owner \<times> 'x
      + (('k, 'v, 'a, 'r) recovery_batch \<times> ('k, 'v, 'a, 'r) recovery_completion, ('k, 'v, 'a, 'r) recovery_batch) control_flow" where
  "admitted_offer accept (OwnerRecovery (RecoveryAdmitted batch)) x = (case accept batch x of
      Inr flow \<Rightarrow> Inr flow
    | Inl (batch, x) \<Rightarrow> Inl (OwnerRecovery (RecoveryAdmitted batch), x))"
| "admitted_offer accept own x = Inl (own, x)"

definition remaining_batch :: "('k, 'v, 'a, 'r) recovery_batch \<Rightarrow> ('k, 'v, 'a, 'r) roster_owner list" where
  "remaining_batch batch = (if batch_members batch = [] then [] else [OwnerRecovery (RecoveryAdmitted batch)])"

definition roster_offer :: "(('k, 'v, 'a, 'r) recovery_batch \<Rightarrow> 'x \<Rightarrow> ('k, 'v, 'a, 'r) recovery_batch \<times> 'x
      + (('k, 'v, 'a, 'r) recovery_batch \<times> ('k, 'v, 'a, 'r) recovery_completion, ('k, 'v, 'a, 'r) recovery_batch) control_flow)
    \<Rightarrow> ('k, 'v, 'a, 'r) fixed_roster \<Rightarrow> 'x \<Rightarrow> ('k, 'v, 'a, 'r) fixed_roster \<times> 'x
      + (('k, 'v, 'a, 'r) roster_owner list \<times> ('k, 'v, 'a, 'r) recovery_completion, ('k, 'v, 'a, 'r) fixed_roster) control_flow" where
  "roster_offer accept roster x = (case roster of
      RosterOperating owners \<Rightarrow> (case offer_each (admitted_offer accept) [] owners x of
          Inr (examined, FlowContinue batch, rest) \<Rightarrow>
            Inr (FlowContinue (RosterOperating (examined @ [OwnerRecovery (RecoveryAdmitted batch)] @ rest)))
        | Inr (examined, FlowBreak (batch, completed), rest) \<Rightarrow>
            Inr (FlowBreak (examined @ remaining_batch batch @ rest, completed))
        | Inl (owners, x) \<Rightarrow> Inl (RosterOperating owners, x))
    | _ \<Rightarrow> Inl (roster, x))"

definition roster_accept_replacement_operation :: "('k, 'v, 'a, 'r) fixed_roster \<Rightarrow> ('v, 'r) input_result
    \<Rightarrow> ('k, 'v, 'a, 'r) fixed_roster \<times> ('v, 'r) input_result
      + (('k, 'v, 'a, 'r) roster_owner list \<times> ('k, 'v, 'a, 'r) recovery_completion, ('k, 'v, 'a, 'r) fixed_roster) control_flow" where
  "roster_accept_replacement_operation roster settlement = roster_offer batch_accept_operation roster settlement"

definition roster_accept_recovery_report :: "('k, 'v, 'a, 'r) fixed_roster \<Rightarrow> ('v, 'a, 'r) outcome child_report
    \<Rightarrow> ('k, 'v, 'a, 'r) fixed_roster \<times> ('v, 'a, 'r) outcome child_report
      + (('k, 'v, 'a, 'r) roster_owner list \<times> ('k, 'v, 'a, 'r) recovery_completion, ('k, 'v, 'a, 'r) fixed_roster) control_flow" where
  "roster_accept_recovery_report roster report = roster_offer batch_accept_report roster report"

section \<open>Initial outcomes\<close>

datatype (plugins only: code) ('k, 'v, 'a, 'r) member_initial_decision =
    MemberInitialReady "('k, 'v, 'r) online_member"
  | MemberInitialFailed "('k, 'v, 'a, 'r) roster_owner" 'k "('v, 'a, 'r) outcome"
  | MemberInitialRejected "('k, 'v, 'a, 'r) roster_owner" "('v, 'a, 'r) outcome"

fun awaits_initial_outcome :: "('k, 'v, 'a, 'r) roster_owner \<Rightarrow> creation_id \<Rightarrow> bool" where
  "awaits_initial_outcome (OwnerStarting (AwaitingProxyOutcome role creation proxy operation)) child \<longleftrightarrow> creation = child"
| "awaits_initial_outcome own child \<longleftrightarrow> False"

fun owner_accept_initial_outcome :: "('k, 'v, 'a, 'r) roster_owner \<Rightarrow> ('v, 'a, 'r) outcome
    \<Rightarrow> ('k, 'v, 'a, 'r) member_initial_decision" where
  "owner_accept_initial_outcome (OwnerStarting (AwaitingProxyOutcome role creation proxy operation)) outcome =
     (case outcome of
        OutcomeInitial (InitialResolved (ResultReady attempt readiness)) \<Rightarrow> MemberInitialReady
          \<lparr>online_role = role, online_creation = creation, online_proxy = proxy, online_worker = attempt,
           online_readiness = readiness\<rparr>
      | OutcomeInitial initial \<Rightarrow>
          MemberInitialFailed (OwnerStarting (AwaitingProxyOutcome role creation proxy operation)) (role_name role) outcome
      | _ \<Rightarrow> MemberInitialRejected (OwnerStarting (AwaitingProxyOutcome role creation proxy operation)) outcome)"
| "owner_accept_initial_outcome own outcome = MemberInitialRejected own outcome"

datatype (plugins only: code) ('s, 'k, 'v, 'a, 'r, 'q) initial_proxy_decision =
    InitialReady "('k, 'v, 'a, 'r) roster_owner list" "('k, 'v, 'r) online_member"
  | InitialFailed "('k, 'v, 'a, 'r) roster_owner list" creation_id 'k "('v, 'a, 'r) outcome"
  | InitialRejected "('k, 'v, 'a, 'r) fixed_roster" "('s, 'k, 'v, 'a, 'r, 'q) fixed_error"

definition roster_accept_initial_outcome :: "('k, 'v, 'a, 'r) fixed_roster \<Rightarrow> ('v, 'a, 'r) outcome child_report
    \<Rightarrow> ('s, 'k, 'v, 'a, 'r, 'q) initial_proxy_decision" where
  "roster_accept_initial_outcome roster report = (case roster of
      RosterOperating members \<Rightarrow>
        (case position (\<lambda>own. awaits_initial_outcome own (report_child report)) members of
           Some i \<Rightarrow> (let others = remove_at i members in
             case owner_accept_initial_outcome (members ! i) (report_report report) of
               MemberInitialReady m \<Rightarrow> InitialReady others m
             | MemberInitialFailed own role outcome \<Rightarrow> InitialFailed (insert_at i own others) (report_child report) role outcome
             | MemberInitialRejected own outcome \<Rightarrow> InitialRejected (RosterOperating (insert_at i own others))
                 (InputRejected (FixedReported \<lparr>report_child = report_child report, report_report = outcome\<rparr>)))
         | None \<Rightarrow> InitialRejected roster (InputRejected (FixedReported report)))
    | _ \<Rightarrow> InitialRejected roster (InputRejected (FixedReported report)))"

fun owner_begin_stop :: "heap \<Rightarrow> ('k, 'v, 'a, 'r) roster_owner
    \<Rightarrow> heap \<times> (('k, 'v, 'a, 'r) roster_owner + ('k, 'v, 'a, 'r) roster_owner \<times> 'v operation)" where
  "owner_begin_stop h (OwnerStarting (AwaitingProxyOutcome role creation proxy operation)) =
     (let (h', stopping, shutdown) = exiting_begin h role creation proxy in (h', Inr (OwnerStopping stopping, shutdown)))"
| "owner_begin_stop h own = (h, Inl own)"

definition roster_begin_stop :: "heap \<Rightarrow> ('k, 'v, 'a, 'r) fixed_roster \<Rightarrow> creation_id
    \<Rightarrow> heap \<times> (('k, 'v, 'a, 'r) fixed_roster + ('k, 'v, 'a, 'r) fixed_roster \<times> 'v operation)" where
  "roster_begin_stop h roster child = (case roster of
      RosterOperating members \<Rightarrow> (case position (\<lambda>own. awaits_initial_outcome own child) members of
          None \<Rightarrow> (h, Inl roster)
        | Some i \<Rightarrow> (case owner_begin_stop h (members ! i) of
              (h', Inr (own, shutdown)) \<Rightarrow> (h', Inr (RosterOperating (insert_at i own (remove_at i members)), shutdown))
            | (h', Inl own) \<Rightarrow> (h', Inl (RosterOperating (insert_at i own (remove_at i members))))))
    | _ \<Rightarrow> (h, Inl roster))"

section \<open>Stops of proxies\<close>

fun owner_accepts_stop :: "('k, 'v, 'a, 'r) roster_owner \<Rightarrow> 'a child_stopped \<Rightarrow> bool" where
  "owner_accepts_stop (OwnerStopping m) stopped \<longleftrightarrow> exiting_accepts_stop m stopped"
| "owner_accepts_stop (OwnerUnrecovered m) stopped \<longleftrightarrow> exiting_accepts_stop (unrecovered_proxy m) stopped"
| "owner_accepts_stop own stopped \<longleftrightarrow> False"

fun owner_accept_stop :: "('k, 'v, 'a, 'r) roster_owner \<Rightarrow> 'a child_stopped
    \<Rightarrow> ('k, 'v, 'a, 'r) roster_owner \<times> 'a child_stopped + ('k, 'v, 'a, 'r) roster_owner \<times> 'k option" where
  "owner_accept_stop (OwnerStopping m) stopped = (case exiting_accept_stop m stopped of
      Inr (FlowContinue m) \<Rightarrow> Inr (OwnerStopping m, None)
    | Inr (FlowBreak gone) \<Rightarrow> Inr (OwnerRetired gone, Some (role_name (retired_role gone)))
    | Inl (m, stopped) \<Rightarrow> Inl (OwnerStopping m, stopped))"
| "owner_accept_stop (OwnerUnrecovered m) stopped = (case unrecovered_accept_stop m stopped of
      Inr (FlowContinue m) \<Rightarrow> Inr (OwnerUnrecovered m, None)
    | Inr (FlowBreak gone) \<Rightarrow> Inr (OwnerRetired gone, Some (role_name (retired_role gone)))
    | Inl (m, stopped) \<Rightarrow> Inl (OwnerUnrecovered m, stopped))"
| "owner_accept_stop own stopped = Inl (own, stopped)"

definition roster_accept_proxy_stop :: "('k, 'v, 'a, 'r) fixed_roster \<Rightarrow> 'a child_stopped
    \<Rightarrow> ('k, 'v, 'a, 'r) fixed_roster \<times> ('s, 'k, 'v, 'a, 'r, 'q) fixed_error + ('k, 'v, 'a, 'r) fixed_roster \<times> 'k option" where
  "roster_accept_proxy_stop roster stopped = (case roster of
      RosterOperating members \<Rightarrow> (case position (\<lambda>own. owner_accepts_stop own stopped) members of
          None \<Rightarrow> Inl (roster, InputRejected (FixedProxyStopped stopped))
        | Some i \<Rightarrow> (let others = remove_at i members in
            case owner_accept_stop (members ! i) stopped of
              Inr (own, gone) \<Rightarrow> Inr (RosterOperating (insert_at i own others), gone)
            | Inl (own, stopped) \<Rightarrow> Inl (RosterOperating (insert_at i own others), InputRejected (FixedProxyStopped stopped))))
    | _ \<Rightarrow> Inl (roster, InputRejected (FixedProxyStopped stopped)))"

section \<open>Stops of workers\<close>

record ('k, 'v, 'a, 'r) accepted_worker_stop =
  accepted_owners :: "('k, 'v, 'a, 'r) roster_owner list"
  accepted_member :: "('k, 'v, 'a, 'r) stopped_member"

fun owns_online_proxy :: "('k, 'v, 'a, 'r) roster_owner \<Rightarrow> creation_id \<Rightarrow> bool" where
  "owns_online_proxy (OwnerOnline m) child \<longleftrightarrow> online_creation m = child"
| "owns_online_proxy own child \<longleftrightarrow> False"

definition roster_accept_worker_stop :: "('k, 'v, 'a, 'r) fixed_roster \<Rightarrow> ('v, 'a, 'r) outcome child_report
    \<Rightarrow> ('k, 'v, 'a, 'r) fixed_roster \<times> ('v, 'a, 'r) outcome child_report + ('k, 'v, 'a, 'r) accepted_worker_stop" where
  "roster_accept_worker_stop roster report = (case roster of
      RosterOperating owners \<Rightarrow> (case position (\<lambda>own. owns_online_proxy own (report_child report)) owners of
          None \<Rightarrow> Inl (roster, report)
        | Some i \<Rightarrow> (let others = remove_at i owners in
            case owners ! i of
              OwnerOnline m \<Rightarrow> (case report_report report of
                  OutcomeWorkerStopped worker stopped \<Rightarrow>
                    (if worker \<noteq> online_worker m then Inl (RosterOperating (insert_at i (OwnerOnline m) others), report)
                     else Inr \<lparr>accepted_owners = others, accepted_member =
                       \<lparr>halted_role = online_role m, halted_creation = online_creation m, halted_proxy = online_proxy m,
                        halted_worker = online_worker m, halted_readiness = online_readiness m, halted_stopped = stopped\<rparr>\<rparr>)
                | _ \<Rightarrow> Inl (RosterOperating (insert_at i (OwnerOnline m) others), report))
            | own \<Rightarrow> Inl (RosterOperating (insert_at i own others), report)))
    | _ \<Rightarrow> Inl (roster, report))"

definition accepted_kind :: "('k, 'v, 'a, 'r) accepted_worker_stop \<Rightarrow> stop_kind" where
  "accepted_kind stop = stop_kind_of (stopped_outcome (halted_stopped (accepted_member stop)))"

definition release_stop :: "('k, 'v, 'a, 'r) accepted_worker_stop \<Rightarrow> ('k, 'v, 'a, 'r) fixed_roster \<times> 'k \<times> 'a child_stopped" where
  "release_stop stop = (let (member, stopped) = into_empty (accepted_member stop) in
     (RosterOperating (accepted_owners stop @ [OwnerEmpty member]), role_name (empty_role member), stopped))"

definition discharge_stop :: "('k, 'v, 'a, 'r) accepted_worker_stop \<Rightarrow> ('k, 'v, 'a, 'r) fixed_roster" where
  "discharge_stop stop = (let (member, stopped) = into_empty (accepted_member stop) in
     RosterOperating (accepted_owners stop @ [OwnerEmpty member]))"

definition reject_stop :: "('k, 'v, 'a, 'r) accepted_worker_stop
    \<Rightarrow> ('k, 'v, 'a, 'r) fixed_roster \<times> ('v, 'a, 'r) outcome child_report" where
  "reject_stop stop = (let m = accepted_member stop in
     (RosterOperating (accepted_owners stop @ [OwnerOnline \<lparr>online_role = halted_role m, online_creation = halted_creation m,
        online_proxy = halted_proxy m, online_worker = halted_worker m, online_readiness = halted_readiness m\<rparr>]),
      \<lparr>report_child = halted_creation m, report_report = OutcomeWorkerStopped (halted_worker m) (halted_stopped m)\<rparr>))"

text \<open>Which owners take part, by the strategy: those left over, those before and those behind the trigger.\<close>

definition before_position :: "roster_position \<Rightarrow> ('k, 'v, 'a, 'r) roster_owner \<Rightarrow> bool" where
  "before_position trigger own = (case last_roster_position own of Some at \<Rightarrow> at < trigger | None \<Rightarrow> False)"

fun select_participants :: "strategy \<Rightarrow> roster_position \<Rightarrow> ('k, 'v, 'a, 'r) roster_owner list
    \<Rightarrow> ('k, 'v, 'a, 'r) roster_owner list + ('k, 'v, 'a, 'r) roster_owner list
       \<times> ('k, 'v, 'a, 'r) recovery_participant list \<times> ('k, 'v, 'a, 'r) recovery_participant list" where
  "select_participants OneForOne trigger owners = Inr (owners, [], [])"
| "select_participants OneForAll trigger owners = (case select_recovery_peers owners of
      Inl owners \<Rightarrow> Inl owners
    | Inr selected \<Rightarrow> Inr ([], filter (\<lambda>p. role_position (participant_role p) < trigger) selected,
        filter (\<lambda>p. \<not> role_position (participant_role p) < trigger) selected))"
| "select_participants RestForOne trigger owners =
     (let before_trigger = filter (before_position trigger) owners;
          selected_owners = filter (\<lambda>own. \<not> before_position trigger own) owners
      in case select_recovery_peers selected_owners of
          Inr selected \<Rightarrow> Inr (before_trigger, [], selected)
        | Inl selected_owners \<Rightarrow> Inl (before_trigger @ selected_owners))"

definition begin_recovery :: "heap \<Rightarrow> ('k, 'v, 'a, 'r) accepted_worker_stop \<Rightarrow> 's recovery_preparation
    \<Rightarrow> heap \<times> (('k, 'v, 'a, 'r) accepted_worker_stop \<times> 's recovery_preparation
       + ('s, 'k, 'v) supervisor_recovery \<times> ('k, 'v, 'a, 'r) fixed_roster \<times> ('s, 'k) prepare_workers)" where
  "begin_recovery h stop preparation =
     (let member = accepted_member stop; trigger = role_position (halted_role member);
          owners = sort_key (option_key \<circ> last_roster_position) (accepted_owners stop)
      in case select_participants (settings_strategy (choice_settings preparation)) trigger owners of
          Inl owners \<Rightarrow> (h, Inl (stop\<lparr>accepted_owners := owners\<rparr>, preparation))
        | Inr (owners, before_trigger, after_trigger) \<Rightarrow>
            (let (h', recovery, selected, request) = preparing_begin h preparation before_trigger member after_trigger
             in (h', Inr (recovery, RosterOperating (owners @ [OwnerRecovery (RecoveryPreparing selected)]), request))))"

section \<open>Preparations\<close>

record ('s, 'k, 'v, 'a, 'r) failed_preparation =
  failed_owners :: "('k, 'v, 'a, 'r) roster_owner list"
  failed_member :: "('k, 'v, 'a, 'r) stopped_member"
  failed_source :: 's
  failed_diagnostic :: "('k, 'v) worker_preparation_failure"

fun owner_accepts_start :: "('s, 'k) preparation_start \<Rightarrow> ('k, 'v, 'a, 'r) roster_owner \<Rightarrow> bool" where
  "owner_accepts_start input (OwnerRecovery (RecoveryPreparing p)) \<longleftrightarrow> expectation_accepts_issued (preparing_expected p) input"
| "owner_accepts_start input own \<longleftrightarrow> False"

fun owner_accepts_return :: "('s, 'k, 'v) preparation_return \<Rightarrow> ('k, 'v, 'a, 'r) roster_owner \<Rightarrow> bool" where
  "owner_accepts_return returned (OwnerRecovery (RecoveryPreparing p)) \<longleftrightarrow> expectation_accepts_return (preparing_expected p) returned"
| "owner_accepts_return returned own \<longleftrightarrow> False"

definition preparation_failed :: "('k, 'v, 'a, 'r) roster_owner list \<Rightarrow> ('k, 'v, 'a, 'r) preparing_recovery
    \<Rightarrow> ('s, 'k) prepare_workers \<Rightarrow> ('k list \<Rightarrow> ('k, 'v) preparation_failure_state) \<Rightarrow> ('s, 'k, 'v, 'a, 'r) failed_preparation" where
  "preparation_failed owners p item state =
     (let (source, first, remaining) = prepare_into_parts item; (peers, trigger_role, trigger) = restore_peers p
      in \<lparr>failed_owners = owners @ peers, failed_member = trigger, failed_source = source,
          failed_diagnostic = \<lparr>preparation_failure_trigger = trigger_role,
            preparation_failure_state = state (first # remaining)\<rparr>\<rparr>)"

text \<open>A preparation is neither rejected nor blocked (\<^verbatim>\<open>Never\<close>): the value of those rows is never read.\<close>

definition roster_accept_preparation_start :: "('k, 'v, 'a, 'r) fixed_roster \<Rightarrow> ('s, 'k) preparation_start
    \<Rightarrow> ('k, 'v, 'a, 'r) fixed_roster \<times> ('s, 'k) preparation_start
       + (('s, 'k, 'v, 'a, 'r) failed_preparation, ('k, 'v, 'a, 'r) fixed_roster) control_flow" where
  "roster_accept_preparation_start roster input = (case roster of
      RosterOperating owners \<Rightarrow> (case position (owner_accepts_start input) owners of
          None \<Rightarrow> Inl (roster, input)
        | Some i \<Rightarrow> (let others = remove_at i owners in
            case owners ! i of
              OwnerRecovery (RecoveryPreparing p) \<Rightarrow> (case input of
                  Attempted (ItemAccepted started) \<Rightarrow> (case preparing_accept_start p started of
                      Inr p \<Rightarrow> Inr (FlowContinue (RosterOperating (insert_at i (OwnerRecovery (RecoveryPreparing p)) others)))
                    | Inl (p, started) \<Rightarrow> Inl (RosterOperating (insert_at i (OwnerRecovery (RecoveryPreparing p)) others),
                        Attempted (ItemAccepted started)))
                | Attempted (ItemCorrupt item fault) \<Rightarrow>
                    Inr (FlowBreak (preparation_failed others p item (FailureInterpreterFault fault)))
                | Unattempted item \<Rightarrow> Inr (FlowBreak (preparation_failed others p item FailureUnattempted))
                | _ \<Rightarrow> Inl (roster, input))
            | own \<Rightarrow> Inl (RosterOperating (insert_at i own others), input)))
    | _ \<Rightarrow> Inl (roster, input))"

datatype (plugins only: code) ('s, 'k, 'v, 'a, 'r) preparation_acceptance =
    AcceptancePrepared "('k, 'v, 'a, 'r) roster_owner list" nat "('k, 'v, 'a, 'r) prepared_recovery" 's
  | AcceptanceFailed "('s, 'k, 'v, 'a, 'r) failed_preparation"

definition roster_accept_preparation_return :: "('k, 'v, 'a, 'r) fixed_roster \<Rightarrow> ('s, 'k, 'v) preparation_return
    \<Rightarrow> ('k, 'v, 'a, 'r) fixed_roster \<times> ('s, 'k, 'v) preparation_return + ('s, 'k, 'v, 'a, 'r) preparation_acceptance" where
  "roster_accept_preparation_return roster returned = (case roster of
      RosterOperating owners \<Rightarrow> (case position (owner_accepts_return returned) owners of
          None \<Rightarrow> Inl (roster, returned)
        | Some i \<Rightarrow> (let others = remove_at i owners in
            case owners ! i of
              OwnerRecovery (RecoveryPreparing p) \<Rightarrow> (case preparing_accept p returned of
                  DecisionPrepared recovery source \<Rightarrow> Inr (AcceptancePrepared others i recovery source)
                | DecisionFailed peers trigger source diagnostic \<Rightarrow> Inr (AcceptanceFailed
                    \<lparr>failed_owners = others @ peers, failed_member = trigger, failed_source = source, failed_diagnostic = diagnostic\<rparr>)
                | DecisionRejected p returned \<Rightarrow>
                    Inl (RosterOperating (insert_at i (OwnerRecovery (RecoveryPreparing p)) others), returned))
            | own \<Rightarrow> Inl (RosterOperating (insert_at i own others), returned)))
    | _ \<Rightarrow> Inl (roster, returned))"

definition failed_into_owners :: "('s, 'k, 'v, 'a, 'r) failed_preparation
    \<Rightarrow> ('k, 'v, 'a, 'r) roster_owner list \<times> 's \<times> ('k, 'v) worker_preparation_failure" where
  "failed_into_owners failed = (failed_owners failed @ [OwnerEmpty (retain_stop (failed_member failed))],
     failed_source failed, failed_diagnostic failed)"

definition failed_terminate :: "('s, 'k, 'v, 'a, 'r) failed_preparation
    \<Rightarrow> ('k, 'v, 'a, 'r) fixed_roster \<times> 's \<times> ('k, 'v) worker_preparation_failure" where
  "failed_terminate failed = (let (owners, source, diagnostic) = failed_into_owners failed
     in (RosterTerminating owners [], source, diagnostic))"

definition failed_stop_supervisor :: "heap \<Rightarrow> ('s, 'k, 'v, 'a, 'r) failed_preparation \<Rightarrow> actor_drain_policy
    \<Rightarrow> heap \<times> ('k, 'v, 'a, 'r) fixed_shutdown \<times> 's \<times> ('k, 'v) worker_preparation_failure \<times> 'v operation list
       \<times> timer_id schedule_after option" where
  "failed_stop_supervisor h failed drain = (let (owners, source, diagnostic) = failed_into_owners failed;
       (h', shutdown, operations, schedule) = fixed_shutdown_begin h owners drain
     in (h', shutdown, source, diagnostic, map snd operations, schedule))"

definition failed_retire_member :: "heap \<Rightarrow> ('s, 'k, 'v, 'a, 'r) failed_preparation
    \<Rightarrow> heap \<times> ('k, 'v, 'a, 'r) fixed_roster \<times> 's \<times> ('k, 'v) worker_preparation_failure \<times> 'v operation" where
  "failed_retire_member h failed = (let (h', member, operation) = unrecovered_begin h (failed_member failed)
     in (h', RosterOperating (failed_owners failed @ [OwnerUnrecovered member]), failed_source failed,
         failed_diagnostic failed, operation))"

section \<open>Failures of a prepared recovery\<close>

definition into_terminal_ownership :: "('k, 'v, 'a, 'r) recovery_failure
    \<Rightarrow> ('k, 'v, 'a, 'r) roster_owner list \<times> 'v submission list" where
  "into_terminal_ownership failed = (let unissued = failure_replacements failed in
     (failure_owners failed @ map (participant_release \<circ> participant_member) (unissued_peers unissued)
        @ [OwnerEmpty (unissued_trigger unissued)],
      map participant_submission (unissued_peers unissued) @ [unissued_trigger_submission unissued]))"

definition failure_terminate :: "('k, 'v, 'a, 'r) recovery_failure \<Rightarrow> ('k, 'v, 'a, 'r) fixed_roster" where
  "failure_terminate failed = (let (owners, prepared) = into_terminal_ownership failed in RosterTerminating owners prepared)"

definition failure_stop_supervisor :: "heap \<Rightarrow> ('k, 'v, 'a, 'r) recovery_failure \<Rightarrow> actor_drain_policy
    \<Rightarrow> heap \<times> ('k, 'v, 'a, 'r) fixed_shutdown \<times> 'v operation list \<times> timer_id schedule_after option" where
  "failure_stop_supervisor h failed drain =
     (let (h', shutdown, operations, schedule) = begin_with_unissued h (failure_owners failed) (failure_replacements failed) drain
      in (h', shutdown, map snd operations, schedule))"

definition failure_retire_member :: "heap \<Rightarrow> ('k, 'v, 'a, 'r) recovery_failure
    \<Rightarrow> heap \<times> ('k, 'v, 'a, 'r) fixed_roster \<times> 'v operation" where
  "failure_retire_member h failed = (let unissued = failure_replacements failed;
       (h', proxy, ownership, operation) = retire_prepared_worker h (unissued_trigger unissued) (unissued_trigger_submission unissued)
     in (h', RosterOperating (failure_owners failed @ map participant_cancel (unissued_peers unissued)
               @ [OwnerUnrecovered \<lparr>unrecovered_proxy = proxy, unrecovered_ownership = ownership\<rparr>]), operation))"

definition deny_prepared_recovery :: "('k, 'v, 'a, 'r) roster_owner list \<Rightarrow> ('k, 'v, 'a, 'r) prepared_recovery
    \<Rightarrow> recovery_denial_reason \<Rightarrow> ('k, 'v, 'a, 'r) recovery_failure \<times> ('k, 'a) recovery_denied" where
  "deny_prepared_recovery owners rejected reason = (let (trigger, stopped) = into_empty (prepared_trigger rejected) in
     (\<lparr>failure_owners = owners, failure_replacements =
        \<lparr>unissued_peers = prepared_before rejected @ prepared_after rejected, unissued_trigger = trigger,
         unissued_trigger_submission = prepared_trigger_submission rejected\<rparr>\<rparr>,
      \<lparr>denied_trigger = role_name (empty_role trigger), denied_stopped = stopped, denied_reason = reason\<rparr>))"

definition retain_rejected_schedule :: "('k, 'v, 'a, 'r) roster_owner list \<Rightarrow> ('k, 'v, 'a, 'r) prepared_recovery
    \<Rightarrow> ('k, 'v, 'a, 'r) recovery_failure" where
  "retain_rejected_schedule owners rejected = \<lparr>failure_owners = owners, failure_replacements =
     \<lparr>unissued_peers = prepared_before rejected @ prepared_after rejected,
      unissued_trigger = retain_stop (prepared_trigger rejected),
      unissued_trigger_submission = prepared_trigger_submission rejected\<rparr>\<rparr>"

section \<open>Admission of a prepared recovery\<close>

datatype (plugins only: code) ('s, 'k, 'v, 'a, 'r) prepared_decision =
    PreparedAdmitted "('k, 'v, 'a, 'r) fixed_roster" "('s, 'k, 'v) supervisor_recovery" "timer_id schedule_after option"
  | PreparedDenied "('k, 'v, 'a, 'r) recovery_failure" "('s, 'k, 'v) supervisor_recovery" "('k, 'a) recovery_denied"

text \<open>
  The proposal borrows the trigger's count of recoveries, so accepting it advances that count.
  \<open>None\<close> is the panic of the shared admission.
\<close>

definition decide_prepared :: "instant \<Rightarrow> awaiting_worker_source \<Rightarrow> ('k, 'v, 'a, 'r) roster_owner list \<Rightarrow> nat
    \<Rightarrow> ('k, 'v, 'a, 'r) prepared_recovery \<Rightarrow> 's \<Rightarrow> ('s, 'k, 'v, 'a, 'r) prepared_decision option" where
  "decide_prepared lowest awaiting owners at prepared source =
     (let settings = awaiting_settings awaiting; budget = awaiting_budget awaiting; n = worker_count prepared in
      case propose_recovery (awaiting_correlations awaiting) of
        Inl denial \<Rightarrow> (let (failed, diagnostic) = deny_prepared_recovery owners prepared (denial_reason denial)
          in Some (PreparedDenied failed (available_recovery settings source budget (denial_unchanged denial)) diagnostic))
      | Inr ticket \<Rightarrow>
          (let trigger = prepared_trigger prepared; role = halted_role trigger in
           case roster_admit_restart lowest role budget (settings_limit settings) (settings_release settings)
                  (stopped_at (halted_stopped trigger)) n of
             None \<Rightarrow> None
           | Some (RosterRestartProposed proposal) \<Rightarrow> (case select_release ticket (proposed_release proposal) of
                 Inr timing \<Rightarrow>
                   (let accepted = timing_accept timing; (cnt, budget) = proposal_accept proposal;
                        prepared = prepared\<lparr>prepared_trigger := trigger\<lparr>halted_role := role\<lparr>role_recoveries := cnt\<rparr>\<rparr>\<rparr>;
                        batch = recovery_admit prepared (accepted_recovery accepted) (accepted_timer accepted)
                    in Some (PreparedAdmitted (RosterOperating (insert_at at (OwnerRecovery (RecoveryAdmitted batch)) owners))
                         (available_recovery settings source budget (accepted_correlations accepted)) (accepted_schedule accepted)))
               | Inl denial \<Rightarrow>
                   (let (cnt, budget) = proposal_decline (role_recoveries role) proposal;
                        (failed, diagnostic) = deny_prepared_recovery owners prepared (denial_reason denial)
                    in Some (PreparedDenied failed (available_recovery settings source budget (denial_unchanged denial)) diagnostic)))
           | Some (RosterRestartDenied budget reason) \<Rightarrow>
               (let (failed, diagnostic) = deny_prepared_recovery owners prepared reason
                in Some (PreparedDenied failed (available_recovery settings source budget (ticket_decline ticket)) diagnostic))))"

section \<open>Timers of recoveries\<close>

datatype (plugins only: code) ('k, 'v, 'a, 'r) restart_schedule_admission =
    ScheduleWaiting "('k, 'v, 'a, 'r) fixed_roster"
  | ScheduleRejected "('k, 'v, 'a, 'r) recovery_failure" "'k restart_schedule_failure"
  | ScheduleUnrelated "('k, 'v, 'a, 'r) fixed_roster" schedule_result

fun owner_accept_schedule :: "('k, 'v, 'a, 'r) roster_owner \<Rightarrow> schedule_result
    \<Rightarrow> ('k, 'v, 'a, 'r) roster_owner \<times> schedule_result
       + (('k, 'v, 'a, 'r) prepared_recovery \<times> timer_id schedule_after \<times> schedule_after_rejection,
          ('k, 'v, 'a, 'r) recovery_batch) control_flow" where
  "owner_accept_schedule (OwnerRecovery (RecoveryAdmitted batch)) input = (case batch_accept_schedule batch input of
      BatchWaiting batch \<Rightarrow> Inr (FlowContinue batch)
    | BatchRejected prepared request reason \<Rightarrow> Inr (FlowBreak (prepared, request, reason))
    | BatchUnrelated batch input \<Rightarrow> Inl (OwnerRecovery (RecoveryAdmitted batch), input))"
| "owner_accept_schedule own input = Inl (own, input)"

definition roster_accept_restart_schedule :: "('k, 'v, 'a, 'r) fixed_roster \<Rightarrow> schedule_result
    \<Rightarrow> ('k, 'v, 'a, 'r) restart_schedule_admission" where
  "roster_accept_restart_schedule roster input = (case roster of
      RosterOperating owners \<Rightarrow> (case offer_each owner_accept_schedule [] owners input of
          Inr (examined, FlowContinue batch, rest) \<Rightarrow>
            ScheduleWaiting (RosterOperating (examined @ [OwnerRecovery (RecoveryAdmitted batch)] @ rest))
        | Inr (examined, FlowBreak (prepared, request, reason), rest) \<Rightarrow>
            ScheduleRejected (retain_rejected_schedule (examined @ rest) prepared)
              \<lparr>schedule_failure_trigger = role_name (halted_role (prepared_trigger prepared)),
               schedule_failure_request = request, schedule_failure_reason = reason\<rparr>
        | Inl (owners, input) \<Rightarrow> ScheduleUnrelated (RosterOperating owners) input)
    | _ \<Rightarrow> ScheduleUnrelated roster input)"

fun owner_accept_elapsed :: "('k, 'v, 'a, 'r) roster_owner \<Rightarrow> timer_id timer_elapsed
    \<Rightarrow> ('k, 'v, 'a, 'r) roster_owner \<times> timer_id timer_elapsed + ('k, 'v, 'a, 'r) roster_owner" where
  "owner_accept_elapsed (OwnerRecovery (RecoveryAdmitted batch)) elapsed = (case batch_accept_elapsed batch elapsed of
      Inr batch \<Rightarrow> Inr (OwnerRecovery (RecoveryAdmitted batch))
    | Inl (batch, elapsed) \<Rightarrow> Inl (OwnerRecovery (RecoveryAdmitted batch), elapsed))"
| "owner_accept_elapsed own elapsed = Inl (own, elapsed)"

definition roster_accept_restart_elapsed :: "('k, 'v, 'a, 'r) fixed_roster \<Rightarrow> timer_id timer_elapsed
    \<Rightarrow> ('k, 'v, 'a, 'r) fixed_roster \<times> timer_id timer_elapsed + ('k, 'v, 'a, 'r) fixed_roster" where
  "roster_accept_restart_elapsed roster elapsed = (case roster of
      RosterOperating owners \<Rightarrow> (case offer_each owner_accept_elapsed [] owners elapsed of
          Inr (examined, own, rest) \<Rightarrow> Inr (RosterOperating (examined @ [own] @ rest))
        | Inl (owners, elapsed) \<Rightarrow> Inl (RosterOperating owners, elapsed))
    | _ \<Rightarrow> Inl (roster, elapsed))"

fun roster_begin_shutdown :: "heap \<Rightarrow> ('k, 'v, 'a, 'r) fixed_roster \<Rightarrow> actor_drain_policy
    \<Rightarrow> heap \<times> (('k, 'v, 'a, 'r) fixed_roster + ('k, 'v, 'a, 'r) fixed_shutdown \<times> 'v operation list \<times> timer_id schedule_after option)" where
  "roster_begin_shutdown h (RosterOperating members) drain =
     (let (h', shutdown, operations, schedule) = fixed_shutdown_begin h members drain
      in (h', Inr (shutdown, map snd operations, schedule)))"
| "roster_begin_shutdown h (RosterShuttingDown shutdown) drain = (h, Inr (shutdown, [], None))"
| "roster_begin_shutdown h roster drain = (h, Inl roster)"

end
