(* ===== verification/Roster_Supervisor.thy ===== *)
theory Roster_Supervisor
  imports Roster_Owners
begin

text \<open>
  The fixed supervisor as a behavior (\<^verbatim>\<open>supervisor/roster/mod.rs\<close>, \<^verbatim>\<open>config.rs\<close>, \<^verbatim>\<open>lifecycle.rs\<close>): one
  handler per input over the roster, the reactions to failures, and the transition, which turns an
  input no owner takes into a diagnostic.

  A handler receives the supervisor with its roster taken out (\<^verbatim>\<open>mem::replace\<close>) and the roster; it
  returns the heap of tokens, the supervisor with the next roster, and an error or actions.
\<close>

type_synonym ('s, 'k, 'v, 'a, 'r, 'q) supervisor_acted = "heap \<times> ('s, 'k, 'v, 'a, 'r, 'q) fixed_supervisor
  \<times> (('s, 'k, 'v, 'a, 'r, 'q) fixed_error + ('s, 'k, 'v, 'a, 'r, 'q) fixed_actions)"

section \<open>Lifecycle and replies\<close>

definition lifecycle_deliver :: "'q option \<Rightarrow> 'k \<Rightarrow> ('v, 'a, 'r) fixed_lifecycle_change
    \<Rightarrow> ('q, ('k, 'v, 'a, 'r) fixed_lifecycle) delivery list" where
  "lifecycle_deliver route role change = (case route of
      Some route \<Rightarrow> deliver route \<lparr>lifecycle_role = role, lifecycle_change = change\<rparr> | None \<Rightarrow> [])"

definition send_requests :: "('s, 'k, 'v, 'a, 'r, 'q) fixed_requests \<Rightarrow> ('s, 'k, 'v, 'a, 'r, 'q) fixed_actions" where
  "send_requests requests = new_actions requests [] Continue"

definition stop_requests :: "('s, 'k, 'v, 'a, 'r, 'q) fixed_requests \<Rightarrow> ('s, 'k, 'v, 'a, 'r, 'q) fixed_actions" where
  "stop_requests requests = new_actions requests [] (Stop Stopped)"

definition schedules :: "timer_id schedule_after option \<Rightarrow> timer_id schedule_after list" where
  "schedules schedule = (case schedule of Some schedule \<Rightarrow> [schedule] | None \<Rightarrow> [])"

definition input_rejected :: "heap \<Rightarrow> ('s, 'k, 'v, 'a, 'r, 'q) fixed_supervisor \<Rightarrow> ('k, 'v, 'a, 'r) fixed_roster
    \<Rightarrow> ('s, 'k, 'v, 'a, 'r, 'q) fixed_event \<Rightarrow> ('s, 'k, 'v, 'a, 'r, 'q) supervisor_acted" where
  "input_rejected h s roster input = (h, s\<lparr>fixed_roster := roster\<rparr>, Inl (InputRejected input))"

section \<open>Authorization and shutdown\<close>

definition maximum :: "('s, 'k, 'v, 'a, 'r, 'q) fixed_supervisor \<Rightarrow> usize" where
  "maximum s = limit_capacity (fixed_startup s)"

text \<open>\<open>authorize_with\<close> is the shared tail of the handlers: authorize the roster, then send what it issued beside \<open>requests\<close>.\<close>

definition authorize_with :: "heap \<Rightarrow> ('s, 'k, 'v, 'a, 'r, 'q) fixed_supervisor \<Rightarrow> ('k, 'v, 'a, 'r) fixed_roster
    \<Rightarrow> ('s, 'k, 'v, 'a, 'r, 'q) fixed_requests \<Rightarrow> ('s, 'k, 'v, 'a, 'r, 'q) supervisor_acted" where
  "authorize_with h s roster requests = (case roster_authorize h (maximum s) roster of
      (h', Inr (roster, operations)) \<Rightarrow>
        (h', s\<lparr>fixed_roster := roster\<rparr>, Inr (send_requests (requests\<lparr>proxy_operations := operations\<rparr>)))
    | (h', Inl (roster, rejection)) \<Rightarrow> (h', s\<lparr>fixed_roster := roster\<rparr>, Inl rejection))"

definition authorize_waiting :: "heap \<Rightarrow> ('s, 'k, 'v, 'a, 'r, 'q) fixed_supervisor \<Rightarrow> ('k, 'v, 'a, 'r) fixed_roster
    \<Rightarrow> ('s, 'k, 'v, 'a, 'r, 'q) supervisor_acted" where
  "authorize_waiting h s roster = authorize_with h s roster no_requests"

definition member_retired :: "heap \<Rightarrow> ('s, 'k, 'v, 'a, 'r, 'q) fixed_supervisor \<Rightarrow> ('k, 'v, 'a, 'r) fixed_roster \<Rightarrow> 'k
    \<Rightarrow> ('s, 'k, 'v, 'a, 'r, 'q) supervisor_acted" where
  "member_retired h s roster role = authorize_with h s roster
     (no_requests\<lparr>lifecycle_sends := lifecycle_deliver (fixed_lifecycle_route s) role LifecycleMemberRetired\<rparr>)"

definition retired_or_waiting :: "heap \<Rightarrow> ('s, 'k, 'v, 'a, 'r, 'q) fixed_supervisor \<Rightarrow> ('k, 'v, 'a, 'r) fixed_roster
    \<Rightarrow> 'k option \<Rightarrow> ('s, 'k, 'v, 'a, 'r, 'q) supervisor_acted" where
  "retired_or_waiting h s roster gone = (case gone of
      Some role \<Rightarrow> member_retired h s roster role | None \<Rightarrow> authorize_waiting h s roster)"

definition admit_recovery :: "heap \<Rightarrow> ('s, 'k, 'v, 'a, 'r, 'q) fixed_supervisor \<Rightarrow> ('k, 'v, 'a, 'r) fixed_roster
    \<Rightarrow> ('s, 'k, 'v) supervisor_recovery \<Rightarrow> timer_id schedule_after option \<Rightarrow> ('s, 'k, 'v, 'a, 'r, 'q) supervisor_acted" where
  "admit_recovery h s roster recovery schedule =
     authorize_with h (s\<lparr>fixed_recovery := recovery\<rparr>) roster (no_requests\<lparr>restart_schedules := schedules schedule\<rparr>)"

definition retain_shutdown :: "heap \<Rightarrow> ('s, 'k, 'v, 'a, 'r, 'q) fixed_supervisor \<Rightarrow> ('k, 'v, 'a, 'r) fixed_shutdown
    \<Rightarrow> 'v operation list \<Rightarrow> ('s, 'k, 'v, 'a, 'r, 'q) fixed_requests \<Rightarrow> ('s, 'k, 'v, 'a, 'r, 'q) supervisor_acted" where
  "retain_shutdown h s shutdown operations requests = (h, s\<lparr>fixed_roster := RosterShuttingDown shutdown\<rparr>,
     Inr (new_actions (requests\<lparr>proxy_operations := operations\<rparr>) []
       (shutdown_into_step shutdown (retirement_of (fixed_recovery s)))))"

section \<open>Failures\<close>

definition diagnose :: "('s, 'k, 'v, 'a, 'r, 'q) fixed_supervisor \<Rightarrow> ('s, 'k, 'v, 'a, 'r, 'q) fixed_diagnostic
    \<Rightarrow> ('q, ('s, 'k, 'v, 'a, 'r, 'q) fixed_diagnostic) diagnostic_action list" where
  "diagnose s diagnostic = [disposition_action (fixed_disposition s) diagnostic]"

definition apply_recovery_failure :: "heap \<Rightarrow> ('s, 'k, 'v, 'a, 'r, 'q) fixed_supervisor \<Rightarrow> ('k, 'v, 'a, 'r) recovery_failure
    \<Rightarrow> ('s, 'k, 'v, 'a, 'r, 'q) fixed_diagnostic \<Rightarrow> ('s, 'k, 'v, 'a, 'r, 'q) supervisor_acted" where
  "apply_recovery_failure h s failed diagnostic = (case (fixed_disposition s, fixed_reaction s) of
      (TerminateOnDiagnostic, reaction) \<Rightarrow> (h, s\<lparr>fixed_roster := failure_terminate failed\<rparr>,
        Inr (stop_requests (no_requests\<lparr>fixed_diagnostics := [DiagnosticTerminal diagnostic]\<rparr>)))
    | (DeliverDiagnosticsTo route, RetireMember) \<Rightarrow> (let (h', roster, operation) = failure_retire_member h failed in
        (h', s\<lparr>fixed_roster := roster\<rparr>, Inr (send_requests (no_requests\<lparr>proxy_operations := [operation],
           fixed_diagnostics := diagnose s diagnostic\<rparr>))))
    | (DeliverDiagnosticsTo route, StopSupervisor) \<Rightarrow>
        (let (h', shutdown, operations, schedule) = failure_stop_supervisor h failed (fixed_drain s) in
         (h', s\<lparr>fixed_roster := RosterShuttingDown shutdown\<rparr>, Inr (send_requests (no_requests\<lparr>proxy_operations := operations,
            restart_schedules := schedules schedule, fixed_diagnostics := diagnose s diagnostic\<rparr>)))))"

definition apply_failed_preparation :: "heap \<Rightarrow> ('s, 'k, 'v, 'a, 'r, 'q) fixed_supervisor \<Rightarrow> awaiting_worker_source
    \<Rightarrow> ('s, 'k, 'v, 'a, 'r) failed_preparation \<Rightarrow> ('s, 'k, 'v, 'a, 'r, 'q) supervisor_acted" where
  "apply_failed_preparation h s awaiting failed = (case (fixed_disposition s, fixed_reaction s) of
      (TerminateOnDiagnostic, reaction) \<Rightarrow> (let (roster, source, failure) = failed_terminate failed in
        (h, s\<lparr>fixed_recovery := awaiting_restore awaiting source, fixed_roster := roster\<rparr>,
         Inr (stop_requests (no_requests\<lparr>fixed_diagnostics := [DiagnosticTerminal (WorkerPreparationFailed failure)]\<rparr>))))
    | (DeliverDiagnosticsTo route, RetireMember) \<Rightarrow>
        (let (h', roster, source, failure, operation) = failed_retire_member h failed in
         (h', s\<lparr>fixed_recovery := awaiting_restore awaiting source, fixed_roster := roster\<rparr>,
          Inr (send_requests (no_requests\<lparr>proxy_operations := [operation],
            fixed_diagnostics := diagnose s (WorkerPreparationFailed failure)\<rparr>))))
    | (DeliverDiagnosticsTo route, StopSupervisor) \<Rightarrow>
        (let (h', shutdown, source, failure, operations, schedule) = failed_stop_supervisor h failed (fixed_drain s) in
         (h', s\<lparr>fixed_recovery := awaiting_restore awaiting source, fixed_roster := RosterShuttingDown shutdown\<rparr>,
          Inr (send_requests (no_requests\<lparr>proxy_operations := operations, restart_schedules := schedules schedule,
            fixed_diagnostics := diagnose s (WorkerPreparationFailed failure)\<rparr>)))))"

definition replacement_unrecovered :: "heap \<Rightarrow> 'q option \<Rightarrow> ('k, 'v, 'r) online_member \<Rightarrow> 'a child_stopped option \<Rightarrow> u64
    \<Rightarrow> heap \<times> ('k, 'v, 'a, 'r) unrecovered_member \<times> 'v operation \<times> ('q, ('k, 'v, 'a, 'r) fixed_lifecycle) delivery list" where
  "replacement_unrecovered h route previous stopped recovery = (case (stopped, route) of
      (Some stopped, Some route) \<Rightarrow>
        (let (h', member, operation) = begin_after_worker_stop_transfer h (online_role previous) (online_creation previous) (online_proxy previous)
         in (h', member, operation, lifecycle_deliver (Some route) (role_name (online_role previous))
               (LifecycleStoppedAfterAdmission stopped recovery)))
    | _ \<Rightarrow>
        (let (h', member, operation) = begin_replacement_failure h (online_role previous) (online_creation previous)
               (online_proxy previous) (online_worker previous) (online_readiness previous) stopped
         in (h', member, operation, [])))"

definition apply_replacement_failure :: "heap \<Rightarrow> ('s, 'k, 'v, 'a, 'r, 'q) fixed_supervisor \<Rightarrow> ('k, 'v, 'a, 'r) roster_owner list
    \<Rightarrow> ('k, 'v, 'r) online_member \<Rightarrow> 'a child_stopped option \<Rightarrow> u64 \<Rightarrow> ('s, 'k, 'v, 'a, 'r, 'q) fixed_diagnostic
    \<Rightarrow> ('s, 'k, 'v, 'a, 'r, 'q) supervisor_acted" where
  "apply_replacement_failure h s owners previous stopped recovery diagnostic =
     (let (h, member, operation, lifecycle) = replacement_unrecovered h (fixed_lifecycle_route s) previous stopped recovery;
          owners = owners @ [OwnerUnrecovered member]
      in case (fixed_disposition s, fixed_reaction s) of
          (TerminateOnDiagnostic, reaction) \<Rightarrow> (h, s\<lparr>fixed_roster := RosterTerminating owners []\<rparr>,
            Inr (stop_requests (no_requests\<lparr>proxy_operations := [operation], lifecycle_sends := lifecycle,
              fixed_diagnostics := [DiagnosticTerminal diagnostic]\<rparr>)))
        | (DeliverDiagnosticsTo route, RetireMember) \<Rightarrow> (h, s\<lparr>fixed_roster := RosterOperating owners\<rparr>,
            Inr (send_requests (no_requests\<lparr>proxy_operations := [operation], lifecycle_sends := lifecycle,
              fixed_diagnostics := diagnose s diagnostic\<rparr>)))
        | (DeliverDiagnosticsTo route, StopSupervisor) \<Rightarrow>
            (let (h, shutdown, operations, schedule) = fixed_shutdown_begin h owners (fixed_drain s);
                 operations = sort_key fst (operations @ [(role_position (online_role previous), operation)])
             in (h, s\<lparr>fixed_roster := RosterShuttingDown shutdown\<rparr>,
                 Inr (send_requests (no_requests\<lparr>proxy_operations := map snd operations, restart_schedules := schedules schedule,
                   lifecycle_sends := lifecycle, fixed_diagnostics := diagnose s diagnostic\<rparr>)))))"

definition accept_initial_failure :: "heap \<Rightarrow> ('s, 'k, 'v, 'a, 'r, 'q) fixed_supervisor \<Rightarrow> ('k, 'v, 'a, 'r) roster_owner list
    \<Rightarrow> creation_id \<Rightarrow> 'k \<Rightarrow> ('v, 'a, 'r) outcome \<Rightarrow> ('s, 'k, 'v, 'a, 'r, 'q) supervisor_acted" where
  "accept_initial_failure h s owners child role outcome =
     (let diagnostic = ProxyOutcomeFailed \<lparr>outcome_failure_role = role, outcome_failure_outcome = outcome\<rparr>;
          contradiction = InitialOutcomeContradiction \<lparr>report_child = child, report_report = outcome\<rparr>
      in case (fixed_disposition s, fixed_reaction s) of
          (TerminateOnDiagnostic, reaction) \<Rightarrow> (h, s\<lparr>fixed_roster := RosterTerminating owners []\<rparr>,
            Inr (stop_requests (no_requests\<lparr>fixed_diagnostics := [DiagnosticTerminal diagnostic]\<rparr>)))
        | (DeliverDiagnosticsTo route, RetireMember) \<Rightarrow> (case roster_begin_stop h (RosterOperating owners) child of
              (h', Inr (roster, shutdown)) \<Rightarrow> (h', s\<lparr>fixed_roster := roster\<rparr>,
                Inr (send_requests (no_requests\<lparr>proxy_operations := [shutdown], fixed_diagnostics := diagnose s diagnostic\<rparr>)))
            | (h', Inl roster) \<Rightarrow> (h', s\<lparr>fixed_roster := roster\<rparr>, Inl contradiction))
        | (DeliverDiagnosticsTo route, StopSupervisor) \<Rightarrow> (case roster_begin_shutdown h (RosterOperating owners) (fixed_drain s) of
              (h', Inr (shutdown, operations, schedule)) \<Rightarrow> retain_shutdown h' s shutdown operations
                (no_requests\<lparr>restart_schedules := schedules schedule, fixed_diagnostics := diagnose s diagnostic\<rparr>)
            | (h', Inl roster) \<Rightarrow> (h', s\<lparr>fixed_roster := roster\<rparr>, Inl contradiction)))"

section \<open>Replacements that complete\<close>

fun accept_replacement_completion :: "heap \<Rightarrow> ('s, 'k, 'v, 'a, 'r, 'q) fixed_supervisor \<Rightarrow> ('k, 'v, 'a, 'r) roster_owner list
    \<Rightarrow> ('k, 'v, 'a, 'r) recovery_completion \<Rightarrow> ('s, 'k, 'v, 'a, 'r, 'q) supervisor_acted" where
  "accept_replacement_completion h s owners
       (CompletionRestarted role creation proxy previous_readiness stopped worker readiness recovery) =
     authorize_with h s (RosterOperating (owners @ [OwnerOnline \<lparr>online_role = role, online_creation = creation,
         online_proxy = proxy, online_worker = worker, online_readiness = readiness\<rparr>]))
       (no_requests\<lparr>lifecycle_sends :=
          lifecycle_deliver (fixed_lifecycle_route s) (role_name role) (LifecycleStoppedAfterAdmission stopped recovery)
          @ lifecycle_deliver (fixed_lifecycle_route s) (role_name role) (LifecycleRestarted proxy recovery)\<rparr>)"
| "accept_replacement_completion h s owners
       (CompletionInputRejected role creation proxy previous previous_readiness stopped operation reason recovery) =
     apply_replacement_failure h s owners \<lparr>online_role = role, online_creation = creation, online_proxy = proxy,
         online_worker = previous, online_readiness = previous_readiness\<rparr> stopped recovery
       (ProxyInputFailed \<lparr>input_failure_role = role_name role, input_failure_operation = operation,
          input_failure_reason = reason\<rparr>)"
| "accept_replacement_completion h s owners
       (CompletionProxyFailed role creation proxy previous previous_readiness stopped outcome recovery) =
     apply_replacement_failure h s owners \<lparr>online_role = role, online_creation = creation, online_proxy = proxy,
         online_worker = previous, online_readiness = previous_readiness\<rparr> (Some stopped) recovery
       (ProxyOutcomeFailed \<lparr>outcome_failure_role = role_name role, outcome_failure_outcome = OutcomeReplacement outcome\<rparr>)"

section \<open>Handlers\<close>

definition accept_restart_schedule :: "heap \<Rightarrow> ('s, 'k, 'v, 'a, 'r, 'q) fixed_supervisor \<Rightarrow> ('k, 'v, 'a, 'r) fixed_roster
    \<Rightarrow> schedule_result \<Rightarrow> ('s, 'k, 'v, 'a, 'r, 'q) supervisor_acted" where
  "accept_restart_schedule h s roster input = (case roster of
      RosterShuttingDown shutdown \<Rightarrow> (case shutdown_accept_schedule shutdown input of
          Inr shutdown \<Rightarrow> retain_shutdown h s shutdown [] no_requests
        | Inl (shutdown, input) \<Rightarrow> input_rejected h s (RosterShuttingDown shutdown) (FixedScheduleSettled input))
    | _ \<Rightarrow> (case roster_accept_restart_schedule roster input of
          ScheduleWaiting roster \<Rightarrow> authorize_waiting h s roster
        | ScheduleRejected failed diagnostic \<Rightarrow> apply_recovery_failure h s failed (RestartScheduleFailed diagnostic)
        | ScheduleUnrelated roster input \<Rightarrow> input_rejected h s roster (FixedScheduleSettled input)))"

definition accept_restart_elapsed :: "heap \<Rightarrow> ('s, 'k, 'v, 'a, 'r, 'q) fixed_supervisor \<Rightarrow> ('k, 'v, 'a, 'r) fixed_roster
    \<Rightarrow> timer_id timer_elapsed \<Rightarrow> ('s, 'k, 'v, 'a, 'r, 'q) supervisor_acted" where
  "accept_restart_elapsed h s roster elapsed = (case roster of
      RosterShuttingDown shutdown \<Rightarrow> (case shutdown_accept_elapsed shutdown elapsed of
          Inr shutdown \<Rightarrow> retain_shutdown h s shutdown [] no_requests
        | Inl (shutdown, elapsed) \<Rightarrow> input_rejected h s (RosterShuttingDown shutdown) (FixedElapsed elapsed))
    | _ \<Rightarrow> (case roster_accept_restart_elapsed roster elapsed of
          Inr roster \<Rightarrow> authorize_waiting h s roster
        | Inl (roster, elapsed) \<Rightarrow> input_rejected h s roster (FixedElapsed elapsed)))"

definition accept_proxy_birth :: "heap \<Rightarrow> ('s, 'k, 'v, 'a, 'r, 'q) fixed_supervisor \<Rightarrow> ('k, 'v, 'a, 'r) fixed_roster
    \<Rightarrow> ('v, 'a, 'r) proxies_settled \<Rightarrow> ('s, 'k, 'v, 'a, 'r, 'q) supervisor_acted" where
  "accept_proxy_birth h s roster proxies = (case roster of
      RosterShuttingDown shutdown \<Rightarrow> (case shutdown_accept_births h shutdown proxies of
          (h', Inr (shutdown, operations)) \<Rightarrow> retain_shutdown h' s shutdown operations no_requests
        | (h', Inl (shutdown, proxies)) \<Rightarrow> input_rejected h' s (RosterShuttingDown shutdown) (FixedCreationsSettled proxies))
    | _ \<Rightarrow> (case roster_accept_births roster proxies of
          Inr roster \<Rightarrow> authorize_waiting h s roster
        | Inl (roster, rejection) \<Rightarrow> (h, s\<lparr>fixed_roster := roster\<rparr>, Inl rejection)))"

definition accept_proxy_operation :: "heap \<Rightarrow> ('s, 'k, 'v, 'a, 'r, 'q) fixed_supervisor \<Rightarrow> ('k, 'v, 'a, 'r) fixed_roster
    \<Rightarrow> ('v, 'r) input_result \<Rightarrow> ('s, 'k, 'v, 'a, 'r, 'q) supervisor_acted" where
  "accept_proxy_operation h s roster settlement = (case roster of
      RosterShuttingDown shutdown \<Rightarrow> (case shutdown_accept_operation shutdown settlement of
          Inr shutdown \<Rightarrow> retain_shutdown h s shutdown [] no_requests
        | Inl (shutdown, settlement) \<Rightarrow> input_rejected h s (RosterShuttingDown shutdown) (FixedInputSettled settlement))
    | _ \<Rightarrow> (case roster_accept_replacement_operation roster settlement of
          Inr (FlowContinue roster) \<Rightarrow> authorize_waiting h s roster
        | Inr (FlowBreak (owners, completed)) \<Rightarrow> accept_replacement_completion h s owners completed
        | Inl (roster, settlement) \<Rightarrow> (case roster_accept_operation roster settlement of
              Inr (roster, gone) \<Rightarrow> retired_or_waiting h s roster gone
            | Inl (roster, rejection) \<Rightarrow> (h, s\<lparr>fixed_roster := roster\<rparr>, Inl rejection))))"

definition accept_unavailable :: "heap \<Rightarrow> ('s, 'k, 'v, 'a, 'r, 'q) fixed_supervisor \<Rightarrow> ('k, 'v, 'a, 'r) fixed_roster
    \<Rightarrow> creation_id \<Rightarrow> 'a \<Rightarrow> proxy_phase \<Rightarrow> 'v \<Rightarrow> ('s, 'k, 'v, 'a, 'r, 'q) supervisor_acted" where
  "accept_unavailable h s roster child sender phase command = (case roster_live_role roster child of
      None \<Rightarrow> input_rejected h s roster (FixedReported \<lparr>report_child = child, report_report = OutcomeUnavailable sender phase command\<rparr>)
    | Some role \<Rightarrow> (h, s\<lparr>fixed_roster := roster\<rparr>, Inr (case fixed_lifecycle_route s of
          Some route \<Rightarrow> send_requests (no_requests\<lparr>lifecycle_sends :=
            lifecycle_deliver (Some route) role (LifecycleUnavailable sender phase command)\<rparr>)
        | None \<Rightarrow> new_actions (no_requests\<lparr>fixed_diagnostics := diagnose s (DiagnosedWorkerUnavailable
            \<lparr>unavailable_role = role, unavailable_sender = sender, unavailable_in = phase, unavailable_command = command\<rparr>)\<rparr>) []
            (case fixed_disposition s of DeliverDiagnosticsTo route \<Rightarrow> Continue | TerminateOnDiagnostic \<Rightarrow> Stop Stopped))))"

definition accept_worker_stop :: "heap \<Rightarrow> ('s, 'k, 'v, 'a, 'r, 'q) fixed_supervisor \<Rightarrow> ('k, 'v, 'a, 'r) accepted_worker_stop
    \<Rightarrow> ('s, 'k, 'v, 'a, 'r, 'q) supervisor_acted" where
  "accept_worker_stop h s stop = (case recovery_choose (fixed_recovery s) (accepted_kind stop) of
      ChoiceLeaveEmpty recovery \<Rightarrow> (let s = s\<lparr>fixed_recovery := recovery\<rparr> in
        case fixed_lifecycle_route s of
          Some route \<Rightarrow> (let (roster, role, worker_stop) = release_stop stop in
            (h, s\<lparr>fixed_roster := roster\<rparr>, Inr (send_requests (no_requests\<lparr>lifecycle_sends :=
               lifecycle_deliver (Some route) role (LifecycleStoppedIneligible worker_stop)\<rparr>))))
        | None \<Rightarrow> (h, s\<lparr>fixed_roster := discharge_stop stop\<rparr>, Inr (send_requests no_requests)))
    | ChoiceSourceUnavailable recovery \<Rightarrow> (let (roster, report) = reject_stop stop in
        input_rejected h (s\<lparr>fixed_recovery := recovery\<rparr>) roster (FixedReported report))
    | ChoicePrepare preparation \<Rightarrow> (case begin_recovery h stop preparation of
          (h', Inr (recovery, roster, request)) \<Rightarrow> (h', s\<lparr>fixed_recovery := recovery, fixed_roster := roster\<rparr>,
            Inr (send_requests (no_requests\<lparr>worker_preparations := [request]\<rparr>)))
        | (h', Inl (stop, preparation)) \<Rightarrow> (let (roster, report) = reject_stop stop in
            input_rejected h' (s\<lparr>fixed_recovery := choice_restore preparation\<rparr>) roster (FixedReported report))))"

definition accept_initial_report :: "heap \<Rightarrow> ('s, 'k, 'v, 'a, 'r, 'q) fixed_supervisor \<Rightarrow> ('k, 'v, 'a, 'r) fixed_roster
    \<Rightarrow> ('v, 'a, 'r) outcome child_report \<Rightarrow> ('s, 'k, 'v, 'a, 'r, 'q) supervisor_acted" where
  "accept_initial_report h s roster report = (case roster_accept_initial_outcome roster report of
      InitialReady owners m \<Rightarrow> authorize_with h s (RosterOperating (owners @ [OwnerOnline m]))
        (no_requests\<lparr>lifecycle_sends := lifecycle_deliver (fixed_lifecycle_route s) (role_name (online_role m))
           (LifecycleStarted (online_proxy m))\<rparr>)
    | InitialFailed owners child role outcome \<Rightarrow> accept_initial_failure h s owners child role outcome
    | InitialRejected roster rejection \<Rightarrow> (h, s\<lparr>fixed_roster := roster\<rparr>, Inl rejection))"

definition accept_proxy_report :: "heap \<Rightarrow> ('s, 'k, 'v, 'a, 'r, 'q) fixed_supervisor \<Rightarrow> ('k, 'v, 'a, 'r) fixed_roster
    \<Rightarrow> ('v, 'a, 'r) outcome child_report \<Rightarrow> ('s, 'k, 'v, 'a, 'r, 'q) supervisor_acted" where
  "accept_proxy_report h s roster report = (case report_report report of
      OutcomeUnavailable sender phase command \<Rightarrow> accept_unavailable h s roster (report_child report) sender phase command
    | _ \<Rightarrow> (case roster of
        RosterShuttingDown shutdown \<Rightarrow> (case shutdown_accept_outcome shutdown report of
            Inr shutdown \<Rightarrow> retain_shutdown h s shutdown [] no_requests
          | Inl (shutdown, report) \<Rightarrow> input_rejected h s (RosterShuttingDown shutdown) (FixedReported report))
      | _ \<Rightarrow> (case roster_accept_recovery_report roster report of
            Inr (FlowContinue roster) \<Rightarrow> authorize_waiting h s roster
          | Inr (FlowBreak (owners, completed)) \<Rightarrow> accept_replacement_completion h s owners completed
          | Inl (roster, report) \<Rightarrow> (case report_report report of
                OutcomeWorkerStopped worker stopped \<Rightarrow> (case roster_accept_worker_stop roster report of
                    Inr stop \<Rightarrow> accept_worker_stop h s stop
                  | Inl (roster, report) \<Rightarrow> input_rejected h s roster (FixedReported report))
              | _ \<Rightarrow> accept_initial_report h s roster report))))"

definition accept_proxy_exit :: "heap \<Rightarrow> ('s, 'k, 'v, 'a, 'r, 'q) fixed_supervisor \<Rightarrow> ('k, 'v, 'a, 'r) fixed_roster
    \<Rightarrow> 'a child_stopped \<Rightarrow> ('s, 'k, 'v, 'a, 'r, 'q) supervisor_acted" where
  "accept_proxy_exit h s roster stopped = (case roster of
      RosterShuttingDown shutdown \<Rightarrow> (case shutdown_accept_stop shutdown stopped of
          Inr shutdown \<Rightarrow> retain_shutdown h s shutdown [] no_requests
        | Inl (shutdown, stopped) \<Rightarrow> input_rejected h s (RosterShuttingDown shutdown) (FixedProxyStopped stopped))
    | _ \<Rightarrow> (case roster_accept_proxy_stop roster stopped of
          Inr (roster, gone) \<Rightarrow> retired_or_waiting h s roster gone
        | Inl (roster, rejection) \<Rightarrow> (h, s\<lparr>fixed_roster := roster\<rparr>, Inl rejection)))"

definition accept_preparation_start :: "heap \<Rightarrow> ('s, 'k, 'v, 'a, 'r, 'q) fixed_supervisor \<Rightarrow> ('k, 'v, 'a, 'r) fixed_roster
    \<Rightarrow> ('s, 'k) preparation_start \<Rightarrow> ('s, 'k, 'v, 'a, 'r, 'q) supervisor_acted" where
  "accept_preparation_start h s roster input = (case expect_source (fixed_recovery s) of
      Inl recovery \<Rightarrow> input_rejected h (s\<lparr>fixed_recovery := recovery\<rparr>) roster (FixedPreparationStarted input)
    | Inr awaiting \<Rightarrow> (let waiting = s\<lparr>fixed_recovery := awaiting_waiting awaiting\<rparr> in case roster of
        RosterShuttingDown shutdown \<Rightarrow> (case shutdown_accept_preparation_start shutdown input of
            Inr (FlowContinue shutdown) \<Rightarrow> retain_shutdown h waiting shutdown [] no_requests
          | Inr (FlowBreak (shutdown, returned)) \<Rightarrow>
              retain_shutdown h (s\<lparr>fixed_recovery := retain_for_retirement awaiting (RetirementStart returned)\<rparr>) shutdown [] no_requests
          | Inl (shutdown, input) \<Rightarrow> input_rejected h waiting (RosterShuttingDown shutdown) (FixedPreparationStarted input))
      | _ \<Rightarrow> (case roster_accept_preparation_start roster input of
            Inr (FlowContinue roster) \<Rightarrow> (h, waiting\<lparr>fixed_roster := roster\<rparr>, Inr (send_requests no_requests))
          | Inr (FlowBreak failed) \<Rightarrow> apply_failed_preparation h s awaiting failed
          | Inl (roster, input) \<Rightarrow> input_rejected h waiting roster (FixedPreparationStarted input))))"

text \<open>\<open>None\<close> is the panic of the shared restart admission.\<close>

definition accept_preparation_return :: "instant \<Rightarrow> heap \<Rightarrow> ('s, 'k, 'v, 'a, 'r, 'q) fixed_supervisor \<Rightarrow> ('k, 'v, 'a, 'r) fixed_roster
    \<Rightarrow> ('s, 'k, 'v) preparation_return \<Rightarrow> ('s, 'k, 'v, 'a, 'r, 'q) supervisor_acted option" where
  "accept_preparation_return lowest h s roster returned = (case expect_source (fixed_recovery s) of
      Inl recovery \<Rightarrow> Some (input_rejected h (s\<lparr>fixed_recovery := recovery\<rparr>) roster (FixedPreparationReturned returned))
    | Inr awaiting \<Rightarrow> (let waiting = s\<lparr>fixed_recovery := awaiting_waiting awaiting\<rparr> in case roster of
        RosterShuttingDown shutdown \<Rightarrow> Some (case shutdown_accept_preparation_return shutdown returned of
            Inr (shutdown, returned) \<Rightarrow>
              retain_shutdown h (s\<lparr>fixed_recovery := retain_for_retirement awaiting (RetirementReturned returned)\<rparr>) shutdown [] no_requests
          | Inl (shutdown, returned) \<Rightarrow> input_rejected h waiting (RosterShuttingDown shutdown) (FixedPreparationReturned returned))
      | _ \<Rightarrow> (case roster_accept_preparation_return roster returned of
            Inr (AcceptancePrepared owners at prepared source) \<Rightarrow>
              (case decide_prepared lowest awaiting owners at prepared source of
                 None \<Rightarrow> None
               | Some (PreparedAdmitted roster recovery schedule) \<Rightarrow> Some (admit_recovery h s roster recovery schedule)
               | Some (PreparedDenied failed recovery diagnostic) \<Rightarrow>
                   Some (apply_recovery_failure h (s\<lparr>fixed_recovery := recovery\<rparr>) failed (DiagnosedRecoveryDenied diagnostic)))
          | Inr (AcceptanceFailed failed) \<Rightarrow> Some (apply_failed_preparation h s awaiting failed)
          | Inl (roster, returned) \<Rightarrow> Some (input_rejected h waiting roster (FixedPreparationReturned returned)))))"

definition accept_command :: "heap \<Rightarrow> ('s, 'k, 'v, 'a, 'r, 'q) fixed_supervisor \<Rightarrow> ('k, 'v, 'a, 'r) fixed_roster
    \<Rightarrow> ('a, ('k, 'q) fixed_command) user \<Rightarrow> ('s, 'k, 'v, 'a, 'r, 'q) supervisor_acted" where
  "accept_command h s roster command = (case user_message command of
      FixedShutdownCommand \<Rightarrow> (case roster_begin_shutdown h roster (fixed_drain s) of
          (h', Inr (shutdown, operations, schedule)) \<Rightarrow>
            retain_shutdown h' s shutdown operations (no_requests\<lparr>restart_schedules := schedules schedule\<rparr>)
        | (h', Inl roster) \<Rightarrow> input_rejected h' s roster (FixedCommanded command))
    | FixedStatus reply_to \<Rightarrow> (case roster_snapshot roster of
          Some snapshot \<Rightarrow> (h, s\<lparr>fixed_roster := roster\<rparr>,
            Inr (send_requests (no_requests\<lparr>status_replies := deliver reply_to snapshot\<rparr>)))
        | None \<Rightarrow> input_rejected h s roster (FixedCommanded command))
    | FixedCapability role reply_to \<Rightarrow> (case roster_capability roster role of
          Inr result \<Rightarrow> (h, s\<lparr>fixed_roster := roster\<rparr>,
            Inr (send_requests (no_requests\<lparr>capability_replies := deliver reply_to result\<rparr>)))
        | Inl role \<Rightarrow> input_rejected h s roster (FixedCommanded command)))"

section \<open>The behavior\<close>

definition unexpected_input :: "('s, 'k, 'v, 'a, 'r, 'q) fixed_supervisor \<Rightarrow> ('s, 'k, 'v, 'a, 'r, 'q) fixed_event
    \<Rightarrow> ('s, 'k, 'v, 'a, 'r, 'q) fixed_actions" where
  "unexpected_input s input = new_actions (no_requests\<lparr>fixed_diagnostics := diagnose s (UnexpectedInput input)\<rparr>) []
     (case fixed_disposition s of DeliverDiagnosticsTo route \<Rightarrow> Continue | TerminateOnDiagnostic \<Rightarrow> Stop Stopped)"

definition supervisor_init :: "heap \<Rightarrow> ('s, 'k, 'v, 'a, 'r, 'q) fixed_supervisor \<Rightarrow> ('s, 'k, 'v, 'a, 'r, 'q) supervisor_acted" where
  "supervisor_init h s = (case roster_begin h (fixed_roster s) (fixed_creations s) of
      (h', creations, Inr (roster, watched, proxies)) \<Rightarrow> (h', s\<lparr>fixed_roster := roster, fixed_creations := creations\<rparr>,
        Inr (new_actions (no_requests\<lparr>proxy_observations := watched\<rparr>) proxies Continue))
    | (h', creations, Inl (roster, rejection)) \<Rightarrow>
        (h', s\<lparr>fixed_roster := roster, fixed_creations := creations\<rparr>, Inl rejection))"

definition supervisor_accept :: "instant \<Rightarrow> heap \<Rightarrow> ('s, 'k, 'v, 'a, 'r, 'q) fixed_supervisor
    \<Rightarrow> ('s, 'k, 'v, 'a, 'r, 'q) fixed_event \<Rightarrow> ('s, 'k, 'v, 'a, 'r, 'q) supervisor_acted option" where
  "supervisor_accept lowest h current event =
     (let roster = fixed_roster current; s = current\<lparr>fixed_roster := RosterStopped\<rparr> in case event of
        FixedCreationsSettled proxies \<Rightarrow> Some (accept_proxy_birth h s roster proxies)
      | FixedInputSettled settlement \<Rightarrow> Some (accept_proxy_operation h s roster settlement)
      | FixedReported report \<Rightarrow> Some (accept_proxy_report h s roster report)
      | FixedDiagnosed report \<Rightarrow> Some (input_rejected h s roster event)
      | FixedProxyStopped stopped \<Rightarrow> Some (accept_proxy_exit h s roster stopped)
      | FixedPreparationStarted started \<Rightarrow> Some (accept_preparation_start h s roster started)
      | FixedPreparationReturned returned \<Rightarrow> accept_preparation_return lowest h s roster returned
      | FixedScheduleSettled input \<Rightarrow> Some (accept_restart_schedule h s roster input)
      | FixedElapsed elapsed \<Rightarrow> Some (accept_restart_elapsed h s roster elapsed)
      | FixedCommanded command \<Rightarrow> Some (accept_command h s roster command))"

fun diagnose_rejected :: "('s, 'k, 'v, 'a, 'r, 'q) supervisor_acted \<Rightarrow> ('s, 'k, 'v, 'a, 'r, 'q) supervisor_acted" where
  "diagnose_rejected (h, s, Inl (InputRejected input)) = (h, s, Inr (unexpected_input s input))"
| "diagnose_rejected acted = acted"

definition supervisor_transition :: "instant \<Rightarrow> heap \<Rightarrow> ('s, 'k, 'v, 'a, 'r, 'q) fixed_supervisor
    \<Rightarrow> ('s, 'k, 'v, 'a, 'r, 'q) fixed_event \<Rightarrow> ('s, 'k, 'v, 'a, 'r, 'q) supervisor_acted option" where
  "supervisor_transition lowest h s event = map_option diagnose_rejected (supervisor_accept lowest h s event)"

section \<open>Construction\<close>

record ('f, 's, 'k, 'q) fixed_builder =
  builder_factory :: 'f
  builder_roles :: "'k list"
  builder_config :: "('s, 'q) fixed_config"
  builder_lifecycle :: "'q option"

definition builder_new :: "'f \<Rightarrow> 'k list \<Rightarrow> ('s, 'q) fixed_config \<Rightarrow> ('f, 's, 'k, 'q) fixed_builder" where
  "builder_new factory roles config = \<lparr>builder_factory = factory, builder_roles = roles, builder_config = config,
     builder_lifecycle = None\<rparr>"

definition publish_lifecycle :: "('f, 's, 'k, 'q) fixed_builder \<Rightarrow> 'q \<Rightarrow> ('f, 's, 'k, 'q) fixed_builder" where
  "publish_lifecycle b route = b\<lparr>builder_lifecycle := Some route\<rparr>"

record ('f, 's, 'k, 'v, 'q) construction_rejected =
  rejected_workers :: "('f, 'k, 'v, 'v, 'v) initial_worker_rejection"
  rejected_config :: "('s, 'q) fixed_config"
  rejected_lifecycle :: "'q option"

definition builder_build :: "('f \<Rightarrow> 'k \<Rightarrow> 'f \<times> ('v + 'v submission)) \<Rightarrow> ('f, 's, 'k, 'q) fixed_builder
    \<Rightarrow> ('f, 's, 'k, 'v, 'q) construction_rejected + ('s, 'k, 'v, 'a, 'r, 'q) fixed_supervisor" where
  "builder_build call b = (case prepare_initial_workers call (builder_factory b) (builder_roles b) of
      Inl workers \<Rightarrow> Inl \<lparr>rejected_workers = workers, rejected_config = builder_config b, rejected_lifecycle = builder_lifecycle b\<rparr>
    | Inr prepared \<Rightarrow> (let config = builder_config b in
        Inr \<lparr>fixed_roster = RosterNew prepared, fixed_creations = creation_sequence_new, fixed_startup = config_startup config,
             fixed_recovery = recovery_from (config_recovery config), fixed_reaction = config_failure config,
             fixed_drain = config_shutdown config, fixed_disposition = config_diagnostics config,
             fixed_lifecycle_route = builder_lifecycle b\<rparr>))"

end
