(* ===== verification/Roster_Offers.thy ===== *)
theory Roster_Offers
  imports Roster_Supervisor
begin

text \<open>
  The contract of everything an input is offered to in a fixed supervisor: an owner that refuses an
  input comes back as it was, beside the input as it was. The loop over the owners keeps the
  contract, and an owner that takes the input is one of those it was offered to. The members, the
  batches and the owners of a roster, and the members of a shutdown, fulfil it; where the contract
  also says what a taker holds, so does the loop.
\<close>

section \<open>The contract\<close>

locale offering =
  fixes f :: "'o \<Rightarrow> 'x \<Rightarrow> 'o \<times> 'x + 'y"
  assumes refused: "f own x = Inl (own', x') \<Longrightarrow> own' = own \<and> x' = x"
begin

lemma offer_refused: "offer_each f examined owners x = Inl (owners', x') \<Longrightarrow> owners' = examined @ owners \<and> x' = x"
proof (induction owners arbitrary: examined x)
  case (Cons own owners)
  show ?case
    using Cons.prems by (auto split: sum.splits prod.splits dest!: refused Cons.IH)
qed simp

lemma offer_taken:
  "offer_each f examined owners x = Inr (before, y, rest) \<Longrightarrow>
   \<exists>own between. before = examined @ between \<and> owners = between @ own # rest \<and> f own x = Inr y"
proof (induction owners arbitrary: examined x)
  case (Cons own owners)
  show ?case
  proof (cases "f own x")
    case (Inl refusal)
    then have "offer_each f (examined @ [own]) owners x = Inr (before, y, rest)"
      using Cons.prems refused by (cases refusal) auto
    from Cons.IH [OF this] show ?thesis
      by (metis append.assoc append_Cons append_Nil)
  qed (use Cons.prems in auto)
qed simp

end

text \<open>What an owner that takes the input held is held by what it answers.\<close>

locale keeping = offering f for f :: "'o \<Rightarrow> 'x \<Rightarrow> 'o \<times> 'x + 'y" +
  fixes held_by :: "'o \<Rightarrow> 'm::comm_monoid_add" and answered :: "'y \<Rightarrow> 'm"
  assumes taken: "f own x = Inr y \<Longrightarrow> answered y = held_by own"
begin

lemma offer_keeps:
  "offer_each f [] owners x = Inr (before, y, rest) \<Longrightarrow>
   sum_list (map held_by owners) = sum_list (map held_by before) + answered y + sum_list (map held_by rest)"
  by (drule offer_taken) (auto simp: taken ac_simps)

end

section \<open>Members of a roster\<close>

lemma starting_accept_operation_Inl:
  "starting_accept_operation m settlement = Inl (m', settlement') \<Longrightarrow> m' = m \<and> settlement' = settlement"
  by (cases m) (auto simp: receipt_into_parts_def split: sum.splits settled_item.splits item_settlement.splits)

lemma exiting_accept_operation_Inl:
  "exiting_accept_operation m settlement = Inl (m', settlement') \<Longrightarrow> m' = m \<and> settlement' = settlement"
  by (auto simp: exiting_accept_operation_def split: proxy_stop.splits sum.splits)

lemma exiting_accept_stop_Inl:
  "exiting_accept_stop m stopped = Inl (m', stopped') \<Longrightarrow> m' = m \<and> stopped' = stopped"
  by (auto simp: exiting_accept_stop_def split: option.splits)

lemma unrecovered_accept_operation_Inl:
  "unrecovered_accept_operation m settlement = Inl (m', settlement') \<Longrightarrow> m' = m \<and> settlement' = settlement"
  by (auto simp: unrecovered_accept_operation_def split: sum.splits control_flow.splits prod.splits
      dest!: exiting_accept_operation_Inl)

lemma unrecovered_accept_stop_Inl:
  "unrecovered_accept_stop m stopped = Inl (m', stopped') \<Longrightarrow> m' = m \<and> stopped' = stopped"
  by (auto simp: unrecovered_accept_stop_def split: sum.splits control_flow.splits prod.splits
      dest!: exiting_accept_stop_Inl)

lemma replacement_accept_operation_Inl:
  "replacement_accept_operation r settlement = Inl (r', settlement') \<Longrightarrow> r' = r \<and> settlement' = settlement"
  by (auto simp: replacement_accept_operation_def receipt_into_parts_def
      split: replacement_response.splits settled_item.splits item_settlement.splits sum.splits prod.splits)

lemma replacement_accept_outcome_Inl:
  "replacement_accept_outcome r result = Inl (r', result') \<Longrightarrow> r' = r \<and> result' = result"
  by (auto simp: replacement_accept_outcome_def split: replacement_response.splits if_splits)

lemma replacement_accept_worker_stop_Inl:
  "replacement_accept_worker_stop r worker stopped = Inl (r', worker', stopped')
   \<Longrightarrow> r' = r \<and> worker' = worker \<and> stopped' = stopped"
  by (auto simp: replacement_accept_worker_stop_def split: if_splits)

lemma owner_accept_operation_Inl:
  "owner_accept_operation own settlement = Inl (own', settlement') \<Longrightarrow> own' = own \<and> settlement' = settlement"
  by (cases own) (auto split: sum.splits control_flow.splits prod.splits
      dest!: starting_accept_operation_Inl exiting_accept_operation_Inl unrecovered_accept_operation_Inl)

lemma owner_accept_stop_Inl:
  "owner_accept_stop own stopped = Inl (own', stopped') \<Longrightarrow> own' = own \<and> stopped' = stopped"
  by (cases own) (auto split: sum.splits control_flow.splits prod.splits
      dest!: exiting_accept_stop_Inl unrecovered_accept_stop_Inl)

lemma recovering_accept_operation_Inl:
  "recovering_accept_operation ticket m settlement = Inl (m', settlement') \<Longrightarrow> m' = m \<and> settlement' = settlement"
  by (cases m) (auto split: sum.splits prod.splits dest!: replacement_accept_operation_Inl)

lemma recovering_accept_report_Inl:
  "recovering_accept_report ticket m report = Inl (m', report') \<Longrightarrow> m' = m \<and> report' = report"
  by (cases m; cases report; cases "report_report report")
     (auto simp: recovering_accept_report_def Let_def split: recovery_participant.splits if_splits sum.splits prod.splits
       dest!: replacement_accept_outcome_Inl replacement_accept_worker_stop_Inl)

interpretation recovering_operation: offering "recovering_accept_operation ticket" for ticket
  by unfold_locales (rule recovering_accept_operation_Inl)

interpretation recovering_report: offering "recovering_accept_report ticket" for ticket
  by unfold_locales (rule recovering_accept_report_Inl)

interpretation owner_operation_offer: offering owner_accept_operation
  by unfold_locales (rule owner_accept_operation_Inl)

section \<open>Batches\<close>

lemma batch_accept_operation_Inl:
  "batch_accept_operation batch settlement = Inl (batch', settlement') \<Longrightarrow> batch' = batch \<and> settlement' = settlement"
  by (auto simp: batch_accept_operation_def batch_offer_def split: sum.splits prod.splits control_flow.splits
      dest!: recovering_operation.offer_refused)

lemma batch_accept_report_Inl:
  "batch_accept_report batch report = Inl (batch', report') \<Longrightarrow> batch' = batch \<and> report' = report"
  by (auto simp: batch_accept_report_def batch_offer_def split: sum.splits prod.splits control_flow.splits
      dest!: recovering_report.offer_refused)

lemma participant_admit_waiting [simp]:
  "participant_admit \<lparr>participant_member = m, participant_submission = submission\<rparr> = MemberWaiting m submission"
  by (simp add: participant_admit_def)

lemma into_prepared_Inr: "into_prepared m = Inr p \<Longrightarrow> m = participant_admit p"
  by (cases m) auto

lemma into_prepared_Inl: "into_prepared m = Inl m' \<Longrightarrow> m' = m"
  by (cases m) auto

lemma prepared_members_from_Inl:
  "prepared_members_from prepared members = Inl members' \<Longrightarrow> members' = map participant_admit prepared @ members"
proof (induction members arbitrary: prepared)
  case (Cons m members)
  show ?case
    using Cons.prems by (auto split: sum.splits dest!: into_prepared_Inr into_prepared_Inl Cons.IH)
qed simp

lemma prepared_members_from_Inr:
  "prepared_members_from prepared members = Inr prepared' \<Longrightarrow>
   map participant_admit prepared' = map participant_admit prepared @ members"
proof (induction members arbitrary: prepared)
  case (Cons m members)
  show ?case
    using Cons.prems by (auto split: sum.splits dest!: into_prepared_Inr into_prepared_Inl Cons.IH)
qed simp


lemma into_stopped_Inl: "into_stopped p = Inl p' \<Longrightarrow> p' = p"
  by (cases p) auto

lemma insert_remove_at [simp]: "i < length xs \<Longrightarrow> insert_at i x (remove_at i xs) = xs[i := x]"
  by (simp add: insert_at_def remove_at_def upd_conv_take_nth_drop)

lemma from_admitted_Inl: "from_admitted trigger members = Inl members' \<Longrightarrow> members' = members"
  by (auto simp: from_admitted_def Let_def split: option.splits sum.splits dest!: into_stopped_Inl)

lemma batch_accept_schedule_unrelated:
  "batch_accept_schedule batch input = BatchUnrelated batch' input' \<Longrightarrow> batch' = batch \<and> input' = input"
  by (auto simp: batch_accept_schedule_def into_prepared_members_def
      split: restart_release_state.splits settled_item.splits item_settlement.splits if_splits sum.splits
      dest!: prepared_members_from_Inl prepared_members_from_Inr from_admitted_Inl)

lemma batch_accept_elapsed_Inl:
  "batch_accept_elapsed batch elapsed = Inl (batch', elapsed') \<Longrightarrow> batch' = batch \<and> elapsed' = elapsed"
  by (auto simp: batch_accept_elapsed_def split: restart_release_state.splits if_splits)

section \<open>Owners of a roster\<close>

lemma admitted_offer_Inl:
  assumes "\<And>batch x batch' x'. accept batch x = Inl (batch', x') \<Longrightarrow> batch' = batch \<and> x' = x"
  shows "admitted_offer accept own x = Inl (own', x') \<Longrightarrow> own' = own \<and> x' = x"
  by (cases "(accept, own, x)" rule: admitted_offer.cases) (auto split: sum.splits prod.splits dest!: assms)

interpretation admitted_operation: offering "admitted_offer batch_accept_operation"
  by unfold_locales (erule admitted_offer_Inl [rotated], erule batch_accept_operation_Inl)

interpretation admitted_report: offering "admitted_offer batch_accept_report"
  by unfold_locales (erule admitted_offer_Inl [rotated], erule batch_accept_report_Inl)

interpretation owner_schedule: offering owner_accept_schedule
proof unfold_locales
  fix own input own' input'
  show "owner_accept_schedule own input = Inl (own', input') \<Longrightarrow> own' = own \<and> input' = input"
    by (cases "(own, input)" rule: owner_accept_schedule.cases)
       (auto split: recovery_schedule_admission.splits dest!: batch_accept_schedule_unrelated)
qed

interpretation owner_elapsed: offering owner_accept_elapsed
proof unfold_locales
  fix own elapsed own' elapsed'
  show "owner_accept_elapsed own elapsed = Inl (own', elapsed') \<Longrightarrow> own' = own \<and> elapsed' = elapsed"
    by (cases "(own, elapsed)" rule: owner_accept_elapsed.cases)
       (auto split: sum.splits prod.splits dest!: batch_accept_elapsed_Inl)
qed

section \<open>Members of a shutdown\<close>

lemma admit_result_Inl: "admit_result key input = Inl input' \<Longrightarrow> input' = input"
  by (auto simp: admit_result_def split: if_splits)

lemma deadline_accept_schedule_Inl: "deadline_accept_schedule deadline input = Inl input' \<Longrightarrow> input' = input"
  by (auto simp: deadline_accept_schedule_def split: shutdown_deadline.splits sum.splits dest!: admit_result_Inl)

lemma deadline_accept_elapsed_Inl: "deadline_accept_elapsed deadline elapsed = Inl elapsed' \<Longrightarrow> elapsed' = elapsed"
  by (auto simp: deadline_accept_elapsed_def admit_elapsed_def split: shutdown_deadline.splits sum.splits if_splits)

lemma ownership_accept_input_Inl:
  "ownership_accept_input own settlement = Inl (own', settlement') \<Longrightarrow> own' = own \<and> settlement' = settlement"
  by (cases own) (auto simp: receipt_into_parts_def split: sum.splits settled_item.splits item_settlement.splits prod.splits
      dest!: replacement_accept_operation_Inl)

lemma ownership_accept_outcome_Inl:
  "ownership_accept_outcome own result = Inl (own', result') \<Longrightarrow> own' = own \<and> result' = result"
  by (auto simp: ownership_accept_outcome_def split: proxy_ownership.splits proxy_outcome.splits sum.splits prod.splits
      dest!: replacement_accept_outcome_Inl replacement_accept_worker_stop_Inl)

lemma leaving_accept_outcome_Inl:
  "leaving_accept_outcome m report = Inl (m', report') \<Longrightarrow> m' = m \<and> report' = report"
  by (cases m; cases report) (auto split: sum.splits prod.splits dest!: ownership_accept_outcome_Inl)

lemma leaving_accept_stop_Inl:
  "leaving_accept_stop m stopped = Inl (m', stopped') \<Longrightarrow> m' = m \<and> stopped' = stopped"
  by (cases "(m, stopped)" rule: leaving_accept_stop.cases)
     (auto split: sum.splits prod.splits dest!: exiting_accept_stop_Inl)

interpretation cancelled_schedule: offering cancelled_accept_schedule
proof unfold_locales
  fix own input own' input'
  show "cancelled_accept_schedule own input = Inl (own', input') \<Longrightarrow> own' = own \<and> input' = input"
    by (cases own) (auto split: sum.splits dest!: admit_result_Inl)
qed

interpretation leaving_operation: offering leaving_accept_operation
proof unfold_locales
  fix m settlement m' settlement'
  show "leaving_accept_operation m settlement = Inl (m', settlement') \<Longrightarrow> m' = m \<and> settlement' = settlement"
    by (cases m) (auto split: sum.splits prod.splits control_flow.splits
        dest!: exiting_accept_operation_Inl ownership_accept_input_Inl)
qed

lemma expectation_accept_start_Inl: "expectation_accept_start e started = Inl e' \<Longrightarrow> e' = e"
  by (cases e) (auto split: if_splits)

interpretation leaving_preparation_start: offering leaving_accept_preparation_start
proof unfold_locales
  fix m result m' result'
  show "leaving_accept_preparation_start m result = Inl (m', result') \<Longrightarrow> m' = m \<and> result' = result"
    by (cases "(m, result)" rule: leaving_accept_preparation_start.cases)
       (auto split: if_splits settled_item.splits item_settlement.splits sum.splits dest!: expectation_accept_start_Inl)
qed

interpretation leaving_preparation_return: offering leaving_accept_preparation_return
proof unfold_locales
  fix m returned m' returned'
  show "leaving_accept_preparation_return m returned = Inl (m', returned') \<Longrightarrow> m' = m \<and> returned' = returned"
    by (cases "(m, returned)" rule: leaving_accept_preparation_return.cases) (auto split: if_splits)
qed

end
