(* ===== verification/Roster_Custody.thy ===== *)
theory Roster_Custody
  imports Roster_Offers "HOL-Library.Multiset"
begin

text \<open>
  The members of a fixed supervisor are never lost and never duplicated: whatever owns them --
  starting, online, stopped, recovering, stopping or retired owners, or the members of a shutdown --
  the positions and names of a roster stay those it was declared with, over every operation.
\<close>

section \<open>What is held\<close>

definition role_key :: "'k member_role \<Rightarrow> nat \<times> 'k" where
  "role_key role = (role_position role, role_name role)"

definition owner_holds :: "('k, 'v, 'a, 'r) roster_owner \<Rightarrow> (nat \<times> 'k) multiset" where
  "owner_holds own = mset (map role_key (owner_roles own))"

definition owners_hold :: "('k, 'v, 'a, 'r) roster_owner list \<Rightarrow> (nat \<times> 'k) multiset" where
  "owners_hold owners = sum_list (map owner_holds owners)"

definition leaving_holds :: "('k, 'v, 'a, 'r) fixed_shutdown_member \<Rightarrow> (nat \<times> 'k) multiset" where
  "leaving_holds m = {#role_key (leaving_role m)#}"

definition leavings_hold :: "('k, 'v, 'a, 'r) fixed_shutdown_member list \<Rightarrow> (nat \<times> 'k) multiset" where
  "leavings_hold members = sum_list (map leaving_holds members)"

fun roster_holds :: "('k, 'v, 'a, 'r) fixed_roster \<Rightarrow> (nat \<times> 'k) multiset" where
  "roster_holds (RosterNew members) = mset (enumerate 0 (map prepared_role members))"
| "roster_holds (RosterOperating owners) = owners_hold owners"
| "roster_holds (RosterShuttingDown shutdown) = leavings_hold (fixed_members shutdown)"
| "roster_holds (RosterTerminating owners prepared) = owners_hold owners"
| "roster_holds RosterStopped = {#}"

lemma sum_list_sort_key [simp]: "sum_list (map g (sort_key k xs)) = sum_list (map (g :: _ \<Rightarrow> 'm::comm_monoid_add) xs)"
  by (metis mset_map mset_sort sum_mset_sum_list)

lemma sum_list_update_same:
  "i < length xs \<Longrightarrow> g (xs ! i) = g x \<Longrightarrow> sum_list (map g (xs[i := x])) = sum_list (map g xs)"
  by (metis list_update_id map_update)

lemma sum_list_remove_at:
  "i < length xs \<Longrightarrow> sum_list (map (g :: _ \<Rightarrow> 'm::comm_monoid_add) (remove_at i xs)) + g (xs ! i) = sum_list (map g xs)"
  by (subst (3) id_take_nth_drop [of i xs]) (simp_all add: remove_at_def ac_simps del: map_remove_at)

lemma mset_map_sum: "mset (map g xs) = sum_list (map (\<lambda>x. {#g x#}) xs)"
  by (induction xs) simp_all

lemma sum_list_partition:
  "sum_list (map g (filter P xs)) + sum_list (map g (filter (\<lambda>x. \<not> P x) xs)) = sum_list (map (g :: _ \<Rightarrow> 'm::comm_monoid_add) xs)"
  by (induction xs) (auto simp: ac_simps)

lemma mset_partition [simp]: "mset (filter P xs) + mset (filter (\<lambda>x. \<not> P x) xs) = mset xs"
  by (induction xs) auto

lemma list_update_same: "xs ! i = x \<Longrightarrow> xs[i := x] = xs"
  by auto

lemma owners_hold_simps [simp]:
  "owners_hold [] = {#}"
  "owners_hold (own # owners) = owner_holds own + owners_hold owners"
  "owners_hold (owners @ owners') = owners_hold owners + owners_hold owners'"
  "owners_hold (sort_key k owners) = owners_hold owners"
  by (simp_all add: owners_hold_def)

lemma leavings_hold_simps [simp]:
  "leavings_hold [] = {#}"
  "leavings_hold (m # members) = leaving_holds m + leavings_hold members"
  "leavings_hold (members @ members') = leavings_hold members + leavings_hold members'"
  "leavings_hold (sort_key k' members) = leavings_hold members"
  by (simp_all add: leavings_hold_def)

lemma owners_hold_update: "i < length owners \<Longrightarrow> owner_holds own = owner_holds (owners ! i) \<Longrightarrow>
   owners_hold (owners[i := own]) = owners_hold owners"
  by (simp add: owners_hold_def sum_list_update_same)

lemma leavings_hold_update: "i < length members \<Longrightarrow> leaving_holds m = leaving_holds (members ! i) \<Longrightarrow>
   leavings_hold (members[i := m]) = leavings_hold members"
  by (simp add: leavings_hold_def sum_list_update_same)

lemma owners_hold_remove: "i < length owners \<Longrightarrow> owners_hold (remove_at i owners) + owner_holds (owners ! i) = owners_hold owners"
  by (simp add: owners_hold_def sum_list_remove_at del: map_remove_at)

lemma owner_holds_simps [simp]:
  "owner_holds (OwnerStarting s) = {#role_key (starting_role s)#}"
  "owner_holds (OwnerStopping e) = {#role_key (exiting_role e)#}"
  "owner_holds (OwnerOnline o') = {#role_key (online_role o')#}"
  "owner_holds (OwnerEmpty m) = {#role_key (empty_role m)#}"
  "owner_holds (OwnerUnrecovered u) = {#role_key (exiting_role (unrecovered_proxy u))#}"
  "owner_holds (OwnerRetired g) = {#role_key (retired_role g)#}"
  "owner_holds (OwnerRecovery (RecoveryAdmitted b)) = mset (map (role_key \<circ> recovering_role) (batch_members b))"
  "owner_holds (OwnerRecovery (RecoveryPreparing p)) = mset (map (role_key \<circ> participant_role) (preparing_participants p))"
  by (simp_all add: owner_holds_def)

section \<open>Members\<close>

fun exit_role :: "(('k, 'v, 'a, 'r) retired_proxy_member, ('k, 'v, 'a, 'r) proxy_stopping_member) control_flow \<Rightarrow> 'k member_role" where
  "exit_role (FlowContinue m) = exiting_role m"
| "exit_role (FlowBreak gone) = retired_role gone"

lemma leaving_role_proxy [simp]: "leaving_role (ShutdownProxy flow ownership preparation) = exit_role flow"
  by (cases flow) simp_all

lemma exit_role_finish [simp]: "exit_role (exiting_finish m) = exiting_role m"
  by (auto simp: exiting_finish_def split: proxy_stop.splits option.splits)

lemma exiting_accept_operation_role: "exiting_accept_operation m settlement = Inr flow \<Longrightarrow> exit_role flow = exiting_role m"
  by (auto simp: exiting_accept_operation_def receipt_into_parts_def split: proxy_stop.splits sum.splits settled_item.splits
      item_settlement.splits if_splits)

lemma exiting_accept_stop_role: "exiting_accept_stop m stopped = Inr flow \<Longrightarrow> exit_role flow = exiting_role m"
  by (auto simp: exiting_accept_stop_def split: option.splits)

lemma exiting_begin_role [simp]: "exiting_role (fst (snd (exiting_begin h role creation proxy))) = role"
  by (simp add: exiting_begin_def split_beta)

fun unrecovered_role :: "(('k, 'v, 'a, 'r) retired_proxy_member, ('k, 'v, 'a, 'r) unrecovered_member) control_flow \<Rightarrow> 'k member_role" where
  "unrecovered_role (FlowContinue m) = exiting_role (unrecovered_proxy m)"
| "unrecovered_role (FlowBreak gone) = retired_role gone"

lemma unrecovered_accept_operation_role:
  "unrecovered_accept_operation m settlement = Inr flow \<Longrightarrow> unrecovered_role flow = exiting_role (unrecovered_proxy m)"
  by (auto simp: unrecovered_accept_operation_def split: sum.splits control_flow.splits prod.splits
      dest!: exiting_accept_operation_role)

lemma unrecovered_accept_stop_role:
  "unrecovered_accept_stop m stopped = Inr flow \<Longrightarrow> unrecovered_role flow = exiting_role (unrecovered_proxy m)"
  by (auto simp: unrecovered_accept_stop_def split: sum.splits control_flow.splits prod.splits
      dest!: exiting_accept_stop_role)

lemma starting_accept_operation_role: "starting_accept_operation m settlement = Inr m' \<Longrightarrow> starting_role m' = starting_role m"
  by (cases m) (auto simp: starting_role_def receipt_into_parts_def split: sum.splits settled_item.splits item_settlement.splits)

lemma owner_accept_operation_holds:
  "owner_accept_operation own settlement = Inr (own', gone) \<Longrightarrow> owner_holds own' = owner_holds own"
  by (cases own) (auto split: sum.splits control_flow.splits prod.splits
      dest!: starting_accept_operation_role exiting_accept_operation_role unrecovered_accept_operation_role)

lemma owner_accept_stop_holds: "owner_accept_stop own stopped = Inr (own', gone) \<Longrightarrow> owner_holds own' = owner_holds own"
  by (cases own) (auto split: sum.splits control_flow.splits prod.splits
      dest!: exiting_accept_stop_role unrecovered_accept_stop_role)

interpretation owner_operation: keeping owner_accept_operation owner_holds "\<lambda>(own, gone). owner_holds own"
  by unfold_locales (auto dest: owner_accept_operation_holds)

section \<open>Batches\<close>

fun completion_role :: "('k, 'v, 'a, 'r) recovery_completion \<Rightarrow> 'k member_role" where
  "completion_role (CompletionRestarted role creation proxy readiness stopped worker readiness' ticket) = role"
| "completion_role (CompletionInputRejected role creation proxy worker readiness stopped operation reason ticket) = role"
| "completion_role (CompletionProxyFailed role creation proxy worker readiness stopped outcome ticket) = role"

fun progress_holds :: "(('k, 'v, 'a, 'r) recovery_completion, ('k, 'v, 'a, 'r) recovery_member) control_flow \<Rightarrow> (nat \<times> 'k) multiset" where
  "progress_holds (FlowContinue m) = {#role_key (recovering_role m)#}"
| "progress_holds (FlowBreak c) = {#role_key (completion_role c)#}"

lemma replacement_progress_holds [simp]:
  "progress_holds (replacement_progress role creation proxy replacement ticket) = {#role_key role#}"
  by (auto simp: replacement_progress_def split: option.splits replacement_response.splits replacement_outcome.splits
      worker_start_result.splits)

lemma recovering_accept_operation_holds:
  "recovering_accept_operation ticket m settlement = Inr flow \<Longrightarrow> progress_holds flow = {#role_key (recovering_role m)#}"
  by (cases m) (auto split: sum.splits)

lemma recovering_accept_report_holds:
  "recovering_accept_report ticket m report = Inr flow \<Longrightarrow> progress_holds flow = {#role_key (recovering_role m)#}"
  by (auto simp: recovering_accept_report_def Let_def split: recovery_member.splits recovery_participant.splits
      proxy_outcome.splits if_splits sum.splits prod.splits)

interpretation recovered_operation: keeping "recovering_accept_operation ticket"
    "\<lambda>m. {#role_key (recovering_role m)#}" progress_holds for ticket
  by unfold_locales (rule recovering_accept_operation_holds)

interpretation recovered_report: keeping "recovering_accept_report ticket"
    "\<lambda>m. {#role_key (recovering_role m)#}" progress_holds for ticket
  by unfold_locales (rule recovering_accept_report_holds)

definition batch_holds :: "('k, 'v, 'a, 'r) recovery_batch \<Rightarrow> (nat \<times> 'k) multiset" where
  "batch_holds batch = mset (map (role_key \<circ> recovering_role) (batch_members batch))"

lemma batch_holds_sum: "batch_holds batch = sum_list (map (\<lambda>m. {#role_key (recovering_role m)#}) (batch_members batch))"
  by (simp add: batch_holds_def mset_map_sum comp_def)

fun flow_holds :: "(('k, 'v, 'a, 'r) recovery_batch \<times> ('k, 'v, 'a, 'r) recovery_completion, ('k, 'v, 'a, 'r) recovery_batch) control_flow
    \<Rightarrow> (nat \<times> 'k) multiset" where
  "flow_holds (FlowContinue batch) = batch_holds batch"
| "flow_holds (FlowBreak (batch, c)) = batch_holds batch + {#role_key (completion_role c)#}"

lemma batch_accept_operation_holds: "batch_accept_operation batch settlement = Inr flow \<Longrightarrow> flow_holds flow = batch_holds batch"
  by (auto simp: batch_accept_operation_def batch_offer_def batch_holds_sum ac_simps
      split: sum.splits prod.splits control_flow.splits dest!: recovered_operation.offer_keeps)

lemma batch_accept_report_holds: "batch_accept_report batch report = Inr flow \<Longrightarrow> flow_holds flow = batch_holds batch"
  by (auto simp: batch_accept_report_def batch_offer_def batch_holds_sum ac_simps
      split: sum.splits prod.splits control_flow.splits dest!: recovered_report.offer_keeps)

lemma owner_holds_batch: "owner_holds (OwnerRecovery (RecoveryAdmitted b)) = batch_holds b"
  by (simp add: batch_holds_def)

lemma admitted_offer_holds:
  assumes "\<And>batch x flow. accept batch x = Inr flow \<Longrightarrow> flow_holds flow = batch_holds batch"
  shows "admitted_offer accept own x = Inr flow \<Longrightarrow> flow_holds flow = owner_holds own"
  by (cases "(accept, own, x)" rule: admitted_offer.cases)
     (auto simp: owner_holds_batch simp del: owner_holds_simps split: sum.splits prod.splits dest!: assms)

interpretation admitted_operations: keeping "admitted_offer batch_accept_operation" owner_holds flow_holds
  by unfold_locales (erule admitted_offer_holds [rotated], erule batch_accept_operation_holds)

interpretation admitted_reports: keeping "admitted_offer batch_accept_report" owner_holds flow_holds
  by unfold_locales (erule admitted_offer_holds [rotated], erule batch_accept_report_holds)

lemma remaining_batch_holds [simp]: "owners_hold (remaining_batch batch) = batch_holds batch"
  by (simp add: remaining_batch_def batch_holds_def)

fun offered_holds :: "(('k, 'v, 'a, 'r) roster_owner list \<times> ('k, 'v, 'a, 'r) recovery_completion, ('k, 'v, 'a, 'r) fixed_roster) control_flow
    \<Rightarrow> (nat \<times> 'k) multiset" where
  "offered_holds (FlowContinue roster) = roster_holds roster"
| "offered_holds (FlowBreak (owners, c)) = owners_hold owners + {#role_key (completion_role c)#}"

lemma roster_accept_replacement_operation_holds:
  "roster_accept_replacement_operation roster settlement = Inr flow \<Longrightarrow> offered_holds flow = roster_holds roster"
  by (cases roster) (auto simp: roster_accept_replacement_operation_def roster_offer_def owners_hold_def [symmetric] owner_holds_batch ac_simps
      simp del: owner_holds_simps split: sum.splits prod.splits control_flow.splits
      dest!: admitted_operations.offer_keeps)

lemma roster_accept_recovery_report_holds:
  "roster_accept_recovery_report roster report = Inr flow \<Longrightarrow> offered_holds flow = roster_holds roster"
  by (cases roster) (auto simp: roster_accept_recovery_report_def roster_offer_def owners_hold_def [symmetric] owner_holds_batch ac_simps
      simp del: owner_holds_simps split: sum.splits prod.splits control_flow.splits
      dest!: admitted_reports.offer_keeps)

lemma roster_accept_replacement_operation_Inl:
  "roster_accept_replacement_operation roster settlement = Inl (roster', settlement') \<Longrightarrow> roster' = roster \<and> settlement' = settlement"
  by (cases roster) (auto simp: roster_accept_replacement_operation_def roster_offer_def
      split: sum.splits prod.splits control_flow.splits dest!: admitted_operation.offer_refused)

lemma roster_accept_recovery_report_Inl:
  "roster_accept_recovery_report roster report = Inl (roster', report') \<Longrightarrow> roster' = roster \<and> report' = report"
  by (cases roster) (auto simp: roster_accept_recovery_report_def roster_offer_def
      split: sum.splits prod.splits control_flow.splits dest!: admitted_report.offer_refused)

section \<open>Authorization, births and reports\<close>

fun authorization_holds :: "('k, 'v, 'a, 'r) input_authorization \<Rightarrow> (nat \<times> 'k) multiset" where
  "authorization_holds (AuthorizationIssued own operation) = owner_holds own"
| "authorization_holds (AuthorizationContinue own) = owner_holds own"
| "authorization_holds (AuthorizationWait own) = owner_holds own"

lemma starting_authorize_holds [simp]: "authorization_holds (starting_authorize m) = {#role_key (starting_role m)#}"
  by (cases m) (simp_all add: starting_role_def)

lemma recovering_authorize_role: "recovering_authorize h m = (h', m', operation) \<Longrightarrow> recovering_role m' = recovering_role m"
  by (cases "(h, m)" rule: recovering_authorize.cases) (auto split: prod.splits)

lemma authorize_sequence_roles:
  "authorize_sequence_from h examined members = (h', members', operation) \<Longrightarrow>
   map recovering_role members' = map recovering_role (examined @ members)"
proof (induction members arbitrary: h examined)
  case (Cons m members)
  show ?case
    using Cons.prems by (auto split: prod.splits option.splits dest!: recovering_authorize_role Cons.IH)
qed simp

lemma batch_holds_cong:
  "map recovering_role (batch_members batch) = map recovering_role (batch_members batch') \<Longrightarrow> batch_holds batch = batch_holds batch'"
  by (metis batch_holds_def map_map)

lemma batch_authorize_holds: "batch_authorize h batch = (h', batch', operation) \<Longrightarrow> batch_holds batch' = batch_holds batch"
  by (auto simp: batch_authorize_def authorize_recovery_sequence_def
      split: restart_release_state.splits prod.splits dest!: authorize_sequence_roles intro!: batch_holds_cong)

lemma recovery_authorize_holds:
  "recovery_authorize h recovery = (h', recovery', operation) \<Longrightarrow>
   owner_holds (OwnerRecovery recovery') = owner_holds (OwnerRecovery recovery)"
  by (cases recovery) (auto simp: owner_holds_batch simp del: owner_holds_simps split: prod.splits dest!: batch_authorize_holds)

lemma owner_authorize_holds: "owner_authorize h own = (h', authorization) \<Longrightarrow> authorization_holds authorization = owner_holds own"
  by (cases own) (auto split: prod.splits option.splits dest!: recovery_authorize_holds)

lemma authorize_owners_holds:
  "authorize_owners h available owners next operations = (h', owners', operations') \<Longrightarrow>
   owners_hold owners' = owners_hold next + owners_hold owners"
proof (induction h available owners "next" operations rule: authorize_owners.induct)
  case (2 h available own remaining "next" operations)
  obtain h' authorization where asked: "owner_authorize h own = (h', authorization)"
    by (cases "owner_authorize h own")
  from owner_authorize_holds [OF this] show ?case
    using "2.prems" "2.IH" [OF _ asked [symmetric]] asked by (cases authorization) (auto simp: ac_simps split: if_splits)
qed simp

lemma roster_authorize_Inr: "roster_authorize h limit roster = (h', Inr (roster', operations)) \<Longrightarrow> roster_holds roster' = roster_holds roster"
  by (cases roster) (auto simp: roster_authorize_def Let_def split: if_splits prod.splits dest!: authorize_owners_holds)

lemma roster_authorize_Inl: "roster_authorize h limit roster = (h', Inl (roster', rejection)) \<Longrightarrow> roster_holds roster' = roster_holds roster"
  by (cases roster) (auto simp: roster_authorize_def Let_def split: if_splits prod.splits)

lemma owner_into_creating_Inr: "owner_into_creating own = Inr (role, witness, operation) \<Longrightarrow>
   own = OwnerStarting (CreatingProxy role witness operation)"
  by (cases "own" rule: owner_into_creating.cases) (auto split: sum.splits elim: starting_into_creating.elims)

lemma owner_into_creating_Inl: "owner_into_creating own = Inl own' \<Longrightarrow> own' = own"
  by (cases "own" rule: owner_into_creating.cases) (auto split: sum.splits elim: starting_into_creating.elims)

lemma creating_from_Inl:
  "creating_from creating owners = Inl owners' \<Longrightarrow>
   owners' = map (\<lambda>(role, witness, operation). OwnerStarting (CreatingProxy role witness operation)) creating @ owners"
proof (induction owners arbitrary: creating)
  case (Cons own owners)
  show ?case
    using Cons.prems by (auto split: sum.splits dest!: owner_into_creating_Inr owner_into_creating_Inl Cons.IH)
qed simp

lemma creating_from_Inr:
  "creating_from creating owners = Inr creating' \<Longrightarrow>
   map (\<lambda>(role, witness, operation). OwnerStarting (CreatingProxy role witness operation)) creating' =
   map (\<lambda>(role, witness, operation). OwnerStarting (CreatingProxy role witness operation)) creating @ owners"
proof (induction owners arbitrary: creating)
  case (Cons own owners)
  show ?case
    using Cons.prems by (auto split: sum.splits dest!: owner_into_creating_Inr owner_into_creating_Inl Cons.IH)
qed simp

lemma starting_role_creating [simp]: "starting_role (CreatingProxy role witness operation) = role"
  by (simp add: starting_role_def)

lemma proxy_created_role [simp]: "starting_role (proxy_created role witness operation settlement) = role"
  by (auto simp: proxy_created_def starting_role_def split: stable_proxy_creation.splits)

lemma births_hold:
  "length settlements = length creating \<Longrightarrow>
   owners_hold (map (\<lambda>((role, witness, operation), settlement). OwnerStarting (proxy_created role witness operation settlement))
     (zip creating settlements)) =
   owners_hold (map (\<lambda>(role, witness, operation). OwnerStarting (CreatingProxy role witness operation)) creating)"
  by (induction settlements creating rule: list_induct2) auto

lemma creating_hold:
  assumes "creating_from [] owners = Inr creating" "length settlements = length owners"
  shows "owners_hold (map (\<lambda>((role, witness, operation), settlement). OwnerStarting (proxy_created role witness operation settlement))
     (zip creating settlements)) = owners_hold owners"
proof -
  from creating_from_Inr [OF assms(1)]
  have same: "map (\<lambda>(role, witness, operation). OwnerStarting (CreatingProxy role witness operation)) creating = owners"
    by simp
  with assms(2) have "length settlements = length creating"
    by auto
  then show ?thesis
    by (subst same [symmetric]) (rule births_hold)
qed

lemma roster_accept_births_Inr: "roster_accept_births roster proxies = Inr roster' \<Longrightarrow> roster_holds roster' = roster_holds roster"
  by (cases roster) (auto simp: roster_accept_births_def creating_hold split: creation_settlement.splits if_splits sum.splits)

lemma roster_accept_births_Inl: "roster_accept_births roster proxies = Inl (roster', rejection) \<Longrightarrow> roster' = roster"
  by (cases roster) (auto simp: roster_accept_births_def split: creation_settlement.splits if_splits sum.splits dest!: creating_from_Inl)

lemma starting_role_awaiting [simp]: "starting_role (AwaitingProxyOutcome role creation proxy operation) = role"
  by (simp add: starting_role_def)

lemma owner_accept_initial_outcome_holds:
  "owner_accept_initial_outcome own outcome = MemberInitialReady m \<Longrightarrow> owner_holds own = {#role_key (online_role m)#}"
  "owner_accept_initial_outcome own outcome = MemberInitialFailed own' role outcome' \<Longrightarrow> own' = own \<and> outcome' = outcome"
  "owner_accept_initial_outcome own outcome = MemberInitialRejected own' outcome' \<Longrightarrow> own' = own \<and> outcome' = outcome"
  by (auto elim!: owner_accept_initial_outcome.elims split: proxy_outcome.splits initial_worker_outcome.splits worker_start_result.splits)

fun initial_holds :: "('s, 'k, 'v, 'a, 'r, 'q) initial_proxy_decision \<Rightarrow> (nat \<times> 'k) multiset" where
  "initial_holds (InitialReady owners m) = owners_hold owners + {#role_key (online_role m)#}"
| "initial_holds (InitialFailed owners child role outcome) = owners_hold owners"
| "initial_holds (InitialRejected roster rejection) = roster_holds roster"

lemma roster_accept_initial_outcome_holds: "initial_holds (roster_accept_initial_outcome roster report) = roster_holds roster"
proof (cases roster)
  case (RosterOperating owners)
  show ?thesis
  proof (cases "position (\<lambda>own. awaits_initial_outcome own (report_child report)) owners")
    case (Some i)
    then have "i < length owners"
      by simp
    then show ?thesis
      using owners_hold_remove [of i owners] owner_accept_initial_outcome_holds [of "owners ! i" "report_report report"]
      by (auto simp: roster_accept_initial_outcome_def Some RosterOperating Let_def split: member_initial_decision.splits)
  qed (simp add: roster_accept_initial_outcome_def RosterOperating del: position_None_iff)
qed (simp_all add: roster_accept_initial_outcome_def)

lemma owner_begin_stop_holds:
  "owner_begin_stop h own = (h', Inr (own', shutdown)) \<Longrightarrow> owner_holds own' = owner_holds own"
  "owner_begin_stop h own = (h', Inl own') \<Longrightarrow> own' = own \<and> h' = h"
  by (cases "(h, own)" rule: owner_begin_stop.cases; auto simp: exiting_begin_def split: prod.splits)+

lemma roster_begin_stop_holds:
  "roster_begin_stop h roster child = (h', Inr (roster', shutdown)) \<Longrightarrow> roster_holds roster' = roster_holds roster"
  "roster_begin_stop h roster child = (h', Inl roster') \<Longrightarrow> roster' = roster \<and> h' = h"
  by (cases roster; auto simp: roster_begin_stop_def owners_hold_update split: option.splits prod.splits sum.splits
      dest!: owner_begin_stop_holds)+

lemma roster_accept_operation_Inr:
  "roster_accept_operation roster settlement = Inr (roster', gone) \<Longrightarrow> roster_holds roster' = roster_holds roster"
  by (cases roster) (auto simp: roster_accept_operation_def owners_hold_def [symmetric] ac_simps split: sum.splits prod.splits
      dest!: owner_operation.offer_keeps)

lemma roster_accept_operation_Inl:
  "roster_accept_operation roster settlement = Inl (roster', rejection) \<Longrightarrow>
   roster' = roster \<and> rejection = InputRejected (FixedInputSettled settlement)"
  by (cases roster) (auto simp: roster_accept_operation_def split: sum.splits prod.splits
      dest!: owner_operation_offer.offer_refused)

lemma roster_accept_proxy_stop_Inr:
  "roster_accept_proxy_stop roster stopped = Inr (roster', gone) \<Longrightarrow> roster_holds roster' = roster_holds roster"
  by (cases roster) (auto simp: roster_accept_proxy_stop_def Let_def owners_hold_update owner_accept_stop_holds
      split: option.splits sum.splits prod.splits)

lemma roster_accept_proxy_stop_Inl:
  "roster_accept_proxy_stop roster stopped = Inl (roster', rejection) \<Longrightarrow>
   roster' = roster \<and> rejection = InputRejected (FixedProxyStopped stopped)"
  by (cases roster) (auto simp: roster_accept_proxy_stop_def Let_def split: option.splits sum.splits prod.splits
      dest!: owner_accept_stop_Inl)

section \<open>Stops of workers and recovery\<close>

definition stop_holds :: "('k, 'v, 'a, 'r) accepted_worker_stop \<Rightarrow> (nat \<times> 'k) multiset" where
  "stop_holds stop = owners_hold (accepted_owners stop) + {#role_key (halted_role (accepted_member stop))#}"

lemma roster_accept_worker_stop_Inr:
  "roster_accept_worker_stop roster report = Inr stop \<Longrightarrow> stop_holds stop = roster_holds roster"
proof (cases roster)
  case (RosterOperating owners)
  assume "roster_accept_worker_stop roster report = Inr stop"
  then obtain i m where i: "i < length owners" and own: "owners ! i = OwnerOnline m"
      and stop: "accepted_owners stop = remove_at i owners" "halted_role (accepted_member stop) = online_role m"
    by (auto simp: roster_accept_worker_stop_def RosterOperating Let_def split: option.splits roster_owner.splits
        proxy_outcome.splits if_splits dest!: position_SomeD)
  then show ?thesis
    using owners_hold_remove [OF i] by (simp add: stop_holds_def RosterOperating)
qed (simp_all add: roster_accept_worker_stop_def)

lemma roster_accept_worker_stop_Inl:
  "roster_accept_worker_stop roster report = Inl (roster', report') \<Longrightarrow> roster' = roster \<and> report' = report"
  by (cases roster) (auto simp: roster_accept_worker_stop_def Let_def list_update_same split: option.splits roster_owner.splits
      proxy_outcome.splits if_splits)

lemma stops_hold [simp]:
  "roster_holds (fst (release_stop stop)) = stop_holds stop"
  "roster_holds (discharge_stop stop) = stop_holds stop"
  "roster_holds (fst (reject_stop stop)) = stop_holds stop"
  by (simp_all add: release_stop_def discharge_stop_def reject_stop_def into_empty_def stop_holds_def Let_def)

lemma participant_select_Inr: "participant_select own = Inr p \<Longrightarrow> own = participant_release p"
  by (cases own rule: participant_select.cases) auto

lemma participant_select_Inl: "participant_select own = Inl own' \<Longrightarrow> own' = own"
  by (cases own rule: participant_select.cases) auto

lemma select_peers_from_Inl:
  "select_peers_from selected owners = Inl owners' \<Longrightarrow> owners' = map participant_release selected @ owners"
proof (induction owners arbitrary: selected)
  case (Cons own owners)
  show ?case
    using Cons.prems by (auto split: sum.splits dest!: participant_select_Inr participant_select_Inl Cons.IH)
qed simp

lemma select_peers_from_Inr:
  "select_peers_from selected owners = Inr selected' \<Longrightarrow> map participant_release selected' = map participant_release selected @ owners"
proof (induction owners arbitrary: selected)
  case (Cons own owners)
  show ?case
    using Cons.prems by (auto split: sum.splits dest!: participant_select_Inr participant_select_Inl Cons.IH)
qed simp

lemma starting_role_released [simp]:
  "starting_role (InputDispatched role creation proxy witness) = role"
  by (simp add: starting_role_def)

lemma retain_stop_role [simp]: "empty_role (retain_stop m) = halted_role m"
  by (simp add: retain_stop_def into_empty_def)

lemma participant_release_holds [simp]: "owner_holds (participant_release p) = {#role_key (participant_role p)#}"
  by (cases p) simp_all

lemma released_participants_hold:
  "owners_hold (map participant_release ps) = mset (map (role_key \<circ> participant_role) ps)"
  by (induction ps) simp_all

lemma select_recovery_peers_Inr:
  "select_recovery_peers owners = Inr selected \<Longrightarrow> mset (map (role_key \<circ> participant_role) selected) = owners_hold owners"
  by (auto simp: select_recovery_peers_def released_participants_hold dest!: select_peers_from_Inr)

lemma select_participants_Inr:
  assumes "select_participants strategy trigger owners = Inr (left, before, after)"
  shows "owners_hold left + mset (map (role_key \<circ> participant_role) (before @ after)) = owners_hold owners"
proof (cases strategy)
  case OneForAll
  with assms show ?thesis
    by (auto split: sum.splits dest!: select_recovery_peers_Inr simp flip: image_mset_union)
next
  case RestForOne
  with assms show ?thesis
    using sum_list_partition [of owner_holds "before_position trigger" owners]
    by (auto simp: Let_def owners_hold_def split: sum.splits dest!: select_recovery_peers_Inr)
qed (use assms in simp)

lemma select_participants_Inl:
  assumes "select_participants strategy trigger owners = Inl owners'"
  shows "mset owners' = mset owners"
  using assms by (cases strategy)
    (auto simp: select_recovery_peers_def Let_def split: sum.splits dest!: select_peers_from_Inl)

lemma begin_recovery_Inr:
  "begin_recovery h stop preparation = (h', Inr (recovery, roster, request)) \<Longrightarrow> roster_holds roster = stop_holds stop"
  by (auto simp: begin_recovery_def preparing_begin_def preparing_participants_def stop_holds_def Let_def ac_simps
      split: sum.splits prod.splits dest!: select_participants_Inr)

lemma owners_hold_mset: "mset owners = mset owners' \<Longrightarrow> owners_hold owners = owners_hold owners'"
  unfolding owners_hold_def by (metis mset_map sum_mset_sum_list)

lemma begin_recovery_Inl:
  "begin_recovery h stop preparation = (h', Inl (stop', preparation')) \<Longrightarrow>
   h' = h \<and> preparation' = preparation \<and> accepted_member stop' = accepted_member stop \<and>
   mset (accepted_owners stop') = mset (accepted_owners stop)"
  by (auto simp: begin_recovery_def Let_def split: sum.splits prod.splits dest!: select_participants_Inl)

section \<open>Preparations\<close>

definition preparing_holds :: "('k, 'v, 'a, 'r) preparing_recovery \<Rightarrow> (nat \<times> 'k) multiset" where
  "preparing_holds p = mset (map (role_key \<circ> participant_role) (preparing_participants p))"

definition prepared_holds :: "('k, 'v, 'a, 'r) prepared_recovery \<Rightarrow> (nat \<times> 'k) multiset" where
  "prepared_holds p = mset (map (role_key \<circ> participant_role \<circ> participant_member) (prepared_before p @ prepared_after p))
     + {#role_key (halted_role (prepared_trigger p))#}"

definition failed_holds :: "('s, 'k, 'v, 'a, 'r) failed_preparation \<Rightarrow> (nat \<times> 'k) multiset" where
  "failed_holds failed = owners_hold (failed_owners failed) + {#role_key (halted_role (failed_member failed))#}"

definition failure_holds :: "('k, 'v, 'a, 'r) recovery_failure \<Rightarrow> (nat \<times> 'k) multiset" where
  "failure_holds failed = owners_hold (failure_owners failed)
     + mset (map (role_key \<circ> participant_role \<circ> participant_member) (unissued_peers (failure_replacements failed)))
     + {#role_key (empty_role (unissued_trigger (failure_replacements failed)))#}"

lemma restore_peers_holds:
  "restore_peers p = (peers, role, trigger) \<Longrightarrow> owners_hold peers + {#role_key (halted_role trigger)#} = preparing_holds p"
  by (auto simp: restore_peers_def released_participants_hold preparing_holds_def preparing_participants_def)

lemma preparing_accept_start_holds:
  "preparing_accept_start p started = Inr p' \<Longrightarrow> preparing_holds p' = preparing_holds p"
  "preparing_accept_start p started = Inl (p', started') \<Longrightarrow> p' = p \<and> started' = started"
  by (auto simp: preparing_accept_start_def preparing_holds_def preparing_participants_def split: sum.splits
      dest!: expectation_accept_start_Inl)

lemma owner_holds_preparing: "owner_holds (OwnerRecovery (RecoveryPreparing p)) = preparing_holds p"
  by (simp add: preparing_holds_def)

fun started_holds :: "(('s, 'k, 'v, 'a, 'r) failed_preparation, ('k, 'v, 'a, 'r) fixed_roster) control_flow \<Rightarrow> (nat \<times> 'k) multiset" where
  "started_holds (FlowContinue roster) = roster_holds roster"
| "started_holds (FlowBreak failed) = failed_holds failed"

lemma preparation_failed_holds: "failed_holds (preparation_failed owners p item state) = owners_hold owners + preparing_holds p"
  using restore_peers_holds [of p] by (auto simp: preparation_failed_def failed_holds_def split: prod.splits)

lemma roster_accept_preparation_start_Inr:
  assumes "roster_accept_preparation_start roster input = Inr flow"
  shows "started_holds flow = roster_holds roster"
proof (cases roster)
  case (RosterOperating owners)
  with assms obtain i p where i: "i < length owners" and own: "owners ! i = OwnerRecovery (RecoveryPreparing p)"
      and flow: "(\<exists>p'. flow = FlowContinue (RosterOperating (owners[i := OwnerRecovery (RecoveryPreparing p')])) \<and>
          preparing_holds p' = preparing_holds p)
        \<or> (\<exists>failed. flow = FlowBreak failed \<and> failed_holds failed = owners_hold (remove_at i owners) + preparing_holds p)"
    by (auto simp: roster_accept_preparation_start_def Let_def preparation_failed_holds split: option.splits roster_owner.splits
        recovery_roster_owner.splits settled_item.splits item_settlement.splits sum.splits
        dest!: position_SomeD preparing_accept_start_holds)
  from flow show ?thesis
    using owners_hold_remove [OF i] own
    by (auto simp: RosterOperating owners_hold_update [OF i] owner_holds_preparing simp del: owner_holds_simps)
qed (use assms in \<open>simp_all add: roster_accept_preparation_start_def\<close>)

lemma roster_accept_preparation_start_Inl:
  "roster_accept_preparation_start roster input = Inl (roster', input') \<Longrightarrow> roster' = roster \<and> input' = input"
  by (cases roster) (auto simp: roster_accept_preparation_start_def Let_def list_update_same split: option.splits roster_owner.splits
      recovery_roster_owner.splits settled_item.splits item_settlement.splits sum.splits
      dest!: preparing_accept_start_holds)

fun acceptance_holds :: "('s, 'k, 'v, 'a, 'r) preparation_acceptance \<Rightarrow> (nat \<times> 'k) multiset" where
  "acceptance_holds (AcceptancePrepared owners at prepared source) = owners_hold owners + prepared_holds prepared"
| "acceptance_holds (AcceptanceFailed failed) = failed_holds failed"

lemma participants_prepared_hold:
  "length members = length participants \<Longrightarrow>
   mset (map (role_key \<circ> participant_role \<circ> participant_member) (map participant_prepared (zip participants members))) =
   mset (map (role_key \<circ> participant_role) participants)"
  by (induction members participants rule: list_induct2) (simp_all add: participant_prepared_def)

fun decision_holds :: "('s, 'k, 'v, 'a, 'r) preparation_decision \<Rightarrow> (nat \<times> 'k) multiset" where
  "decision_holds (DecisionPrepared prepared source) = prepared_holds prepared"
| "decision_holds (DecisionFailed peers trigger source diagnostic) = owners_hold peers + {#role_key (halted_role trigger)#}"
| "decision_holds (DecisionRejected p returned) = preparing_holds p"

lemma drop_Cons_length: "drop n xs = y # ys \<Longrightarrow> length xs = n + 1 + m \<Longrightarrow> length ys = m"
  by (metis add_diff_cancel_left' add.assoc diff_Suc_1 length_Cons length_drop plus_1_eq_Suc)

lemma preparing_accept_holds: "decision_holds (preparing_accept p returned) = preparing_holds p"
proof -
  have prepared: "prepared_holds \<lparr>prepared_before = map participant_prepared (zip (preparing_before p) (take (length (preparing_before p)) members)),
      prepared_trigger = preparing_trigger p, prepared_trigger_submission = submission,
      prepared_after = map participant_prepared (zip (preparing_after p) after)\<rparr> = preparing_holds p"
    if "length members = length (preparing_before p) + 1 + length (preparing_after p)"
      "drop (length (preparing_before p)) members = first # after" for members submission first after
    using that drop_Cons_length [OF that(2,1)] participants_prepared_hold [of after "preparing_after p"]
      participants_prepared_hold [of "take (length (preparing_before p)) members" "preparing_before p"]
    by (simp add: prepared_holds_def preparing_holds_def preparing_participants_def)
  show ?thesis
    using restore_peers_holds [of p]
    by (auto simp: preparing_accept_def prepared split: worker_preparation_outcome.splits prod.splits list.splits)
qed

lemma preparing_accept_rejected: "preparing_accept p returned = DecisionRejected p' returned' \<Longrightarrow> p' = p \<and> returned' = returned"
  by (auto simp: preparing_accept_def split: if_splits worker_preparation_outcome.splits prod.splits list.splits)

lemma roster_accept_preparation_return_Inr:
  assumes "roster_accept_preparation_return roster returned = Inr acceptance"
  shows "acceptance_holds acceptance = roster_holds roster"
proof (cases roster)
  case (RosterOperating owners)
  with assms obtain i p where i: "i < length owners" and own: "owners ! i = OwnerRecovery (RecoveryPreparing p)"
      and acceptance: "(\<exists>prepared source. acceptance = AcceptancePrepared (remove_at i owners) i prepared source \<and>
          preparing_accept p returned = DecisionPrepared prepared source)
        \<or> (\<exists>peers trigger source diagnostic. preparing_accept p returned = DecisionFailed peers trigger source diagnostic \<and>
          acceptance = AcceptanceFailed \<lparr>failed_owners = remove_at i owners @ peers, failed_member = trigger, failed_source = source,
            failed_diagnostic = diagnostic\<rparr>)"
    by (auto simp: roster_accept_preparation_return_def Let_def split: option.splits roster_owner.splits
        recovery_roster_owner.splits preparation_decision.splits dest!: position_SomeD)
  then show ?thesis
    by (auto simp: RosterOperating own owner_holds_preparing failed_holds_def
        simp del: owner_holds_simps simp flip: owners_hold_remove [OF i] preparing_accept_holds [of p returned])
qed (use assms in \<open>simp_all add: roster_accept_preparation_return_def\<close>)

lemma roster_accept_preparation_return_Inl:
  "roster_accept_preparation_return roster returned = Inl (roster', returned') \<Longrightarrow> roster' = roster \<and> returned' = returned"
  by (cases roster) (auto simp: roster_accept_preparation_return_def Let_def list_update_same split: option.splits roster_owner.splits
      recovery_roster_owner.splits preparation_decision.splits dest!: preparing_accept_rejected)

section \<open>Failures and admission\<close>

lemma failed_into_owners_holds: "failed_into_owners failed = (owners, source, diagnostic) \<Longrightarrow> owners_hold owners = failed_holds failed"
  by (auto simp: failed_into_owners_def failed_holds_def)

lemma failed_terminate_holds: "failed_terminate failed = (roster, source, diagnostic) \<Longrightarrow> roster_holds roster = failed_holds failed"
  by (auto simp: failed_terminate_def split: prod.splits dest!: failed_into_owners_holds)

lemma unrecovered_begin_role: "unrecovered_begin h m = (h', m', operation) \<Longrightarrow> exiting_role (unrecovered_proxy m') = halted_role m"
  by (auto simp: unrecovered_begin_def exiting_begin_def split: prod.splits)

lemma failed_retire_member_holds:
  "failed_retire_member h failed = (h', roster, source, diagnostic, operation) \<Longrightarrow> roster_holds roster = failed_holds failed"
  by (auto simp: failed_retire_member_def failed_holds_def split: prod.splits dest!: unrecovered_begin_role)

lemma participants_cancelled_hold:
  "owners_hold (map (participant_release \<circ> participant_member) ps) = mset (map (role_key \<circ> participant_role \<circ> participant_member) ps)"
  "owners_hold (map participant_cancel ps) = mset (map (role_key \<circ> participant_role \<circ> participant_member) ps)"
  by (induction ps) (simp_all add: participant_cancel_def)

lemma failure_terminate_holds [simp]: "roster_holds (failure_terminate failed) = failure_holds failed"
  by (simp add: failure_terminate_def into_terminal_ownership_def failure_holds_def participants_cancelled_hold Let_def del: mset_map)

lemma retire_prepared_worker_role:
  "retire_prepared_worker h m prepared = (h', proxy, ownership, operation) \<Longrightarrow> exiting_role proxy = empty_role m"
  by (auto simp: retire_prepared_worker_def exiting_begin_def split: prod.splits)

lemma failure_retire_member_holds:
  "failure_retire_member h failed = (h', roster, operation) \<Longrightarrow> roster_holds roster = failure_holds failed"
  by (auto simp: failure_retire_member_def failure_holds_def participants_cancelled_hold Let_def simp del: mset_map
      split: prod.splits dest!: retire_prepared_worker_role)

lemma deny_prepared_recovery_holds:
  "deny_prepared_recovery owners prepared reason = (failed, diagnostic) \<Longrightarrow>
   failure_holds failed = owners_hold owners + prepared_holds prepared"
  by (auto simp: deny_prepared_recovery_def failure_holds_def prepared_holds_def into_empty_def Let_def)

lemma retain_rejected_schedule_holds [simp]:
  "failure_holds (retain_rejected_schedule owners prepared) = owners_hold owners + prepared_holds prepared"
  by (simp add: retain_rejected_schedule_def failure_holds_def prepared_holds_def)

lemma participants_admitted_hold:
  "mset (map (role_key \<circ> recovering_role) (map participant_admit ps)) = mset (map (role_key \<circ> participant_role \<circ> participant_member) ps)"
  by (induction ps) (simp_all add: participant_admit_def)

lemma recovery_admit_holds [simp]: "batch_holds (recovery_admit prepared ticket timer) = prepared_holds prepared"
  using participants_admitted_hold [of "prepared_before prepared"] participants_admitted_hold [of "prepared_after prepared"]
  by (simp add: recovery_admit_def batch_holds_def prepared_holds_def)

lemma owners_hold_insert_at [simp]: "owners_hold (insert_at i own owners) = owner_holds own + owners_hold owners"
  using owners_hold_simps(3) [of "take i owners" "drop i owners"] by (simp add: insert_at_def)

fun prepared_decision_holds :: "('s, 'k, 'v, 'a, 'r) prepared_decision \<Rightarrow> (nat \<times> 'k) multiset" where
  "prepared_decision_holds (PreparedAdmitted roster recovery schedule) = roster_holds roster"
| "prepared_decision_holds (PreparedDenied failed recovery diagnostic) = failure_holds failed"

lemma prepared_holds_role:
  "role_key role = role_key (halted_role (prepared_trigger prepared)) \<Longrightarrow>
   prepared_holds (prepared\<lparr>prepared_trigger := (prepared_trigger prepared)\<lparr>halted_role := role\<rparr>\<rparr>) = prepared_holds prepared"
  by (simp add: prepared_holds_def)

lemma decide_prepared_holds:
  assumes "decide_prepared lowest awaiting owners at prepared source = Some decision"
  shows "prepared_decision_holds decision = owners_hold owners + prepared_holds prepared"
  using assms
  by (auto simp: decide_prepared_def Let_def owner_holds_batch prepared_holds_role role_key_def simp del: owner_holds_simps
      split: sum.splits prod.splits option.splits roster_restart_admission.splits dest!: deny_prepared_recovery_holds)

lemma from_admitted_Inr:
  assumes "from_admitted trigger members = Inr prepared"
  shows "prepared_holds prepared = mset (map (role_key \<circ> participant_role \<circ> participant_member) members)"
proof -
  obtain i m where i: "i < length members" and trigger: "participant_member (members ! i) = ParticipantStopped m"
      and prepared: "prepared = \<lparr>prepared_before = take i (remove_at i members), prepared_trigger = m,
        prepared_trigger_submission = participant_submission (members ! i), prepared_after = drop i (remove_at i members)\<rparr>"
    using assms by (auto simp: from_admitted_def Let_def split: option.splits sum.splits dest!: position_SomeD
        elim!: into_stopped.elims)
  have "take i (remove_at i members) @ drop i (remove_at i members) = remove_at i members"
    by simp
  then show ?thesis
    using i trigger mset_map sum_list_remove_at [OF i, of "\<lambda>p. {#(role_key \<circ> participant_role \<circ> participant_member) p#}"]
    by (simp add: prepared prepared_holds_def comp_def mset_map_sum [symmetric] flip: map_append image_mset_union mset_append del: map_remove_at)
qed

lemma batch_accept_schedule_holds:
  "batch_accept_schedule batch input = BatchWaiting batch' \<Longrightarrow> batch_holds batch' = batch_holds batch"
  "batch_accept_schedule batch input = BatchRejected prepared request reason \<Longrightarrow> prepared_holds prepared = batch_holds batch"
proof -
  have members: "mset (map (role_key \<circ> participant_role \<circ> participant_member) prepared) = batch_holds batch"
    if "prepared_members_from [] (batch_members batch) = Inr prepared" for prepared
    using prepared_members_from_Inr [OF that] participants_admitted_hold [of prepared] by (simp add: batch_holds_def)
  show "batch_accept_schedule batch input = BatchRejected prepared request reason \<Longrightarrow> prepared_holds prepared = batch_holds batch"
    by (auto simp: batch_accept_schedule_def into_prepared_members_def members simp del: mset_map
        split: restart_release_state.splits settled_item.splits item_settlement.splits if_splits sum.splits
        dest!: from_admitted_Inr)
  show "batch_accept_schedule batch input = BatchWaiting batch' \<Longrightarrow> batch_holds batch' = batch_holds batch"
    by (auto simp: batch_accept_schedule_def batch_holds_def
        split: restart_release_state.splits settled_item.splits item_settlement.splits if_splits sum.splits)
qed

fun schedule_flow_holds :: "(('k, 'v, 'a, 'r) prepared_recovery \<times> timer_id schedule_after \<times> schedule_after_rejection,
    ('k, 'v, 'a, 'r) recovery_batch) control_flow \<Rightarrow> (nat \<times> 'k) multiset" where
  "schedule_flow_holds (FlowContinue batch) = batch_holds batch"
| "schedule_flow_holds (FlowBreak (prepared, request, reason)) = prepared_holds prepared"

interpretation owner_schedules: keeping owner_accept_schedule owner_holds schedule_flow_holds
proof unfold_locales
  fix own input flow
  show "owner_accept_schedule own input = Inr flow \<Longrightarrow> schedule_flow_holds flow = owner_holds own"
    by (cases "(own, input)" rule: owner_accept_schedule.cases)
       (auto simp: owner_holds_batch simp del: owner_holds_simps split: recovery_schedule_admission.splits
         dest!: batch_accept_schedule_holds)
qed

interpretation owner_elapses: keeping owner_accept_elapsed owner_holds owner_holds
proof unfold_locales
  fix own elapsed own'
  show "owner_accept_elapsed own elapsed = Inr own' \<Longrightarrow> owner_holds own' = owner_holds own"
    by (cases "(own, elapsed)" rule: owner_accept_elapsed.cases)
       (auto simp: batch_accept_elapsed_def split: sum.splits prod.splits restart_release_state.splits if_splits)
qed

fun schedule_admission_holds :: "('k, 'v, 'a, 'r) restart_schedule_admission \<Rightarrow> (nat \<times> 'k) multiset" where
  "schedule_admission_holds (ScheduleWaiting roster) = roster_holds roster"
| "schedule_admission_holds (ScheduleRejected failed diagnostic) = failure_holds failed"
| "schedule_admission_holds (ScheduleUnrelated roster input) = roster_holds roster"

lemma roster_accept_restart_schedule_holds: "schedule_admission_holds (roster_accept_restart_schedule roster input) = roster_holds roster"
  by (cases roster) (auto simp: roster_accept_restart_schedule_def owners_hold_def [symmetric] owner_holds_batch ac_simps
      simp del: owner_holds_simps split: sum.splits prod.splits control_flow.splits
      dest!: owner_schedules.offer_keeps owner_schedule.offer_refused)

lemma roster_accept_restart_schedule_unrelated:
  "roster_accept_restart_schedule roster input = ScheduleUnrelated roster' input' \<Longrightarrow> roster' = roster \<and> input' = input"
  by (cases roster) (auto simp: roster_accept_restart_schedule_def split: sum.splits prod.splits control_flow.splits
      dest!: owner_schedule.offer_refused)

lemma roster_accept_restart_elapsed_Inr:
  "roster_accept_restart_elapsed roster elapsed = Inr roster' \<Longrightarrow> roster_holds roster' = roster_holds roster"
  by (cases roster) (auto simp: roster_accept_restart_elapsed_def owners_hold_def [symmetric] ac_simps split: sum.splits prod.splits
      dest!: owner_elapses.offer_keeps)

lemma roster_accept_restart_elapsed_Inl:
  "roster_accept_restart_elapsed roster elapsed = Inl (roster', elapsed') \<Longrightarrow> roster' = roster \<and> elapsed' = elapsed"
  by (cases roster) (auto simp: roster_accept_restart_elapsed_def split: sum.splits prod.splits
      dest!: owner_elapsed.offer_refused)

end
