(* ===== verification/Roster_Conservation.thy ===== *)
theory Roster_Conservation
  imports Roster_Custody
begin

text \<open>
  The members of a fixed supervisor over a shutdown and over every handler: from its construction
  on, whatever inputs it receives, a supervisor holds each declared role once, at its position.
\<close>

section \<open>Beginning a shutdown\<close>

lemma leaving_holds_proxy [simp]: "leaving_holds (ShutdownProxy flow ownership preparation) = {#role_key (exit_role flow)#}"
  by (simp add: leaving_holds_def)

lemma leaving_holds_birth [simp]:
  "leaving_holds (ShutdownAwaitingBirth role witness operation) = {#role_key role#}"
  "leaving_holds (ShutdownAbsentProxy role witness operation settlement) = {#role_key role#}"
  by (simp_all add: leaving_holds_def)

lemma begin_exit_holds:
  "begin_exit h role creation proxy ownership preparation = (h', m, operations) \<Longrightarrow> leaving_holds m = {#role_key role#}"
  by (auto simp: begin_exit_def exiting_begin_def split: prod.splits)

lemma participant_begin_shutdown_holds:
  "participant_begin_shutdown h p prepared = (h', m, operation) \<Longrightarrow> leaving_holds m = {#role_key (participant_role p)#}"
  by (auto simp: participant_begin_shutdown_def exiting_begin_def split: prod.splits)

lemma recovering_begin_shutdown_holds:
  "recovering_begin_shutdown h p = (h', m, operation) \<Longrightarrow> leaving_holds m = {#role_key (recovering_role p)#}"
  by (cases p) (auto simp: exiting_begin_def split: prod.splits dest!: participant_begin_shutdown_holds)

lemma recovering_begin_shutdowns_hold:
  "recovering_begin_shutdowns h ps = (h', members, operations) \<Longrightarrow>
   leavings_hold members = mset (map (role_key \<circ> recovering_role) ps)"
proof (induction ps arbitrary: h members operations)
  case (Cons p ps)
  show ?case
    using Cons.prems by (auto split: prod.splits dest!: recovering_begin_shutdown_holds Cons.IH)
qed simp

lemma owner_begin_shutdown_holds:
  assumes "owner_begin_shutdown h own preparation = (h', members, operations, cancelled)"
    and "\<And>p. own \<noteq> OwnerRecovery (RecoveryPreparing p)"
  shows "leavings_hold members = owner_holds own"
  using assms
  by (cases "(h, own, preparation)" rule: owner_begin_shutdown.cases)
     (auto simp: starting_role_def batch_begin_shutdown_def split: prod.splits dest!: begin_exit_holds recovering_begin_shutdowns_hold)

lemma released_hold: "owners_hold (map fst (released p)) = preparing_holds p"
  by (simp add: released_def preparing_holds_def preparing_participants_def comp_def released_participants_hold [unfolded comp_def])

lemma shutdown_owners_hold:
  "shutdown_owners h owners members operations cancelled = (h', members', operations', cancelled') \<Longrightarrow>
   leavings_hold members' = leavings_hold members + owners_hold (map fst owners)"
proof (induction h owners members operations cancelled rule: shutdown_owners.induct)
  case (2 h own preparation remaining members operations cancelled)
  show ?case
  proof (cases "\<exists>p. own = OwnerRecovery (RecoveryPreparing p)")
    case True
    then show ?thesis
      using "2.prems" "2.IH" by (auto simp: released_hold owner_holds_preparing simp del: owner_holds_simps)
  next
    case False
    obtain h1 ms os cs where begun: "owner_begin_shutdown h own preparation = (h1, ms, os, cs)"
      by (cases "owner_begin_shutdown h own preparation") auto
    have "shutdown_owners h1 remaining (members @ ms) (operations @ os) (cancelled @ cs) = (h', members', operations', cancelled')"
      using "2.prems" False begun
      by (auto simp del: owner_begin_shutdown.simps split: roster_owner.splits recovery_roster_owner.splits)
    moreover have "leavings_hold members' = leavings_hold (members @ ms) + owners_hold (map fst remaining)"
      using "2.IH" begun calculation False
      by (cases "(own, preparation)" rule: owner_weight.cases; cases own)
         (auto simp del: owner_begin_shutdown.simps split: recovery_roster_owner.splits)
    ultimately show ?thesis
      using owner_begin_shutdown_holds [OF begun] False by (simp add: ac_simps)
  qed
qed simp

lemma fixed_shutdown_begin_holds:
  "fixed_shutdown_begin h owners drain = (h', shutdown, operations, schedule) \<Longrightarrow>
   leavings_hold (fixed_members shutdown) = owners_hold owners"
  by (auto simp: fixed_shutdown_begin_def comp_def split: prod.splits dest!: shutdown_owners_hold)

lemma peers_begin_shutdown_hold:
  "peers_begin_shutdown h ps = (h', members, operations) \<Longrightarrow>
   leavings_hold members = mset (map (role_key \<circ> participant_role \<circ> participant_member) ps)"
proof (induction ps arbitrary: h members operations)
  case (Cons p ps)
  show ?case
    using Cons.prems by (auto split: prod.splits dest!: participant_begin_shutdown_holds Cons.IH)
qed simp

lemma failure_stop_supervisor_holds:
  "failure_stop_supervisor h failed drain = (h', shutdown, operations, schedule) \<Longrightarrow>
   leavings_hold (fixed_members shutdown) = failure_holds failed"
  by (auto simp: failure_stop_supervisor_def begin_with_unissued_def failure_holds_def Let_def simp del: mset_map split: prod.splits
      dest!: fixed_shutdown_begin_holds peers_begin_shutdown_hold retire_prepared_worker_role)

lemma failed_stop_supervisor_holds:
  "failed_stop_supervisor h failed drain = (h', shutdown, source, diagnostic, operations, schedule) \<Longrightarrow>
   leavings_hold (fixed_members shutdown) = failed_holds failed"
  by (auto simp: failed_stop_supervisor_def split: prod.splits dest!: fixed_shutdown_begin_holds failed_into_owners_holds)

lemma roster_begin_shutdown_holds:
  "roster_begin_shutdown h roster drain = (h', Inr (shutdown, operations, schedule)) \<Longrightarrow>
   leavings_hold (fixed_members shutdown) = roster_holds roster"
  "roster_begin_shutdown h roster drain = (h', Inl roster') \<Longrightarrow> roster' = roster \<and> h' = h"
  by (cases roster; auto split: prod.splits dest!: fixed_shutdown_begin_holds)+

section \<open>Steps of a shutdown\<close>

interpretation leaving_operations: keeping leaving_accept_operation leaving_holds leaving_holds
proof unfold_locales
  fix m settlement m'
  show "leaving_accept_operation m settlement = Inr m' \<Longrightarrow> leaving_holds m' = leaving_holds m"
    by (cases m) (auto split: sum.splits prod.splits control_flow.splits
        dest!: exiting_accept_operation_role exiting_accept_operation_Inl)
qed

interpretation leaving_starts: keeping leaving_accept_preparation_start leaving_holds
    "\<lambda>flow. case flow of FlowContinue m \<Rightarrow> leaving_holds m | FlowBreak (m, returned) \<Rightarrow> leaving_holds m"
proof unfold_locales
  fix m result flow
  show "leaving_accept_preparation_start m result = Inr flow \<Longrightarrow>
    (case flow of FlowContinue m \<Rightarrow> leaving_holds m | FlowBreak (m, returned) \<Rightarrow> leaving_holds m) = leaving_holds m"
    by (cases "(m, result)" rule: leaving_accept_preparation_start.cases)
       (auto split: if_splits settled_item.splits item_settlement.splits sum.splits)
qed

interpretation leaving_returns: keeping leaving_accept_preparation_return leaving_holds "\<lambda>(m, returned). leaving_holds m"
proof unfold_locales
  fix m returned y
  show "leaving_accept_preparation_return m returned = Inr y \<Longrightarrow> (case y of (m, returned) \<Rightarrow> leaving_holds m) = leaving_holds m"
    by (cases "(m, returned)" rule: leaving_accept_preparation_return.cases) (auto split: if_splits)
qed

definition shutdown_holds :: "('k, 'v, 'a, 'r) fixed_shutdown \<Rightarrow> (nat \<times> 'k) multiset" where
  "shutdown_holds shutdown = leavings_hold (fixed_members shutdown)"

lemma shutdown_accept_schedule_Inr: "shutdown_accept_schedule shutdown input = Inr shutdown' \<Longrightarrow> shutdown_holds shutdown' = shutdown_holds shutdown"
  by (auto simp: shutdown_accept_schedule_def shutdown_holds_def Let_def split: sum.splits prod.splits)

lemma shutdown_accept_schedule_Inl:
  "shutdown_accept_schedule shutdown input = Inl (shutdown', input') \<Longrightarrow> shutdown' = shutdown \<and> input' = input"
  by (auto simp: shutdown_accept_schedule_def Let_def split: sum.splits prod.splits
      dest!: cancelled_schedule.offer_refused deadline_accept_schedule_Inl)

lemma shutdown_accept_elapsed_Inr: "shutdown_accept_elapsed shutdown elapsed = Inr shutdown' \<Longrightarrow> shutdown_holds shutdown' = shutdown_holds shutdown"
  by (auto simp: shutdown_accept_elapsed_def shutdown_holds_def split: sum.splits)

lemma shutdown_accept_elapsed_Inl:
  "shutdown_accept_elapsed shutdown elapsed = Inl (shutdown', elapsed') \<Longrightarrow> shutdown' = shutdown \<and> elapsed' = elapsed"
  by (auto simp: shutdown_accept_elapsed_def split: sum.splits dest!: deadline_accept_elapsed_Inl)

lemma shutdown_accept_operation_Inr:
  "shutdown_accept_operation shutdown settlement = Inr shutdown' \<Longrightarrow> shutdown_holds shutdown' = shutdown_holds shutdown"
  by (auto simp: shutdown_accept_operation_def shutdown_holds_def leavings_hold_def ac_simps split: sum.splits prod.splits
      dest!: leaving_operations.offer_keeps)

lemma shutdown_accept_operation_Inl:
  "shutdown_accept_operation shutdown settlement = Inl (shutdown', settlement') \<Longrightarrow> shutdown' = shutdown \<and> settlement' = settlement"
  by (auto simp: shutdown_accept_operation_def split: sum.splits prod.splits dest!: leaving_operation.offer_refused)

lemma shutdown_accept_preparation_start_Inr:
  "shutdown_accept_preparation_start shutdown result = Inr flow \<Longrightarrow>
   (case flow of FlowContinue shutdown' \<Rightarrow> shutdown_holds shutdown' | FlowBreak (shutdown', returned) \<Rightarrow> shutdown_holds shutdown')
   = shutdown_holds shutdown"
  by (auto simp: shutdown_accept_preparation_start_def shutdown_holds_def leavings_hold_def ac_simps split: sum.splits prod.splits control_flow.splits
      dest!: leaving_starts.offer_keeps)

lemma shutdown_accept_preparation_start_Inl:
  "shutdown_accept_preparation_start shutdown result = Inl (shutdown', result') \<Longrightarrow> shutdown' = shutdown \<and> result' = result"
  by (auto simp: shutdown_accept_preparation_start_def split: sum.splits prod.splits control_flow.splits
      dest!: leaving_preparation_start.offer_refused)

lemma shutdown_accept_preparation_return_Inr:
  "shutdown_accept_preparation_return shutdown returned = Inr (shutdown', returned') \<Longrightarrow> shutdown_holds shutdown' = shutdown_holds shutdown"
  by (auto simp: shutdown_accept_preparation_return_def shutdown_holds_def leavings_hold_def ac_simps split: sum.splits prod.splits
      dest!: leaving_returns.offer_keeps)

lemma shutdown_accept_preparation_return_Inl:
  "shutdown_accept_preparation_return shutdown returned = Inl (shutdown', returned') \<Longrightarrow> shutdown' = shutdown \<and> returned' = returned"
  by (auto simp: shutdown_accept_preparation_return_def split: sum.splits prod.splits
      dest!: leaving_preparation_return.offer_refused)

lemma shutdown_at_Inr:
  assumes "\<And>m x m'. accept m x = Inr m' \<Longrightarrow> leaving_holds m' = leaving_holds m"
    and "shutdown_at owns accept shutdown x = Inr shutdown'"
  shows "shutdown_holds shutdown' = shutdown_holds shutdown"
  using assms(2) by (auto simp: shutdown_at_def shutdown_holds_def Let_def leavings_hold_update assms(1)
      split: option.splits sum.splits prod.splits)

lemma shutdown_at_Inl:
  assumes "\<And>m x m' x'. accept m x = Inl (m', x') \<Longrightarrow> m' = m \<and> x' = x"
    and "shutdown_at owns accept shutdown x = Inl (shutdown', x')"
  shows "shutdown' = shutdown \<and> x' = x"
  using assms(2) by (auto simp: shutdown_at_def Let_def split: option.splits sum.splits prod.splits dest!: assms(1))

lemma shutdown_accept_outcome_Inr: "shutdown_accept_outcome shutdown report = Inr shutdown' \<Longrightarrow> shutdown_holds shutdown' = shutdown_holds shutdown"
  unfolding shutdown_accept_outcome_def
proof (rule shutdown_at_Inr)
  show "leaving_accept_outcome m x = Inr m' \<Longrightarrow> leaving_holds m' = leaving_holds m" for m x m'
    by (cases m) (auto split: sum.splits prod.splits)
qed

lemma shutdown_accept_outcome_Inl:
  "shutdown_accept_outcome shutdown report = Inl (shutdown', report') \<Longrightarrow> shutdown' = shutdown \<and> report' = report"
  unfolding shutdown_accept_outcome_def by (erule shutdown_at_Inl [rotated]) (erule leaving_accept_outcome_Inl)

lemma shutdown_accept_stop_Inr: "shutdown_accept_stop shutdown stopped = Inr shutdown' \<Longrightarrow> shutdown_holds shutdown' = shutdown_holds shutdown"
  unfolding shutdown_accept_stop_def
proof (rule shutdown_at_Inr)
  show "leaving_accept_stop m x = Inr m' \<Longrightarrow> leaving_holds m' = leaving_holds m" for m x m'
    by (cases "(m, x)" rule: leaving_accept_stop.cases) (auto split: sum.splits prod.splits dest!: exiting_accept_stop_role)
qed

lemma shutdown_accept_stop_Inl:
  "shutdown_accept_stop shutdown stopped = Inl (shutdown', stopped') \<Longrightarrow> shutdown' = shutdown \<and> stopped' = stopped"
  unfolding shutdown_accept_stop_def by (erule shutdown_at_Inl [rotated]) (erule leaving_accept_stop_Inl)

lemma into_awaiting_proxy_Inr: "into_awaiting_proxy m = Inr (role, witness, operation) \<Longrightarrow> m = ShutdownAwaitingBirth role witness operation"
  by (cases m) auto

lemma into_awaiting_proxy_Inl: "into_awaiting_proxy m = Inl m' \<Longrightarrow> m' = m"
  by (cases m) auto

lemma awaiting_proxies_from_Inl:
  "awaiting_proxies_from awaiting members = Inl members' \<Longrightarrow>
   members' = map (\<lambda>(role, witness, operation). ShutdownAwaitingBirth role witness operation) awaiting @ members"
proof (induction members arbitrary: awaiting)
  case (Cons m members)
  show ?case
    using Cons.prems by (auto split: sum.splits dest!: into_awaiting_proxy_Inr into_awaiting_proxy_Inl Cons.IH)
qed simp

lemma awaiting_proxies_from_Inr:
  "awaiting_proxies_from awaiting members = Inr awaiting' \<Longrightarrow>
   map (\<lambda>(role, witness, operation). ShutdownAwaitingBirth role witness operation) awaiting' =
   map (\<lambda>(role, witness, operation). ShutdownAwaitingBirth role witness operation) awaiting @ members"
proof (induction members arbitrary: awaiting)
  case (Cons m members)
  show ?case
    using Cons.prems by (auto split: sum.splits dest!: into_awaiting_proxy_Inr into_awaiting_proxy_Inl Cons.IH)
qed simp

definition awaiting_holds :: "('k member_role \<times> token \<times> 'v operation) list \<Rightarrow> (nat \<times> 'k) multiset" where
  "awaiting_holds awaiting = mset (map (role_key \<circ> fst) awaiting)"

lemma awaiting_births_hold:
  "leavings_hold (map (\<lambda>(role, witness, operation). ShutdownAwaitingBirth role witness operation) awaiting) = awaiting_holds awaiting"
  by (induction awaiting) (auto simp: awaiting_holds_def)

lemma births_absent_hold: "leavings_hold (births_absent awaiting) = awaiting_holds awaiting"
  unfolding births_absent_def by (induction awaiting) (auto simp: awaiting_holds_def)

lemma births_resolved_hold:
  "births_resolved h born = (h', members, operations) \<Longrightarrow> leavings_hold members = awaiting_holds (map fst born)"
proof (induction h born arbitrary: members operations h' rule: births_resolved.induct)
  case (2 h role witness operation settlement rest)
  then show ?case
    by (auto simp: awaiting_holds_def exiting_begin_def split: stable_proxy_creation.splits prod.splits)
qed (simp add: awaiting_holds_def)

lemma awaiting_proxies_hold:
  assumes "awaiting_proxies_from [] members = Inr awaiting"
  shows "awaiting_holds awaiting = leavings_hold members" and "length awaiting = length members"
proof -
  have same: "map (\<lambda>(role, witness, operation). ShutdownAwaitingBirth role witness operation) awaiting = members"
    using awaiting_proxies_from_Inr [OF assms] by simp
  show "awaiting_holds awaiting = leavings_hold members"
    by (subst same [symmetric]) (rule awaiting_births_hold [symmetric])
  show "length awaiting = length members"
    by (subst same [symmetric]) simp
qed

lemma shutdown_accept_births_Inr:
  "shutdown_accept_births h shutdown proxies = (h', Inr (shutdown', operations)) \<Longrightarrow> shutdown_holds shutdown' = shutdown_holds shutdown"
  by (auto simp: shutdown_accept_births_def shutdown_holds_def births_absent_hold awaiting_proxies_hold Let_def
      split: if_splits sum.splits creation_settlement.splits prod.splits dest!: births_resolved_hold)

lemma shutdown_accept_births_Inl:
  "shutdown_accept_births h shutdown proxies = (h', Inl (shutdown', proxies')) \<Longrightarrow> h' = h \<and> shutdown' = shutdown \<and> proxies' = proxies"
  by (auto simp: shutdown_accept_births_def Let_def split: if_splits sum.splits creation_settlement.splits prod.splits
      dest!: awaiting_proxies_from_Inl)

section \<open>Handlers\<close>

abbreviation (input) holding :: "('s, 'k, 'v, 'a, 'r, 'q) supervisor_acted \<Rightarrow> (nat \<times> 'k) multiset" where
  "holding acted \<equiv> roster_holds (fixed_roster (fst (snd acted)))"

lemma input_rejected_holds [simp]: "holding (input_rejected h s roster input) = roster_holds roster"
  by (simp add: input_rejected_def)

lemma authorize_with_holds [simp]: "holding (authorize_with h s roster requests) = roster_holds roster"
  by (auto simp: authorize_with_def split: prod.splits sum.splits dest!: roster_authorize_Inr roster_authorize_Inl)

lemma waiting_holds [simp]:
  "holding (authorize_waiting h s roster) = roster_holds roster"
  "holding (member_retired h s roster role) = roster_holds roster"
  "holding (retired_or_waiting h s roster gone) = roster_holds roster"
  "holding (admit_recovery h s roster recovery schedule) = roster_holds roster"
  "holding (retain_shutdown h s shutdown operations requests) = shutdown_holds shutdown"
  by (simp_all add: authorize_waiting_def member_retired_def retired_or_waiting_def admit_recovery_def retain_shutdown_def
      shutdown_holds_def split: option.splits)

lemma apply_recovery_failure_holds [simp]: "holding (apply_recovery_failure h s failed diagnostic) = failure_holds failed"
  by (auto simp: apply_recovery_failure_def Let_def split: diagnostic_disposition.splits failure_reaction.splits prod.splits
      dest!: failure_retire_member_holds failure_stop_supervisor_holds)

lemma apply_failed_preparation_holds [simp]: "holding (apply_failed_preparation h s awaiting failed) = failed_holds failed"
  by (auto simp: apply_failed_preparation_def Let_def split: diagnostic_disposition.splits failure_reaction.splits prod.splits
      dest!: failed_terminate_holds failed_retire_member_holds failed_stop_supervisor_holds)

lemma replacement_unrecovered_role:
  "replacement_unrecovered h route previous stopped ticket = (h', m, operation, lifecycle) \<Longrightarrow>
   exiting_role (unrecovered_proxy m) = online_role previous"
  by (auto simp: replacement_unrecovered_def begin_after_worker_stop_transfer_def begin_replacement_failure_def exiting_begin_def
      split: option.splits prod.splits)

lemma apply_replacement_failure_holds [simp]:
  "holding (apply_replacement_failure h s owners previous stopped ticket diagnostic) =
   owners_hold owners + {#role_key (online_role previous)#}"
  by (auto simp: apply_replacement_failure_def Let_def split: diagnostic_disposition.splits failure_reaction.splits prod.splits
      dest!: replacement_unrecovered_role fixed_shutdown_begin_holds)

lemma accept_initial_failure_holds [simp]: "holding (accept_initial_failure h s owners child role outcome) = owners_hold owners"
  by (auto simp: accept_initial_failure_def Let_def shutdown_holds_def
      split: diagnostic_disposition.splits failure_reaction.splits prod.splits sum.splits
      dest!: roster_begin_stop_holds fixed_shutdown_begin_holds)

lemma accept_replacement_completion_holds [simp]:
  "holding (accept_replacement_completion h s owners completed) = owners_hold owners + {#role_key (completion_role completed)#}"
  by (cases completed) simp_all

lemma accept_restart_schedule_holds: "holding (accept_restart_schedule h s roster input) = roster_holds roster"
  using roster_accept_restart_schedule_holds [of roster input]
  by (auto simp: accept_restart_schedule_def shutdown_holds_def split: fixed_roster.splits sum.splits restart_schedule_admission.splits
      dest!: shutdown_accept_schedule_Inr shutdown_accept_schedule_Inl)

lemma accept_restart_elapsed_holds: "holding (accept_restart_elapsed h s roster elapsed) = roster_holds roster"
  by (auto simp: accept_restart_elapsed_def shutdown_holds_def split: fixed_roster.splits sum.splits
      dest!: shutdown_accept_elapsed_Inr shutdown_accept_elapsed_Inl roster_accept_restart_elapsed_Inr roster_accept_restart_elapsed_Inl)

lemma accept_proxy_birth_holds: "holding (accept_proxy_birth h s roster proxies) = roster_holds roster"
  by (auto simp: accept_proxy_birth_def shutdown_holds_def split: fixed_roster.splits sum.splits prod.splits
      dest!: shutdown_accept_births_Inr shutdown_accept_births_Inl roster_accept_births_Inr roster_accept_births_Inl)

lemma accept_proxy_operation_holds: "holding (accept_proxy_operation h s roster settlement) = roster_holds roster"
  by (auto simp: accept_proxy_operation_def shutdown_holds_def split: fixed_roster.splits sum.splits prod.splits control_flow.splits
      dest!: shutdown_accept_operation_Inr shutdown_accept_operation_Inl roster_accept_replacement_operation_holds
        roster_accept_replacement_operation_Inl roster_accept_operation_Inr roster_accept_operation_Inl)

lemma accept_unavailable_holds [simp]: "holding (accept_unavailable h s roster child sender phase command) = roster_holds roster"
  by (auto simp: accept_unavailable_def split: option.splits)

lemma reject_stop_holds: "reject_stop stop = (roster, report) \<Longrightarrow> roster_holds roster = stop_holds stop"
  using stops_hold(3) [of stop] by simp

lemma release_stop_holds: "release_stop stop = (roster, role, stopped) \<Longrightarrow> roster_holds roster = stop_holds stop"
  using stops_hold(1) [of stop] by simp

lemma begin_recovery_Inl_holds:
  "begin_recovery h stop preparation = (h', Inl (stop', preparation')) \<Longrightarrow> stop_holds stop' = stop_holds stop"
  by (auto simp: stop_holds_def dest!: begin_recovery_Inl owners_hold_mset)

lemma accept_worker_stop_holds [simp]: "holding (accept_worker_stop h s stop) = stop_holds stop"
  by (auto simp: accept_worker_stop_def Let_def split: recovery_choice.splits option.splits prod.splits sum.splits
      dest!: release_stop_holds reject_stop_holds begin_recovery_Inr begin_recovery_Inl_holds)

lemma accept_initial_report_holds [simp]: "holding (accept_initial_report h s roster report) = roster_holds roster"
proof -
  have "initial_holds decision = roster_holds roster \<Longrightarrow> holding (case decision of
      InitialReady owners m \<Rightarrow> authorize_with h s (RosterOperating (owners @ [OwnerOnline m]))
        (no_requests\<lparr>lifecycle_sends := lifecycle_deliver (fixed_lifecycle_route s) (role_name (online_role m))
           (LifecycleStarted (online_proxy m))\<rparr>)
    | InitialFailed owners child role outcome \<Rightarrow> accept_initial_failure h s owners child role outcome
    | InitialRejected roster rejection \<Rightarrow> (h, s\<lparr>fixed_roster := roster\<rparr>, Inl rejection)) = roster_holds roster" for decision
    by (cases decision) simp_all
  from this [OF roster_accept_initial_outcome_holds] show ?thesis
    unfolding accept_initial_report_def .
qed

lemma accept_proxy_report_holds: "holding (accept_proxy_report h s roster report) = roster_holds roster"
proof (cases "report_report report")
  case (OutcomeUnavailable sender phase command)
  then show ?thesis
    by (simp add: accept_proxy_report_def)
next
  case (OutcomeWorkerStopped worker stopped)
  then show ?thesis
    by (cases roster) (auto simp: accept_proxy_report_def shutdown_holds_def split: sum.splits prod.splits control_flow.splits
        dest!: shutdown_accept_outcome_Inr shutdown_accept_outcome_Inl roster_accept_recovery_report_holds
          roster_accept_recovery_report_Inl roster_accept_worker_stop_Inr roster_accept_worker_stop_Inl)
qed (cases roster; auto simp: accept_proxy_report_def shutdown_holds_def split: sum.splits prod.splits control_flow.splits
        dest!: shutdown_accept_outcome_Inr shutdown_accept_outcome_Inl roster_accept_recovery_report_holds
          roster_accept_recovery_report_Inl)+

lemma accept_proxy_exit_holds: "holding (accept_proxy_exit h s roster stopped) = roster_holds roster"
  by (auto simp: accept_proxy_exit_def shutdown_holds_def split: fixed_roster.splits sum.splits prod.splits
      dest!: shutdown_accept_stop_Inr shutdown_accept_stop_Inl roster_accept_proxy_stop_Inr roster_accept_proxy_stop_Inl)

lemma accept_preparation_start_holds: "holding (accept_preparation_start h s roster input) = roster_holds roster"
  by (auto simp: accept_preparation_start_def shutdown_holds_def Let_def split: fixed_roster.splits sum.splits prod.splits control_flow.splits
      dest!: shutdown_accept_preparation_start_Inr shutdown_accept_preparation_start_Inl
        roster_accept_preparation_start_Inr roster_accept_preparation_start_Inl)

lemma accept_preparation_return_holds:
  "accept_preparation_return lowest h s roster returned = Some acted \<Longrightarrow> holding acted = roster_holds roster"
  by (auto simp: accept_preparation_return_def shutdown_holds_def Let_def split: fixed_roster.splits sum.splits prod.splits
      preparation_acceptance.splits option.splits prepared_decision.splits
      dest!: shutdown_accept_preparation_return_Inr shutdown_accept_preparation_return_Inl decide_prepared_holds
        roster_accept_preparation_return_Inr roster_accept_preparation_return_Inl)

lemma accept_command_holds: "holding (accept_command h s roster command) = roster_holds roster"
  by (auto simp: accept_command_def shutdown_holds_def split: fixed_command.splits option.splits sum.splits prod.splits
      dest!: roster_begin_shutdown_holds)

section \<open>Runs\<close>

lemma supervisor_accept_holds:
  "supervisor_accept lowest h s event = Some acted \<Longrightarrow> holding acted = roster_holds (fixed_roster s)"
  by (cases event)
     (auto simp: supervisor_accept_def Let_def accept_restart_schedule_holds accept_restart_elapsed_holds accept_proxy_birth_holds
       accept_proxy_operation_holds accept_proxy_report_holds accept_proxy_exit_holds accept_preparation_start_holds
       accept_command_holds dest!: accept_preparation_return_holds)

lemma diagnose_rejected_supervisor [simp]: "fst (snd (diagnose_rejected acted)) = fst (snd acted)"
  by (cases acted rule: diagnose_rejected.cases) simp_all

lemma supervisor_transition_holds:
  "supervisor_transition lowest h s event = Some (h', s', result) \<Longrightarrow> roster_holds (fixed_roster s') = roster_holds (fixed_roster s)"
  by (auto simp: supervisor_transition_def dest!: supervisor_accept_holds)
     (metis diagnose_rejected_supervisor fst_conv snd_conv)

lemma issue_many_length: "issue_many creations n = (creations', Some ids) \<Longrightarrow> length ids = n"
  by (induction n arbitrary: creations creations' ids) (auto split: prod.splits option.splits)

lemma begin_members_hold:
  "length ids = length members \<Longrightarrow> begin_members h at (zip members ids) = (h', owners) \<Longrightarrow>
   owners_hold owners = mset (enumerate at (map prepared_role members))"
proof (induction members arbitrary: ids h at owners)
  case (Cons m members)
  then show ?case
    by (cases ids) (auto simp: role_key_def role_declared_def split: prod.splits)
qed simp

lemma supervisor_init_holds:
  "supervisor_init h s = (h', s', Inr actions) \<Longrightarrow> roster_holds (fixed_roster s') = roster_holds (fixed_roster s)"
  by (auto simp: supervisor_init_def roster_begin_def Let_def split: prod.splits sum.splits fixed_roster.splits option.splits
      dest!: issue_many_length begin_members_hold)

text \<open>The states of a supervisor from its initialization on, whatever inputs it receives.\<close>

inductive supervising :: "instant \<Rightarrow> ('s, 'k, 'v, 'a, 'r, 'q) fixed_supervisor \<Rightarrow> heap
    \<Rightarrow> ('s, 'k, 'v, 'a, 'r, 'q) fixed_supervisor \<Rightarrow> bool" for lowest initial where
  begun: "supervisor_init h initial = (h', s, Inr actions) \<Longrightarrow> supervising lowest initial h' s"
| stepped: "supervising lowest initial h s \<Longrightarrow> supervisor_transition lowest h s event = Some (h', s', result)
    \<Longrightarrow> supervising lowest initial h' s'"

lemma supervising_holds: "supervising lowest initial h s \<Longrightarrow> roster_holds (fixed_roster s) = roster_holds (fixed_roster initial)"
  by (induction rule: supervising.induct) (simp_all add: supervisor_init_holds supervisor_transition_holds)

lemma builder_build_holds:
  assumes "builder_build call b = Inr initial"
  shows "roster_holds (fixed_roster initial) = mset (enumerate 0 (builder_roles b))"
  using assms prepare_workers_from_roles [of call "builder_factory b" "[]" "builder_roles b"]
  by (auto simp: builder_build_def prepare_initial_workers_def Let_def split: sum.splits)

text \<open>A supervisor of two roles, its states after construction and after initialization.\<close>

definition sample_call :: "nat \<Rightarrow> nat \<Rightarrow> nat \<times> (nat + nat submission)" where
  "sample_call factory role = (factory, Inr \<lparr>submitted_worker = role, submitted_startup = 0\<rparr>)"

definition sample_builder :: "(nat, nat, nat, nat) fixed_builder" where
  "sample_builder = \<lparr>builder_factory = 0, builder_roles = [7, 9], builder_config =
     \<lparr>config_startup = \<lparr>limit_capacity = 1\<rparr>, config_recovery = RecoverPermanent 5
        \<lparr>policy_strategy = OneForAll, policy_limit = \<lparr>limit_maximum = 3, limit_window = 10\<rparr>, policy_delay = ReleaseImmediate\<rparr>,
      config_failure = RetireMember, config_shutdown = WaitForActorGraph, config_diagnostics = DeliverDiagnosticsTo 3\<rparr>,
     builder_lifecycle = None\<rparr>"

definition sample_operation :: "nat \<Rightarrow> token \<Rightarrow> u64 \<Rightarrow> nat operation" where
  "sample_operation role token creation = \<lparr>operation_creation = CreationId creation,
     operation_control = ProxyStart \<lparr>submitted_worker = role, submitted_startup = 0\<rparr>, operation_token = token\<rparr>"

definition sample_supervisor :: "(nat, nat, nat, nat) fixed_roster \<Rightarrow> u64 \<Rightarrow> (nat, nat, nat, nat, nat, nat) fixed_supervisor" where
  "sample_supervisor roster next_creation = \<lparr>fixed_roster = roster, fixed_creations = \<lparr>sequence_next = Some next_creation\<rparr>,
     fixed_startup = \<lparr>limit_capacity = 1\<rparr>, fixed_recovery = RecoveryAutomatic \<lparr>automatic_settings =
       \<lparr>settings_eligibility = EligiblePermanent, settings_strategy = OneForAll,
        settings_limit = \<lparr>limit_maximum = 3, limit_window = 10\<rparr>, settings_release = ReleaseImmediate\<rparr>,
       automatic_source = SourceAvailable 5, automatic_budget = [], automatic_correlations = correlations_new\<rparr>,
     fixed_reaction = RetireMember, fixed_drain = WaitForActorGraph, fixed_disposition = DeliverDiagnosticsTo 3,
     fixed_lifecycle_route = None\<rparr>"

definition sample_initial :: "(nat, nat, nat, nat, nat, nat) fixed_supervisor" where
  "sample_initial = sample_supervisor (RosterNew
     [\<lparr>prepared_role = 7, prepared_submission = \<lparr>submitted_worker = 7, submitted_startup = 0\<rparr>\<rparr>,
      \<lparr>prepared_role = 9, prepared_submission = \<lparr>submitted_worker = 9, submitted_startup = 0\<rparr>\<rparr>]) 1"

definition sample_begun :: "(nat, nat, nat, nat, nat, nat) fixed_supervisor" where
  "sample_begun = sample_supervisor (RosterOperating
     [OwnerStarting (CreatingProxy \<lparr>role_position = 0, role_name = 7, role_recoveries = 0\<rparr> 0 (sample_operation 7 0 1)),
      OwnerStarting (CreatingProxy \<lparr>role_position = 1, role_name = 9, role_recoveries = 0\<rparr> 1 (sample_operation 9 1 2))]) 3"

lemma sample_build: "builder_build sample_call sample_builder = Inr sample_initial"
  by (simp add: builder_build_def sample_builder_def sample_call_def sample_initial_def sample_supervisor_def
      prepare_initial_workers_def automatic_new_def creation_sequence_new_def Let_def)

lemma sample_init:
  "supervisor_init 0 sample_initial = (2, sample_begun, Inr (new_actions (no_requests\<lparr>proxy_observations := [CreationId 1, CreationId 2]\<rparr>)
     [create_birth (CreationId 1) dormant_proxy, create_birth (CreationId 2) dormant_proxy] Continue))"
  by (simp add: supervisor_init_def roster_begin_def sample_initial_def sample_begun_def sample_supervisor_def sample_operation_def
      creation_issue_def checked_add_def operation_initial_def witness_reserve_def arc_new_def role_declared_def Let_def)

lemma sample_supervising: "supervising lowest sample_initial 2 sample_begun"
  by (rule supervising.begun, rule sample_init)

text \<open>
  C3: From its construction on a fixed supervisor holds exactly the roles it was declared with, each at
  its declared position and in one place, whatever inputs it receives and however its members start,
  stop, recover, retire or leave.
\<close>

theorem supervisor_keeps_members:
  assumes "builder_build call b = Inr initial" and "supervising lowest initial h s"
  shows "roster_holds (fixed_roster s) = mset (enumerate 0 (builder_roles b))"
  using builder_build_holds [OF assms(1)] supervising_holds [OF assms(2)] by simp

theorem supervisor_keeps_members_witness:
  "builder_build sample_call sample_builder = Inr sample_initial \<and> supervising 0 sample_initial 2 sample_begun \<and>
   roster_holds (fixed_roster sample_begun) = {#(0, 7), (1, 9)#}"
  using supervisor_keeps_members [OF sample_build sample_supervising [of 0]] sample_build sample_supervising [of 0]
  by (simp add: sample_builder_def)

end
