(* ===== verification/Roster_Rejection.thy ===== *)
theory Roster_Rejection
  imports Roster_Conservation
begin

text \<open>
  Inputs a fixed supervisor has no use for: the supervisor is as it was, up to the order of its
  owners, and the input comes back whole in one diagnostic.
\<close>

section \<open>Refusals\<close>

definition same_owners :: "('k, 'v, 'a, 'r) fixed_roster \<Rightarrow> ('k, 'v, 'a, 'r) fixed_roster \<Rightarrow> bool" where
  "same_owners roster roster' \<longleftrightarrow> roster' = roster \<or>
     (\<exists>owners owners'. roster = RosterOperating owners \<and> roster' = RosterOperating owners' \<and> mset owners' = mset owners)"

definition refuses_whole :: "heap \<Rightarrow> ('s, 'k, 'v, 'a, 'r, 'q) fixed_supervisor \<Rightarrow> ('k, 'v, 'a, 'r) fixed_roster
    \<Rightarrow> ('s, 'k, 'v, 'a, 'r, 'q) fixed_event \<Rightarrow> ('s, 'k, 'v, 'a, 'r, 'q) supervisor_acted \<Rightarrow> bool" where
  "refuses_whole h s roster event acted \<longleftrightarrow> (\<forall>h' s' input. acted = (h', s', Inl (InputRejected input)) \<longrightarrow>
     h' = h \<and> input = event \<and> same_owners roster (fixed_roster s') \<and> s' = s\<lparr>fixed_roster := fixed_roster s'\<rparr>)"

lemma same_owners_refl [simp]: "same_owners roster roster"
  by (simp add: same_owners_def)

lemma refuses_whole_Inr [simp]: "refuses_whole h s roster event (h', s', Inr actions)"
  by (simp add: refuses_whole_def)

lemma refuses_whole_input [simp]:
  "refuses_whole h s roster event (input_rejected h' (s\<lparr>fixed_recovery := recovery\<rparr>) roster' input) \<longleftrightarrow>
   h' = h \<and> input = event \<and> same_owners roster roster' \<and> recovery = fixed_recovery s"
  "refuses_whole h s roster event (input_rejected h' s roster' input) \<longleftrightarrow> h' = h \<and> input = event \<and> same_owners roster roster'"
  by (cases s; auto simp: refuses_whole_def input_rejected_def)+


lemma refuses_whole_authorize [simp]: "refuses_whole h s roster event (authorize_with h' s' roster' requests)"
  by (cases roster') (auto simp: refuses_whole_def authorize_with_def roster_authorize_def Let_def split: prod.splits sum.splits if_splits)

lemma refuses_whole_waiting [simp]:
  "refuses_whole h s roster event (authorize_waiting h' s' roster')"
  "refuses_whole h s roster event (member_retired h' s' roster' role)"
  "refuses_whole h s roster event (retired_or_waiting h' s' roster' gone)"
  "refuses_whole h s roster event (admit_recovery h' s' roster' recovery schedule)"
  "refuses_whole h s roster event (retain_shutdown h' s' shutdown operations requests)"
  by (simp_all add: authorize_waiting_def member_retired_def retired_or_waiting_def admit_recovery_def retain_shutdown_def split: option.splits)

lemma refuses_whole_failures [simp]:
  "refuses_whole h s roster event (apply_recovery_failure h' s' failed diagnostic)"
  "refuses_whole h s roster event (apply_failed_preparation h' s' awaiting failed')"
  "refuses_whole h s roster event (apply_replacement_failure h' s' owners previous stopped ticket diagnostic)"
  by (auto simp: apply_recovery_failure_def apply_failed_preparation_def apply_replacement_failure_def Let_def
      split: diagnostic_disposition.splits failure_reaction.splits prod.splits)

lemma refuses_whole_initial_failure [simp]: "refuses_whole h s roster event (accept_initial_failure h' s' owners child role outcome)"
  by (auto simp: accept_initial_failure_def Let_def refuses_whole_def retain_shutdown_def
      split: diagnostic_disposition.splits failure_reaction.splits prod.splits sum.splits)

lemma refuses_whole_completion [simp]: "refuses_whole h s roster event (accept_replacement_completion h' s' owners completed)"
  by (cases completed) simp_all

section \<open>Handlers\<close>




















section \<open>The transition\<close>




end
