(* ===== verification/Roster_Queries.thy ===== *)
theory Roster_Queries
  imports Roster_Conservation
begin

text \<open>
  The queries of a fixed supervisor: its status lists one entry per declared role in the order of
  their declaration, and the capability of a role agrees with its entry.
\<close>

section \<open>Entries\<close>

fun owner_entries :: "('k, 'v, 'a, 'r) roster_owner \<Rightarrow> ((nat \<times> 'k) \<times> 'r member_status) list" where
  "owner_entries (OwnerStarting m) = [(role_key (starting_role m), phase_status (snd (starting_role_phase m)))]"
| "owner_entries (OwnerStopping m) = [(role_key (exiting_role m), MemberStopping)]"
| "owner_entries (OwnerOnline m) = [(role_key (online_role m), MemberReady (recipient (online_proxy m)))]"
| "owner_entries (OwnerEmpty m) = [(role_key (empty_role m), MemberEmpty)]"
| "owner_entries (OwnerRecovery recovery) = map (\<lambda>role. (role_key role, MemberRecovering)) (recovery_participants recovery)"
| "owner_entries (OwnerUnrecovered m) = [(role_key (exiting_role (unrecovered_proxy m)), MemberStopping)]"
| "owner_entries (OwnerRetired m) = [(role_key (retired_role m), MemberRetired)]"

definition leaving_entry :: "('k, 'v, 'a, 'r) fixed_shutdown_member \<Rightarrow> (nat \<times> 'k) \<times> 'r member_status" where
  "leaving_entry m = (role_key (leaving_role m), phase_status (leaving_phase m))"

fun roster_entries :: "('k, 'v, 'a, 'r) fixed_roster \<Rightarrow> ((nat \<times> 'k) \<times> 'r member_status) list" where
  "roster_entries (RosterOperating owners) = concat (map owner_entries owners)"
| "roster_entries (RosterShuttingDown shutdown) = map leaving_entry (fixed_members shutdown)"
| "roster_entries roster = []"

fun entry_status :: "(nat \<times> 'k) \<times> 'r member_status \<Rightarrow> nat \<times> 'r member_status" where
  "entry_status ((at, role), status) = (at, status)"

fun answered_status :: "('k, 'r) capability_result \<Rightarrow> 'r member_status option" where
  "answered_status (CapabilityReady role proxy) = Some (MemberReady proxy)"
| "answered_status (CapabilityUnavailable role phase) = Some (phase_status phase)"
| "answered_status (CapabilityUnknownRole role) = None"

fun current_status :: "unavailable_phase + 'r \<Rightarrow> 'r member_status" where
  "current_status (Inr proxy) = MemberReady proxy"
| "current_status (Inl phase) = phase_status phase"

lemma owner_entries_keys: "mset (map fst (owner_entries own)) = owner_holds own"
  by (cases own) (auto simp: owner_holds_def comp_def)

lemma owner_entries_status: "map entry_status (owner_entries own) = owner_status own"
  by (cases own) (auto simp: role_key_def recovery_status_def starting_role_def split: prod.splits)

lemma owners_entries_keys: "mset (map fst (concat (map owner_entries owners))) = owners_hold owners"
  by (induction owners) (simp_all add: owner_entries_keys [unfolded mset_map])

lemma leaving_statuses: "concat (map leaving_status members) = map entry_status (map leaving_entry members)"
  by (induction members) (simp_all add: leaving_status_def leaving_position_def leaving_entry_def role_key_def)

lemma leavings_entries_keys: "mset (map fst (map leaving_entry members)) = leavings_hold members"
  by (induction members) (simp_all add: leaving_entry_def leaving_holds_def)

lemma roster_entries_keys:
  "roster_snapshot roster = Some statuses \<Longrightarrow> mset (map fst (roster_entries roster)) = roster_holds roster"
  by (cases roster) (simp_all only: owners_entries_keys leavings_entries_keys roster_entries.simps roster_holds.simps
      roster_snapshot.simps option.simps)

lemma roster_snapshot_entries:
  "roster_snapshot roster = Some statuses \<Longrightarrow> statuses = map snd (sort_key fst (map entry_status (roster_entries roster)))"
  by (cases roster) (auto simp: owner_entries_status map_concat comp_def leaving_statuses)

section \<open>Capabilities\<close>

lemma owner_capability_Some:
  "owner_capability own role = Some current \<Longrightarrow> \<exists>at. ((at, role), current_status current) \<in> set (owner_entries own)"
  by (cases own) (force simp: capability_of_def role_key_def find_role_def starting_role_def find_Some_iff
      split: if_splits prod.splits option.splits)+

lemma owner_capability_None: "owner_capability own role = None \<Longrightarrow> ((at, role), status) \<notin> set (owner_entries own)"
  by (cases own) (force simp: capability_of_def role_key_def find_role_def starting_role_def find_None_iff
      split: if_splits prod.splits option.splits)+

lemma find_map_Some: "find_map g xs = Some y \<Longrightarrow> \<exists>x \<in> set xs. g x = Some y"
  by (induction xs) (auto split: option.splits)

lemma find_map_None: "find_map g xs = None \<longleftrightarrow> (\<forall>x \<in> set xs. g x = None)"
  by (induction xs) (auto split: option.splits)

lemma leaving_capability:
  "leaving_capability_phase m role = Some phase \<longleftrightarrow> phase = leaving_phase m \<and> role = role_name (leaving_role m)"
  "leaving_capability_phase m role = None \<longleftrightarrow> role \<noteq> role_name (leaving_role m)"
  by (auto simp: leaving_capability_phase_def)

definition answers_entry :: "'k \<Rightarrow> 'r member_status option \<Rightarrow> ((nat \<times> 'k) \<times> 'r member_status) list \<Rightarrow> bool" where
  "answers_entry role answer entries \<longleftrightarrow> (case answer of
      Some status \<Rightarrow> \<exists>at. ((at, role), status) \<in> set entries
    | None \<Rightarrow> \<forall>at status. ((at, role), status) \<notin> set entries)"

lemma answered_capability [simp]: "answered_status (capability_answer role current) = map_option current_status current"
  by (auto simp: capability_answer_def split: option.splits sum.splits)

lemma roster_capability_entry:
  assumes "roster_capability roster role = Inr answer"
  shows "answers_entry role (answered_status answer) (roster_entries roster)"
proof (cases roster)
  case (RosterOperating owners)
  show ?thesis
  proof (cases "find_map (\<lambda>own. owner_capability own role) owners")
    case None
    then have "owner_capability own role = None" if "own \<in> set owners" for own
      using that by (simp add: find_map_None)
    then have "((at, role), status) \<notin> set (owner_entries own)" if "own \<in> set owners" for own at status
      using that by (simp add: owner_capability_None)
    then show ?thesis
      using assms by (auto simp: RosterOperating answers_entry_def None)
  next
    case (Some current)
    then obtain own at where "own \<in> set owners" "((at, role), current_status current) \<in> set (owner_entries own)"
      by (auto dest!: find_map_Some dest: owner_capability_Some)
    then show ?thesis
      using assms by (auto simp: RosterOperating answers_entry_def Some intro!: exI [of _ at] bexI [of _ own])
  qed
next
  case (RosterShuttingDown shutdown)
  show ?thesis
  proof (cases "find_map (\<lambda>m. leaving_capability_phase m role) (fixed_members shutdown)")
    case None
    then have "\<forall>m \<in> set (fixed_members shutdown). role \<noteq> role_name (leaving_role m)"
      by (simp add: find_map_None leaving_capability)
    then show ?thesis
      using assms by (auto simp: RosterShuttingDown answers_entry_def None leaving_entry_def role_key_def)
  next
    case (Some phase)
    then obtain m where m: "m \<in> set (fixed_members shutdown)" "phase = leaving_phase m" "role = role_name (leaving_role m)"
      by (auto simp: leaving_capability dest: find_map_Some)
    then have "((leaving_position m, role), phase_status phase) = leaving_entry m"
      by (simp add: leaving_entry_def leaving_position_def role_key_def)
    then have "((leaving_position m, role), phase_status phase) \<in> set (map leaving_entry (fixed_members shutdown))"
      using m(1) by simp
    then show ?thesis
      using assms by (auto simp: RosterShuttingDown answers_entry_def Some simp del: set_map)
  qed
qed (use assms in simp_all)

section \<open>Agreement\<close>

lemma sort_key_positions:
  assumes "mset (map fst xs) = mset [0..<n]"
  shows "map fst (sort_key fst xs) = [0..<n]"
proof -
  have "mset (map fst (sort_key fst xs)) = mset [0..<n]"
    using assms by simp
  then show ?thesis
    by (metis properties_for_sort sorted_sort_key sorted_upt)
qed

lemma enumerate_mem: "(at, role) \<in> set (enumerate 0 roles) \<longleftrightarrow> at < length roles \<and> role = roles ! at"
  by (auto simp: in_set_enumerate_eq)

lemma entries_in_order:
  assumes keys: "mset (map fst entries) = mset (enumerate 0 roles)"
    and statuses: "statuses = map snd (sort_key fst (map entry_status entries))"
  shows "length statuses = length roles" and "i < length roles \<Longrightarrow> ((i, roles ! i), statuses ! i) \<in> set entries"
proof -
  let ?sorted = "sort_key fst (map entry_status entries)"
  have "map fst (map entry_status entries) = map fst (map fst entries)"
    by (induction entries) auto
  then have "mset (map fst (map entry_status entries)) = mset (map fst (enumerate 0 roles))"
    by (metis keys mset_map)
  then have order: "map fst ?sorted = [0..<length roles]"
    by (intro sort_key_positions) simp
  then show length: "length statuses = length roles"
    unfolding statuses by (metis length_map length_upt minus_nat.diff_0)
  assume i: "i < length roles"
  then have "?sorted ! i = (i, statuses ! i)"
    using order length unfolding statuses by (metis add_0 diff_zero length_map length_upt nth_map nth_upt prod.collapse)
  then have "(i, statuses ! i) \<in> set (map entry_status entries)"
    using i order by (metis length_map length_upt minus_nat.diff_0 nth_mem set_sort)
  then obtain role where entry: "((i, role), statuses ! i) \<in> set entries"
    by (auto elim!: entry_status.elims)
  then have "(i, role) \<in> set (enumerate 0 roles)"
    using keys by (metis fst_conv image_eqI set_map set_mset_mset)
  then show "((i, roles ! i), statuses ! i) \<in> set entries"
    using entry by (simp add: enumerate_mem)
qed

lemma entry_unique:
  assumes keys: "mset (map fst entries) = mset (enumerate 0 roles)" and "distinct roles"
    and "((i, role), status) \<in> set entries" and "((j, role), status') \<in> set entries"
  shows "status' = status"
proof -
  have "(i, role) \<in> set (enumerate 0 roles)" "(j, role) \<in> set (enumerate 0 roles)"
    using assms(3,4) keys by (metis fst_conv image_eqI set_map set_mset_mset)+
  then have "j = i"
    using assms(2) by (auto simp: enumerate_mem nth_eq_iff_index_eq)
  moreover have "distinct (map fst entries)"
    using keys distinct_enumerate [of 0 roles] by (metis mset_eq_imp_distinct_iff)
  ultimately show ?thesis
    using assms(3,4) by (metis eq_key_imp_eq_value)
qed

lemma roster_of_build:
  assumes "builder_build call b = Inr initial" and "supervising lowest initial h s"
  shows "roster_holds (fixed_roster s) = mset (enumerate 0 (builder_roles b))"
  using builder_build_holds [OF assms(1)] supervising_holds [OF assms(2)] by simp

lemma status_query:
  "roster_snapshot (fixed_roster s) = Some statuses \<Longrightarrow>
   supervisor_transition lowest h s (FixedCommanded \<lparr>user_from = sender, user_message = FixedStatus reply_to\<rparr>) =
     Some (h, s, Inr (send_requests (no_requests\<lparr>status_replies := deliver reply_to statuses\<rparr>)))"
  by (simp add: supervisor_transition_def supervisor_accept_def accept_command_def Let_def)

lemma capability_query:
  "roster_capability (fixed_roster s) role = Inr answer \<Longrightarrow>
   supervisor_transition lowest h s (FixedCommanded \<lparr>user_from = sender, user_message = FixedCapability role reply_to\<rparr>) =
     Some (h, s, Inr (send_requests (no_requests\<lparr>capability_replies := deliver reply_to answer\<rparr>)))"
  by (simp add: supervisor_transition_def supervisor_accept_def accept_command_def Let_def)

lemma roster_capability_answers: "roster_snapshot roster = Some statuses \<Longrightarrow> \<exists>answer. roster_capability roster role = Inr answer"
  by (cases roster) simp_all

text \<open>
  C16: A fixed supervisor that answers queries answers its status with one entry per declared role, in the
  order of their declaration, and the capability it answers for a declared role agrees with the entry
  of that role; neither query changes the supervisor.
\<close>

theorem queries_agree:
  assumes built: "builder_build call b = Inr initial" and distinct: "ordered_roles first remaining = Inr (builder_roles b)"
    and reached: "supervising lowest initial h s" and snapshot: "roster_snapshot (fixed_roster s) = Some statuses"
  shows "supervisor_transition lowest h s (FixedCommanded \<lparr>user_from = sender, user_message = FixedStatus reply_to\<rparr>) =
      Some (h, s, Inr (send_requests (no_requests\<lparr>status_replies := deliver reply_to statuses\<rparr>))) \<and>
    length statuses = length (builder_roles b) \<and>
    (\<forall>i < length (builder_roles b). \<exists>answer.
      supervisor_transition lowest h s (FixedCommanded \<lparr>user_from = sender, user_message = FixedCapability (builder_roles b ! i) reply_to\<rparr>) =
        Some (h, s, Inr (send_requests (no_requests\<lparr>capability_replies := deliver reply_to answer\<rparr>))) \<and>
      answered_status answer = Some (statuses ! i))"
proof -
  let ?roles = "builder_roles b" and ?entries = "roster_entries (fixed_roster s)"
  have keys: "mset (map fst ?entries) = mset (enumerate 0 ?roles)"
    using roster_entries_keys [OF snapshot] roster_of_build [OF built reached] by simp
  have unique: "distinct ?roles"
    using ordered_roles_Inr [OF distinct] by simp
  note order = entries_in_order [OF keys roster_snapshot_entries [OF snapshot]]
  have "\<exists>answer. roster_capability (fixed_roster s) (?roles ! i) = Inr answer \<and> answered_status answer = Some (statuses ! i)"
    if i: "i < length ?roles" for i
  proof -
    obtain answer where answer: "roster_capability (fixed_roster s) (?roles ! i) = Inr answer"
      using roster_capability_answers [OF snapshot] by blast
    have "answered_status answer = Some (statuses ! i)"
    proof (cases "answered_status answer")
      case None
      with roster_capability_entry [OF answer] order(2) [OF i] show ?thesis
        by (simp add: answers_entry_def)
    next
      case (Some status)
      with roster_capability_entry [OF answer] obtain at where "((at, ?roles ! i), status) \<in> set ?entries"
        by (auto simp: answers_entry_def)
      from entry_unique [OF keys unique order(2) [OF i] this] Some show ?thesis
        by simp
    qed
    with answer show ?thesis
      by (rule_tac exI) (rule conjI)
  qed
  note answers = this
  show ?thesis
    by (intro conjI allI impI status_query [OF snapshot] order(1), drule answers, elim exE conjE, rule exI, rule conjI,
        erule capability_query, assumption)
qed

theorem queries_agree_witness:
  "ordered_roles 7 [9] = Inr (builder_roles sample_builder) \<and> roster_snapshot (fixed_roster sample_begun) = Some [MemberCreatingProxy, MemberCreatingProxy] \<and>
   (\<exists>answer. supervisor_transition 0 2 sample_begun (FixedCommanded \<lparr>user_from = 0, user_message = FixedCapability 9 4\<rparr>) =
      Some (2, sample_begun, Inr (send_requests (no_requests\<lparr>capability_replies := deliver 4 answer\<rparr>))) \<and>
    answered_status answer = Some MemberCreatingProxy)"
proof -
  have roles: "ordered_roles 7 [9] = Inr (builder_roles sample_builder)"
    by (simp add: ordered_roles_def sample_builder_def)
  have snapshot: "roster_snapshot (fixed_roster sample_begun) = Some [MemberCreatingProxy, MemberCreatingProxy]"
    by (simp add: sample_begun_def sample_supervisor_def)
  have "\<exists>answer. supervisor_transition 0 2 sample_begun (FixedCommanded \<lparr>user_from = 0, user_message = FixedCapability (builder_roles sample_builder ! 1) 4\<rparr>) =
      Some (2, sample_begun, Inr (send_requests (no_requests\<lparr>capability_replies := deliver 4 answer\<rparr>))) \<and>
    answered_status answer = Some ([MemberCreatingProxy, MemberCreatingProxy] ! 1)"
    using queries_agree [OF sample_build roles sample_supervising [of 0] snapshot, of 0 4]
    by (elim conjE allE [of _ 1] impE) (simp_all add: sample_builder_def)
  with roles snapshot show ?thesis
    by (simp add: sample_builder_def)
qed

end
