(* ===== verification/Roster_Startup.thy ===== *)
theory Roster_Startup
  imports Roster_Conservation
begin

text \<open>
  The operations a fixed supervisor sends to its proxies: a start or a replacement is sent only by
  an authorization, which keeps the startup limit, and a supervisor that shuts down sends shutdowns
  and nothing else, and stays in its shutdown.
\<close>

section \<open>Authorization keeps the limit\<close>

definition starts_worker :: "'v operation \<Rightarrow> bool" where
  "starts_worker operation \<longleftrightarrow> operation_control operation \<noteq> ProxyShutdownCommand"

fun issued_count :: "('k, 'v, 'a, 'r) input_authorization \<Rightarrow> usize" where
  "issued_count (AuthorizationIssued own operation) = 1"
| "issued_count other = 0"

fun authorized_owner :: "('k, 'v, 'a, 'r) input_authorization \<Rightarrow> ('k, 'v, 'a, 'r) roster_owner" where
  "authorized_owner (AuthorizationIssued own operation) = own"
| "authorized_owner (AuthorizationContinue own) = own"
| "authorized_owner (AuthorizationWait own) = own"

lemma occupied_simps [simp]:
  "occupied [] = 0" "occupied (own # owners) = authorization_count own + occupied owners"
  "occupied (owners @ owners') = occupied owners + occupied owners'"
  by (simp_all add: occupied_def)

lemma starting_authorize_count:
  "authorization_count (authorized_owner (starting_authorize m)) = starting_authorization_count m + issued_count (starting_authorize m)"
  by (cases m) simp_all

lemma recovering_authorize_count:
  "recovering_authorize h m = (h', m', operation) \<Longrightarrow>
   recovering_authorization_count m' = recovering_authorization_count m + (if operation = None then 0 else 1)"
  by (cases "(h, m)" rule: recovering_authorize.cases) (auto split: prod.splits)

lemma authorize_sequence_count:
  "authorize_sequence_from h examined members = (h', members', operation) \<Longrightarrow>
   sum_list (map recovering_authorization_count members') =
   sum_list (map recovering_authorization_count (examined @ members)) + (if operation = None then 0 else 1)"
proof (induction members arbitrary: h examined)
  case (Cons m members)
  show ?case
    using Cons.prems by (auto split: prod.splits option.splits dest!: recovering_authorize_count Cons.IH)
qed simp

lemma batch_authorize_count:
  "batch_authorize h batch = (h', batch', operation) \<Longrightarrow>
   batch_authorization_count batch' = batch_authorization_count batch + (if operation = None then 0 else 1)"
  by (auto simp: batch_authorize_def batch_authorization_count_def authorize_recovery_sequence_def
      split: restart_release_state.splits prod.splits dest!: authorize_sequence_count)

lemma owner_authorize_count:
  "owner_authorize h own = (h', authorization) \<Longrightarrow>
   authorization_count (authorized_owner authorization) = authorization_count own + issued_count authorization"
proof (cases own)
  case (OwnerRecovery recovery)
  assume "owner_authorize h own = (h', authorization)"
  then show ?thesis
    by (cases recovery) (auto simp: OwnerRecovery split: prod.splits option.splits dest!: batch_authorize_count)
qed (auto simp: starting_authorize_count)

lemma authorize_owners_count:
  "authorize_owners h available owners next operations = (h', owners', operations') \<Longrightarrow>
   occupied owners' + length operations = occupied next + occupied owners + length operations' \<and>
   length operations' \<le> length operations + available"
proof (induction h available owners "next" operations rule: authorize_owners.induct)
  case (2 h available own remaining "next" operations)
  obtain h' authorization where asked: "owner_authorize h own = (h', authorization)"
    by (cases "owner_authorize h own")
  from owner_authorize_count [OF this] show ?case
    using "2.prems" "2.IH" [OF _ asked [symmetric]] asked by (cases authorization) (fastforce split: if_splits)+
qed simp

lemma occupied_sort [simp]: "occupied (sort_key k owners) = occupied owners"
  unfolding occupied_def by (metis mset_map mset_sort sum_mset_sum_list)

lemma roster_authorize_limit:
  "roster_authorize h limit (RosterOperating owners) = (h', Inr (roster', operations)) \<Longrightarrow>
   \<exists>owners'. roster' = RosterOperating owners' \<and> occupied owners' = occupied owners + length operations \<and> occupied owners' \<le> limit"
  by (auto simp: roster_authorize_def Let_def split: if_splits prod.splits dest!: authorize_owners_count)

section \<open>Shutdowns start nothing\<close>

lemma exiting_begin_stops: "exiting_begin h role creation proxy = (h', m, operation) \<Longrightarrow> \<not> starts_worker operation"
  by (auto simp: exiting_begin_def operation_shutdown_def starts_worker_def split: prod.splits)

lemma participant_begin_shutdown_stops: "participant_begin_shutdown h p prepared = (h', m, operation) \<Longrightarrow> \<not> starts_worker operation"
  by (auto simp: participant_begin_shutdown_def split: prod.splits dest!: exiting_begin_stops)

lemma recovering_begin_shutdown_stops: "recovering_begin_shutdown h p = (h', m, operation) \<Longrightarrow> \<not> starts_worker operation"
  by (cases p) (auto split: prod.splits dest!: exiting_begin_stops participant_begin_shutdown_stops)

lemma recovering_begin_shutdowns_stop: "recovering_begin_shutdowns h ps = (h', members, operations) \<Longrightarrow> \<forall>operation \<in> set operations. \<not> starts_worker operation"
proof (induction ps arbitrary: h members operations)
  case (Cons p ps)
  show ?case
    using Cons.prems by (auto split: prod.splits dest!: recovering_begin_shutdown_stops Cons.IH)
qed simp

definition all_stop :: "(roster_position \<times> 'v operation) list \<Rightarrow> bool" where
  "all_stop operations \<longleftrightarrow> (\<forall>(at, operation) \<in> set operations. \<not> starts_worker operation)"

lemma all_stop_simps [simp]:
  "all_stop []" "all_stop (operations @ operations') \<longleftrightarrow> all_stop operations \<and> all_stop operations'"
  "all_stop ((at, operation) # operations) \<longleftrightarrow> \<not> starts_worker operation \<and> all_stop operations"
  "all_stop (sort_key k operations) \<longleftrightarrow> all_stop operations"
  by (auto simp: all_stop_def)

lemma begin_exit_stops: "begin_exit h role creation proxy ownership preparation = (h', m, operations) \<Longrightarrow> all_stop operations"
  by (auto simp: begin_exit_def split: prod.splits dest!: exiting_begin_stops)

lemma zip_all_stop: "\<forall>operation \<in> set operations. \<not> starts_worker operation \<Longrightarrow> all_stop (zip positions operations)"
  by (auto simp: all_stop_def dest: set_zip_rightD)

lemma owner_begin_shutdown_stops: "owner_begin_shutdown h own preparation = (h', members, operations, cancelled) \<Longrightarrow> all_stop operations"
  by (cases "(h, own, preparation)" rule: owner_begin_shutdown.cases)
     (auto simp: batch_begin_shutdown_def zip_all_stop split: prod.splits dest!: begin_exit_stops recovering_begin_shutdowns_stop)

lemma shutdown_owners_stop:
  "shutdown_owners h owners members operations cancelled = (h', members', operations', cancelled') \<Longrightarrow>
   all_stop operations \<Longrightarrow> all_stop operations'"
proof (induction h owners members operations cancelled rule: shutdown_owners.induct)
  case (2 h own preparation remaining members operations cancelled)
  obtain h1 ms os cs where begun: "owner_begin_shutdown h own preparation = (h1, ms, os, cs)"
    by (cases "owner_begin_shutdown h own preparation") auto
  then show ?case
    using "2.prems" "2.IH" owner_begin_shutdown_stops [OF begun]
    by (cases own) (auto simp del: owner_begin_shutdown.simps split: recovery_roster_owner.splits)
qed simp

lemma fixed_shutdown_begin_stops: "fixed_shutdown_begin h owners drain = (h', shutdown, operations, schedule) \<Longrightarrow> all_stop operations"
  by (auto simp: fixed_shutdown_begin_def split: prod.splits dest!: shutdown_owners_stop)

lemma peers_begin_shutdown_stop: "peers_begin_shutdown h ps = (h', members, operations) \<Longrightarrow> all_stop operations"
proof (induction ps arbitrary: h members operations)
  case (Cons p ps)
  show ?case
    using Cons.prems by (auto split: prod.splits dest!: participant_begin_shutdown_stops Cons.IH)
qed simp

lemma retire_prepared_worker_stops: "retire_prepared_worker h m prepared = (h', proxy, ownership, operation) \<Longrightarrow> \<not> starts_worker operation"
  by (auto simp: retire_prepared_worker_def split: prod.splits dest!: exiting_begin_stops)

lemma all_stop_operations: "all_stop operations \<Longrightarrow> \<forall>operation \<in> snd ` set operations. \<not> starts_worker operation"
  by (auto simp: all_stop_def)

lemma failure_stop_supervisor_stops:
  "failure_stop_supervisor h failed drain = (h', shutdown, operations, schedule) \<Longrightarrow> \<forall>operation \<in> set operations. \<not> starts_worker operation"
  by (auto simp: failure_stop_supervisor_def begin_with_unissued_def Let_def all_stop_def split: prod.splits
      dest!: fixed_shutdown_begin_stops peers_begin_shutdown_stop retire_prepared_worker_stops)

lemma failed_stop_supervisor_stops:
  "failed_stop_supervisor h failed drain = (h', shutdown, source, diagnostic, operations, schedule) \<Longrightarrow>
   \<forall>operation \<in> set operations. \<not> starts_worker operation"
  by (auto simp: failed_stop_supervisor_def all_stop_def split: prod.splits dest!: fixed_shutdown_begin_stops)

lemma failure_retire_member_stops: "failure_retire_member h failed = (h', roster, operation) \<Longrightarrow> \<not> starts_worker operation"
  by (auto simp: failure_retire_member_def Let_def split: prod.splits dest!: retire_prepared_worker_stops)

lemma failed_retire_member_stops:
  "failed_retire_member h failed = (h', roster, source, diagnostic, operation) \<Longrightarrow> \<not> starts_worker operation"
  by (auto simp: failed_retire_member_def unrecovered_begin_def split: prod.splits dest!: exiting_begin_stops)

lemma replacement_unrecovered_stops:
  "replacement_unrecovered h route previous stopped ticket = (h', m, operation, lifecycle) \<Longrightarrow> \<not> starts_worker operation"
  by (auto simp: replacement_unrecovered_def begin_after_worker_stop_transfer_def begin_replacement_failure_def
      split: option.splits prod.splits dest!: exiting_begin_stops)

lemma roster_begin_stop_stops: "roster_begin_stop h roster child = (h', Inr (roster', operation)) \<Longrightarrow> \<not> starts_worker operation"
  by (cases roster) (auto simp: roster_begin_stop_def split: option.splits prod.splits sum.splits
      elim!: owner_begin_stop.elims dest!: exiting_begin_stops)




section \<open>Handlers\<close>

definition keeps_limit :: "('s, 'k, 'v, 'a, 'r, 'q) fixed_supervisor \<Rightarrow> ('s, 'k, 'v, 'a, 'r, 'q) supervisor_acted \<Rightarrow> bool" where
  "keeps_limit s acted \<longleftrightarrow> (case acted of
      (h', s', Inr actions) \<Rightarrow> (\<forall>operation \<in> set (proxy_operations (sends actions)). \<not> starts_worker operation)
        \<or> (\<exists>owners. fixed_roster s' = RosterOperating owners \<and> occupied owners \<le> maximum s)
    | (h', s', Inl rejection) \<Rightarrow> True)"

lemma keeps_limit_Inr [simp]:
  "keeps_limit s (h', s', Inr actions) \<longleftrightarrow> (\<forall>operation \<in> set (proxy_operations (sends actions)). \<not> starts_worker operation)
     \<or> (\<exists>owners. fixed_roster s' = RosterOperating owners \<and> occupied owners \<le> maximum s)"
  "keeps_limit s (h', s', Inl rejection)"
  by (simp_all add: keeps_limit_def)

lemma maximum_updates [simp]:
  "maximum (s\<lparr>fixed_roster := roster\<rparr>) = maximum s" "maximum (s\<lparr>fixed_recovery := recovery\<rparr>) = maximum s"
  by (simp_all add: maximum_def)

lemma keeps_limit_updates [simp]:
  "keeps_limit (s\<lparr>fixed_roster := roster\<rparr>) acted \<longleftrightarrow> keeps_limit s acted"
  "keeps_limit (s\<lparr>fixed_recovery := recovery\<rparr>) acted \<longleftrightarrow> keeps_limit s acted"
  by (auto simp: keeps_limit_def split: prod.splits sum.splits)

lemma sends_simps [simp]:
  "sends (send_requests requests) = requests" "sends (stop_requests requests) = requests" "sends (new_actions requests children verdict) = requests"
  by (simp_all add: send_requests_def stop_requests_def new_actions_def)

lemma no_operations [simp]: "proxy_operations no_requests = []"
  by (simp add: no_requests_def)

lemma authorize_with_limit [simp]: "keeps_limit s (authorize_with h s roster requests)"
proof (cases roster)
  case (RosterOperating owners)
  then show ?thesis
    by (auto simp: authorize_with_def split: prod.splits sum.splits dest!: roster_authorize_limit)
qed (auto simp: authorize_with_def roster_authorize_def)

lemma waiting_limit [simp]:
  "keeps_limit s (authorize_waiting h s roster)"
  "keeps_limit s (member_retired h s roster role)"
  "keeps_limit s (retired_or_waiting h s roster gone)"
  by (simp_all add: authorize_waiting_def member_retired_def retired_or_waiting_def split: option.splits)

lemma admit_recovery_limit [simp]: "keeps_limit s (admit_recovery h s roster recovery schedule)"
  unfolding admit_recovery_def by (subst keeps_limit_updates(2) [symmetric]) (rule authorize_with_limit)

lemma input_rejected_limit [simp]: "keeps_limit s (input_rejected h s' roster input)"
  by (simp add: input_rejected_def)

lemma retain_shutdown_limit [simp]:
  "\<forall>operation \<in> set operations. \<not> starts_worker operation \<Longrightarrow> keeps_limit s (retain_shutdown h s' shutdown operations requests)"
  by (simp add: retain_shutdown_def)

lemma apply_recovery_failure_limit [simp]: "keeps_limit s (apply_recovery_failure h s' failed diagnostic)"
  by (auto simp: apply_recovery_failure_def Let_def split: diagnostic_disposition.splits failure_reaction.splits prod.splits
      dest!: failure_retire_member_stops failure_stop_supervisor_stops)

lemma apply_failed_preparation_limit [simp]: "keeps_limit s (apply_failed_preparation h s' awaiting failed)"
  by (auto simp: apply_failed_preparation_def Let_def split: diagnostic_disposition.splits failure_reaction.splits prod.splits
      dest!: failed_retire_member_stops failed_stop_supervisor_stops)

lemma apply_replacement_failure_limit [simp]: "keeps_limit s (apply_replacement_failure h s' owners previous stopped ticket diagnostic)"
  by (auto simp: apply_replacement_failure_def Let_def all_stop_def split: diagnostic_disposition.splits failure_reaction.splits prod.splits
      dest!: replacement_unrecovered_stops fixed_shutdown_begin_stops)

lemma accept_initial_failure_limit [simp]: "keeps_limit s (accept_initial_failure h s' owners child role outcome)"
  by (auto simp: accept_initial_failure_def Let_def all_stop_def split: diagnostic_disposition.splits failure_reaction.splits prod.splits sum.splits
      dest!: roster_begin_stop_stops fixed_shutdown_begin_stops intro!: retain_shutdown_limit)

lemma accept_replacement_completion_limit [simp]: "keeps_limit s (accept_replacement_completion h s owners completed)"
  by (cases completed) simp_all





lemma accept_worker_stop_limit [simp]: "keeps_limit s (accept_worker_stop h s stop)"
  by (auto simp: accept_worker_stop_def Let_def split: recovery_choice.splits option.splits prod.splits sum.splits)

lemma accept_initial_report_limit [simp]: "keeps_limit s (accept_initial_report h s roster report)"
  by (auto simp: accept_initial_report_def split: initial_proxy_decision.splits)

lemma accept_unavailable_limit [simp]: "keeps_limit s (accept_unavailable h s roster child sender phase command)"
  by (auto simp: accept_unavailable_def split: option.splits)














end
