(* ===== verification/Roster_Leaving.thy ===== *)
theory Roster_Leaving
  imports Roster_Startup Roster_Rejection
begin

text \<open>
  The end of a fixed supervisor: a shutdown waits for finitely many inputs. Each input it takes uses
  up one of them, every other input leaves it as it is, and with none left it stops.
\<close>

section \<open>What a shutdown waits for\<close>

fun exit_waits :: "(('k, 'v, 'a, 'r) retired_proxy_member, ('k, 'v, 'a, 'r) proxy_stopping_member) control_flow \<Rightarrow> nat" where
  "exit_waits (FlowBreak gone) = 0"
| "exit_waits (FlowContinue m) = 1 + (case exiting_shutdown m of StopDispatched witness \<Rightarrow> 1 | _ \<Rightarrow> 0)
     + (if exiting_stopped m = None then 1 else 0)"

fun response_waits :: "('v, 'a, 'r) replacement_response \<Rightarrow> nat" where
  "response_waits (ResponseInputPending witness) = 2"
| "response_waits (ResponseOutcomePending operation) = 1"
| "response_waits response = 0"

fun ownership_waits :: "('v, 'a, 'r) proxy_ownership \<Rightarrow> nat" where
  "ownership_waits (OwnedInputDispatched witness prepared) = 2"
| "ownership_waits (OwnedOutcomeWaiting operation prepared) = 1"
| "ownership_waits (OwnedReplacement r) = response_waits (replacing_response r) + (if replacing_stopped r = None then 1 else 0)"
| "ownership_waits ownership = 0"

fun preparation_waits :: "preparation_expectation option \<Rightarrow> nat" where
  "preparation_waits None = 0"
| "preparation_waits (Some (ExpectationIssued ticket)) = 2"
| "preparation_waits (Some (ExpectationStarted ticket)) = 1"

fun leaving_waits :: "('k, 'v, 'a, 'r) fixed_shutdown_member \<Rightarrow> nat" where
  "leaving_waits (ShutdownAwaitingBirth role witness operation) = 4"
| "leaving_waits (ShutdownProxy flow ownership preparation) = exit_waits flow + ownership_waits ownership + preparation_waits preparation"
| "leaving_waits (ShutdownAbsentProxy role witness operation settlement) = 0"

fun cancelled_waits :: "cancelled_recovery \<Rightarrow> nat" where
  "cancelled_waits (CancelledAwaiting timer) = 1"
| "cancelled_waits (CancelledReturned result) = 0"

fun deadline_waits :: "shutdown_deadline \<Rightarrow> nat" where
  "deadline_waits (DeadlineScheduling key) = 2"
| "deadline_waits (DeadlineWaiting key) = 1"
| "deadline_waits deadline = 0"

definition shutdown_waits :: "('k, 'v, 'a, 'r) fixed_shutdown \<Rightarrow> nat" where
  "shutdown_waits shutdown = sum_list (map leaving_waits (fixed_members shutdown))
     + sum_list (map cancelled_waits (fixed_cancelled shutdown)) + deadline_waits (fixed_deadline shutdown)"

section \<open>Inputs use waits up\<close>


lemma exit_waits_finish: "exit_waits (exiting_finish m) \<le> exit_waits (FlowContinue m)"
  by (auto simp: exiting_finish_def split: proxy_stop.splits option.splits)










lemma preparation_waits_positive [simp]: "0 < preparation_waits (Some e)"
  by (cases e) simp_all




section \<open>Steps\<close>













lemma births_absent_waits [simp]: "sum_list (map leaving_waits (births_absent awaiting)) = 0"
  unfolding births_absent_def by (induction awaiting) auto




lemma preparation_waits_zero [simp]: "preparation_waits preparation = 0 \<longleftrightarrow> preparation = None"
  by (cases preparation rule: preparation_waits.cases) simp_all




section \<open>Handlers\<close>

definition leaves :: "('s, 'k, 'v, 'a, 'r, 'q) fixed_supervisor \<Rightarrow> ('k, 'v, 'a, 'r) fixed_shutdown
    \<Rightarrow> ('s, 'k, 'v, 'a, 'r, 'q) supervisor_acted \<Rightarrow> bool" where
  "leaves s shutdown acted \<longleftrightarrow> (case acted of (h', s', result) \<Rightarrow>
     s' = s\<lparr>fixed_roster := RosterShuttingDown shutdown\<rparr> \<or>
     (\<exists>shutdown' actions. fixed_roster s' = RosterShuttingDown shutdown' \<and> result = Inr actions \<and>
        shutdown_waits shutdown' < shutdown_waits shutdown \<and>
        become actions = shutdown_into_step shutdown' (retirement_of (fixed_recovery s'))))"

lemma leaves_kept [simp]: "leaves s shutdown (h', s\<lparr>fixed_roster := RosterShuttingDown shutdown\<rparr>, result)"
  by (simp add: leaves_def)

lemma leaves_rejected [simp]: "leaves s shutdown (input_rejected h' s (RosterShuttingDown shutdown) input)"
  by (simp add: input_rejected_def)


lemma leaves_repeated [simp]: "leaves s shutdown (retain_shutdown h' s shutdown operations requests)"
  by (simp add: leaves_def retain_shutdown_def)

lemma recovery_update_same [simp]: "s\<lparr>fixed_recovery := fixed_recovery s\<rparr> = s"
  by simp















end
