(* ===== verification/Spec2Isabelle.thy ===== *)
theory Spec2Isabelle
  imports Stash Machine Buffer Work_Queue Priority_Queue Rate_Limiter Order_Gate Sequencer
    Timers Lease Circuit_Breaker Deduplicator Correlator Acknowledgements Router Barrier Workflow
    Restart Cache Presence Discovery Operations
    Action_Settlement Termination Shutdown_Order Testkit
    Worker Proxy_State Proxy Proxy_Laws Proxy_Invariant Proxy_Shutdown
    Template_Base Proxy_Operation Roster_Supervisor Roster_Conservation Roster_Rejection Roster_Queries
    Roster_Startup Roster_Leaving
begin

text \<open>
  A verification development of the behavior algebra and its catalogue of actors.

  \<^bold>\<open>The program.\<close> \<^verbatim>\<open>crates/behavior\<close> defines actors as folds: a behavior takes one event at a time
  and returns its actions (typed sends, ordered creations, a verdict to continue, change phase or
  stop) or an error, and an interpreter that is not part of the repository carries the actions out.
  \<^verbatim>\<open>crates/actors\<close> is a catalogue of such folds and of wrappers that compose with any inner fold:
  stashes and a deferring state machine, queues, routers and other routing actors, timers, workflow
  coordination, discovery, operations, lifecycle and shutdown, and templates for supervisors and
  pools. \<^verbatim>\<open>crates/behavior-testkit\<close> drives folds in tests.

  \<^bold>\<open>How it is modelled.\<close> A fold is a HOL function from state and event to state and result; an
  infallible one returns \<open>state \<times> actions\<close>, a fallible one \<open>state \<times> (error + actions)\<close>, so that
  every early return is a branch and the state after an error is part of the model. A trait is a
  record of its operations (\<open>behavior\<close>, \<open>send_effects\<close>, \<open>user_event\<close>, \<open>send_lane\<close>,
  \<open>source_lane\<close>, \<open>routing_strategy\<close>), its laws are the assumptions of a locale, and every
  implementation of the source is an interpretation of it. \<^verbatim>\<open>Vec\<close> and \<^verbatim>\<open>VecDeque\<close> are lists,
  \<^verbatim>\<open>BTreeMap\<close> is a sorted association list behind the locale \<open>ordered_map\<close>, \<^verbatim>\<open>u64\<close> and \<^verbatim>\<open>u32\<close> are
  words with their checked and saturating operations, \<^verbatim>\<open>usize\<close> counts of collections are naturals,
  durations are naturals and instants integers. Recipients and addresses are values of a type
  variable. A panic (\<^verbatim>\<open>expect\<close>) is an output of its own, shown not to happen.

  \<^bold>\<open>The theories.\<close>
  \<^descr>[Prelude, Keyed_Vec, Ordered_Map] shared list, option and word lemmas; the idioms of keyed
    vectors; ordered maps.
  \<^descr>[Behavior_Core] \<^verbatim>\<open>behavior/src\<close>: \<^verbatim>\<open>next.rs\<close>, \<^verbatim>\<open>transition.rs\<close>, \<^verbatim>\<open>user_event.rs\<close>, the action
    algebra of \<^verbatim>\<open>effects/actions.rs\<close> and \<^verbatim>\<open>effects/sending.rs\<close>, delivery routes; \<open>run\<close>, the run of a
    fold over a list of events; and the locales every component proof goes through:
    \<open>fold_invariant\<close> (what each step keeps, each run keeps), \<open>conserving_fold\<close> and \<open>fifo_fold\<close>
    (nothing lost, order kept), \<open>accounted_fold\<close> (no overspending), \<open>refined_fold\<close> (a run is the run
    of a specification), \<open>traced_fold\<close> (a relation between the history and the state).
  \<^descr>[Settlement, Source_Custody, Creation, Action_Settlement] the interpretation of actions
    (\<^verbatim>\<open>effects/sending.rs\<close>, \<^verbatim>\<open>effects/actions.rs\<close>, \<^verbatim>\<open>actor/creation.rs\<close>). An \<^verbatim>\<open>async\<close> interpretation
    works on a progress slot that lives outside the future; the model is the function on that slot,
    and a future dropped at an await is a host that leaves the loaned slot as it is. The host is a
    function on the loaned input and reply; \<open>answering_host\<close>, \<open>loaning_host\<close>, \<open>whole_dispatch\<close>,
    \<open>establishing_host\<close> and \<open>admitting_host\<close> say what the documentation of the host traits asks of it.
  \<^descr>[Stash, Machine] \<^verbatim>\<open>stash/\<close> and \<^verbatim>\<open>machine.rs\<close>, over any lawful inner behavior.
  \<^descr>[Buffer, Work_Queue, Priority_Queue, Rate_Limiter, Order_Gate, Sequencer, Deduplicator,
    Correlator, Acknowledgements, Circuit_Breaker, Router] \<^verbatim>\<open>routing/\<close>. The router is proved against
    the locale \<open>lawful_strategy\<close> and the strategies are its interpretations; hash functions are
    parameters.
  \<^descr>[Timers, Lease] \<^verbatim>\<open>time/\<close> and \<^verbatim>\<open>protocol/timer.rs\<close>: leases of generations, schedules and the four
    timed wrappers; the fencing lease.
  \<^descr>[Latch, Barrier, Workflow] \<^verbatim>\<open>workflow/\<close>.
  \<^descr>[Cache, Presence, Discovery, Operations] \<^verbatim>\<open>persistence/cache.rs\<close>, \<^verbatim>\<open>discovery/\<close>, \<^verbatim>\<open>operations/\<close>.
  \<^descr>[Restart] \<^verbatim>\<open>templates/restart.rs\<close>: release schedules, the windowed restart budget and the
    admission that proposes both together.
  \<^descr>[Termination, Shutdown, Shutdown_Order] \<^verbatim>\<open>termination.rs\<close>, \<^verbatim>\<open>watch.rs\<close>, \<^verbatim>\<open>shutdown.rs\<close>,
    \<^verbatim>\<open>lifecycle/\<close> and the observation types of \<^verbatim>\<open>protocol/\<close>; an \<^verbatim>\<open>Arc\<close> compared by \<^verbatim>\<open>ptr_eq\<close> is a
    pointer with its value.
  \<^descr>[Worker, Proxy_State, Proxy] \<^verbatim>\<open>templates/worker/\<close> and \<^verbatim>\<open>templates/proxy/\<close>: what a worker goes through
    (creation, initialization, startup, shutdown) and the stable proxy that hosts one worker at a
    time, with every transition of its fold. An identity made with \<^verbatim>\<open>Arc::new\<close> is a token of a heap
    that the fold threads through its steps.
  \<^descr>[Proxy_Laws, Proxy_Invariant, Proxy_Shutdown] the laws each step of the proxy obeys, what they
    give along runs, and its shutdown.
  \<^descr>[Template_Base, Proxy_Operation] what the templates share: worker preparation and its source, drain
    policies, lifecycle and diagnostic routes (\<^verbatim>\<open>templates/worker/\<close>), and the operation witnesses over
    a stable proxy with their settlement and the creation of a proxy (\<^verbatim>\<open>templates/proxy/operation.rs\<close>,
    \<^verbatim>\<open>creation.rs\<close>).
  \<^descr>[Roster_State, Roster_Members, Roster_Recovery, Roster_Shutdown, Roster_Owners, Roster_Supervisor]
    \<^verbatim>\<open>templates/supervisor/\<close>: the fixed supervisor. Roster_State has the data of a roster (its members,
    one datatype constructor per ownership state of the source), Roster_Members the members that start,
    run and stop, Roster_Recovery the recovery of a stopped worker (preparation, restart delay,
    replacement), Roster_Shutdown the ordered departure of all members, Roster_Owners the roster's own
    operations, Roster_Supervisor the fold with its builder, one definition per handler. Moving an
    owner out of the roster and back is a value passed along, as the ownership types of the source are;
    the worker source and the preparation are called outside the fold and answer with events.
  \<^descr>[Roster_Offers, Roster_Custody, Roster_Conservation, Roster_Rejection, Roster_Queries,
    Roster_Startup, Roster_Leaving] what the fixed supervisor guarantees. The handlers of a roster offer
    an input to its owners in turn; the locales \<open>offering\<close>, \<open>keeping\<close> and \<open>consuming\<close> say what an owner
    that takes or refuses an input keeps, and are interpreted for every operation of an owner.
  \<^descr>[Testkit] \<^verbatim>\<open>behavior-testkit/src\<close>: the driver and the inactivity model.

  \<^bold>\<open>What is shown.\<close> Each component has the invariant its constructor establishes and every step
  keeps, its behaviour over arbitrary histories (order, exactly-once delivery, bounds, freshness of
  generations), and for wrappers the exact effect on the inner behavior. Refinements: the registry
  and the correlator implement finite maps, the coordinator for several child types implements the
  one for a single type, a layered interpretation is one pass over the items, the receive timeout
  implements the test kit's history model. Termination and progress: the machine's drain, the
  workflow's validation, the layering of a shutdown tree and the driver terminate on all inputs; an
  accepted workflow always has an active step; a requested shutdown completes with the reports of
  its children; settled results all return to their emitter.
  The stable proxy keeps its state well-formed, accounts for every worker and startup plan it was
  given, has one worker at a time, and its shutdown is moved only by the reports it waits for and
  ends when there are none; one order of reports, in which the result a replaced worker owes comes
  early, makes it wait for a report that was already returned as unexpected.
  The fixed supervisor holds every declared role in one place at its declared position whatever it
  receives, keeps its startup limit whenever it sends a start, returns an input none of its members
  takes whole in one diagnostic, answers its two queries consistently, and a shutdown starts no
  worker and ends after finitely many of the reports it waits for.

  \<^bold>\<open>Bounds and fuel.\<close> Loops are structural or have a measure. The only fuel is in \<open>offer_rounds\<close> of
  Source_Custody, the rounds in which an emitter is offered its results: as many rounds as there
  are results and one more are shown to be enough.

  \<^bold>\<open>Not modelled.\<close> The dynamic supervisor (\<^verbatim>\<open>templates/supervisor/directory/\<close>) and the pools
  (\<^verbatim>\<open>templates/pool/\<close>), which are further owners of the proxies, operations and restart policy modelled
  here; the interpretation of heterogeneous shutdown requests and the macro of
  \<^verbatim>\<open>lifecycle/child_shutdown.rs\<close>; message adapters and typed addressing; type-level machinery (occurrence
  resolution, protocol products, the fences that keep \<^verbatim>\<open>transition\<close> from being called directly), the
  derive macros and the build tooling. Formatting, cloning and accessor implementations carry no
  behaviour of their own.
\<close>

end
